(* ===== verification/Prelude.thy ===== *)
theory Prelude
  imports Main "HOL-Library.AList" "HOL-Library.Word"
begin

text \<open>
  Shared vocabulary of the development: Rust's fixed-width unsigned arithmetic written out
  on \<open>nat\<close>, results with early return, hash maps as association lists with their lookup and
  total laws, byte encodings, and the interface locales that several components rely on.
\<close>

named_theorems u64_defs "definitions of the fixed-width arithmetic"
named_theorems wf_intros "preservation of well-formedness by the operations"

section \<open>Fixed-width unsigned arithmetic\<close>

text \<open>
  A \<open>u64\<close>, \<open>usize\<close> (on the 64-bit targets the node supports) or \<open>u128\<close> value is a \<open>nat\<close>;
  each Rust operation that can leave the width says what it does there.
\<close>

definition U64_MAX :: nat where "U64_MAX = 18446744073709551615"

definition U128_MAX :: nat where "U128_MAX = 340282366920938463463374607431768211455"

lemma U64_MAX_pow: "U64_MAX = 2 ^ 64 - 1"
  by (simp add: U64_MAX_def)

lemma U128_MAX_pow: "U128_MAX = 2 ^ 128 - 1"
  by (simp add: U128_MAX_def)

text \<open>\<open>checked_add\<close>, \<open>checked_mul\<close>: \<open>None\<close> when the exact result does not fit.\<close>

definition checked_add64 :: "nat \<Rightarrow> nat \<Rightarrow> nat option" where
  [u64_defs]: "checked_add64 a b = (if a + b \<le> U64_MAX then Some (a + b) else None)"

definition checked_mul64 :: "nat \<Rightarrow> nat \<Rightarrow> nat option" where
  [u64_defs]: "checked_mul64 a b = (if a * b \<le> U64_MAX then Some (a * b) else None)"

text \<open>\<open>saturating_add\<close>, \<open>saturating_mul\<close>, \<open>saturating_sub\<close>: clamped to the width.\<close>

definition sat_add64 :: "nat \<Rightarrow> nat \<Rightarrow> nat" where
  [u64_defs]: "sat_add64 a b = min (a + b) U64_MAX"

definition sat_mul64 :: "nat \<Rightarrow> nat \<Rightarrow> nat" where
  [u64_defs]: "sat_mul64 a b = min (a * b) U64_MAX"

definition sat_add128 :: "nat \<Rightarrow> nat \<Rightarrow> nat" where
  [u64_defs]: "sat_add128 a b = min (a + b) U128_MAX"

definition sat_mul128 :: "nat \<Rightarrow> nat \<Rightarrow> nat" where
  [u64_defs]: "sat_mul128 a b = min (a * b) U128_MAX"

definition sat_sub :: "nat \<Rightarrow> nat \<Rightarrow> nat" where
  [u64_defs]: "sat_sub a b = a - b"

text \<open>
  Plain \<open>+\<close>, \<open>*\<close> and narrowing casts: the release profile of the workspace does not switch
  overflow checks on, so they wrap.
\<close>

definition wrap64 :: "nat \<Rightarrow> nat" where
  [u64_defs]: "wrap64 a = a mod (U64_MAX + 1)"

definition wrap128 :: "nat \<Rightarrow> nat" where
  [u64_defs]: "wrap128 a = a mod (U128_MAX + 1)"

definition wrap_add64 :: "nat \<Rightarrow> nat \<Rightarrow> nat" where
  [u64_defs]: "wrap_add64 a b = (a + b) mod (U64_MAX + 1)"

text \<open>\<open>div_ceil\<close>.\<close>

definition div_ceil :: "nat \<Rightarrow> nat \<Rightarrow> nat" where
  "div_ceil a b = (if a mod b = 0 then a div b else a div b + 1)"

lemma checked_add64_Some [simp]:
  "checked_add64 a b = Some c \<longleftrightarrow> c = a + b \<and> a + b \<le> U64_MAX"
  by (auto simp: checked_add64_def)

lemma checked_add64_None [simp]: "checked_add64 a b = None \<longleftrightarrow> U64_MAX < a + b"
  by (auto simp: checked_add64_def)

lemma sat_add64_le [simp]: "sat_add64 a b \<le> U64_MAX"
  by (simp add: sat_add64_def)

lemma sat_add64_exact: "a + b \<le> U64_MAX \<Longrightarrow> sat_add64 a b = a + b"
  by (simp add: sat_add64_def)

lemma wrap_add64_exact: "a + b \<le> U64_MAX \<Longrightarrow> wrap_add64 a b = a + b"
  by (simp add: wrap_add64_def)

lemma wrap64_exact: "a \<le> U64_MAX \<Longrightarrow> wrap64 a = a"
  by (simp add: wrap64_def)

lemma div_ceil_ge: "0 < b \<Longrightarrow> a \<le> div_ceil a b * b"
proof -
  assume b: "0 < b"
  have "a = a div b * b + a mod b" by simp
  moreover have "a mod b < b" using b by simp
  ultimately have "a \<le> a div b * b + b" by linarith
  then show ?thesis using div_mult_mod_eq [of a b] by (auto simp: div_ceil_def)
qed

lemma div_ceil_least: "0 < b \<Longrightarrow> a \<le> c * b \<Longrightarrow> div_ceil a b \<le> c"
proof -
  assume b: "0 < b" and le: "a \<le> c * b"
  then have "a div b \<le> c"
    using div_le_mono [OF le, of b] by simp
  moreover have "a mod b = 0" if "a div b = c"
    using le div_mult_mod_eq [of a b] that by simp
  ultimately show ?thesis by (cases "a div b = c") (auto simp: div_ceil_def)
qed

section \<open>Results with early return\<close>

text \<open>
  \<open>Result<T, E>\<close> is \<open>'e + 'a\<close> with \<open>Inl\<close> the error. \<open>and_then\<close> is the \<open>?\<close> operator on a
  function without side effects; \<open>run_then\<close> is \<open>?\<close> in a function that mutates state in place,
  where the state reached at the early return is what the caller keeps.
\<close>

fun and_then :: "'e + 'a \<Rightarrow> ('a \<Rightarrow> 'e + 'b) \<Rightarrow> 'e + 'b" where
  "and_then (Inl e) f = Inl e"
| "and_then (Inr a) f = f a"

fun map_err :: "('e \<Rightarrow> 'd) \<Rightarrow> 'e + 'a \<Rightarrow> 'd + 'a" where
  "map_err f (Inl e) = Inl (f e)"
| "map_err f (Inr a) = Inr a"

fun run_then :: "('e + 'a) \<times> 's \<Rightarrow> ('a \<Rightarrow> 's \<Rightarrow> ('e + 'b) \<times> 's) \<Rightarrow> ('e + 'b) \<times> 's" where
  "run_then (Inl e, s) f = (Inl e, s)"
| "run_then (Inr a, s) f = f a s"

fun ok_or :: "'a option \<Rightarrow> 'e \<Rightarrow> 'e + 'a" where
  "ok_or None e = Inl e"
| "ok_or (Some a) e = Inr a"

definition is_ok :: "'e + 'a \<Rightarrow> bool" where
  "is_ok r = (case r of Inl _ \<Rightarrow> False | Inr _ \<Rightarrow> True)"

lemma is_ok_simps [simp]: "is_ok (Inl e) = False" "is_ok (Inr a) = True"
  by (simp_all add: is_ok_def)

lemma and_then_Inr_iff: "and_then r f = Inr b \<longleftrightarrow> (\<exists>a. r = Inr a \<and> f a = Inr b)"
  by (cases r) auto

lemma and_then_is_ok: "is_ok (and_then r f) \<longleftrightarrow> (\<exists>a. r = Inr a \<and> is_ok (f a))"
  by (cases r) auto

lemma and_then_unit_ok: "is_ok (and_then (r :: 'e + unit) (\<lambda>_. k)) \<longleftrightarrow> is_ok r \<and> is_ok k"
  by (cases r) auto

lemma map_err_Inr_iff [simp]: "map_err f r = Inr a \<longleftrightarrow> r = Inr a"
  by (cases r) auto

lemma run_then_Inr_iff:
  "run_then p f = (Inr b, t) \<longleftrightarrow> (\<exists>a s. p = (Inr a, s) \<and> f a s = (Inr b, t))"
  by (cases p; cases "fst p") auto

lemma ok_or_Inr_iff [simp]: "ok_or v e = Inr a \<longleftrightarrow> v = Some a"
  by (cases v) auto

section \<open>Hash maps\<close>

text \<open>
  A \<open>HashMap<K, V>\<close> is an association list with distinct keys. The order of the list stands
  for the unspecified iteration order of the container: a lemma about every list is a lemma
  about every iteration order.
\<close>

type_synonym ('k, 'v) hash_map = "('k \<times> 'v) list"

definition hm_get :: "('k, 'v) hash_map \<Rightarrow> 'k \<Rightarrow> 'v option" where
  "hm_get m k = map_of m k"

definition hm_put :: "'k \<Rightarrow> 'v \<Rightarrow> ('k, 'v) hash_map \<Rightarrow> ('k, 'v) hash_map" where
  "hm_put k v m = AList.update k v m"

definition hm_del :: "'k \<Rightarrow> ('k, 'v) hash_map \<Rightarrow> ('k, 'v) hash_map" where
  "hm_del k m = AList.delete k m"

definition hm_wf :: "('k, 'v) hash_map \<Rightarrow> bool" where
  "hm_wf m = distinct (map fst m)"

definition hm_total :: "('v \<Rightarrow> nat) \<Rightarrow> ('k, 'v) hash_map \<Rightarrow> nat" where
  "hm_total w m = sum_list (map (\<lambda>kv. w (snd kv)) m)"

lemma hm_get_put: "hm_get (hm_put k v m) k' = (if k' = k then Some v else hm_get m k')"
  by (simp add: hm_get_def hm_put_def AList.update_conv')

lemma hm_get_del: "hm_get (hm_del k m) k' = (if k' = k then None else hm_get m k')"
  by (simp add: hm_get_def hm_del_def AList.delete_conv')

lemma hm_get_Nil [simp]: "hm_get [] k = None"
  by (simp add: hm_get_def)

lemma hm_wf_Nil [simp]: "hm_wf []"
  by (simp add: hm_wf_def)

lemma hm_wf_put [wf_intros]: "hm_wf m \<Longrightarrow> hm_wf (hm_put k v m)"
  by (simp add: hm_wf_def hm_put_def AList.distinct_update)

lemma hm_wf_del [wf_intros]: "hm_wf m \<Longrightarrow> hm_wf (hm_del k m)"
  by (simp add: hm_wf_def hm_del_def AList.distinct_delete)

lemma hm_total_put_new: "hm_get m k = None \<Longrightarrow> hm_total w (hm_put k v m) = hm_total w m + w v"
  unfolding hm_get_def hm_put_def hm_total_def
  by (induction m) (auto split: if_splits)

lemma hm_total_put_upd:
  "hm_get m k = Some u \<Longrightarrow> hm_total w (hm_put k v m) + w u = hm_total w m + w v"
  unfolding hm_get_def hm_put_def hm_total_def
  by (induction m) (auto split: if_splits)

lemma hm_delete_notin: "k \<notin> fst ` set m \<Longrightarrow> AList.delete k m = m"
  by (induction m) auto

lemma hm_total_del:
  "hm_wf m \<Longrightarrow> hm_get m k = Some u \<Longrightarrow> hm_total w (hm_del k m) + w u = hm_total w m"
  unfolding hm_get_def hm_del_def hm_total_def hm_wf_def
  by (induction m) (auto simp: hm_delete_notin split: if_splits)

lemma hm_put_same: "hm_get m k = Some v \<Longrightarrow> hm_put k v m = m"
  unfolding hm_get_def hm_put_def
  by (induction m) (auto split: if_splits)

lemma hm_put_append: "k \<notin> fst ` set m \<Longrightarrow> hm_put k v m = m @ [(k, v)]"
  unfolding hm_put_def by (induction m) auto

lemma fold_put_fresh:
  "distinct (map k xs) \<Longrightarrow> set (map k xs) \<inter> fst ` set m = {} \<Longrightarrow>
     fold (\<lambda>a s. hm_put (k a) (v a) s) xs m = m @ map (\<lambda>a. (k a, v a)) xs"
proof (induction xs arbitrary: m)
  case (Cons a xs)
  have "hm_put (k a) (v a) m = m @ [(k a, v a)]" using Cons.prems(2) by (intro hm_put_append) auto
  with Cons show ?case by force
qed simp

lemma hm_put_put: "hm_put k v (hm_put k u m) = hm_put k v m"
  unfolding hm_put_def by (induction m) auto

lemma hm_get_in_set: "hm_get m k = Some v \<Longrightarrow> (k, v) \<in> set m"
  by (simp add: hm_get_def map_of_SomeD)

lemma hm_in_set_get: "hm_wf m \<Longrightarrow> (k, v) \<in> set m \<Longrightarrow> hm_get m k = Some v"
  by (simp add: hm_get_def hm_wf_def map_of_is_SomeI)

lemma hm_total_ge: "hm_get m k = Some v \<Longrightarrow> w v \<le> hm_total w m"
proof -
  assume "hm_get m k = Some v"
  then have "w v \<in> set (map (\<lambda>kv. w (snd kv)) m)"
    by (force dest: hm_get_in_set)
  then show ?thesis
    unfolding hm_total_def using member_le_sum_list by blast
qed

lemma hm_keys_put: "map fst (hm_put k v m) = (if k \<in> set (map fst m) then map fst m else map fst m @ [k])"
  unfolding hm_put_def by (simp add: AList.update_keys)

lemma hm_get_None_iff: "hm_get m k = None \<longleftrightarrow> k \<notin> fst ` set m"
  by (simp add: hm_get_def map_of_eq_None_iff)

subsection \<open>The keyed-store interface\<close>

text \<open>
  What the ledgers rely on from their container: the lookup laws and, for the quantity each
  entry carries, how the total over all entries moves when an entry is written or removed.
\<close>

locale keyed_store =
  fixes get :: "'m \<Rightarrow> 'k \<Rightarrow> 'v option"
    and put :: "'k \<Rightarrow> 'v \<Rightarrow> 'm \<Rightarrow> 'm"
    and del :: "'k \<Rightarrow> 'm \<Rightarrow> 'm"
    and inv :: "'m \<Rightarrow> bool"
  assumes get_put: "get (put k v m) k' = (if k' = k then Some v else get m k')"
    and get_del: "get (del k m) k' = (if k' = k then None else get m k')"
    and inv_put: "inv m \<Longrightarrow> inv (put k v m)"
    and inv_del: "inv m \<Longrightarrow> inv (del k m)"
begin

lemma get_put_other: "k' \<noteq> k \<Longrightarrow> get (put k v m) k' = get m k'"
  by (simp add: get_put)

lemma get_two_puts:
  "a \<noteq> b \<Longrightarrow> get (put b y (put a x m)) a = Some x \<and> get (put b y (put a x m)) b = Some y"
  by (simp add: get_put)

end

locale weighted_store = keyed_store get put del inv
  for get :: "'m \<Rightarrow> 'k \<Rightarrow> 'v option" and put :: "'k \<Rightarrow> 'v \<Rightarrow> 'm \<Rightarrow> 'm" and del :: "'k \<Rightarrow> 'm \<Rightarrow> 'm"
    and inv :: "'m \<Rightarrow> bool" +
  fixes total :: "'m \<Rightarrow> nat"
    and weight :: "'v \<Rightarrow> nat"
  assumes total_put_new: "get m k = None \<Longrightarrow> total (put k v m) = total m + weight v"
    and total_put_upd: "get m k = Some u \<Longrightarrow> total (put k v m) + weight u = total m + weight v"
    and total_del: "inv m \<Longrightarrow> get m k = Some u \<Longrightarrow> total (del k m) + weight u = total m"
begin

text \<open>Moving a quantity between two entries keeps the total.\<close>

lemma total_move:
  assumes "get m a = Some x" and "get m b = Some y" and "a \<noteq> b"
    and "weight x = weight x' + d" and "weight y' = weight y + d"
  shows "total (put b y' (put a x' m)) = total m"
proof -
  have "total (put a x' m) + weight x = total m + weight x'"
    using assms(1) by (rule total_put_upd)
  moreover have "get (put a x' m) b = Some y"
    using assms(2,3) by (simp add: get_put_other)
  then have "total (put b y' (put a x' m)) + weight y = total (put a x' m) + weight y'"
    by (rule total_put_upd)
  ultimately show ?thesis using assms(4,5) by simp
qed

text \<open>Taking a quantity out of an entry lowers the total by exactly that much, and back.\<close>

lemma total_take:
  "get m k = Some u \<Longrightarrow> weight u = weight v + d \<Longrightarrow> total m = total (put k v m) + d"
  using total_put_upd [of m k u v] by simp

lemma total_give:
  "get m k = Some u \<Longrightarrow> weight v = weight u + d \<Longrightarrow> total (put k v m) = total m + d"
  using total_put_upd [of m k u v] by simp

lemma total_same:
  "get m k = Some u \<Longrightarrow> weight v = weight u \<Longrightarrow> total (put k v m) = total m"
  using total_put_upd [of m k u v] by simp

end

section \<open>Bytes\<close>

type_synonym byte = "8 word"

fun le_bytes :: "nat \<Rightarrow> nat \<Rightarrow> byte list" where
  "le_bytes 0 n = []"
| "le_bytes (Suc k) n = word_of_nat (n mod 256) # le_bytes k (n div 256)"

fun le_value :: "byte list \<Rightarrow> nat" where
  "le_value [] = 0"
| "le_value (b # bs) = unat b + 256 * le_value bs"

definition be_bytes :: "nat \<Rightarrow> nat \<Rightarrow> byte list" where
  "be_bytes k n = rev (le_bytes k n)"

definition be_value :: "byte list \<Rightarrow> nat" where
  "be_value bs = le_value (rev bs)"

lemma length_le_bytes [simp]: "length (le_bytes k n) = k"
  by (induction k arbitrary: n) auto

lemma length_be_bytes [simp]: "length (be_bytes k n) = k"
  by (simp add: be_bytes_def)

lemma unat_byte_of_nat [simp]: "unat (word_of_nat (n mod 256) :: byte) = n mod 256"
  by (simp add: unat_of_nat)

lemma le_value_le_bytes: "le_value (le_bytes k n) = n mod 256 ^ k"
proof (induction k arbitrary: n)
  case 0
  then show ?case by simp
next
  case (Suc k)
  have "n mod (256 * 256 ^ k) = 256 * ((n div 256) mod 256 ^ k) + n mod 256"
    by (rule mod_mult2_eq)
  moreover have "le_value (le_bytes (Suc k) n) = n mod 256 + 256 * le_value (le_bytes k (n div 256))"
    by (simp only: le_bytes.simps le_value.simps unat_byte_of_nat)
  ultimately show ?case by (simp only: Suc.IH power_Suc add.commute)
qed

lemma be_value_be_bytes: "be_value (be_bytes k n) = n mod 256 ^ k"
  by (simp add: be_value_def be_bytes_def le_value_le_bytes)

lemma le_bytes_inject:
  assumes "a < 256 ^ k" and "b < 256 ^ k"
  shows "le_bytes k a = le_bytes k b \<longleftrightarrow> a = b"
  using assms by (metis le_value_le_bytes mod_less)

lemma be_bytes_inject:
  assumes "a < 256 ^ k" and "b < 256 ^ k"
  shows "be_bytes k a = be_bytes k b \<longleftrightarrow> a = b"
  using le_bytes_inject [OF assms] by (simp add: be_bytes_def)

lemma le_value_last: "le_value (bs @ [b]) = le_value bs + 256 ^ length bs * unat b"
  by (induction bs) (simp_all add: algebra_simps)

lemma nth_le_bytes: "i < k \<Longrightarrow> le_bytes k n ! i = word_of_nat (n div 256 ^ i mod 256)"
  by (induction k arbitrary: n i) (auto simp: nth_Cons div_mult2_eq split: nat.split)

lemma le_value_bound: "le_value bs < 256 ^ length bs"
proof (induction bs)
  case (Cons b bs)
  have "unat b < 256" using unsigned_less [of b] by simp
  then show ?case using Cons.IH by simp
qed simp

lemma le_bytes_le_value: "le_bytes (length bs) (le_value bs) = bs"
proof (induction bs)
  case (Cons b bs)
  have b: "unat b < 256" using unsigned_less [of b] by simp
  then have "(unat b + 256 * le_value bs) mod 256 = unat b"
    and "(unat b + 256 * le_value bs) div 256 = le_value bs"
    by simp_all
  then show ?case using Cons.IH by simp
qed simp

lemma u64_bytes: "a \<le> U64_MAX \<Longrightarrow> a < 256 ^ 8"
  by (simp add: U64_MAX_def)

section \<open>Iteration with early return\<close>

text \<open>A \<open>for\<close> loop whose body may return an error.\<close>

fun for_each :: "('a \<Rightarrow> 'e + unit) \<Rightarrow> 'a list \<Rightarrow> 'e + unit" where
  "for_each f [] = Inr ()"
| "for_each f (x # xs) = and_then (f x) (\<lambda>_. for_each f xs)"

lemma for_each_ok_iff: "is_ok (for_each f xs) \<longleftrightarrow> (\<forall>x \<in> set xs. is_ok (f x))"
  by (induction xs) (auto simp: and_then_is_ok is_ok_def split: sum.splits)

text \<open>A \<open>for\<close> loop that threads a state and may return an error.\<close>

fun fold_while_ok :: "('a \<Rightarrow> 's \<Rightarrow> ('e + unit) \<times> 's) \<Rightarrow> 'a list \<Rightarrow> 's \<Rightarrow> ('e + unit) \<times> 's" where
  "fold_while_ok f [] s = (Inr (), s)"
| "fold_while_ok f (x # xs) s = run_then (f x s) (\<lambda>_ t. fold_while_ok f xs t)"

lemma fold_while_ok_invariant:
  assumes step: "\<And>x s r t. x \<in> set xs \<Longrightarrow> P s \<Longrightarrow> f x s = (r, t) \<Longrightarrow> P t"
    and start: "P s" and run: "fold_while_ok f xs s = (r, t)"
  shows "P t"
  using step start run
proof (induction xs arbitrary: s)
  case Nil
  then show ?case by simp
next
  case (Cons x xs)
  obtain r' s' where fx: "f x s = (r', s')" by (cases "f x s")
  have s': "P s'" using Cons.prems(1) [of x s r' s'] Cons.prems(2) fx by simp
  show ?case
  proof (cases r')
    case (Inl e)
    then show ?thesis using Cons.prems(3) fx s' by simp
  next
    case (Inr u)
    have step: "P t" if "y \<in> set xs" "P s" "f y s = (r, t)" for y s r t
      by (rule Cons.prems(1)) (use that in auto)
    have "fold_while_ok f xs s' = (r, t)" using Cons.prems(3) fx Inr by simp
    with step s' show ?thesis by (rule Cons.IH)
  qed
qed

section \<open>Sums over lists\<close>

lemma sum_list_filter_split:
  "sum_list (map f (filter P xs)) + sum_list (map f (filter (\<lambda>x. \<not> P x) xs)) = sum_list (map f xs)"
  for f :: "'a \<Rightarrow> nat"
  by (induction xs) auto

text \<open>\<open>Iterator::position\<close> and \<open>Vec::insert\<close>.\<close>

fun position :: "('a \<Rightarrow> bool) \<Rightarrow> 'a list \<Rightarrow> nat option" where
  "position p [] = None"
| "position p (x # xs) = (if p x then Some 0 else map_option Suc (position p xs))"

definition insert_at :: "nat \<Rightarrow> 'a \<Rightarrow> 'a list \<Rightarrow> 'a list" where
  "insert_at i x xs = take i xs @ x # drop i xs"

lemma position_Some:
  "position p xs = Some i \<Longrightarrow> i < length xs \<and> p (xs ! i) \<and> (\<forall>j < i. \<not> p (xs ! j))"
proof (induction xs arbitrary: i)
  case (Cons x xs)
  show ?case
  proof (cases "p x")
    case True
    with Cons.prems show ?thesis by simp
  next
    case False
    with Cons.prems obtain k where k: "position p xs = Some k" "i = Suc k" by auto
    from Cons.IH [OF k(1)] False k(2) show ?thesis by (auto simp: less_Suc_eq_0_disj)
  qed
qed simp

lemma position_None: "position p xs = None \<longleftrightarrow> (\<forall>x \<in> set xs. \<not> p x)"
  by (induction xs) auto

lemma sum_list_insert_at: "sum_list (map f (insert_at i x xs)) = sum_list (map f xs) + f x"
  for f :: "'a \<Rightarrow> nat"
proof -
  have "sum_list (map f (take i xs)) + sum_list (map f (drop i xs)) = sum_list (map f xs)"
    by (metis append_take_drop_id map_append sum_list_append)
  then show ?thesis by (simp add: insert_at_def)
qed

lemma sum_list_update_add:
  "i < length xs \<Longrightarrow> sum_list (map f (xs[i := y])) + f (xs ! i) = sum_list (map f xs) + f y"
  for f :: "'a \<Rightarrow> nat"
  by (induction xs arbitrary: i) (auto split: nat.splits)

lemma set_insert_at: "set (insert_at i x xs) = insert x (set xs)"
  unfolding insert_at_def using set_append [of "take i xs" "drop i xs"] by simp

end
