(* ===== verification/Constants.thy ===== *)
theory Constants
  imports Prelude
begin

text \<open>
  The consensus and mempool constants of \<open>crates/core/src/constants.rs\<close>, with the arithmetic
  relations between them that the documentation states.
\<close>

named_theorems const_defs "values of the protocol constants"

definition FLAKES_PER_OPL :: nat where [const_defs]: "FLAKES_PER_OPL = 1000000"

definition DECIMAL_PLACES :: nat where [const_defs]: "DECIMAL_PLACES = 6"

definition BASE_REWARD :: nat where [const_defs]: "BASE_REWARD = 332 * FLAKES_PER_OPL"

definition MIN_DIFFICULTY :: nat where [const_defs]: "MIN_DIFFICULTY = 1"

definition GENESIS_DIFFICULTY :: nat where [const_defs]: "GENESIS_DIFFICULTY = 7"

definition EPOCH :: nat where [const_defs]: "EPOCH = 960"

definition BLOCKS_PER_YEAR :: nat where
  [const_defs]: "BLOCKS_PER_YEAR = (365 * 86400 + 86400 div 4) div 90"

definition UNBONDING_DELAY_BLOCKS :: nat where [const_defs]: "UNBONDING_DELAY_BLOCKS = EPOCH"

definition MIN_FEE :: nat where [const_defs]: "MIN_FEE = 1"

definition BLOCK_TARGET_TIME_MS :: nat where [const_defs]: "BLOCK_TARGET_TIME_MS = 90000"

definition BLOCK_TARGET_TIME_SECS :: nat where [const_defs]: "BLOCK_TARGET_TIME_SECS = 90"

definition MIN_BOND_STAKE :: nat where [const_defs]: "MIN_BOND_STAKE = FLAKES_PER_OPL"

definition BLOCK_VERSION :: nat where [const_defs]: "BLOCK_VERSION = 4"

definition SIGNATURE_TYPE_ED25519 :: nat where [const_defs]: "SIGNATURE_TYPE_ED25519 = 0"

definition MEMPOOL_MAX_SIZE_BYTES :: nat where [const_defs]: "MEMPOOL_MAX_SIZE_BYTES = 100000000"

definition MEMPOOL_MAX_TXS_PER_ACCOUNT :: nat where [const_defs]: "MEMPOOL_MAX_TXS_PER_ACCOUNT = 50"

definition MEMPOOL_TX_EXPIRY_SECS :: nat where [const_defs]: "MEMPOOL_TX_EXPIRY_SECS = 86400"

definition TX_MAX_SIZE_BYTES :: nat where [const_defs]: "TX_MAX_SIZE_BYTES = 100000"

definition MAX_TRANSACTIONS_PER_BLOCK :: nat where [const_defs]: "MAX_TRANSACTIONS_PER_BLOCK = 10000"

definition MAX_ATTESTATIONS_PER_BLOCK :: nat where [const_defs]: "MAX_ATTESTATIONS_PER_BLOCK = 1024"

definition FINALITY_CONFIDENCE_MILLI :: nat where [const_defs]: "FINALITY_CONFIDENCE_MILLI = 667"

definition MAX_BLOCK_SIZE_BYTES :: nat where [const_defs]: "MAX_BLOCK_SIZE_BYTES = 10485760"

definition CAPACITY_RATIO :: nat where
  [const_defs]: "CAPACITY_RATIO = div_ceil MEMPOOL_MAX_SIZE_BYTES MAX_BLOCK_SIZE_BYTES"

definition CONGESTION_THRESHOLD_PERMILLE :: nat where
  [const_defs]: "CONGESTION_THRESHOLD_PERMILLE = 1000 div CAPACITY_RATIO"

definition MAX_TX_DATA_SIZE_BYTES :: nat where [const_defs]: "MAX_TX_DATA_SIZE_BYTES = 1024"

definition MAX_FUTURE_BLOCK_TIME_SECS :: nat where [const_defs]: "MAX_FUTURE_BLOCK_TIME_SECS = 300"

definition MAINNET_CHAIN_ID :: nat where [const_defs]: "MAINNET_CHAIN_ID = 1"

lemma CAPACITY_RATIO_val [simp]: "CAPACITY_RATIO = 10"
  by (simp add: const_defs div_ceil_def)

lemma FLAKES_PER_OPL_pos [simp]: "0 < FLAKES_PER_OPL"
  by (simp add: const_defs)

lemma EPOCH_pos [simp]: "0 < EPOCH"
  by (simp add: const_defs)

end
