(* ===== verification/Types.thy ===== *)
theory Types
  imports Constants
begin

text \<open>
  The ledger's data types from \<open>crates/core/src/types.rs\<close> and the error type of
  \<open>crates/core/src/errors.rs\<close>. A 32-byte array is the 256-bit number its bytes spell
  big-endian, so the lexicographic order on the bytes is the order of the numbers.
\<close>

section \<open>Hashes and identifiers\<close>

datatype hash = Hash "256 word"

datatype object_id = ObjectId hash

instantiation hash :: linorder
begin

fun less_eq_hash :: "hash \<Rightarrow> hash \<Rightarrow> bool" where
  "less_eq_hash (Hash a) (Hash b) = (a \<le> b)"

fun less_hash :: "hash \<Rightarrow> hash \<Rightarrow> bool" where
  "less_hash (Hash a) (Hash b) = (a < b)"

instance
proof
  fix x y z :: hash
  show "(x < y) = (x \<le> y \<and> \<not> y \<le> x)" by (cases x; cases y) auto
  show "x \<le> x" by (cases x) auto
  show "x \<le> y \<Longrightarrow> y \<le> z \<Longrightarrow> x \<le> z" by (cases x; cases y; cases z) auto
  show "x \<le> y \<Longrightarrow> y \<le> x \<Longrightarrow> x = y" by (cases x; cases y) auto
  show "x \<le> y \<or> y \<le> x" by (cases x; cases y) auto
qed

end

instantiation object_id :: linorder
begin

fun less_eq_object_id :: "object_id \<Rightarrow> object_id \<Rightarrow> bool" where
  "less_eq_object_id (ObjectId a) (ObjectId b) = (a \<le> b)"

fun less_object_id :: "object_id \<Rightarrow> object_id \<Rightarrow> bool" where
  "less_object_id (ObjectId a) (ObjectId b) = (a < b)"

instance
proof
  fix x y z :: object_id
  show "(x < y) = (x \<le> y \<and> \<not> y \<le> x)" by (cases x; cases y) auto
  show "x \<le> x" by (cases x) auto
  show "x \<le> y \<Longrightarrow> y \<le> z \<Longrightarrow> x \<le> z" by (cases x; cases y; cases z) auto
  show "x \<le> y \<Longrightarrow> y \<le> x \<Longrightarrow> x = y" by (cases x; cases y) auto
  show "x \<le> y \<or> y \<le> x" by (cases x; cases y) auto
qed

end

definition hash_zero :: hash where "hash_zero = Hash 0"

definition hash_is_zero :: "hash \<Rightarrow> bool" where "hash_is_zero h = (h = Hash 0)"

fun hash_as_bytes :: "hash \<Rightarrow> byte list" where
  "hash_as_bytes (Hash w) = be_bytes 32 (unat w)"

definition hash_from_bytes :: "byte list \<Rightarrow> hash" where
  "hash_from_bytes bs = Hash (word_of_nat (be_value bs))"

definition object_id_zero :: object_id where "object_id_zero = ObjectId hash_zero"

fun object_id_hash :: "object_id \<Rightarrow> hash" where
  "object_id_hash (ObjectId h) = h"

definition object_id_as_bytes :: "object_id \<Rightarrow> byte list" where
  "object_id_as_bytes i = hash_as_bytes (object_id_hash i)"

lemma length_hash_as_bytes [simp]: "length (hash_as_bytes h) = 32"
  by (cases h) simp

lemma length_object_id_as_bytes [simp]: "length (object_id_as_bytes i) = 32"
  by (simp add: object_id_as_bytes_def)

lemma unat_256_bound: "unat (w :: 256 word) < 256 ^ 32"
  using unsigned_less [of w] by simp

lemma hash_as_bytes_inject [simp]: "hash_as_bytes a = hash_as_bytes b \<longleftrightarrow> a = b"
  by (cases a; cases b) (simp add: be_bytes_inject [OF unat_256_bound unat_256_bound] word_unat_eq_iff)

lemma hash_from_as_bytes [simp]: "hash_from_bytes (hash_as_bytes h) = h"
proof (cases h)
  case (Hash w)
  have "unat w mod 256 ^ 32 = unat w"
    using unat_256_bound [of w] by (rule mod_less)
  then show ?thesis
    by (simp only: Hash hash_from_bytes_def hash_as_bytes.simps be_value_be_bytes) simp
qed

lemma object_id_as_bytes_inject [simp]: "object_id_as_bytes a = object_id_as_bytes b \<longleftrightarrow> a = b"
  by (cases a; cases b) (simp add: object_id_as_bytes_def)

section \<open>Errors\<close>

text \<open>
  A formatted string is its \<open>format!\<close> template with the arguments in order. \<open>opolys_error\<close> has
  the variants of \<open>OpolysError\<close>; \<open>opolys_error_to_string\<close> is its \<open>Display\<close> implementation.
\<close>

datatype message = Fmt String.literal "fmt_arg list"
  and fmt_arg = ANat nat | AId object_id | AHash hash | AMsg message | AStr string

datatype opolys_error =
    InsufficientBalance (need: nat) (have_amount: nat)
  | InvalidNonce (expected: nat) (got: nat)
  | InvalidSignature
  | InvalidProofOfWork
  | AccountNotFound object_id
  | RefinerNotFound message
  | InsufficientStake nat nat
  | RefinerAlreadyBonded
  | RefinerNotBonded
  | InvalidParams message
  | InvalidTransaction message
  | BlockValidationFailed message
  | StorageError message
  | NetworkError message
  | MempoolFull
  | SerializationError message
  | GenesisError message
  | Custom message

fun opolys_error_to_string :: "opolys_error \<Rightarrow> message" where
  "opolys_error_to_string (InsufficientBalance n h) =
     Fmt (STR ''Insufficient balance: need {need}, have {have}'') [ANat n, ANat h]"
| "opolys_error_to_string (InvalidNonce e g) =
     Fmt (STR ''Invalid nonce: expected {expected}, got {got}'') [ANat e, ANat g]"
| "opolys_error_to_string InvalidSignature = Fmt (STR ''Invalid signature'') []"
| "opolys_error_to_string InvalidProofOfWork = Fmt (STR ''Invalid proof of work'') []"
| "opolys_error_to_string (AccountNotFound i) = Fmt (STR ''Account not found: {0}'') [AId i]"
| "opolys_error_to_string (RefinerNotFound m) = Fmt (STR ''Refiner not found: {0}'') [AMsg m]"
| "opolys_error_to_string (InsufficientStake n h) =
     Fmt (STR ''Insufficient stake: need {need}, have {have}'') [ANat n, ANat h]"
| "opolys_error_to_string RefinerAlreadyBonded = Fmt (STR ''Refiner already bonded'') []"
| "opolys_error_to_string RefinerNotBonded = Fmt (STR ''Refiner not bonded'') []"
| "opolys_error_to_string (InvalidParams m) = Fmt (STR ''Invalid params: {0}'') [AMsg m]"
| "opolys_error_to_string (InvalidTransaction m) = Fmt (STR ''Invalid transaction: {0}'') [AMsg m]"
| "opolys_error_to_string (BlockValidationFailed m) =
     Fmt (STR ''Block validation failed: {0}'') [AMsg m]"
| "opolys_error_to_string (StorageError m) = Fmt (STR ''Storage error: {0}'') [AMsg m]"
| "opolys_error_to_string (NetworkError m) = Fmt (STR ''Network error: {0}'') [AMsg m]"
| "opolys_error_to_string MempoolFull = Fmt (STR ''Mempool full'') []"
| "opolys_error_to_string (SerializationError m) = Fmt (STR ''Serialization error: {0}'') [AMsg m]"
| "opolys_error_to_string (GenesisError m) = Fmt (STR ''Genesis error: {0}'') [AMsg m]"
| "opolys_error_to_string (Custom m) = m"

section \<open>Transactions and blocks\<close>

datatype transaction_action =
    Transfer (recipient: object_id) (transfer_amount: nat)
  | RefinerBond (bond_amount: nat)
  | RefinerUnbond (unbond_request: nat)

datatype refiner_status =
    StatusNone | Bonding | Waiting | Active | Unbonding | Slashed

record block_header =
  bh_version :: nat
  bh_height :: nat
  bh_previous_hash :: hash
  bh_state_root :: hash
  bh_transaction_root :: hash
  bh_evidence_root :: hash
  bh_attestation_root :: hash
  bh_genesis_ceremony_hash :: hash
  bh_timestamp :: nat
  bh_difficulty :: nat
  bh_suggested_fee :: nat
  bh_extension_root :: "hash option"
  bh_producer :: object_id
  bh_pow_proof :: "byte list option"
  bh_refiner_signature :: "byte list option"

datatype block_production_kind = Genesis | Mined | Refined

definition production_kind :: "block_header \<Rightarrow> block_production_kind option" where
  "production_kind h =
     (case (bh_height h, bh_pow_proof h \<noteq> None, bh_refiner_signature h \<noteq> None) of
        (0, False, False) \<Rightarrow> Some Genesis
      | (0, _, _) \<Rightarrow> None
      | (_, True, False) \<Rightarrow> Some Mined
      | (_, False, True) \<Rightarrow> Some Refined
      | _ \<Rightarrow> None)"

definition is_mined :: "block_header \<Rightarrow> bool" where
  "is_mined h = (production_kind h = Some Mined)"

definition is_refined :: "block_header \<Rightarrow> bool" where
  "is_refined h = (production_kind h = Some Refined)"

record transaction =
  tx_id :: object_id
  tx_sender :: object_id
  tx_action :: transaction_action
  tx_fee :: nat
  tx_signature :: "byte list"
  tx_signature_type :: nat
  tx_nonce :: nat
  tx_chain_id :: nat
  tx_data :: "byte list"
  tx_public_key :: "byte list"

record double_sign_evidence =
  ev_producer :: object_id
  ev_producer_pubkey :: "byte list"
  ev_height :: nat
  ev_hash_a :: hash
  ev_signature_a :: "byte list"
  ev_hash_b :: hash
  ev_signature_b :: "byte list"

record block_attestation =
  at_refiner :: object_id
  at_refiner_pubkey :: "byte list"
  at_height :: nat
  at_block_hash :: hash
  at_signature :: "byte list"

record genesis_ceremony_data =
  gc_ceremony_timestamp :: nat
  gc_ceremony_master_hash :: "byte list"
  gc_operator_public_key :: "byte list"
  gc_operator_signature :: "byte list"
  gc_base_reward_flakes :: nat
  gc_production_tonnes_milli :: nat
  gc_price_usd_cents :: nat
  gc_blocks_per_year :: nat

record block =
  blk_header :: block_header
  blk_transactions :: "transaction list"
  blk_slash_evidence :: "double_sign_evidence list"
  blk_attestations :: "block_attestation list"
  blk_genesis_ceremony :: "genesis_ceremony_data option"

lemma production_kind_Genesis_iff:
  "production_kind h = Some Genesis \<longleftrightarrow>
     bh_height h = 0 \<and> bh_pow_proof h = None \<and> bh_refiner_signature h = None"
  by (auto simp: production_kind_def split: nat.splits bool.splits)

lemma production_kind_Mined_iff:
  "production_kind h = Some Mined \<longleftrightarrow>
     0 < bh_height h \<and> bh_pow_proof h \<noteq> None \<and> bh_refiner_signature h = None"
  by (auto simp: production_kind_def split: nat.splits bool.splits)

lemma production_kind_Refined_iff:
  "production_kind h = Some Refined \<longleftrightarrow>
     0 < bh_height h \<and> bh_pow_proof h = None \<and> bh_refiner_signature h \<noteq> None"
  by (auto simp: production_kind_def split: nat.splits bool.splits)

section \<open>Economic receipts and the mint ledger\<close>

record block_economic_receipt =
  er_height :: nat
  er_block_hash :: hash
  er_production_kind :: block_production_kind
  er_producer :: object_id
  er_difficulty :: nat
  er_vein_yield_milli :: nat
  er_gross_reward :: nat
  er_mine_assay_burned :: nat
  er_miner_credit :: nat
  er_successful_transaction_count :: nat
  er_ordinary_fees :: nat
  er_ordinary_fees_burned :: nat
  er_refiner_fee_income :: nat
  er_bond_unbond_assay_burned :: nat
  er_slashed_burned :: nat
  er_total_burned :: nat

record mint_ledger_totals =
  ml_genesis_issued :: nat
  ml_mined_gross_reward :: nat
  ml_mine_assay_burned :: nat
  ml_ordinary_fees_burned :: nat
  ml_bond_unbond_assay_burned :: nat
  ml_slashed_stake_burned :: nat
  ml_refiner_fee_income :: nat
  ml_mined_blocks :: nat
  ml_refined_blocks :: nat
  ml_successful_transactions :: nat

definition mint_ledger_default :: mint_ledger_totals where
  "mint_ledger_default = \<lparr> ml_genesis_issued = 0, ml_mined_gross_reward = 0,
     ml_mine_assay_burned = 0, ml_ordinary_fees_burned = 0, ml_bond_unbond_assay_burned = 0,
     ml_slashed_stake_burned = 0, ml_refiner_fee_income = 0, ml_mined_blocks = 0,
     ml_refined_blocks = 0, ml_successful_transactions = 0 \<rparr>"

definition record_genesis_issuance :: "nat \<Rightarrow> mint_ledger_totals \<Rightarrow> mint_ledger_totals" where
  "record_genesis_issuance amount l =
     l\<lparr>ml_genesis_issued := sat_add64 (ml_genesis_issued l) amount\<rparr>"

definition record_receipt :: "block_economic_receipt \<Rightarrow> mint_ledger_totals \<Rightarrow> mint_ledger_totals" where
  "record_receipt r l0 =
     (let l = (case er_production_kind r of
                 Genesis \<Rightarrow> l0
               | Mined \<Rightarrow> l0\<lparr>ml_mined_blocks := sat_add64 (ml_mined_blocks l0) 1,
                   ml_mined_gross_reward := sat_add64 (ml_mined_gross_reward l0) (er_gross_reward r)\<rparr>
               | Refined \<Rightarrow> l0\<lparr>ml_refined_blocks := sat_add64 (ml_refined_blocks l0) 1\<rparr>)
      in l\<lparr>ml_mine_assay_burned := sat_add64 (ml_mine_assay_burned l) (er_mine_assay_burned r),
           ml_ordinary_fees_burned := sat_add64 (ml_ordinary_fees_burned l) (er_ordinary_fees_burned r),
           ml_bond_unbond_assay_burned :=
             sat_add64 (ml_bond_unbond_assay_burned l) (er_bond_unbond_assay_burned r),
           ml_slashed_stake_burned := sat_add64 (ml_slashed_stake_burned l) (er_slashed_burned r),
           ml_refiner_fee_income := sat_add64 (ml_refiner_fee_income l) (er_refiner_fee_income r),
           ml_successful_transactions :=
             sat_add64 (ml_successful_transactions l) (er_successful_transaction_count r)\<rparr>)"

section \<open>Currency conversion and display\<close>

definition opl_to_flake :: "nat \<Rightarrow> nat" where
  "opl_to_flake opl = sat_mul64 opl FLAKES_PER_OPL"

definition flake_to_opl :: "nat \<Rightarrow> nat" where
  "flake_to_opl flakes = flakes div FLAKES_PER_OPL"

text \<open>Rust's \<open>{}\<close> and \<open>{:06}\<close> for unsigned integers.\<close>

definition digit_char :: "nat \<Rightarrow> char" where
  "digit_char d = char_of (48 + d)"

fun show_nat :: "nat \<Rightarrow> string" where
  "show_nat n = (if n < 10 then [digit_char n] else show_nat (n div 10) @ [digit_char (n mod 10)])"

declare show_nat.simps [simp del]

definition pad_zeros :: "nat \<Rightarrow> string \<Rightarrow> string" where
  "pad_zeros k s = replicate (k - length s) CHR ''0'' @ s"

definition format_flake_as_opl :: "nat \<Rightarrow> string" where
  "format_flake_as_opl flakes =
     (let opl = flakes div FLAKES_PER_OPL; frac = flakes mod FLAKES_PER_OPL
      in show_nat opl @ ''.'' @ pad_zeros 6 (show_nat frac) @ '' OPL'')"

end
