(* ===== verification/Crypto.thy ===== *)
theory Crypto
  imports Types
begin

text \<open>
  Hashing and signature verification from \<open>crates/crypto/src\<close>. The primitives come from
  third-party crates (blake3, ed25519-dalek, hex, borsh) and are the fields of the record
  \<open>externs\<close>, the first argument of every definition that calls them. What the crate itself
  writes, the domain tags, the payload layouts and the length checks, is defined here.
\<close>

record externs =
  x_blake3 :: "byte list \<Rightarrow> hash"
  x_hex_encode :: "byte list \<Rightarrow> string"
  x_hex_decode :: "string \<Rightarrow> byte list option"
  x_ed25519_key_valid :: "byte list \<Rightarrow> bool"
  x_ed25519_verify :: "byte list \<Rightarrow> byte list \<Rightarrow> byte list \<Rightarrow> bool"
  x_ed25519_verify_strict :: "byte list \<Rightarrow> byte list \<Rightarrow> byte list \<Rightarrow> bool"
  x_borsh_tx_body :: "object_id \<times> transaction_action \<times> nat \<times> nat \<times> nat \<Rightarrow> byte list option"
  x_borsh_transaction :: "transaction \<Rightarrow> byte list option"
  x_borsh_evidence :: "double_sign_evidence list \<Rightarrow> byte list option"
  x_borsh_attestations :: "block_attestation list \<Rightarrow> byte list option"
  x_borsh_ceremony :: "genesis_ceremony_data option \<Rightarrow> byte list option"
  x_borsh_block :: "block \<Rightarrow> byte list option"

section \<open>Streaming hasher\<close>

text \<open>\<open>blake3::Hasher\<close> digests the concatenation of the updates, in order.\<close>

type_synonym blake3_hasher = "byte list"

definition hasher_new :: blake3_hasher where "hasher_new = []"

definition hasher_update :: "blake3_hasher \<Rightarrow> byte list \<Rightarrow> blake3_hasher" where
  "hasher_update h d = h @ d"

definition hasher_finalize :: "'x externs_scheme \<Rightarrow> blake3_hasher \<Rightarrow> hash" where
  "hasher_finalize X h = x_blake3 X h"

definition blake3_hash :: "'x externs_scheme \<Rightarrow> byte list \<Rightarrow> hash" where
  "blake3_hash X d = hasher_finalize X (hasher_update hasher_new d)"

definition hash_with_domain :: "'x externs_scheme \<Rightarrow> byte list \<Rightarrow> byte list \<Rightarrow> hash" where
  "hash_with_domain X domain d =
     hasher_finalize X (hasher_update (hasher_update hasher_new domain) d)"

lemma hash_with_domain_eq: "hash_with_domain X domain d = x_blake3 X (domain @ d)"
  by (simp add: hash_with_domain_def hasher_finalize_def hasher_update_def hasher_new_def)

section \<open>Domain tags\<close>

text \<open>A Rust byte string literal.\<close>

definition ascii :: "string \<Rightarrow> byte list" where
  "ascii s = map (\<lambda>c. word_of_nat (of_char c)) s"

definition DOMAIN_TX_ID :: "byte list" where "DOMAIN_TX_ID = ascii ''OPL_TX_ID_V1''"
definition DOMAIN_BLOCK_HASH :: "byte list" where "DOMAIN_BLOCK_HASH = ascii ''OPL_BLOCK_HASH_V1''"
definition DOMAIN_OBJECT_ID :: "byte list" where "DOMAIN_OBJECT_ID = ascii ''OPL_OBJECT_ID_V1''"
definition DOMAIN_STATE_ROOT :: "byte list" where "DOMAIN_STATE_ROOT = ascii ''OPL_STATE_ROOT_V1''"
definition DOMAIN_TX_ROOT :: "byte list" where "DOMAIN_TX_ROOT = ascii ''OPL_TX_ROOT_V1''"
definition DOMAIN_EVIDENCE_ROOT :: "byte list" where
  "DOMAIN_EVIDENCE_ROOT = ascii ''OPL_EVIDENCE_ROOT_V1''"
definition DOMAIN_ATTESTATION_ROOT :: "byte list" where
  "DOMAIN_ATTESTATION_ROOT = ascii ''OPL_ATTESTATION_ROOT_V1''"
definition DOMAIN_GENESIS_CEREMONY_HASH :: "byte list" where
  "DOMAIN_GENESIS_CEREMONY_HASH = ascii ''OPL_GENESIS_CEREMONY_V1''"
definition DOMAIN_TX_SIGNATURE :: "byte list" where "DOMAIN_TX_SIGNATURE = ascii ''OPL_TX_V1''"
definition DOMAIN_REFINER_BLOCK_SIGNATURE :: "byte list" where
  "DOMAIN_REFINER_BLOCK_SIGNATURE = ascii ''OPL_REF_BLOCK_V1''"
definition DOMAIN_BLOCK_ATTESTATION_SIGNATURE :: "byte list" where
  "DOMAIN_BLOCK_ATTESTATION_SIGNATURE = ascii ''OPL_BLOCK_ATTEST_V1''"

section \<open>Identifiers and signing payloads\<close>

definition hash_to_object_id_with_domain ::
  "'x externs_scheme \<Rightarrow> byte list \<Rightarrow> byte list \<Rightarrow> object_id" where
  "hash_to_object_id_with_domain X domain d = ObjectId (hash_with_domain X domain d)"

definition hash_to_object_id :: "'x externs_scheme \<Rightarrow> byte list \<Rightarrow> object_id" where
  "hash_to_object_id X d = hash_to_object_id_with_domain X DOMAIN_OBJECT_ID d"

definition transaction_signing_payload ::
  "'x externs_scheme \<Rightarrow> object_id \<Rightarrow> transaction_action \<Rightarrow> nat \<Rightarrow> nat \<Rightarrow> nat \<Rightarrow>
   opolys_error + byte list" where
  "transaction_signing_payload X sender action fee nonce chain_id =
     and_then
       (ok_or (x_borsh_tx_body X (sender, action, fee, nonce, chain_id))
          (SerializationError (Fmt (STR ''Transaction signing payload serialization failed: {}'') [])))
       (\<lambda>tx_bytes. Inr (DOMAIN_TX_SIGNATURE @ tx_bytes))"

definition refiner_block_signing_payload :: "hash \<Rightarrow> byte list" where
  "refiner_block_signing_payload h = DOMAIN_REFINER_BLOCK_SIGNATURE @ hash_as_bytes h"

definition block_attestation_signing_payload :: "nat \<Rightarrow> hash \<Rightarrow> byte list" where
  "block_attestation_signing_payload height h =
     DOMAIN_BLOCK_ATTESTATION_SIGNATURE @ be_bytes 8 height @ hash_as_bytes h"

lemma refiner_block_signing_payload_inject [simp]:
  "refiner_block_signing_payload a = refiner_block_signing_payload b \<longleftrightarrow> a = b"
  by (simp add: refiner_block_signing_payload_def)

lemma block_attestation_signing_payload_inject:
  assumes "h1 \<le> U64_MAX" and "h2 \<le> U64_MAX"
  shows "block_attestation_signing_payload h1 a = block_attestation_signing_payload h2 b
     \<longleftrightarrow> h1 = h2 \<and> a = b"
  using be_bytes_inject [OF u64_bytes [OF assms(1)] u64_bytes [OF assms(2)]]
  by (simp add: block_attestation_signing_payload_def)

section \<open>ed25519 verification\<close>

definition ed25519_public_key_to_object_id :: "'x externs_scheme \<Rightarrow> byte list \<Rightarrow> object_id" where
  "ed25519_public_key_to_object_id X public_key =
     ObjectId (hash_with_domain X DOMAIN_OBJECT_ID public_key)"

text \<open>\<open>dst.iter_mut().zip(src)\<close> into a zeroed array of length \<open>n\<close>.\<close>

definition zip_into :: "nat \<Rightarrow> byte list \<Rightarrow> byte list" where
  "zip_into n src = take n src @ replicate (n - length src) 0"

lemma zip_into_exact: "length src = n \<Longrightarrow> zip_into n src = src"
  by (simp add: zip_into_def)

definition verify_ed25519 :: "'x externs_scheme \<Rightarrow> byte list \<Rightarrow> byte list \<Rightarrow> byte list \<Rightarrow> bool" where
  "verify_ed25519 X public_key message signature =
     (let key_len_ok = (length public_key = 32);
          sig_len_ok = (length signature = 64);
          pk_bytes = zip_into 32 public_key;
          sig_bytes = zip_into 64 signature
      in if \<not> x_ed25519_key_valid X pk_bytes then False
         else key_len_ok \<and> sig_len_ok \<and> x_ed25519_verify X pk_bytes message sig_bytes)"

lemma verify_ed25519_iff:
  "verify_ed25519 X pk m s \<longleftrightarrow>
     length pk = 32 \<and> length s = 64 \<and> x_ed25519_key_valid X pk \<and> x_ed25519_verify X pk m s"
  by (auto simp: verify_ed25519_def Let_def zip_into_exact)

section \<open>A concrete instance for the witnesses\<close>

text \<open>
  One instance of the parameters, on which the witnesses of the development evaluate: a constant
  digest, signatures that always verify and short serializations.
\<close>

definition demo_externs :: externs where
  "demo_externs =
     \<lparr> x_blake3 = (\<lambda>_. Hash 7), x_hex_encode = (\<lambda>_. ''00''), x_hex_decode = (\<lambda>_. Some []),
       x_ed25519_key_valid = (\<lambda>_. True), x_ed25519_verify = (\<lambda>_ _ _. True),
       x_ed25519_verify_strict = (\<lambda>_ _ _. True), x_borsh_tx_body = (\<lambda>_. Some [1]),
       x_borsh_transaction = (\<lambda>_. Some [1, 2, 3]), x_borsh_evidence = (\<lambda>_. Some []),
       x_borsh_attestations = (\<lambda>_. Some []), x_borsh_ceremony = (\<lambda>_. Some []),
       x_borsh_block = (\<lambda>_. Some [0]) \<rparr>"

definition demo_tx :: transaction where
  "demo_tx =
     \<lparr> tx_id = ObjectId (Hash 7), tx_sender = ObjectId (Hash 7), tx_action = Transfer (ObjectId (Hash 2)) 1000,
       tx_fee = 10, tx_signature = replicate 64 0, tx_signature_type = 0, tx_nonce = 0, tx_chain_id = 1,
       tx_data = [], tx_public_key = replicate 32 0 \<rparr>"

end
