(* ===== verification/Account.thy ===== *)
theory Account
  imports Crypto
begin

text \<open>
  The account ledger, \<open>crates/consensus/src/account.rs\<close>: accounts with balance and nonce, the
  store with its create, credit, debit and transfer operations, and the account state root.
  An operation that takes \<open>&mut self\<close> returns its result with the store it leaves behind, also
  on its error branches.
\<close>

section \<open>State\<close>

record account =
  acc_object_id :: object_id
  acc_balance :: nat
  acc_nonce :: nat
  acc_public_key :: "byte list option"

type_synonym account_store = "(object_id, account) hash_map"

record transfer_result =
  tr_amount :: nat
  tr_fee_burned :: nat
  tr_new_nonce :: nat

record account_externs = externs +
  x_borsh_account :: "account \<Rightarrow> byte list option"

section \<open>Operations\<close>

definition account_new :: "object_id \<Rightarrow> account" where
  "account_new i = \<lparr> acc_object_id = i, acc_balance = 0, acc_nonce = 0, acc_public_key = None \<rparr>"

definition account_with_public_key :: "object_id \<Rightarrow> byte list \<Rightarrow> account" where
  "account_with_public_key i pk =
     \<lparr> acc_object_id = i, acc_balance = 0, acc_nonce = 0, acc_public_key = Some pk \<rparr>"

definition can_spend :: "account \<Rightarrow> nat \<Rightarrow> bool" where
  "can_spend a amount = (amount \<le> acc_balance a)"

definition account_store_new :: account_store where
  "account_store_new = []"

definition all_accounts :: "account_store \<Rightarrow> account list" where
  "all_accounts s = map snd s"

definition load_from_accounts :: "account list \<Rightarrow> account_store" where
  "load_from_accounts accs = fold (\<lambda>a s. hm_put (acc_object_id a) a s) accs account_store_new"

definition create_account :: "object_id \<Rightarrow> account_store \<Rightarrow> (opolys_error + account) \<times> account_store" where
  "create_account i s =
     (if hm_get s i \<noteq> None
      then (Inl (InvalidParams (Fmt (STR ''Account already exists: {}'') [AId i])), s)
      else (Inr (account_new i), hm_put i (account_new i) s))"

definition get_account :: "account_store \<Rightarrow> object_id \<Rightarrow> account option" where
  "get_account s i = hm_get s i"

text \<open>Writing through \<open>get_account_mut\<close>: nothing happens for an unknown id.\<close>

definition modify_account :: "object_id \<Rightarrow> (account \<Rightarrow> account) \<Rightarrow> account_store \<Rightarrow> account_store" where
  "modify_account i f s = (case hm_get s i of None \<Rightarrow> s | Some a \<Rightarrow> hm_put i (f a) s)"

definition balance_overflow :: "object_id \<Rightarrow> nat \<Rightarrow> opolys_error" where
  "balance_overflow i amount =
     InvalidParams (Fmt (STR ''Balance overflow when crediting {} flakes to {}'') [ANat amount, AId i])"

definition credit :: "object_id \<Rightarrow> nat \<Rightarrow> account_store \<Rightarrow> (opolys_error + unit) \<times> account_store" where
  "credit i amount s =
     (case hm_get s i of
        None \<Rightarrow> (Inl (AccountNotFound i), s)
      | Some a \<Rightarrow>
          (case checked_add64 (acc_balance a) amount of
             None \<Rightarrow> (Inl (balance_overflow i amount), s)
           | Some b \<Rightarrow> (Inr (), hm_put i (a\<lparr>acc_balance := b\<rparr>) s)))"

definition can_credit :: "account_store \<Rightarrow> object_id \<Rightarrow> nat \<Rightarrow> opolys_error + unit" where
  "can_credit s i amount =
     (case hm_get s i of
        None \<Rightarrow> Inr ()
      | Some a \<Rightarrow>
          (case checked_add64 (acc_balance a) amount of
             None \<Rightarrow> Inl (balance_overflow i amount)
           | Some _ \<Rightarrow> Inr ()))"

definition debit :: "object_id \<Rightarrow> nat \<Rightarrow> account_store \<Rightarrow> (opolys_error + unit) \<times> account_store" where
  "debit i amount s =
     (case hm_get s i of
        None \<Rightarrow> (Inl (AccountNotFound i), s)
      | Some a \<Rightarrow>
          if acc_balance a < amount then (Inl (InsufficientBalance amount (acc_balance a)), s)
          else (Inr (), hm_put i (a\<lparr>acc_balance := acc_balance a - amount\<rparr>) s))"

definition recipient_overflow :: "object_id \<Rightarrow> nat \<Rightarrow> opolys_error" where
  "recipient_overflow i amount =
     InvalidParams
       (Fmt (STR ''Recipient balance overflow when crediting {} flakes to {}'') [ANat amount, AId i])"

text \<open>
  The tail of \<open>transfer\<close> once the recipient exists: the overflow check for a recipient other
  than the sender, the debit with the nonce step, and the credit.
\<close>

definition transfer_settle ::
  "object_id \<Rightarrow> object_id \<Rightarrow> nat \<Rightarrow> nat \<Rightarrow> nat \<Rightarrow> nat \<Rightarrow> account_store \<Rightarrow>
   (opolys_error + transfer_result) \<times> account_store" where
  "transfer_settle src dst amount fee total_needed from_nonce s =
     (let recipient_balance = acc_balance (the (hm_get s dst)) in
      if src \<noteq> dst \<and> checked_add64 recipient_balance amount = None
      then (Inl (recipient_overflow dst amount), s)
      else
        (let from_balance_before = acc_balance (the (hm_get s src));
             s1 = modify_account src (\<lambda>a. a\<lparr>acc_balance := from_balance_before - total_needed\<rparr>) s;
             s2 = modify_account src (\<lambda>a. a\<lparr>acc_nonce := from_nonce + 1\<rparr>) s1;
             recipient_balance2 = acc_balance (the (hm_get s2 dst))
         in case checked_add64 recipient_balance2 amount of
              None \<Rightarrow> (Inl (recipient_overflow dst amount), s2)
            | Some b \<Rightarrow>
                (Inr \<lparr> tr_amount = amount, tr_fee_burned = fee, tr_new_nonce = from_nonce + 1 \<rparr>,
                 modify_account dst (\<lambda>a. a\<lparr>acc_balance := b\<rparr>) s2)))"

definition transfer ::
  "object_id \<Rightarrow> object_id \<Rightarrow> nat \<Rightarrow> nat \<Rightarrow> account_store \<Rightarrow>
   (opolys_error + transfer_result) \<times> account_store" where
  "transfer src dst amount fee s =
     (case checked_add64 amount fee of
        None \<Rightarrow>
          (Inl (InvalidParams
             (Fmt (STR ''Transfer cost overflow: amount {} + fee {}'') [ANat amount, ANat fee])), s)
      | Some total_needed \<Rightarrow>
          (case hm_get s src of
             None \<Rightarrow> (Inl (AccountNotFound src), s)
           | Some from_account \<Rightarrow>
               if acc_balance from_account < total_needed
               then (Inl (InsufficientBalance total_needed (acc_balance from_account)), s)
               else
                 (let from_nonce = acc_nonce from_account in
                  case checked_add64 from_nonce 1 of
                    None \<Rightarrow> (Inl (InvalidParams (Fmt (STR ''Nonce overflow'') [])), s)
                  | Some _ \<Rightarrow>
                      (let s1 = (if hm_get s dst = None then hm_put dst (account_new dst) s else s)
                       in transfer_settle src dst amount fee total_needed from_nonce s1))))"

definition account_count :: "account_store \<Rightarrow> nat" where
  "account_count s = length s"

fun hash_accounts ::
  "'x account_externs_scheme \<Rightarrow> account_store \<Rightarrow> object_id list \<Rightarrow> blake3_hasher \<Rightarrow>
   opolys_error + blake3_hasher" where
  "hash_accounts X s [] h = Inr h"
| "hash_accounts X s (i # is) h =
     (case hm_get s i of
        None \<Rightarrow> hash_accounts X s is h
      | Some a \<Rightarrow>
          (case x_borsh_account X a of
             None \<Rightarrow> Inl (SerializationError (Fmt (STR ''Account serialization failed: {}'') []))
           | Some bytes \<Rightarrow> hash_accounts X s is (hasher_update h bytes)))"

definition accounts_state_root ::
  "'x account_externs_scheme \<Rightarrow> account_store \<Rightarrow> opolys_error + hash" where
  "accounts_state_root X s =
     (let sorted_ids = sort (map fst s);
          h = hasher_update (hasher_update hasher_new DOMAIN_STATE_ROOT) (ascii ''accounts'')
      in and_then (hash_accounts X s sorted_ids h) (\<lambda>h'. Inr (hasher_finalize X h')))"

section \<open>Well-formed stores and their total\<close>

definition account_ok :: "object_id \<Rightarrow> account \<Rightarrow> bool" where
  "account_ok i a \<longleftrightarrow> acc_object_id a = i \<and> acc_balance a \<le> U64_MAX \<and> acc_nonce a \<le> U64_MAX"

definition accounts_wf :: "account_store \<Rightarrow> bool" where
  "accounts_wf s \<longleftrightarrow> hm_wf s \<and> (\<forall>i a. hm_get s i = Some a \<longrightarrow> account_ok i a)"

definition total_balance :: "account_store \<Rightarrow> nat" where
  "total_balance s = hm_total acc_balance s"

interpretation ledger: weighted_store hm_get hm_put hm_del hm_wf "hm_total acc_balance" acc_balance
  by unfold_locales
    (auto simp: hm_get_put hm_get_del hm_total_put_new hm_total_put_upd hm_total_del intro: wf_intros)

lemma accounts_wf_put [wf_intros]:
  "accounts_wf s \<Longrightarrow> account_ok i a \<Longrightarrow> accounts_wf (hm_put i a s)"
  by (auto simp: accounts_wf_def hm_get_put intro: wf_intros)

lemma accounts_wf_get: "accounts_wf s \<Longrightarrow> hm_get s i = Some a \<Longrightarrow> account_ok i a"
  by (simp add: accounts_wf_def)

lemma account_ok_new [simp]: "account_ok i (account_new i)"
  by (simp add: account_ok_def account_new_def)

lemma account_new_sel [simp]:
  "acc_balance (account_new i) = 0" "acc_nonce (account_new i) = 0"
  "acc_object_id (account_new i) = i" "acc_public_key (account_new i) = None"
  by (simp_all add: account_new_def)

section \<open>The coin-ledger interface\<close>

text \<open>
  What the dispatcher and the node rely on when they move coins: a successful credit or debit
  changes the total and the one balance by exactly the amount, a failed one changes nothing.
\<close>

locale coin_ledger =
  fixes balance_of :: "'s \<Rightarrow> 'k \<Rightarrow> nat option"
    and total :: "'s \<Rightarrow> nat"
    and give :: "'k \<Rightarrow> nat \<Rightarrow> 's \<Rightarrow> ('e + unit) \<times> 's"
    and take :: "'k \<Rightarrow> nat \<Rightarrow> 's \<Rightarrow> ('e + unit) \<times> 's"
  assumes give_total: "give k n s = (Inr u, t) \<Longrightarrow> total t = total s + n"
    and give_balance: "give k n s = (Inr u, t) \<Longrightarrow>
      balance_of t k' = (if k' = k then map_option (\<lambda>b. b + n) (balance_of s k) else balance_of s k')"
    and give_err: "give k n s = (Inl e, t) \<Longrightarrow> t = s"
    and take_total: "take k n s = (Inr u, t) \<Longrightarrow> total s = total t + n"
    and take_balance: "take k n s = (Inr u, t) \<Longrightarrow>
      balance_of t k' = (if k' = k then map_option (\<lambda>b. b - n) (balance_of s k) else balance_of s k')"
    and take_enough: "take k n s = (Inr u, t) \<Longrightarrow> \<exists>b. balance_of s k = Some b \<and> n \<le> b"
    and take_err: "take k n s = (Inl e, t) \<Longrightarrow> t = s"
begin

text \<open>Taking an amount and giving it back restores every balance.\<close>

lemma take_give_back:
  assumes "take k n s = (Inr u, t)" and "give k n t = (Inr v, t')"
  shows "balance_of t' k' = balance_of s k' \<and> total t' = total s"
proof -
  obtain b where b: "balance_of s k = Some b" "n \<le> b" using take_enough [OF assms(1)] by blast
  have "balance_of t' k' = balance_of s k'"
    using take_balance [OF assms(1), of k'] take_balance [OF assms(1), of k]
      give_balance [OF assms(2), of k'] b by (cases "k' = k") simp_all
  with take_total [OF assms(1)] give_total [OF assms(2)] show ?thesis by simp
qed

text \<open>A payment from one key to another keeps the total.\<close>

lemma pay_total:
  "take a n s = (Inr u, t) \<Longrightarrow> give b n t = (Inr v, t') \<Longrightarrow> total t' = total s"
  using take_total [of a n s u t] give_total [of b n t v t'] by simp

end

interpretation coins: coin_ledger
  "\<lambda>s i. map_option acc_balance (hm_get s i)" "hm_total acc_balance" credit debit
proof (unfold_locales, goal_cases)
  case (1 k n s u t)
  then show ?case
    by (auto simp: credit_def split: option.splits dest!: ledger.total_give [where d = n])
next
  case (2 k n s u t k')
  then show ?case by (auto simp: credit_def hm_get_put split: option.splits)
next
  case (3 k n s e t)
  then show ?case by (auto simp: credit_def split: option.splits)
next
  case (4 k n s u t)
  then show ?case
    by (auto simp: debit_def split: option.splits if_splits dest!: ledger.total_take [where d = n])
next
  case (5 k n s u t k')
  then show ?case by (auto simp: debit_def hm_get_put split: option.splits if_splits)
next
  case (6 k n s u t)
  then show ?case by (auto simp: debit_def split: option.splits if_splits)
next
  case (7 k n s e t)
  then show ?case by (auto simp: debit_def split: option.splits if_splits)
qed

section \<open>Lemmas on the operations\<close>

lemma modify_account_same_balance:
  assumes "\<And>a. hm_get s i = Some a \<Longrightarrow> acc_balance (f a) = acc_balance a"
  shows "hm_total acc_balance (modify_account i f s) = hm_total acc_balance s"
  using assms ledger.total_same [of s i] by (auto simp: modify_account_def split: option.splits)

lemma modify_account_get:
  "hm_get (modify_account i f s) j = (if j = i then map_option f (hm_get s i) else hm_get s j)"
  by (auto simp: modify_account_def hm_get_put split: option.splits)

lemma modify_account_wf [wf_intros]:
  "accounts_wf s \<Longrightarrow> (\<And>a. hm_get s i = Some a \<Longrightarrow> account_ok i (f a)) \<Longrightarrow> accounts_wf (modify_account i f s)"
  by (auto simp: modify_account_def intro: wf_intros split: option.splits)

lemma credit_wf [wf_intros]: "accounts_wf s \<Longrightarrow> accounts_wf (snd (credit i n s))"
  by (auto simp: credit_def account_ok_def intro!: wf_intros dest: accounts_wf_get split: option.splits)

lemma debit_wf [wf_intros]: "accounts_wf s \<Longrightarrow> accounts_wf (snd (debit i n s))"
proof (cases "hm_get s i")
  case (Some a)
  assume wf: "accounts_wf s"
  with Some have "account_ok i a" by (blast intro: accounts_wf_get)
  then have "account_ok i (a\<lparr>acc_balance := acc_balance a - n\<rparr>)" by (auto simp: account_ok_def)
  with wf Some show ?thesis by (simp add: debit_def accounts_wf_put)
qed (simp add: debit_def)

lemma create_account_wf [wf_intros]: "accounts_wf s \<Longrightarrow> accounts_wf (snd (create_account i s))"
  by (auto simp: create_account_def intro: wf_intros)

lemma create_account_total: "hm_total acc_balance (snd (create_account i s)) = hm_total acc_balance s"
  by (auto simp: create_account_def hm_total_put_new)

lemma create_account_get:
  "hm_get (snd (create_account i s)) j = (if j = i \<and> hm_get s i = None then Some (account_new i) else hm_get s j)"
  by (auto simp: create_account_def hm_get_put)

lemma can_credit_credit:
  "can_credit s i n = Inr () \<Longrightarrow> hm_get s i \<noteq> None \<Longrightarrow> fst (credit i n s) = Inr ()"
  by (auto simp: can_credit_def credit_def split: option.splits)

text \<open>Debiting and crediting back is the identity on the store itself.\<close>

lemma debit_credit_id:
  assumes "debit i n s = (Inr u, t)" and "accounts_wf s"
  shows "credit i n t = (Inr (), s)"
proof -
  obtain a where a: "hm_get s i = Some a" "n \<le> acc_balance a"
    and t: "t = hm_put i (a\<lparr>acc_balance := acc_balance a - n\<rparr>) s"
    using assms(1) by (auto simp: debit_def split: option.splits if_splits)
  have "acc_balance a \<le> U64_MAX" using accounts_wf_get [OF assms(2) a(1)] by (simp add: account_ok_def)
  then show ?thesis using a by (simp add: t credit_def hm_get_put checked_add64_def hm_put_put hm_put_same)
qed

subsection \<open>Transfers\<close>

text \<open>The exact conditions and effect of a transfer on a well-formed store.\<close>

definition transfer_ready :: "account_store \<Rightarrow> object_id \<Rightarrow> object_id \<Rightarrow> nat \<Rightarrow> nat \<Rightarrow> bool" where
  "transfer_ready s src dst amount fee \<longleftrightarrow>
     amount + fee \<le> U64_MAX \<and>
     (\<exists>a. hm_get s src = Some a \<and> amount + fee \<le> acc_balance a \<and> acc_nonce a < U64_MAX) \<and>
     (src \<noteq> dst \<longrightarrow> (\<forall>b. hm_get s dst = Some b \<longrightarrow> acc_balance b + amount \<le> U64_MAX))"

definition transferred :: "account_store \<Rightarrow> object_id \<Rightarrow> object_id \<Rightarrow> nat \<Rightarrow> nat \<Rightarrow> account_store \<Rightarrow> bool" where
  "transferred s src dst amount fee t \<longleftrightarrow>
     (\<exists>a. hm_get s src = Some a \<and>
        hm_get t src = Some (a\<lparr>acc_balance := acc_balance a - fee - (if src = dst then 0 else amount),
                               acc_nonce := acc_nonce a + 1\<rparr>)) \<and>
     (src \<noteq> dst \<longrightarrow>
        (let b = (case hm_get s dst of None \<Rightarrow> account_new dst | Some b \<Rightarrow> b)
         in hm_get t dst = Some (b\<lparr>acc_balance := acc_balance b + amount\<rparr>))) \<and>
     (\<forall>i. i \<noteq> src \<longrightarrow> i \<noteq> dst \<longrightarrow> hm_get t i = hm_get s i)"

lemma transfer_settle_self:
  assumes "hm_get s src = Some a" and "amount + fee \<le> acc_balance a" and "acc_balance a \<le> U64_MAX"
  shows "transfer_settle src src amount fee (amount + fee) (acc_nonce a) s =
    (Inr \<lparr> tr_amount = amount, tr_fee_burned = fee, tr_new_nonce = acc_nonce a + 1 \<rparr>,
     hm_put src (a\<lparr>acc_balance := acc_balance a - fee, acc_nonce := acc_nonce a + 1\<rparr>) s)"
  using assms
  by (cases a) (simp add: transfer_settle_def Let_def modify_account_def hm_get_put
      checked_add64_def hm_put_put)

lemma transfer_settle_other:
  assumes "src \<noteq> dst" and "hm_get s src = Some a" and "hm_get s dst = Some b"
    and "amount + fee \<le> acc_balance a"
  shows "transfer_settle src dst amount fee (amount + fee) (acc_nonce a) s =
    (if acc_balance b + amount \<le> U64_MAX then
       (Inr \<lparr> tr_amount = amount, tr_fee_burned = fee, tr_new_nonce = acc_nonce a + 1 \<rparr>,
        hm_put dst (b\<lparr>acc_balance := acc_balance b + amount\<rparr>)
          (hm_put src (a\<lparr>acc_balance := acc_balance a - (amount + fee), acc_nonce := acc_nonce a + 1\<rparr>) s))
     else (Inl (recipient_overflow dst amount), s))"
  using assms
  by (simp add: transfer_settle_def Let_def modify_account_def hm_get_put checked_add64_def hm_put_put)

lemma transfer_not_ready:
  assumes "accounts_wf s" and "\<not> transfer_ready s src dst amount fee"
  shows "\<exists>e. transfer src dst amount fee s = (Inl e, s)"
proof (cases "\<exists>a. hm_get s src = Some a \<and> amount + fee \<le> acc_balance a \<and> acc_nonce a < U64_MAX
    \<and> amount + fee \<le> U64_MAX")
  case False
  then show ?thesis
    by (auto simp: transfer_def checked_add64_def Let_def not_le not_less split: option.splits)
next
  case True
  then obtain a where a: "hm_get s src = Some a" "amount + fee \<le> acc_balance a" "acc_nonce a < U64_MAX"
    "amount + fee \<le> U64_MAX" by blast
  with assms(2) obtain b where b: "src \<noteq> dst" "hm_get s dst = Some b" "U64_MAX < acc_balance b + amount"
    by (auto simp: transfer_ready_def not_le)
  then show ?thesis
    using a transfer_settle_other [OF b(1) a(1) b(2) a(2)]
    by (simp add: transfer_def checked_add64_def Let_def)
qed

lemma transfer_ready_ok:
  assumes wf: "accounts_wf s" and ready: "transfer_ready s src dst amount fee"
  obtains a t where "hm_get s src = Some a"
    and "transfer src dst amount fee s =
      (Inr \<lparr> tr_amount = amount, tr_fee_burned = fee, tr_new_nonce = acc_nonce a + 1 \<rparr>, t)"
    and "transferred s src dst amount fee t"
    and "hm_total acc_balance s = hm_total acc_balance t + fee"
    and "accounts_wf t"
proof -
  obtain a where a: "hm_get s src = Some a" "amount + fee \<le> acc_balance a" "acc_nonce a < U64_MAX"
    and sum: "amount + fee \<le> U64_MAX"
    using ready by (auto simp: transfer_ready_def)
  have aok: "account_ok src a" using wf a(1) by (rule accounts_wf_get)
  show thesis
  proof (cases "src = dst")
    case True
    let ?t = "hm_put src (a\<lparr>acc_balance := acc_balance a - fee, acc_nonce := acc_nonce a + 1\<rparr>) s"
    have run: "transfer src dst amount fee s =
      (Inr \<lparr> tr_amount = amount, tr_fee_burned = fee, tr_new_nonce = acc_nonce a + 1 \<rparr>, ?t)"
      using a sum aok True transfer_settle_self [OF a(1,2)]
      by (simp add: transfer_def checked_add64_def Let_def account_ok_def)
    have "hm_total acc_balance s = hm_total acc_balance ?t + fee"
      using a by (intro ledger.total_take) simp_all
    moreover have "accounts_wf ?t"
      using wf aok a by (intro wf_intros) (auto simp: account_ok_def)
    moreover have "transferred s src dst amount fee ?t"
      using a True by (simp add: transferred_def hm_get_put)
    ultimately show thesis using that a(1) run by blast
  next
    case False
    let ?s1 = "if hm_get s dst = None then hm_put dst (account_new dst) s else s"
    let ?b = "case hm_get s dst of None \<Rightarrow> account_new dst | Some b \<Rightarrow> b"
    let ?t = "hm_put dst (?b\<lparr>acc_balance := acc_balance ?b + amount\<rparr>)
      (hm_put src (a\<lparr>acc_balance := acc_balance a - (amount + fee), acc_nonce := acc_nonce a + 1\<rparr>) ?s1)"
    have a1: "hm_get ?s1 src = Some a" using a False by (simp add: hm_get_put)
    have b1: "hm_get ?s1 dst = Some ?b" by (auto simp: hm_get_put split: option.splits)
    have bok: "account_ok dst ?b" using wf by (auto intro: accounts_wf_get split: option.splits)
    have fit: "acc_balance ?b + amount \<le> U64_MAX"
      using ready False sum by (auto simp: transfer_ready_def split: option.splits)
    have tot1: "hm_total acc_balance ?s1 = hm_total acc_balance s"
      by (simp add: hm_total_put_new)
    have wf1: "accounts_wf ?s1" using wf by (auto intro: wf_intros)
    have run: "transfer src dst amount fee s =
      (Inr \<lparr> tr_amount = amount, tr_fee_burned = fee, tr_new_nonce = acc_nonce a + 1 \<rparr>, ?t)"
      using a sum fit transfer_settle_other [OF False a1 b1 a(2)]
      by (simp add: transfer_def checked_add64_def Let_def)
    let ?m = "hm_put src (a\<lparr>acc_balance := acc_balance a - (amount + fee), acc_nonce := acc_nonce a + 1\<rparr>) ?s1"
    have "hm_total acc_balance ?s1 = hm_total acc_balance ?m + (amount + fee)"
      using a1 a(2) by (intro ledger.total_take) simp_all
    moreover have "hm_get ?m dst = Some ?b" using b1 False by (simp add: hm_get_put)
    then have "hm_total acc_balance ?t = hm_total acc_balance ?m + amount"
      by (rule ledger.total_give) simp
    ultimately have tot: "hm_total acc_balance s = hm_total acc_balance ?t + fee"
      using tot1 by simp
    have wft: "accounts_wf ?t"
      using wf1 aok bok fit a by (intro wf_intros) (auto simp: account_ok_def)
    have rel: "transferred s src dst amount fee ?t"
      using a False by (auto simp: transferred_def hm_get_put Let_def)
    show thesis using that a(1) run rel tot wft by blast
  qed
qed

text \<open>
  A transfer on a well-formed store succeeds exactly when the sender can pay amount and fee,
  has a nonce left and the recipient can hold the amount. It then moves the amount, destroys the
  fee, advances the sender's nonce by one and touches no other account; the sum of all balances
  falls by exactly the fee. Otherwise it reports an error and leaves the store as it was, also
  for a recipient that does not exist yet.
\<close>

theorem transfer_correct:
  assumes "accounts_wf s"
  shows "(transfer_ready s src dst amount fee \<longrightarrow>
            (\<exists>a t. hm_get s src = Some a \<and>
               transfer src dst amount fee s =
                 (Inr \<lparr> tr_amount = amount, tr_fee_burned = fee, tr_new_nonce = acc_nonce a + 1 \<rparr>, t) \<and>
               transferred s src dst amount fee t \<and>
               total_balance s = total_balance t + fee \<and> accounts_wf t))
       \<and> (\<not> transfer_ready s src dst amount fee \<longrightarrow>
            (\<exists>e. transfer src dst amount fee s = (Inl e, s)))"
proof (intro conjI impI)
  assume "transfer_ready s src dst amount fee"
  with assms show "\<exists>a t. hm_get s src = Some a \<and>
      transfer src dst amount fee s =
        (Inr \<lparr> tr_amount = amount, tr_fee_burned = fee, tr_new_nonce = acc_nonce a + 1 \<rparr>, t) \<and>
      transferred s src dst amount fee t \<and>
      total_balance s = total_balance t + fee \<and> accounts_wf t"
    by (rule transfer_ready_ok) (auto simp: total_balance_def)
qed (use assms transfer_not_ready in blast)

theorem transfer_correct_witness:
  "\<exists>s t. transfer (ObjectId (Hash 1)) (ObjectId (Hash 2)) 1000 100 s =
     (Inr \<lparr> tr_amount = 1000, tr_fee_burned = 100, tr_new_nonce = 1 \<rparr>, t)
     \<and> total_balance s = 10000 \<and> total_balance t = 9900"
proof -
  let ?a = "(account_new (ObjectId (Hash 1)))\<lparr>acc_balance := 10000\<rparr>"
  let ?s = "[(ObjectId (Hash 1), ?a)]"
  have wf: "accounts_wf ?s"
    by (auto simp: accounts_wf_def hm_wf_def hm_get_def account_ok_def U64_MAX_def split: if_splits)
  have ready: "transfer_ready ?s (ObjectId (Hash 1)) (ObjectId (Hash 2)) 1000 100"
    by (simp add: transfer_ready_def hm_get_def U64_MAX_def)
  have tot: "total_balance ?s = 10000" by (simp add: total_balance_def hm_total_def)
  have g: "hm_get ?s (ObjectId (Hash 1)) = Some ?a" by (simp add: hm_get_def)
  obtain a t where "hm_get ?s (ObjectId (Hash 1)) = Some a"
    and "transfer (ObjectId (Hash 1)) (ObjectId (Hash 2)) 1000 100 ?s =
      (Inr \<lparr> tr_amount = 1000, tr_fee_burned = 100, tr_new_nonce = acc_nonce a + 1 \<rparr>, t)"
    and "total_balance ?s = total_balance t + 100"
    using transfer_correct [OF wf, of "ObjectId (Hash 1)" "ObjectId (Hash 2)" 1000 100] ready by blast
  with tot g show ?thesis by auto
qed

end
