(* ===== verification/IntSqrt.thy ===== *)
theory IntSqrt
  imports Prelude
begin

text \<open>
  Integer square roots. The code base computes them twice by bisection (emission and refiner
  modules) and twice by Newton's iteration (dispatcher and node). The loops are modelled here,
  the interface \<open>isqrt_upto\<close> says what a caller relies on, and each module interprets it for
  its own function.
\<close>

section \<open>The interface\<close>

locale isqrt_upto =
  fixes isqrt :: "nat \<Rightarrow> nat" and bound :: nat
  assumes isqrt_le: "n < bound \<Longrightarrow> isqrt n * isqrt n \<le> n"
    and isqrt_gt: "n < bound \<Longrightarrow> n < (isqrt n + 1) * (isqrt n + 1)"
begin

lemma isqrt_greatest: "n < bound \<Longrightarrow> m * m \<le> n \<Longrightarrow> m \<le> isqrt n"
proof (rule ccontr)
  assume n: "n < bound" and m: "m * m \<le> n" and "\<not> m \<le> isqrt n"
  then have "isqrt n + 1 \<le> m" by simp
  then have "(isqrt n + 1) * (isqrt n + 1) \<le> m * m" using mult_le_mono by blast
  then show False using isqrt_gt [OF n] m by linarith
qed

lemma isqrt_mono: "m \<le> n \<Longrightarrow> n < bound \<Longrightarrow> isqrt m \<le> isqrt n"
  using isqrt_le [of m] isqrt_greatest [of n "isqrt m"] by simp

lemma isqrt_unique:
  assumes "n < bound" and "m * m \<le> n" and "n < (m + 1) * (m + 1)"
  shows "isqrt n = m"
proof (rule antisym)
  show "m \<le> isqrt n" using assms(1,2) by (rule isqrt_greatest)
  show "isqrt n \<le> m"
  proof (rule ccontr)
    assume "\<not> isqrt n \<le> m"
    then have "m + 1 \<le> isqrt n" by simp
    then have "(m + 1) * (m + 1) \<le> isqrt n * isqrt n" using mult_le_mono by blast
    then show False using isqrt_le [OF assms(1)] assms(3) by linarith
  qed
qed

lemma isqrt_square: "m * m < bound \<Longrightarrow> isqrt (m * m) = m"
  by (rule isqrt_unique) auto

lemma isqrt_pos: "0 < n \<Longrightarrow> n < bound \<Longrightarrow> 0 < isqrt n"
  using isqrt_greatest [of n 1] by simp

lemma isqrt_self_le: "n < bound \<Longrightarrow> isqrt n \<le> n"
proof -
  assume n: "n < bound"
  have "isqrt n \<le> isqrt n * isqrt n" by (cases "isqrt n") auto
  with isqrt_le [OF n] show ?thesis by linarith
qed

end

text \<open>Two functions that meet the interface agree below both bounds.\<close>

lemma isqrt_upto_agree:
  assumes "isqrt_upto f b" and "isqrt_upto g c" and "n < b" and "n < c"
  shows "f n = g n"
  using isqrt_upto.isqrt_unique [OF assms(1), of n "g n"]
    isqrt_upto.isqrt_le [OF assms(2), of n] isqrt_upto.isqrt_gt [OF assms(2), of n] assms(3,4)
  by simp

section \<open>Bit length\<close>

text \<open>\<open>bit_length n\<close> is \<open>128 - n.leading_zeros()\<close> on \<open>u128\<close>, \<open>64 - n.leading_zeros()\<close> on \<open>u64\<close>.\<close>

fun bit_length :: "nat \<Rightarrow> nat" where
  "bit_length n = (if n = 0 then 0 else Suc (bit_length (n div 2)))"

declare bit_length.simps [simp del]

lemma bit_length_upper: "n < 2 ^ bit_length n"
proof (induction n rule: bit_length.induct)
  case (1 n)
  show ?case
  proof (cases "n = 0")
    case True
    then show ?thesis by (simp add: bit_length.simps)
  next
    case False
    with 1 have "n div 2 < 2 ^ bit_length (n div 2)" by simp
    then have "n < 2 * 2 ^ bit_length (n div 2)" by linarith
    with False show ?thesis by (subst bit_length.simps) simp
  qed
qed

lemma bit_length_lower: "0 < n \<Longrightarrow> 2 ^ (bit_length n - 1) \<le> n"
proof (induction n rule: bit_length.induct)
  case (1 n)
  show ?case
  proof (cases "n div 2 = 0")
    case True
    with 1 show ?thesis by (simp add: bit_length.simps)
  next
    case False
    then have pos: "0 < n div 2" by simp
    with 1 have IH: "2 ^ (bit_length (n div 2) - 1) \<le> n div 2" by simp
    have "bit_length (n div 2) \<noteq> 0" using pos by (subst bit_length.simps) simp
    then have "(2::nat) ^ bit_length (n div 2) = 2 * 2 ^ (bit_length (n div 2) - 1)"
      by (cases "bit_length (n div 2)") simp_all
    also have "\<dots> \<le> 2 * (n div 2)" using IH by simp
    also have "\<dots> \<le> n" by simp
    finally show ?thesis using "1.prems" by (subst bit_length.simps) simp
  qed
qed

lemma bit_length_le: "n < 2 ^ k \<Longrightarrow> bit_length n \<le> k"
proof (cases "n = 0")
  case False
  assume n: "n < 2 ^ k"
  have "(2::nat) ^ (bit_length n - 1) < 2 ^ k"
    using bit_length_lower [of n] False n by linarith
  then have "bit_length n - 1 < k" by (rule power_less_imp_less_exp [rotated]) simp
  then show ?thesis by linarith
qed (simp add: bit_length.simps)

lemma bit_length_pos: "0 < n \<Longrightarrow> 0 < bit_length n"
  by (subst bit_length.simps) simp

section \<open>Bisection\<close>

function sqrt_bisect :: "nat \<Rightarrow> nat \<Rightarrow> nat \<Rightarrow> nat \<Rightarrow> nat" where
  "sqrt_bisect n left right result =
     (if left \<le> right then
        (let mid = (left + right) div 2; square = sat_mul128 mid mid in
         if square \<le> n then sqrt_bisect n (mid + 1) right mid
         else sqrt_bisect n left (mid - 1) result)
      else result)"
  by pat_completeness auto
termination
proof (relation "measure (\<lambda>(n, left, right, result). right + 1 - left)")
  show "wf (measure (\<lambda>(n, left, right, result). right + 1 - left))" by simp
next
  fix n left right result mid square :: nat
  assume "left \<le> right" and "mid = (left + right) div 2"
  then show "((n, mid + 1, right, mid), n, left, right, result)
      \<in> measure (\<lambda>(n, left, right, result). right + 1 - left)" by auto
next
  fix n left right result mid square :: nat
  assume a: "left \<le> right" "mid = (left + right) div 2"
    and b: "square = sat_mul128 mid mid" "\<not> square \<le> n"
  have "mid \<noteq> 0" using b by (cases "mid = 0") (simp_all add: sat_mul128_def)
  with a show "((n, left, mid - 1, result), n, left, right, result)
      \<in> measure (\<lambda>(n, left, right, result). right + 1 - left)" by auto
qed

declare sqrt_bisect.simps [simp del]

lemma sat_square_le_iff: "n < U128_MAX \<Longrightarrow> sat_mul128 m m \<le> n \<longleftrightarrow> m * m \<le> n"
  by (auto simp: sat_mul128_def)

lemma sqrt_bisect_correct:
  assumes "n < U128_MAX" and "result * result \<le> n" and "left \<le> result + 1"
    and "n < (right + 1) * (right + 1)"
  shows "let r = sqrt_bisect n left right result in r * r \<le> n \<and> n < (r + 1) * (r + 1)"
  using assms
proof (induction n left right result rule: sqrt_bisect.induct)
  case (1 n left right result)
  let ?mid = "(left + right) div 2"
  show ?case
  proof (cases "left \<le> right")
    case False
    then have "right + 1 \<le> result + 1" using "1.prems"(3) by simp
    then have "(right + 1) * (right + 1) \<le> (result + 1) * (result + 1)"
      by (rule mult_le_mono) fact
    with False "1.prems" show ?thesis by (subst sqrt_bisect.simps) (simp add: Let_def)
  next
    case le: True
    have mid: "left \<le> ?mid" "?mid \<le> right" using le by auto
    show ?thesis
    proof (cases "sat_mul128 ?mid ?mid \<le> n")
      case True
      then have "?mid * ?mid \<le> n" using sat_square_le_iff "1.prems"(1) by simp
      with "1.IH"(1) [OF le refl refl True "1.prems"(1) _ le_refl "1.prems"(4)] True le
      show ?thesis by (subst sqrt_bisect.simps) (simp add: Let_def)
    next
      case False
      then have gt: "n < ?mid * ?mid" using sat_square_le_iff "1.prems"(1) by (meson not_le)
      have "?mid \<noteq> 0" using gt by (cases "?mid = 0") simp_all
      then have "?mid - 1 + 1 = ?mid" by simp
      then have "n < (?mid - 1 + 1) * (?mid - 1 + 1)" using gt by simp
      with "1.IH"(2) [OF le refl refl False "1.prems"(1,2,3)] False le
      show ?thesis by (subst sqrt_bisect.simps) (simp add: Let_def)
    qed
  qed
qed

section \<open>Newton's iteration\<close>

function sqrt_newton :: "nat \<Rightarrow> nat \<Rightarrow> nat \<Rightarrow> nat" where
  "sqrt_newton n x y = (if y < x then sqrt_newton n y ((y + n div y) div 2) else x)"
  by pat_completeness auto
termination
  by (relation "measure (\<lambda>(n, x, y). x)") auto

declare sqrt_newton.simps [simp del]

lemma newton_step_ge:
  fixes x n s :: nat
  assumes "0 < x" and "s * s \<le> n"
  shows "s \<le> (x + n div x) div 2"
proof (rule ccontr)
  assume "\<not> s \<le> (x + n div x) div 2"
  then have "x + n div x < 2 * s" by linarith
  then have d: "n div x + 1 \<le> 2 * s - x" and xs: "x < 2 * s" by linarith+
  have "n < (n div x + 1) * x"
    using dividend_less_div_times [of x n] assms(1) by (simp add: algebra_simps)
  also have "\<dots> \<le> (2 * s - x) * x" using d by (rule mult_le_mono1)
  finally have "s * s < (2 * s - x) * x" using assms(2) by linarith
  then have "int (s * s) < int ((2 * s - x) * x)" by linarith
  then have "int s * int s < (2 * int s - int x) * int x" using xs by (simp add: of_nat_diff)
  moreover have "0 \<le> (int s - int x) * (int s - int x)" by simp
  ultimately show False by (simp add: algebra_simps)
qed

lemma sqrt_newton_correct:
  assumes "0 < n" and "0 < x" and "y = (x + n div x) div 2"
    and "\<And>s. s * s \<le> n \<Longrightarrow> s \<le> x"
  shows "let r = sqrt_newton n x y in r * r \<le> n \<and> n < (r + 1) * (r + 1)"
  using assms
proof (induction n x y rule: sqrt_newton.induct)
  case (1 n x y)
  show ?case
  proof (cases "y < x")
    case True
    have one: "(1::nat) * 1 \<le> n" using "1.prems"(1) by simp
    have y1: "1 \<le> y" unfolding "1.prems"(3)
      using newton_step_ge [OF "1.prems"(2) one] .
    have ge: "s \<le> y" if "s * s \<le> n" for s
      unfolding "1.prems"(3) using newton_step_ge [OF "1.prems"(2) that] .
    have "let r = sqrt_newton n y ((y + n div y) div 2) in r * r \<le> n \<and> n < (r + 1) * (r + 1)"
      by (rule "1.IH" [OF True "1.prems"(1)]) (use y1 ge in auto)
    with True show ?thesis by (subst sqrt_newton.simps) simp
  next
    case False
    then have "x \<le> n div x" using "1.prems"(3) by linarith
    then have "x * x \<le> n"
      by (meson div_times_less_eq_dividend le_trans mult_le_mono1)
    moreover have "n < (x + 1) * (x + 1)"
    proof (rule ccontr)
      assume "\<not> n < (x + 1) * (x + 1)"
      then have "x + 1 \<le> x" using "1.prems"(4) [of "x + 1"] by simp
      then show False by simp
    qed
    ultimately show ?thesis using False by (subst sqrt_newton.simps) simp
  qed
qed

text \<open>The start used by both callers: \<open>x = n\<close>, \<open>y = n.div_ceil(2)\<close>.\<close>

lemma sqrt_newton_start:
  assumes "2 \<le> n"
  shows "let r = sqrt_newton n n (div_ceil n 2) in r * r \<le> n \<and> n < (r + 1) * (r + 1)"
proof (rule sqrt_newton_correct)
  show "0 < n" "0 < n" using assms by simp_all
  have "div_ceil n 2 = (n + 1) div 2" by (auto simp: div_ceil_def) presburger+
  then show "div_ceil n 2 = (n + n div n) div 2" using assms by simp
  fix s assume s: "s * s \<le> n"
  have "s \<le> s * s" by (cases s) auto
  with s show "s \<le> n" by linarith
qed

end
