(* ===== verification/Emission.thy ===== *)
theory Emission
  imports Constants IntSqrt
begin

text \<open>
  Block rewards and fee signals, \<open>crates/consensus/src/emission.rs\<close>: fixed-point logarithm,
  vein yield, block reward, stake coverage and the suggested-fee average. All values are
  \<open>nat\<close>s inside \<open>u64\<close> or \<open>u128\<close>; a plain \<open>u128\<close> operation is written exactly where its
  operands cannot leave the width, which \<open>mantissa_q32_range\<close> and \<open>ln_terms_fit\<close> show.
\<close>

section \<open>Definitions\<close>

definition Q32_ONE :: nat where "Q32_ONE = 4294967296"

definition LN_2_Q32 :: nat where "LN_2_Q32 = 2977044471"

definition saturating_u128_to_flakes :: "nat \<Rightarrow> nat" where
  "saturating_u128_to_flakes v = min v U64_MAX"

definition integer_sqrt_floor :: "nat \<Rightarrow> nat" where
  "integer_sqrt_floor n =
     (if n < 2 then n
      else (let bit_len = bit_length n in sqrt_bisect n 1 (2 ^ div_ceil bit_len 2) 1))"

definition integer_sqrt_round :: "nat \<Rightarrow> nat" where
  "integer_sqrt_round n =
     (let fl = integer_sqrt_floor n;
          floor_square = sat_mul128 fl fl;
          nxt = sat_add128 fl 1;
          next_square = sat_mul128 nxt nxt
      in if sat_sub next_square n < sat_sub n floor_square then nxt else fl)"

fun ln_series :: "nat list \<Rightarrow> nat \<Rightarrow> nat \<Rightarrow> nat \<Rightarrow> nat" where
  "ln_series [] y2 term s = s"
| "ln_series (d # ds) y2 term s =
     (let s' = sat_add128 s (term div d); term' = (term * y2) div Q32_ONE
      in if term' = 0 then s' else ln_series ds y2 term' s')"

definition ln_divisors :: "nat list" where
  "ln_divisors = [1, 3, 5, 7, 9, 11, 13, 15, 17, 19, 21, 23, 25, 27, 29, 31, 33, 35, 37, 39]"

definition ln_mantissa_q32 :: "nat \<Rightarrow> nat" where
  "ln_mantissa_q32 m =
     (if m \<le> Q32_ONE then 0
      else (let numerator = (m - Q32_ONE) * Q32_ONE;
                denominator = m + Q32_ONE;
                y = numerator div denominator;
                y2 = (y * y) div Q32_ONE
            in sat_mul128 (ln_series ln_divisors y2 y 0) 2))"

definition mantissa_q32 :: "nat \<Rightarrow> nat" where
  "mantissa_q32 v =
     (let log2_floor = bit_length v - 1
      in if log2_floor \<le> 32 then v * 2 ^ (32 - log2_floor) else v div 2 ^ (log2_floor - 32))"

definition ln_u64_q32 :: "nat \<Rightarrow> nat" where
  "ln_u64_q32 v =
     (if v \<le> 1 then 0
      else (let log2_floor = bit_length v - 1
            in sat_add128 (sat_mul128 log2_floor LN_2_Q32) (ln_mantissa_q32 (mantissa_q32 v))))"

definition q32_to_milli :: "nat \<Rightarrow> nat" where
  "q32_to_milli q = min (sat_add128 (sat_mul128 q 1000) (Q32_ONE div 2) div Q32_ONE) U64_MAX"

definition ln_ratio_milli :: "nat \<Rightarrow> nat \<Rightarrow> nat" where
  "ln_ratio_milli numerator denominator =
     (if denominator = 0 \<or> numerator \<le> denominator then 0
      else q32_to_milli (sat_sub (ln_u64_q32 numerator) (ln_u64_q32 denominator)))"

definition difficulty_to_target :: "nat \<Rightarrow> nat" where
  "difficulty_to_target difficulty =
     (if difficulty = 0 \<or> 64 < difficulty then 0 else 2 ^ (64 - difficulty) - 1)"

definition compute_vein_yield :: "nat \<Rightarrow> nat \<Rightarrow> nat" where
  "compute_vein_yield difficulty hash_int =
     (if difficulty = 0 \<or> hash_int = 0 then 1000
      else (let target = difficulty_to_target difficulty in
        if target = 0 then 1000
        else if target \<le> hash_int then 1000
        else (let r = ln_ratio_milli target hash_int;
                  ln_val = integer_sqrt_round (r * 1000)
              in sat_add64 1000 (min ln_val U64_MAX))))"

definition compute_block_reward :: "nat \<Rightarrow> nat \<Rightarrow> nat \<Rightarrow> nat" where
  "compute_block_reward base_reward difficulty pow_hash_value =
     (let effective_difficulty = max difficulty MIN_DIFFICULTY;
          base = base_reward div effective_difficulty;
          yield_milli = compute_vein_yield difficulty pow_hash_value
      in saturating_u128_to_flakes ((base * yield_milli) div 1000))"

definition compute_base_reward :: "nat \<Rightarrow> nat \<Rightarrow> nat" where
  "compute_base_reward base_reward difficulty = base_reward div max difficulty MIN_DIFFICULTY"

definition ln_milli :: "nat \<Rightarrow> nat" where
  "ln_milli x = (if x < 1000 then 0 else ln_ratio_milli x 1000)"

definition compute_refiner_weight :: "nat \<Rightarrow> nat \<Rightarrow> nat" where
  "compute_refiner_weight stake age_years_milli = stake"

definition compute_stake_coverage :: "nat \<Rightarrow> nat \<Rightarrow> nat" where
  "compute_stake_coverage total_bonded total_issued =
     (if total_issued = 0 then 0 else min ((total_bonded * 1000) div total_issued) 1000)"

definition compute_suggested_fee :: "nat \<Rightarrow> nat \<Rightarrow> nat \<Rightarrow> nat" where
  "compute_suggested_fee previous_block_fees successful_transaction_count previous_suggested_fee =
     (let current = (if successful_transaction_count = 0 then MIN_FEE
                     else previous_block_fees div successful_transaction_count);
          old = previous_suggested_fee;
          window = max CAPACITY_RATIO 1;
          old_weight = sat_sub window 1;
          ema = sat_add64 current (sat_mul64 old old_weight) div window
      in max ema MIN_FEE)"

section \<open>Square roots\<close>

lemma integer_sqrt_floor_spec:
  assumes n: "n < U128_MAX"
  shows "integer_sqrt_floor n * integer_sqrt_floor n \<le> n
    \<and> n < (integer_sqrt_floor n + 1) * (integer_sqrt_floor n + 1)"
proof (cases "n < 2")
  case True
  then have "n = 0 \<or> n = 1" by auto
  then show ?thesis by (auto simp: integer_sqrt_floor_def)
next
  case False
  let ?right = "2 ^ div_ceil (bit_length n) 2 :: nat"
  have "bit_length n \<le> div_ceil (bit_length n) 2 * 2" by (rule div_ceil_ge) simp
  then have "(2::nat) ^ bit_length n \<le> 2 ^ (div_ceil (bit_length n) 2 * 2)"
    by (rule power_increasing) simp
  also have "\<dots> = ?right * ?right" by (simp add: power_mult power2_eq_square)
  also have "\<dots> \<le> (?right + 1) * (?right + 1)" by simp
  finally have r: "n < (?right + 1) * (?right + 1)" using bit_length_upper [of n] by linarith
  have one: "1 * 1 \<le> n" using False by simp
  have "integer_sqrt_floor n = sqrt_bisect n 1 ?right 1"
    using False by (simp only: integer_sqrt_floor_def Let_def if_False)
  then show ?thesis
    using sqrt_bisect_correct [OF n one _ r, of 1] by (simp only: Let_def le_add2 True_implies_equals)
qed

interpretation emission_sqrt: isqrt_upto integer_sqrt_floor U128_MAX
  by unfold_locales (use integer_sqrt_floor_spec in auto)

lemma integer_sqrt_round_bounds:
  assumes "n < U64_MAX"
  shows "integer_sqrt_floor n \<le> integer_sqrt_round n"
    and "integer_sqrt_round n \<le> integer_sqrt_floor n + 1"
  by (auto simp: integer_sqrt_round_def Let_def sat_add128_def min_def)
     (use emission_sqrt.isqrt_self_le [of n] assms in \<open>simp add: U64_MAX_def U128_MAX_def\<close>)

section \<open>Targets\<close>

lemma difficulty_to_target_fits: "difficulty_to_target d \<le> U64_MAX"
proof -
  have "(2::nat) ^ (64 - d) \<le> 2 ^ 64" by (rule power_increasing) auto
  then have "(2::nat) ^ (64 - d) - 1 \<le> U64_MAX" unfolding U64_MAX_pow by (rule diff_le_mono)
  then show ?thesis by (simp add: difficulty_to_target_def)
qed

lemma difficulty_to_target_antimono:
  assumes "1 \<le> d" and "d \<le> e"
  shows "difficulty_to_target e \<le> difficulty_to_target d"
proof (cases "64 < e")
  case True
  then show ?thesis by (simp add: difficulty_to_target_def)
next
  case False
  have "(2::nat) ^ (64 - e) \<le> 2 ^ (64 - d)" using assms by (intro power_increasing) auto
  with False assms show ?thesis by (simp add: difficulty_to_target_def diff_le_mono)
qed

section \<open>The fixed-point logarithm stays in range\<close>

lemma mantissa_q32_range:
  assumes "1 \<le> v"
  shows "Q32_ONE \<le> mantissa_q32 v \<and> mantissa_q32 v < 2 * Q32_ONE"
proof -
  let ?l = "bit_length v - 1"
  have lo: "2 ^ ?l \<le> v" using bit_length_lower [of v] assms by simp
  have "bit_length v = Suc ?l" using bit_length_pos [of v] assms by simp
  then have hi: "v < 2 * 2 ^ ?l" using bit_length_upper [of v] by (metis power_Suc)
  show ?thesis
  proof (cases "?l \<le> 32")
    case True
    have eq: "(2::nat) ^ ?l * 2 ^ (32 - ?l) = Q32_ONE"
      using True by (simp add: power_add [symmetric] Q32_ONE_def)
    have "2 ^ ?l * 2 ^ (32 - ?l) \<le> v * 2 ^ (32 - ?l)" using lo by (rule mult_le_mono1)
    moreover have "v * 2 ^ (32 - ?l) < (2 * 2 ^ ?l) * 2 ^ (32 - ?l)"
      using hi by (rule mult_less_mono1) simp
    ultimately have "Q32_ONE \<le> v * 2 ^ (32 - ?l) \<and> v * 2 ^ (32 - ?l) < 2 * Q32_ONE"
      by (simp only: eq mult.assoc)
    with True show ?thesis by (simp only: mantissa_q32_def Let_def if_True)
  next
    case False
    have eq: "(2::nat) ^ ?l = Q32_ONE * 2 ^ (?l - 32)"
    proof -
      have "(2::nat) ^ ?l = 2 ^ (32 + (?l - 32))" using False by simp
      also have "\<dots> = 2 ^ 32 * 2 ^ (?l - 32)" by (rule power_add)
      finally show ?thesis by (simp add: Q32_ONE_def)
    qed
    have "Q32_ONE \<le> v div 2 ^ (?l - 32)"
      using lo eq by (simp add: less_eq_div_iff_mult_less_eq)
    moreover have "v div 2 ^ (?l - 32) < 2 * Q32_ONE"
      using hi eq by (simp add: div_less_iff_less_mult)
    ultimately show ?thesis using False by (simp add: mantissa_q32_def Let_def)
  qed
qed

text \<open>
  With \<open>9 * y2 \<le> Q32_ONE\<close> the terms shrink by nine, so the sum of the series is at most
  \<open>9/8\<close> of its first term.
\<close>

lemma ln_series_bound:
  assumes "\<forall>d \<in> set ds. 1 \<le> d" and "9 * y2 \<le> Q32_ONE"
  shows "8 * ln_series ds y2 term s \<le> 8 * s + 9 * term"
  using assms(1)
proof (induction ds arbitrary: "term" s)
  case Nil
  then show ?case by simp
next
  case (Cons d ds)
  let ?s = "sat_add128 s (term div d)" and ?t = "(term * y2) div Q32_ONE"
  have "term div d \<le> term" by simp
  then have s: "?s \<le> s + term" by (simp add: sat_add128_def min.coboundedI1)
  have "?t * Q32_ONE \<le> term * y2" by simp
  then have "9 * (?t * Q32_ONE) \<le> term * (9 * y2)" by simp
  also have "\<dots> \<le> term * Q32_ONE" using assms(2) by (rule mult_le_mono2)
  finally have "9 * ?t * Q32_ONE \<le> term * Q32_ONE" by (simp only: mult.assoc)
  then have t: "9 * ?t \<le> term" by (simp add: Q32_ONE_def)
  show ?case
  proof (cases "?t = 0")
    case True
    then show ?thesis using s by (simp add: Let_def)
  next
    case False
    have "8 * ln_series ds y2 ?t ?s \<le> 8 * ?s + 9 * ?t"
      using Cons.prems by (intro Cons.IH) simp
    with False s t show ?thesis by (simp add: Let_def)
  qed
qed

lemma ln_terms_fit:
  assumes "Q32_ONE < m" and "m < 2 * Q32_ONE"
  shows "3 * (((m - Q32_ONE) * Q32_ONE) div (m + Q32_ONE)) \<le> Q32_ONE"
proof -
  let ?q = "((m - Q32_ONE) * Q32_ONE) div (m + Q32_ONE)"
  have "3 * (m - Q32_ONE) \<le> m + Q32_ONE" using assms by linarith
  then have "3 * (m - Q32_ONE) * Q32_ONE \<le> (m + Q32_ONE) * Q32_ONE" by (rule mult_le_mono1)
  moreover have "?q * (m + Q32_ONE) \<le> (m - Q32_ONE) * Q32_ONE" by (rule div_times_less_eq_dividend)
  then have "3 * (?q * (m + Q32_ONE)) \<le> 3 * ((m - Q32_ONE) * Q32_ONE)" by (rule mult_le_mono2)
  ultimately have "(3 * ?q) * (m + Q32_ONE) \<le> Q32_ONE * (m + Q32_ONE)"
    by (simp only: mult.assoc mult.commute [of Q32_ONE "m + Q32_ONE"] le_trans)
  moreover have "0 < m + Q32_ONE" using assms by simp
  ultimately show ?thesis by (rule mult_right_le_imp_le)
qed

lemma ln_mantissa_q32_bound:
  assumes "m < 2 * Q32_ONE"
  shows "4 * ln_mantissa_q32 m \<le> 3 * Q32_ONE"
proof (cases "m \<le> Q32_ONE")
  case True
  then show ?thesis by (simp add: ln_mantissa_q32_def)
next
  case False
  let ?y = "((m - Q32_ONE) * Q32_ONE) div (m + Q32_ONE)"
  let ?y2 = "(?y * ?y) div Q32_ONE"
  have y: "3 * ?y \<le> Q32_ONE" using False assms by (intro ln_terms_fit) auto
  have "(3 * ?y) * (3 * ?y) \<le> Q32_ONE * Q32_ONE" using y y by (rule mult_le_mono)
  moreover have "?y2 * Q32_ONE \<le> ?y * ?y" by (rule div_times_less_eq_dividend)
  then have "9 * (?y2 * Q32_ONE) \<le> 9 * (?y * ?y)" by (rule mult_le_mono2)
  moreover have "(3 * ?y) * (3 * ?y) = 9 * (?y * ?y)" by simp
  ultimately have "9 * (?y2 * Q32_ONE) \<le> Q32_ONE * Q32_ONE" by linarith
  then have "(9 * ?y2) * Q32_ONE \<le> Q32_ONE * Q32_ONE" by (simp only: mult.assoc)
  then have "9 * ?y2 \<le> Q32_ONE" by (simp add: Q32_ONE_def)
  then have "8 * ln_series ln_divisors ?y2 ?y 0 \<le> 9 * ?y"
    using ln_series_bound [of ln_divisors ?y2 ?y 0] by (simp add: ln_divisors_def)
  with y have "8 * ln_series ln_divisors ?y2 ?y 0 \<le> 3 * Q32_ONE" by linarith
  moreover have "ln_mantissa_q32 m \<le> 2 * ln_series ln_divisors ?y2 ?y 0"
    using False by (simp add: ln_mantissa_q32_def Let_def sat_mul128_def)
  ultimately show ?thesis by linarith
qed

lemma ln_u64_q32_bound:
  assumes "v \<le> 2 ^ 63"
  shows "ln_u64_q32 v \<le> 190775027145"
proof (cases "v \<le> 1")
  case True
  then show ?thesis by (simp add: ln_u64_q32_def)
next
  case False
  have "bit_length v \<le> 64" using assms by (intro bit_length_le) simp
  then have l: "bit_length v - 1 \<le> 63" by simp
  have "4 * ln_mantissa_q32 (mantissa_q32 v) \<le> 3 * Q32_ONE"
    using mantissa_q32_range [of v] False by (intro ln_mantissa_q32_bound) simp
  moreover have "sat_mul128 (bit_length v - 1) LN_2_Q32 \<le> 63 * LN_2_Q32"
    using l by (auto simp: sat_mul128_def intro: le_trans [OF min.cobounded1])
  moreover have "ln_u64_q32 v \<le> sat_mul128 (bit_length v - 1) LN_2_Q32 + ln_mantissa_q32 (mantissa_q32 v)"
    using False by (simp add: ln_u64_q32_def Let_def sat_add128_def)
  ultimately show ?thesis by (simp add: Q32_ONE_def LN_2_Q32_def)
qed

section \<open>Vein yield and rewards\<close>

lemma compute_vein_yield_ge: "1000 \<le> compute_vein_yield d h"
  by (auto simp: compute_vein_yield_def Let_def sat_add64_def U64_MAX_def)

lemma ln_ratio_milli_bound:
  assumes "a \<le> 2 ^ 63"
  shows "ln_ratio_milli a b \<le> 44419"
proof -
  have q: "sat_sub (ln_u64_q32 a) (ln_u64_q32 b) \<le> 190775027145"
    using ln_u64_q32_bound [OF assms] by (simp add: sat_sub_def)
  have "q32_to_milli x \<le> 44419" if "x \<le> 190775027145" for x
  proof -
    have "sat_add128 (sat_mul128 x 1000) (Q32_ONE div 2) \<le> x * 1000 + Q32_ONE div 2"
      by (simp add: sat_add128_def sat_mul128_def)
    also have "\<dots> \<le> 190775027145 * 1000 + Q32_ONE div 2" using that by simp
    finally have "sat_add128 (sat_mul128 x 1000) (Q32_ONE div 2) div Q32_ONE
        \<le> (190775027145 * 1000 + Q32_ONE div 2) div Q32_ONE" by (rule div_le_mono)
    then show ?thesis by (simp add: q32_to_milli_def Q32_ONE_def)
  qed
  with q show ?thesis by (simp add: ln_ratio_milli_def)
qed

lemma compute_vein_yield_le: "compute_vein_yield d h \<le> 7665"
proof -
  have "integer_sqrt_round (ln_ratio_milli (difficulty_to_target d) h * 1000) \<le> 6665" if "d \<noteq> 0"
  proof -
    have "(2::nat) ^ (64 - d) \<le> 2 ^ 63" using that by (intro power_increasing) auto
    then have "difficulty_to_target d \<le> 2 ^ 63" by (auto simp: difficulty_to_target_def)
    then have r: "ln_ratio_milli (difficulty_to_target d) h * 1000 \<le> 44419000"
      using ln_ratio_milli_bound [of "difficulty_to_target d" h] by simp
    let ?n = "ln_ratio_milli (difficulty_to_target d) h * 1000"
    have "integer_sqrt_floor ?n \<le> integer_sqrt_floor 44419000"
      using r by (intro emission_sqrt.isqrt_mono) (simp_all add: U128_MAX_def)
    moreover have "integer_sqrt_floor 44419000 = 6664"
      by (rule emission_sqrt.isqrt_unique) (simp_all add: U128_MAX_def)
    ultimately show ?thesis
      using integer_sqrt_round_bounds(2) [of ?n] r by (simp add: U64_MAX_def)
  qed
  then show ?thesis
    by (auto simp: compute_vein_yield_def Let_def sat_add64_def min_def)
qed

lemma compute_block_reward_bounds:
  assumes "b \<le> U64_MAX"
  shows "compute_base_reward b d \<le> compute_block_reward b d h"
    and "compute_block_reward b d h * 1000 \<le> compute_base_reward b d * 7665"
proof -
  let ?base = "b div max d MIN_DIFFICULTY" and ?y = "compute_vein_yield d h"
  have base: "?base \<le> U64_MAX" using assms div_le_dividend le_trans by blast
  have "?base * 1000 \<le> ?base * ?y" using compute_vein_yield_ge by (rule mult_le_mono2)
  then have "?base \<le> (?base * ?y) div 1000" by (simp add: less_eq_div_iff_mult_less_eq)
  with base show "compute_base_reward b d \<le> compute_block_reward b d h"
    by (simp add: compute_base_reward_def compute_block_reward_def Let_def saturating_u128_to_flakes_def)
  have "?base * ?y \<le> ?base * 7665" using compute_vein_yield_le by (rule mult_le_mono2)
  moreover have "(?base * ?y) div 1000 * 1000 \<le> ?base * ?y" by (rule div_times_less_eq_dividend)
  moreover have "compute_block_reward b d h \<le> (?base * ?y) div 1000"
    by (simp add: compute_block_reward_def Let_def saturating_u128_to_flakes_def)
  then have "compute_block_reward b d h * 1000 \<le> (?base * ?y) div 1000 * 1000" by (rule mult_le_mono1)
  ultimately show "compute_block_reward b d h * 1000 \<le> compute_base_reward b d * 7665"
    unfolding compute_base_reward_def by linarith
qed

lemma compute_block_reward_fits: "compute_block_reward b d h \<le> U64_MAX"
  by (simp add: compute_block_reward_def Let_def saturating_u128_to_flakes_def)

text \<open>
  Every mined block earns at least the base reward for its difficulty and never more than
  7.665 times that, whatever the proof-of-work hash: the fixed-point logarithm, the square root
  and the saturations keep the vein yield between 1.000 and 7.665.
\<close>

theorem block_reward_within_vein_bounds:
  assumes "base_reward \<le> U64_MAX"
  shows "compute_base_reward base_reward d \<le> compute_block_reward base_reward d pow_hash
    \<and> compute_block_reward base_reward d pow_hash * 1000 \<le> compute_base_reward base_reward d * 7665
    \<and> 1000 \<le> compute_vein_yield d pow_hash \<and> compute_vein_yield d pow_hash \<le> 7665"
  using compute_block_reward_bounds [OF assms] compute_vein_yield_ge compute_vein_yield_le by blast

theorem block_reward_within_vein_bounds_witness:
  "BASE_REWARD \<le> U64_MAX \<and> compute_base_reward BASE_REWARD 7 = 47428571
   \<and> 47428571 \<le> compute_block_reward BASE_REWARD 7 1
   \<and> compute_block_reward BASE_REWARD 7 1 * 1000 \<le> 47428571 * 7665"
proof -
  have b: "BASE_REWARD \<le> U64_MAX" by (simp add: const_defs U64_MAX_def)
  have e: "compute_base_reward BASE_REWARD 7 = 47428571"
    by (simp add: compute_base_reward_def const_defs)
  show ?thesis using block_reward_within_vein_bounds [OF b, of 7 1] b e by simp
qed

section \<open>Fee signal\<close>

lemma compute_suggested_fee_ge: "MIN_FEE \<le> compute_suggested_fee f n old"
  by (simp add: compute_suggested_fee_def Let_def)

text \<open>
  The suggested fee never leaves the interval spanned by the previous suggestion and the
  average fee of the block just applied, up to the floor of one flake, and it moves a tenth of
  the way: the result is the floor of \<open>(average + 9 * previous) / 10\<close>.
\<close>

theorem suggested_fee_moving_average:
  assumes "n = 0 \<longrightarrow> average = MIN_FEE" and "n \<noteq> 0 \<longrightarrow> average = fees div n"
    and "average + 9 * previous \<le> U64_MAX"
  shows "compute_suggested_fee fees n previous = max ((average + 9 * previous) div 10) MIN_FEE
    \<and> MIN_FEE \<le> compute_suggested_fee fees n previous
    \<and> min average previous \<le> compute_suggested_fee fees n previous
    \<and> compute_suggested_fee fees n previous \<le> max (max average previous) MIN_FEE"
proof -
  have eq: "compute_suggested_fee fees n previous = max ((average + 9 * previous) div 10) MIN_FEE"
    using assms
    by (cases "n = 0") (simp_all add: compute_suggested_fee_def Let_def sat_sub_def sat_mul64_def
        sat_add64_def mult.commute)
  have "min average previous \<le> (average + 9 * previous) div 10"
    by (cases "average \<le> previous") linarith+
  moreover have "(average + 9 * previous) div 10 \<le> max average previous"
    by (cases "average \<le> previous") linarith+
  ultimately show ?thesis unfolding eq by auto
qed

theorem suggested_fee_moving_average_witness:
  "compute_suggested_fee 10000 1 1000 = 1900 \<and> MIN_FEE \<le> compute_suggested_fee 10000 1 1000"
  using suggested_fee_moving_average [of 1 10000 10000 1000]
  by (simp add: U64_MAX_def MIN_FEE_def)

end
