(* ===== verification/Refiner.thy ===== *)
theory Refiner
  imports Account Emission
begin

text \<open>
  The refiner set, \<open>crates/consensus/src/refiner.rs\<close>: bond entries with FIFO unbonding, the
  unbonding queue, activation and reranking, slashing, and stake-weighted producer selection.
  A \<open>u64\<close> \<open>sum()\<close> wraps in the release build; indexing out of range is the error
  \<open>panic_out_of_range\<close>, which the guards are shown to exclude.
\<close>

unbundle bit_operations_syntax

section \<open>State\<close>

record pending_unbond =
  pu_account :: object_id
  pu_amount :: nat
  pu_matures_at :: nat

record bond_entry =
  bd_stake :: nat
  bd_height :: nat
  bd_timestamp :: nat

record refiner_info =
  ri_object_id :: object_id
  ri_entries :: "bond_entry list"
  ri_status :: refiner_status
  ri_last_signed_height :: nat
  ri_attestations :: nat

record refiner_set =
  rs_refiners :: "(object_id, refiner_info) hash_map"
  rs_active_set :: "object_id list"
  rs_dirty :: "object_id set"
  rs_queue :: "pending_unbond list"

record refiner_externs = account_externs +
  x_borsh_refiner :: "refiner_info \<Rightarrow> byte list option"
  x_borsh_unbond :: "pending_unbond \<Rightarrow> byte list option"

definition panic_out_of_range :: message where
  "panic_out_of_range = Fmt (STR ''index out of bounds'') []"

section \<open>Numeric helpers\<close>

definition refiner_sqrt_floor :: "nat \<Rightarrow> nat" where
  "refiner_sqrt_floor n =
     (if n < 2 then n
      else (let bit_len = bit_length n in sqrt_bisect n 1 (2 ^ div_ceil bit_len 2) 1))"

definition mix_seed :: "64 word \<Rightarrow> 64 word" where
  "mix_seed seed =
     (let z0 = seed + 0x9E3779B97F4A7C15;
          z1 = (z0 XOR drop_bit 30 z0) * 0xBF58476D1CE4E5B9;
          z2 = (z1 XOR drop_bit 27 z1) * 0x94D049BB133111EB
      in z2 XOR drop_bit 31 z2)"

text \<open>
  The rejection-sampling loop may in principle never leave the rejected tail, so the result of
  the loop is an option whose \<open>None\<close> is "does not return".
\<close>

partial_function (option) sample_loop :: "nat \<Rightarrow> nat \<Rightarrow> 64 word \<Rightarrow> nat option" where
  "sample_loop unbiased_zone upper candidate =
     (let v = unat candidate in
      if v < unbiased_zone then Some (v mod upper)
      else sample_loop unbiased_zone upper (mix_seed candidate))"

definition unbiased_zone :: "nat \<Rightarrow> nat" where
  "unbiased_zone upper = 2 ^ 64 - 2 ^ 64 mod upper"

text \<open>Outer \<open>None\<close>: the loop does not return; inner \<open>None\<close>: the code's own \<open>None\<close>.\<close>

definition uniform_amount_from_seed :: "64 word \<Rightarrow> nat \<Rightarrow> nat option option" where
  "uniform_amount_from_seed seed upper =
     (if upper = 0 then Some None
      else map_option Some (sample_loop (unbiased_zone upper) upper seed))"

section \<open>Refiner entries\<close>

definition age_years_milli :: "bond_entry \<Rightarrow> nat \<Rightarrow> nat" where
  "age_years_milli e current_timestamp =
     (if current_timestamp \<le> bd_timestamp e then 0
      else wrap64 ((current_timestamp - bd_timestamp e) * 1000 div 31557600))"

definition entry_weight :: "bond_entry \<Rightarrow> nat \<Rightarrow> nat" where
  "entry_weight e current_timestamp =
     compute_refiner_weight (bd_stake e) (age_years_milli e current_timestamp)"

definition refiner_new :: "object_id \<Rightarrow> nat \<Rightarrow> nat \<Rightarrow> nat \<Rightarrow> refiner_info" where
  "refiner_new i stake height timestamp =
     \<lparr> ri_object_id = i,
       ri_entries = [\<lparr> bd_stake = stake, bd_height = height, bd_timestamp = timestamp \<rparr>],
       ri_status = Bonding, ri_last_signed_height = 0, ri_attestations = 0 \<rparr>"

definition total_stake :: "refiner_info \<Rightarrow> nat" where
  "total_stake r = wrap64 (sum_list (map bd_stake (ri_entries r)))"

definition refiner_weight :: "refiner_info \<Rightarrow> nat \<Rightarrow> nat" where
  "refiner_weight r current_timestamp =
     wrap64 (sum_list (map (\<lambda>e. entry_weight e current_timestamp) (ri_entries r)))"

definition add_entry :: "nat \<Rightarrow> nat \<Rightarrow> nat \<Rightarrow> refiner_info \<Rightarrow> (message + unit) \<times> refiner_info" where
  "add_entry stake height timestamp r =
     (let es = ri_entries r in
      case position (\<lambda>e. bd_timestamp e = timestamp) es of
        Some i \<Rightarrow>
          (case checked_add64 (bd_stake (es ! i)) stake of
             None \<Rightarrow>
               (Inl (Fmt (STR ''Bond entry stake overflow: existing {} + new {}'')
                  [ANat (bd_stake (es ! i)), ANat stake]), r)
           | Some b \<Rightarrow> (Inr (), r\<lparr>ri_entries := es[i := (es ! i)\<lparr>bd_stake := b\<rparr>]\<rparr>))
      | None \<Rightarrow>
          (let entry = \<lparr> bd_stake = stake, bd_height = height, bd_timestamp = timestamp \<rparr>;
               pos = (case position (\<lambda>e. timestamp < bd_timestamp e) es of
                        None \<Rightarrow> length es | Some i \<Rightarrow> i)
           in (Inr (), r\<lparr>ri_entries := insert_at pos entry es\<rparr>)))"

text \<open>The loop of \<open>unbond_fifo\<close>; \<open>None\<close> is an index out of range.\<close>

function unbond_loop :: "nat \<Rightarrow> nat \<Rightarrow> bond_entry list \<Rightarrow> (nat \<times> nat \<times> bond_entry list) option" where
  "unbond_loop remaining consumed es =
     (if 0 < remaining \<and> es \<noteq> [] then
        (if length es \<le> consumed then None
         else
           (let entry_stake = bd_stake (es ! consumed) in
            if entry_stake \<le> remaining
            then unbond_loop (remaining - entry_stake) (consumed + 1) es
            else unbond_loop 0 consumed
                   (es[consumed := (es ! consumed)\<lparr>bd_stake := entry_stake - remaining\<rparr>])))
      else Some (remaining, consumed, es))"
  by pat_completeness auto
termination
  by (relation "measure (\<lambda>(remaining, consumed, es).
      if remaining = 0 then 0 else Suc (length es - consumed))") auto

declare unbond_loop.simps [simp del]

definition unbond_fifo :: "nat \<Rightarrow> refiner_info \<Rightarrow> (nat \<times> refiner_info) option" where
  "unbond_fifo amount r =
     (case unbond_loop amount 0 (ri_entries r) of
        None \<Rightarrow> None
      | Some (remaining, consumed, es) \<Rightarrow>
          Some (sat_sub amount remaining, r\<lparr>ri_entries := drop consumed es\<rparr>))"

definition get_entry :: "refiner_info \<Rightarrow> nat \<Rightarrow> bond_entry option" where
  "get_entry r index = (if index < length (ri_entries r) then Some (ri_entries r ! index) else None)"

section \<open>The refiner set\<close>

definition refiner_set_new :: refiner_set where
  "refiner_set_new = \<lparr> rs_refiners = [], rs_active_set = [], rs_dirty = {}, rs_queue = [] \<rparr>"

definition clear_dirty :: "refiner_set \<Rightarrow> refiner_set" where
  "clear_dirty s = s\<lparr>rs_dirty := {}\<rparr>"

definition minimum_bond_stake :: "nat \<Rightarrow> nat" where
  "minimum_bond_stake total_issued_flakes =
     (let total_issued_opl = total_issued_flakes div FLAKES_PER_OPL;
          min_opl = max (refiner_sqrt_floor total_issued_opl) 1
      in min (sat_mul128 min_opl FLAKES_PER_OPL) U64_MAX)"

definition bond ::
  "object_id \<Rightarrow> nat \<Rightarrow> nat \<Rightarrow> nat \<Rightarrow> nat \<Rightarrow> refiner_set \<Rightarrow> (message + unit) \<times> refiner_set" where
  "bond i stake height timestamp total_issued_flakes s =
     (let minimum_bond = minimum_bond_stake total_issued_flakes in
      if stake < minimum_bond
      then (Inl (Fmt (STR ''Insufficient stake per entry: need {}, have {}'')
              [ANat minimum_bond, ANat stake]), s)
      else
        (case hm_get (rs_refiners s) i of
           Some refiner \<Rightarrow>
             if ri_status refiner = Slashed
             then (Inl (Fmt (STR ''Slashed refiners cannot re-bond'') []), s)
             else
               (case add_entry stake height timestamp refiner of
                  (Inl e, r') \<Rightarrow> (Inl e, s\<lparr>rs_refiners := hm_put i r' (rs_refiners s)\<rparr>)
                | (Inr _, r') \<Rightarrow>
                    (let r'' = (if ri_status r' = Unbonding then r'\<lparr>ri_status := Bonding\<rparr> else r')
                     in (Inr (), s\<lparr>rs_refiners := hm_put i r'' (rs_refiners s),
                                   rs_dirty := insert i (rs_dirty s)\<rparr>)))
         | None \<Rightarrow>
             (Inr (), s\<lparr>rs_refiners := hm_put i (refiner_new i stake height timestamp) (rs_refiners s),
                        rs_dirty := insert i (rs_dirty s)\<rparr>)))"

definition unbond_amount ::
  "object_id \<Rightarrow> nat \<Rightarrow> nat \<Rightarrow> refiner_set \<Rightarrow> (message + nat) \<times> refiner_set" where
  "unbond_amount i amount current_height s =
     (case hm_get (rs_refiners s) i of
        None \<Rightarrow> (Inl (Fmt (STR ''Refiner not bonded'') []), s)
      | Some refiner \<Rightarrow>
          (let ts = total_stake refiner in
           if ts = 0 then (Inl (Fmt (STR ''Refiner has no stake'') []), s)
           else if amount = 0
           then (Inl (Fmt (STR ''Unbond amount must be greater than zero'') []), s)
           else if ts < amount
           then (Inl (Fmt (STR ''Cannot unbond more than total stake: requested {}, available {}'')
                   [ANat amount, ANat ts]), s)
           else
             (case unbond_fifo amount refiner of
                None \<Rightarrow> (Inl panic_out_of_range, s)
              | Some (unbonded, r') \<Rightarrow>
                  (let q = rs_queue s @ [\<lparr> pu_account = i, pu_amount = unbonded,
                             pu_matures_at = sat_add64 current_height EPOCH \<rparr>];
                       empty = (ri_entries r' = []);
                       r'' = (if empty then r'\<lparr>ri_status := Unbonding\<rparr> else r');
                       active = (if empty then filter (\<lambda>j. j \<noteq> i) (rs_active_set s) else rs_active_set s)
                   in (Inr unbonded,
                       s\<lparr>rs_refiners := hm_put i r'' (rs_refiners s), rs_active_set := active,
                         rs_dirty := insert i (rs_dirty s), rs_queue := q\<rparr>)))))"

definition matured_unbonds :: "nat \<Rightarrow> refiner_set \<Rightarrow> (object_id \<times> nat) list" where
  "matured_unbonds current_height s =
     map (\<lambda>e. (pu_account e, pu_amount e)) (filter (\<lambda>e. pu_matures_at e \<le> current_height) (rs_queue s))"

definition remove_if_done :: "object_id \<Rightarrow> refiner_set \<Rightarrow> refiner_set" where
  "remove_if_done account s =
     (let still_pending = (\<exists>e \<in> set (rs_queue s). pu_account e = account);
          should_remove = (case hm_get (rs_refiners s) account of
             None \<Rightarrow> False
           | Some r \<Rightarrow> ri_status r = Unbonding \<and> total_stake r = 0 \<and> \<not> still_pending)
      in if should_remove
         then s\<lparr>rs_refiners := hm_del account (rs_refiners s),
                rs_active_set := filter (\<lambda>j. j \<noteq> account) (rs_active_set s)\<rparr>
         else s)"

definition process_matured_unbonds ::
  "nat \<Rightarrow> refiner_set \<Rightarrow> (object_id \<times> nat) list \<times> refiner_set" where
  "process_matured_unbonds current_height s =
     (let matured = map (\<lambda>e. (pu_account e, pu_amount e))
                      (filter (\<lambda>e. pu_matures_at e \<le> current_height) (rs_queue s));
          remaining = filter (\<lambda>e. \<not> pu_matures_at e \<le> current_height) (rs_queue s);
          s1 = s\<lparr>rs_queue := remaining\<rparr>
      in (matured, fold (\<lambda>m t. remove_if_done (fst m) t) matured s1))"

definition eligible_for_activation :: "nat \<Rightarrow> refiner_info \<Rightarrow> bool" where
  "eligible_for_activation current_height r =
     (ri_status r = Bonding \<and>
      (case ri_entries r of [] \<Rightarrow> False | e # _ \<Rightarrow> sat_add64 (bd_height e) EPOCH \<le> current_height))"

definition mark_waiting :: "nat \<Rightarrow> object_id \<Rightarrow> refiner_set \<Rightarrow> refiner_set" where
  "mark_waiting current_height i s =
     (case hm_get (rs_refiners s) i of
        None \<Rightarrow> s
      | Some r \<Rightarrow>
          s\<lparr>rs_refiners := hm_put i (r\<lparr>ri_status := Waiting, ri_last_signed_height := current_height\<rparr>)
               (rs_refiners s), rs_dirty := insert i (rs_dirty s)\<rparr>)"

definition activate_matured_refiners :: "nat \<Rightarrow> refiner_set \<Rightarrow> object_id list \<times> refiner_set" where
  "activate_matured_refiners current_height s =
     (let eligible = map fst (filter (\<lambda>(i, r). eligible_for_activation current_height r) (rs_refiners s))
      in (filter (\<lambda>i. hm_get (rs_refiners s) i \<noteq> None) eligible,
          fold (mark_waiting current_height) eligible s))"

definition active_refiner_limit :: "nat \<Rightarrow> nat" where
  "active_refiner_limit total_issued_flakes =
     (let total_issued_opl = total_issued_flakes div FLAKES_PER_OPL;
          sqrt_issued = refiner_sqrt_floor total_issued_opl
      in min (sat_add128 EPOCH sqrt_issued) U64_MAX)"

text \<open>
  \<open>sort_by\<close> with descending stake and ascending id as tie break: a stable sort by id followed by
  a stable sort by descending stake.
\<close>

definition rerank_order :: "refiner_set \<Rightarrow> object_id list" where
  "rerank_order s =
     (let eligible = map (\<lambda>(i, r). (i, total_stake r))
            (filter (\<lambda>(i, r). ri_status r \<noteq> Slashed \<and> 0 < total_stake r) (rs_refiners s))
      in map fst (sort_key (\<lambda>p. - int (snd p)) (sort_key fst eligible)))"

record rerank_state =
  rk_set :: refiner_set
  rk_activated :: "object_id list"
  rk_demoted :: "object_id list"

definition rerank_one :: "nat \<Rightarrow> nat \<times> object_id \<Rightarrow> rerank_state \<Rightarrow> rerank_state" where
  "rerank_one active_limit p t =
     (let rank = fst p; i = snd p; s = rk_set t in
      case hm_get (rs_refiners s) i of
        None \<Rightarrow> t
      | Some r \<Rightarrow>
          if rank < active_limit then
            (if ri_status r = Waiting
             then t\<lparr>rk_set := s\<lparr>rs_refiners := hm_put i (r\<lparr>ri_status := Active\<rparr>) (rs_refiners s),
                               rs_active_set := rs_active_set s @ [i],
                               rs_dirty := insert i (rs_dirty s)\<rparr>,
                    rk_activated := rk_activated t @ [i]\<rparr>
             else t)
          else
            (if ri_status r = Active
             then t\<lparr>rk_set := s\<lparr>rs_refiners := hm_put i (r\<lparr>ri_status := Waiting\<rparr>) (rs_refiners s),
                               rs_active_set := filter (\<lambda>j. j \<noteq> i) (rs_active_set s),
                               rs_dirty := insert i (rs_dirty s)\<rparr>,
                    rk_demoted := rk_demoted t @ [i]\<rparr>
             else t))"

definition rerank_refiners ::
  "nat \<Rightarrow> nat \<Rightarrow> refiner_set \<Rightarrow> (object_id list \<times> object_id list) \<times> refiner_set" where
  "rerank_refiners current_timestamp total_issued_flakes s =
     (let active_limit = active_refiner_limit total_issued_flakes;
          order = rerank_order s;
          t = fold (rerank_one active_limit) (zip [0..<length order] order)
                \<lparr> rk_set = s, rk_activated = [], rk_demoted = [] \<rparr>
      in ((rk_activated t, rk_demoted t), rk_set t))"

definition total_active_refiners :: "refiner_set \<Rightarrow> nat" where
  "total_active_refiners s = length (rs_active_set s)"

definition total_bonding_refiners :: "refiner_set \<Rightarrow> nat" where
  "total_bonding_refiners s = length (filter (\<lambda>(_, r). ri_status r = Bonding) (rs_refiners s))"

definition total_waiting_refiners :: "refiner_set \<Rightarrow> nat" where
  "total_waiting_refiners s = length (filter (\<lambda>(_, r). ri_status r = Waiting) (rs_refiners s))"

definition activate :: "object_id \<Rightarrow> nat \<Rightarrow> refiner_set \<Rightarrow> (message + unit) \<times> refiner_set" where
  "activate i height s =
     (case hm_get (rs_refiners s) i of
        None \<Rightarrow> (Inl (Fmt (STR ''Refiner not found'') []), s)
      | Some r \<Rightarrow>
          if ri_status r \<noteq> Bonding then (Inl (Fmt (STR ''Refiner not in bonding state'') []), s)
          else (Inr (),
            s\<lparr>rs_refiners := hm_put i (r\<lparr>ri_status := Active, ri_last_signed_height := height\<rparr>) (rs_refiners s),
              rs_active_set := (if i \<in> set (rs_active_set s) then rs_active_set s else rs_active_set s @ [i]),
              rs_dirty := insert i (rs_dirty s)\<rparr>))"

definition slash_refiner :: "object_id \<Rightarrow> nat \<Rightarrow> refiner_set \<Rightarrow> (message + nat) \<times> refiner_set" where
  "slash_refiner i current_height s =
     (let pending_burn = fold (\<lambda>e b. if pu_account e = i then sat_add64 b (pu_amount e) else b) (rs_queue s) 0;
          s1 = s\<lparr>rs_queue := filter (\<lambda>e. pu_account e \<noteq> i) (rs_queue s)\<rparr>
      in case hm_get (rs_refiners s1) i of
           None \<Rightarrow> if 0 < pending_burn then (Inr pending_burn, s1)
                   else (Inl (Fmt (STR ''Refiner not found'') []), s1)
         | Some r \<Rightarrow>
             if ri_status r = Slashed then (Inr pending_burn, s1)
             else
               (let burn = sat_add64 (total_stake r) pending_burn;
                    r' = r\<lparr>ri_status := Slashed,
                           ri_entries := map (\<lambda>e. e\<lparr>bd_stake := 0\<rparr>) (ri_entries r)\<rparr>
                in (Inr burn,
                    s1\<lparr>rs_refiners := hm_put i r' (rs_refiners s1),
                       rs_active_set := filter (\<lambda>j. j \<noteq> i) (rs_active_set s1),
                       rs_dirty := insert i (rs_dirty s1)\<rparr>)))"

definition get_refiner :: "refiner_set \<Rightarrow> object_id \<Rightarrow> refiner_info option" where
  "get_refiner s i = hm_get (rs_refiners s) i"

definition record_correct_attestation :: "object_id \<Rightarrow> refiner_set \<Rightarrow> (message + nat) \<times> refiner_set" where
  "record_correct_attestation i s =
     (case hm_get (rs_refiners s) i of
        None \<Rightarrow> (Inl (Fmt (STR ''Attestation refiner not found'') []), s)
      | Some r \<Rightarrow>
          if ri_status r \<noteq> Active then (Inl (Fmt (STR ''Attestation refiner is not active'') []), s)
          else
            (let n = sat_add64 (ri_attestations r) 1
             in (Inr n, s\<lparr>rs_refiners := hm_put i (r\<lparr>ri_attestations := n\<rparr>) (rs_refiners s),
                          rs_dirty := insert i (rs_dirty s)\<rparr>)))"

definition active_refiners :: "refiner_set \<Rightarrow> refiner_info list" where
  "active_refiners s = List.map_filter (hm_get (rs_refiners s)) (rs_active_set s)"

definition total_bonded_stake :: "refiner_set \<Rightarrow> nat" where
  "total_bonded_stake s =
     (let active_stake = wrap64 (sum_list (map total_stake (active_refiners s)));
          other_stake = wrap64 (sum_list (map (\<lambda>(_, r). total_stake r)
            (filter (\<lambda>(_, r). ri_status r = Bonding \<or> ri_status r = Waiting) (rs_refiners s))))
      in sat_add64 active_stake other_stake)"

definition total_weight :: "refiner_set \<Rightarrow> nat \<Rightarrow> nat" where
  "total_weight s current_timestamp =
     wrap64 (sum_list (map (\<lambda>r. refiner_weight r current_timestamp) (active_refiners s)))"

definition refiner_count :: "refiner_set \<Rightarrow> nat" where
  "refiner_count s = length (rs_refiners s)"

definition all_refiners :: "refiner_set \<Rightarrow> refiner_info list" where
  "all_refiners s = sort_key ri_object_id (map snd (rs_refiners s))"

definition load_from_refiners :: "refiner_info list \<Rightarrow> pending_unbond list \<Rightarrow> refiner_set" where
  "load_from_refiners refiners q =
     fold (\<lambda>v s. s\<lparr>rs_active_set := (if ri_status v = Active then rs_active_set s @ [ri_object_id v]
                                       else rs_active_set s),
                    rs_refiners := hm_put (ri_object_id v) v (rs_refiners s)\<rparr>)
       refiners \<lparr> rs_refiners = [], rs_active_set = [], rs_dirty = {}, rs_queue = q \<rparr>"

fun hash_refiners ::
  "'x refiner_externs_scheme \<Rightarrow> (object_id, refiner_info) hash_map \<Rightarrow> object_id list \<Rightarrow>
   blake3_hasher \<Rightarrow> opolys_error + blake3_hasher" where
  "hash_refiners X m [] h = Inr h"
| "hash_refiners X m (i # is) h =
     (case hm_get m i of
        None \<Rightarrow> hash_refiners X m is h
      | Some r \<Rightarrow>
          (case x_borsh_refiner X r of
             None \<Rightarrow> Inl (SerializationError (Fmt (STR ''Refiner serialization failed: {}'') []))
           | Some bytes \<Rightarrow> hash_refiners X m is (hasher_update h bytes)))"

fun hash_unbonds ::
  "'x refiner_externs_scheme \<Rightarrow> pending_unbond list \<Rightarrow> blake3_hasher \<Rightarrow> opolys_error + blake3_hasher" where
  "hash_unbonds X [] h = Inr h"
| "hash_unbonds X (e # es) h =
     (case x_borsh_unbond X e of
        None \<Rightarrow> Inl (SerializationError (Fmt (STR ''Unbonding entry serialization failed: {}'') []))
      | Some bytes \<Rightarrow> hash_unbonds X es (hasher_update h bytes))"

definition refiners_state_root :: "'x refiner_externs_scheme \<Rightarrow> refiner_set \<Rightarrow> opolys_error + hash" where
  "refiners_state_root X s =
     (let sorted_ids = sort (map fst (rs_refiners s));
          h = hasher_update (hasher_update hasher_new DOMAIN_STATE_ROOT) (ascii ''refiners'')
      in and_then (hash_refiners X (rs_refiners s) sorted_ids h)
           (\<lambda>h1. and_then (hash_unbonds X (rs_queue s) h1) (\<lambda>h2. Inr (hasher_finalize X h2))))"

section \<open>Producer selection\<close>

fun pick_producer :: "nat \<Rightarrow> nat \<Rightarrow> refiner_info list \<Rightarrow> refiner_info option" where
  "pick_producer ticket cumulative [] = None"
| "pick_producer ticket cumulative (r # rs) =
     (let c = sat_add64 cumulative (total_stake r)
      in if ticket < c then Some r else pick_producer ticket c rs)"

definition producer_candidates :: "refiner_set \<Rightarrow> refiner_info list" where
  "producer_candidates s =
     sort_key ri_object_id (filter (\<lambda>r. 0 < total_stake r) (active_refiners s))"

text \<open>Outer \<open>None\<close>: the sampling loop does not return.\<close>

definition select_block_producer :: "64 word \<Rightarrow> refiner_set \<Rightarrow> refiner_info option option" where
  "select_block_producer seed s =
     (let active = producer_candidates s;
          total_active_stake = fold (\<lambda>r acc. sat_add64 acc (total_stake r)) active 0
      in case uniform_amount_from_seed seed total_active_stake of
           None \<Rightarrow> None
         | Some None \<Rightarrow> Some None
         | Some (Some ticket) \<Rightarrow> Some (pick_producer ticket 0 active))"

end
