(* ===== verification/Pow.thy ===== *)
theory Pow
  imports Refiner
begin

text \<open>
  Proof of work, \<open>crates/consensus/src/pow.rs\<close>: the header serialization that is mined, the epoch
  seed, light verification, the hash value behind the vein yield, mining and the challenge input;
  with the seed, leading-zero and nonce-search code of the vendored crate
  (\<open>vendor/evo-omap/src/evo_omap.rs\<close>) that they rest on. Dataset generation and the
  memory-hard hash itself are parameters.
\<close>

type_synonym dataset = "byte list list"

record pow_externs = refiner_externs +
  x_evo_generate :: "hash \<Rightarrow> dataset"
  x_evo_hash :: "dataset \<Rightarrow> byte list \<Rightarrow> nat \<Rightarrow> nat \<Rightarrow> hash"
  x_evo_hash_light :: "hash \<Rightarrow> byte list \<Rightarrow> nat \<Rightarrow> nat \<Rightarrow> hash"

text \<open>
  What the node relies on: light verification reconstructs the same hash as the full dataset.
\<close>

definition evo_modes_agree :: "'x pow_externs_scheme \<Rightarrow> bool" where
  "evo_modes_agree X \<longleftrightarrow> (\<forall>seed header height nonce.
     x_evo_hash_light X seed header height nonce = x_evo_hash X (x_evo_generate X seed) header height nonce)"

section \<open>Serialization\<close>

definition serialize_header_for_pow :: "block_header \<Rightarrow> byte list" where
  "serialize_header_for_pow h =
     le_bytes 4 (bh_version h) @ le_bytes 8 (bh_height h) @ hash_as_bytes (bh_previous_hash h) @
     hash_as_bytes (bh_state_root h) @ hash_as_bytes (bh_transaction_root h) @
     hash_as_bytes (bh_evidence_root h) @ hash_as_bytes (bh_attestation_root h) @
     hash_as_bytes (bh_genesis_ceremony_hash h) @ le_bytes 8 (bh_timestamp h) @
     le_bytes 8 (bh_difficulty h) @ le_bytes 8 (bh_suggested_fee h) @
     (case bh_extension_root h of None \<Rightarrow> [] | Some r \<Rightarrow> hash_as_bytes r)"

definition epoch_seed_material :: "block_header \<Rightarrow> byte list" where
  "epoch_seed_material h = le_bytes 8 MAINNET_CHAIN_ID @ hash_as_bytes (bh_previous_hash h)"

section \<open>The vendored verifier\<close>

definition prefixed_domain :: "byte list \<Rightarrow> byte list" where
  "prefixed_domain domain = word_of_nat (length domain mod 256) # domain"

definition DOMAIN_EPOCH :: "byte list" where "DOMAIN_EPOCH = ascii ''evo_omap_epoch''"

definition compute_epoch_seed ::
  "'x pow_externs_scheme \<Rightarrow> nat \<Rightarrow> nat \<Rightarrow> byte list \<Rightarrow> hash" where
  "compute_epoch_seed X height epoch_length seed_material =
     (let epoch = height div epoch_length
      in x_blake3 X (prefixed_domain DOMAIN_EPOCH @ le_bytes 8 epoch @
           le_bytes 8 (length seed_material) @ seed_material))"

text \<open>The bits of a byte, most significant first: \<open>(0..8).rev().map(|i| (b >> i) & 1)\<close>.\<close>

definition byte_bits :: "byte \<Rightarrow> bool list" where
  "byte_bits b = map (bit b) (rev [0..<8])"

definition leading_zeros :: "hash \<Rightarrow> nat" where
  "leading_zeros h = length (takeWhile (\<lambda>b. \<not> b) (concat (map byte_bits (hash_as_bytes h))))"

definition evo_verify_light ::
  "'x pow_externs_scheme \<Rightarrow> byte list \<Rightarrow> nat \<Rightarrow> nat \<Rightarrow> nat \<Rightarrow> nat \<Rightarrow> byte list \<Rightarrow> bool" where
  "evo_verify_light X header height nonce difficulty epoch_length seed_material =
     (if difficulty = 0 then False
      else
        (let epoch_seed = compute_epoch_seed X height epoch_length seed_material;
             pow_hash = x_evo_hash_light X epoch_seed header height nonce
         in difficulty \<le> leading_zeros pow_hash))"

definition evo_mine ::
  "'x pow_externs_scheme \<Rightarrow> byte list \<Rightarrow> nat \<Rightarrow> nat \<Rightarrow> nat \<Rightarrow> nat \<Rightarrow> byte list \<Rightarrow> nat option \<times> nat" where
  "evo_mine X header height difficulty max_nonce_attempts epoch_length seed_material =
     (if difficulty = 0 then (None, 0)
      else
        (let dataset = x_evo_generate X (compute_epoch_seed X height epoch_length seed_material);
             good = (\<lambda>nonce. difficulty \<le> leading_zeros (x_evo_hash X dataset header height nonce))
         in case find good [0..<max_nonce_attempts] of
              Some nonce \<Rightarrow> (Some nonce, nonce + 1)
            | None \<Rightarrow> (None, max_nonce_attempts)))"

text \<open>
  The parallel search hands out the nonces below the bound to the threads through one counter and
  stops when a thread has found one: it may return any nonce that qualifies, and returns none
  only when no nonce does.
\<close>

definition evo_mine_parallel_may ::
  "'x pow_externs_scheme \<Rightarrow> byte list \<Rightarrow> nat \<Rightarrow> nat \<Rightarrow> nat \<Rightarrow> nat \<Rightarrow> byte list \<Rightarrow> nat option \<Rightarrow> bool" where
  "evo_mine_parallel_may X header height difficulty max_nonce_attempts epoch_length seed_material r \<longleftrightarrow>
     (if difficulty = 0 then r = None
      else
        (let dataset = x_evo_generate X (compute_epoch_seed X height epoch_length seed_material);
             good = (\<lambda>nonce. difficulty \<le> leading_zeros (x_evo_hash X dataset header height nonce))
         in case r of
              Some nonce \<Rightarrow> nonce < max_nonce_attempts \<and> good nonce
            | None \<Rightarrow> (\<forall>nonce \<in> set [0..<max_nonce_attempts]. \<not> good nonce)))"

section \<open>Dataset cache\<close>

record dataset_cache =
  dc_epoch :: "nat option"
  dc_seed_material_hash :: "hash option"
  dc_dataset :: dataset

record pow_context =
  pc_cache :: dataset_cache
  pc_last_epoch :: "nat option"

definition cache_get_dataset ::
  "'x pow_externs_scheme \<Rightarrow> nat \<Rightarrow> nat \<Rightarrow> byte list \<Rightarrow> dataset_cache \<Rightarrow> dataset \<times> dataset_cache" where
  "cache_get_dataset X height epoch_length seed_material c =
     (let epoch = height div epoch_length;
          seed_material_hash = x_blake3 X seed_material;
          c' = (if dc_epoch c \<noteq> Some epoch \<or> dc_seed_material_hash c \<noteq> Some seed_material_hash
                then \<lparr> dc_epoch = Some epoch, dc_seed_material_hash = Some seed_material_hash,
                       dc_dataset = x_evo_generate X (compute_epoch_seed X height epoch_length seed_material) \<rparr>
                else c)
      in (dc_dataset c', c'))"

definition pow_context_new :: "dataset \<Rightarrow> pow_context" where
  "pow_context_new empty_dataset =
     \<lparr> pc_cache = \<lparr> dc_epoch = None, dc_seed_material_hash = None, dc_dataset = empty_dataset \<rparr>,
       pc_last_epoch = None \<rparr>"

definition get_dataset ::
  "'x pow_externs_scheme \<Rightarrow> block_header \<Rightarrow> pow_context \<Rightarrow> dataset \<times> pow_context" where
  "get_dataset X h ctx =
     (let height = bh_height h; epoch = height div EPOCH; seed_material = epoch_seed_material h;
          ctx1 = (if pc_last_epoch ctx \<noteq> Some epoch
                  then \<lparr> pc_cache = snd (cache_get_dataset X height EPOCH seed_material (pc_cache ctx)),
                         pc_last_epoch = Some epoch \<rparr>
                  else ctx)
      in case cache_get_dataset X height EPOCH seed_material (pc_cache ctx1) of
           (d, c) \<Rightarrow> (d, ctx1\<lparr>pc_cache := c\<rparr>))"

section \<open>Verification and mining\<close>

definition pow_nonce :: "block_header \<Rightarrow> nat option" where
  "pow_nonce h = (case bh_pow_proof h of
      None \<Rightarrow> None
    | Some bytes \<Rightarrow> if length bytes \<noteq> 8 then None else Some (le_value bytes))"

definition verify_pow_light :: "'x pow_externs_scheme \<Rightarrow> block_header \<Rightarrow> nat \<Rightarrow> opolys_error + unit" where
  "verify_pow_light X h difficulty =
     (if difficulty = 0 then Inl InvalidProofOfWork
      else and_then (ok_or (pow_nonce h) InvalidProofOfWork)
        (\<lambda>nonce.
           let header_bytes = serialize_header_for_pow h; seed_material = epoch_seed_material h in
           if evo_verify_light X header_bytes (bh_height h) nonce difficulty EPOCH seed_material
           then Inr () else Inl InvalidProofOfWork))"

text \<open>The first eight bytes of a digest as a little-endian number.\<close>

definition hash_prefix_value :: "hash \<Rightarrow> nat" where
  "hash_prefix_value h = le_value (take 8 (hash_as_bytes h))"

definition compute_pow_hash_value :: "'x pow_externs_scheme \<Rightarrow> block_header \<Rightarrow> nat option" where
  "compute_pow_hash_value X h =
     map_option (\<lambda>nonce.
        let header_bytes = serialize_header_for_pow h; seed_material = epoch_seed_material h;
            epoch_seed = compute_epoch_seed X (bh_height h) EPOCH seed_material
        in hash_prefix_value (x_evo_hash_light X epoch_seed header_bytes (bh_height h) nonce))
       (pow_nonce h)"

definition mined_with :: "block_header \<Rightarrow> nat \<Rightarrow> block" where
  "mined_with h nonce =
     \<lparr> blk_header = h\<lparr>bh_pow_proof := Some (le_bytes 8 nonce)\<rparr>, blk_transactions = [],
       blk_slash_evidence = [], blk_attestations = [], blk_genesis_ceremony = None \<rparr>"

definition mine_single :: "'x pow_externs_scheme \<Rightarrow> block_header \<Rightarrow> nat \<Rightarrow> nat \<Rightarrow> block option" where
  "mine_single X h difficulty max_attempts =
     map_option (mined_with h)
       (fst (evo_mine X (serialize_header_for_pow h) (bh_height h) difficulty max_attempts EPOCH
          (epoch_seed_material h)))"

definition mine_parallel_may :: "'x pow_externs_scheme \<Rightarrow> block_header \<Rightarrow> nat \<Rightarrow> nat \<Rightarrow> block option \<Rightarrow> bool" where
  "mine_parallel_may X h difficulty max_attempts r \<longleftrightarrow>
     (\<exists>nonce_result. evo_mine_parallel_may X (serialize_header_for_pow h) (bh_height h) difficulty max_attempts EPOCH
          (epoch_seed_material h) nonce_result \<and> r = map_option (mined_with h) nonce_result)"

section \<open>The peer challenge\<close>

definition build_challenge_input ::
  "nat \<Rightarrow> hash \<Rightarrow> nat \<Rightarrow> nat \<Rightarrow> byte list \<Rightarrow> byte list \<Rightarrow> byte list" where
  "build_challenge_input chain_id parent_hash height nonce challenger responder =
     le_bytes 8 chain_id @ hash_as_bytes parent_hash @ le_bytes 8 height @ le_bytes 8 nonce @
     le_bytes 8 (length challenger) @ challenger @ le_bytes 8 (length responder) @ responder"

definition compute_challenge_hash ::
  "'x pow_externs_scheme \<Rightarrow> nat \<Rightarrow> hash \<Rightarrow> nat \<Rightarrow> nat \<Rightarrow> byte list \<Rightarrow> byte list \<Rightarrow> nat" where
  "compute_challenge_hash X chain_id parent_hash height nonce challenger responder =
     (let epoch_seed = compute_epoch_seed X height EPOCH [];
          input = build_challenge_input chain_id parent_hash height nonce challenger responder
      in hash_prefix_value (x_evo_hash_light X epoch_seed input height nonce))"

section \<open>Leading zero bits\<close>

text \<open>The number that a list of bits, most significant first, spells.\<close>

fun bits_value :: "bool list \<Rightarrow> nat" where
  "bits_value [] = 0"
| "bits_value (b # bs) = of_bool b * 2 ^ length bs + bits_value bs"

lemma bits_value_less: "bits_value bs < 2 ^ length bs"
  by (induction bs) auto

lemma bits_value_append: "bits_value (as @ bs) = bits_value as * 2 ^ length bs + bits_value bs"
  by (induction as) (auto simp: power_add algebra_simps)

lemma takeWhile_bits:
  "d \<le> length bs \<Longrightarrow> d \<le> length (takeWhile (\<lambda>b. \<not> b) bs) \<longleftrightarrow> bits_value bs < 2 ^ (length bs - d)"
proof (induction bs arbitrary: d)
  case (Cons b bs)
  show ?case
  proof (cases d)
    case 0
    then show ?thesis using bits_value_less [of "b # bs"] by simp
  next
    case (Suc e)
    then have e: "e \<le> length bs" using Cons.prems by simp
    show ?thesis
    proof (cases b)
      case True
      have "(2::nat) ^ (length bs - e) \<le> 2 ^ length bs" by (rule power_increasing) simp_all
      then have "\<not> 2 ^ length bs + bits_value bs < 2 ^ (length bs - e)" by linarith
      with True Suc show ?thesis by simp
    next
      case False
      with Suc Cons.IH [OF e] show ?thesis by simp
    qed
  qed
qed simp

lemma length_byte_bits [simp]: "length (byte_bits b) = 8"
  by (simp add: byte_bits_def)

lemma bits_value_rev_map:
  "bits_value (map (bit w) (rev [0..<n])) = take_bit n (unat w)" for w :: byte
proof (induction n)
  case (Suc n)
  have "take_bit (Suc n) (unat w) = take_bit n (unat w) + of_bool (bit (unat w) n) * 2 ^ n"
    by (simp add: take_bit_Suc_from_most add.commute mult.commute)
  then show ?case using Suc by (simp add: bit_unsigned_iff bit_imp_le_length)
qed simp

lemma bits_value_byte: "bits_value (byte_bits b) = unat b"
proof -
  have "unat b < 256" using unsigned_less [of b] by simp
  then have "take_bit 8 (unat b) = unat b" by (simp add: take_bit_eq_mod)
  then show ?thesis unfolding byte_bits_def bits_value_rev_map .
qed

lemma length_hash_bits: "length (concat (map byte_bits bs)) = 8 * length bs"
  by (induction bs) auto

lemma be_value_Cons: "be_value (b # bs) = unat b * 256 ^ length bs + be_value bs"
proof -
  have "le_value (xs @ [b]) = le_value xs + 256 ^ length xs * unat b" for xs
    by (induction xs) (auto simp: algebra_simps)
  then show ?thesis by (simp add: be_value_def)
qed

lemma bits_value_bytes: "bits_value (concat (map byte_bits bs)) = be_value bs"
proof (induction bs)
  case Nil
  then show ?case by (simp add: be_value_def)
next
  case (Cons b bs)
  have "(2::nat) ^ (8 * length bs) = 256 ^ length bs" by (simp add: power_mult)
  then show ?case using Cons by (simp add: bits_value_append bits_value_byte length_hash_bits be_value_Cons)
qed

lemma leading_zeros_bound: "leading_zeros h \<le> 256"
  using length_takeWhile_le [of "\<lambda>b. \<not> b" "concat (map byte_bits (hash_as_bytes h))"]
  by (simp only: leading_zeros_def length_hash_bits length_hash_as_bytes)

lemma leading_zeros_iff:
  "d \<le> leading_zeros (Hash w) \<longleftrightarrow> d \<le> 256 \<and> unat w < 2 ^ (256 - d)"
proof (cases "d \<le> 256")
  case True
  let ?bits = "concat (map byte_bits (hash_as_bytes (Hash w)))"
  have len: "length ?bits = 256" by (simp only: length_hash_bits length_hash_as_bytes)
  have "unat w mod 256 ^ 32 = unat w" using unat_256_bound [of w] by (rule mod_less)
  then have "be_value (hash_as_bytes (Hash w)) = unat w"
    by (simp only: hash_as_bytes.simps be_value_be_bytes)
  then have "bits_value ?bits = unat w" by (simp only: bits_value_bytes)
  moreover have "d \<le> length (takeWhile (\<lambda>b. \<not> b) ?bits) \<longleftrightarrow> bits_value ?bits < 2 ^ (length ?bits - d)"
    by (rule takeWhile_bits) (simp only: len True)
  ultimately show ?thesis using True by (simp only: leading_zeros_def len simp_thms)
next
  case False
  with leading_zeros_bound [of "Hash w"] show ?thesis by linarith
qed

section \<open>Laws\<close>

lemma pow_nonce_update [simp]:
  "pow_nonce (h\<lparr>bh_pow_proof := Some (le_bytes 8 n)\<rparr>) = Some (n mod 256 ^ 8)"
proof -
  have "bh_pow_proof (h\<lparr>bh_pow_proof := Some (le_bytes 8 n)\<rparr>) = Some (le_bytes 8 n)" by simp
  then show ?thesis
    by (simp only: pow_nonce_def option.case length_le_bytes le_value_le_bytes simp_thms if_False refl)
qed

lemma serialize_ignores_proof [simp]:
  "serialize_header_for_pow (h\<lparr>bh_pow_proof := p\<rparr>) = serialize_header_for_pow h"
  "epoch_seed_material (h\<lparr>bh_pow_proof := p\<rparr>) = epoch_seed_material h"
  by (simp_all add: serialize_header_for_pow_def epoch_seed_material_def)

lemma verify_pow_light_iff:
  "is_ok (verify_pow_light X h d) \<longleftrightarrow> 0 < d \<and> (\<exists>nonce. pow_nonce h = Some nonce \<and>
     d \<le> leading_zeros (x_evo_hash_light X (compute_epoch_seed X (bh_height h) EPOCH (epoch_seed_material h))
       (serialize_header_for_pow h) (bh_height h) nonce))"
  by (cases "pow_nonce h") (auto simp: verify_pow_light_def evo_verify_light_def Let_def)

lemma mined_with_verifies:
  assumes agree: "evo_modes_agree X" and pos: "0 < d" and n: "n < 2 ^ 64"
    and good: "d \<le> leading_zeros (x_evo_hash X (x_evo_generate X (compute_epoch_seed X (bh_height h) EPOCH (epoch_seed_material h)))
       (serialize_header_for_pow h) (bh_height h) n)"
  shows "is_ok (verify_pow_light X (blk_header (mined_with h n)) d)"
proof -
  have "n mod 256 ^ 8 = n" using n by simp
  then have "pow_nonce (blk_header (mined_with h n)) = Some n"
    by (simp only: mined_with_def block.simps pow_nonce_update)
  then show ?thesis
    using agree pos good
    by (simp add: verify_pow_light_iff mined_with_def evo_modes_agree_def)
qed

lemma find_upt: "find P [0..<n] = Some k \<Longrightarrow> k < n \<and> P k"
  by (auto simp: find_Some_iff)

text \<open>The cache never hands out a dataset of another epoch seed.\<close>

definition cache_ok :: "'x pow_externs_scheme \<Rightarrow> nat \<Rightarrow> dataset_cache \<Rightarrow> bool" where
  "cache_ok X epoch_length c \<longleftrightarrow> (\<forall>epoch mh. dc_epoch c = Some epoch \<longrightarrow> dc_seed_material_hash c = Some mh \<longrightarrow>
     (\<exists>height material. height div epoch_length = epoch \<and> x_blake3 X material = mh \<and>
        dc_dataset c = x_evo_generate X (compute_epoch_seed X height epoch_length material)))"

lemma cache_get_dataset_law:
  assumes ok: "cache_ok X el c" and run: "cache_get_dataset X height el material c = (d, c')"
    and inj: "\<And>m. x_blake3 X m = x_blake3 X material \<Longrightarrow> m = material"
  shows "d = x_evo_generate X (compute_epoch_seed X height el material) \<and> cache_ok X el c'"
proof (cases "dc_epoch c \<noteq> Some (height div el) \<or> dc_seed_material_hash c \<noteq> Some (x_blake3 X material)")
  case True
  let ?new = "\<lparr> dc_epoch = Some (height div el), dc_seed_material_hash = Some (x_blake3 X material),
      dc_dataset = x_evo_generate X (compute_epoch_seed X height el material) \<rparr>"
  have "cache_ok X el ?new" unfolding cache_ok_def by auto
  moreover have "d = dc_dataset ?new" "c' = ?new"
    using run True by (auto simp: cache_get_dataset_def Let_def split: if_splits)
  ultimately show ?thesis by simp
next
  case False
  then obtain height' material' where hm: "height' div el = height div el" "x_blake3 X material' = x_blake3 X material"
      "dc_dataset c = x_evo_generate X (compute_epoch_seed X height' el material')"
    using ok unfolding cache_ok_def by blast
  have "material' = material" using inj hm(2) by blast
  then have "dc_dataset c = x_evo_generate X (compute_epoch_seed X height el material)"
    using hm(1,3) by (simp add: compute_epoch_seed_def)
  then show ?thesis using False run ok by (simp add: cache_get_dataset_def Let_def)
qed

text \<open>The header serialization is injective on the fields it writes.\<close>

definition pow_fields :: "block_header \<Rightarrow> block_header" where
  "pow_fields h = h\<lparr>bh_producer := object_id_zero, bh_pow_proof := None, bh_refiner_signature := None\<rparr>"

definition header_fits :: "block_header \<Rightarrow> bool" where
  "header_fits h \<longleftrightarrow> bh_version h < 2 ^ 32 \<and> bh_height h \<le> U64_MAX \<and> bh_timestamp h \<le> U64_MAX \<and>
     bh_difficulty h \<le> U64_MAX \<and> bh_suggested_fee h \<le> U64_MAX"

lemma le_bytes8_inject: "a \<le> U64_MAX \<Longrightarrow> b \<le> U64_MAX \<Longrightarrow> le_bytes 8 a = le_bytes 8 b \<longleftrightarrow> a = b"
  by (rule le_bytes_inject) (rule u64_bytes, assumption)+

lemma be_bytes8_inject: "a \<le> U64_MAX \<Longrightarrow> b \<le> U64_MAX \<Longrightarrow> be_bytes 8 a = be_bytes 8 b \<longleftrightarrow> a = b"
  by (rule be_bytes_inject) (rule u64_bytes, assumption)+

lemma optional_root_inject:
  "(case a of None \<Rightarrow> [] | Some r \<Rightarrow> hash_as_bytes r) = (case b of None \<Rightarrow> [] | Some r \<Rightarrow> hash_as_bytes r) \<longleftrightarrow> a = b"
proof -
  have "hash_as_bytes r \<noteq> []" for r using length_hash_as_bytes [of r] by (metis list.size(3) zero_neq_numeral)
  then show ?thesis by (cases a; cases b) (auto dest: sym)
qed

lemma serialize_header_inject:
  assumes "header_fits g" and "header_fits h"
  shows "serialize_header_for_pow g = serialize_header_for_pow h \<longleftrightarrow> pow_fields g = pow_fields h"
proof -
  have v: "le_bytes 4 (bh_version g) = le_bytes 4 (bh_version h) \<longleftrightarrow> bh_version g = bh_version h"
    using assms by (intro le_bytes_inject) (simp_all add: header_fits_def)
  have n: "le_bytes 8 (f g) = le_bytes 8 (f h) \<longleftrightarrow> f g = f h"
    if "f g \<le> U64_MAX" "f h \<le> U64_MAX" for f :: "block_header \<Rightarrow> nat"
    using that by (rule le_bytes8_inject)
  have "serialize_header_for_pow g = serialize_header_for_pow h \<longleftrightarrow>
      bh_version g = bh_version h \<and> bh_height g = bh_height h \<and> bh_previous_hash g = bh_previous_hash h \<and>
      bh_state_root g = bh_state_root h \<and> bh_transaction_root g = bh_transaction_root h \<and>
      bh_evidence_root g = bh_evidence_root h \<and> bh_attestation_root g = bh_attestation_root h \<and>
      bh_genesis_ceremony_hash g = bh_genesis_ceremony_hash h \<and> bh_timestamp g = bh_timestamp h \<and>
      bh_difficulty g = bh_difficulty h \<and> bh_suggested_fee g = bh_suggested_fee h \<and>
      bh_extension_root g = bh_extension_root h"
    using assms unfolding serialize_header_for_pow_def header_fits_def
    by (simp add: v n optional_root_inject)
  also have "\<dots> \<longleftrightarrow> pow_fields g = pow_fields h"
    by (cases g; cases h) (auto simp: pow_fields_def)
  finally show ?thesis .
qed

section \<open>A concrete instance for the witnesses\<close>

definition demo_pow :: pow_externs where
  "demo_pow =
     \<lparr> x_blake3 = (\<lambda>_. Hash 7), x_hex_encode = (\<lambda>_. ''00''), x_hex_decode = (\<lambda>_. Some []),
       x_ed25519_key_valid = (\<lambda>_. True), x_ed25519_verify = (\<lambda>_ _ _. True),
       x_ed25519_verify_strict = (\<lambda>_ _ _. True), x_borsh_tx_body = (\<lambda>_. Some [1]),
       x_borsh_transaction = (\<lambda>_. Some [1, 2, 3]), x_borsh_evidence = (\<lambda>_. Some []),
       x_borsh_attestations = (\<lambda>_. Some []), x_borsh_ceremony = (\<lambda>_. Some []),
       x_borsh_block = (\<lambda>_. Some [0]), x_borsh_account = (\<lambda>_. Some [1]),
       x_borsh_refiner = (\<lambda>_. Some [2]), x_borsh_unbond = (\<lambda>_. Some [3]),
       x_evo_generate = (\<lambda>_. []),
       x_evo_hash = (\<lambda>_ _ _ nonce. if nonce = 3 then Hash 1 else Hash 57896044618658097711785492504343953926634992332820282019728792003956564819968),
       x_evo_hash_light = (\<lambda>_ _ _ nonce. if nonce = 3 then Hash 1 else Hash 57896044618658097711785492504343953926634992332820282019728792003956564819968) \<rparr>"

definition demo_header :: block_header where
  "demo_header =
     \<lparr> bh_version = 4, bh_height = 1, bh_previous_hash = Hash 7, bh_state_root = Hash 7,
       bh_transaction_root = Hash 7, bh_evidence_root = Hash 7, bh_attestation_root = Hash 7,
       bh_genesis_ceremony_hash = Hash 7, bh_timestamp = 90, bh_difficulty = 7, bh_suggested_fee = 1,
       bh_extension_root = None, bh_producer = ObjectId (Hash 5), bh_pow_proof = None,
       bh_refiner_signature = None \<rparr>"

lemma demo_modes: "evo_modes_agree demo_pow"
  by (simp add: evo_modes_agree_def demo_pow_def)

lemma demo_leading_zeros: "7 \<le> leading_zeros (Hash 1)"
  by (simp add: leading_zeros_iff)

section \<open>Properties\<close>

text \<open>
  A header passes light verification exactly when the difficulty is positive, the proof is an
  eight-byte nonce and the digest, read as a 256-bit number, is below two to the power 256 minus
  the difficulty. In particular no header passes at a difficulty above 256.
\<close>

theorem pow_accepts_exactly_small_digests:
  "is_ok (verify_pow_light X h d) \<longleftrightarrow> 0 < d \<and> d \<le> 256 \<and>
     (\<exists>bytes w. bh_pow_proof h = Some bytes \<and> length bytes = 8 \<and>
        x_evo_hash_light X (compute_epoch_seed X (bh_height h) EPOCH (epoch_seed_material h))
          (serialize_header_for_pow h) (bh_height h) (le_value bytes) = Hash w \<and> unat w < 2 ^ (256 - d))"
proof -
  have lz: "d \<le> leading_zeros x \<longleftrightarrow> d \<le> 256 \<and> (\<exists>w. x = Hash w \<and> unat w < 2 ^ (256 - d))" for x
    by (cases x) (simp add: leading_zeros_iff)
  show ?thesis
    unfolding verify_pow_light_iff lz pow_nonce_def by (cases "bh_pow_proof h") auto
qed

text \<open>
  Mining and verification agree. When light verification reconstructs the full dataset, as its
  documentation says, every block that the sequential or the parallel search returns passes
  light verification at the difficulty it was mined at; the sequential search finds a nonce
  whenever one below the bound qualifies.
\<close>

theorem mined_blocks_verify:
  assumes "evo_modes_agree X" and "max_attempts \<le> 2 ^ 64"
    and "mine_parallel_may X h d max_attempts (Some b) \<or> mine_single X h d max_attempts = Some b"
  shows "is_ok (verify_pow_light X (blk_header b) d)
       \<and> (\<exists>nonce < max_attempts. b = mined_with h nonce)
       \<and> mine_single X h d max_attempts \<noteq> None"
proof -
  let ?ds = "x_evo_generate X (compute_epoch_seed X (bh_height h) EPOCH (epoch_seed_material h))"
  let ?good = "\<lambda>n. d \<le> leading_zeros (x_evo_hash X ?ds (serialize_header_for_pow h) (bh_height h) n)"
  have "\<exists>n. 0 < d \<and> n < max_attempts \<and> ?good n \<and> b = mined_with h n"
    using assms(3)
  proof
    assume "mine_parallel_may X h d max_attempts (Some b)"
    then obtain n where "evo_mine_parallel_may X (serialize_header_for_pow h) (bh_height h) d max_attempts EPOCH
        (epoch_seed_material h) (Some n)" "b = mined_with h n"
      unfolding mine_parallel_may_def by (metis map_option_eq_Some)
    then show ?thesis by (auto simp: evo_mine_parallel_may_def Let_def split: if_splits)
  next
    assume m: "mine_single X h d max_attempts = Some b"
    then have d: "0 < d" by (auto simp: mine_single_def evo_mine_def split: if_splits)
    with m obtain n where "find ?good [0..<max_attempts] = Some n" "b = mined_with h n"
      by (auto simp: mine_single_def evo_mine_def Let_def split: option.splits)
    with d find_upt [of ?good max_attempts n] show ?thesis by blast
  qed
  then obtain n where n: "0 < d" "n < max_attempts" "?good n" "b = mined_with h n" by blast
  have "is_ok (verify_pow_light X (blk_header b) d)"
    unfolding n(4) using assms(1) n(1) _ n(3) by (rule mined_with_verifies) (use n(2) assms(2) in linarith)
  moreover have "find ?good [0..<max_attempts] \<noteq> None" using n by (auto simp: find_None_iff)
  then have "mine_single X h d max_attempts \<noteq> None"
    using n(1) by (auto simp: mine_single_def evo_mine_def Let_def split: option.splits)
  ultimately show ?thesis using n by blast
qed

theorem mined_blocks_verify_witness:
  "\<exists>b. mine_single demo_pow demo_header 7 10 = Some b \<and> is_ok (verify_pow_light demo_pow (blk_header b) 7)"
proof -
  have z: "\<not> 7 \<le> leading_zeros (Hash 57896044618658097711785492504343953926634992332820282019728792003956564819968)" by (simp add: leading_zeros_iff)
  have "mine_single demo_pow demo_header 7 10 = Some (mined_with demo_header 3)"
    using demo_leading_zeros z
    by (simp add: mine_single_def evo_mine_def Let_def demo_pow_def upt_rec numeral_3_eq_3)
  then show ?thesis
    using mined_blocks_verify [OF demo_modes, of 10 demo_header 7 "mined_with demo_header 3"] by simp
qed

text \<open>
  C12: the proof of work binds every header field it is documented to bind except the producer. Two
  headers with fields in range have the same mined bytes exactly when they agree on everything
  but producer, proof and refiner signature; and replacing the producer of a mined header keeps
  its proof valid, so whoever relays the block first can claim its reward.
\<close>

theorem pow_does_not_bind_producer:
  "is_ok (verify_pow_light X (h\<lparr>bh_producer := thief\<rparr>) d) = is_ok (verify_pow_light X h d)
   \<and> compute_pow_hash_value X (h\<lparr>bh_producer := thief\<rparr>) = compute_pow_hash_value X h
   \<and> (header_fits g \<and> header_fits h \<longrightarrow>
        (serialize_header_for_pow g = serialize_header_for_pow h \<longleftrightarrow> pow_fields g = pow_fields h))"
proof -
  have "serialize_header_for_pow (h\<lparr>bh_producer := thief\<rparr>) = serialize_header_for_pow h"
    "epoch_seed_material (h\<lparr>bh_producer := thief\<rparr>) = epoch_seed_material h"
    "pow_nonce (h\<lparr>bh_producer := thief\<rparr>) = pow_nonce h"
    by (simp_all add: serialize_header_for_pow_def epoch_seed_material_def pow_nonce_def)
  then show ?thesis
    using serialize_header_inject [of g h]
    by (auto simp: verify_pow_light_def compute_pow_hash_value_def)
qed

theorem pow_does_not_bind_producer_witness:
  "is_ok (verify_pow_light demo_pow ((blk_header (mined_with demo_header 3))\<lparr>bh_producer := ObjectId (Hash 9)\<rparr>) 7)
   \<and> serialize_header_for_pow demo_header \<noteq> serialize_header_for_pow (demo_header\<lparr>bh_timestamp := 91\<rparr>)"
proof -
  have "is_ok (verify_pow_light demo_pow (blk_header (mined_with demo_header 3)) 7)"
    using demo_modes demo_leading_zeros by (intro mined_with_verifies) (simp_all add: demo_pow_def)
  moreover have "header_fits demo_header" "header_fits (demo_header\<lparr>bh_timestamp := 91\<rparr>)"
    "pow_fields demo_header \<noteq> pow_fields (demo_header\<lparr>bh_timestamp := 91\<rparr>)"
    by (simp_all add: header_fits_def demo_header_def U64_MAX_def pow_fields_def)
  ultimately show ?thesis
    using pow_does_not_bind_producer [where X = demo_pow and h = "blk_header (mined_with demo_header 3)" and thief = "ObjectId (Hash 9)" and d = 7]
      pow_does_not_bind_producer [where X = demo_pow and h = "demo_header\<lparr>bh_timestamp := 91\<rparr>" and g = demo_header]
    by simp
qed

end
