(* ===== verification/Block.thy ===== *)
theory Block
  imports Pow
begin

text \<open>
  Blocks, \<open>crates/consensus/src/block.rs\<close>: the header hash, the body roots, block metadata and the
  validation every block passes before it is applied.
\<close>

section \<open>Hashing and roots\<close>

definition MAX_SLASH_EVIDENCE_PER_BLOCK :: nat where "MAX_SLASH_EVIDENCE_PER_BLOCK = 10"

definition minimum_block_timestamp_delta_secs :: nat where
  "minimum_block_timestamp_delta_secs = max (BLOCK_TARGET_TIME_SECS div 2) 1"

record block_info =
  bi_header :: block_header
  bi_transaction_count :: nat
  bi_total_transaction_fees :: nat

definition block_info_from_block :: "block \<Rightarrow> block_info" where
  "block_info_from_block b =
     \<lparr> bi_header = blk_header b, bi_transaction_count = length (blk_transactions b) mod 2 ^ 32,
       bi_total_transaction_fees = wrap64 (sum_list (map tx_fee (blk_transactions b))) \<rparr>"

definition block_hash_input :: "block_header \<Rightarrow> byte list" where
  "block_hash_input h =
     be_bytes 4 (bh_version h) @ be_bytes 8 (bh_height h) @ hash_as_bytes (bh_previous_hash h) @
     object_id_as_bytes (bh_producer h) @ hash_as_bytes (bh_state_root h) @
     hash_as_bytes (bh_transaction_root h) @ hash_as_bytes (bh_evidence_root h) @
     hash_as_bytes (bh_attestation_root h) @ hash_as_bytes (bh_genesis_ceremony_hash h) @
     be_bytes 8 (bh_timestamp h) @ be_bytes 8 (bh_difficulty h) @ be_bytes 8 (bh_suggested_fee h) @
     (case bh_extension_root h of None \<Rightarrow> [] | Some r \<Rightarrow> hash_as_bytes r)"

definition compute_block_hash :: "'x externs_scheme \<Rightarrow> block_header \<Rightarrow> hash" where
  "compute_block_hash X h =
     hasher_finalize X (hasher_update (hasher_update hasher_new DOMAIN_BLOCK_HASH) (block_hash_input h))"

definition tx_commitment :: "transaction \<Rightarrow> byte list" where
  "tx_commitment tx = object_id_as_bytes (tx_id tx) @ be_bytes 8 (tx_fee tx) @ be_bytes 8 (tx_nonce tx)"

definition compute_transaction_root :: "'x externs_scheme \<Rightarrow> transaction list \<Rightarrow> hash" where
  "compute_transaction_root X txs =
     hasher_finalize X
       (fold (\<lambda>tx h. hasher_update h (tx_commitment tx)) txs (hasher_update hasher_new DOMAIN_TX_ROOT))"

definition compute_evidence_root ::
  "'x externs_scheme \<Rightarrow> double_sign_evidence list \<Rightarrow> opolys_error + hash" where
  "compute_evidence_root X evidence =
     and_then (ok_or (x_borsh_evidence X evidence)
         (SerializationError (Fmt (STR ''Double-sign evidence serialization failed: {}'') [])))
       (\<lambda>bytes. Inr (hash_with_domain X DOMAIN_EVIDENCE_ROOT bytes))"

definition compute_attestation_root ::
  "'x externs_scheme \<Rightarrow> block_attestation list \<Rightarrow> opolys_error + hash" where
  "compute_attestation_root X attestations =
     and_then (ok_or (x_borsh_attestations X attestations)
         (SerializationError (Fmt (STR ''Block attestation serialization failed: {}'') [])))
       (\<lambda>bytes. Inr (hash_with_domain X DOMAIN_ATTESTATION_ROOT bytes))"

definition compute_genesis_ceremony_hash ::
  "'x externs_scheme \<Rightarrow> genesis_ceremony_data option \<Rightarrow> opolys_error + hash" where
  "compute_genesis_ceremony_hash X ceremony =
     and_then (ok_or (x_borsh_ceremony X ceremony)
         (SerializationError (Fmt (STR ''Genesis ceremony serialization failed: {}'') [])))
       (\<lambda>bytes. Inr (hash_with_domain X DOMAIN_GENESIS_CEREMONY_HASH bytes))"

text \<open>Each assignment of \<open>set_body_roots\<close> happens before the next root is computed.\<close>

definition set_body_roots :: "'x externs_scheme \<Rightarrow> block \<Rightarrow> (opolys_error + unit) \<times> block" where
  "set_body_roots X b =
     (let upd = (\<lambda>f b. b\<lparr>blk_header := f (blk_header b)\<rparr>);
          b1 = upd (bh_transaction_root_update (\<lambda>_. compute_transaction_root X (blk_transactions b))) b
      in case compute_evidence_root X (blk_slash_evidence b1) of
           Inl e \<Rightarrow> (Inl e, b1)
         | Inr r2 \<Rightarrow>
             (let b2 = upd (bh_evidence_root_update (\<lambda>_. r2)) b1
              in case compute_attestation_root X (blk_attestations b2) of
                   Inl e \<Rightarrow> (Inl e, b2)
                 | Inr r3 \<Rightarrow>
                     (let b3 = upd (bh_attestation_root_update (\<lambda>_. r3)) b2
                      in case compute_genesis_ceremony_hash X (blk_genesis_ceremony b3) of
                           Inl e \<Rightarrow> (Inl e, b3)
                         | Inr r4 \<Rightarrow> (Inr (), upd (bh_genesis_ceremony_hash_update (\<lambda>_. r4)) b3))))"

definition format_opl :: "nat \<Rightarrow> string" where
  "format_opl flakes =
     (let whole = flakes div FLAKES_PER_OPL; frac = flakes mod FLAKES_PER_OPL
      in show_nat whole @ ''.'' @ pad_zeros 6 (show_nat frac) @ '' OPL'')"

section \<open>Validation\<close>

definition reject_if :: "bool \<Rightarrow> String.literal \<Rightarrow> fmt_arg list \<Rightarrow> opolys_error + unit" where
  "reject_if b m args = (if b then Inl (BlockValidationFailed (Fmt m args)) else Inr ())"

text \<open>Steps 1 to 7: header fields, timestamps, difficulty and size limits.\<close>

definition validate_header_and_size ::
  "'x externs_scheme \<Rightarrow> block \<Rightarrow> nat \<Rightarrow> hash \<Rightarrow> nat \<Rightarrow> nat \<Rightarrow> nat \<Rightarrow> opolys_error + unit" where
  "validate_header_and_size X b expected_height parent_hash parent_timestamp expected_difficulty now_secs =
     (let h = blk_header b;
          min_timestamp = sat_add64 parent_timestamp minimum_block_timestamp_delta_secs;
          max_timestamp = sat_add64 now_secs MAX_FUTURE_BLOCK_TIME_SECS;
          block_size = (case x_borsh_block X b of None \<Rightarrow> U64_MAX | Some v \<Rightarrow> length v)
      in and_then (reject_if (bh_version h \<noteq> BLOCK_VERSION) (STR ''Block version mismatch: expected {}, got {}'')
             [ANat BLOCK_VERSION, ANat (bh_version h)]) (\<lambda>_.
         and_then (reject_if (bh_height h \<noteq> expected_height) (STR ''Block height mismatch: expected {}, got {}'')
             [ANat expected_height, ANat (bh_height h)]) (\<lambda>_.
         and_then (reject_if (bh_previous_hash h \<noteq> parent_hash)
             (STR ''Block previous_hash mismatch: expected {}, got {}'') [AHash parent_hash, AHash (bh_previous_hash h)]) (\<lambda>_.
         and_then (reject_if (0 < expected_height \<and> bh_timestamp h < min_timestamp)
             (STR ''Block timestamp {} is too compressed: minimum allowed is {}'') [ANat (bh_timestamp h), ANat min_timestamp]) (\<lambda>_.
         and_then (reject_if (max_timestamp < bh_timestamp h)
             (STR ''Block timestamp {} is too far in the future (max allowed: {})'') [ANat (bh_timestamp h), ANat max_timestamp]) (\<lambda>_.
         and_then (reject_if (bh_difficulty h \<noteq> expected_difficulty)
             (STR ''Block difficulty mismatch: expected {}, got {}'') [ANat expected_difficulty, ANat (bh_difficulty h)]) (\<lambda>_.
         and_then (reject_if (MAX_TRANSACTIONS_PER_BLOCK < length (blk_transactions b))
             (STR ''Too many transactions: {} > {}'') [ANat (length (blk_transactions b)), ANat MAX_TRANSACTIONS_PER_BLOCK]) (\<lambda>_.
         and_then (reject_if (MAX_SLASH_EVIDENCE_PER_BLOCK < length (blk_slash_evidence b))
             (STR ''Too many slash evidence entries: {} > {}'') [ANat (length (blk_slash_evidence b)), ANat MAX_SLASH_EVIDENCE_PER_BLOCK]) (\<lambda>_.
         and_then (reject_if (MAX_ATTESTATIONS_PER_BLOCK < length (blk_attestations b))
             (STR ''Too many attestations: {} > {}'') [ANat (length (blk_attestations b)), ANat MAX_ATTESTATIONS_PER_BLOCK]) (\<lambda>_.
         reject_if (MAX_BLOCK_SIZE_BYTES < block_size)
             (STR ''Block too large: {} bytes > {} bytes'') [ANat block_size, ANat MAX_BLOCK_SIZE_BYTES]))))))))))"

text \<open>Step 8: the body roots.\<close>

definition validate_body_roots :: "'x externs_scheme \<Rightarrow> block \<Rightarrow> opolys_error + unit" where
  "validate_body_roots X b =
     (let h = blk_header b; computed_root = compute_transaction_root X (blk_transactions b) in
      and_then (reject_if (bh_transaction_root h \<noteq> computed_root)
          (STR ''Transaction root mismatch: expected {}, got {}'') [AHash computed_root, AHash (bh_transaction_root h)]) (\<lambda>_.
      and_then (compute_evidence_root X (blk_slash_evidence b)) (\<lambda>er.
      and_then (reject_if (bh_evidence_root h \<noteq> er)
          (STR ''Evidence root mismatch: expected {}, got {}'') [AHash er, AHash (bh_evidence_root h)]) (\<lambda>_.
      and_then (compute_attestation_root X (blk_attestations b)) (\<lambda>ar.
      and_then (reject_if (bh_attestation_root h \<noteq> ar)
          (STR ''Attestation root mismatch: expected {}, got {}'') [AHash ar, AHash (bh_attestation_root h)]) (\<lambda>_.
      and_then (compute_genesis_ceremony_hash X (blk_genesis_ceremony b)) (\<lambda>gr.
      reject_if (bh_genesis_ceremony_hash h \<noteq> gr)
          (STR ''Genesis ceremony hash mismatch: expected {}, got {}'') [AHash gr, AHash (bh_genesis_ceremony_hash h)])))))))"

text \<open>Step 9: the loop that inserts every id into a hash set.\<close>

fun check_duplicates :: "nat \<Rightarrow> object_id set \<Rightarrow> transaction list \<Rightarrow> opolys_error + unit" where
  "check_duplicates height seen [] = Inr ()"
| "check_duplicates height seen (tx # txs) =
     and_then (reject_if (tx_id tx \<in> seen) (STR ''Duplicate transaction {} in block {}'') [AId (tx_id tx), ANat height])
       (\<lambda>_. check_duplicates height (insert (tx_id tx) seen) txs)"

text \<open>Steps 9 to 11: duplicates, data size and fees.\<close>

definition validate_transactions :: "block \<Rightarrow> opolys_error + unit" where
  "validate_transactions b =
     and_then (check_duplicates (bh_height (blk_header b)) {} (blk_transactions b)) (\<lambda>_.
     and_then (for_each (\<lambda>tx. reject_if (MAX_TX_DATA_SIZE_BYTES < length (tx_data tx))
         (STR ''Transaction {} data too large: {} bytes > {} bytes'')
         [AId (tx_id tx), ANat (length (tx_data tx)), ANat MAX_TX_DATA_SIZE_BYTES]) (blk_transactions b)) (\<lambda>_.
     for_each (\<lambda>tx. reject_if (tx_fee tx < MIN_FEE) (STR ''Transaction {} fee below minimum: {} < {}'')
         [AId (tx_id tx), ANat (tx_fee tx), ANat MIN_FEE]) (blk_transactions b)))"

text \<open>Step 12: the production proof of a block above genesis.\<close>

definition validate_production :: "'x pow_externs_scheme \<Rightarrow> block \<Rightarrow> nat \<Rightarrow> opolys_error + unit" where
  "validate_production X b expected_height =
     (let h = blk_header b in
      if expected_height = 0 then Inr ()
      else
        and_then (ok_or (production_kind h)
            (BlockValidationFailed (Fmt (STR ''Block must have exactly one production proof'') [])))
          (\<lambda>kind.
             and_then (reject_if (hash_is_zero (object_id_hash (bh_producer h)))
                 (STR ''Block producer must be a non-zero ObjectId'') [])
               (\<lambda>_. case kind of
                  Mined \<Rightarrow> verify_pow_light X h (bh_difficulty h)
                | Refined \<Rightarrow>
                    (let sig = the (bh_refiner_signature h)
                     in reject_if (length sig \<noteq> 64) (STR ''Invalid refiner signature length: {} bytes (expected 64)'')
                          [ANat (length sig)])
                | Genesis \<Rightarrow> Inr ())))"

definition validate_block ::
  "'x pow_externs_scheme \<Rightarrow> block \<Rightarrow> nat \<Rightarrow> hash \<Rightarrow> nat \<Rightarrow> nat \<Rightarrow> nat \<Rightarrow> opolys_error + unit" where
  "validate_block X b expected_height parent_hash parent_timestamp expected_difficulty now_secs =
     and_then (validate_header_and_size X b expected_height parent_hash parent_timestamp expected_difficulty now_secs)
       (\<lambda>_. and_then (validate_body_roots X b)
         (\<lambda>_. and_then (validate_transactions b)
           (\<lambda>_. validate_production X b expected_height)))"

section \<open>The validity condition\<close>

text \<open>What an accepted block satisfies, clause by clause.\<close>

definition header_and_size_valid ::
  "'x externs_scheme \<Rightarrow> block \<Rightarrow> nat \<Rightarrow> hash \<Rightarrow> nat \<Rightarrow> nat \<Rightarrow> nat \<Rightarrow> bool" where
  "header_and_size_valid X b height parent parent_time difficulty now \<longleftrightarrow>
     (let h = blk_header b in
      bh_version h = BLOCK_VERSION \<and> bh_height h = height \<and> bh_previous_hash h = parent \<and>
      (0 < height \<longrightarrow> sat_add64 parent_time 45 \<le> bh_timestamp h) \<and> bh_timestamp h \<le> sat_add64 now 300 \<and>
      bh_difficulty h = difficulty \<and> length (blk_transactions b) \<le> 10000 \<and>
      length (blk_slash_evidence b) \<le> 10 \<and> length (blk_attestations b) \<le> 1024 \<and>
      (\<exists>v. x_borsh_block X b = Some v \<and> length v \<le> MAX_BLOCK_SIZE_BYTES))"

definition roots_valid :: "'x externs_scheme \<Rightarrow> block \<Rightarrow> bool" where
  "roots_valid X b \<longleftrightarrow>
     (let h = blk_header b in
      bh_transaction_root h = compute_transaction_root X (blk_transactions b) \<and>
      compute_evidence_root X (blk_slash_evidence b) = Inr (bh_evidence_root h) \<and>
      compute_attestation_root X (blk_attestations b) = Inr (bh_attestation_root h) \<and>
      compute_genesis_ceremony_hash X (blk_genesis_ceremony b) = Inr (bh_genesis_ceremony_hash h))"

definition transactions_valid :: "block \<Rightarrow> bool" where
  "transactions_valid b \<longleftrightarrow> distinct (map tx_id (blk_transactions b)) \<and>
     (\<forall>tx \<in> set (blk_transactions b). length (tx_data tx) \<le> MAX_TX_DATA_SIZE_BYTES \<and> MIN_FEE \<le> tx_fee tx)"

definition production_valid :: "'x pow_externs_scheme \<Rightarrow> block \<Rightarrow> nat \<Rightarrow> bool" where
  "production_valid X b height \<longleftrightarrow> height = 0 \<or>
     (let h = blk_header b in
      object_id_hash (bh_producer h) \<noteq> hash_zero \<and>
      ((production_kind h = Some Mined \<and> is_ok (verify_pow_light X h (bh_difficulty h))) \<or>
       (production_kind h = Some Refined \<and> (\<exists>sig. bh_refiner_signature h = Some sig \<and> length sig = 64))))"

lemma reject_if_ok [simp]: "is_ok (reject_if b m args) \<longleftrightarrow> \<not> b" "reject_if b m args = Inr () \<longleftrightarrow> \<not> b"
  by (simp_all add: reject_if_def)

lemma is_ok_unit: "is_ok (r :: 'e + unit) \<longleftrightarrow> r = Inr ()"
  by (cases r) auto

lemma validate_header_and_size_ok:
  "is_ok (validate_header_and_size X b height parent parent_time difficulty now) \<longleftrightarrow>
   header_and_size_valid X b height parent parent_time difficulty now"
  by (cases "x_borsh_block X b")
    (auto simp: validate_header_and_size_def header_and_size_valid_def Let_def and_then_is_ok not_less not_le
      minimum_block_timestamp_delta_secs_def BLOCK_TARGET_TIME_SECS_def MAX_FUTURE_BLOCK_TIME_SECS_def
      MAX_TRANSACTIONS_PER_BLOCK_def MAX_SLASH_EVIDENCE_PER_BLOCK_def MAX_ATTESTATIONS_PER_BLOCK_def
      MAX_BLOCK_SIZE_BYTES_def U64_MAX_def)

lemma validate_body_roots_ok: "is_ok (validate_body_roots X b) \<longleftrightarrow> roots_valid X b"
  by (auto simp: validate_body_roots_def roots_valid_def Let_def and_then_is_ok)

lemma check_duplicates_ok:
  "is_ok (check_duplicates height seen txs) \<longleftrightarrow>
   distinct (map tx_id txs) \<and> (\<forall>tx \<in> set txs. tx_id tx \<notin> seen)"
  by (induction height seen txs rule: check_duplicates.induct) (auto simp: and_then_unit_ok image_iff)

lemma validate_transactions_ok: "is_ok (validate_transactions b) \<longleftrightarrow> transactions_valid b"
  by (auto simp: validate_transactions_def transactions_valid_def and_then_unit_ok for_each_ok_iff
      check_duplicates_ok not_less)

lemma validate_production_ok:
  assumes "bh_height (blk_header b) = height"
  shows "is_ok (validate_production X b height) \<longleftrightarrow> production_valid X b height"
proof (cases "height = 0")
  case True
  then show ?thesis by (simp add: validate_production_def production_valid_def)
next
  case False
  let ?h = "blk_header b"
  have zero: "hash_is_zero (object_id_hash (bh_producer ?h)) \<longleftrightarrow> object_id_hash (bh_producer ?h) = hash_zero"
    by (simp add: hash_is_zero_def hash_zero_def)
  show ?thesis
  proof (cases "production_kind ?h")
    case None
    then show ?thesis using False by (simp add: validate_production_def production_valid_def Let_def)
  next
    case (Some k)
    show ?thesis
    proof (cases k)
      case Genesis
      with Some have "bh_height ?h = 0" by (simp add: production_kind_Genesis_iff)
      with assms False show ?thesis by simp
    next
      case Mined
      then show ?thesis using False Some zero
        by (auto simp: validate_production_def production_valid_def Let_def and_then_unit_ok)
    next
      case Refined
      with Some obtain sig where "bh_refiner_signature ?h = Some sig"
        by (auto simp: production_kind_Refined_iff)
      then show ?thesis using False Some Refined zero
        by (auto simp: validate_production_def production_valid_def Let_def and_then_unit_ok)
    qed
  qed
qed

definition block_valid ::
  "'x pow_externs_scheme \<Rightarrow> block \<Rightarrow> nat \<Rightarrow> hash \<Rightarrow> nat \<Rightarrow> nat \<Rightarrow> nat \<Rightarrow> bool" where
  "block_valid X b height parent parent_time difficulty now \<longleftrightarrow>
     header_and_size_valid X b height parent parent_time difficulty now \<and> roots_valid X b \<and>
     transactions_valid b \<and> production_valid X b height"

lemma validate_block_ok:
  "is_ok (validate_block X b height parent parent_time difficulty now) \<longleftrightarrow>
   block_valid X b height parent parent_time difficulty now"
proof -
  have "bh_height (blk_header b) = height" if "header_and_size_valid X b height parent parent_time difficulty now"
    using that by (simp add: header_and_size_valid_def Let_def)
  then show ?thesis
    unfolding validate_block_def block_valid_def and_then_unit_ok
      validate_header_and_size_ok validate_body_roots_ok validate_transactions_ok
    using validate_production_ok [of b height X] by blast
qed

section \<open>What the hashes commit to\<close>

lemma transaction_root_eq:
  "compute_transaction_root X txs = x_blake3 X (DOMAIN_TX_ROOT @ concat (map tx_commitment txs))"
proof -
  have "fold (\<lambda>tx h. hasher_update h (tx_commitment tx)) txs h = h @ concat (map tx_commitment txs)" for h
    by (induction txs arbitrary: h) (simp_all add: hasher_update_def)
  then show ?thesis by (simp add: compute_transaction_root_def hasher_finalize_def hasher_update_def hasher_new_def)
qed

lemma length_tx_commitment [simp]: "length (tx_commitment tx) = 48"
  by (simp add: tx_commitment_def)

definition tx_core :: "transaction \<Rightarrow> object_id \<times> nat \<times> nat" where
  "tx_core tx = (tx_id tx, tx_fee tx, tx_nonce tx)"

definition tx_fits :: "transaction \<Rightarrow> bool" where
  "tx_fits tx \<longleftrightarrow> tx_fee tx \<le> U64_MAX \<and> tx_nonce tx \<le> U64_MAX"

lemma tx_commitment_inject:
  "tx_fits a \<Longrightarrow> tx_fits b \<Longrightarrow> tx_commitment a = tx_commitment b \<longleftrightarrow> tx_core a = tx_core b"
  by (simp add: tx_commitment_def tx_core_def tx_fits_def be_bytes8_inject)

lemma tx_commitments_inject:
  assumes "\<forall>tx \<in> set as. tx_fits tx" and "\<forall>tx \<in> set bs. tx_fits tx"
  shows "concat (map tx_commitment as) = concat (map tx_commitment bs) \<longleftrightarrow> map tx_core as = map tx_core bs"
  using assms
proof (induction as arbitrary: bs)
  case Nil
  show ?case
  proof (cases bs)
    case (Cons b bs')
    have "tx_commitment b \<noteq> []" using length_tx_commitment [of b] by (metis list.size(3) zero_neq_numeral)
    with Cons show ?thesis by (auto dest: sym)
  qed simp
next
  case (Cons a as)
  show ?case
  proof (cases bs)
    case Nil
    have "tx_commitment a \<noteq> []" using length_tx_commitment [of a] by (metis list.size(3) zero_neq_numeral)
    with Nil show ?thesis by simp
  next
    case (Cons b bs')
    with Cons.prems Cons.IH [of bs'] tx_commitment_inject [of a b] show ?thesis by simp
  qed
qed

definition hashed_fields :: "block_header \<Rightarrow> block_header" where
  "hashed_fields h = h\<lparr>bh_pow_proof := None, bh_refiner_signature := None\<rparr>"

lemma block_hash_input_inject:
  assumes "header_fits g" and "header_fits h"
  shows "block_hash_input g = block_hash_input h \<longleftrightarrow> hashed_fields g = hashed_fields h"
proof -
  have v: "be_bytes 4 (bh_version g) = be_bytes 4 (bh_version h) \<longleftrightarrow> bh_version g = bh_version h"
    using assms by (intro be_bytes_inject) (simp_all add: header_fits_def)
  have n: "be_bytes 8 (f g) = be_bytes 8 (f h) \<longleftrightarrow> f g = f h"
    if "f g \<le> U64_MAX" "f h \<le> U64_MAX" for f :: "block_header \<Rightarrow> nat"
    using that by (rule be_bytes8_inject)
  have "block_hash_input g = block_hash_input h \<longleftrightarrow>
      bh_version g = bh_version h \<and> bh_height g = bh_height h \<and> bh_previous_hash g = bh_previous_hash h \<and>
      bh_producer g = bh_producer h \<and>
      bh_state_root g = bh_state_root h \<and> bh_transaction_root g = bh_transaction_root h \<and>
      bh_evidence_root g = bh_evidence_root h \<and> bh_attestation_root g = bh_attestation_root h \<and>
      bh_genesis_ceremony_hash g = bh_genesis_ceremony_hash h \<and> bh_timestamp g = bh_timestamp h \<and>
      bh_difficulty g = bh_difficulty h \<and> bh_suggested_fee g = bh_suggested_fee h \<and>
      bh_extension_root g = bh_extension_root h"
    using assms unfolding block_hash_input_def header_fits_def
    by (simp add: v n optional_root_inject)
  also have "\<dots> \<longleftrightarrow> hashed_fields g = hashed_fields h"
    by (cases g; cases h) (auto simp: hashed_fields_def)
  finally show ?thesis .
qed

lemma compute_block_hash_eq: "compute_block_hash X h = x_blake3 X (DOMAIN_BLOCK_HASH @ block_hash_input h)"
  by (simp add: compute_block_hash_def hasher_finalize_def hasher_update_def hasher_new_def)


lemma ok_or_then_Inl: "and_then (ok_or v e) (\<lambda>a. Inr (f a)) = Inl d \<longleftrightarrow> v = None \<and> d = e"
  by (cases v) auto

lemma root_errors:
  "compute_evidence_root X ev = Inl e \<Longrightarrow> x_borsh_evidence X ev = None"
  "compute_attestation_root X at = Inl e \<Longrightarrow> x_borsh_attestations X at = None"
  "compute_genesis_ceremony_hash X gc = Inl e \<Longrightarrow> x_borsh_ceremony X gc = None"
  by (simp_all add: compute_evidence_root_def compute_attestation_root_def compute_genesis_ceremony_hash_def
      ok_or_then_Inl)

lemma set_body_roots_ok:
  "set_body_roots X b = (Inr (), b') \<longleftrightarrow>
     (\<exists>er ar gr. compute_evidence_root X (blk_slash_evidence b) = Inr er \<and>
        compute_attestation_root X (blk_attestations b) = Inr ar \<and>
        compute_genesis_ceremony_hash X (blk_genesis_ceremony b) = Inr gr \<and>
        b' = b\<lparr>blk_header := (blk_header b)\<lparr>
               bh_transaction_root := compute_transaction_root X (blk_transactions b), bh_evidence_root := er,
               bh_attestation_root := ar, bh_genesis_ceremony_hash := gr\<rparr>\<rparr>)"
  unfolding set_body_roots_def Let_def by (auto split: sum.splits)

definition demo_block :: block where
  "demo_block =
     \<lparr> blk_header = blk_header (mined_with demo_header 3), blk_transactions = [demo_tx\<lparr>tx_data := [1]\<rparr>],
       blk_slash_evidence = [], blk_attestations = [], blk_genesis_ceremony = None \<rparr>"

section \<open>Properties\<close>

text \<open>
  C10: block validation accepts exactly the valid blocks: the header names the expected version, height,
  parent and difficulty, the timestamp is at least half the target time after the parent's and at
  most five minutes ahead, the counts and the serialized size are within the limits, the four body
  roots are those of the body, the transaction ids are distinct, data and fees are within their
  bounds, and above genesis there is exactly one production proof by a non-zero producer: a proof
  of work that verifies, or a refiner signature of 64 bytes.
\<close>

theorem validate_block_exact:
  "validate_block X b height parent parent_time difficulty now = Inr () \<longleftrightarrow>
     header_and_size_valid X b height parent parent_time difficulty now \<and> roots_valid X b \<and>
     transactions_valid b \<and> production_valid X b height"
  using validate_block_ok [of X b height parent parent_time difficulty now]
  unfolding is_ok_unit block_valid_def .

text \<open>
  C11: the block hash commits to every header field but the proofs, the producer included: two headers
  in range with the same hash agree on all of them, or their hash inputs are a collision of the
  hash function. The transaction root commits in the same way to the list of ids, fees and nonces,
  and to nothing else of a transaction: changing signatures and data fields keeps the root.
\<close>

theorem block_hash_commitment:
  assumes "header_fits g" and "header_fits h" and "compute_block_hash X g = compute_block_hash X h"
    and "\<forall>tx \<in> set as \<union> set bs. tx_fits tx" and "compute_transaction_root X as = compute_transaction_root X bs"
  shows "(hashed_fields g = hashed_fields h \<or>
       (DOMAIN_BLOCK_HASH @ block_hash_input g \<noteq> DOMAIN_BLOCK_HASH @ block_hash_input h \<and>
        x_blake3 X (DOMAIN_BLOCK_HASH @ block_hash_input g) = x_blake3 X (DOMAIN_BLOCK_HASH @ block_hash_input h)))
    \<and> (map tx_core as = map tx_core bs \<or>
       (DOMAIN_TX_ROOT @ concat (map tx_commitment as) \<noteq> DOMAIN_TX_ROOT @ concat (map tx_commitment bs) \<and>
        x_blake3 X (DOMAIN_TX_ROOT @ concat (map tx_commitment as)) = x_blake3 X (DOMAIN_TX_ROOT @ concat (map tx_commitment bs))))
    \<and> compute_transaction_root X (map (\<lambda>tx. tx\<lparr>tx_data := d (tx_id tx), tx_signature := s (tx_id tx)\<rparr>) as)
       = compute_transaction_root X as"
proof (intro conjI)
  show "hashed_fields g = hashed_fields h \<or>
       (DOMAIN_BLOCK_HASH @ block_hash_input g \<noteq> DOMAIN_BLOCK_HASH @ block_hash_input h \<and>
        x_blake3 X (DOMAIN_BLOCK_HASH @ block_hash_input g) = x_blake3 X (DOMAIN_BLOCK_HASH @ block_hash_input h))"
    using block_hash_input_inject [OF assms(1,2)] assms(3) by (auto simp: compute_block_hash_eq)
  show "map tx_core as = map tx_core bs \<or>
       (DOMAIN_TX_ROOT @ concat (map tx_commitment as) \<noteq> DOMAIN_TX_ROOT @ concat (map tx_commitment bs) \<and>
        x_blake3 X (DOMAIN_TX_ROOT @ concat (map tx_commitment as)) = x_blake3 X (DOMAIN_TX_ROOT @ concat (map tx_commitment bs)))"
    using tx_commitments_inject [of as bs] assms(4,5) by (auto simp: transaction_root_eq)
  have "map tx_commitment (map (\<lambda>tx. tx\<lparr>tx_data := d (tx_id tx), tx_signature := s (tx_id tx)\<rparr>) as) = map tx_commitment as"
    by (simp add: tx_commitment_def)
  then show "compute_transaction_root X (map (\<lambda>tx. tx\<lparr>tx_data := d (tx_id tx), tx_signature := s (tx_id tx)\<rparr>) as)
         = compute_transaction_root X as"
    by (simp only: transaction_root_eq)
qed

theorem block_hash_commitment_witness:
  "compute_transaction_root demo_pow [demo_tx\<lparr>tx_data := [9], tx_signature := []\<rparr>] = compute_transaction_root demo_pow [demo_tx]
   \<and> hashed_fields demo_header = hashed_fields (blk_header (mined_with demo_header 3))"
proof -
  have fits: "header_fits demo_header" "header_fits (blk_header (mined_with demo_header 3))"
    by (simp_all add: header_fits_def demo_header_def mined_with_def U64_MAX_def)
  have t: "\<forall>tx \<in> set [demo_tx] \<union> set [demo_tx]. tx_fits tx" by (simp add: tx_fits_def demo_tx_def U64_MAX_def)
  have i: "block_hash_input demo_header = block_hash_input (blk_header (mined_with demo_header 3))"
    by (simp add: block_hash_input_def mined_with_def)
  then have "compute_block_hash demo_pow demo_header = compute_block_hash demo_pow (blk_header (mined_with demo_header 3))"
    by (simp add: compute_block_hash_eq)
  from block_hash_commitment [OF fits this t refl, where d = "\<lambda>_. [9]" and s = "\<lambda>_. []"] i
  show ?thesis by simp
qed

text \<open>
  A block whose roots \<open>set_body_roots\<close> has set passes the root check, with the body and every other
  header field as they were; it fails only when the evidence, the attestations or the ceremony
  data do not serialize, and the transaction root is then set already.
\<close>

theorem set_body_roots_seals:
  "(case set_body_roots X b of
      (Inr _, b') \<Rightarrow> validate_body_roots X b' = Inr () \<and> blk_transactions b' = blk_transactions b
        \<and> blk_slash_evidence b' = blk_slash_evidence b \<and> blk_attestations b' = blk_attestations b
        \<and> blk_genesis_ceremony b' = blk_genesis_ceremony b
        \<and> (blk_header b')\<lparr>bh_transaction_root := hash_zero, bh_evidence_root := hash_zero,
             bh_attestation_root := hash_zero, bh_genesis_ceremony_hash := hash_zero\<rparr>
          = (blk_header b)\<lparr>bh_transaction_root := hash_zero, bh_evidence_root := hash_zero,
             bh_attestation_root := hash_zero, bh_genesis_ceremony_hash := hash_zero\<rparr>
    | (Inl e, b') \<Rightarrow> (x_borsh_evidence X (blk_slash_evidence b) = None \<or> x_borsh_attestations X (blk_attestations b) = None
        \<or> x_borsh_ceremony X (blk_genesis_ceremony b) = None)
        \<and> bh_transaction_root (blk_header b') = compute_transaction_root X (blk_transactions b))"
proof (cases "set_body_roots X b")
  case (Pair r b')
  show ?thesis
  proof (cases r)
    case (Inl e)
    then show ?thesis using Pair
      by (auto simp: set_body_roots_def Let_def dest: root_errors split: sum.splits)
  next
    case (Inr u)
    then have eq: "set_body_roots X b = (Inr (), b')" using Pair by simp
    then have shape: "\<exists>er ar gr. compute_evidence_root X (blk_slash_evidence b) = Inr er \<and>
        compute_attestation_root X (blk_attestations b) = Inr ar \<and>
        compute_genesis_ceremony_hash X (blk_genesis_ceremony b) = Inr gr \<and>
        b' = b\<lparr>blk_header := (blk_header b)\<lparr>
               bh_transaction_root := compute_transaction_root X (blk_transactions b), bh_evidence_root := er,
               bh_attestation_root := ar, bh_genesis_ceremony_hash := gr\<rparr>\<rparr>"
      by (simp only: set_body_roots_ok)
    then have "validate_body_roots X b' = Inr ()"
      using validate_body_roots_ok [of X b'] by (auto simp: roots_valid_def Let_def is_ok_unit)
    with eq shape show ?thesis by auto
  qed
qed

end
