(* ===== verification/Genesis_Block.thy ===== *)
theory Genesis_Block
  imports Block
begin

text \<open>
  The genesis block, \<open>crates/consensus/src/genesis.rs\<close>: its construction from the ceremony
  configuration, the initial account balances and the validation of a genesis block. A Rust
  \<open>String\<close> is the list of its UTF-8 bytes as characters.
\<close>

definition CURRENCY_NAME :: string where "CURRENCY_NAME = ''Opolys''"

definition CURRENCY_TICKER :: string where "CURRENCY_TICKER = ''OPL''"

definition CURRENCY_SMALLEST_UNIT :: string where "CURRENCY_SMALLEST_UNIT = ''Flake''"

definition NETWORK_PROTOCOL_VERSION :: string where "NETWORK_PROTOCOL_VERSION = ''1.0.0''"

section \<open>Configuration\<close>

record genesis_attestation =
  ga_ceremony_timestamp :: nat
  ga_gold_spot_price_usd_cents :: nat
  ga_annual_production_tonnes :: nat
  ga_total_above_ground_tonnes :: nat
  ga_lbma_response_hash :: "byte list"
  ga_usgs_response_hash :: "byte list"
  ga_wgc_response_hash :: "byte list"
  ga_derivation_formula :: string

record genesis_config =
  gn_initial_difficulty :: nat
  gn_protocol_version :: string
  gn_attestation :: genesis_attestation
  gn_accounts :: "(object_id \<times> nat \<times> byte list) list"
  gn_base_reward :: nat
  gn_ceremony_data :: "genesis_ceremony_data option"

definition genesis_config_default :: genesis_config where
  "genesis_config_default =
     \<lparr> gn_initial_difficulty = GENESIS_DIFFICULTY, gn_protocol_version = NETWORK_PROTOCOL_VERSION,
       gn_attestation =
         \<lparr> ga_ceremony_timestamp = 0, ga_gold_spot_price_usd_cents = 0, ga_annual_production_tonnes = 3630,
           ga_total_above_ground_tonnes = 219891, ga_lbma_response_hash = replicate 32 0,
           ga_usgs_response_hash = replicate 32 0, ga_wgc_response_hash = replicate 32 0,
           ga_derivation_formula = ''floor(annual_production_tonnes * 32150.7 / 350640)'' \<rparr>,
       gn_accounts = [], gn_base_reward = BASE_REWARD, gn_ceremony_data = None \<rparr>"

section \<open>Construction\<close>

text \<open>The updates of the state hasher, in order.\<close>

definition genesis_state_updates :: "genesis_config \<Rightarrow> byte list list" where
  "genesis_state_updates c =
     (let a = gn_attestation c in
      [DOMAIN_STATE_ROOT, ascii ''genesis'', ascii (gn_protocol_version c), ascii CURRENCY_NAME,
       ascii CURRENCY_TICKER, ascii CURRENCY_SMALLEST_UNIT, be_bytes 8 FLAKES_PER_OPL,
       be_bytes 8 (gn_base_reward c), be_bytes 8 BLOCK_TARGET_TIME_MS, be_bytes 8 MIN_DIFFICULTY,
       be_bytes 8 EPOCH, be_bytes 8 MIN_BOND_STAKE, be_bytes 8 MIN_FEE, be_bytes 4 BLOCK_VERSION,
       be_bytes 8 (ga_ceremony_timestamp a), be_bytes 8 (ga_annual_production_tonnes a),
       be_bytes 8 (ga_total_above_ground_tonnes a), ga_lbma_response_hash a, ga_usgs_response_hash a,
       ga_wgc_response_hash a, ascii (ga_derivation_formula a)] @
      concat (map (\<lambda>(i, amount, pk). [object_id_as_bytes i, be_bytes 8 amount, pk]) (gn_accounts c)))"

definition build_genesis_block :: "'x externs_scheme \<Rightarrow> genesis_config \<Rightarrow> opolys_error + block" where
  "build_genesis_block X c =
     (let state_root = hasher_finalize X (fold (\<lambda>d h. hasher_update h d) (genesis_state_updates c) hasher_new);
          transactions = []; slash_evidence = []; attestations = []; genesis_ceremony = gn_ceremony_data c
      in and_then (compute_evidence_root X slash_evidence) (\<lambda>er.
         and_then (compute_attestation_root X attestations) (\<lambda>ar.
         and_then (compute_genesis_ceremony_hash X genesis_ceremony) (\<lambda>gr.
         Inr \<lparr> blk_header =
                 \<lparr> bh_version = BLOCK_VERSION, bh_height = 0, bh_previous_hash = hash_zero,
                   bh_state_root = state_root,
                   bh_transaction_root = compute_transaction_root X transactions,
                   bh_evidence_root = er, bh_attestation_root = ar, bh_genesis_ceremony_hash = gr,
                   bh_timestamp = ga_ceremony_timestamp (gn_attestation c),
                   bh_difficulty = gn_initial_difficulty c, bh_suggested_fee = MIN_FEE,
                   bh_extension_root = None, bh_producer = ObjectId hash_zero, bh_pow_proof = None,
                   bh_refiner_signature = None \<rparr>,
               blk_transactions = transactions, blk_slash_evidence = slash_evidence,
               blk_attestations = attestations, blk_genesis_ceremony = genesis_ceremony \<rparr>))))"

section \<open>Initial balances\<close>

definition genesis_error :: "String.literal \<Rightarrow> opolys_error \<Rightarrow> message" where
  "genesis_error m e = Fmt m [AMsg (opolys_error_to_string e)]"

definition ensure_genesis_account :: "object_id \<Rightarrow> account_store \<Rightarrow> (message + unit) \<times> account_store" where
  "ensure_genesis_account i s =
     (if get_account s i = None
      then (case create_account i s of
              (Inl e, t) \<Rightarrow> (Inl (genesis_error (STR ''Failed to create genesis account: {}'') e), t)
            | (Inr _, t) \<Rightarrow> (Inr (), t))
      else (Inr (), s))"

fun apply_genesis_entries ::
  "(object_id \<times> nat \<times> byte list) list \<Rightarrow> nat \<Rightarrow> account_store \<Rightarrow> (message + nat) \<times> account_store" where
  "apply_genesis_entries [] issued s = (Inr issued, s)"
| "apply_genesis_entries ((i, amount, pk) # es) issued s =
     run_then (ensure_genesis_account i s) (\<lambda>_ s1.
       (let s2 = (if pk \<noteq> [] then modify_account i (\<lambda>a. a\<lparr>acc_public_key := Some pk\<rparr>) s1 else s1) in
        case credit i amount s2 of
          (Inl e, s3) \<Rightarrow> (Inl (genesis_error (STR ''Failed to credit genesis account: {}'') e), s3)
        | (Inr _, s3) \<Rightarrow>
            (case checked_add64 issued amount of
               None \<Rightarrow> (Inl (Fmt (STR ''Genesis issued supply overflow'') []), s3)
             | Some issued' \<Rightarrow> apply_genesis_entries es issued' s3)))"

definition apply_genesis_accounts ::
  "genesis_config \<Rightarrow> account_store \<Rightarrow> (message + nat) \<times> account_store" where
  "apply_genesis_accounts c s = apply_genesis_entries (gn_accounts c) 0 s"

section \<open>Validation\<close>

definition genesis_reject :: "bool \<Rightarrow> String.literal \<Rightarrow> message + unit" where
  "genesis_reject b m = (if b then Inl (Fmt m []) else Inr ())"

definition validate_genesis_block :: "'x externs_scheme \<Rightarrow> block \<Rightarrow> message + unit" where
  "validate_genesis_block X b =
     (let h = blk_header b in
      and_then (genesis_reject (bh_height h \<noteq> 0) (STR ''Genesis block must have height 0'')) (\<lambda>_.
      and_then (genesis_reject (bh_previous_hash h \<noteq> hash_zero) (STR ''Genesis block must have zero previous hash'')) (\<lambda>_.
      and_then (genesis_reject (bh_pow_proof h \<noteq> None) (STR ''Genesis block must not have PoW proof'')) (\<lambda>_.
      and_then (genesis_reject (blk_transactions b \<noteq> []) (STR ''Genesis block must not have transactions'')) (\<lambda>_.
      and_then (genesis_reject (bh_transaction_root h \<noteq> compute_transaction_root X (blk_transactions b))
          (STR ''Genesis transaction root mismatch'')) (\<lambda>_.
      and_then (map_err opolys_error_to_string (compute_evidence_root X (blk_slash_evidence b))) (\<lambda>er.
      and_then (genesis_reject (bh_evidence_root h \<noteq> er) (STR ''Genesis evidence root mismatch'')) (\<lambda>_.
      and_then (map_err opolys_error_to_string (compute_attestation_root X (blk_attestations b))) (\<lambda>ar.
      and_then (genesis_reject (bh_attestation_root h \<noteq> ar) (STR ''Genesis attestation root mismatch'')) (\<lambda>_.
      and_then (map_err opolys_error_to_string (compute_genesis_ceremony_hash X (blk_genesis_ceremony b))) (\<lambda>gr.
      genesis_reject (bh_genesis_ceremony_hash h \<noteq> gr) (STR ''Genesis ceremony hash mismatch''))))))))))))"

section \<open>Laws\<close>

lemma genesis_reject_ok [simp]: "is_ok (genesis_reject b m) \<longleftrightarrow> \<not> b" "genesis_reject b m = Inr () \<longleftrightarrow> \<not> b"
  by (simp_all add: genesis_reject_def)

lemma validate_genesis_block_ok:
  "is_ok (validate_genesis_block X b) \<longleftrightarrow>
     bh_height (blk_header b) = 0 \<and> bh_previous_hash (blk_header b) = hash_zero \<and>
     bh_pow_proof (blk_header b) = None \<and> blk_transactions b = [] \<and> roots_valid X b"
  by (auto simp: validate_genesis_block_def Let_def and_then_is_ok roots_valid_def)

lemma build_genesis_block_ok:
  assumes "build_genesis_block X c = Inr b"
  shows "validate_genesis_block X b = Inr () \<and> production_kind (blk_header b) = Some Genesis"
proof -
  have "bh_height (blk_header b) = 0 \<and> bh_previous_hash (blk_header b) = hash_zero \<and>
     bh_pow_proof (blk_header b) = None \<and> bh_refiner_signature (blk_header b) = None \<and>
     blk_transactions b = [] \<and> roots_valid X b"
    using assms by (auto simp: build_genesis_block_def and_then_Inr_iff roots_valid_def Let_def)
  then show ?thesis
    using validate_genesis_block_ok [of X b] by (simp add: is_ok_unit production_kind_Genesis_iff)
qed

text \<open>What one entry contributes, and the accounts after all of them.\<close>

lemma ensure_genesis_account_ok:
  "\<exists>t. ensure_genesis_account i s = (Inr (), t) \<and> hm_get t i \<noteq> None \<and>
     hm_total acc_balance t = hm_total acc_balance s \<and> (accounts_wf s \<longrightarrow> accounts_wf t)"
proof (cases "hm_get s i")
  case None
  have "accounts_wf (hm_put i (account_new i) s)" if "accounts_wf s"
    using that by (intro wf_intros) simp_all
  with None show ?thesis
    by (simp add: ensure_genesis_account_def get_account_def create_account_def hm_get_put hm_total_put_new)
qed (simp add: ensure_genesis_account_def get_account_def)

lemma set_public_key_law:
  fixes pk :: "byte list"
  defines "f \<equiv> (\<lambda>a. a\<lparr>acc_public_key := Some pk\<rparr>)"
  shows "hm_total acc_balance (modify_account i f s) = hm_total acc_balance s"
    and "accounts_wf s \<Longrightarrow> accounts_wf (modify_account i f s)"
    and "hm_get s i \<noteq> None \<Longrightarrow> hm_get (modify_account i f s) i \<noteq> None"
  by (auto simp: f_def modify_account_get account_ok_def intro!: modify_account_same_balance modify_account_wf
      dest: accounts_wf_get)

definition genesis_amount :: "(object_id \<times> nat \<times> byte list) list \<Rightarrow> nat" where
  "genesis_amount es = sum_list (map (\<lambda>(i, amount, pk). amount) es)"

lemma apply_genesis_entries_law:
  assumes "accounts_wf s" and "hm_total acc_balance s \<le> U64_MAX" and "issued = hm_total acc_balance s"
  shows "if hm_total acc_balance s + genesis_amount es \<le> U64_MAX
         then \<exists>t. apply_genesis_entries es issued s = (Inr (issued + genesis_amount es), t) \<and>
                accounts_wf t \<and> hm_total acc_balance t = hm_total acc_balance s + genesis_amount es
         else is_ok (fst (apply_genesis_entries es issued s)) = False"
  using assms
proof (induction es arbitrary: issued s)
  case Nil
  then show ?case by (simp add: genesis_amount_def)
next
  case (Cons e es)
  obtain i amount pk where e: "e = (i, amount, pk)" by (cases e)
  obtain s1 where s1: "ensure_genesis_account i s = (Inr (), s1)" "hm_get s1 i \<noteq> None"
    "hm_total acc_balance s1 = hm_total acc_balance s" "accounts_wf s1"
    using ensure_genesis_account_ok [of i s] Cons.prems(1) by blast
  define s2 where "s2 = (if pk \<noteq> [] then modify_account i (\<lambda>a. a\<lparr>acc_public_key := Some pk\<rparr>) s1 else s1)"
  have s2: "hm_get s2 i \<noteq> None" "hm_total acc_balance s2 = hm_total acc_balance s" "accounts_wf s2"
    using s1 set_public_key_law [where i = i and pk = pk and s = s1] by (auto simp: s2_def)
  have amt: "genesis_amount (e # es) = amount + genesis_amount es" by (simp add: genesis_amount_def e)
  show ?case
  proof (cases "credit i amount s2")
    case (Pair r s3)
    have w3: "accounts_wf s3" using credit_wf [OF s2(3), of i amount] Pair by simp
    show ?thesis
    proof (cases r)
      case (Inl x)
      obtain a where a: "hm_get s2 i = Some a" using s2(1) by blast
      then have "U64_MAX < acc_balance a + amount" using Inl Pair
        by (auto simp: credit_def split: option.splits)
      moreover have "acc_balance a \<le> hm_total acc_balance s" using hm_total_ge [OF a, of acc_balance] s2(2) by simp
      ultimately show ?thesis using s1 Inl Pair amt by (simp add: e s2_def [symmetric] Let_def)
    next
      case (Inr u)
      then have t3: "hm_total acc_balance s3 = hm_total acc_balance s + amount"
        using coins.give_total [of i amount s2 u s3] Pair s2(2) by simp
      show ?thesis
      proof (cases "issued + amount \<le> U64_MAX")
        case True
        then have "apply_genesis_entries (e # es) issued s = apply_genesis_entries es (issued + amount) s3"
          using s1 Inr Pair True by (simp add: e s2_def [symmetric] Let_def checked_add64_def)
        then show ?thesis
          using Cons.IH [of s3 "issued + amount"] w3 t3 True Cons.prems(3) amt
          by (simp add: add.assoc split: if_splits)
      next
        case False
        show ?thesis using s1 Inr Pair False Cons.prems(3) amt by (simp add: e s2_def [symmetric] Let_def checked_add64_def)
      qed
    qed
  qed
qed

section \<open>Properties\<close>

text \<open>
  Every genesis block that is built passes genesis validation and is of the genesis kind. Applying
  the genesis accounts to an empty ledger issues exactly the sum of the configured amounts, also
  when an account is listed twice, and that sum is the total of all balances; it fails exactly when
  the sum is not a \<open>u64\<close>.
\<close>

theorem genesis_issues_configured_supply:
  "(\<forall>b. build_genesis_block X c = Inr b \<longrightarrow> validate_genesis_block X b = Inr () \<and>
        production_kind (blk_header b) = Some Genesis)
   \<and> (if genesis_amount (gn_accounts c) \<le> U64_MAX
      then \<exists>t. apply_genesis_accounts c account_store_new = (Inr (genesis_amount (gn_accounts c)), t) \<and>
             accounts_wf t \<and> total_balance t = genesis_amount (gn_accounts c)
      else \<exists>e t. apply_genesis_accounts c account_store_new = (Inl e, t))"
proof (intro conjI allI impI)
  show "if genesis_amount (gn_accounts c) \<le> U64_MAX
      then \<exists>t. apply_genesis_accounts c account_store_new = (Inr (genesis_amount (gn_accounts c)), t) \<and>
             accounts_wf t \<and> total_balance t = genesis_amount (gn_accounts c)
      else \<exists>e t. apply_genesis_accounts c account_store_new = (Inl e, t)"
  proof (cases "apply_genesis_entries (gn_accounts c) 0 account_store_new")
    case (Pair r t)
    have "if genesis_amount (gn_accounts c) \<le> U64_MAX
         then r = Inr (genesis_amount (gn_accounts c)) \<and> accounts_wf t \<and>
           hm_total acc_balance t = genesis_amount (gn_accounts c)
         else is_ok r = False"
      using apply_genesis_entries_law [of account_store_new 0 "gn_accounts c"] Pair
      by (simp add: account_store_new_def accounts_wf_def hm_total_def split: if_splits)
    with Pair show ?thesis
      by (cases r) (simp_all add: apply_genesis_accounts_def total_balance_def split: if_splits)
  qed
qed (use build_genesis_block_ok in blast)+

theorem genesis_issues_configured_supply_witness:
  "is_ok (build_genesis_block demo_externs genesis_config_default)
   \<and> validate_genesis_block demo_externs (case build_genesis_block demo_externs genesis_config_default of Inr b \<Rightarrow> b | Inl _ \<Rightarrow> undefined) = Inr ()
   \<and> fst (apply_genesis_accounts (genesis_config_default\<lparr>gn_accounts := [(ObjectId (Hash 1), 5, []), (ObjectId (Hash 1), 7, [])]\<rparr>)
        account_store_new) = Inr 12"
proof -
  have ok: "is_ok (build_genesis_block demo_externs genesis_config_default)"
    by (simp add: build_genesis_block_def Let_def and_then_is_ok compute_evidence_root_def
        compute_attestation_root_def compute_genesis_ceremony_hash_def demo_externs_def)
  then obtain b where b: "build_genesis_block demo_externs genesis_config_default = Inr b"
    by (cases "build_genesis_block demo_externs genesis_config_default") simp_all
  let ?c = "genesis_config_default\<lparr>gn_accounts := [(ObjectId (Hash 1), 5, []), (ObjectId (Hash 1), 7, [])]\<rparr>"
  have "genesis_amount (gn_accounts ?c) = 12" by (simp add: genesis_amount_def)
  with ok b genesis_issues_configured_supply [of demo_externs genesis_config_default]
    genesis_issues_configured_supply [of demo_externs ?c] show ?thesis by (auto simp: U64_MAX_def)
qed

end
