(* ===== verification/Storage_DB.thy ===== *)
theory Storage_DB
  imports Genesis_Block
begin

text \<open>
  Persistent storage, \<open>crates/storage/src/store.rs\<close>. RocksDB and the Borsh codecs are third-party:
  the database is a map from column family and key to value, a read or write may fail as the
  parameters \<open>x_db_get_fails\<close> and \<open>x_db_write_fails\<close> say, and a batch is written completely or
  not at all. The checksum framing, the key layout and the order of the writes are the code's. The
  column families exist once the database is open, so the lookup of a handle never fails.
\<close>

section \<open>State\<close>

record persisted_chain_state =
  ps_chain_id :: nat
  ps_genesis_hash :: "byte list"
  ps_current_height :: nat
  ps_current_difficulty :: nat
  ps_total_issued :: nat
  ps_total_burned :: nat
  ps_mint_ledger :: mint_ledger_totals
  ps_block_timestamps :: "nat list"
  ps_latest_block_hash :: "byte list"
  ps_state_root :: "byte list"
  ps_suggested_fee :: nat
  ps_base_reward :: nat
  ps_producer_signatures :: "(nat \<times> string \<times> hash \<times> byte list) list"
  ps_finalized_height :: nat
  ps_finality_refiners :: "(nat \<times> hash \<times> object_id list) list"

datatype column_family = CfBlocks | CfAccounts | CfRefiners | CfChainState | CfTransactions

type_synonym db_key = "column_family \<times> byte list"
type_synonym db = "db_key \<Rightarrow> byte list option"
type_synonym db_batch = "(db_key \<times> byte list) list"

record storage_externs = pow_externs +
  x_db_get_fails :: "db_key \<Rightarrow> bool"
  x_db_write_fails :: "db_batch \<Rightarrow> bool"
  x_unborsh_block :: "byte list \<Rightarrow> block option"
  x_borsh_receipt :: "block_economic_receipt \<Rightarrow> byte list option"
  x_unborsh_receipt :: "byte list \<Rightarrow> block_economic_receipt option"
  x_borsh_chain_state :: "persisted_chain_state \<Rightarrow> byte list option"
  x_unborsh_chain_state :: "byte list \<Rightarrow> persisted_chain_state option"
  x_borsh_accounts :: "account list \<Rightarrow> byte list option"
  x_unborsh_accounts :: "byte list \<Rightarrow> account list option"
  x_borsh_refiners :: "refiner_info list \<Rightarrow> byte list option"
  x_unborsh_refiners :: "byte list \<Rightarrow> refiner_info list option"
  x_borsh_ids :: "object_id list \<Rightarrow> byte list option"
  x_borsh_queue :: "pending_unbond list \<Rightarrow> byte list option"
  x_unborsh_queue :: "byte list \<Rightarrow> pending_unbond list option"

definition STORAGE_SCHEMA_VERSION :: nat where "STORAGE_SCHEMA_VERSION = 2"

definition STORAGE_SCHEMA_VERSION_KEY :: "byte list" where
  "STORAGE_SCHEMA_VERSION_KEY = ascii ''schema_version''"

definition VALUE_CHECKSUM_LEN :: nat where "VALUE_CHECKSUM_LEN = 16"

section \<open>Checksummed values\<close>

definition encode_value :: "'x externs_scheme \<Rightarrow> byte list \<Rightarrow> byte list" where
  "encode_value X d =
     take VALUE_CHECKSUM_LEN (hash_as_bytes (hash_with_domain X (ascii ''OPL_DB_VALUE_V1'') d)) @ d"

definition decode_value :: "'x externs_scheme \<Rightarrow> String.literal \<Rightarrow> byte list \<Rightarrow> message + byte list" where
  "decode_value X context v =
     (if length v < VALUE_CHECKSUM_LEN
      then Inl (Fmt (STR ''{} checksum missing'') [AMsg (Fmt context [])])
      else
        (let stored_checksum = take VALUE_CHECKSUM_LEN v; payload = drop VALUE_CHECKSUM_LEN v;
             computed = hash_with_domain X (ascii ''OPL_DB_VALUE_V1'') payload
         in if stored_checksum \<noteq> take VALUE_CHECKSUM_LEN (hash_as_bytes computed)
            then Inl (Fmt (STR ''{} checksum mismatch'') [AMsg (Fmt context [])])
            else Inr payload))"

section \<open>Database access\<close>

definition db_err :: "String.literal \<Rightarrow> message" where
  "db_err m = Fmt m []"

definition db_get :: "'x storage_externs_scheme \<Rightarrow> String.literal \<Rightarrow> db_key \<Rightarrow> db \<Rightarrow> message + byte list option" where
  "db_get X err k db = (if x_db_get_fails X k then Inl (db_err err) else Inr (db k))"

definition apply_batch :: "db_batch \<Rightarrow> db \<Rightarrow> db" where
  "apply_batch b db = fold (\<lambda>(k, v) d. d(k \<mapsto> v)) b db"

definition db_write :: "'x storage_externs_scheme \<Rightarrow> String.literal \<Rightarrow> db_batch \<Rightarrow> db \<Rightarrow> (message + unit) \<times> db" where
  "db_write X err b db = (if x_db_write_fails X b then (Inl (db_err err), db) else (Inr (), apply_batch b db))"

definition db_put ::
  "'x storage_externs_scheme \<Rightarrow> String.literal \<Rightarrow> db_key \<Rightarrow> byte list \<Rightarrow> db \<Rightarrow> (message + unit) \<times> db" where
  "db_put X err k payload db = db_write X err [(k, encode_value X payload)] db"

definition hash_to_hex :: "'x externs_scheme \<Rightarrow> hash \<Rightarrow> string" where
  "hash_to_hex X h = x_hex_encode X (hash_as_bytes h)"

definition object_id_to_hex :: "'x externs_scheme \<Rightarrow> object_id \<Rightarrow> string" where
  "object_id_to_hex X i = hash_to_hex X (object_id_hash i)"

definition height_key :: "nat \<Rightarrow> db_key" where
  "height_key height = (CfBlocks, be_bytes 8 height)"

definition hash_key :: "'x externs_scheme \<Rightarrow> hash \<Rightarrow> db_key" where
  "hash_key X h = (CfBlocks, ascii (''hash_'' @ hash_to_hex X h))"

definition receipt_height_key :: "nat \<Rightarrow> db_key" where
  "receipt_height_key height = (CfBlocks, ascii (''receipt_height_'' @ show_nat height))"

definition receipt_hash_key :: "'x externs_scheme \<Rightarrow> hash \<Rightarrow> db_key" where
  "receipt_hash_key X h = (CfBlocks, ascii (''receipt_hash_'' @ hash_to_hex X h))"

definition tx_key :: "'x externs_scheme \<Rightarrow> object_id \<Rightarrow> db_key" where
  "tx_key X i = (CfTransactions, ascii (''tx_'' @ object_id_to_hex X i))"

definition refiner_key :: "'x externs_scheme \<Rightarrow> object_id \<Rightarrow> db_key" where
  "refiner_key X i = (CfRefiners, ascii (''refiner:'' @ object_id_to_hex X i))"

definition latest_height_key :: db_key where "latest_height_key = (CfChainState, ascii ''latest_block_height'')"
definition chain_state_key :: db_key where "chain_state_key = (CfChainState, ascii ''chain_state'')"
definition all_accounts_key :: db_key where "all_accounts_key = (CfAccounts, ascii ''all_accounts'')"
definition active_ids_key :: db_key where "active_ids_key = (CfRefiners, ascii ''active_refiner_ids'')"
definition refiner_count_key :: db_key where "refiner_count_key = (CfRefiners, ascii ''refiner_count'')"
definition all_refiners_key :: db_key where "all_refiners_key = (CfRefiners, ascii ''all_refiners'')"
definition unbonding_queue_key :: db_key where "unbonding_queue_key = (CfRefiners, ascii ''unbonding_queue'')"

section \<open>Opening\<close>

definition ensure_schema_version :: "'x storage_externs_scheme \<Rightarrow> db \<Rightarrow> (message + unit) \<times> db" where
  "ensure_schema_version X db =
     (case db_get X (STR ''Storage schema version get failed: {}'') (CfChainState, STORAGE_SCHEMA_VERSION_KEY) db of
        Inl e \<Rightarrow> (Inl e, db)
      | Inr (Some v) \<Rightarrow>
          (and_then (decode_value X (STR ''Storage schema version'') v) (\<lambda>payload.
             if length payload \<noteq> 4 then Inl (Fmt (STR ''Invalid storage schema version length'') [])
             else (let version = le_value payload in
                   if version \<noteq> STORAGE_SCHEMA_VERSION
                   then Inl (Fmt (STR ''Unsupported storage schema version {}; this binary supports {}'')
                          [ANat version, ANat STORAGE_SCHEMA_VERSION])
                   else Inr ())), db)
      | Inr None \<Rightarrow>
          db_put X (STR ''Storage schema version put failed: {}'') (CfChainState, STORAGE_SCHEMA_VERSION_KEY)
            (le_bytes 4 STORAGE_SCHEMA_VERSION) db)"

section \<open>Blocks\<close>

definition save_block :: "'x storage_externs_scheme \<Rightarrow> block \<Rightarrow> db \<Rightarrow> (message + unit) \<times> db" where
  "save_block X b db =
     (let height = bh_height (blk_header b) in
      case x_borsh_block X b of
        None \<Rightarrow> (Inl (db_err (STR ''Block serialization failed: {}'')), db)
      | Some d \<Rightarrow>
          run_then (db_put X (STR ''Block put failed: {}'') (height_key height) d db)
            (\<lambda>_ db1. db_put X (STR ''Latest block height put failed: {}'') latest_height_key
               (be_bytes 8 height) db1))"

text \<open>Reading a value and decoding its payload: the shape that every lookup shares.\<close>

definition db_load ::
  "'x storage_externs_scheme \<Rightarrow> String.literal \<Rightarrow> String.literal \<Rightarrow> String.literal \<Rightarrow>
   (byte list \<Rightarrow> 'a option) \<Rightarrow> db_key \<Rightarrow> db \<Rightarrow> message + 'a option" where
  "db_load X context get_err parse_err parse k db =
     and_then (db_get X get_err k db) (\<lambda>r.
       case r of
         None \<Rightarrow> Inr None
       | Some v \<Rightarrow> and_then (decode_value X context v) (\<lambda>payload.
           case parse payload of None \<Rightarrow> Inl (db_err parse_err) | Some a \<Rightarrow> Inr (Some a)))"

definition parse_be64 :: "byte list \<Rightarrow> nat option" where
  "parse_be64 payload = (if length payload = 8 then Some (be_value payload) else None)"

definition load_block :: "'x storage_externs_scheme \<Rightarrow> nat \<Rightarrow> db \<Rightarrow> message + block option" where
  "load_block X height db =
     db_load X (STR ''Block'') (STR ''Block get failed: {}'') (STR ''Block deserialization failed: {}'')
       (x_unborsh_block X) (height_key height) db"

definition latest_block_height :: "'x storage_externs_scheme \<Rightarrow> db \<Rightarrow> message + nat option" where
  "latest_block_height X db =
     db_load X (STR ''Latest block height'') (STR ''Latest block height get failed: {}'')
       (STR ''Invalid latest block height'') parse_be64 latest_height_key db"

text \<open>The index entry of a transaction: height and position in the block.\<close>

definition tx_index_value :: "nat \<Rightarrow> nat \<Rightarrow> byte list" where
  "tx_index_value height idx = be_bytes 8 height @ be_bytes 4 (idx mod 2 ^ 32)"

definition save_block_indexes :: "'x storage_externs_scheme \<Rightarrow> block \<Rightarrow> db \<Rightarrow> (message + unit) \<times> db" where
  "save_block_indexes X b db =
     (let height = bh_height (blk_header b); block_hash = compute_block_hash X (blk_header b) in
      run_then (db_put X (STR ''Block hash index put failed: {}'') (hash_key X block_hash) (be_bytes 8 height) db)
        (\<lambda>_ db1. fold_while_ok (\<lambda>(idx, tx) d.
             db_put X (STR ''Tx index put failed: {}'') (tx_key X (tx_id tx)) (tx_index_value height idx) d)
           (zip [0..<length (blk_transactions b)] (blk_transactions b)) db1))"

definition load_block_receipt ::
  "'x storage_externs_scheme \<Rightarrow> nat \<Rightarrow> db \<Rightarrow> message + block_economic_receipt option" where
  "load_block_receipt X height db =
     db_load X (STR ''Block economic receipt'') (STR ''Block economic receipt get failed: {}'')
       (STR ''Block economic receipt deserialization failed: {}'') (x_unborsh_receipt X) (receipt_height_key height) db"

definition load_block_receipt_by_hash ::
  "'x storage_externs_scheme \<Rightarrow> hash \<Rightarrow> db \<Rightarrow> message + block_economic_receipt option" where
  "load_block_receipt_by_hash X h db =
     db_load X (STR ''Block economic receipt'') (STR ''Block economic receipt hash lookup failed: {}'')
       (STR ''Block economic receipt deserialization failed: {}'') (x_unborsh_receipt X) (receipt_hash_key X h) db"

definition load_block_by_hash :: "'x storage_externs_scheme \<Rightarrow> hash \<Rightarrow> db \<Rightarrow> message + block option" where
  "load_block_by_hash X h db =
     and_then (db_load X (STR ''Block hash index'') (STR ''Block hash lookup failed: {}'')
         (STR ''Invalid height in hash index'') parse_be64 (hash_key X h) db)
       (\<lambda>r. case r of None \<Rightarrow> Inr None | Some height \<Rightarrow> load_block X height db)"

definition parse_tx_index :: "byte list \<Rightarrow> nat option" where
  "parse_tx_index payload = (if length payload < 12 then None else Some (be_value (take 8 payload)))"

definition load_transaction ::
  "'x storage_externs_scheme \<Rightarrow> object_id \<Rightarrow> db \<Rightarrow> message + (nat \<times> transaction) option" where
  "load_transaction X i db =
     and_then (db_load X (STR ''Transaction index'') (STR ''Tx lookup failed: {}'')
         (STR ''Invalid transaction index data'') parse_tx_index (tx_key X i) db)
       (\<lambda>r. case r of
              None \<Rightarrow> Inr None
            | Some height \<Rightarrow>
                and_then (load_block X height db) (\<lambda>r. case r of
                  None \<Rightarrow> Inr None
                | Some b \<Rightarrow> Inr (map_option (\<lambda>tx. (height, tx)) (find (\<lambda>tx. tx_id tx = i) (blk_transactions b)))))"

section \<open>Accounts, refiners and chain state\<close>

definition save_accounts :: "'x storage_externs_scheme \<Rightarrow> account_store \<Rightarrow> db \<Rightarrow> (message + unit) \<times> db" where
  "save_accounts X accounts db =
     (case x_borsh_accounts X (all_accounts accounts) of
        None \<Rightarrow> (Inl (db_err (STR ''Account serialization failed: {}'')), db)
      | Some d \<Rightarrow> db_put X (STR ''Account put failed: {}'') all_accounts_key d db)"

definition load_accounts :: "'x storage_externs_scheme \<Rightarrow> db \<Rightarrow> message + account_store" where
  "load_accounts X db =
     and_then (db_load X (STR ''Accounts'') (STR ''Account get failed: {}'') (STR ''Account deserialization failed: {}'')
         (x_unborsh_accounts X) all_accounts_key db)
       (\<lambda>r. Inr (case r of None \<Rightarrow> account_store_new | Some accs \<Rightarrow> load_from_accounts accs))"

text \<open>The entries that every save of the refiner set ends with.\<close>

definition put_refiner :: "'x storage_externs_scheme \<Rightarrow> refiner_info \<Rightarrow> db \<Rightarrow> (message + unit) \<times> db" where
  "put_refiner X v db =
     (case x_borsh_refiner X v of
        None \<Rightarrow> (Inl (db_err (STR ''Refiner serialization failed: {}'')), db)
      | Some d \<Rightarrow> db_put X (STR ''Refiner put failed: {}'') (refiner_key X (ri_object_id v)) d db)"

definition put_active_ids :: "'x storage_externs_scheme \<Rightarrow> String.literal \<Rightarrow> refiner_set \<Rightarrow> db \<Rightarrow> (message + unit) \<times> db" where
  "put_active_ids X err refiners db =
     (case x_borsh_ids X (rs_active_set refiners) of
        None \<Rightarrow> (Inl (db_err (STR ''Active set serialization failed: {}'')), db)
      | Some d \<Rightarrow> db_put X err active_ids_key d db)"

definition put_all_refiners :: "'x storage_externs_scheme \<Rightarrow> String.literal \<Rightarrow> refiner_set \<Rightarrow> db \<Rightarrow> (message + unit) \<times> db" where
  "put_all_refiners X err refiners db =
     (case x_borsh_refiners X (all_refiners refiners) of
        None \<Rightarrow> (Inl (db_err (STR ''Refiner serialization failed: {}'')), db)
      | Some d \<Rightarrow> db_put X err all_refiners_key d db)"

definition put_refiner_count :: "'x storage_externs_scheme \<Rightarrow> refiner_set \<Rightarrow> db \<Rightarrow> (message + unit) \<times> db" where
  "put_refiner_count X refiners db =
     db_put X (STR ''Refiner count put failed: {}'') refiner_count_key (le_bytes 8 (length (all_refiners refiners))) db"

definition save_refiners :: "'x storage_externs_scheme \<Rightarrow> refiner_set \<Rightarrow> db \<Rightarrow> (message + unit) \<times> db" where
  "save_refiners X refiners db =
     run_then (fold_while_ok (put_refiner X) (all_refiners refiners) db) (\<lambda>_ db1.
     run_then (put_active_ids X (STR ''Active set put failed: {}'') refiners db1) (\<lambda>_ db2.
     run_then (put_refiner_count X refiners db2) (\<lambda>_ db3.
     run_then (put_all_refiners X (STR ''Refiner put failed: {}'') refiners db3) (\<lambda>_ db4.
       case x_borsh_queue X (rs_queue refiners) of
         None \<Rightarrow> (Inl (db_err (STR ''Unbonding queue serialization failed: {}'')), db4)
       | Some d \<Rightarrow> db_put X (STR ''Unbonding queue put failed: {}'') unbonding_queue_key d db4))))"

text \<open>The dirty ids come in the iteration order of a hash set, here the order of a list.\<close>

definition save_dirty_refiners ::
  "'x storage_externs_scheme \<Rightarrow> refiner_set \<Rightarrow> object_id list \<Rightarrow> db \<Rightarrow> (message + unit) \<times> db" where
  "save_dirty_refiners X refiners dirty_ids db =
     run_then (fold_while_ok (\<lambda>i d. case get_refiner refiners i of
                  None \<Rightarrow> (Inr (), d) | Some v \<Rightarrow> put_refiner X v d) dirty_ids db) (\<lambda>_ db1.
     run_then (put_active_ids X (STR ''Active set index put failed: {}'') refiners db1) (\<lambda>_ db2.
     run_then (put_all_refiners X (STR ''Refiner blob put failed: {}'') refiners db2) (\<lambda>_ db3.
     put_refiner_count X refiners db3)))"

definition load_refiners :: "'x storage_externs_scheme \<Rightarrow> db \<Rightarrow> message + refiner_set" where
  "load_refiners X db =
     and_then (db_load X (STR ''Refiners'') (STR ''Refiner get failed: {}'') (STR ''Refiner deserialization failed: {}'')
         (x_unborsh_refiners X) all_refiners_key db) (\<lambda>refiners.
     and_then (db_load X (STR ''Unbonding queue'') (STR ''Unbonding queue get failed: {}'')
         (STR ''Unbonding queue deserialization failed: {}'') (x_unborsh_queue X) unbonding_queue_key db) (\<lambda>queue.
     Inr (load_from_refiners (case refiners of None \<Rightarrow> [] | Some v \<Rightarrow> v) (case queue of None \<Rightarrow> [] | Some q \<Rightarrow> q))))"

definition save_chain_state ::
  "'x storage_externs_scheme \<Rightarrow> persisted_chain_state \<Rightarrow> db \<Rightarrow> (message + unit) \<times> db" where
  "save_chain_state X state db =
     (case x_borsh_chain_state X state of
        None \<Rightarrow> (Inl (db_err (STR ''Chain state serialization failed: {}'')), db)
      | Some d \<Rightarrow> db_put X (STR ''Chain state put failed: {}'') chain_state_key d db)"

definition load_chain_state :: "'x storage_externs_scheme \<Rightarrow> db \<Rightarrow> message + persisted_chain_state option" where
  "load_chain_state X db =
     and_then (db_load X (STR ''Chain state'') (STR ''Chain state get failed: {}'')
         (STR ''Chain state deserialization failed: {}'') (x_unborsh_chain_state X) chain_state_key db)
       (\<lambda>r. case r of
              Some state \<Rightarrow> Inr (Some state)
            | None \<Rightarrow>
                and_then (latest_block_height X db) (\<lambda>h. case h of
                  Some height \<Rightarrow>
                    Inl (Fmt (STR ''Chain state missing while latest block height {} exists; database is partial or corrupt'')
                      [ANat height])
                | None \<Rightarrow> Inr None))"

definition has_state :: "'x storage_externs_scheme \<Rightarrow> db \<Rightarrow> message + bool" where
  "has_state X db = and_then (load_chain_state X db) (\<lambda>r. Inr (r \<noteq> None))"

section \<open>The atomic save of an applied block\<close>

text \<open>Serialization of every refiner while the batch is built.\<close>

fun refiner_puts :: "'x storage_externs_scheme \<Rightarrow> refiner_info list \<Rightarrow> message + db_batch" where
  "refiner_puts X [] = Inr []"
| "refiner_puts X (r # rs) =
     and_then (ok_or (x_borsh_refiner X r) (db_err (STR ''Refiner serialization failed: {}''))) (\<lambda>d.
     and_then (refiner_puts X rs) (\<lambda>b. Inr ((refiner_key X (ri_object_id r), encode_value X d) # b)))"

definition tx_puts :: "'x storage_externs_scheme \<Rightarrow> block \<Rightarrow> db_batch" where
  "tx_puts X b =
     map (\<lambda>(idx, tx). (tx_key X (tx_id tx), encode_value X (tx_index_value (bh_height (blk_header b)) idx)))
       (zip [0..<length (blk_transactions b)] (blk_transactions b))"

definition applied_block_batch ::
  "'x storage_externs_scheme \<Rightarrow> block \<Rightarrow> block_economic_receipt \<Rightarrow> persisted_chain_state \<Rightarrow> account_store \<Rightarrow>
   refiner_set \<Rightarrow> message + db_batch" where
  "applied_block_batch X b receipt state accounts refiners =
     (let height = bh_height (blk_header b); all_rs = all_refiners refiners;
          block_hash = compute_block_hash X (blk_header b) in
      and_then (ok_or (x_borsh_block X b) (db_err (STR ''Block serialization failed: {}''))) (\<lambda>block_data.
      and_then (ok_or (x_borsh_chain_state X state) (db_err (STR ''Chain state serialization failed: {}''))) (\<lambda>chain_data.
      and_then (ok_or (x_borsh_receipt X receipt) (db_err (STR ''Economic receipt serialization failed: {}''))) (\<lambda>receipt_data.
      and_then (ok_or (x_borsh_accounts X (all_accounts accounts)) (db_err (STR ''Account serialization failed: {}''))) (\<lambda>accounts_data.
      and_then (ok_or (x_borsh_refiners X all_rs) (db_err (STR ''Refiner serialization failed: {}''))) (\<lambda>all_refiners_data.
      and_then (ok_or (x_borsh_ids X (rs_active_set refiners)) (db_err (STR ''Active set serialization failed: {}''))) (\<lambda>active_data.
      and_then (ok_or (x_borsh_queue X (rs_queue refiners)) (db_err (STR ''Unbonding queue serialization failed: {}''))) (\<lambda>queue_data.
      and_then (refiner_puts X all_rs) (\<lambda>puts.
      Inr ([(height_key height, encode_value X block_data),
            (hash_key X block_hash, encode_value X (be_bytes 8 height)),
            (receipt_height_key height, encode_value X receipt_data),
            (receipt_hash_key X block_hash, encode_value X receipt_data),
            (latest_height_key, encode_value X (be_bytes 8 height)),
            (chain_state_key, encode_value X chain_data),
            (all_accounts_key, encode_value X accounts_data)] @
           tx_puts X b @ puts @
           [(active_ids_key, encode_value X active_data),
            (refiner_count_key, encode_value X (le_bytes 8 (length all_rs))),
            (all_refiners_key, encode_value X all_refiners_data),
            (unbonding_queue_key, encode_value X queue_data)]))))))))))"

definition save_applied_block_atomic ::
  "'x storage_externs_scheme \<Rightarrow> block \<Rightarrow> block_economic_receipt \<Rightarrow> persisted_chain_state \<Rightarrow> account_store \<Rightarrow>
   refiner_set \<Rightarrow> db \<Rightarrow> (message + unit) \<times> db" where
  "save_applied_block_atomic X b receipt state accounts refiners db =
     (case applied_block_batch X b receipt state accounts refiners of
        Inl e \<Rightarrow> (Inl e, db)
      | Inr batch \<Rightarrow> db_write X (STR ''Atomic block/state write failed: {}'') batch db)"

section \<open>Laws\<close>

text \<open>The checksum frame accepts exactly what it produces.\<close>

lemma decode_value_iff: "decode_value X ctx v = Inr p \<longleftrightarrow> v = encode_value X p"
proof
  assume "decode_value X ctx v = Inr p"
  then show "v = encode_value X p"
    by (auto simp: decode_value_def encode_value_def Let_def split: if_splits) (metis append_take_drop_id)
next
  assume "v = encode_value X p"
  then show "decode_value X ctx v = Inr p"
    by (simp add: decode_value_def encode_value_def VALUE_CHECKSUM_LEN_def Let_def)
qed

lemma decode_encode [simp]: "decode_value X ctx (encode_value X p) = Inr p"
  by (simp add: decode_value_iff)

text \<open>A batch, read at one key: the last entry for the key, or what was there.\<close>

lemma apply_batch_Cons: "apply_batch ((k, v) # b) db = apply_batch b (db(k \<mapsto> v))"
  by (simp add: apply_batch_def)

lemma apply_batch_append: "apply_batch (a @ b) db = apply_batch b (apply_batch a db)"
  by (simp add: apply_batch_def)

lemma apply_batch_notin: "k \<notin> fst ` set b \<Longrightarrow> apply_batch b db k = db k"
  by (induction b arbitrary: db) (auto simp: apply_batch_def)

lemma apply_batch_in:
  assumes "b = xs @ (k, v) # ys" and "k \<notin> fst ` set ys"
  shows "apply_batch b db k = Some v"
proof -
  have "apply_batch b db k = apply_batch ys ((apply_batch xs db)(k \<mapsto> v)) k"
    by (simp only: assms(1) apply_batch_append apply_batch_Cons)
  then show ?thesis using apply_batch_notin [OF assms(2)] by simp
qed

text \<open>A lookup of a stored payload.\<close>

lemma db_load_stored:
  assumes "\<not> x_db_get_fails X k" and "db k = Some (encode_value X d)" and "parse d = Some a"
  shows "db_load X ctx e1 e2 parse k db = Inr (Some a)"
  using assms by (simp add: db_load_def db_get_def)

end
