(* ===== verification/Refiner_Laws.thy ===== *)
theory Refiner_Laws
  imports Refiner
begin

text \<open>
  The laws of the refiner set: the well-formedness invariant with the coins in custody, the FIFO
  unbonding refinement, and what bonding, unbonding, maturing, activation, reranking and slashing
  do to both.
\<close>

section \<open>The integer square root\<close>

lemma refiner_sqrt_eq: "refiner_sqrt_floor = integer_sqrt_floor"
  by (rule ext) (simp only: refiner_sqrt_floor_def integer_sqrt_floor_def)

interpretation refiner_sqrt: isqrt_upto refiner_sqrt_floor U128_MAX
  unfolding refiner_sqrt_eq by (rule emission_sqrt.isqrt_upto_axioms)

section \<open>Custody and well-formedness\<close>

definition stake_sum :: "refiner_info \<Rightarrow> nat" where
  "stake_sum r = sum_list (map bd_stake (ri_entries r))"

definition queue_sum :: "pending_unbond list \<Rightarrow> nat" where
  "queue_sum q = sum_list (map pu_amount q)"

text \<open>The coins the refiner set holds: bonded stake and stake that waits to mature.\<close>

definition custody :: "refiner_set \<Rightarrow> nat" where
  "custody s = hm_total stake_sum (rs_refiners s) + queue_sum (rs_queue s)"

definition refiner_ok :: "object_id \<Rightarrow> refiner_info \<Rightarrow> bool" where
  "refiner_ok i r \<longleftrightarrow>
     ri_object_id r = i \<and> ri_status r \<noteq> StatusNone \<and>
     sorted_wrt (<) (map bd_timestamp (ri_entries r)) \<and>
     (if ri_status r = Slashed then stake_sum r = 0
      else (\<forall>e \<in> set (ri_entries r). 0 < bd_stake e) \<and> (ri_entries r = [] \<longleftrightarrow> ri_status r = Unbonding))"

definition registry_ok :: "(object_id, refiner_info) hash_map \<Rightarrow> bool" where
  "registry_ok m \<longleftrightarrow> hm_wf m \<and> (\<forall>i r. hm_get m i = Some r \<longrightarrow> refiner_ok i r)"

definition active_ok :: "(object_id, refiner_info) hash_map \<Rightarrow> object_id list \<Rightarrow> bool" where
  "active_ok m as \<longleftrightarrow> distinct as \<and>
     (\<forall>i. i \<in> set as \<longleftrightarrow> (\<exists>r. hm_get m i = Some r \<and> ri_status r = Active))"

definition refiners_wf :: "refiner_set \<Rightarrow> bool" where
  "refiners_wf s \<longleftrightarrow> registry_ok (rs_refiners s) \<and> active_ok (rs_refiners s) (rs_active_set s) \<and>
     custody s \<le> U64_MAX"

interpretation bonds: weighted_store hm_get hm_put hm_del hm_wf "hm_total stake_sum" stake_sum
  by unfold_locales
    (auto simp: hm_get_put hm_get_del hm_total_put_new hm_total_put_upd hm_total_del intro: wf_intros)

lemma registry_ok_get: "registry_ok m \<Longrightarrow> hm_get m i = Some r \<Longrightarrow> refiner_ok i r"
  by (simp add: registry_ok_def)

lemma registry_ok_put: "registry_ok m \<Longrightarrow> refiner_ok i r \<Longrightarrow> registry_ok (hm_put i r m)"
  by (auto simp: registry_ok_def hm_get_put intro: hm_wf_put)

lemma registry_ok_del: "registry_ok m \<Longrightarrow> registry_ok (hm_del i m)"
  by (auto simp: registry_ok_def hm_get_del intro: hm_wf_del)

lemma active_ok_put_same:
  "active_ok m as \<Longrightarrow> hm_get m i = Some r \<Longrightarrow> (ri_status r' = Active \<longleftrightarrow> ri_status r = Active) \<Longrightarrow>
   active_ok (hm_put i r' m) as"
  by (auto simp: active_ok_def hm_get_put)

lemma active_ok_put_inactive:
  "active_ok m as \<Longrightarrow> ri_status r' \<noteq> Active \<Longrightarrow>
   active_ok (hm_put i r' m) (filter (\<lambda>j. j \<noteq> i) as)"
  by (auto simp: active_ok_def hm_get_put)

lemma active_ok_put_new:
  "active_ok m as \<Longrightarrow> hm_get m i = None \<Longrightarrow> ri_status r' \<noteq> Active \<Longrightarrow> active_ok (hm_put i r' m) as"
  by (auto simp: active_ok_def hm_get_put)

lemma active_ok_put_active:
  "active_ok m as \<Longrightarrow> hm_get m i = Some r \<Longrightarrow> ri_status r \<noteq> Active \<Longrightarrow> ri_status r' = Active \<Longrightarrow>
   active_ok (hm_put i r' m) (as @ [i])"
  by (auto simp: active_ok_def hm_get_put)

lemma active_ok_del:
  "active_ok m as \<Longrightarrow> active_ok (hm_del i m) (filter (\<lambda>j. j \<noteq> i) as)"
  by (auto simp: active_ok_def hm_get_del)

lemma stake_le_custody: "hm_get (rs_refiners s) i = Some r \<Longrightarrow> stake_sum r \<le> custody s"
  using hm_total_ge [of "rs_refiners s" i r stake_sum] by (simp add: custody_def)

lemma total_stake_exact:
  "refiners_wf s \<Longrightarrow> hm_get (rs_refiners s) i = Some r \<Longrightarrow> total_stake r = stake_sum r"
  using stake_le_custody [of s i r]
  by (simp add: refiners_wf_def total_stake_def stake_sum_def wrap64_exact)

lemma refiners_wf_get:
  "refiners_wf s \<Longrightarrow> hm_get (rs_refiners s) i = Some r \<Longrightarrow> refiner_ok i r"
  unfolding refiners_wf_def by (blast intro: registry_ok_get)

lemma refiners_wf_new: "refiners_wf refiner_set_new"
  by (simp add: refiners_wf_def refiner_set_new_def registry_ok_def active_ok_def custody_def
      queue_sum_def hm_total_def)

lemma stake_sum_status [simp]:
  "stake_sum (r\<lparr>ri_status := x\<rparr>) = stake_sum r"
  "stake_sum (r\<lparr>ri_last_signed_height := y\<rparr>) = stake_sum r"
  "stake_sum (r\<lparr>ri_attestations := z\<rparr>) = stake_sum r"
  by (simp_all add: stake_sum_def)

lemma registry_stake_zero:
  assumes "refiner_ok i r" and "ri_status r = Unbonding \<or> ri_status r = Slashed"
  shows "stake_sum r = 0"
  using assms by (auto simp: refiner_ok_def stake_sum_def split: if_splits)

section \<open>FIFO unbonding\<close>

text \<open>The abstract first-in-first-out rule: oldest entries are used up before younger ones.\<close>

fun fifo_take :: "nat \<Rightarrow> bond_entry list \<Rightarrow> bond_entry list" where
  "fifo_take n [] = []"
| "fifo_take n (e # es) =
     (if n = 0 then e # es
      else if bd_stake e \<le> n then fifo_take (n - bd_stake e) es
      else e\<lparr>bd_stake := bd_stake e - n\<rparr> # es)"

lemma fifo_take_0 [simp]: "fifo_take 0 es = es"
  by (cases es) auto

lemma fifo_take_sum:
  "n \<le> sum_list (map bd_stake es) \<Longrightarrow>
   sum_list (map bd_stake (fifo_take n es)) + n = sum_list (map bd_stake es)"
proof (induction es arbitrary: n)
  case (Cons e es)
  show ?case
  proof (cases "bd_stake e \<le> n")
    case True
    have "sum_list (map bd_stake (fifo_take (n - bd_stake e) es)) + (n - bd_stake e)
        = sum_list (map bd_stake es)"
      using Cons.prems by (intro Cons.IH) simp
    with True show ?thesis by auto
  qed auto
qed simp

lemma fifo_take_positive:
  "\<forall>e \<in> set es. 0 < bd_stake e \<Longrightarrow> \<forall>e \<in> set (fifo_take n es). 0 < bd_stake e"
  by (induction es arbitrary: n) auto

lemma fifo_take_timestamps:
  "\<exists>k. map bd_timestamp (fifo_take n es) = drop k (map bd_timestamp es)"
proof (induction es arbitrary: n)
  case (Cons e es)
  obtain k where k: "map bd_timestamp (fifo_take (n - bd_stake e) es) = drop k (map bd_timestamp es)"
    using Cons.IH by blast
  show ?case
  proof (cases "n = 0 \<or> n < bd_stake e")
    case True
    then have "map bd_timestamp (fifo_take n (e # es)) = drop 0 (map bd_timestamp (e # es))"
      by auto
    then show ?thesis by blast
  next
    case False
    then have "map bd_timestamp (fifo_take n (e # es)) = drop (Suc k) (map bd_timestamp (e # es))"
      using k by simp
    then show ?thesis by blast
  qed
qed simp

lemma sorted_wrt_drop: "sorted_wrt P xs \<Longrightarrow> sorted_wrt P (drop k xs)"
  by (metis append_take_drop_id sorted_wrt_append)

lemma unbond_loop_fifo:
  assumes "consumed \<le> length es" and "remaining \<le> sum_list (map bd_stake (drop consumed es))"
  shows "\<exists>c es'. unbond_loop remaining consumed es = Some (0, c, es') \<and>
           drop c es' = fifo_take remaining (drop consumed es)"
  using assms
proof (induction remaining consumed es rule: unbond_loop.induct)
  case (1 remaining consumed es)
  show ?case
  proof (cases "remaining = 0")
    case True
    then show ?thesis by (simp add: unbond_loop.simps [of 0])
  next
    case False
    with "1.prems" have lt: "consumed < length es"
      by (cases "consumed = length es") auto
    then have drop: "drop consumed es = es ! consumed # drop (Suc consumed) es"
      by (simp add: Cons_nth_drop_Suc)
    have ne: "es \<noteq> []" using lt by auto
    have cond: "0 < remaining \<and> es \<noteq> []" using False ne by simp
    show ?thesis
    proof (cases "bd_stake (es ! consumed) \<le> remaining")
      case True
      have "\<exists>c es'. unbond_loop (remaining - bd_stake (es ! consumed)) (consumed + 1) es = Some (0, c, es') \<and>
          drop c es' = fifo_take (remaining - bd_stake (es ! consumed)) (drop (consumed + 1) es)"
        using "1.IH"(1) [OF cond _ refl True] lt "1.prems"(2) drop by simp
      then show ?thesis
        using True False lt ne drop by (simp add: unbond_loop.simps [of remaining])
    next
      case gt: False
      let ?es = "es[consumed := (es ! consumed)\<lparr>bd_stake := bd_stake (es ! consumed) - remaining\<rparr>]"
      have "unbond_loop remaining consumed es = Some (0, consumed, ?es)"
        using gt False lt ne
        by (simp add: unbond_loop.simps [of remaining] unbond_loop.simps [of 0] Let_def)
      moreover have "drop consumed ?es =
          (es ! consumed)\<lparr>bd_stake := bd_stake (es ! consumed) - remaining\<rparr> # drop (Suc consumed) es"
        using lt by (simp add: drop_update_swap drop)
      ultimately show ?thesis using gt False drop by simp
    qed
  qed
qed

lemma unbond_fifo_spec:
  assumes "amount \<le> stake_sum r"
  shows "unbond_fifo amount r = Some (amount, r\<lparr>ri_entries := fifo_take amount (ri_entries r)\<rparr>)"
proof -
  obtain c es' where "unbond_loop amount 0 (ri_entries r) = Some (0, c, es')"
    and "drop c es' = fifo_take amount (ri_entries r)"
    using unbond_loop_fifo [of 0 "ri_entries r" amount] assms by (auto simp: stake_sum_def)
  then show ?thesis by (simp add: unbond_fifo_def sat_sub_def)
qed

section \<open>Bonding\<close>

lemma refiner_ok_new:
  "0 < stake \<Longrightarrow> refiner_ok i (refiner_new i stake h ts)"
  by (simp add: refiner_ok_def refiner_new_def)

lemma stake_sum_new [simp]: "stake_sum (refiner_new i stake h ts) = stake"
  by (simp add: stake_sum_def refiner_new_def)

lemma minimum_bond_stake_pos: "0 < minimum_bond_stake issued"
proof -
  have "1 \<le> max (refiner_sqrt_floor (issued div FLAKES_PER_OPL)) 1" by (rule max.cobounded2)
  then show ?thesis
    by (simp add: minimum_bond_stake_def Let_def sat_mul128_def U64_MAX_def U128_MAX_def
        FLAKES_PER_OPL_def)
qed

lemma map_update_timestamp:
  "map bd_timestamp (es[i := (es ! i)\<lparr>bd_stake := b\<rparr>]) = map bd_timestamp es"
  by (metis (no_types, lifting) bond_entry.select_convs(3) bond_entry.surjective
      bond_entry.update_convs(1) list_update_id map_update nth_list_update_eq)

lemma insert_at_sorted:
  fixes f :: "'a \<Rightarrow> nat"
  assumes "sorted_wrt (<) (map f xs)" and "\<forall>x \<in> set xs. f x \<noteq> f y"
    and "p = (case position (\<lambda>x. f y < f x) xs of None \<Rightarrow> length xs | Some i \<Rightarrow> i)"
  shows "sorted_wrt (<) (map f (insert_at p y xs))"
proof -
  have le: "p \<le> length xs"
    using assms(3) position_Some [of "\<lambda>x. f y < f x" xs] by (auto split: option.splits intro: less_imp_le)
  have before: "\<forall>x \<in> set (take p xs). f x < f y"
  proof
    fix x assume "x \<in> set (take p xs)"
    then obtain j where j: "j < p" "x = xs ! j" "j < length xs"
      using le by (auto simp: in_set_conv_nth)
    then have "\<not> f y < f (xs ! j)"
      using assms(3) position_Some [of "\<lambda>x. f y < f x" xs p] position_None [of "\<lambda>x. f y < f x" xs]
      by (auto split: option.splits)
    moreover have "f (xs ! j) \<noteq> f y" using assms(2) j(3) by simp
    ultimately show "f x < f y" using j(2) by simp
  qed
  have after: "\<forall>x \<in> set (drop p xs). f y < f x"
  proof (cases "position (\<lambda>x. f y < f x) xs")
    case None
    then show ?thesis using assms(3) by simp
  next
    case (Some i)
    then have p: "p = i" "p < length xs" "f y < f (xs ! p)"
      using assms(3) position_Some [OF Some] by simp_all
    then have "drop p xs = xs ! p # drop (Suc p) xs" by (simp add: Cons_nth_drop_Suc)
    moreover have "sorted_wrt (<) (map f (drop p xs))"
      using assms(1) sorted_wrt_drop by (simp add: drop_map [symmetric])
    ultimately show ?thesis using p(3) by auto
  qed
  have "sorted_wrt (<) (map f (take p xs) @ map f (drop p xs))"
    using assms(1) by (metis append_take_drop_id map_append)
  then show ?thesis using before after
    by (auto simp: insert_at_def sorted_wrt_append)
qed

lemma add_entry_ok:
  assumes run: "add_entry stake h ts r = (Inr u, r')"
  shows "stake_sum r' = stake_sum r + stake" and "ri_object_id r' = ri_object_id r"
    and "ri_status r' = ri_status r" and "ri_entries r' \<noteq> []"
    and "0 < stake \<Longrightarrow> \<forall>e \<in> set (ri_entries r). 0 < bd_stake e \<Longrightarrow> \<forall>e \<in> set (ri_entries r'). 0 < bd_stake e"
    and "sorted_wrt (<) (map bd_timestamp (ri_entries r)) \<Longrightarrow> sorted_wrt (<) (map bd_timestamp (ri_entries r'))"
proof -
  let ?es = "ri_entries r"
  have "stake_sum r' = stake_sum r + stake \<and> ri_object_id r' = ri_object_id r \<and>
    ri_status r' = ri_status r \<and> ri_entries r' \<noteq> [] \<and>
    (0 < stake \<longrightarrow> (\<forall>e \<in> set (ri_entries r). 0 < bd_stake e) \<longrightarrow> (\<forall>e \<in> set (ri_entries r'). 0 < bd_stake e)) \<and>
    (sorted_wrt (<) (map bd_timestamp (ri_entries r)) \<longrightarrow> sorted_wrt (<) (map bd_timestamp (ri_entries r')))"
  proof (cases "position (\<lambda>e. bd_timestamp e = ts) ?es")
    case (Some i)
    have i: "i < length ?es" using position_Some [OF Some] by simp
    let ?e = "(?es ! i)\<lparr>bd_stake := bd_stake (?es ! i) + stake\<rparr>"
    have r': "r' = r\<lparr>ri_entries := ?es[i := ?e]\<rparr>"
      using run Some by (auto simp: add_entry_def Let_def checked_add64_def split: option.splits if_splits)
    have "sum_list (map bd_stake (?es[i := ?e])) = sum_list (map bd_stake ?es) + stake"
      using sum_list_update_add [OF i, of bd_stake ?e] by simp
    moreover have "(\<forall>e \<in> set (?es[i := ?e]). 0 < bd_stake e)" if "0 < stake" "\<forall>e \<in> set ?es. 0 < bd_stake e"
      using that i by (auto dest!: set_update_subset_insert [THEN subsetD])
    moreover have "?es[i := ?e] \<noteq> []" using i by (metis length_list_update list.size(3) not_less_zero)
    ultimately show ?thesis using map_update_timestamp [of ?es i] by (simp add: r' stake_sum_def)
  next
    case None
    let ?e = "\<lparr> bd_stake = stake, bd_height = h, bd_timestamp = ts \<rparr>"
    let ?p = "case position (\<lambda>e. ts < bd_timestamp e) ?es of None \<Rightarrow> length ?es | Some i \<Rightarrow> i"
    have r': "r' = r\<lparr>ri_entries := insert_at ?p ?e ?es\<rparr>"
      using run None by (simp add: add_entry_def Let_def)
    have "\<forall>x \<in> set ?es. bd_timestamp x \<noteq> bd_timestamp ?e"
      using None by (simp add: position_None)
    then have "sorted_wrt (<) (map bd_timestamp (insert_at ?p ?e ?es))"
      if "sorted_wrt (<) (map bd_timestamp ?es)"
      using that insert_at_sorted [of bd_timestamp ?es ?e ?p] by simp
    moreover have "insert_at ?p ?e ?es \<noteq> []" by (simp add: insert_at_def)
    ultimately show ?thesis
      by (auto simp: r' stake_sum_def sum_list_insert_at set_insert_at)
  qed
  then show "stake_sum r' = stake_sum r + stake" and "ri_object_id r' = ri_object_id r"
    and "ri_status r' = ri_status r" and "ri_entries r' \<noteq> []"
    and "0 < stake \<Longrightarrow> \<forall>e \<in> set (ri_entries r). 0 < bd_stake e \<Longrightarrow> \<forall>e \<in> set (ri_entries r'). 0 < bd_stake e"
    and "sorted_wrt (<) (map bd_timestamp (ri_entries r)) \<Longrightarrow> sorted_wrt (<) (map bd_timestamp (ri_entries r'))"
    by blast+
qed

lemma add_entry_err: "add_entry stake h ts r = (Inl e, r') \<Longrightarrow> r' = r"
  by (auto simp: add_entry_def Let_def split: option.splits)

lemma bond_err:
  assumes "bond i stake h ts issued s = (Inl e, t)"
  shows "t = s"
  using assms
  by (auto simp: bond_def Let_def hm_put_same split: if_splits option.splits prod.splits sum.splits
      dest!: add_entry_err)

text \<open>What a successful bond does.\<close>

lemma bond_cases:
  assumes run: "bond i stake h ts issued s = (Inr u, t)"
  obtains (fresh) "hm_get (rs_refiners s) i = None"
      and "t = s\<lparr>rs_refiners := hm_put i (refiner_new i stake h ts) (rs_refiners s), rs_dirty := insert i (rs_dirty s)\<rparr>"
      and "minimum_bond_stake issued \<le> stake"
    | (topup) r r' where "hm_get (rs_refiners s) i = Some r" and "ri_status r \<noteq> Slashed"
      and "add_entry stake h ts r = (Inr (), r')"
      and "t = s\<lparr>rs_refiners := hm_put i (if ri_status r' = Unbonding then r'\<lparr>ri_status := Bonding\<rparr> else r') (rs_refiners s),
                 rs_dirty := insert i (rs_dirty s)\<rparr>"
      and "minimum_bond_stake issued \<le> stake"
proof -
  have min: "minimum_bond_stake issued \<le> stake"
    using run by (auto simp: bond_def Let_def not_less split: if_splits)
  show thesis
  proof (cases "hm_get (rs_refiners s) i")
    case None
    then show thesis using run fresh min by (auto simp: bond_def Let_def split: if_splits)
  next
    case (Some r)
    then have ns: "ri_status r \<noteq> Slashed" using run by (auto simp: bond_def Let_def split: if_splits)
    obtain a r' where ae: "add_entry stake h ts r = (a, r')" by (cases "add_entry stake h ts r")
    show thesis
    proof (cases a)
      case (Inl e)
      then show thesis using run ae Some ns min by (simp add: bond_def Let_def)
    next
      case (Inr x)
      then show thesis using topup [OF Some ns, of r'] ae run ns min Some by (simp add: bond_def Let_def)
    qed
  qed
qed

lemma bond_custody:
  assumes "bond i stake h ts issued s = (Inr u, t)"
  shows "custody t = custody s + stake"
  using assms
proof (cases rule: bond_cases)
  case fresh
  then show ?thesis by (simp add: custody_def bonds.total_put_new)
next
  case (topup r r')
  let ?r = "if ri_status r' = Unbonding then r'\<lparr>ri_status := Bonding\<rparr> else r'"
  have "stake_sum ?r = stake_sum r + stake" using add_entry_ok(1) [OF topup(3)] by simp
  then have "hm_total stake_sum (hm_put i ?r (rs_refiners s)) = hm_total stake_sum (rs_refiners s) + stake"
    by (rule bonds.total_give [OF topup(1)])
  then show ?thesis using topup(4) by (simp add: custody_def)
qed

lemma bond_wf [wf_intros]:
  assumes wf: "refiners_wf s" and run: "bond i stake h ts issued s = (r, t)"
    and fit: "custody s + stake \<le> U64_MAX"
  shows "refiners_wf t"
proof (cases r)
  case (Inl e)
  with run have "t = s" using bond_err by blast
  with wf show ?thesis by simp
next
  case (Inr u)
  with run have run: "bond i stake h ts issued s = (Inr u, t)" by simp
  from wf have reg: "registry_ok (rs_refiners s)" and act: "active_ok (rs_refiners s) (rs_active_set s)"
    by (simp_all add: refiners_wf_def)
  have cust: "custody t \<le> U64_MAX" using bond_custody [OF run] fit by simp
  from run show ?thesis
  proof (cases rule: bond_cases)
    case fresh
    have pos: "0 < stake" using fresh(3) minimum_bond_stake_pos [of issued] by simp
    have st: "ri_status (refiner_new i stake h ts) \<noteq> Active" by (simp add: refiner_new_def)
    show ?thesis
      using registry_ok_put [OF reg refiner_ok_new [OF pos]] active_ok_put_new [OF act fresh(1) st] cust
      by (simp add: fresh(2) refiners_wf_def)
  next
    case (topup r0 r')
    have pos: "0 < stake" using topup(5) minimum_bond_stake_pos [of issued] by simp
    let ?r = "if ri_status r' = Unbonding then r'\<lparr>ri_status := Bonding\<rparr> else r'"
    have r0: "refiner_ok i r0" using reg topup(1) by (rule registry_ok_get)
    note ae = add_entry_ok [OF topup(3)]
    have ok: "refiner_ok i ?r"
      using r0 topup(2) ae pos by (auto simp: refiner_ok_def)
    have st: "ri_status ?r = Active \<longleftrightarrow> ri_status r0 = Active" using ae(3) by simp
    show ?thesis
      using registry_ok_put [OF reg ok] active_ok_put_same [OF act topup(1) st] cust
      by (simp add: topup(4) refiners_wf_def)
  qed
qed

section \<open>Unbonding\<close>

text \<open>The refiner an unbonding leaves behind, by the abstract FIFO rule.\<close>

definition after_unbond :: "nat \<Rightarrow> refiner_info \<Rightarrow> refiner_info" where
  "after_unbond amount r =
     r\<lparr>ri_entries := fifo_take amount (ri_entries r),
       ri_status := (if fifo_take amount (ri_entries r) = [] then Unbonding else ri_status r)\<rparr>"

definition unbond_ready :: "refiner_set \<Rightarrow> object_id \<Rightarrow> nat \<Rightarrow> refiner_info \<Rightarrow> bool" where
  "unbond_ready s i amount r \<longleftrightarrow>
     hm_get (rs_refiners s) i = Some r \<and> 0 < amount \<and> amount \<le> stake_sum r"

definition unbond_result :: "refiner_set \<Rightarrow> object_id \<Rightarrow> nat \<Rightarrow> nat \<Rightarrow> refiner_info \<Rightarrow> refiner_set" where
  "unbond_result s i amount h r =
     s\<lparr>rs_refiners := hm_put i (after_unbond amount r) (rs_refiners s),
       rs_active_set := (if fifo_take amount (ri_entries r) = []
                         then filter (\<lambda>j. j \<noteq> i) (rs_active_set s) else rs_active_set s),
       rs_dirty := insert i (rs_dirty s),
       rs_queue := rs_queue s @ [\<lparr> pu_account = i, pu_amount = amount, pu_matures_at = sat_add64 h EPOCH \<rparr>]\<rparr>"

lemma unbond_amount_ready:
  assumes wf: "refiners_wf s" and ready: "unbond_ready s i amount r"
  shows "unbond_amount i amount h s = (Inr amount, unbond_result s i amount h r)"
proof -
  have get: "hm_get (rs_refiners s) i = Some r" and pos: "0 < amount" and le: "amount \<le> stake_sum r"
    using ready by (simp_all add: unbond_ready_def)
  have ts: "total_stake r = stake_sum r" using wf get by (rule total_stake_exact)
  have nz: "(stake_sum r = 0) = False" "(amount = 0) = False" "(stake_sum r < amount) = False"
    using pos le by auto
  show ?thesis
    unfolding unbond_amount_def Let_def get option.case ts nz if_False unbond_fifo_spec [OF le] prod.case
    by (simp add: unbond_result_def after_unbond_def)
qed

lemma unbond_amount_not_ready:
  assumes wf: "refiners_wf s" and not: "\<nexists>r. unbond_ready s i amount r"
  shows "\<exists>e. unbond_amount i amount h s = (Inl e, s)"
proof (cases "hm_get (rs_refiners s) i")
  case None
  then show ?thesis by (simp add: unbond_amount_def)
next
  case (Some r)
  have ts: "total_stake r = stake_sum r" using wf Some by (rule total_stake_exact)
  have "stake_sum r < amount \<or> amount = 0" using not Some by (auto simp: unbond_ready_def not_le)
  then show ?thesis using Some ts by (auto simp: unbond_amount_def Let_def)
qed

lemma after_unbond_stake: "amount \<le> stake_sum r \<Longrightarrow> stake_sum r = stake_sum (after_unbond amount r) + amount"
  using fifo_take_sum [of amount "ri_entries r"] by (simp add: stake_sum_def after_unbond_def)

lemma after_unbond_ok:
  assumes ok: "refiner_ok i r" and pos: "0 < amount" and le: "amount \<le> stake_sum r"
  shows "refiner_ok i (after_unbond amount r)"
proof -
  have "0 < stake_sum r" using pos le by simp
  then have ns: "ri_status r \<noteq> Slashed" "ri_entries r \<noteq> []"
    using ok by (auto simp: refiner_ok_def) (simp add: stake_sum_def)
  have st: "ri_status r \<noteq> Unbonding" "ri_status r \<noteq> StatusNone" "ri_object_id r = i"
    using ok ns by (auto simp: refiner_ok_def)
  have all: "\<forall>e \<in> set (ri_entries r). 0 < bd_stake e"
    and sorted: "sorted_wrt (<) (map bd_timestamp (ri_entries r))"
    using ok ns by (auto simp: refiner_ok_def)
  have "\<forall>e \<in> set (fifo_take amount (ri_entries r)). 0 < bd_stake e"
    using all by (rule fifo_take_positive)
  moreover have "sorted_wrt (<) (map bd_timestamp (fifo_take amount (ri_entries r)))"
    using sorted fifo_take_timestamps [of amount "ri_entries r"] by (auto simp: sorted_wrt_drop)
  ultimately show ?thesis using ns st by (auto simp: refiner_ok_def after_unbond_def)
qed

lemma queue_sum_append [simp]: "queue_sum (q @ q') = queue_sum q + queue_sum q'"
  by (simp add: queue_sum_def)

lemma queue_sum_Cons [simp]: "queue_sum (e # q) = pu_amount e + queue_sum q" "queue_sum [] = 0"
  by (simp_all add: queue_sum_def)

lemma unbond_result_custody:
  assumes "unbond_ready s i amount r"
  shows "custody (unbond_result s i amount h r) = custody s"
proof -
  have get: "hm_get (rs_refiners s) i = Some r" and le: "amount \<le> stake_sum r"
    using assms by (simp_all add: unbond_ready_def)
  have "hm_total stake_sum (rs_refiners s)
      = hm_total stake_sum (hm_put i (after_unbond amount r) (rs_refiners s)) + amount"
    using get after_unbond_stake [OF le] by (rule bonds.total_take)
  then show ?thesis by (simp add: custody_def unbond_result_def)
qed

lemma unbond_result_wf:
  assumes wf: "refiners_wf s" and ready: "unbond_ready s i amount r"
  shows "refiners_wf (unbond_result s i amount h r)"
proof -
  have get: "hm_get (rs_refiners s) i = Some r" and pos: "0 < amount" and le: "amount \<le> stake_sum r"
    using ready by (simp_all add: unbond_ready_def)
  have reg: "registry_ok (rs_refiners s)" and act: "active_ok (rs_refiners s) (rs_active_set s)"
    using wf by (simp_all add: refiners_wf_def)
  have ok: "refiner_ok i (after_unbond amount r)"
    using registry_ok_get [OF reg get] pos le by (rule after_unbond_ok)
  have act': "active_ok (hm_put i (after_unbond amount r) (rs_refiners s))
      (if fifo_take amount (ri_entries r) = [] then filter (\<lambda>j. j \<noteq> i) (rs_active_set s) else rs_active_set s)"
  proof (cases "fifo_take amount (ri_entries r) = []")
    case True
    then have "ri_status (after_unbond amount r) \<noteq> Active" by (simp add: after_unbond_def)
    from active_ok_put_inactive [OF act this] True show ?thesis by simp
  next
    case False
    then have "ri_status (after_unbond amount r) = Active \<longleftrightarrow> ri_status r = Active"
      by (simp add: after_unbond_def)
    from active_ok_put_same [OF act get this] False show ?thesis by simp
  qed
  have "custody (unbond_result s i amount h r) \<le> U64_MAX"
    using unbond_result_custody [OF ready] wf by (simp add: refiners_wf_def)
  with registry_ok_put [OF reg ok] act' show ?thesis
    by (simp add: refiners_wf_def unbond_result_def)
qed

lemma unbond_amount_result:
  assumes "refiners_wf s" and "unbond_amount i amount h s = (res, t)"
  shows "(\<exists>r. unbond_ready s i amount r \<and> res = Inr amount \<and> t = unbond_result s i amount h r)
       \<or> ((\<nexists>r. unbond_ready s i amount r) \<and> (\<exists>e. res = Inl e) \<and> t = s)"
proof (cases "\<exists>r. unbond_ready s i amount r")
  case True
  then obtain r where r: "unbond_ready s i amount r" by blast
  from unbond_amount_ready [OF assms(1) r, of h] assms(2) r show ?thesis by auto
next
  case False
  from unbond_amount_not_ready [OF assms(1) False, of h] assms(2) False show ?thesis by auto
qed

lemma unbond_amount_custody:
  "refiners_wf s \<Longrightarrow> unbond_amount i amount h s = (res, t) \<Longrightarrow> custody t = custody s"
  using unbond_amount_result [of s i amount h res t] unbond_result_custody by metis

lemma unbond_amount_wf [wf_intros]:
  "refiners_wf s \<Longrightarrow> unbond_amount i amount h s = (res, t) \<Longrightarrow> refiners_wf t"
  using unbond_amount_result [of s i amount h res t] unbond_result_wf by metis

section \<open>Maturing\<close>

lemma remove_if_done_queue [simp]: "rs_queue (remove_if_done i s) = rs_queue s"
  by (simp add: remove_if_done_def Let_def)

lemma remove_if_done_law:
  assumes wf: "refiners_wf s"
  shows "refiners_wf (remove_if_done i s)" and "custody (remove_if_done i s) = custody s"
proof -
  have "refiners_wf (remove_if_done i s) \<and> custody (remove_if_done i s) = custody s"
  proof (cases "\<exists>r. hm_get (rs_refiners s) i = Some r \<and> ri_status r = Unbonding \<and> total_stake r = 0 \<and>
      \<not> (\<exists>e \<in> set (rs_queue s). pu_account e = i)")
    case True
    then obtain r where r: "hm_get (rs_refiners s) i = Some r" "ri_status r = Unbonding" by blast
    have t: "remove_if_done i s = s\<lparr>rs_refiners := hm_del i (rs_refiners s),
        rs_active_set := filter (\<lambda>j. j \<noteq> i) (rs_active_set s)\<rparr>"
      using True by (auto simp: remove_if_done_def Let_def)
    have reg: "registry_ok (rs_refiners s)" and act: "active_ok (rs_refiners s) (rs_active_set s)"
      using wf by (simp_all add: refiners_wf_def)
    have "stake_sum r = 0"
      using registry_ok_get [OF reg r(1)] r(2) by (blast intro: registry_stake_zero)
    moreover have "hm_total stake_sum (hm_del i (rs_refiners s)) + stake_sum r = hm_total stake_sum (rs_refiners s)"
      using reg r(1) by (intro bonds.total_del) (simp_all add: registry_ok_def)
    ultimately have "custody (remove_if_done i s) = custody s" by (simp add: t custody_def)
    moreover from this wf registry_ok_del [OF reg] active_ok_del [OF act] have "refiners_wf (remove_if_done i s)"
      by (simp add: t refiners_wf_def)
    ultimately show ?thesis by simp
  next
    case False
    then have "remove_if_done i s = s"
      by (auto simp: remove_if_done_def Let_def split: option.splits)
    with wf show ?thesis by simp
  qed
  then show "refiners_wf (remove_if_done i s)" and "custody (remove_if_done i s) = custody s" by blast+
qed

lemma remove_all_done_law:
  assumes "refiners_wf s"
  shows "refiners_wf (fold (\<lambda>m t. remove_if_done (fst m) t) ms s) \<and>
    custody (fold (\<lambda>m t. remove_if_done (fst m) t) ms s) = custody s \<and>
    rs_queue (fold (\<lambda>m t. remove_if_done (fst m) t) ms s) = rs_queue s"
  using assms
  by (induction ms arbitrary: s) (simp_all add: remove_if_done_law)

lemma process_matured_law:
  assumes wf: "refiners_wf s" and run: "process_matured_unbonds h s = (ms, t)"
  shows "ms = matured_unbonds h s"
    and "custody s = custody t + sum_list (map snd ms)"
    and "refiners_wf t"
    and "rs_queue t = filter (\<lambda>e. \<not> pu_matures_at e \<le> h) (rs_queue s)"
proof -
  let ?rest = "filter (\<lambda>e. \<not> pu_matures_at e \<le> h) (rs_queue s)"
  let ?s1 = "s\<lparr>rs_queue := ?rest\<rparr>"
  have ms: "ms = matured_unbonds h s"
    and t: "t = fold (\<lambda>m t. remove_if_done (fst m) t) ms ?s1"
    using run by (auto simp: process_matured_unbonds_def matured_unbonds_def Let_def)
  have "queue_sum (filter (\<lambda>e. pu_matures_at e \<le> h) (rs_queue s)) + queue_sum ?rest = queue_sum (rs_queue s)"
    unfolding queue_sum_def by (rule sum_list_filter_split)
  moreover have "sum_list (map snd ms) = queue_sum (filter (\<lambda>e. pu_matures_at e \<le> h) (rs_queue s))"
    by (simp add: ms matured_unbonds_def queue_sum_def comp_def)
  ultimately have q: "queue_sum (rs_queue s) = queue_sum ?rest + sum_list (map snd ms)" by simp
  have wf1: "refiners_wf ?s1" using wf q by (simp add: refiners_wf_def custody_def)
  have law: "refiners_wf t \<and> custody t = custody ?s1 \<and> rs_queue t = ?rest"
    unfolding t using remove_all_done_law [OF wf1, of ms] by simp
  show "ms = matured_unbonds h s" by (rule ms)
  have "custody ?s1 = hm_total stake_sum (rs_refiners s) + queue_sum ?rest"
    and "custody s = hm_total stake_sum (rs_refiners s) + queue_sum (rs_queue s)"
    by (simp_all add: custody_def)
  with law q show "custody s = custody t + sum_list (map snd ms)" by linarith
  show "refiners_wf t" and "rs_queue t = filter (\<lambda>e. \<not> pu_matures_at e \<le> h) (rs_queue s)"
    using law by blast+
qed

section \<open>Slashing\<close>

definition pending_of :: "object_id \<Rightarrow> pending_unbond list \<Rightarrow> nat" where
  "pending_of i q = queue_sum (filter (\<lambda>e. pu_account e = i) q)"

definition slashed_refiner :: "refiner_info \<Rightarrow> refiner_info" where
  "slashed_refiner r = r\<lparr>ri_status := Slashed, ri_entries := map (\<lambda>e. e\<lparr>bd_stake := 0\<rparr>) (ri_entries r)\<rparr>"

lemma pending_fold:
  "b + pending_of i q \<le> U64_MAX \<Longrightarrow>
   fold (\<lambda>e b. if pu_account e = i then sat_add64 b (pu_amount e) else b) q b = b + pending_of i q"
  by (induction q arbitrary: b) (auto simp: pending_of_def sat_add64_exact)

lemma pending_split:
  "pending_of i q + queue_sum (filter (\<lambda>e. pu_account e \<noteq> i) q) = queue_sum q"
  unfolding pending_of_def queue_sum_def by (rule sum_list_filter_split)

lemma slashed_refiner_ok: "refiner_ok i r \<Longrightarrow> refiner_ok i (slashed_refiner r)"
  by (auto simp: refiner_ok_def slashed_refiner_def stake_sum_def comp_def)

lemma slashed_stake [simp]: "stake_sum (slashed_refiner r) = 0" "ri_status (slashed_refiner r) = Slashed"
  by (auto simp: stake_sum_def slashed_refiner_def comp_def)

text \<open>The exact effect of slashing on a well-formed set, by the state of the refiner.\<close>

lemma slash_exact:
  fixes i :: object_id
  assumes wf: "refiners_wf s"
  defines "q \<equiv> filter (\<lambda>e. pu_account e \<noteq> i) (rs_queue s)"
  shows "slash_refiner i h s =
    (case hm_get (rs_refiners s) i of
       None \<Rightarrow> if 0 < pending_of i (rs_queue s) then (Inr (pending_of i (rs_queue s)), s\<lparr>rs_queue := q\<rparr>)
               else (Inl (Fmt (STR ''Refiner not found'') []), s\<lparr>rs_queue := q\<rparr>)
     | Some r \<Rightarrow>
         if ri_status r = Slashed then (Inr (pending_of i (rs_queue s)), s\<lparr>rs_queue := q\<rparr>)
         else (Inr (stake_sum r + pending_of i (rs_queue s)),
               s\<lparr>rs_queue := q, rs_refiners := hm_put i (slashed_refiner r) (rs_refiners s),
                 rs_active_set := filter (\<lambda>j. j \<noteq> i) (rs_active_set s), rs_dirty := insert i (rs_dirty s)\<rparr>))"
proof -
  have "queue_sum (rs_queue s) \<le> U64_MAX" using wf by (simp add: refiners_wf_def custody_def)
  then have "0 + pending_of i (rs_queue s) \<le> U64_MAX" using pending_split [of i "rs_queue s"] by linarith
  from pending_fold [OF this]
  have pend: "fold (\<lambda>e b. if pu_account e = i then sat_add64 b (pu_amount e) else b) (rs_queue s) 0
    = pending_of i (rs_queue s)" by simp
  show ?thesis
  proof (cases "hm_get (rs_refiners s) i")
    case None
    then show ?thesis by (simp add: slash_refiner_def pend q_def Let_def)
  next
    case (Some r)
    have ts: "total_stake r = stake_sum r" using wf Some by (rule total_stake_exact)
    have "stake_sum r + pending_of i (rs_queue s) \<le> U64_MAX"
      using wf hm_total_ge [OF Some, of stake_sum] pending_split [of i "rs_queue s"]
      by (simp add: refiners_wf_def custody_def)
    then have burn: "sat_add64 (total_stake r) (pending_of i (rs_queue s)) = stake_sum r + pending_of i (rs_queue s)"
      by (simp add: ts sat_add64_exact)
    show ?thesis
    proof (cases "ri_status r = Slashed")
      case True
      with Some show ?thesis by (simp add: slash_refiner_def pend q_def Let_def)
    next
      case False
      with Some burn show ?thesis by (simp add: slash_refiner_def pend q_def Let_def slashed_refiner_def)
    qed
  qed
qed

lemma drop_queue_wf:
  assumes "refiners_wf s"
  shows "refiners_wf (s\<lparr>rs_queue := filter P (rs_queue s)\<rparr>)"
proof -
  have "queue_sum (filter P (rs_queue s)) \<le> queue_sum (rs_queue s)"
    unfolding queue_sum_def using sum_list_filter_split [of pu_amount P "rs_queue s"] by linarith
  with assms show ?thesis by (simp add: refiners_wf_def custody_def)
qed

lemma slash_law:
  assumes wf: "refiners_wf s" and run: "slash_refiner i h s = (res, t)"
  shows "custody s = custody t + (case res of Inl _ \<Rightarrow> 0 | Inr burn \<Rightarrow> burn)"
    and "refiners_wf t"
    and "\<forall>e \<in> set (rs_queue t). pu_account e \<noteq> i"
    and "hm_get (rs_refiners t) i =
      map_option (\<lambda>r. if ri_status r = Slashed then r else slashed_refiner r) (hm_get (rs_refiners s) i)"
    and "j \<noteq> i \<Longrightarrow> hm_get (rs_refiners t) j = hm_get (rs_refiners s) j"
    and "is_ok res \<longleftrightarrow> hm_get (rs_refiners s) i \<noteq> None \<or> 0 < pending_of i (rs_queue s)"
proof -
  let ?q = "filter (\<lambda>e. pu_account e \<noteq> i) (rs_queue s)"
  note wfq = drop_queue_wf [OF wf, of "\<lambda>e. pu_account e \<noteq> i"]
  have split: "pending_of i (rs_queue s) + queue_sum ?q = queue_sum (rs_queue s)" by (rule pending_split)
  have "custody s = custody t + (case res of Inl _ \<Rightarrow> 0 | Inr burn \<Rightarrow> burn) \<and> refiners_wf t \<and>
    (\<forall>e \<in> set (rs_queue t). pu_account e \<noteq> i) \<and>
    hm_get (rs_refiners t) i =
      map_option (\<lambda>r. if ri_status r = Slashed then r else slashed_refiner r) (hm_get (rs_refiners s) i) \<and>
    (j \<noteq> i \<longrightarrow> hm_get (rs_refiners t) j = hm_get (rs_refiners s) j) \<and>
    (is_ok res \<longleftrightarrow> hm_get (rs_refiners s) i \<noteq> None \<or> 0 < pending_of i (rs_queue s))"
  proof (cases "hm_get (rs_refiners s) i")
    case None
    then show ?thesis using run wfq split
      by (cases "0 < pending_of i (rs_queue s)") (auto simp: slash_exact [OF wf] custody_def)
  next
    case (Some r)
    show ?thesis
    proof (cases "ri_status r = Slashed")
      case True
      then show ?thesis using run wfq split Some by (auto simp: slash_exact [OF wf] custody_def)
    next
      case False
      let ?m = "hm_put i (slashed_refiner r) (rs_refiners s)"
      let ?a = "filter (\<lambda>j. j \<noteq> i) (rs_active_set s)"
      have res: "res = Inr (stake_sum r + pending_of i (rs_queue s))"
        and t: "t = s\<lparr>rs_queue := ?q, rs_refiners := ?m, rs_active_set := ?a, rs_dirty := insert i (rs_dirty s)\<rparr>"
        using run Some False by (simp_all add: slash_exact [OF wf])
      have reg: "registry_ok (rs_refiners s)" and act: "active_ok (rs_refiners s) (rs_active_set s)"
        using wf by (simp_all add: refiners_wf_def)
      have "hm_total stake_sum (rs_refiners s) = hm_total stake_sum ?m + stake_sum r"
        using Some by (rule bonds.total_take) simp
      with split have cust: "custody s = custody t + (stake_sum r + pending_of i (rs_queue s))"
        by (simp add: t custody_def)
      have "registry_ok ?m" using reg slashed_refiner_ok registry_ok_get [OF reg Some] by (blast intro: registry_ok_put)
      moreover have "active_ok ?m ?a" using act by (rule active_ok_put_inactive) simp
      moreover have "custody t \<le> U64_MAX" using cust wf by (simp add: refiners_wf_def)
      ultimately have "refiners_wf t" by (simp add: refiners_wf_def t)
      with cust show ?thesis using False Some by (simp add: res t hm_get_put)
    qed
  qed
  then show "custody s = custody t + (case res of Inl _ \<Rightarrow> 0 | Inr burn \<Rightarrow> burn)"
    and "refiners_wf t"
    and "\<forall>e \<in> set (rs_queue t). pu_account e \<noteq> i"
    and "hm_get (rs_refiners t) i =
      map_option (\<lambda>r. if ri_status r = Slashed then r else slashed_refiner r) (hm_get (rs_refiners s) i)"
    and "j \<noteq> i \<Longrightarrow> hm_get (rs_refiners t) j = hm_get (rs_refiners s) j"
    and "is_ok res \<longleftrightarrow> hm_get (rs_refiners s) i \<noteq> None \<or> 0 < pending_of i (rs_queue s)"
    by (elim conjE, (assumption | blast))+
qed

lemma slash_status:
  assumes wf: "refiners_wf s" and run: "slash_refiner i h s = (res, t)" and get: "hm_get (rs_refiners t) i = Some r"
  shows "ri_status r = Slashed"
proof (cases "hm_get (rs_refiners s) i")
  case None
  then show ?thesis using slash_law(4) [OF wf run] get by simp
next
  case (Some r0)
  then show ?thesis using slash_law(4) [OF wf run] get by (cases "ri_status r0 = Slashed") simp_all
qed

section \<open>Status changes that move no stake\<close>

lemma restatus_law:
  assumes wf: "refiners_wf s" and get: "hm_get (rs_refiners s) i = Some r"
    and same: "stake_sum r' = stake_sum r" and ok: "refiner_ok i r'"
    and act: "active_ok (hm_put i r' (rs_refiners s)) as"
  shows "refiners_wf (s\<lparr>rs_refiners := hm_put i r' (rs_refiners s), rs_active_set := as, rs_dirty := d\<rparr>)"
    and "custody (s\<lparr>rs_refiners := hm_put i r' (rs_refiners s), rs_active_set := as, rs_dirty := d\<rparr>) = custody s"
proof -
  have "hm_total stake_sum (hm_put i r' (rs_refiners s)) = hm_total stake_sum (rs_refiners s)"
    using get same by (rule bonds.total_same)
  then show cust: "custody (s\<lparr>rs_refiners := hm_put i r' (rs_refiners s), rs_active_set := as, rs_dirty := d\<rparr>) = custody s"
    by (simp add: custody_def)
  have "registry_ok (hm_put i r' (rs_refiners s))"
    using wf ok by (auto simp: refiners_wf_def intro: registry_ok_put)
  with act cust wf
  show "refiners_wf (s\<lparr>rs_refiners := hm_put i r' (rs_refiners s), rs_active_set := as, rs_dirty := d\<rparr>)"
    by (simp add: refiners_wf_def)
qed

text \<open>The three statuses under which stake is held.\<close>

definition staked :: "refiner_status \<Rightarrow> bool" where
  "staked x \<longleftrightarrow> x = Bonding \<or> x = Waiting \<or> x = Active"

lemma staked_stake_pos: "refiner_ok i r \<Longrightarrow> staked (ri_status r) \<Longrightarrow> 0 < stake_sum r"
  by (cases "ri_entries r") (auto simp: refiner_ok_def staked_def stake_sum_def)

lemma refiner_ok_restatus:
  "refiner_ok i r \<Longrightarrow> staked (ri_status r) \<Longrightarrow> staked x \<Longrightarrow> refiner_ok i (r\<lparr>ri_status := x\<rparr>)"
  "refiner_ok i r \<Longrightarrow> refiner_ok i (r\<lparr>ri_last_signed_height := h\<rparr>)"
  "refiner_ok i r \<Longrightarrow> refiner_ok i (r\<lparr>ri_attestations := n\<rparr>)"
  by (auto simp: refiner_ok_def staked_def)

lemma restatus_same:
  assumes wf: "refiners_wf s" and get: "hm_get (rs_refiners s) i = Some r"
    and same: "stake_sum r' = stake_sum r" and ok: "refiner_ok i r'"
    and act: "ri_status r' = Active \<longleftrightarrow> ri_status r = Active"
  shows "refiners_wf (s\<lparr>rs_refiners := hm_put i r' (rs_refiners s), rs_dirty := d\<rparr>) \<and>
    custody (s\<lparr>rs_refiners := hm_put i r' (rs_refiners s), rs_dirty := d\<rparr>) = custody s"
proof -
  have eq: "s\<lparr>rs_refiners := hm_put i r' (rs_refiners s), rs_dirty := d\<rparr>
    = s\<lparr>rs_refiners := hm_put i r' (rs_refiners s), rs_active_set := rs_active_set s, rs_dirty := d\<rparr>"
    by simp
  have "active_ok (hm_put i r' (rs_refiners s)) (rs_active_set s)"
    using wf get act by (auto simp: refiners_wf_def intro: active_ok_put_same)
  from restatus_law [OF wf get same ok this, of d] show ?thesis unfolding eq by blast
qed

lemma record_attestation_law:
  assumes wf: "refiners_wf s" and run: "record_correct_attestation i s = (res, t)"
  shows "refiners_wf t \<and> custody t = custody s"
proof (cases "\<exists>r. hm_get (rs_refiners s) i = Some r \<and> ri_status r = Active")
  case True
  then obtain r where r: "hm_get (rs_refiners s) i = Some r" "ri_status r = Active" by blast
  let ?r = "r\<lparr>ri_attestations := sat_add64 (ri_attestations r) 1\<rparr>"
  have "t = s\<lparr>rs_refiners := hm_put i ?r (rs_refiners s), rs_dirty := insert i (rs_dirty s)\<rparr>"
    using run r by (simp add: record_correct_attestation_def Let_def)
  moreover have "refiner_ok i ?r" using refiners_wf_get [OF wf r(1)] by (rule refiner_ok_restatus)
  ultimately show ?thesis
    using restatus_same [OF wf r(1), of ?r] by simp
next
  case False
  then have "t = s" using run
    by (auto simp: record_correct_attestation_def Let_def split: option.splits if_splits)
  with wf show ?thesis by simp
qed

lemma mark_waiting_law:
  assumes wf: "refiners_wf s" and st: "\<And>r. hm_get (rs_refiners s) i = Some r \<Longrightarrow> ri_status r = Bonding"
  shows "refiners_wf (mark_waiting h i s) \<and> custody (mark_waiting h i s) = custody s"
proof (cases "hm_get (rs_refiners s) i")
  case None
  then show ?thesis using wf by (simp add: mark_waiting_def)
next
  case (Some r)
  let ?r = "r\<lparr>ri_status := Waiting, ri_last_signed_height := h\<rparr>"
  have b: "ri_status r = Bonding" using st Some by blast
  have "refiner_ok i ?r"
    using refiners_wf_get [OF wf Some] b by (intro refiner_ok_restatus) (simp_all add: staked_def)
  moreover have "mark_waiting h i s = s\<lparr>rs_refiners := hm_put i ?r (rs_refiners s), rs_dirty := insert i (rs_dirty s)\<rparr>"
    using Some by (simp add: mark_waiting_def)
  ultimately show ?thesis
    using restatus_same [OF wf Some, of ?r] b by simp
qed

lemma mark_waiting_get:
  "hm_get (rs_refiners (mark_waiting h i s)) j =
     (if j = i then map_option (\<lambda>r. r\<lparr>ri_status := Waiting, ri_last_signed_height := h\<rparr>) (hm_get (rs_refiners s) i)
      else hm_get (rs_refiners s) j)"
  by (auto simp: mark_waiting_def hm_get_put split: option.splits)

lemma mark_all_waiting_law:
  assumes "refiners_wf s" and "distinct is"
    and "\<And>i r. i \<in> set is \<Longrightarrow> hm_get (rs_refiners s) i = Some r \<Longrightarrow> ri_status r = Bonding"
  shows "refiners_wf (fold (mark_waiting h) is s) \<and> custody (fold (mark_waiting h) is s) = custody s"
  using assms
proof (induction "is" arbitrary: s)
  case (Cons i "is")
  have one: "refiners_wf (mark_waiting h i s) \<and> custody (mark_waiting h i s) = custody s"
    using Cons.prems(1,3) by (intro mark_waiting_law) auto
  moreover have "ri_status r = Bonding"
    if "j \<in> set is" "hm_get (rs_refiners (mark_waiting h i s)) j = Some r" for j r
    using that Cons.prems(2) Cons.prems(3) [of j r] by (auto simp: mark_waiting_get split: if_splits)
  ultimately show ?case using Cons.IH [of "mark_waiting h i s"] Cons.prems(2) by simp
qed simp

definition eligible_ids :: "nat \<Rightarrow> refiner_set \<Rightarrow> object_id list" where
  "eligible_ids h s = map fst (filter (\<lambda>(i, r). eligible_for_activation h r) (rs_refiners s))"

lemma eligible_ids_law:
  assumes "refiners_wf s"
  shows "distinct (eligible_ids h s)"
    and "i \<in> set (eligible_ids h s) \<longleftrightarrow> (\<exists>r. hm_get (rs_refiners s) i = Some r \<and> eligible_for_activation h r)"
proof -
  have wf: "hm_wf (rs_refiners s)" using assms by (simp add: refiners_wf_def registry_ok_def)
  then show "distinct (eligible_ids h s)"
    by (auto simp: eligible_ids_def hm_wf_def distinct_map_filter)
  show "i \<in> set (eligible_ids h s) \<longleftrightarrow> (\<exists>r. hm_get (rs_refiners s) i = Some r \<and> eligible_for_activation h r)"
    using wf by (force simp: eligible_ids_def intro: hm_in_set_get dest: hm_get_in_set)
qed

lemma activate_matured_law:
  assumes wf: "refiners_wf s" and run: "activate_matured_refiners h s = (is, t)"
  shows "refiners_wf t \<and> custody t = custody s"
proof -
  have "t = fold (mark_waiting h) (eligible_ids h s) s"
    using run by (simp add: activate_matured_refiners_def eligible_ids_def Let_def)
  moreover have "ri_status r = Bonding"
    if "i \<in> set (eligible_ids h s)" "hm_get (rs_refiners s) i = Some r" for i r
    using that eligible_ids_law(2) [OF wf] by (auto simp: eligible_for_activation_def)
  ultimately show ?thesis
    using mark_all_waiting_law [OF wf eligible_ids_law(1) [OF wf]] by blast
qed

lemma rerank_one_keep:
  assumes "\<And>r. hm_get (rs_refiners (rk_set t)) (snd p) = Some r \<Longrightarrow>
      \<not> (fst p < limit \<and> ri_status r = Waiting) \<and> \<not> (\<not> fst p < limit \<and> ri_status r = Active)"
  shows "rerank_one limit p t = t"
  using assms by (auto simp: rerank_one_def Let_def split: option.splits)

lemma rerank_one_law:
  assumes wf: "refiners_wf (rk_set t)"
  shows "refiners_wf (rk_set (rerank_one limit p t)) \<and> custody (rk_set (rerank_one limit p t)) = custody (rk_set t)"
proof -
  let ?s = "rk_set t" and ?i = "snd p"
  have act: "active_ok (rs_refiners ?s) (rs_active_set ?s)" using wf by (simp add: refiners_wf_def)
  consider (promote) r where "hm_get (rs_refiners ?s) ?i = Some r" "fst p < limit" "ri_status r = Waiting"
    | (demote) r where "hm_get (rs_refiners ?s) ?i = Some r" "\<not> fst p < limit" "ri_status r = Active"
    | (keep) "rerank_one limit p t = t"
    using rerank_one_keep [of t p limit] by blast
  then show ?thesis
  proof cases
    case (promote r)
    let ?r = "r\<lparr>ri_status := Active\<rparr>"
    have "refiner_ok ?i ?r"
      using refiners_wf_get [OF wf promote(1)] promote(3) by (intro refiner_ok_restatus) (simp_all add: staked_def)
    moreover have "active_ok (hm_put ?i ?r (rs_refiners ?s)) (rs_active_set ?s @ [?i])"
      by (rule active_ok_put_active [OF act promote(1)]) (simp_all add: promote(3))
    ultimately show ?thesis
      using restatus_law [OF wf promote(1), of ?r] promote by (simp add: rerank_one_def Let_def)
  next
    case (demote r)
    let ?r = "r\<lparr>ri_status := Waiting\<rparr>"
    have "refiner_ok ?i ?r"
      using refiners_wf_get [OF wf demote(1)] demote(3) by (intro refiner_ok_restatus) (simp_all add: staked_def)
    moreover have "active_ok (hm_put ?i ?r (rs_refiners ?s)) (filter (\<lambda>j. j \<noteq> ?i) (rs_active_set ?s))"
      using act by (intro active_ok_put_inactive) simp_all
    ultimately show ?thesis
      using restatus_law [OF wf demote(1), of ?r] demote by (simp add: rerank_one_def Let_def)
  next
    case keep
    with wf show ?thesis by simp
  qed
qed

lemma rerank_fold_law:
  "refiners_wf (rk_set t) \<Longrightarrow>
   refiners_wf (rk_set (fold (rerank_one limit) ps t)) \<and>
   custody (rk_set (fold (rerank_one limit) ps t)) = custody (rk_set t)"
  by (induction ps arbitrary: t) (simp_all add: rerank_one_law)

lemma rerank_law:
  assumes "refiners_wf s" and "rerank_refiners ts issued s = (x, t)"
  shows "refiners_wf t \<and> custody t = custody s"
  using assms rerank_fold_law [of "\<lparr>rk_set = s, rk_activated = [], rk_demoted = []\<rparr>"]
  by (auto simp: rerank_refiners_def Let_def)

lemma activate_law:
  assumes wf: "refiners_wf s" and run: "activate i h s = (x, t)"
  shows "refiners_wf t \<and> custody t = custody s"
proof (cases "\<exists>r. hm_get (rs_refiners s) i = Some r \<and> ri_status r = Bonding")
  case True
  then obtain r where r: "hm_get (rs_refiners s) i = Some r" "ri_status r = Bonding" by blast
  let ?r = "r\<lparr>ri_status := Active, ri_last_signed_height := h\<rparr>"
  have act: "active_ok (rs_refiners s) (rs_active_set s)" using wf by (simp add: refiners_wf_def)
  with r have notin: "i \<notin> set (rs_active_set s)" by (auto simp: active_ok_def)
  have "refiner_ok i ?r"
    using refiners_wf_get [OF wf r(1)] r(2) by (intro refiner_ok_restatus) (simp_all add: staked_def)
  moreover have "active_ok (hm_put i ?r (rs_refiners s)) (rs_active_set s @ [i])"
    by (rule active_ok_put_active [OF act r(1)]) (simp_all add: r(2))
  ultimately show ?thesis
    using restatus_law [OF wf r(1), of ?r] run r notin by (auto simp: activate_def)
next
  case False
  then have "t = s" using run by (auto simp: activate_def split: option.splits if_splits)
  with wf show ?thesis by simp
qed

section \<open>Steps, reachability and the life cycle\<close>

text \<open>Every operation of the set as a step; a bond step fits when the coins in custody stay a \<open>u64\<close>.\<close>

inductive refiner_step :: "refiner_set \<Rightarrow> refiner_set \<Rightarrow> bool" where
  step_bond: "bond i stake h ts issued s = (r, t) \<Longrightarrow> custody s + stake \<le> U64_MAX \<Longrightarrow> refiner_step s t"
| step_unbond: "unbond_amount i amount h s = (x, t) \<Longrightarrow> refiner_step s t"
| step_mature: "process_matured_unbonds h s = (ms, t) \<Longrightarrow> refiner_step s t"
| step_mark: "activate_matured_refiners h s = (is, t) \<Longrightarrow> refiner_step s t"
| step_rerank: "rerank_refiners ts issued s = (pq, t) \<Longrightarrow> refiner_step s t"
| step_activate: "activate i h s = (r, t) \<Longrightarrow> refiner_step s t"
| step_slash: "slash_refiner i h s = (x, t) \<Longrightarrow> refiner_step s t"
| step_attest: "record_correct_attestation i s = (x, t) \<Longrightarrow> refiner_step s t"
| step_clear: "refiner_step s (clear_dirty s)"

inductive refiners_reachable :: "refiner_set \<Rightarrow> bool" where
  reach_new: "refiners_reachable refiner_set_new"
| reach_step: "refiners_reachable s \<Longrightarrow> refiner_step s t \<Longrightarrow> refiners_reachable t"

lemma clear_dirty_law: "refiners_wf s \<Longrightarrow> refiners_wf (clear_dirty s) \<and> custody (clear_dirty s) = custody s"
  by (simp add: clear_dirty_def refiners_wf_def custody_def)

lemma refiner_step_wf:
  assumes "refiner_step s t" and wf: "refiners_wf s"
  shows "refiners_wf t"
  using assms(1)
proof cases
  case step_bond
  with wf show ?thesis by (blast intro: bond_wf)
next
  case step_unbond
  with wf show ?thesis by (blast intro: unbond_amount_wf)
next
  case step_mature
  with wf show ?thesis by (blast intro: process_matured_law(3))
next
  case step_mark
  with wf show ?thesis by (blast dest: activate_matured_law)
next
  case step_rerank
  with wf show ?thesis by (blast dest: rerank_law)
next
  case step_activate
  with wf show ?thesis by (blast dest: activate_law)
next
  case step_slash
  with wf show ?thesis by (blast intro: slash_law(2))
next
  case step_attest
  with wf show ?thesis by (blast dest: record_attestation_law)
next
  case step_clear
  with wf show ?thesis by (simp add: clear_dirty_law)
qed

definition status_of :: "refiner_set \<Rightarrow> object_id \<Rightarrow> refiner_status option" where
  "status_of s i = map_option ri_status (hm_get (rs_refiners s) i)"

text \<open>The life cycle of one refiner; \<open>None\<close> is a refiner the set does not hold.\<close>

inductive lifecycle :: "refiner_status option \<Rightarrow> refiner_status option \<Rightarrow> bool" where
  join: "lifecycle None (Some Bonding)"
| mature: "lifecycle (Some Bonding) (Some Waiting)"
| fast: "lifecycle (Some Bonding) (Some Active)"
| promote: "lifecycle (Some Waiting) (Some Active)"
| demote: "lifecycle (Some Active) (Some Waiting)"
| leave: "staked x \<Longrightarrow> lifecycle (Some x) (Some Unbonding)"
| rejoin: "lifecycle (Some Unbonding) (Some Bonding)"
| gone: "lifecycle (Some Unbonding) None"
| slash: "lifecycle (Some x) (Some Slashed)"

inductive_cases lifecycle_from_slashed: "lifecycle (Some Slashed) y"

lemma slashed_absorbing: "lifecycle\<^sup>*\<^sup>* x y \<Longrightarrow> x = Some Slashed \<Longrightarrow> y = Some Slashed"
  by (induction rule: rtranclp_induct) (auto simp: staked_def elim: lifecycle_from_slashed)

end
