(* ===== verification/Storage_Laws.thy ===== *)
theory Storage_Laws
  imports Storage_DB Refiner_Laws "HOL-Library.Multiset"
begin

text \<open>
  What the storage guarantees: the atomic save of an applied block, read back by every lookup, and
  the start-up checks.
\<close>

section \<open>Restoring the stores\<close>

lemma keyed_list:
  assumes "\<And>i v. (i, v) \<in> set m \<Longrightarrow> key v = i"
  shows "map (\<lambda>v. (key v, v)) (map snd m) = m" and "map key (map snd m) = map fst m"
  using assms by (induction m) auto

lemma load_all_accounts:
  assumes "accounts_wf s"
  shows "load_from_accounts (all_accounts s) = s"
proof -
  have k: "acc_object_id a = i" if "(i, a) \<in> set s" for i a
    using assms hm_in_set_get [OF _ that] by (auto simp: accounts_wf_def account_ok_def)
  have "map acc_object_id (map snd s) = map fst s" by (rule keyed_list(2)) (rule k)
  then have "distinct (map acc_object_id (map snd s))"
    using assms by (simp only: accounts_wf_def hm_wf_def)
  then have "load_from_accounts (all_accounts s) = map (\<lambda>a. (acc_object_id a, a)) (map snd s)"
    using fold_put_fresh [where k = acc_object_id and v = "\<lambda>a. a" and xs = "map snd s" and m = "[]"]
    by (simp add: load_from_accounts_def all_accounts_def account_store_new_def)
  with k keyed_list(1) [of s acc_object_id] show ?thesis by simp
qed

lemma load_from_refiners_eq:
  assumes "distinct (map ri_object_id rs)"
  shows "load_from_refiners rs q =
    \<lparr> rs_refiners = map (\<lambda>v. (ri_object_id v, v)) rs,
      rs_active_set = map ri_object_id (filter (\<lambda>v. ri_status v = Active) rs),
      rs_dirty = {}, rs_queue = q \<rparr>"
proof -
  define step where "step = (\<lambda>v (s :: refiner_set). s\<lparr>rs_active_set := (if ri_status v = Active
      then rs_active_set s @ [ri_object_id v] else rs_active_set s),
      rs_refiners := hm_put (ri_object_id v) v (rs_refiners s)\<rparr>)"
  have "fold step rs s = s\<lparr>rs_refiners := fold (\<lambda>v m. hm_put (ri_object_id v) v m) rs (rs_refiners s),
      rs_active_set := rs_active_set s @ map ri_object_id (filter (\<lambda>v. ri_status v = Active) rs)\<rparr>" for s
    by (induction rs arbitrary: s) (simp_all add: step_def)
  then show ?thesis
    using fold_put_fresh [where k = ri_object_id and v = "\<lambda>a. a" and xs = rs and m = "[]"] assms
    by (simp add: load_from_refiners_def step_def)
qed

text \<open>
  A restored refiner set has the same refiners under the same ids, the same queue and the same
  active refiners; only the order of the active set and the dirty marks differ.
\<close>

definition same_refiners :: "refiner_set \<Rightarrow> refiner_set \<Rightarrow> bool" where
  "same_refiners s t \<longleftrightarrow>
     (\<forall>i. hm_get (rs_refiners t) i = hm_get (rs_refiners s) i) \<and> rs_queue t = rs_queue s \<and>
     set (rs_active_set t) = set (rs_active_set s)"

lemma load_all_refiners:
  assumes "refiners_wf s"
  shows "same_refiners s (load_from_refiners (all_refiners s) (rs_queue s))"
    and "refiners_wf (load_from_refiners (all_refiners s) (rs_queue s))"
    and "rs_dirty (load_from_refiners (all_refiners s) (rs_queue s)) = {}"
proof -
  let ?m = "rs_refiners s" and ?rs = "all_refiners s"
  let ?t = "load_from_refiners ?rs (rs_queue s)"
  have wf: "hm_wf ?m" using assms by (simp add: refiners_wf_def registry_ok_def)
  have k: "ri_object_id r = i" if "(i, r) \<in> set ?m" for i r
    using refiners_wf_get [OF assms hm_in_set_get [OF wf that]] by (simp add: refiner_ok_def)
  have ids: "map ri_object_id (map snd ?m) = map fst ?m" by (rule keyed_list(2)) (rule k)
  have perm: "mset ?rs = mset (map snd ?m)" by (simp add: all_refiners_def)
  then have "mset (map ri_object_id ?rs) = mset (map fst ?m)" unfolding ids [symmetric] mset_map by simp
  then have dist: "distinct (map ri_object_id ?rs)" using wf unfolding hm_wf_def by (metis mset_eq_imp_distinct_iff)
  note t = load_from_refiners_eq [OF dist, of "rs_queue s"]
  have wft: "hm_wf (rs_refiners ?t)" using dist by (simp add: t hm_wf_def comp_def)
  have sets: "set ?rs = snd ` set ?m" using perm by (metis list.set_map mset_eq_setD)
  have mem: "(i, r) \<in> set (rs_refiners ?t) \<longleftrightarrow> (i, r) \<in> set ?m" for i r
    using k by (force simp: t sets)
  have get: "hm_get (rs_refiners ?t) i = hm_get ?m i" for i
    using mem wf wft by (metis hm_get_in_set hm_in_set_get not_None_eq)
  have act: "set (rs_active_set ?t) = {i. \<exists>r. hm_get ?m i = Some r \<and> ri_status r = Active}"
    using k wf by (force simp: t sets dest: hm_in_set_get hm_get_in_set)
  show same: "same_refiners s ?t"
    using get act assms by (auto simp: same_refiners_def t refiners_wf_def active_ok_def)
  have "hm_total stake_sum (rs_refiners ?t) = hm_total stake_sum ?m"
  proof -
    have "mset (map stake_sum ?rs) = mset (map stake_sum (map snd ?m))" unfolding mset_map perm ..
    then have "sum_list (map stake_sum ?rs) = sum_list (map stake_sum (map snd ?m))" by (metis sum_mset_sum_list)
    then show ?thesis by (simp add: t hm_total_def comp_def)
  qed
  then have "custody ?t = custody s" by (simp add: custody_def t)
  moreover have "distinct (rs_active_set ?t)"
    using dist by (simp add: t distinct_map inj_on_def)
  ultimately show "refiners_wf ?t"
    using assms wft get act by (auto simp: refiners_wf_def registry_ok_def active_ok_def)
  show "rs_dirty ?t = {}" by (simp add: t)
qed

section \<open>The keys of the database\<close>

text \<open>What is documented of \<open>hex::encode\<close>: two characters per byte, and injective.\<close>

definition hex_ok :: "'x externs_scheme \<Rightarrow> bool" where
  "hex_ok X \<longleftrightarrow> inj (x_hex_encode X) \<and> (\<forall>bs. length (x_hex_encode X bs) = 2 * length bs)"

lemma ascii_inject [simp]: "ascii s = ascii t \<longleftrightarrow> s = t"
proof -
  have "inj (\<lambda>c. word_of_nat (of_char c) :: byte)"
  proof (rule injI)
    fix c d :: char
    assume "(word_of_nat (of_char c) :: byte) = word_of_nat (of_char d)"
    then have "unat (word_of_nat (of_char c) :: byte) = unat (word_of_nat (of_char d) :: byte)" by simp
    then have "(of_char c :: nat) = of_char d" by (simp add: unat_of_nat take_bit_nat_def)
    then show "c = d" by simp
  qed
  then show ?thesis unfolding ascii_def by (rule inj_map_eq_map)
qed

lemma length_ascii [simp]: "length (ascii s) = length s"
  by (simp add: ascii_def)

lemma hash_to_hex_inject: "hex_ok X \<Longrightarrow> hash_to_hex X a = hash_to_hex X b \<longleftrightarrow> a = b"
  by (auto simp: hex_ok_def hash_to_hex_def inj_eq)

lemma object_id_to_hex_inject: "hex_ok X \<Longrightarrow> object_id_to_hex X a = object_id_to_hex X b \<longleftrightarrow> a = b"
  by (cases a; cases b) (simp add: object_id_to_hex_def hash_to_hex_inject)

lemma length_hash_to_hex: "hex_ok X \<Longrightarrow> length (hash_to_hex X h) = 64"
  by (simp add: hex_ok_def hash_to_hex_def)

lemma height_key_distinct:
  assumes "hex_ok X"
  shows "height_key n \<noteq> hash_key X h" and "height_key n \<noteq> receipt_height_key m"
    and "height_key n \<noteq> receipt_hash_key X h"
proof -
  have len: "be_bytes 8 n \<noteq> ascii s" if "length s \<noteq> 8" for s
  proof
    assume "be_bytes 8 n = ascii s"
    then have "length (be_bytes 8 n) = length (ascii s)" by (rule arg_cong)
    with that show False by simp
  qed
  show "height_key n \<noteq> hash_key X h" "height_key n \<noteq> receipt_height_key m"
    "height_key n \<noteq> receipt_hash_key X h"
    by (simp_all add: height_key_def hash_key_def receipt_height_key_def receipt_hash_key_def len
        length_hash_to_hex [OF assms])
qed

lemmas other_keys = height_key_def hash_key_def receipt_height_key_def receipt_hash_key_def tx_key_def
  refiner_key_def latest_height_key_def chain_state_key_def all_accounts_key_def active_ids_key_def
  refiner_count_key_def all_refiners_key_def unbonding_queue_key_def

lemma height_key_inject: "n \<le> U64_MAX \<Longrightarrow> m \<le> U64_MAX \<Longrightarrow> height_key n = height_key m \<longleftrightarrow> n = m"
  by (simp add: height_key_def be_bytes8_inject)

lemma refiner_puts_keys:
  "refiner_puts X rs = Inr puts \<Longrightarrow> map fst puts = map (\<lambda>r. refiner_key X (ri_object_id r)) rs"
  by (induction rs arbitrary: puts) (auto simp: and_then_Inr_iff)

lemma tx_puts_keys: "map fst (tx_puts X b) = map (\<lambda>tx. tx_key X (tx_id tx)) (blk_transactions b)"
proof -
  let ?z = "zip [0..<length (blk_transactions b)] (blk_transactions b)"
  have "map fst (tx_puts X b) = map (\<lambda>tx. tx_key X (tx_id tx)) (map snd ?z)"
    unfolding tx_puts_def map_map by (rule map_cong) auto
  then show ?thesis by simp
qed

lemma tx_puts_mem:
  assumes "tx \<in> set (blk_transactions b)"
  shows "\<exists>idx. (tx_key X (tx_id tx), encode_value X (tx_index_value (bh_height (blk_header b)) idx)) \<in> set (tx_puts X b)"
proof -
  obtain i where i: "i < length (blk_transactions b)" "blk_transactions b ! i = tx"
    using assms by (auto simp: in_set_conv_nth)
  then have "(i, tx) \<in> set (zip [0..<length (blk_transactions b)] (blk_transactions b))"
    by (force simp: in_set_zip)
  then show ?thesis by (force simp: tx_puts_def)
qed

text \<open>No key occurs twice in the batch of an applied block.\<close>

lemma batch_keys_distinct:
  assumes hex: "hex_ok X" and wf: "refiners_wf rs" and tx: "distinct (map tx_id (blk_transactions b))"
    and puts: "refiner_puts X (all_refiners rs) = Inr puts"
  shows "distinct (map fst ([(height_key h, v1), (hash_key X g, v2), (receipt_height_key h, v3), (receipt_hash_key X g, v4),
      (latest_height_key, v5), (chain_state_key, v6), (all_accounts_key, v7)] @ tx_puts X b @ puts @
      [(active_ids_key, v8), (refiner_count_key, v9), (all_refiners_key, v10), (unbonding_queue_key, v11)]))"
proof -
  have "distinct (map ri_object_id (all_refiners rs))"
  proof -
    have m: "hm_wf (rs_refiners rs)" using wf by (simp add: refiners_wf_def registry_ok_def)
    have k: "ri_object_id r = i" if "(i, r) \<in> set (rs_refiners rs)" for i r
      using refiners_wf_get [OF wf hm_in_set_get [OF m that]] by (simp add: refiner_ok_def)
    have "map ri_object_id (map snd (rs_refiners rs)) = map fst (rs_refiners rs)" by (rule keyed_list(2)) (rule k)
    then have "mset (map ri_object_id (all_refiners rs)) = mset (map fst (rs_refiners rs))"
      by (metis all_refiners_def mset_map mset_sort)
    then show ?thesis using m unfolding hm_wf_def by (metis mset_eq_imp_distinct_iff)
  qed
  then have r: "distinct (map fst puts)"
    unfolding refiner_puts_keys [OF puts]
    by (simp add: distinct_map inj_on_def refiner_key_def object_id_to_hex_inject [OF hex])
  have t: "distinct (map fst (tx_puts X b))"
    unfolding tx_puts_keys using tx
    by (simp add: distinct_map inj_on_def tx_key_def object_id_to_hex_inject [OF hex])
  have pk: "k \<in> fst ` set puts \<Longrightarrow> \<exists>i. k = refiner_key X i" for k
    using refiner_puts_keys [OF puts] by (metis (no_types, lifting) ex_map_conv list.set_map)
  have tk: "k \<in> fst ` set (tx_puts X b) \<Longrightarrow> \<exists>i. k = tx_key X i" for k
    using tx_puts_keys [of X b] by (metis (no_types, lifting) ex_map_conv list.set_map)
  have front: "k \<notin> fst ` set (tx_puts X b)" "k \<notin> fst ` set puts"
    if "fst k \<in> {CfBlocks, CfChainState, CfAccounts}" for k
  proof -
    have "k \<noteq> tx_key X i" "k \<noteq> refiner_key X i" for i using that by (auto simp: tx_key_def refiner_key_def)
    with pk [of k] tk [of k] show "k \<notin> fst ` set (tx_puts X b)" "k \<notin> fst ` set puts" by blast+
  qed
  have rear: "k \<notin> fst ` set (tx_puts X b)" "k \<notin> fst ` set puts"
    if "k \<in> {active_ids_key, refiner_count_key, all_refiners_key, unbonding_queue_key}" for k
  proof -
    have "k \<noteq> tx_key X i" "k \<noteq> refiner_key X i" for i using that by (auto simp: other_keys)
    with pk [of k] tk [of k] show "k \<notin> fst ` set (tx_puts X b)" "k \<notin> fst ` set puts" by blast+
  qed
  have mid: "fst ` set (tx_puts X b) \<inter> fst ` set puts = {}"
    using pk tk by (force simp: tx_key_def refiner_key_def)
  define A where "A = [height_key h, hash_key X g, receipt_height_key h, receipt_hash_key X g,
      latest_height_key, chain_state_key, all_accounts_key]"
  define D where "D = [active_ids_key, refiner_count_key, all_refiners_key, unbonding_queue_key]"
  have dA: "distinct A" using height_key_distinct [OF hex] by (simp add: A_def, simp add: other_keys)
  have dD: "distinct D" by (simp add: D_def other_keys)
  have fA: "fst k \<in> {CfBlocks, CfChainState, CfAccounts}" if "k \<in> set A" for k
    using that by (auto simp: A_def other_keys)
  have fD: "fst k = CfRefiners" if "k \<in> set D" for k using that by (auto simp: D_def other_keys)
  have AB: "set A \<inter> fst ` set (tx_puts X b) = {}" using fA front(1) by blast
  have AC: "set A \<inter> fst ` set puts = {}" using fA front(2) by blast
  have AD: "set A \<inter> set D = {}" using fA fD by fastforce
  have BD: "fst ` set (tx_puts X b) \<inter> set D = {}" "fst ` set puts \<inter> set D = {}"
    using rear unfolding D_def by auto
  have "distinct (A @ map fst (tx_puts X b) @ map fst puts @ D)"
    unfolding distinct_append set_append list.set_map Int_Un_distrib
    by (intro conjI r t dA dD) (simp_all only: AB AC AD BD mid Un_empty_left)
  then show ?thesis by (simp only: A_def D_def map_append list.map fst_conv)
qed

lemma apply_batch_distinct:
  assumes "distinct (map fst b)" and "(k, v) \<in> set b"
  shows "apply_batch b db k = Some v"
proof -
  obtain xs ys where b: "b = xs @ (k, v) # ys" using split_list [OF assms(2)] by blast
  then have "k \<notin> fst ` set ys" using assms(1) by auto
  with b show ?thesis by (rule apply_batch_in)
qed

section \<open>Saving and loading\<close>

text \<open>What the documentation of Borsh promises of the saved values: a value that serializes parses back.\<close>

definition codecs_invert ::
  "'x storage_externs_scheme \<Rightarrow> block \<Rightarrow> block_economic_receipt \<Rightarrow> persisted_chain_state \<Rightarrow> account_store \<Rightarrow>
   refiner_set \<Rightarrow> bool" where
  "codecs_invert X b receipt state accounts refiners \<longleftrightarrow>
     (\<forall>d. x_borsh_block X b = Some d \<longrightarrow> x_unborsh_block X d = Some b) \<and>
     (\<forall>d. x_borsh_receipt X receipt = Some d \<longrightarrow> x_unborsh_receipt X d = Some receipt) \<and>
     (\<forall>d. x_borsh_chain_state X state = Some d \<longrightarrow> x_unborsh_chain_state X d = Some state) \<and>
     (\<forall>d. x_borsh_accounts X (all_accounts accounts) = Some d \<longrightarrow>
          x_unborsh_accounts X d = Some (all_accounts accounts)) \<and>
     (\<forall>d. x_borsh_refiners X (all_refiners refiners) = Some d \<longrightarrow>
          x_unborsh_refiners X d = Some (all_refiners refiners)) \<and>
     (\<forall>d. x_borsh_queue X (rs_queue refiners) = Some d \<longrightarrow> x_unborsh_queue X d = Some (rs_queue refiners))"

definition reads_work :: "'x storage_externs_scheme \<Rightarrow> bool" where
  "reads_work X \<longleftrightarrow> (\<forall>k. \<not> x_db_get_fails X k)"

lemma parse_be64_height: "h \<le> U64_MAX \<Longrightarrow> parse_be64 (be_bytes 8 h) = Some h"
  using be_value_be_bytes [of 8 h] u64_bytes [of h] by (simp add: parse_be64_def)

lemma parse_tx_index_value: "h \<le> U64_MAX \<Longrightarrow> parse_tx_index (tx_index_value h idx) = Some h"
  using be_value_be_bytes [of 8 h] u64_bytes [of h] by (simp add: parse_tx_index_def tx_index_value_def)

lemma find_distinct_id:
  "distinct (map tx_id txs) \<Longrightarrow> tx \<in> set txs \<Longrightarrow> find (\<lambda>t. tx_id t = tx_id tx) txs = Some tx"
  by (induction txs) auto

text \<open>A successful save, entry by entry.\<close>

lemma saved_entries:
  assumes run: "save_applied_block_atomic X b receipt state accounts refiners db = (Inr (), db')"
    and hex: "hex_ok X" and wf: "refiners_wf refiners" and tx: "distinct (map tx_id (blk_transactions b))"
  obtains bd cd rd ad fd qd where
    "x_borsh_block X b = Some bd" "x_borsh_chain_state X state = Some cd" "x_borsh_receipt X receipt = Some rd"
    "x_borsh_accounts X (all_accounts accounts) = Some ad" "x_borsh_refiners X (all_refiners refiners) = Some fd"
    "x_borsh_queue X (rs_queue refiners) = Some qd"
    "db' (height_key (bh_height (blk_header b))) = Some (encode_value X bd)"
    "db' (hash_key X (compute_block_hash X (blk_header b))) = Some (encode_value X (be_bytes 8 (bh_height (blk_header b))))"
    "db' (receipt_height_key (bh_height (blk_header b))) = Some (encode_value X rd)"
    "db' (receipt_hash_key X (compute_block_hash X (blk_header b))) = Some (encode_value X rd)"
    "db' latest_height_key = Some (encode_value X (be_bytes 8 (bh_height (blk_header b))))"
    "db' chain_state_key = Some (encode_value X cd)" "db' all_accounts_key = Some (encode_value X ad)"
    "db' all_refiners_key = Some (encode_value X fd)" "db' unbonding_queue_key = Some (encode_value X qd)"
    "\<forall>tx \<in> set (blk_transactions b). \<exists>idx. db' (tx_key X (tx_id tx)) =
       Some (encode_value X (tx_index_value (bh_height (blk_header b)) idx))"
    "\<forall>n \<le> U64_MAX. bh_height (blk_header b) \<le> U64_MAX \<longrightarrow> n \<noteq> bh_height (blk_header b) \<longrightarrow>
       db' (height_key n) = db (height_key n)"
proof -
  let ?h = "bh_height (blk_header b)" and ?g = "compute_block_hash X (blk_header b)"
  obtain batch where ob: "applied_block_batch X b receipt state accounts refiners = Inr batch"
    and db': "db' = apply_batch batch db"
    using run by (auto simp: save_applied_block_atomic_def db_write_def split: sum.splits if_splits)
  obtain bd cd rd ad fd aid qd puts where v:
    "x_borsh_block X b = Some bd" "x_borsh_chain_state X state = Some cd" "x_borsh_receipt X receipt = Some rd"
    "x_borsh_accounts X (all_accounts accounts) = Some ad" "x_borsh_refiners X (all_refiners refiners) = Some fd"
    "x_borsh_queue X (rs_queue refiners) = Some qd"
    and puts: "refiner_puts X (all_refiners refiners) = Inr puts"
    and batch: "batch = [(height_key ?h, encode_value X bd), (hash_key X ?g, encode_value X (be_bytes 8 ?h)),
        (receipt_height_key ?h, encode_value X rd), (receipt_hash_key X ?g, encode_value X rd),
        (latest_height_key, encode_value X (be_bytes 8 ?h)), (chain_state_key, encode_value X cd),
        (all_accounts_key, encode_value X ad)] @ tx_puts X b @ puts @
       [(active_ids_key, encode_value X aid), (refiner_count_key, encode_value X (le_bytes 8 (length (all_refiners refiners)))),
        (all_refiners_key, encode_value X fd), (unbonding_queue_key, encode_value X qd)]"
    using ob unfolding applied_block_batch_def Let_def and_then_Inr_iff ok_or_Inr_iff by blast
  have dist: "distinct (map fst batch)"
    unfolding batch by (rule batch_keys_distinct [OF hex wf tx puts])
  have at: "(k, w) \<in> set batch \<Longrightarrow> db' k = Some w" for k w
    unfolding db' by (rule apply_batch_distinct [OF dist])
  have txs: "\<exists>idx. db' (tx_key X (tx_id tx)) = Some (encode_value X (tx_index_value ?h idx))"
    if "tx \<in> set (blk_transactions b)" for tx
    using tx_puts_mem [OF that, of X] at unfolding batch by (metis Un_iff set_append)
  have frame: "db' (height_key n) = db (height_key n)" if "n \<le> U64_MAX" "?h \<le> U64_MAX" "n \<noteq> ?h" for n
  proof -
    have "map fst puts = map (\<lambda>r. refiner_key X (ri_object_id r)) (all_refiners refiners)"
      using puts by (rule refiner_puts_keys)
    then have "height_key n \<notin> fst ` set puts"
      using list.set_map [of fst puts] by (auto simp: height_key_def refiner_key_def)
    moreover have "height_key n \<notin> fst ` set (tx_puts X b)"
      by (auto simp: tx_puts_def height_key_def tx_key_def)
    moreover have "height_key n \<noteq> height_key ?h" using height_key_inject [OF that(1,2)] that(3) by simp
    ultimately have "height_key n \<notin> fst ` set batch"
      unfolding batch using height_key_distinct [OF hex, of n]
      by (simp add: image_Un, simp add: height_key_def latest_height_key_def chain_state_key_def all_accounts_key_def
          active_ids_key_def refiner_count_key_def all_refiners_key_def unbonding_queue_key_def)
    then show ?thesis unfolding db' by (rule apply_batch_notin)
  qed
  show thesis
    by (rule that [OF v]) (use txs frame in \<open>auto intro!: at simp: batch\<close>)
qed

section \<open>A concrete instance for the witnesses\<close>

definition demo_hex :: "byte list \<Rightarrow> string" where
  "demo_hex bs = concat (map (\<lambda>b. [char_of (unat b), CHR ''0'']) bs)"

lemma demo_hex_inject: "demo_hex as = demo_hex bs \<Longrightarrow> as = bs"
proof (induction as arbitrary: bs)
  case Nil
  then show ?case by (cases bs) (simp_all add: demo_hex_def)
next
  case (Cons a as)
  then obtain b bs' where bs: "bs = b # bs'" by (cases bs) (simp_all add: demo_hex_def)
  have e: "(char_of (unat a) :: char) = char_of (unat b)" and "demo_hex as = demo_hex bs'"
    using Cons.prems by (simp_all add: demo_hex_def bs)
  from e have "(of_char (char_of (unat a) :: char) :: nat) = of_char (char_of (unat b) :: char)" by simp
  then have "unat a mod 256 = unat b mod 256" by (simp only: of_char_of)
  moreover have "unat a < 256" "unat b < 256"
    using unsigned_less [of a, where ?'a = nat] unsigned_less [of b, where ?'a = nat] by simp_all
  ultimately have "unat a = unat b" by simp
  then have "a = b" by (rule unsigned_word_eqI)
  with Cons.IH [OF \<open>demo_hex as = demo_hex bs'\<close>] bs show ?case by simp
qed

lemma length_demo_hex: "length (demo_hex bs) = 2 * length bs"
  by (induction bs) (simp_all add: demo_hex_def)

definition demo_receipt :: block_economic_receipt where
  "demo_receipt =
     \<lparr> er_height = 1, er_block_hash = Hash 7, er_production_kind = Mined, er_producer = ObjectId (Hash 5),
       er_difficulty = 7, er_vein_yield_milli = 1000, er_gross_reward = 47, er_mine_assay_burned = 0,
       er_miner_credit = 47, er_successful_transaction_count = 0, er_ordinary_fees = 0,
       er_ordinary_fees_burned = 0, er_refiner_fee_income = 0, er_bond_unbond_assay_burned = 0,
       er_slashed_burned = 0, er_total_burned = 0 \<rparr>"

definition demo_persisted :: persisted_chain_state where
  "demo_persisted =
     \<lparr> ps_chain_id = 1, ps_genesis_hash = hash_as_bytes (Hash 7), ps_current_height = 1, ps_current_difficulty = 7,
       ps_total_issued = 47, ps_total_burned = 0, ps_mint_ledger = mint_ledger_default,
       ps_block_timestamps = [0, 90], ps_latest_block_hash = hash_as_bytes (Hash 7),
       ps_state_root = hash_as_bytes (Hash 7), ps_suggested_fee = 1, ps_base_reward = 332000000,
       ps_producer_signatures = [], ps_finalized_height = 0, ps_finality_refiners = [] \<rparr>"

definition demo_store :: storage_externs where
  "demo_store =
     \<lparr> x_blake3 = (\<lambda>_. Hash 7), x_hex_encode = demo_hex, x_hex_decode = (\<lambda>_. Some []),
       x_ed25519_key_valid = (\<lambda>_. True), x_ed25519_verify = (\<lambda>_ _ _. True),
       x_ed25519_verify_strict = (\<lambda>_ _ _. True), x_borsh_tx_body = (\<lambda>_. Some [1]),
       x_borsh_transaction = (\<lambda>_. Some [1, 2, 3]), x_borsh_evidence = (\<lambda>_. Some []),
       x_borsh_attestations = (\<lambda>_. Some []), x_borsh_ceremony = (\<lambda>_. Some []),
       x_borsh_block = (\<lambda>_. Some [0]), x_borsh_account = (\<lambda>_. Some [1]),
       x_borsh_refiner = (\<lambda>_. Some [2]), x_borsh_unbond = (\<lambda>_. Some [3]),
       x_evo_generate = (\<lambda>_. []), x_evo_hash = (\<lambda>_ _ _ _. Hash 1), x_evo_hash_light = (\<lambda>_ _ _ _. Hash 1),
       x_db_get_fails = (\<lambda>_. False), x_db_write_fails = (\<lambda>_. False),
       x_unborsh_block = (\<lambda>_. Some demo_block), x_borsh_receipt = (\<lambda>_. Some [4]),
       x_unborsh_receipt = (\<lambda>_. Some demo_receipt), x_borsh_chain_state = (\<lambda>_. Some [5]),
       x_unborsh_chain_state = (\<lambda>_. Some demo_persisted), x_borsh_accounts = (\<lambda>_. Some [6]),
       x_unborsh_accounts = (\<lambda>_. Some []), x_borsh_refiners = (\<lambda>_. Some [7]),
       x_unborsh_refiners = (\<lambda>_. Some []), x_borsh_ids = (\<lambda>_. Some [8]),
       x_borsh_queue = (\<lambda>_. Some [9]), x_unborsh_queue = (\<lambda>_. Some []) \<rparr>"

lemma demo_store_hex: "hex_ok demo_store"
  using demo_hex_inject length_demo_hex by (auto simp: hex_ok_def demo_store_def intro: injI)

lemma demo_store_save:
  "\<exists>db'. save_applied_block_atomic demo_store demo_block demo_receipt demo_persisted account_store_new
     refiner_set_new Map.empty = (Inr (), db')"
  by (simp add: save_applied_block_atomic_def applied_block_batch_def Let_def demo_store_def db_write_def
      all_refiners_def refiner_set_new_def)

text \<open>The save leaves every other key of the chain-state column alone.\<close>

lemma save_keeps_column:
  assumes run: "save_applied_block_atomic X b receipt state accounts refiners db = (Inr (), db')"
    and k: "fst k = CfChainState" "k \<noteq> latest_height_key" "k \<noteq> chain_state_key"
  shows "db' k = db k"
proof -
  obtain batch where ob: "applied_block_batch X b receipt state accounts refiners = Inr batch"
    and db': "db' = apply_batch batch db"
    using run by (auto simp: save_applied_block_atomic_def db_write_def split: sum.splits if_splits)
  obtain front puts rear where batch: "batch = front @ tx_puts X b @ puts @ rear"
    and puts: "refiner_puts X (all_refiners refiners) = Inr puts"
    and frontn: "k \<notin> fst ` set front" and rearn: "k \<notin> fst ` set rear"
    using ob k unfolding applied_block_batch_def Let_def and_then_Inr_iff ok_or_Inr_iff
    by (fastforce simp: other_keys)
  have "map fst puts = map (\<lambda>r. refiner_key X (ri_object_id r)) (all_refiners refiners)"
    using puts by (rule refiner_puts_keys)
  then have "k \<notin> fst ` set puts"
    unfolding list.set_map [of fst puts, symmetric] using k(1) by (auto simp: refiner_key_def)
  moreover have "k \<notin> fst ` set (tx_puts X b)" using k(1) by (auto simp: tx_puts_def tx_key_def)
  ultimately have "k \<notin> fst ` set batch" using frontn rearn by (auto simp: batch)
  then show ?thesis unfolding db' by (rule apply_batch_notin)
qed

lemma save_then_load:
  assumes run: "save_applied_block_atomic X b receipt state accounts refiners db = (r, db')"
    and hex: "hex_ok X" and reads: "reads_work X"
    and codecs: "codecs_invert X b receipt state accounts refiners"
    and accs: "accounts_wf accounts" and wf: "refiners_wf refiners"
    and tx: "distinct (map tx_id (blk_transactions b))" and h: "bh_height (blk_header b) \<le> U64_MAX"
  shows "(case r of Inl _ \<Rightarrow> db' = db
     | Inr _ \<Rightarrow>
         load_block X (bh_height (blk_header b)) db' = Inr (Some b) \<and>
         load_block_by_hash X (compute_block_hash X (blk_header b)) db' = Inr (Some b) \<and>
         load_block_receipt X (bh_height (blk_header b)) db' = Inr (Some receipt) \<and>
         load_block_receipt_by_hash X (compute_block_hash X (blk_header b)) db' = Inr (Some receipt) \<and>
         (\<forall>tx \<in> set (blk_transactions b).
            load_transaction X (tx_id tx) db' = Inr (Some (bh_height (blk_header b), tx))) \<and>
         latest_block_height X db' = Inr (Some (bh_height (blk_header b))) \<and>
         load_chain_state X db' = Inr (Some state) \<and>
         load_accounts X db' = Inr accounts \<and>
         (\<exists>refiners'. load_refiners X db' = Inr refiners' \<and> same_refiners refiners refiners' \<and> refiners_wf refiners') \<and>
         (\<forall>n \<le> U64_MAX. n \<noteq> bh_height (blk_header b) \<longrightarrow> load_block X n db' = load_block X n db))"
proof (cases r)
  case (Inl e)
  then show ?thesis using run
    by (auto simp: save_applied_block_atomic_def db_write_def split: sum.splits if_splits)
next
  case (Inr u)
  let ?h = "bh_height (blk_header b)" and ?g = "compute_block_hash X (blk_header b)"
  from run Inr have ok: "save_applied_block_atomic X b receipt state accounts refiners db = (Inr (), db')" by simp
  obtain bd cd rd ad fd qd where
    ser: "x_borsh_block X b = Some bd" "x_borsh_chain_state X state = Some cd" "x_borsh_receipt X receipt = Some rd"
      "x_borsh_accounts X (all_accounts accounts) = Some ad" "x_borsh_refiners X (all_refiners refiners) = Some fd"
      "x_borsh_queue X (rs_queue refiners) = Some qd"
    and at: "db' (height_key ?h) = Some (encode_value X bd)" "db' (hash_key X ?g) = Some (encode_value X (be_bytes 8 ?h))"
      "db' (receipt_height_key ?h) = Some (encode_value X rd)" "db' (receipt_hash_key X ?g) = Some (encode_value X rd)"
      "db' latest_height_key = Some (encode_value X (be_bytes 8 ?h))" "db' chain_state_key = Some (encode_value X cd)"
      "db' all_accounts_key = Some (encode_value X ad)" "db' all_refiners_key = Some (encode_value X fd)"
      "db' unbonding_queue_key = Some (encode_value X qd)"
    and txs: "\<forall>tx \<in> set (blk_transactions b). \<exists>idx. db' (tx_key X (tx_id tx)) = Some (encode_value X (tx_index_value ?h idx))"
    and frame: "\<forall>n \<le> U64_MAX. ?h \<le> U64_MAX \<longrightarrow> n \<noteq> ?h \<longrightarrow> db' (height_key n) = db (height_key n)"
    by (rule saved_entries [OF ok hex wf tx])
  have g: "\<not> x_db_get_fails X k" for k using reads unfolding reads_work_def by blast
  note load = db_load_stored [where db = db' and X = X, OF g]
  have blk: "load_block X ?h db' = Inr (Some b)"
    unfolding load_block_def by (rule load [OF at(1)]) (use codecs ser in \<open>simp add: codecs_invert_def\<close>)
  have tx1: "load_transaction X (tx_id t) db' = Inr (Some (?h, t))" if mem: "t \<in> set (blk_transactions b)" for t
  proof -
    obtain idx where "db' (tx_key X (tx_id t)) = Some (encode_value X (tx_index_value ?h idx))"
      using txs mem by blast
    then have "db_load X c e1 e2 parse_tx_index (tx_key X (tx_id t)) db' = Inr (Some ?h)" for c e1 e2
      by (rule load) (simp add: h parse_tx_index_value)
    then show ?thesis using blk find_distinct_id [OF tx mem] by (simp add: load_transaction_def)
  qed
  have "db_load X c e1 e2 parse_be64 (hash_key X ?g) db' = Inr (Some ?h)" for c e1 e2
    by (rule load [OF at(2)]) (simp add: h parse_be64_height)
  then have byhash: "load_block_by_hash X ?g db' = Inr (Some b)" using blk by (simp add: load_block_by_hash_def)
  have "db_load X c e1 e2 (x_unborsh_accounts X) all_accounts_key db' = Inr (Some (all_accounts accounts))" for c e1 e2
    by (rule load [OF at(7)]) (use codecs ser in \<open>simp add: codecs_invert_def\<close>)
  then have acc: "load_accounts X db' = Inr accounts" by (simp add: load_accounts_def load_all_accounts [OF accs])
  have "db_load X c e1 e2 (x_unborsh_refiners X) all_refiners_key db' = Inr (Some (all_refiners refiners))" for c e1 e2
    by (rule load [OF at(8)]) (use codecs ser in \<open>simp add: codecs_invert_def\<close>)
  moreover have "db_load X c e1 e2 (x_unborsh_queue X) unbonding_queue_key db' = Inr (Some (rs_queue refiners))" for c e1 e2
    by (rule load [OF at(9)]) (use codecs ser in \<open>simp add: codecs_invert_def\<close>)
  ultimately have ref: "load_refiners X db' = Inr (load_from_refiners (all_refiners refiners) (rs_queue refiners))"
    by (simp add: load_refiners_def)
  have rcpt: "load_block_receipt X ?h db' = Inr (Some receipt)" "load_block_receipt_by_hash X ?g db' = Inr (Some receipt)"
    unfolding load_block_receipt_def load_block_receipt_by_hash_def
    by (rule load [OF at(3)] load [OF at(4)], use codecs ser in \<open>simp add: codecs_invert_def\<close>)+
  have hgt: "latest_block_height X db' = Inr (Some ?h)"
    unfolding latest_block_height_def by (rule load [OF at(5)]) (simp add: h parse_be64_height)
  have "db_load X c e1 e2 (x_unborsh_chain_state X) chain_state_key db' = Inr (Some state)" for c e1 e2
    by (rule load [OF at(6)]) (use codecs ser in \<open>simp add: codecs_invert_def\<close>)
  then have cs: "load_chain_state X db' = Inr (Some state)" by (simp add: load_chain_state_def)
  have other: "load_block X n db' = load_block X n db" if "n \<le> U64_MAX" "n \<noteq> ?h" for n
    using frame h that by (simp add: load_block_def db_load_def db_get_def)
  from load_all_refiners [OF wf] blk byhash rcpt tx1 hgt cs acc ref other Inr show ?thesis by auto
qed

section \<open>Properties\<close>

text \<open>
  C13: saving an applied block is atomic and loses nothing. If the save fails the database is
  unchanged. If it succeeds, every lookup finds what was saved: the block by height and by hash, its
  receipt by height and by hash, every transaction by id with its height, the latest height, the
  chain state, the accounts exactly and the refiner set with the same refiners, queue and active
  refiners; and the blocks at all other heights are what they were.
\<close>

theorem applied_block_round_trip:
  assumes run: "save_applied_block_atomic X b receipt state accounts refiners db = (r, db')"
    and hex: "hex_ok X" and reads: "reads_work X"
    and codecs: "codecs_invert X b receipt state accounts refiners"
    and accs: "accounts_wf accounts" and wf: "refiners_wf refiners"
    and tx: "distinct (map tx_id (blk_transactions b))" and h: "bh_height (blk_header b) \<le> U64_MAX"
  shows "(case r of Inl _ \<Rightarrow> db' = db
     | Inr _ \<Rightarrow>
         load_block X (bh_height (blk_header b)) db' = Inr (Some b) \<and>
         load_block_by_hash X (compute_block_hash X (blk_header b)) db' = Inr (Some b) \<and>
         load_block_receipt X (bh_height (blk_header b)) db' = Inr (Some receipt) \<and>
         load_block_receipt_by_hash X (compute_block_hash X (blk_header b)) db' = Inr (Some receipt) \<and>
         (\<forall>tx \<in> set (blk_transactions b).
            load_transaction X (tx_id tx) db' = Inr (Some (bh_height (blk_header b), tx))) \<and>
         latest_block_height X db' = Inr (Some (bh_height (blk_header b))) \<and>
         load_chain_state X db' = Inr (Some state) \<and>
         load_accounts X db' = Inr accounts \<and>
         (\<exists>refiners'. load_refiners X db' = Inr refiners' \<and> same_refiners refiners refiners' \<and> refiners_wf refiners') \<and>
         (\<forall>n \<le> U64_MAX. n \<noteq> bh_height (blk_header b) \<longrightarrow> load_block X n db' = load_block X n db))"
  using save_then_load [OF assms] .

theorem applied_block_round_trip_witness:
  "\<exists>db'. save_applied_block_atomic demo_store demo_block demo_receipt demo_persisted account_store_new
       refiner_set_new Map.empty = (Inr (), db')
     \<and> load_block demo_store 1 db' = Inr (Some demo_block) \<and> load_chain_state demo_store db' = Inr (Some demo_persisted)"
proof -
  obtain db' where run: "save_applied_block_atomic demo_store demo_block demo_receipt demo_persisted account_store_new
      refiner_set_new Map.empty = (Inr (), db')" using demo_store_save by blast
  have "codecs_invert demo_store demo_block demo_receipt demo_persisted account_store_new refiner_set_new"
    "reads_work demo_store" "accounts_wf account_store_new"
    by (simp_all add: codecs_invert_def reads_work_def demo_store_def all_accounts_def account_store_new_def
        all_refiners_def refiner_set_new_def accounts_wf_def)
  moreover have "bh_height (blk_header demo_block) = 1" "distinct (map tx_id (blk_transactions demo_block))"
    by (simp_all add: demo_block_def mined_with_def demo_header_def)
  ultimately show ?thesis
    using applied_block_round_trip [OF run demo_store_hex _ _ _ refiners_wf_new] run by (simp add: U64_MAX_def)
qed



end
