(* ===== verification/Economics.thy ===== *)
theory Economics
  imports Refiner_Laws
begin

text \<open>
  The block economics of \<open>crates/node/src/node.rs\<close>: the mine assay, the fee split of
  refiner-produced blocks, the reward distribution and the planned credits that block application
  checks before it pays them out.
\<close>

section \<open>Amounts\<close>

record reward_distribution =
  rd_gross_reward :: nat
  rd_mine_assay :: nat
  rd_net_reward :: nat
  rd_miner_share :: nat

text \<open>The rounding square root of the node, a Newton iteration over \<open>u128\<close>.\<close>

definition node_sqrt_round :: "nat \<Rightarrow> nat" where
  "node_sqrt_round n =
     (if n < 2 then n
      else
        (let fl = sqrt_newton n n (div_ceil n 2);
             nxt = sat_add128 fl 1
         in if sat_sub (sat_mul128 nxt nxt) n < sat_sub n (sat_mul128 fl fl) then nxt else fl))"

definition compute_mine_assay :: "nat \<Rightarrow> nat \<Rightarrow> nat" where
  "compute_mine_assay gross_reward effective_difficulty =
     (if gross_reward = 0 then 0
      else
        (let difficulty = max effective_difficulty MIN_DIFFICULTY;
             difficulty_pressure = max (node_sqrt_round difficulty) 1
         in min (sat_mul128 gross_reward difficulty_pressure div EPOCH) U64_MAX))"

text \<open>Burned part and refiner income of the ordinary fees.\<close>

definition compute_por_fee_split :: "nat \<Rightarrow> nat \<Rightarrow> nat \<Rightarrow> nat \<times> nat" where
  "compute_por_fee_split ordinary_fees active limit =
     (if ordinary_fees = 0 \<or> active = 0 then (0, ordinary_fees)
      else
        (let denominator = limit + active in
         if denominator = 0 then (0, ordinary_fees)
         else
           (let burned = min (sat_mul128 ordinary_fees active div denominator) ordinary_fees
            in (burned, sat_sub ordinary_fees burned))))"

definition compute_reward_distribution :: "nat \<Rightarrow> nat \<Rightarrow> nat \<Rightarrow> nat \<Rightarrow> reward_distribution" where
  "compute_reward_distribution gross_reward base_reward_amount effective_difficulty coverage_milli =
     (if gross_reward = 0
      then \<lparr> rd_gross_reward = 0, rd_mine_assay = 0, rd_net_reward = 0, rd_miner_share = 0 \<rparr>
      else
        (let mine_assay = compute_mine_assay gross_reward effective_difficulty;
             net_reward = sat_sub gross_reward mine_assay
         in \<lparr> rd_gross_reward = gross_reward, rd_mine_assay = mine_assay, rd_net_reward = net_reward,
              rd_miner_share = net_reward \<rparr>))"

section \<open>Planned credits\<close>

type_synonym planned_credits = "(object_id, nat) hash_map"

definition add_planned_credit ::
  "object_id \<Rightarrow> nat \<Rightarrow> planned_credits \<Rightarrow> (message + unit) \<times> planned_credits" where
  "add_planned_credit account amount planned =
     (if amount = 0 then (Inr (), planned)
      else
        (let current = (case hm_get planned account of None \<Rightarrow> 0 | Some v \<Rightarrow> v) in
         case checked_add64 current amount of
           None \<Rightarrow> (Inl (Fmt (STR ''Planned credit overflow for account {} while adding {} flakes'')
                      [AId account, ANat amount]), hm_put account current planned)
         | Some v \<Rightarrow> (Inr (), hm_put account v planned)))"

definition ensure_planned_credits_creditable :: "account_store \<Rightarrow> planned_credits \<Rightarrow> message + unit" where
  "ensure_planned_credits_creditable accounts planned =
     for_each (\<lambda>(account, amount).
       map_err (\<lambda>e. Fmt (STR ''Account {} cannot receive {} flakes: {}'')
           [AId account, ANat amount, AMsg (opolys_error_to_string e)])
         (can_credit accounts account amount)) planned"

definition credit_or_create_account ::
  "object_id \<times> nat \<Rightarrow> account_store \<Rightarrow> (message + unit) \<times> account_store" where
  "credit_or_create_account p accounts =
     (let account = fst p; amount = snd p in
      if amount = 0 then (Inr (), accounts)
      else
        (let created = (if get_account accounts account = None then create_account account accounts
                        else (Inr (account_new account), accounts))
         in case created of
              (Inl e, s) \<Rightarrow> (Inl (Fmt (STR ''Failed to create reward account {}: {}'')
                               [AId account, AMsg (opolys_error_to_string e)]), s)
            | (Inr _, s) \<Rightarrow>
                (case credit account amount s of
                   (r, t) \<Rightarrow> (map_err (\<lambda>e. Fmt (STR ''Failed to credit account {}: {}'')
                                [AId account, AMsg (opolys_error_to_string e)]) r, t))))"

text \<open>The loops that pay out a plan, entry by entry, in the order the map yields them.\<close>

definition pay_planned_credits :: "planned_credits \<Rightarrow> account_store \<Rightarrow> (message + unit) \<times> account_store" where
  "pay_planned_credits planned accounts = fold_while_ok credit_or_create_account planned accounts"

text \<open>
  Registering the node's own producer account at start-up; the argument is the public key of the
  signing key, and an error is a panic.
\<close>

definition ensure_local_producer_account ::
  "object_id \<Rightarrow> byte list option \<Rightarrow> account_store \<Rightarrow> (message + unit) \<times> account_store" where
  "ensure_local_producer_account miner_id public_key accounts =
     (case public_key of
        None \<Rightarrow> (Inr (), accounts)
      | Some pk \<Rightarrow>
          if hash_is_zero (object_id_hash miner_id) then (Inr (), accounts)
          else
            (let s = (if get_account accounts miner_id = None then snd (create_account miner_id accounts)
                      else accounts)
             in case get_account s miner_id of
                  None \<Rightarrow> (Inl (Fmt (STR ''local producer account was just created'') []), s)
                | Some a \<Rightarrow>
                    (case acc_public_key a of
                       Some existing \<Rightarrow>
                         if existing = pk then (Inr (), s)
                         else (Inl (Fmt (STR ''Refusing to use key file: local producer account {} already has a different public key'')
                                 [AId miner_id]), s)
                     | None \<Rightarrow> (Inr (), modify_account miner_id (\<lambda>a. a\<lparr>acc_public_key := Some pk\<rparr>) s))))"

section \<open>Laws of the amounts\<close>

text \<open>The nearest integer to the square root, for every \<open>u64\<close>.\<close>

lemma node_sqrt_round_spec:
  assumes "n \<le> U64_MAX"
  defines "r \<equiv> node_sqrt_round n"
  shows "n \<le> r * r + r" and "0 < n \<Longrightarrow> r * r < n + r"
proof -
  have "n \<le> r * r + r \<and> (0 < n \<longrightarrow> r * r < n + r)"
  proof (cases "n < 2")
    case True
    then show ?thesis by (auto simp: r_def node_sqrt_round_def less_2_cases_iff)
  next
    case False
    define f where "f = sqrt_newton n n (div_ceil n 2)"
    have f: "f * f \<le> n" "n < (f + 1) * (f + 1)"
      using sqrt_newton_start [of n] False by (simp_all add: f_def Let_def)
    have "f \<le> f * f" by (cases f) simp_all
    then have "f \<le> U64_MAX" using f(1) assms(1) by linarith
    moreover have "(U64_MAX + 1) * (U64_MAX + 1) \<le> U128_MAX + 1" by (simp add: U64_MAX_def U128_MAX_def)
    ultimately have "f + 1 \<le> U128_MAX" "f * f \<le> U128_MAX"
      using f(1) assms(1) by (simp_all add: U64_MAX_def U128_MAX_def)
    moreover have "(f + 1) * (f + 1) \<le> U128_MAX"
    proof -
      have "f < 4294967296"
      proof (rule ccontr)
        assume "\<not> f < 4294967296"
        then have "4294967296 * 4294967296 \<le> f * f" by (intro mult_le_mono) simp_all
        then show False using f(1) assms(1) by (simp add: U64_MAX_def)
      qed
      then have "(f + 1) * (f + 1) \<le> 4294967296 * 4294967296" by (intro mult_le_mono) simp_all
      then show ?thesis by (simp add: U128_MAX_def)
    qed
    ultimately have r: "r = (if (f + 1) * (f + 1) - n < n - f * f then f + 1 else f)"
      using False by (simp add: r_def node_sqrt_round_def f_def [symmetric] sat_add128_def sat_mul128_def sat_sub_def)
    show ?thesis
    proof (cases "(f + 1) * (f + 1) - n < n - f * f")
      case True
      then have "(f + 1) * (f + 1) + f * f < 2 * n" using f by linarith
      with r True f show ?thesis by (simp add: algebra_simps)
    next
      case no: False
      then have "2 * n \<le> (f + 1) * (f + 1) + f * f" using f by linarith
      moreover have "0 < f" using f(2) False by (cases f) simp_all
      ultimately show ?thesis using r no f False by (simp add: algebra_simps)
    qed
  qed
  then show "n \<le> r * r + r" and "0 < n \<Longrightarrow> r * r < n + r" by simp_all
qed

lemma node_sqrt_round_le:
  assumes "n \<le> m * m + m" and "n \<le> U64_MAX"
  shows "node_sqrt_round n \<le> m"
proof (cases "n = 0")
  case False
  let ?r = "node_sqrt_round n"
  show ?thesis
  proof (rule ccontr)
    assume "\<not> ?r \<le> m"
    then have "m + 1 \<le> ?r" by simp
    then have "(m + 1) * m \<le> ?r * (?r - 1)" by (intro mult_le_mono) simp_all
    moreover have "?r * (?r - 1) = ?r * ?r - ?r" by (simp add: algebra_simps)
    moreover have "?r * ?r < n + ?r" using node_sqrt_round_spec(2) [OF assms(2)] False by simp
    then have "?r * ?r - ?r < n" using False by arith
    ultimately have "(m + 1) * m < n" by (simp only: le_less_trans)
    then show False using assms(1) by (simp add: algebra_simps)
  qed
qed (simp add: node_sqrt_round_def)


text \<open>The assay is the reward times the rounded root of the difficulty over 960.\<close>

lemma sqrt_round_small: "d \<le> U64_MAX \<Longrightarrow> node_sqrt_round d \<le> 4294967296"
  by (rule node_sqrt_round_le) (simp_all add: U64_MAX_def)

lemma compute_mine_assay_eq:
  assumes "gross \<le> U64_MAX" and "d \<le> U64_MAX" and "0 < d"
  shows "compute_mine_assay gross d = min (gross * node_sqrt_round d div 960) U64_MAX"
proof -
  have "0 < node_sqrt_round d"
    using node_sqrt_round_spec(1) [OF assms(2)] assms(3) by (cases "node_sqrt_round d") simp_all
  moreover have "gross * node_sqrt_round d \<le> U64_MAX * 4294967296"
    using assms(1) sqrt_round_small [OF assms(2)] by (rule mult_le_mono)
  then have "gross * node_sqrt_round d \<le> U128_MAX" by (simp add: U64_MAX_def U128_MAX_def)
  moreover have "max d MIN_DIFFICULTY = d" using assms(3) by (simp add: MIN_DIFFICULTY_def)
  moreover have "max (node_sqrt_round d) 1 = node_sqrt_round d" using calculation(1) by simp
  ultimately show ?thesis
    by (simp add: compute_mine_assay_def sat_mul128_def EPOCH_def)
qed

lemma mine_assay_le_gross:
  assumes "gross \<le> U64_MAX" and "0 < d" and "d \<le> 922560"
  shows "compute_mine_assay gross d \<le> gross"
proof -
  have d: "d \<le> U64_MAX" using assms(3) by (simp add: U64_MAX_def)
  have "node_sqrt_round d \<le> 960" using assms(3) d by (intro node_sqrt_round_le) simp_all
  then have "gross * node_sqrt_round d div 960 \<le> gross * 960 div 960"
    by (intro div_le_mono mult_le_mono) simp_all
  then show ?thesis using compute_mine_assay_eq [OF assms(1) d assms(2)] by simp
qed

lemma reward_distribution_law:
  fixes b c :: nat
  assumes "gross \<le> U64_MAX" and "0 < d" and "d \<le> 922560"
  defines "r \<equiv> compute_reward_distribution gross b d c"
  shows "rd_gross_reward r = gross" and "rd_miner_share r + rd_mine_assay r = gross"
    and "rd_net_reward r = rd_miner_share r" and "gross = 0 \<Longrightarrow> rd_miner_share r = 0 \<and> rd_mine_assay r = 0"
  using mine_assay_le_gross [OF assms(1-3)]
  by (simp_all add: r_def compute_reward_distribution_def Let_def sat_sub_def)

lemma por_fee_split_law:
  assumes "fees \<le> U64_MAX" and "active \<le> U64_MAX"
  shows "fst (compute_por_fee_split fees active limit) + snd (compute_por_fee_split fees active limit) = fees"
    and "fst (compute_por_fee_split fees active limit) = fees * active div (limit + active)"
proof -
  have "fees * active \<le> U64_MAX * U64_MAX" using assms by (rule mult_le_mono)
  then have m: "sat_mul128 fees active = fees * active"
    by (simp add: sat_mul128_def U64_MAX_def U128_MAX_def)
  have le: "fees * active div (limit + active) \<le> fees"
  proof -
    have "fees * active div (limit + active) \<le> fees * (limit + active) div (limit + active)"
      by (intro div_le_mono mult_le_mono) simp_all
    also have "\<dots> \<le> fees" by (cases "limit + active = 0") simp_all
    finally show ?thesis .
  qed
  show "fst (compute_por_fee_split fees active limit) = fees * active div (limit + active)"
    using le by (auto simp: compute_por_fee_split_def Let_def m)
  show "fst (compute_por_fee_split fees active limit) + snd (compute_por_fee_split fees active limit) = fees"
    using le by (auto simp: compute_por_fee_split_def Let_def m sat_sub_def)
qed

section \<open>Laws of the credits\<close>

definition planned_total :: "planned_credits \<Rightarrow> nat" where
  "planned_total p = hm_total id p"

definition balance_of :: "account_store \<Rightarrow> object_id \<Rightarrow> nat" where
  "balance_of s i = (case hm_get s i of None \<Rightarrow> 0 | Some a \<Rightarrow> acc_balance a)"

lemma balance_of_le: "balance_of s i \<le> total_balance s"
  using hm_total_ge [of s i _ acc_balance] by (auto simp: balance_of_def total_balance_def split: option.splits)

text \<open>
  Paying succeeds exactly when the recipient can hold the amount, and then changes one balance and
  the total by the amount.
\<close>

lemma credit_or_create_ok:
  assumes "accounts_wf s" and "balance_of s i + n \<le> U64_MAX"
  shows "\<exists>t. credit_or_create_account (i, n) s = (Inr (), t) \<and> accounts_wf t \<and>
           total_balance t = total_balance s + n \<and>
           (\<forall>j. balance_of t j = balance_of s j + (if j = i then n else 0))"
proof (cases "n = 0")
  case True
  then show ?thesis using assms(1) by (simp add: credit_or_create_account_def)
next
  case False
  show ?thesis
  proof (cases "hm_get s i")
    case None
    let ?s1 = "hm_put i (account_new i) s"
    have run: "credit_or_create_account (i, n) s = (Inr (), hm_put i ((account_new i)\<lparr>acc_balance := n\<rparr>) ?s1)"
      using None False assms(2)
      by (simp add: credit_or_create_account_def get_account_def create_account_def credit_def hm_get_put
          checked_add64_def balance_of_def)
    have "account_ok i ((account_new i)\<lparr>acc_balance := n\<rparr>)"
      using None assms(2) by (simp add: account_ok_def balance_of_def)
    then have "accounts_wf (hm_put i ((account_new i)\<lparr>acc_balance := n\<rparr>) ?s1)"
      using assms(1) by (intro wf_intros) simp_all
    moreover have "total_balance (hm_put i ((account_new i)\<lparr>acc_balance := n\<rparr>) ?s1) = total_balance s + n"
      using None by (simp add: total_balance_def hm_put_put hm_total_put_new)
    ultimately show ?thesis using run None by (auto simp: balance_of_def hm_get_put)
  next
    case (Some a)
    have run: "credit_or_create_account (i, n) s = (Inr (), hm_put i (a\<lparr>acc_balance := acc_balance a + n\<rparr>) s)"
      using Some False assms(2)
      by (simp add: credit_or_create_account_def get_account_def credit_def checked_add64_def balance_of_def)
    have "account_ok i (a\<lparr>acc_balance := acc_balance a + n\<rparr>)"
      using Some assms accounts_wf_get [OF assms(1) Some] by (simp add: account_ok_def balance_of_def)
    then have "accounts_wf (hm_put i (a\<lparr>acc_balance := acc_balance a + n\<rparr>) s)"
      using assms(1) by (intro wf_intros)
    moreover have "total_balance (hm_put i (a\<lparr>acc_balance := acc_balance a + n\<rparr>) s) = total_balance s + n"
      using Some unfolding total_balance_def by (rule ledger.total_give) simp
    ultimately show ?thesis using run Some by (auto simp: balance_of_def hm_get_put)
  qed
qed

lemma credit_or_create_err:
  "U64_MAX < balance_of s i + n \<Longrightarrow> accounts_wf s \<Longrightarrow> n \<le> U64_MAX \<Longrightarrow>
     \<exists>e. credit_or_create_account (i, n) s = (Inl e, s)"
  by (auto simp: credit_or_create_account_def balance_of_def get_account_def credit_def checked_add64_def
      dest!: accounts_wf_get split: option.splits) (simp_all add: account_ok_def)

text \<open>A whole plan is payable when the total stays a \<open>u64\<close>.\<close>

lemma pay_planned_credits_ok:
  assumes "accounts_wf s" and "total_balance s + planned_total p \<le> U64_MAX"
  shows "\<exists>t. pay_planned_credits p s = (Inr (), t) \<and> accounts_wf t \<and>
           total_balance t = total_balance s + planned_total p"
  using assms
proof (induction p arbitrary: s)
  case Nil
  then show ?case by (simp add: pay_planned_credits_def planned_total_def hm_total_def)
next
  case (Cons x p)
  obtain i n where x: "x = (i, n)" by (cases x)
  have tot: "planned_total (x # p) = n + planned_total p" by (simp add: planned_total_def hm_total_def x)
  have "balance_of s i + n \<le> U64_MAX" using balance_of_le [of s i] Cons.prems(2) tot by linarith
  then obtain t where t: "credit_or_create_account (i, n) s = (Inr (), t)" "accounts_wf t"
    "total_balance t = total_balance s + n"
    using credit_or_create_ok [OF Cons.prems(1)] by blast
  with Cons.IH [of t] Cons.prems(2) tot show ?case
    by (auto simp: pay_planned_credits_def x add.assoc)
qed

lemma ensure_creditable_ok:
  assumes "total_balance s + planned_total p \<le> U64_MAX"
  shows "ensure_planned_credits_creditable s p = Inr ()"
proof -
  have "can_credit s i n = Inr ()" if "(i, n) \<in> set p" for i n
  proof -
    have "n \<le> planned_total p"
      using that member_le_sum_list [of n "map (\<lambda>kv. id (snd kv)) p"]
      by (force simp: planned_total_def hm_total_def)
    then have "balance_of s i + n \<le> U64_MAX" using assms balance_of_le [of s i] by linarith
    then show ?thesis by (auto simp: can_credit_def balance_of_def checked_add64_def split: option.splits)
  qed
  then have "is_ok (ensure_planned_credits_creditable s p)"
    by (auto simp: ensure_planned_credits_creditable_def for_each_ok_iff)
  then show ?thesis by (cases "ensure_planned_credits_creditable s p") simp_all
qed

lemma add_planned_credit_ok:
  assumes "planned_total p + n \<le> U64_MAX"
  shows "\<exists>q. add_planned_credit i n p = (Inr (), q) \<and> planned_total q = planned_total p + n \<and>
           (hm_wf p \<longrightarrow> hm_wf q)"
proof -
  have "(case hm_get p i of None \<Rightarrow> 0 | Some v \<Rightarrow> v) \<le> planned_total p"
    using hm_total_ge [of p i _ id] by (auto simp: planned_total_def split: option.splits)
  then have fit: "(case hm_get p i of None \<Rightarrow> 0 | Some v \<Rightarrow> v) + n \<le> U64_MAX" using assms by linarith
  show ?thesis
  proof (cases "hm_get p i")
    case None
    then show ?thesis using fit
      by (auto simp: add_planned_credit_def checked_add64_def planned_total_def hm_total_put_new intro: wf_intros)
  next
    case (Some v)
    then have "hm_total id (hm_put i (v + n) p) = hm_total id p + n"
      using hm_total_put_upd [of p i v id "v + n"] by simp
    then show ?thesis using Some fit
      by (auto simp: add_planned_credit_def checked_add64_def planned_total_def intro: wf_intros)
  qed
qed

lemma fold_planned_credits_ok:
  assumes "planned_total p + sum_list (map snd ms) \<le> U64_MAX"
  shows "\<exists>q. fold_while_ok (\<lambda>(i, n). add_planned_credit i n) ms p = (Inr (), q) \<and>
           planned_total q = planned_total p + sum_list (map snd ms)"
  using assms
proof (induction ms arbitrary: p)
  case (Cons m ms)
  obtain i n where m: "m = (i, n)" by (cases m)
  obtain q where q: "add_planned_credit i n p = (Inr (), q)" "planned_total q = planned_total p + n"
    using add_planned_credit_ok [of p n i] Cons.prems m by auto
  with Cons.IH [of q] Cons.prems m show ?case by (auto simp: add.assoc)
qed simp

end
