(* ===== verification/Difficulty.thy ===== *)
theory Difficulty
  imports Emission
begin

text \<open>
  Difficulty retargeting, \<open>crates/consensus/src/difficulty.rs\<close>: the epoch retarget, the
  consensus floor from issued and bonded supply, and the u64 proof-of-work check.
\<close>

record difficulty_target =
  dt_target :: nat
  dt_retarget :: nat
  dt_consensus_floor :: nat

definition effective_difficulty :: "difficulty_target \<Rightarrow> nat" where
  "effective_difficulty t = max (max (dt_retarget t) (dt_consensus_floor t)) MIN_DIFFICULTY"

definition compute_consensus_floor :: "nat \<Rightarrow> nat \<Rightarrow> nat" where
  "compute_consensus_floor total_issued bonded_stake =
     (if bonded_stake = 0 then 0 else total_issued div bonded_stake)"

definition compute_retarget :: "nat \<Rightarrow> nat \<Rightarrow> nat list \<Rightarrow> nat" where
  "compute_retarget current_difficulty current_height block_timestamps =
     (if current_height < EPOCH then max current_difficulty MIN_DIFFICULTY
      else
        (let window_start = sat_sub (sat_add64 current_height 1) (length block_timestamps);
             epoch_start = sat_sub current_height EPOCH
         in if epoch_start < window_start then max current_difficulty MIN_DIFFICULTY
            else
              (let start_idx = epoch_start - window_start;
                   end_idx = length block_timestamps - 1
               in if end_idx \<le> start_idx then max current_difficulty MIN_DIFFICULTY
                  else
                    (let actual_time =
                           sat_sub (block_timestamps ! end_idx) (block_timestamps ! start_idx);
                         expected_time_ms = EPOCH * BLOCK_TARGET_TIME_MS;
                         actual_time_ms = sat_mul64 actual_time 1000
                     in if actual_time_ms = 0 then sat_mul64 current_difficulty 4
                        else
                          (let numerator = current_difficulty * expected_time_ms;
                               denominator = actual_time_ms;
                               new_difficulty = wrap64 ((numerator + denominator div 2) div denominator)
                           in max new_difficulty MIN_DIFFICULTY)))))"

definition compute_next_difficulty :: "nat \<Rightarrow> nat \<Rightarrow> nat list \<Rightarrow> nat \<Rightarrow> nat \<Rightarrow> difficulty_target" where
  "compute_next_difficulty current_difficulty current_height block_timestamps total_issued bonded_stake =
     (let retarget = compute_retarget current_difficulty current_height block_timestamps;
          consensus_floor = compute_consensus_floor total_issued bonded_stake;
          effective = max (max retarget consensus_floor) MIN_DIFFICULTY
      in \<lparr> dt_target = difficulty_to_target effective, dt_retarget = retarget,
           dt_consensus_floor = consensus_floor \<rparr>)"

definition check_proof_of_work :: "nat \<Rightarrow> nat \<Rightarrow> bool" where
  "check_proof_of_work hash_value difficulty =
     (let target = difficulty_to_target difficulty
      in if target = 0 then False else hash_value \<le> target)"

section \<open>Basic facts\<close>

lemma effective_difficulty_pos: "1 \<le> effective_difficulty t"
  by (simp add: effective_difficulty_def const_defs)

lemma next_difficulty_target:
  "dt_target (compute_next_difficulty d h ts i b)
     = difficulty_to_target (effective_difficulty (compute_next_difficulty d h ts i b))"
  by (simp add: compute_next_difficulty_def effective_difficulty_def Let_def)

lemma next_difficulty_floor:
  "0 < b \<Longrightarrow> i div b \<le> effective_difficulty (compute_next_difficulty d h ts i b)"
  by (simp add: compute_next_difficulty_def effective_difficulty_def compute_consensus_floor_def Let_def)

text \<open>The indices the retarget reads are inside the timestamp window.\<close>

lemma compute_retarget_indices:
  assumes "EPOCH \<le> h" and "h < U64_MAX" and "ts \<noteq> []" and "length ts \<le> h + 1"
    and "\<not> sat_sub h EPOCH < sat_sub (sat_add64 h 1) (length ts)"
  shows "sat_sub h EPOCH - sat_sub (sat_add64 h 1) (length ts) = length ts - 1 - EPOCH
    \<and> EPOCH < length ts"
proof -
  have "sat_add64 h 1 = h + 1" using assms(2) by (simp add: sat_add64_def)
  then show ?thesis using assms by (simp add: sat_sub_def)
qed

lemma round_div_error:
  fixes n d :: nat
  assumes "0 < d"
  shows "2 * ((n + d div 2) div d) * d \<le> 2 * n + d" and "2 * n \<le> 2 * ((n + d div 2) div d) * d + d"
proof -
  let ?q = "(n + d div 2) div d"
  have "?q * d \<le> n + d div 2" by (rule div_times_less_eq_dividend)
  then have "2 * (?q * d) \<le> 2 * n + d" by linarith
  then show "2 * ?q * d \<le> 2 * n + d" by (simp add: mult.assoc)
  have "n + d div 2 < ?q * d + d"
    using dividend_less_div_times [OF assms, of "n + d div 2"] by (simp add: add.commute)
  then have "2 * n \<le> 2 * (?q * d) + d" by linarith
  then show "2 * n \<le> 2 * ?q * d + d" by (simp add: mult.assoc)
qed

section \<open>Properties\<close>

text \<open>
  Over a full epoch the retarget is the current difficulty scaled by expected over actual
  time, rounded to nearest: the new difficulty times the measured milliseconds is within half a
  measured interval of the current difficulty times 86,400,000 ms, as long as the quotient fits
  a u64, and it never falls below the minimum.
\<close>

theorem retarget_scales_to_epoch_time:
  assumes h: "EPOCH \<le> h" "h < U64_MAX" and len: "length ts = EPOCH + 1"
    and act: "ts ! 0 < ts ! EPOCH" "(ts ! EPOCH - ts ! 0) * 1000 \<le> U64_MAX"
    and fits: "d * 86400000 + (ts ! EPOCH - ts ! 0) * 500 \<le> U64_MAX"
    and big: "(ts ! EPOCH - ts ! 0) * 1000 \<le> d * 86400000"
  shows "2 * compute_retarget d h ts * ((ts ! EPOCH - ts ! 0) * 1000)
           \<le> 2 * (d * 86400000) + (ts ! EPOCH - ts ! 0) * 1000
    \<and> 2 * (d * 86400000)
           \<le> 2 * compute_retarget d h ts * ((ts ! EPOCH - ts ! 0) * 1000) + (ts ! EPOCH - ts ! 0) * 1000
    \<and> MIN_DIFFICULTY \<le> compute_retarget d h ts"
proof -
  let ?den = "(ts ! EPOCH - ts ! 0) * 1000" and ?num = "d * 86400000"
  let ?q = "(?num + ?den div 2) div ?den"
  have den: "0 < ?den" using act by simp
  have half: "?den div 2 = (ts ! EPOCH - ts ! 0) * 500" by simp
  have "?q \<le> ?num + ?den div 2" by (rule div_le_dividend)
  then have "?q \<le> U64_MAX" unfolding half using fits by (rule le_trans)
  then have q: "wrap64 ?q = ?q" by (rule wrap64_exact)
  have q1: "1 \<le> ?q" using big den by (simp add: less_eq_div_iff_mult_less_eq)
  have win: "sat_add64 h 1 - (EPOCH + 1) = h - EPOCH"
    using h by (simp add: sat_add64_def)
  have ms: "sat_mul64 (sat_sub (ts ! EPOCH) (ts ! 0)) 1000 = ?den"
    using act(2) by (simp add: sat_mul64_def sat_sub_def)
  have exp: "EPOCH * BLOCK_TARGET_TIME_MS = 86400000" by (simp add: const_defs)
  have ifs: "(h < EPOCH) = False" "(EPOCH \<le> 0) = False" "(?den = 0) = False"
    using h(1) den EPOCH_pos by (auto simp del: EPOCH_pos)
  have "compute_retarget d h ts = max (wrap64 ?q) MIN_DIFFICULTY"
    unfolding compute_retarget_def Let_def exp len using ms
    by (simp only: ifs win sat_sub_def diff_self_eq_0 add_diff_cancel_right' less_irrefl if_False)
  then have eq: "compute_retarget d h ts = ?q" using q q1 by (simp only: max_absorb1 const_defs)
  show ?thesis unfolding eq using round_div_error [OF den, of ?num] q1 by (simp add: const_defs)
qed

theorem retarget_scales_to_epoch_time_witness:
  "compute_retarget 14 960 (0 # replicate 959 1 @ [43200]) = 28"
proof -
  let ?ts = "0 # replicate 959 1 @ [43200] :: nat list"
  have e: "?ts ! EPOCH = 43200" by (simp add: EPOCH_def nth_append)
  have l: "length ?ts = EPOCH + 1" by (simp add: EPOCH_def)
  have "2 * compute_retarget 14 960 ?ts * 43200000 \<le> 2 * (14 * 86400000) + 43200000
     \<and> 2 * (14 * 86400000) \<le> 2 * compute_retarget 14 960 ?ts * 43200000 + 43200000
     \<and> MIN_DIFFICULTY \<le> compute_retarget 14 960 ?ts"
    using retarget_scales_to_epoch_time [of 960 ?ts 14] e l
    by (simp add: EPOCH_def U64_MAX_def)
  then show ?thesis by linarith
qed

text \<open>
  For difficulties 1 to 63 the u64 check accepts exactly the hash prefixes with at least
  that many leading zero bits; at difficulty 64 and above it accepts nothing, not even the zero
  prefix, although the target of difficulty 64 is documented as one that hash 0 passes.
\<close>

theorem check_proof_of_work_leading_zeros:
  "check_proof_of_work hash_value d \<longleftrightarrow> 1 \<le> d \<and> d \<le> 63 \<and> bit_length hash_value \<le> 64 - d"
proof -
  have bl: "hash_value < 2 ^ k \<longleftrightarrow> bit_length hash_value \<le> k" for k
  proof
    assume "bit_length hash_value \<le> k"
    then have "(2::nat) ^ bit_length hash_value \<le> 2 ^ k" by (rule power_increasing) simp
    then show "hash_value < 2 ^ k" using bit_length_upper [of hash_value] by linarith
  qed (rule bit_length_le)
  have t: "difficulty_to_target d = 0 \<longleftrightarrow> d = 0 \<or> 64 \<le> d"
  proof (cases "1 \<le> d \<and> d \<le> 63")
    case True
    have "(2::nat) ^ 1 \<le> 2 ^ (64 - d)" using True by (intro power_increasing) auto
    with True show ?thesis by (simp add: difficulty_to_target_def)
  next
    case False
    then have "d = 0 \<or> d = 64 \<or> 64 < d" by linarith
    then show ?thesis by (auto simp: difficulty_to_target_def)
  qed
  show ?thesis
  proof (cases "1 \<le> d \<and> d \<le> 63")
    case True
    have "0 < (2::nat) ^ (64 - d)" by simp
    then have "hash_value \<le> 2 ^ (64 - d) - 1 \<longleftrightarrow> hash_value < 2 ^ (64 - d)" by linarith
    with True t bl show ?thesis
      by (simp add: check_proof_of_work_def Let_def difficulty_to_target_def)
  next
    case False
    with t show ?thesis by (auto simp: check_proof_of_work_def Let_def)
  qed
qed

end
