(* ===== verification/Chain.thy ===== *)
theory Chain
  imports Storage_Laws Economics Difficulty
begin

text \<open>
  The chain state of \<open>crates/node/src/node.rs\<close> and its conversion to and from the persisted form;
  the finality index of refiner attestations; and the checks on double-sign evidence and on
  attestations. A \<open>HashSet\<close> is a list without repetitions.
\<close>

section \<open>State\<close>

record chain_state =
  cs_current_height :: nat
  cs_current_difficulty :: nat
  cs_total_issued :: nat
  cs_total_burned :: nat
  cs_mint_ledger :: mint_ledger_totals
  cs_block_timestamps :: "nat list"
  cs_genesis_hash :: hash
  cs_latest_block_hash :: hash
  cs_state_root :: hash
  cs_suggested_fee :: nat
  cs_producer_signatures :: "(nat \<times> string, hash \<times> byte list) hash_map"
  cs_base_reward :: nat
  cs_finalized_height :: nat
  cs_finality_refiners :: "(nat \<times> hash, object_id list) hash_map"

definition BLOCK_TIMESTAMP_WINDOW_LEN :: nat where "BLOCK_TIMESTAMP_WINDOW_LEN = EPOCH + 1"

definition hs_insert :: "'a \<Rightarrow> 'a list \<Rightarrow> 'a list" where
  "hs_insert x s = (if x \<in> set s then s else s @ [x])"

definition prune_block_timestamps :: "nat list \<Rightarrow> nat list" where
  "prune_block_timestamps ts =
     (let excess = sat_sub (length ts) BLOCK_TIMESTAMP_WINDOW_LEN
      in if 0 < excess then drop excess ts else ts)"

text \<open>\<open>ChainState::new\<close>; an error is the panic when the genesis block cannot be built.\<close>

definition chain_state_new :: "'x externs_scheme \<Rightarrow> genesis_config \<Rightarrow> opolys_error + chain_state" where
  "chain_state_new X config =
     and_then (build_genesis_block X config) (\<lambda>genesis.
       let genesis_hash = compute_block_hash X (blk_header genesis) in
       Inr \<lparr> cs_current_height = 0, cs_current_difficulty = gn_initial_difficulty config, cs_total_issued = 0,
             cs_total_burned = 0, cs_mint_ledger = mint_ledger_default,
             cs_block_timestamps = [bh_timestamp (blk_header genesis)], cs_genesis_hash = genesis_hash,
             cs_latest_block_hash = genesis_hash, cs_state_root = bh_state_root (blk_header genesis),
             cs_suggested_fee = MIN_FEE, cs_producer_signatures = [], cs_base_reward = gn_base_reward config,
             cs_finalized_height = 0, cs_finality_refiners = [] \<rparr>)"

section \<open>Persistence\<close>

definition from_persisted :: "persisted_chain_state \<Rightarrow> chain_state" where
  "from_persisted p =
     \<lparr> cs_current_height = ps_current_height p, cs_current_difficulty = ps_current_difficulty p,
       cs_total_issued = ps_total_issued p, cs_total_burned = ps_total_burned p,
       cs_mint_ledger = ps_mint_ledger p, cs_block_timestamps = prune_block_timestamps (ps_block_timestamps p),
       cs_genesis_hash = hash_from_bytes (ps_genesis_hash p),
       cs_latest_block_hash = hash_from_bytes (ps_latest_block_hash p),
       cs_state_root = hash_from_bytes (ps_state_root p), cs_suggested_fee = ps_suggested_fee p,
       cs_producer_signatures =
         fold (\<lambda>(h, prod, bh, sig) m. hm_put (h, prod) (bh, sig) m) (ps_producer_signatures p) [],
       cs_base_reward = (if 0 < ps_base_reward p then ps_base_reward p else BASE_REWARD),
       cs_finalized_height = ps_finalized_height p,
       cs_finality_refiners =
         fold (\<lambda>(h, bh, refiners) m. hm_put (h, bh) (fold hs_insert refiners []) m) (ps_finality_refiners p) [] \<rparr>"

text \<open>Sorting by height and then by hash is a stable sort by hash followed by one by height.\<close>

definition to_persisted :: "chain_state \<Rightarrow> persisted_chain_state" where
  "to_persisted c =
     \<lparr> ps_chain_id = MAINNET_CHAIN_ID, ps_genesis_hash = hash_as_bytes (cs_genesis_hash c),
       ps_current_height = cs_current_height c, ps_current_difficulty = cs_current_difficulty c,
       ps_total_issued = cs_total_issued c, ps_total_burned = cs_total_burned c,
       ps_mint_ledger = cs_mint_ledger c,
       ps_block_timestamps = prune_block_timestamps (cs_block_timestamps c),
       ps_latest_block_hash = hash_as_bytes (cs_latest_block_hash c),
       ps_state_root = hash_as_bytes (cs_state_root c), ps_suggested_fee = cs_suggested_fee c,
       ps_base_reward = cs_base_reward c,
       ps_producer_signatures = map (\<lambda>((h, prod), (bh, sig)). (h, prod, bh, sig)) (cs_producer_signatures c),
       ps_finalized_height = cs_finalized_height c,
       ps_finality_refiners =
         sort_key (\<lambda>(h, bh, refiners). h) (sort_key (\<lambda>(h, bh, refiners). bh)
           (map (\<lambda>((h, bh), refiners). (h, bh, sort_key object_id_hash refiners)) (cs_finality_refiners c))) \<rparr>"

definition circulating_supply :: "chain_state \<Rightarrow> nat" where
  "circulating_supply c = sat_sub (cs_total_issued c) (cs_total_burned c)"

section \<open>Evidence and attestations\<close>

text \<open>\<open>try_into\<close> of a slice into an array: the lengths must agree.\<close>

definition verify_slash_evidence :: "'x externs_scheme \<Rightarrow> double_sign_evidence \<Rightarrow> bool" where
  "verify_slash_evidence X e =
     (if ev_hash_a e = ev_hash_b e then False
      else if length (ev_producer_pubkey e) \<noteq> 32 then False
      else if ed25519_public_key_to_object_id X (ev_producer_pubkey e) \<noteq> ev_producer e then False
      else verify_ed25519 X (ev_producer_pubkey e) (refiner_block_signing_payload (ev_hash_a e)) (ev_signature_a e) \<and>
           verify_ed25519 X (ev_producer_pubkey e) (refiner_block_signing_payload (ev_hash_b e)) (ev_signature_b e))"

definition reject_msg :: "bool \<Rightarrow> String.literal \<Rightarrow> message + unit" where
  "reject_msg b m = (if b then Inl (Fmt m []) else Inr ())"

definition verify_block_attestation_against_refiners ::
  "'x externs_scheme \<Rightarrow> block_attestation \<Rightarrow> hash \<Rightarrow> refiner_set \<Rightarrow> message + unit" where
  "verify_block_attestation_against_refiners X a canonical_hash refiners =
     and_then (reject_msg (length (at_refiner_pubkey a) \<noteq> 32) (STR ''Attestation public key must be 32 bytes'')) (\<lambda>_.
     and_then (reject_msg (length (at_signature a) \<noteq> 64) (STR ''Attestation signature must be 64 bytes'')) (\<lambda>_.
     and_then (reject_msg (at_block_hash a \<noteq> canonical_hash) (STR ''Attestation block hash is not canonical'')) (\<lambda>_.
     and_then (reject_msg (ed25519_public_key_to_object_id X (at_refiner_pubkey a) \<noteq> at_refiner a)
         (STR ''Attestation public key does not match refiner ObjectId'')) (\<lambda>_.
     and_then (ok_or (get_refiner refiners (at_refiner a)) (Fmt (STR ''Attestation refiner is not bonded'') [])) (\<lambda>r.
     and_then (reject_msg (ri_status r \<noteq> Active) (STR ''Attestation refiner is not active'')) (\<lambda>_.
     reject_msg (\<not> verify_ed25519 X (at_refiner_pubkey a)
           (block_attestation_signing_payload (at_height a) (at_block_hash a)) (at_signature a))
         (STR ''Attestation signature verification failed'')))))))"

section \<open>Finality\<close>

definition active_weight :: "refiner_set \<Rightarrow> nat \<Rightarrow> nat" where
  "active_weight refiners timestamp =
     sum_list (map (\<lambda>r. refiner_weight r timestamp) (filter (\<lambda>r. ri_status r = Active) (all_refiners refiners)))"

text \<open>The sum of fewer than \<open>2^64\<close> weights of 64 bits, times 667, computed in \<open>u128\<close>.\<close>

definition active_refiner_weight_milli_threshold :: "refiner_set \<Rightarrow> nat \<Rightarrow> nat" where
  "active_refiner_weight_milli_threshold refiners timestamp =
     div_ceil (wrap128 (wrap128 (active_weight refiners timestamp) * FINALITY_CONFIDENCE_MILLI)) 1000"

definition finalized_height_from_attestation_weights ::
  "nat \<Rightarrow> (nat, nat) hash_map \<Rightarrow> nat \<Rightarrow> nat" where
  "finalized_height_from_attestation_weights current weights threshold =
     (if threshold = 0 then current
      else
        (let hs = map fst (filter (\<lambda>(height, weight). current < height \<and> threshold \<le> weight) weights)
         in if hs = [] then current else fold max hs 0))"

definition indexed_attestation_weight_for_refiners ::
  "object_id list \<Rightarrow> refiner_set \<Rightarrow> nat \<Rightarrow> nat" where
  "indexed_attestation_weight_for_refiners ids refiners timestamp =
     fold (\<lambda>r acc. sat_add128 acc (refiner_weight r timestamp))
       (filter (\<lambda>r. ri_status r = Active) (List.map_filter (get_refiner refiners) ids)) 0"

definition prune_attestation_finality_index :: "chain_state \<Rightarrow> chain_state" where
  "prune_attestation_finality_index c =
     (let min_live_height = sat_sub (cs_current_height c) EPOCH in
      c\<lparr>cs_finality_refiners :=
         filter (\<lambda>((height, _), _). cs_finalized_height c < height \<and> min_live_height \<le> height)
           (cs_finality_refiners c)\<rparr>)"

section \<open>Laws\<close>

lemma reject_msg_ok [simp]: "is_ok (reject_msg b m) \<longleftrightarrow> \<not> b" "reject_msg b m = Inr () \<longleftrightarrow> \<not> b"
  by (simp_all add: reject_msg_def)

lemma verify_block_attestation_ok:
  "is_ok (verify_block_attestation_against_refiners X a h refiners) \<longleftrightarrow>
     length (at_signature a) = 64 \<and> at_block_hash a = h \<and>
     at_refiner a = ed25519_public_key_to_object_id X (at_refiner_pubkey a) \<and>
     (\<exists>r. hm_get (rs_refiners refiners) (at_refiner a) = Some r \<and> ri_status r = Active) \<and>
     verify_ed25519 X (at_refiner_pubkey a) (block_attestation_signing_payload (at_height a) (at_block_hash a)) (at_signature a)"
  by (auto simp: verify_block_attestation_against_refiners_def and_then_is_ok get_refiner_def verify_ed25519_iff)

lemma verify_slash_evidence_iff:
  "verify_slash_evidence X e \<longleftrightarrow> ev_hash_a e \<noteq> ev_hash_b e \<and>
     ev_producer e = ed25519_public_key_to_object_id X (ev_producer_pubkey e) \<and>
     verify_ed25519 X (ev_producer_pubkey e) (refiner_block_signing_payload (ev_hash_a e)) (ev_signature_a e) \<and>
     verify_ed25519 X (ev_producer_pubkey e) (refiner_block_signing_payload (ev_hash_b e)) (ev_signature_b e)"
  by (auto simp: verify_slash_evidence_def verify_ed25519_iff)

lemma fold_max_start: "a \<le> fold max xs (a :: nat)"
proof (induction xs arbitrary: a)
  case (Cons x xs)
  show ?case using Cons.IH [of "max x a"] by simp
qed simp

lemma fold_max_ge: "x \<in> set xs \<Longrightarrow> x \<le> fold max xs (a :: nat)"
proof (induction xs arbitrary: a)
  case (Cons y xs)
  then show ?case using fold_max_start [of "max y a" xs] by auto
qed simp

lemma fold_max_in: "fold max xs (a :: nat) = a \<or> fold max xs a \<in> set xs"
proof (induction xs arbitrary: a)
  case (Cons x xs)
  show ?case using Cons.IH [of "max x a"] by (auto simp: max_def split: if_splits)
qed simp

text \<open>The new finalized height is the largest height above the current one with enough weight.\<close>

lemma finalized_height_law:
  fixes current threshold :: nat and weights :: "(nat, nat) hash_map"
  defines "f \<equiv> finalized_height_from_attestation_weights current weights threshold"
  shows "current \<le> f"
    and "f \<noteq> current \<Longrightarrow> \<exists>w. (f, w) \<in> set weights \<and> threshold \<le> w \<and> 0 < threshold"
    and "(h, w) \<in> set weights \<Longrightarrow> threshold \<le> w \<Longrightarrow> 0 < threshold \<Longrightarrow> h \<le> f"
proof -
  let ?hs = "map fst (filter (\<lambda>(height, weight). current < height \<and> threshold \<le> weight) weights)"
  have f: "f = (if threshold = 0 \<or> ?hs = [] then current else fold max ?hs 0)"
    by (simp add: f_def finalized_height_from_attestation_weights_def Let_def)
  have mem: "h \<in> set ?hs \<Longrightarrow> current < h \<and> (\<exists>w. (h, w) \<in> set weights \<and> threshold \<le> w)" for h by auto
  have in_hs: "f \<in> set ?hs" if some: "\<not> (threshold = 0 \<or> ?hs = [])"
  proof -
    have "f = fold max ?hs 0" using f some by simp
    moreover obtain h where "h \<in> set ?hs" using some by (metis hd_in_set)
    then have "0 < fold max ?hs 0" using mem [of h] fold_max_ge [of h ?hs 0] by linarith
    ultimately show ?thesis using fold_max_in [of ?hs 0] by force
  qed
  show "current \<le> f" using f in_hs mem [of f] by (auto split: if_splits)
  show "f \<noteq> current \<Longrightarrow> \<exists>w. (f, w) \<in> set weights \<and> threshold \<le> w \<and> 0 < threshold"
    using f in_hs mem [of f] by (auto split: if_splits)
  show "h \<le> f" if "(h, w) \<in> set weights" "threshold \<le> w" "0 < threshold"
  proof (cases "current < h")
    case True
    then have "h \<in> set ?hs" using that by force
    then show ?thesis using f fold_max_ge [of h ?hs 0] that(3) by (auto split: if_splits)
  next
    case False
    with \<open>current \<le> f\<close> show ?thesis by simp
  qed
qed

section \<open>Restoring the chain state\<close>

definition chain_maps_ok :: "chain_state \<Rightarrow> bool" where
  "chain_maps_ok c \<longleftrightarrow> hm_wf (cs_producer_signatures c) \<and> hm_wf (cs_finality_refiners c) \<and>
     (\<forall>k rs. hm_get (cs_finality_refiners c) k = Some rs \<longrightarrow> distinct rs) \<and>
     length (cs_block_timestamps c) \<le> BLOCK_TIMESTAMP_WINDOW_LEN \<and> 0 < cs_base_reward c"

text \<open>Equal but for the order inside the finality index.\<close>

definition same_chain :: "chain_state \<Rightarrow> chain_state \<Rightarrow> bool" where
  "same_chain c d \<longleftrightarrow> d\<lparr>cs_finality_refiners := []\<rparr> = c\<lparr>cs_finality_refiners := []\<rparr> \<and>
     (\<forall>k. map_option set (hm_get (cs_finality_refiners d) k) = map_option set (hm_get (cs_finality_refiners c) k))"

lemma prune_block_timestamps_id: "length ts \<le> BLOCK_TIMESTAMP_WINDOW_LEN \<Longrightarrow> prune_block_timestamps ts = ts"
  by (simp add: prune_block_timestamps_def sat_sub_def)

lemma prune_block_timestamps_eq: "prune_block_timestamps ts = drop (length ts - BLOCK_TIMESTAMP_WINDOW_LEN) ts"
  by (simp add: prune_block_timestamps_def sat_sub_def)

lemma fold_hs_insert: "set (fold hs_insert xs s) = set xs \<union> set s" "distinct s \<Longrightarrow> distinct (fold hs_insert xs s)"
  by (induction xs arbitrary: s) (auto simp: hs_insert_def)

lemma mset_persisted_index:
  "mset (ps_finality_refiners (to_persisted c)) =
     mset (map (\<lambda>((h, bh), refiners). (h, bh, sort_key object_id_hash refiners)) (cs_finality_refiners c))"
  by (simp add: to_persisted_def)

lemma restored_index:
  assumes "hm_wf (cs_finality_refiners c)"
  shows "map_option set (hm_get (cs_finality_refiners (from_persisted (to_persisted c))) k) =
         map_option set (hm_get (cs_finality_refiners c) k)"
    and "hm_wf (cs_finality_refiners (from_persisted (to_persisted c)))"
    and "hm_get (cs_finality_refiners (from_persisted (to_persisted c))) k = Some rs \<Longrightarrow> distinct rs"
proof -
  let ?P = "ps_finality_refiners (to_persisted c)"
  let ?key = "\<lambda>(h :: nat, bh :: hash, refiners :: object_id list). (h, bh)"
  let ?val = "\<lambda>(h :: nat, bh :: hash, refiners). fold hs_insert refiners []"
  let ?m = "cs_finality_refiners c"
  have keys: "mset (map ?key ?P) = mset (map fst ?m)"
    unfolding mset_map mset_persisted_index by (simp add: image_mset.compositionality comp_def case_prod_unfold)
  then have dist: "distinct (map ?key ?P)" using assms unfolding hm_wf_def by (metis mset_eq_imp_distinct_iff)
  have "cs_finality_refiners (from_persisted (to_persisted c)) = fold (\<lambda>e m. hm_put (?key e) (?val e) m) ?P []"
    by (simp add: from_persisted_def case_prod_unfold)
  also have "\<dots> = map (\<lambda>e. (?key e, ?val e)) ?P"
    using fold_put_fresh [where k = ?key and v = ?val and xs = ?P and m = "[]"] dist by simp
  finally have r: "cs_finality_refiners (from_persisted (to_persisted c)) = map (\<lambda>e. (?key e, ?val e)) ?P" .
  show wf: "hm_wf (cs_finality_refiners (from_persisted (to_persisted c)))"
    using dist by (simp add: r hm_wf_def comp_def)
  have setP: "set ?P = (\<lambda>((h, bh), refiners). (h, bh, sort_key object_id_hash refiners)) ` set ?m"
    using mset_eq_setD [OF mset_persisted_index [of c]] by (simp only: list.set_map)
  have fwd: "hm_get (cs_finality_refiners (from_persisted (to_persisted c))) k = Some (fold hs_insert (sort_key object_id_hash rs) [])"
    if "hm_get ?m k = Some rs" for rs
  proof -
    have "(k, rs) \<in> set ?m" using that by (rule hm_get_in_set)
    then have "(fst k, snd k, sort_key object_id_hash rs) \<in> set ?P"
      unfolding setP by (rule rev_image_eqI) (simp add: case_prod_unfold)
    then have "(k, fold hs_insert (sort_key object_id_hash rs) []) \<in> set (map (\<lambda>e. (?key e, ?val e)) ?P)" by force
    then show ?thesis using wf unfolding r by (intro hm_in_set_get)
  qed
  have none: "hm_get (cs_finality_refiners (from_persisted (to_persisted c))) k = None" if "hm_get ?m k = None"
  proof -
    have "set (map ?key ?P) = set (map fst ?m)" using keys by (rule mset_eq_setD)
    then show ?thesis using that unfolding hm_get_None_iff r by (simp add: image_image)
  qed
  show "map_option set (hm_get (cs_finality_refiners (from_persisted (to_persisted c))) k) =
      map_option set (hm_get ?m k)"
    using fwd none by (cases "hm_get ?m k") (simp_all add: fold_hs_insert(1))
  show "distinct rs" if "hm_get (cs_finality_refiners (from_persisted (to_persisted c))) k = Some rs"
    using that fwd none fold_hs_insert(2) [of "[]"] by (cases "hm_get ?m k") auto
qed

lemma restored_signatures:
  assumes "hm_wf (cs_producer_signatures c)"
  shows "cs_producer_signatures (from_persisted (to_persisted c)) = cs_producer_signatures c"
proof -
  let ?m = "cs_producer_signatures c"
  have "fold (\<lambda>(h, prod, bh, sig) m. hm_put (h, prod) (bh, sig) m)
      (map (\<lambda>((h, prod), (bh, sig)). (h, prod, bh, sig)) ?m) [] = fold (\<lambda>e m. hm_put (fst e) (snd e) m) ?m []"
    by (simp add: fold_map comp_def case_prod_unfold)
  also have "\<dots> = map (\<lambda>e. (fst e, snd e)) ?m"
    using fold_put_fresh [where k = fst and v = snd and xs = ?m and m = "[]"] assms by (simp add: hm_wf_def)
  finally show ?thesis by (simp add: from_persisted_def to_persisted_def)
qed

lemma persisted_round_trip:
  assumes "chain_maps_ok c"
  shows "same_chain c (from_persisted (to_persisted c)) \<and> chain_maps_ok (from_persisted (to_persisted c))"
proof -
  let ?d = "from_persisted (to_persisted c)"
  have ts: "prune_block_timestamps (prune_block_timestamps (cs_block_timestamps c)) = cs_block_timestamps c"
    using assms by (simp add: chain_maps_ok_def prune_block_timestamps_id)
  have sig: "cs_producer_signatures ?d = cs_producer_signatures c"
    using assms by (intro restored_signatures) (simp add: chain_maps_ok_def)
  have scalars: "cs_current_height ?d = cs_current_height c" "cs_current_difficulty ?d = cs_current_difficulty c"
    "cs_total_issued ?d = cs_total_issued c" "cs_total_burned ?d = cs_total_burned c"
    "cs_mint_ledger ?d = cs_mint_ledger c" "cs_block_timestamps ?d = cs_block_timestamps c"
    "cs_genesis_hash ?d = cs_genesis_hash c" "cs_latest_block_hash ?d = cs_latest_block_hash c"
    "cs_state_root ?d = cs_state_root c" "cs_suggested_fee ?d = cs_suggested_fee c"
    "cs_base_reward ?d = cs_base_reward c" "cs_finalized_height ?d = cs_finalized_height c"
    using assms ts by (simp_all add: from_persisted_def to_persisted_def chain_maps_ok_def)
  have "?d\<lparr>cs_finality_refiners := []\<rparr> = c\<lparr>cs_finality_refiners := []\<rparr>"
    using scalars sig by (intro chain_state.equality) simp_all
  moreover note index = restored_index [of c]
  ultimately show ?thesis
    using assms scalars sig index by (simp add: same_chain_def chain_maps_ok_def)
qed

section \<open>Property\<close>

text \<open>
  Restarting loses nothing. Converting the chain state to its persisted form and back gives the
  same state: height, difficulty, supply, ledger, timestamps, hashes, double-sign records and the
  reward exactly, and the same refiners under every key of the finality index; the result is again
  well formed.
\<close>

theorem chain_state_round_trip:
  assumes "chain_maps_ok c"
  shows "same_chain c (from_persisted (to_persisted c)) \<and> chain_maps_ok (from_persisted (to_persisted c))"
  by (rule persisted_round_trip [OF assms])

theorem chain_state_round_trip_witness:
  "\<exists>c. cs_finality_refiners c \<noteq> [] \<and> same_chain c (from_persisted (to_persisted c))"
proof -
  let ?c = "\<lparr> cs_current_height = 5, cs_current_difficulty = 7, cs_total_issued = 100, cs_total_burned = 3,
      cs_mint_ledger = mint_ledger_default, cs_block_timestamps = [0, 90], cs_genesis_hash = Hash 1,
      cs_latest_block_hash = Hash 2, cs_state_root = Hash 3, cs_suggested_fee = 1,
      cs_producer_signatures = [((4, ''aa''), (Hash 9, [1]))], cs_base_reward = 332000000, cs_finalized_height = 0,
      cs_finality_refiners = [((4, Hash 8), [ObjectId (Hash 6), ObjectId (Hash 5)]), ((3, Hash 7), [ObjectId (Hash 5)])] \<rparr>"
  have "chain_maps_ok ?c"
    by (auto simp: chain_maps_ok_def hm_wf_def hm_get_def BLOCK_TIMESTAMP_WINDOW_LEN_def EPOCH_def split: if_splits)
  from chain_state_round_trip [OF this] show ?thesis by (intro exI [of _ ?c]) simp
qed

end
