(* ===== verification/Refiner_Props.thy ===== *)
theory Refiner_Props
  imports Refiner_Laws "HOL-Library.Multiset"
begin

text \<open>
  Properties of the refiner set: the life cycle of every refiner, the invariant of reachable
  sets, the exact bonded total, and the fairness of producer selection.
\<close>

section \<open>The life cycle\<close>

lemma lifecycle_one: "lifecycle x y \<Longrightarrow> lifecycle\<^sup>*\<^sup>* x y"
  by (rule r_into_rtranclp)

lemma lifecycle_mature: "lifecycle\<^sup>*\<^sup>* (Some Bonding) (Some Waiting)"
  by (rule lifecycle_one, rule lifecycle.mature)

lemma lifecycle_fast: "lifecycle\<^sup>*\<^sup>* (Some Bonding) (Some Active)"
  by (rule lifecycle_one, rule lifecycle.fast)

lemma status_of_put:
  "rs_refiners t = hm_put i r (rs_refiners s) \<Longrightarrow>
   status_of t j = (if j = i then Some (ri_status r) else status_of s j)"
  by (simp add: status_of_def hm_get_put)

lemma bond_lifecycle:
  assumes "bond i stake h ts issued s = (r, t)"
  shows "lifecycle\<^sup>*\<^sup>* (status_of s j) (status_of t j)"
proof (cases r)
  case (Inl e)
  with assms have "t = s" using bond_err by blast
  then show ?thesis by simp
next
  case (Inr u)
  with assms have "bond i stake h ts issued s = (Inr u, t)" by simp
  then show ?thesis
  proof (cases rule: bond_cases)
    case fresh
    then show ?thesis
      by (auto simp: status_of_def hm_get_put refiner_new_def intro: lifecycle_one lifecycle.join)
  next
    case (topup r0 r')
    then show ?thesis using add_entry_ok(3) [OF topup(3)]
      by (auto simp: status_of_def hm_get_put intro: lifecycle_one lifecycle.rejoin)
  qed
qed

lemma unbond_lifecycle:
  assumes wf: "refiners_wf s" and run: "unbond_amount i amount h s = (x, t)"
  shows "lifecycle\<^sup>*\<^sup>* (status_of s j) (status_of t j)"
proof (cases "t = s")
  case False
  then obtain r where r: "unbond_ready s i amount r" and t: "t = unbond_result s i amount h r"
    using unbond_amount_result [OF wf run] by blast
  then have get: "hm_get (rs_refiners s) i = Some r" and le: "0 < stake_sum r"
    by (auto simp: unbond_ready_def)
  have "refiner_ok i r" using wf get by (rule refiners_wf_get)
  with le have "staked (ri_status r)"
    using registry_stake_zero [of i r] by (cases "ri_status r") (auto simp: staked_def refiner_ok_def)
  then show ?thesis using get
    by (auto simp: t unbond_result_def status_of_def hm_get_put after_unbond_def
        intro: lifecycle_one lifecycle.leave)
qed simp

lemma remove_if_done_lifecycle: "lifecycle\<^sup>*\<^sup>* (status_of s j) (status_of (remove_if_done i s) j)"
  by (auto simp: remove_if_done_def Let_def status_of_def hm_get_del
      intro: lifecycle_one lifecycle.gone split: option.splits)

lemma remove_all_lifecycle:
  "lifecycle\<^sup>*\<^sup>* (status_of s j) (status_of (fold (\<lambda>m t. remove_if_done (fst m) t) ms s) j)"
proof (induction ms arbitrary: s)
  case (Cons m ms)
  show ?case
    using rtranclp_trans [OF remove_if_done_lifecycle [of s j "fst m"] Cons.IH] by simp
qed simp

lemma mature_lifecycle:
  assumes "process_matured_unbonds h s = (ms, t)"
  shows "lifecycle\<^sup>*\<^sup>* (status_of s j) (status_of t j)"
proof -
  let ?s1 = "s\<lparr>rs_queue := filter (\<lambda>e. \<not> pu_matures_at e \<le> h) (rs_queue s)\<rparr>"
  have "t = fold (\<lambda>m t. remove_if_done (fst m) t) ms ?s1"
    using assms by (auto simp: process_matured_unbonds_def Let_def)
  moreover have "status_of ?s1 j = status_of s j" by (simp add: status_of_def)
  ultimately show ?thesis using remove_all_lifecycle [of ?s1 j ms] by simp
qed

lemma mark_all_lifecycle:
  assumes "distinct is" and "\<And>i. i \<in> set is \<Longrightarrow> status_of s i = Some Bonding"
  shows "lifecycle\<^sup>*\<^sup>* (status_of s j) (status_of (fold (mark_waiting h) is s) j)"
  using assms
proof (induction "is" arbitrary: s)
  case (Cons i "is")
  have i: "status_of s i = Some Bonding" using Cons.prems(2) by simp
  then have one: "lifecycle\<^sup>*\<^sup>* (status_of s j) (status_of (mark_waiting h i s) j)"
    by (cases "j = i") (auto simp: status_of_def mark_waiting_get intro: lifecycle_mature)
  have "status_of (mark_waiting h i s) k = Some Bonding" if "k \<in> set is" for k
    using that Cons.prems by (auto simp: status_of_def mark_waiting_get)
  then have "lifecycle\<^sup>*\<^sup>* (status_of (mark_waiting h i s) j) (status_of (fold (mark_waiting h) is (mark_waiting h i s)) j)"
    using Cons.prems(1) by (intro Cons.IH) auto
  with one show ?case by simp
qed simp

lemma mark_lifecycle:
  assumes wf: "refiners_wf s" and run: "activate_matured_refiners h s = (is, t)"
  shows "lifecycle\<^sup>*\<^sup>* (status_of s j) (status_of t j)"
proof -
  have "t = fold (mark_waiting h) (eligible_ids h s) s"
    using run by (simp add: activate_matured_refiners_def eligible_ids_def Let_def)
  moreover have "status_of s i = Some Bonding" if "i \<in> set (eligible_ids h s)" for i
    using that eligible_ids_law(2) [OF wf] by (auto simp: eligible_for_activation_def status_of_def)
  ultimately show ?thesis using mark_all_lifecycle [OF eligible_ids_law(1) [OF wf]] by blast
qed

lemma rerank_one_lifecycle:
  "lifecycle\<^sup>*\<^sup>* (status_of (rk_set t) j) (status_of (rk_set (rerank_one limit p t)) j)"
  by (cases "hm_get (rs_refiners (rk_set t)) (snd p)")
    (auto simp: rerank_one_def Let_def status_of_def hm_get_put
      intro: lifecycle_one lifecycle.promote lifecycle.demote)

lemma rerank_fold_lifecycle:
  "lifecycle\<^sup>*\<^sup>* (status_of (rk_set t) j) (status_of (rk_set (fold (rerank_one limit) ps t)) j)"
proof (induction ps arbitrary: t)
  case (Cons p ps)
  show ?case
    using rtranclp_trans [OF rerank_one_lifecycle [of t j limit p] Cons.IH] by simp
qed simp

lemma rerank_lifecycle:
  "rerank_refiners ts issued s = (x, t) \<Longrightarrow> lifecycle\<^sup>*\<^sup>* (status_of s j) (status_of t j)"
  using rerank_fold_lifecycle [of "\<lparr>rk_set = s, rk_activated = [], rk_demoted = []\<rparr>" j]
  by (auto simp: rerank_refiners_def Let_def)

lemma activate_lifecycle:
  "activate i h s = (x, t) \<Longrightarrow> lifecycle\<^sup>*\<^sup>* (status_of s j) (status_of t j)"
  by (auto simp: activate_def status_of_def hm_get_put intro: lifecycle_fast
      split: option.splits if_splits)

lemma slash_lifecycle:
  assumes "refiners_wf s" and "slash_refiner i h s = (x, t)"
  shows "lifecycle\<^sup>*\<^sup>* (status_of s j) (status_of t j)"
proof (cases "j = i")
  case True
  then show ?thesis using slash_law(4) [OF assms]
    by (cases "hm_get (rs_refiners s) i") (auto simp: status_of_def intro: lifecycle_one lifecycle.slash)
next
  case False
  then show ?thesis using slash_law(5) [OF assms] by (simp add: status_of_def)
qed

lemma attest_lifecycle:
  "record_correct_attestation i s = (x, t) \<Longrightarrow> status_of t j = status_of s j"
  by (auto simp: record_correct_attestation_def Let_def status_of_def hm_get_put
      split: option.splits if_splits)

lemma refiner_step_lifecycle:
  assumes "refiner_step s t" and wf: "refiners_wf s"
  shows "lifecycle\<^sup>*\<^sup>* (status_of s j) (status_of t j)"
  using assms(1)
proof cases
  case step_unbond
  with wf show ?thesis by (blast intro: unbond_lifecycle)
next
  case step_mark
  with wf show ?thesis by (blast intro: mark_lifecycle)
next
  case step_slash
  with wf show ?thesis by (blast intro: slash_lifecycle)
next
  case step_attest
  then show ?thesis by (auto dest!: attest_lifecycle [where j = j])
next
  case step_clear
  then show ?thesis by (simp add: clear_dirty_def status_of_def)
qed (blast intro: bond_lifecycle mature_lifecycle rerank_lifecycle activate_lifecycle)+

lemma refiner_steps_law:
  assumes "refiner_step\<^sup>*\<^sup>* s t" and wf: "refiners_wf s"
  shows "refiners_wf t \<and> lifecycle\<^sup>*\<^sup>* (status_of s j) (status_of t j)"
  using assms(1)
proof (induction rule: rtranclp_induct)
  case base
  with wf show ?case by simp
next
  case (step u v)
  then have u: "refiners_wf u" and l: "lifecycle\<^sup>*\<^sup>* (status_of s j) (status_of u j)" by auto
  have "lifecycle\<^sup>*\<^sup>* (status_of u j) (status_of v j)" using step.hyps(2) u by (rule refiner_step_lifecycle)
  with l have "lifecycle\<^sup>*\<^sup>* (status_of s j) (status_of v j)" by (rule rtranclp_trans)
  with refiner_step_wf [OF step.hyps(2) u] show ?case by blast
qed

lemma refiners_reachable_wf: "refiners_reachable s \<Longrightarrow> refiners_wf s"
  by (induction rule: refiners_reachable.induct) (auto simp: refiners_wf_new intro: refiner_step_wf)

section \<open>The bonded total\<close>

lemma hm_total_conv_sum:
  assumes "hm_wf m"
  shows "hm_total w m = (\<Sum>k \<in> fst ` set m. w (the (hm_get m k)))"
proof -
  have "hm_total w m = sum_list (map (\<lambda>k. w (the (hm_get m k))) (map fst m))"
    using assms unfolding hm_total_def
    by (auto intro!: arg_cong [where f = sum_list] simp: hm_in_set_get)
  also have "\<dots> = (\<Sum>k \<in> set (map fst m). w (the (hm_get m k)))"
    using assms by (intro sum_list_distinct_conv_sum_set) (simp add: hm_wf_def)
  finally show ?thesis by simp
qed

lemma hm_total_filter:
  "hm_total w (filter (\<lambda>(k, v). P v) m) = hm_total (\<lambda>v. if P v then w v else 0) m"
  unfolding hm_total_def by (induction m) auto

lemma active_refiners_sum:
  assumes act: "active_ok m as" and wf: "hm_wf m"
  shows "sum_list (map w (List.map_filter (hm_get m) as)) = hm_total (\<lambda>r. if ri_status r = Active then w r else 0) m"
proof -
  let ?w = "\<lambda>r. if ri_status r = Active then w r else 0"
  have in_as: "\<exists>r. hm_get m i = Some r \<and> ri_status r = Active" if "i \<in> set as" for i
    using act that by (simp add: active_ok_def)
  have "sum_list (map w (List.map_filter (hm_get m) as)) = sum_list (map (\<lambda>i. ?w (the (hm_get m i))) as)"
    using in_as
  proof (induction as)
    case (Cons i as)
    then obtain r where "hm_get m i = Some r" "ri_status r = Active" by (meson list.set_intros(1))
    then show ?case using Cons by (simp add: List.map_filter_def)
  qed (simp add: List.map_filter_def)
  also have "\<dots> = (\<Sum>i \<in> set as. ?w (the (hm_get m i)))"
    using act by (intro sum_list_distinct_conv_sum_set) (simp add: active_ok_def)
  also have "\<dots> = (\<Sum>i \<in> fst ` set m. ?w (the (hm_get m i)))"
  proof (rule sum.mono_neutral_left)
    show "set as \<subseteq> fst ` set m"
    proof
      fix i assume "i \<in> set as"
      then obtain r where "hm_get m i = Some r" using in_as by blast
      then have "hm_get m i \<noteq> None" by simp
      then show "i \<in> fst ` set m" unfolding hm_get_None_iff by blast
    qed
    show "\<forall>i \<in> fst ` set m - set as. ?w (the (hm_get m i)) = 0"
    proof
      fix i assume i: "i \<in> fst ` set m - set as"
      then obtain r where "hm_get m i = Some r" using hm_get_None_iff [of m i] by auto
      with i act show "?w (the (hm_get m i)) = 0" by (auto simp: active_ok_def)
    qed
  qed simp
  also have "\<dots> = hm_total ?w m" using wf by (rule hm_total_conv_sum [symmetric])
  finally show ?thesis .
qed

lemma hm_total_add:
  "hm_total (\<lambda>v. f v + g v) m = hm_total f m + hm_total g m"
  unfolding hm_total_def by (induction m) auto

lemma hm_total_cong:
  "hm_wf m \<Longrightarrow> (\<And>k v. hm_get m k = Some v \<Longrightarrow> f v = g v) \<Longrightarrow> hm_total f m = hm_total g m"
  unfolding hm_total_def
  by (intro arg_cong [where f = sum_list] map_cong) (auto dest: hm_in_set_get)

lemma hm_total_mono:
  "(\<And>v. f v \<le> g v) \<Longrightarrow> hm_total f m \<le> hm_total g m"
  unfolding hm_total_def by (induction m) (auto intro: add_mono)

lemma active_refiners_stake:
  assumes wf: "refiners_wf s"
  shows "sum_list (map total_stake (active_refiners s)) =
    hm_total (\<lambda>r. if ri_status r = Active then stake_sum r else 0) (rs_refiners s)"
proof -
  have act: "active_ok (rs_refiners s) (rs_active_set s)" and hm: "hm_wf (rs_refiners s)"
    using wf by (simp_all add: refiners_wf_def registry_ok_def)
  show ?thesis
    unfolding active_refiners_def active_refiners_sum [OF act hm]
    by (rule hm_total_cong [OF hm]) (auto simp: total_stake_exact [OF wf])
qed

lemma total_bonded_stake_exact:
  assumes wf: "refiners_wf s"
  shows "total_bonded_stake s = hm_total stake_sum (rs_refiners s)"
proof -
  let ?m = "rs_refiners s"
  let ?a = "\<lambda>r. if ri_status r = Active then stake_sum r else 0"
  let ?b = "\<lambda>r. if ri_status r = Bonding \<or> ri_status r = Waiting then stake_sum r else 0"
  have hm: "hm_wf ?m" and le: "hm_total stake_sum ?m \<le> U64_MAX"
    using wf by (simp_all add: refiners_wf_def registry_ok_def custody_def)
  have split: "hm_total ?a ?m + hm_total ?b ?m = hm_total stake_sum ?m"
    unfolding hm_total_add [symmetric]
  proof (rule hm_total_cong [OF hm])
    fix i r assume get: "hm_get ?m i = Some r"
    have "refiner_ok i r" using wf get by (rule refiners_wf_get)
    then show "?a r + ?b r = stake_sum r"
      using registry_stake_zero [of i r] by (cases "ri_status r") (auto simp: refiner_ok_def)
  qed
  have other: "sum_list (map (\<lambda>(_, r). total_stake r)
      (filter (\<lambda>(_, r). ri_status r = Bonding \<or> ri_status r = Waiting) ?m)) = hm_total ?b ?m"
  proof -
    have "sum_list (map (\<lambda>(_, r). total_stake r)
        (filter (\<lambda>(_, r). ri_status r = Bonding \<or> ri_status r = Waiting) ?m))
      = hm_total total_stake (filter (\<lambda>(k, r). ri_status r = Bonding \<or> ri_status r = Waiting) ?m)"
      by (simp add: hm_total_def case_prod_unfold)
    also have "\<dots> = hm_total (\<lambda>r. if ri_status r = Bonding \<or> ri_status r = Waiting then total_stake r else 0) ?m"
      by (rule hm_total_filter)
    also have "\<dots> = hm_total ?b ?m"
      by (rule hm_total_cong [OF hm]) (simp add: total_stake_exact [OF wf])
    finally show ?thesis .
  qed
  have "wrap64 (hm_total ?a ?m) = hm_total ?a ?m" "wrap64 (hm_total ?b ?m) = hm_total ?b ?m"
    using split le by (simp_all add: wrap64_exact)
  then show ?thesis
    unfolding total_bonded_stake_def Let_def active_refiners_stake [OF wf] other
    using split le by (simp add: sat_add64_exact)
qed

section \<open>Producer selection\<close>

lemma pick_producer_in: "pick_producer t c rs = Some r \<Longrightarrow> r \<in> set rs"
  by (induction rs arbitrary: c) (auto simp: Let_def split: if_splits)

text \<open>The tickets that name a given refiner are as many as its stake.\<close>

lemma pick_producer_tickets:
  assumes "c + sum_list (map total_stake rs) \<le> U64_MAX" and "distinct rs"
  shows "card {t. c \<le> t \<and> t < c + sum_list (map total_stake rs) \<and> pick_producer t c rs = Some r}
    = (if r \<in> set rs then total_stake r else 0)"
  using assms
proof (induction rs arbitrary: c)
  case (Cons a rs)
  let ?S = "sum_list (map total_stake rs)" and ?w = "total_stake a"
  let ?rest = "{t. c + ?w \<le> t \<and> t < c + ?w + ?S \<and> pick_producer t (c + ?w) rs = Some r}"
  let ?head = "if r = a then {c..<c + ?w} else {}"
  have fit: "c + ?w \<le> U64_MAX" using Cons.prems(1) by simp
  have "{t. c \<le> t \<and> t < c + sum_list (map total_stake (a # rs)) \<and> pick_producer t c (a # rs) = Some r}
    = ?head \<union> ?rest"
    using fit by (auto simp: Let_def sat_add64_exact split: if_splits)
  moreover have "?head \<inter> ?rest = {}" by auto
  moreover have "finite ?head" and "finite ?rest" by simp_all
  ultimately have "card {t. c \<le> t \<and> t < c + sum_list (map total_stake (a # rs)) \<and> pick_producer t c (a # rs) = Some r}
    = card ?head + card ?rest" by (simp only: card_Un_disjoint)
  moreover have "card ?rest = (if r \<in> set rs then total_stake r else 0)"
    using Cons.prems by (intro Cons.IH) simp_all
  ultimately show ?case using Cons.prems(2) by auto
qed simp

lemma pick_producer_some:
  assumes "c \<le> t" and "t < c + sum_list (map total_stake rs)" and "c + sum_list (map total_stake rs) \<le> U64_MAX"
  shows "\<exists>r. pick_producer t c rs = Some r"
  using assms
proof (induction rs arbitrary: c)
  case (Cons a rs)
  show ?case
  proof (cases "t < c + total_stake a")
    case True
    with Cons.prems show ?thesis by (simp add: sat_add64_exact Let_def)
  next
    case False
    with Cons.prems Cons.IH [of "c + total_stake a"] show ?thesis by (simp add: sat_add64_exact Let_def)
  qed
qed simp

lemma fold_sat_stake:
  "b + sum_list (map total_stake rs) \<le> U64_MAX \<Longrightarrow>
   fold (\<lambda>r acc. sat_add64 acc (total_stake r)) rs b = b + sum_list (map total_stake rs)"
  by (induction rs arbitrary: b) (simp_all add: sat_add64_exact)

text \<open>Counting the numbers below a multiple of \<open>m\<close> by their residue.\<close>

lemma card_residues:
  fixes m q :: nat
  assumes "A \<subseteq> {..<m}"
  shows "card {n. n < q * m \<and> n mod m \<in> A} = q * card A"
proof (cases "m = 0")
  case True
  with assms show ?thesis by simp
next
  case False
  let ?f = "\<lambda>(a, b). a * m + b"
  have "bij_betw ?f ({..<q} \<times> A) {n. n < q * m \<and> n mod m \<in> A}"
  proof (rule bij_betw_imageI)
    show "inj_on ?f ({..<q} \<times> A)"
    proof (rule inj_onI, clarify)
      fix a b a' b' assume ab: "b \<in> A" "b' \<in> A" and eq: "a * m + b = a' * m + b'"
      have lt: "b < m" "b' < m" using ab assms by auto
      have "b = (a * m + b) mod m" "b' = (a' * m + b') mod m" using lt by simp_all
      then have b: "b = b'" using eq by simp
      then have "a * m = a' * m" using eq by simp
      with b False show "a = a' \<and> b = b'" by simp
    qed
    show "?f ` ({..<q} \<times> A) = {n. n < q * m \<and> n mod m \<in> A}"
    proof (intro equalityI subsetI)
      fix n assume "n \<in> ?f ` ({..<q} \<times> A)"
      then obtain a b where n: "n = a * m + b" "a < q" "b \<in> A" by auto
      have b: "b < m" using n(3) assms by auto
      have "n < (a + 1) * m" using n(1) b by simp
      also have "\<dots> \<le> q * m" using n(2) by (intro mult_le_mono1) simp
      finally show "n \<in> {n. n < q * m \<and> n mod m \<in> A}" using n b by simp
    next
      fix n assume n: "n \<in> {n. n < q * m \<and> n mod m \<in> A}"
      then have "n div m < q" using False by (simp add: div_less_iff_less_mult)
      moreover have "n = n div m * m + n mod m" by simp
      ultimately show "n \<in> ?f ` ({..<q} \<times> A)" using n by (intro image_eqI [of _ _ "(n div m, n mod m)"]) auto
    qed
  qed
  then have "card {n. n < q * m \<and> n mod m \<in> A} = card ({..<q} \<times> A)" by (rule bij_betw_same_card [symmetric])
  then show ?thesis by (simp add: card_cartesian_product)
qed

lemma card_words:
  assumes "z \<le> 2 ^ 64"
  shows "card {w :: 64 word. unat w < z \<and> P (unat w)} = card {n. n < z \<and> P n}"
proof -
  have "bij_betw unat {w :: 64 word. unat w < z \<and> P (unat w)} {n. n < z \<and> P n}"
  proof (rule bij_betw_imageI)
    show "inj_on unat {w :: 64 word. unat w < z \<and> P (unat w)}"
      by (rule inj_onI) (simp add: word_unat_eq_iff)
    show "unat ` {w :: 64 word. unat w < z \<and> P (unat w)} = {n. n < z \<and> P n}"
    proof (intro equalityI subsetI)
      fix n assume n: "n \<in> {n. n < z \<and> P n}"
      then have "n < 2 ^ 64" using assms by simp
      then have "unat (word_of_nat n :: 64 word) = n" by (simp add: unat_of_nat)
      with n show "n \<in> unat ` {w :: 64 word. unat w < z \<and> P (unat w)}"
        by (intro image_eqI [of _ _ "word_of_nat n"]) simp_all
    qed auto
  qed
  then show ?thesis by (rule bij_betw_same_card)
qed

definition total_active_stake :: "refiner_set \<Rightarrow> nat" where
  "total_active_stake s = sum_list (map total_stake (producer_candidates s))"

lemma unbiased_zone_multiple: "unbiased_zone m = (2 ^ 64 div m) * m"
  by (simp add: unbiased_zone_def minus_mod_eq_div_mult)

lemma sample_in_zone:
  "unat seed < unbiased_zone m \<Longrightarrow> sample_loop (unbiased_zone m) m seed = Some (unat seed mod m)"
  by (subst sample_loop.simps) (simp add: Let_def)

lemma sample_range:
  assumes "sample_loop zone m seed = Some v" and "0 < m"
  shows "v < m"
proof -
  have "0 < m \<longrightarrow> v < m"
    by (rule sample_loop.raw_induct [OF _ assms(1), where P = "\<lambda>zone m seed v. 0 < m \<longrightarrow> v < m"])
      (auto simp: Let_def split: if_splits)
  with assms(2) show ?thesis by blast
qed

lemma producer_candidates_law:
  assumes wf: "refiners_wf s"
  shows "distinct (producer_candidates s)"
    and "r \<in> set (producer_candidates s) \<longleftrightarrow> hm_get (rs_refiners s) (ri_object_id r) = Some r \<and> ri_status r = Active"
    and "total_active_stake s \<le> U64_MAX"
proof -
  let ?m = "rs_refiners s"
  have act: "active_ok ?m (rs_active_set s)" and reg: "registry_ok ?m"
    using wf by (simp_all add: refiners_wf_def)
  have in_act: "x \<in> set (active_refiners s) \<longleftrightarrow> hm_get ?m (ri_object_id x) = Some x \<and> ri_status x = Active" for x
  proof
    assume "x \<in> set (active_refiners s)"
    then obtain i where i: "i \<in> set (rs_active_set s)" "hm_get ?m i = Some x"
      by (auto simp: active_refiners_def List.map_filter_def)
    then have "ri_object_id x = i" using registry_ok_get [OF reg] by (auto simp: refiner_ok_def)
    with i act show "hm_get ?m (ri_object_id x) = Some x \<and> ri_status x = Active"
      by (auto simp: active_ok_def)
  next
    assume x: "hm_get ?m (ri_object_id x) = Some x \<and> ri_status x = Active"
    then have "ri_object_id x \<in> set (rs_active_set s)" using act by (auto simp: active_ok_def)
    with x show "x \<in> set (active_refiners s)"
      unfolding active_refiners_def List.map_filter_def by force
  qed
  have pos: "0 < total_stake x" if x: "hm_get ?m (ri_object_id x) = Some x" "ri_status x = Active" for x
  proof -
    have ok: "refiner_ok (ri_object_id x) x" using reg x(1) by (rule registry_ok_get)
    then have "0 < stake_sum x" using x(2) by (auto intro: staked_stake_pos simp: staked_def)
    then show ?thesis using total_stake_exact [OF wf x(1)] by simp
  qed
  have "distinct (List.map_filter (hm_get ?m) as)" if "\<And>i. i \<in> set as \<Longrightarrow> \<exists>r. hm_get ?m i = Some r" "distinct as" for as
    using that
  proof (induction as)
    case (Cons i as)
    obtain r where r: "hm_get ?m i = Some r" using Cons.prems(1) by (meson list.set_intros(1))
    have "r \<notin> set (List.map_filter (hm_get ?m) as)"
    proof
      assume "r \<in> set (List.map_filter (hm_get ?m) as)"
      then obtain j where j: "j \<in> set as" "hm_get ?m j = Some r" by (auto simp: List.map_filter_def)
      have "ri_object_id r = i" "ri_object_id r = j"
        using registry_ok_get [OF reg r] registry_ok_get [OF reg j(2)] by (simp_all add: refiner_ok_def)
      with j(1) Cons.prems(2) show False by simp
    qed
    moreover have "distinct (List.map_filter (hm_get ?m) as)" using Cons by simp
    ultimately show ?case using r by (simp add: List.map_filter_def)
  qed (simp add: List.map_filter_def)
  from this [of "rs_active_set s"] have "distinct (active_refiners s)"
    unfolding active_refiners_def using act unfolding active_ok_def by blast
  then show "distinct (producer_candidates s)" by (simp add: producer_candidates_def)
  show "r \<in> set (producer_candidates s) \<longleftrightarrow> hm_get ?m (ri_object_id r) = Some r \<and> ri_status r = Active"
    using in_act [of r] pos [of r] by (auto simp: producer_candidates_def)
  have "sum_list (map total_stake (filter (\<lambda>r. 0 < total_stake r) xs)) = sum_list (map total_stake xs)" for xs
    by (induction xs) auto
  moreover have "sum_list (map total_stake (sort_key ri_object_id xs)) = sum_list (map total_stake xs)" for xs
    by (metis mset_map mset_sort sum_mset_sum_list)
  ultimately have "total_active_stake s = sum_list (map total_stake (active_refiners s))"
    by (simp add: total_active_stake_def producer_candidates_def)
  also have "\<dots> \<le> hm_total stake_sum ?m"
    unfolding active_refiners_stake [OF wf] by (rule hm_total_mono) simp
  also have "\<dots> \<le> U64_MAX" using wf by (simp add: refiners_wf_def custody_def)
  finally show "total_active_stake s \<le> U64_MAX" .
qed

lemma select_in_zone:
  assumes wf: "refiners_wf s" and pos: "0 < total_active_stake s"
    and zone: "unat seed < unbiased_zone (total_active_stake s)"
  shows "select_block_producer seed s =
    Some (pick_producer (unat seed mod total_active_stake s) 0 (producer_candidates s))"
proof -
  let ?T = "total_active_stake s"
  have fold: "fold (\<lambda>r acc. sat_add64 acc (total_stake r)) (producer_candidates s) 0 = ?T"
    using fold_sat_stake [of 0 "producer_candidates s"] producer_candidates_law(3) [OF wf]
    by (simp add: total_active_stake_def)
  show ?thesis
    using pos sample_in_zone [OF zone]
    by (simp add: select_block_producer_def Let_def fold uniform_amount_from_seed_def)
qed

section \<open>Reranking\<close>

definition rerank_status :: "nat \<Rightarrow> nat \<Rightarrow> refiner_status \<Rightarrow> refiner_status" where
  "rerank_status limit rank x =
     (if rank < limit then (if x = Waiting then Active else x) else (if x = Active then Waiting else x))"

lemma rerank_one_get:
  "hm_get (rs_refiners (rk_set (rerank_one limit p t))) j =
     (if j = snd p then map_option (\<lambda>r. r\<lparr>ri_status := rerank_status limit (fst p) (ri_status r)\<rparr>)
                          (hm_get (rs_refiners (rk_set t)) j)
      else hm_get (rs_refiners (rk_set t)) j)"
  by (cases "hm_get (rs_refiners (rk_set t)) (snd p)")
    (auto simp: rerank_one_def Let_def hm_get_put rerank_status_def)

lemma rerank_fold_get:
  assumes "distinct is"
  shows "hm_get (rs_refiners (rk_set (fold (rerank_one limit) (zip [n..<n + length is] is) t))) j =
     (case position (\<lambda>i. i = j) is of
        None \<Rightarrow> hm_get (rs_refiners (rk_set t)) j
      | Some k \<Rightarrow> map_option (\<lambda>r. r\<lparr>ri_status := rerank_status limit (n + k) (ri_status r)\<rparr>)
                    (hm_get (rs_refiners (rk_set t)) j))"
  using assms
proof (induction "is" arbitrary: n t)
  case (Cons i "is")
  have zip: "zip [n..<n + length (i # is)] (i # is) = (n, i) # zip [Suc n..<Suc n + length is] is"
    using upt_conv_Cons [of n "n + length (i # is)"] by (simp del: upt_Suc)
  show ?case
  proof (cases "i = j")
    case True
    then have "position (\<lambda>k. k = j) is = None" using Cons.prems by (auto simp: position_None)
    with True Cons.prems Cons.IH [of "Suc n" "rerank_one limit (n, i) t"] show ?thesis
      unfolding zip by (simp add: rerank_one_get)
  next
    case False
    with Cons.prems Cons.IH [of "Suc n" "rerank_one limit (n, i) t"] show ?thesis
      unfolding zip by (auto simp: rerank_one_get split: option.splits)
  qed
qed simp

lemma rerank_order_law:
  assumes wf: "refiners_wf s"
  shows "distinct (rerank_order s)"
    and "i \<in> set (rerank_order s) \<longleftrightarrow> (\<exists>r. hm_get (rs_refiners s) i = Some r \<and> staked (ri_status r))"
    and "sorted_wrt (\<lambda>i j. stake_sum (the (hm_get (rs_refiners s) j)) \<le> stake_sum (the (hm_get (rs_refiners s) i)))
           (rerank_order s)"
proof -
  let ?m = "rs_refiners s"
  let ?el = "map (\<lambda>(i, r). (i, total_stake r)) (filter (\<lambda>(i, r). ri_status r \<noteq> Slashed \<and> 0 < total_stake r) ?m)"
  let ?so = "sort_key (\<lambda>p. - int (snd p)) (sort_key fst ?el)"
  have reg: "registry_ok ?m" and hm: "hm_wf ?m" using wf by (simp_all add: refiners_wf_def registry_ok_def)
  have ord: "rerank_order s = map fst ?so" by (simp add: rerank_order_def Let_def)
  have del: "distinct (map fst ?el)"
  proof -
    have "map fst ?el = map fst (filter (\<lambda>(i, r). ri_status r \<noteq> Slashed \<and> 0 < total_stake r) ?m)"
      by (simp add: comp_def case_prod_unfold)
    moreover have "distinct (map fst (filter (\<lambda>(i, r). ri_status r \<noteq> Slashed \<and> 0 < total_stake r) ?m))"
      using hm by (simp add: hm_wf_def distinct_map_filter)
    ultimately show ?thesis by (simp only:)
  qed
  have "mset (map fst ?so) = mset (map fst ?el)" by (simp only: mset_map mset_sort)
  from mset_eq_imp_distinct_iff [OF this] del show "distinct (rerank_order s)" unfolding ord by blast
  have mem: "p \<in> set ?so \<longleftrightarrow> (\<exists>r. hm_get ?m (fst p) = Some r \<and> snd p = total_stake r \<and> ri_status r \<noteq> Slashed \<and> 0 < total_stake r)" for p
    using hm by (cases p) (force dest: hm_get_in_set hm_in_set_get)
  have staked: "ri_status r \<noteq> Slashed \<and> 0 < total_stake r \<longleftrightarrow> staked (ri_status r)" if g: "hm_get ?m i = Some r" for i r
  proof -
    have ok: "refiner_ok i r" using reg g by (rule registry_ok_get)
    show ?thesis
    proof
      assume "ri_status r \<noteq> Slashed \<and> 0 < total_stake r"
      then show "staked (ri_status r)"
        using ok registry_stake_zero [OF ok] total_stake_exact [OF wf g]
        by (cases "ri_status r") (auto simp: staked_def refiner_ok_def)
    next
      assume st: "staked (ri_status r)"
      then have "0 < stake_sum r" using ok by (blast intro: staked_stake_pos)
      with st show "ri_status r \<noteq> Slashed \<and> 0 < total_stake r"
        using total_stake_exact [OF wf g] by (auto simp: staked_def)
    qed
  qed
  show "i \<in> set (rerank_order s) \<longleftrightarrow> (\<exists>r. hm_get ?m i = Some r \<and> staked (ri_status r))"
  proof
    assume "i \<in> set (rerank_order s)"
    then obtain p where "p \<in> set ?so" "fst p = i" unfolding ord set_map by blast
    with mem [of p] staked [of i] show "\<exists>r. hm_get ?m i = Some r \<and> staked (ri_status r)" by blast
  next
    assume "\<exists>r. hm_get ?m i = Some r \<and> staked (ri_status r)"
    then obtain r where r: "hm_get ?m i = Some r" "staked (ri_status r)" by blast
    with staked [of i r] mem [of "(i, total_stake r)"] have "(i, total_stake r) \<in> set ?so" by simp
    then show "i \<in> set (rerank_order s)" unfolding ord set_map by force
  qed
  have "sorted (map (\<lambda>p. - int (snd p)) ?so)" by (rule sorted_sort_key)
  then have "sorted_wrt (\<lambda>p q. snd q \<le> snd p) ?so" by (simp add: sorted_map)
  then have "sorted_wrt (\<lambda>p q. stake_sum (the (hm_get ?m (fst q))) \<le> stake_sum (the (hm_get ?m (fst p)))) ?so"
  proof (rule sorted_wrt_mono_rel [rotated])
    fix p q assume "p \<in> set ?so" "q \<in> set ?so" "snd q \<le> snd p"
    then show "stake_sum (the (hm_get ?m (fst q))) \<le> stake_sum (the (hm_get ?m (fst p)))"
      using mem [of p] mem [of q] total_stake_exact [OF wf] by auto
  qed
  then show "sorted_wrt (\<lambda>i j. stake_sum (the (hm_get ?m j)) \<le> stake_sum (the (hm_get ?m i))) (rerank_order s)"
    unfolding ord by (simp add: sorted_wrt_map)
qed

lemma position_take:
  "distinct xs \<Longrightarrow> position (\<lambda>x. x = y) xs = Some k \<Longrightarrow> (k < n \<longleftrightarrow> y \<in> set (take n xs))"
proof -
  assume d: "distinct xs" and p: "position (\<lambda>x. x = y) xs = Some k"
  from position_Some [OF p] have k: "k < length xs" "xs ! k = y" by auto
  show "k < n \<longleftrightarrow> y \<in> set (take n xs)"
    using d k by (auto simp: in_set_conv_nth nth_eq_iff_index_eq)
qed

text \<open>The refiners within the active limit, by stake.\<close>

definition top_ranked :: "nat \<Rightarrow> refiner_set \<Rightarrow> object_id list" where
  "top_ranked issued s = take (active_refiner_limit issued) (rerank_order s)"

lemma rerank_get:
  assumes wf: "refiners_wf s" and run: "rerank_refiners ts issued s = (pq, t)"
    and get: "hm_get (rs_refiners s) i = Some r"
  shows "hm_get (rs_refiners t) i =
    Some (r\<lparr>ri_status := (if i \<in> set (top_ranked issued s) then (if ri_status r = Waiting then Active else ri_status r)
                          else (if ri_status r = Active then Waiting else ri_status r))\<rparr>)"
proof -
  let ?o = "rerank_order s"
  have t: "t = rk_set (fold (rerank_one (active_refiner_limit issued)) (zip [0..<0 + length ?o] ?o)
      \<lparr> rk_set = s, rk_activated = [], rk_demoted = [] \<rparr>)"
    using run by (auto simp: rerank_refiners_def Let_def)
  note g = rerank_fold_get [OF rerank_order_law(1) [OF wf], of "active_refiner_limit issued" 0
      "\<lparr> rk_set = s, rk_activated = [], rk_demoted = [] \<rparr>" i]
  show ?thesis
  proof (cases "position (\<lambda>j. j = i) ?o")
    case None
    then have out: "i \<notin> set ?o" by (auto simp: position_None)
    then have "ri_status r \<noteq> Active" "ri_status r \<noteq> Waiting"
      using rerank_order_law(2) [OF wf, of i] get by (auto simp: staked_def)
    moreover have "hm_get (rs_refiners t) i = Some r" using g None get unfolding t by simp
    ultimately show ?thesis by simp
  next
    case (Some k)
    have "k < active_refiner_limit issued \<longleftrightarrow> i \<in> set (top_ranked issued s)"
      unfolding top_ranked_def using rerank_order_law(1) [OF wf] Some by (rule position_take)
    then show ?thesis using g Some get unfolding t by (simp add: rerank_status_def)
  qed
qed

section \<open>A concrete set for the witnesses\<close>

definition sample_refiner :: refiner_info where
  "sample_refiner =
     \<lparr> ri_object_id = ObjectId (Hash 1),
       ri_entries = [\<lparr> bd_stake = 2000000, bd_height = 0, bd_timestamp = 100 \<rparr>,
                     \<lparr> bd_stake = 3000000, bd_height = 10, bd_timestamp = 200 \<rparr>],
       ri_status = Active, ri_last_signed_height = 0, ri_attestations = 0 \<rparr>"

definition sample_set :: refiner_set where
  "sample_set =
     \<lparr> rs_refiners = [(ObjectId (Hash 1), sample_refiner)], rs_active_set = [ObjectId (Hash 1)], rs_dirty = {},
       rs_queue = [\<lparr> pu_account = ObjectId (Hash 1), pu_amount = 500000, pu_matures_at = 970 \<rparr>] \<rparr>"

lemma sample_set_get: "hm_get (rs_refiners sample_set) i = (if i = ObjectId (Hash 1) then Some sample_refiner else None)"
  by (simp add: sample_set_def hm_get_def)

lemma sample_stake: "stake_sum sample_refiner = 5000000" "custody sample_set = 5500000"
  by (simp_all add: stake_sum_def sample_refiner_def custody_def sample_set_def hm_total_def)

lemma sample_set_wf: "refiners_wf sample_set"
proof -
  have "refiner_ok (ObjectId (Hash 1)) sample_refiner" by (simp add: refiner_ok_def sample_refiner_def)
  then have "registry_ok (rs_refiners sample_set)"
    by (auto simp: registry_ok_def sample_set_get) (simp add: sample_set_def hm_wf_def)
  moreover have "active_ok (rs_refiners sample_set) (rs_active_set sample_set)"
    by (auto simp: active_ok_def sample_set_get sample_refiner_def) (simp_all add: sample_set_def)
  ultimately show ?thesis by (simp add: refiners_wf_def sample_stake U64_MAX_def)
qed

lemma sample_slash:
  obtains s where "slash_refiner (ObjectId (Hash 1)) 1000 sample_set = (Inr 5500000, s)"
    and "rs_refiners s = [(ObjectId (Hash 1), slashed_refiner sample_refiner)]"
proof -
  let ?i = "ObjectId (Hash 1)"
  have pend: "pending_of ?i (rs_queue sample_set) = 500000"
    by (simp add: pending_of_def sample_set_def)
  have act: "(ri_status sample_refiner = Slashed) = False" by (simp add: sample_refiner_def)
  have "slash_refiner ?i 1000 sample_set = (Inr (stake_sum sample_refiner + 500000),
      sample_set\<lparr>rs_queue := filter (\<lambda>e. pu_account e \<noteq> ?i) (rs_queue sample_set),
        rs_refiners := hm_put ?i (slashed_refiner sample_refiner) (rs_refiners sample_set),
        rs_active_set := filter (\<lambda>j. j \<noteq> ?i) (rs_active_set sample_set),
        rs_dirty := insert ?i (rs_dirty sample_set)\<rparr>)"
    unfolding slash_exact [OF sample_set_wf] sample_set_get pend by (simp only: act if_True if_False option.case refl HOL.simp_thms)
  then show thesis using that sample_stake by (simp add: sample_set_def hm_put_def)
qed

section \<open>Properties\<close>

text \<open>
  C3: every refiner set that the operations can reach is well formed: ids match their keys, every
  bonded entry is positive and in strict timestamp order, a refiner has no entries exactly while
  it is unbonding, the active list names exactly the active refiners without repetition, and the
  bonded total that consensus reads is the exact sum of all stakes, with no wrap-around.
\<close>

theorem reachable_refiner_set_invariant:
  assumes "refiners_reachable s"
  shows "refiners_wf s \<and> total_bonded_stake s = hm_total stake_sum (rs_refiners s)"
  using refiners_reachable_wf [OF assms] total_bonded_stake_exact by blast

theorem reachable_refiner_set_invariant_witness:
  "\<exists>t. bond (ObjectId (Hash 1)) 5000000 0 100 0 refiner_set_new = (Inr (), t) \<and>
     refiners_wf t \<and> total_bonded_stake t = hm_total stake_sum (rs_refiners t) \<and> custody t = 5000000"
proof -
  let ?i = "ObjectId (Hash 1)"
  have "minimum_bond_stake 0 = 1000000"
    by (simp add: minimum_bond_stake_def refiner_sqrt_floor_def sat_mul128_def FLAKES_PER_OPL_def
        U64_MAX_def U128_MAX_def)
  then obtain t where run: "bond ?i 5000000 0 100 0 refiner_set_new = (Inr (), t)"
    by (simp add: bond_def Let_def refiner_set_new_def)
  have c0: "custody refiner_set_new = 0" by (simp add: custody_def refiner_set_new_def hm_total_def)
  have "refiner_step refiner_set_new t"
    using run c0 by (intro step_bond [OF run]) (simp add: U64_MAX_def)
  with reach_new have "refiners_reachable t" by (rule reach_step)
  from reachable_refiner_set_invariant [OF this] run bond_custody [OF run] c0 show ?thesis by auto
qed



text \<open>
  C7: slashing is final. Whatever sequence of operations follows, a slashed refiner stays in the
  set with status \<open>Slashed\<close> and no stake, so it can never bond, activate or produce again.
\<close>

theorem slashed_is_final:
  assumes wf: "refiners_wf s" and "hm_get (rs_refiners s) i = Some r" and "ri_status r = Slashed"
    and run: "refiner_step\<^sup>*\<^sup>* s t"
  shows "\<exists>r'. hm_get (rs_refiners t) i = Some r' \<and> ri_status r' = Slashed \<and> stake_sum r' = 0"
proof -
  have "lifecycle\<^sup>*\<^sup>* (status_of s i) (status_of t i)" and wt: "refiners_wf t"
    using refiner_steps_law [OF run wf] by blast+
  moreover have "status_of s i = Some Slashed" using assms(2,3) by (simp add: status_of_def)
  ultimately have "status_of t i = Some Slashed" by (blast intro: slashed_absorbing)
  then obtain r' where r': "hm_get (rs_refiners t) i = Some r'" "ri_status r' = Slashed"
    by (auto simp: status_of_def)
  with refiners_wf_get [OF wt r'(1)] show ?thesis by (auto simp: refiner_ok_def)
qed

theorem slashed_is_final_witness:
  "\<exists>s t r. slash_refiner (ObjectId (Hash 1)) 1000 sample_set = (Inr 5500000, s)
     \<and> activate_matured_refiners 5000 s = ([], t)
     \<and> hm_get (rs_refiners t) (ObjectId (Hash 1)) = Some r \<and> ri_status r = Slashed \<and> stake_sum r = 0"
proof -
  let ?i = "ObjectId (Hash 1)"
  obtain s where run: "slash_refiner ?i 1000 sample_set = (Inr 5500000, s)"
    and refs: "rs_refiners s = [(?i, slashed_refiner sample_refiner)]"
    using sample_slash by blast
  have wf: "refiners_wf s" using slash_law(2) [OF sample_set_wf run] .
  have "filter (\<lambda>(i, r). eligible_for_activation 5000 r) (rs_refiners s) = []"
    by (simp add: refs eligible_for_activation_def)
  then have "activate_matured_refiners 5000 s = ([], s)"
    unfolding activate_matured_refiners_def Let_def by simp
  then obtain t where t: "activate_matured_refiners 5000 s = ([], t)" by blast
  have "refiner_step\<^sup>*\<^sup>* s t" using step_mark [OF t] by (rule r_into_rtranclp)
  moreover have "hm_get (rs_refiners s) ?i = Some (slashed_refiner sample_refiner)"
    by (simp add: refs hm_get_def)
  ultimately obtain r where "hm_get (rs_refiners t) ?i = Some r" "ri_status r = Slashed" "stake_sum r = 0"
    using slashed_is_final [OF wf, of ?i] by (metis slashed_stake(2))
  with run t show ?thesis by blast
qed



text \<open>
  A slash burns everything the offender holds. It succeeds exactly when the refiner exists or
  has coins waiting to mature; it then removes all of them from custody, empties the offender's
  share of the unbonding queue, leaves it \<open>Slashed\<close> with no stake and out of the active list, and
  does not touch any other refiner.
\<close>

theorem slash_burns_everything:
  assumes wf: "refiners_wf s" and run: "slash_refiner i h s = (res, t)"
  shows "(is_ok res \<longleftrightarrow> hm_get (rs_refiners s) i \<noteq> None \<or> 0 < pending_of i (rs_queue s))
       \<and> custody s = custody t + (case res of Inl _ \<Rightarrow> 0 | Inr burn \<Rightarrow> burn)
       \<and> pending_of i (rs_queue t) = 0
       \<and> (\<forall>r. hm_get (rs_refiners t) i = Some r \<longrightarrow> ri_status r = Slashed \<and> stake_sum r = 0)
       \<and> i \<notin> set (rs_active_set t)
       \<and> (\<forall>j. j \<noteq> i \<longrightarrow> hm_get (rs_refiners t) j = hm_get (rs_refiners s) j)"
proof (intro conjI allI impI)
  note law = slash_law [OF wf run]
  show "is_ok res \<longleftrightarrow> hm_get (rs_refiners s) i \<noteq> None \<or> 0 < pending_of i (rs_queue s)" by (rule law(6))
  show "custody s = custody t + (case res of Inl _ \<Rightarrow> 0 | Inr burn \<Rightarrow> burn)" by (rule law(1))
  have "filter (\<lambda>e. pu_account e = i) (rs_queue t) = []" using law(3) by (simp add: filter_empty_conv)
  then show "pending_of i (rs_queue t) = 0" by (simp add: pending_of_def)
  show st: "ri_status r = Slashed" if "hm_get (rs_refiners t) i = Some r" for r
    by (rule slash_status [OF wf run that])
  show "stake_sum r = 0" if "hm_get (rs_refiners t) i = Some r" for r
    using refiners_wf_get [OF law(2) that] st [OF that] by (simp add: refiner_ok_def)
  show "i \<notin> set (rs_active_set t)"
    using law(2) st by (auto simp: refiners_wf_def active_ok_def)
  show "hm_get (rs_refiners t) j = hm_get (rs_refiners s) j" if "j \<noteq> i" for j
    using law(5) that by simp
qed

theorem slash_burns_everything_witness:
  "\<exists>t. slash_refiner (ObjectId (Hash 1)) 1000 sample_set = (Inr 5500000, t)
     \<and> custody sample_set = custody t + 5500000 \<and> ObjectId (Hash 1) \<notin> set (rs_active_set t)"
proof -
  obtain t where run: "slash_refiner (ObjectId (Hash 1)) 1000 sample_set = (Inr 5500000, t)"
    using sample_slash by blast
  with slash_burns_everything [OF sample_set_wf run] show ?thesis by auto
qed

text \<open>
  C5: producer selection is proportional to stake. Of the seeds below the rejection threshold,
  which is at most one ticket range short of all \<open>2\<^sup>6\<^sup>4\<close>, the number that selects an active refiner
  is its stake times one and the same factor, and every such seed selects some active refiner.
\<close>

theorem producer_selection_proportional:
  assumes wf: "refiners_wf s" and active: "hm_get (rs_refiners s) i = Some r" "ri_status r = Active"
  defines "T \<equiv> total_active_stake s"
  shows "card {seed. unat seed < unbiased_zone T \<and> select_block_producer seed s = Some (Some r)}
           = (2 ^ 64 div T) * stake_sum r
       \<and> 2 ^ 64 < unbiased_zone T + T
       \<and> (\<forall>seed. unat seed < unbiased_zone T \<longrightarrow> (\<exists>p. select_block_producer seed s = Some (Some p) \<and> ri_status p = Active))"
proof -
  let ?c = "producer_candidates s"
  note law = producer_candidates_law [OF wf]
  have T: "T = sum_list (map total_stake ?c)" by (simp add: T_def total_active_stake_def)
  have ok: "refiner_ok i r" using wf active(1) by (rule refiners_wf_get)
  have mem: "r \<in> set ?c" using law(2) [of r] active ok by (simp add: refiner_ok_def)
  have ts: "total_stake r = stake_sum r" using wf active(1) by (rule total_stake_exact)
  have "0 < stake_sum r" using ok active(2) by (intro staked_stake_pos) (simp_all add: staked_def)
  moreover have "total_stake r \<le> T" unfolding T using mem by (intro member_le_sum_list) auto
  ultimately have pos: "0 < T" using ts by simp
  have fit: "0 + sum_list (map total_stake ?c) \<le> U64_MAX" using law(3) T T_def by simp
  let ?A = "{t. t < T \<and> pick_producer t 0 ?c = Some r}"
  have cardA: "card ?A = stake_sum r"
    using pick_producer_tickets [OF fit law(1), of r] mem ts T by simp
  have sel: "select_block_producer seed s = Some (pick_producer (unat seed mod T) 0 ?c)"
    if "unat seed < unbiased_zone T" for seed
    using select_in_zone [OF wf, of seed] pos that unfolding T_def by blast
  have zone: "unbiased_zone T = (2 ^ 64 div T) * T" by (rule unbiased_zone_multiple)
  have le: "unbiased_zone T \<le> 2 ^ 64" by (simp add: unbiased_zone_def)
  have "{seed. unat seed < unbiased_zone T \<and> select_block_producer seed s = Some (Some r)}
      = {seed. unat seed < unbiased_zone T \<and> unat seed mod T \<in> ?A}"
    using sel pos by auto
  also have "card \<dots> = card {n. n < unbiased_zone T \<and> n mod T \<in> ?A}"
    using card_words [OF le, of "\<lambda>n. n mod T \<in> ?A"] by simp
  also have "\<dots> = (2 ^ 64 div T) * card ?A"
    unfolding zone by (rule card_residues) auto
  finally have one: "card {seed. unat seed < unbiased_zone T \<and> select_block_producer seed s = Some (Some r)}
      = (2 ^ 64 div T) * stake_sum r" unfolding cardA .
  have two: "2 ^ 64 < unbiased_zone T + T"
  proof -
    have "(2 :: nat) ^ 64 mod T < T" "(2 :: nat) ^ 64 mod T \<le> 2 ^ 64" using pos by (simp_all only: mod_less_divisor mod_less_eq_dividend)
    then show ?thesis unfolding unbiased_zone_def by linarith
  qed
  have three: "\<exists>p. select_block_producer seed s = Some (Some p) \<and> ri_status p = Active"
    if z: "unat seed < unbiased_zone T" for seed
  proof -
    have "unat seed mod T < 0 + sum_list (map total_stake ?c)" using pos T by simp
    then obtain p where p: "pick_producer (unat seed mod T) 0 ?c = Some p"
      using pick_producer_some [of 0 "unat seed mod T" ?c] fit by blast
    with pick_producer_in [OF p] law(2) [of p] sel [OF z] show ?thesis by auto
  qed
  from one two three show ?thesis by blast
qed

theorem producer_selection_proportional_witness:
  "card {seed. unat seed < unbiased_zone 5000000 \<and>
      select_block_producer seed sample_set = Some (Some sample_refiner)} = (2 ^ 64 div 5000000) * 5000000"
proof -
  have cand: "producer_candidates sample_set = [sample_refiner]"
    by (simp add: producer_candidates_def active_refiners_def sample_set_def hm_get_def List.map_filter_def)
      (simp add: sample_refiner_def total_stake_def wrap64_def U64_MAX_def)
  have T: "total_active_stake sample_set = 5000000"
    by (simp add: total_active_stake_def cand) (simp add: sample_refiner_def total_stake_def wrap64_def U64_MAX_def)
  show ?thesis
    using producer_selection_proportional [OF sample_set_wf, of "ObjectId (Hash 1)" sample_refiner]
    unfolding T sample_stake by (simp add: sample_set_get) (simp add: sample_refiner_def)
qed

text \<open>
  Reranking fills the active set from the top of the stake ranking. The ranking lists exactly
  the refiners that hold stake, in descending order of stake and without repetition. Afterwards a
  refiner is active exactly when it was waiting or active before and stands within the active
  limit; the active set never exceeds the limit; nothing but the status of a refiner changes.
  A bonding refiner within the limit keeps its rank but is not activated.
\<close>

theorem rerank_selects_top_stakes:
  assumes wf: "refiners_wf s" and run: "rerank_refiners ts issued s = (pq, t)"
  shows "distinct (rerank_order s)
       \<and> set (rerank_order s) = {i. \<exists>r. hm_get (rs_refiners s) i = Some r \<and> staked (ri_status r)}
       \<and> sorted_wrt (\<lambda>i j. stake_sum (the (hm_get (rs_refiners s) j)) \<le> stake_sum (the (hm_get (rs_refiners s) i)))
            (rerank_order s)
       \<and> set (rs_active_set t) = {i. i \<in> set (top_ranked issued s) \<and>
            (\<exists>r. hm_get (rs_refiners s) i = Some r \<and> (ri_status r = Waiting \<or> ri_status r = Active))}
       \<and> length (rs_active_set t) \<le> active_refiner_limit issued
       \<and> (\<forall>i r. hm_get (rs_refiners s) i = Some r \<longrightarrow> (\<exists>x. hm_get (rs_refiners t) i = Some (r\<lparr>ri_status := x\<rparr>)))"
proof (intro conjI allI impI)
  note ord = rerank_order_law [OF wf]
  show "distinct (rerank_order s)" by (rule ord)
  show "set (rerank_order s) = {i. \<exists>r. hm_get (rs_refiners s) i = Some r \<and> staked (ri_status r)}"
    using ord(2) by blast
  show "sorted_wrt (\<lambda>i j. stake_sum (the (hm_get (rs_refiners s) j)) \<le> stake_sum (the (hm_get (rs_refiners s) i)))
            (rerank_order s)" by (rule ord)
  have wt: "refiners_wf t" using rerank_law [OF wf run] by blast
  then have act: "distinct (rs_active_set t)"
      "\<And>i. i \<in> set (rs_active_set t) \<longleftrightarrow> (\<exists>r. hm_get (rs_refiners t) i = Some r \<and> ri_status r = Active)"
    by (simp_all add: refiners_wf_def active_ok_def)
  note get = rerank_get [OF wf run]
  have none: "hm_get (rs_refiners t) i = None" if "hm_get (rs_refiners s) i = None" for i
    using that rerank_fold_get [OF ord(1), of "active_refiner_limit issued" 0
      "\<lparr> rk_set = s, rk_activated = [], rk_demoted = [] \<rparr>" i] run
    by (auto simp: rerank_refiners_def Let_def split: option.splits)
  show eq: "set (rs_active_set t) = {i. i \<in> set (top_ranked issued s) \<and>
            (\<exists>r. hm_get (rs_refiners s) i = Some r \<and> (ri_status r = Waiting \<or> ri_status r = Active))}"
  proof (intro equalityI subsetI)
    fix i assume "i \<in> set (rs_active_set t)"
    then obtain r' where r': "hm_get (rs_refiners t) i = Some r'" "ri_status r' = Active" using act by blast
    with none obtain r where r: "hm_get (rs_refiners s) i = Some r" by (cases "hm_get (rs_refiners s) i") auto
    from get [OF r] r' r show "i \<in> {i. i \<in> set (top_ranked issued s) \<and>
        (\<exists>r. hm_get (rs_refiners s) i = Some r \<and> (ri_status r = Waiting \<or> ri_status r = Active))}"
      by (auto split: if_splits)
  next
    fix i assume "i \<in> {i. i \<in> set (top_ranked issued s) \<and>
        (\<exists>r. hm_get (rs_refiners s) i = Some r \<and> (ri_status r = Waiting \<or> ri_status r = Active))}"
    then obtain r where r: "i \<in> set (top_ranked issued s)" "hm_get (rs_refiners s) i = Some r"
      "ri_status r = Waiting \<or> ri_status r = Active" by blast
    from get [OF r(2)] r show "i \<in> set (rs_active_set t)" unfolding act(2) by auto
  qed
  have "length (rs_active_set t) = card (set (rs_active_set t))" using act(1) by (simp add: distinct_card)
  also have "\<dots> \<le> card (set (top_ranked issued s))" unfolding eq by (rule card_mono) auto
  also have "\<dots> \<le> active_refiner_limit issued"
    using card_length [of "top_ranked issued s"] by (simp add: top_ranked_def)
  finally show "length (rs_active_set t) \<le> active_refiner_limit issued" .
  show "\<exists>x. hm_get (rs_refiners t) i = Some (r\<lparr>ri_status := x\<rparr>)" if "hm_get (rs_refiners s) i = Some r" for i r
    using get [OF that] by blast
qed

theorem rerank_selects_top_stakes_witness:
  "\<exists>pq t. rerank_refiners 0 1000000 sample_set = (pq, t) \<and> length (rs_active_set t) \<le> active_refiner_limit 1000000
     \<and> (\<exists>x. hm_get (rs_refiners t) (ObjectId (Hash 1)) = Some (sample_refiner\<lparr>ri_status := x\<rparr>))"
proof -
  obtain pq t where run: "rerank_refiners 0 1000000 sample_set = (pq, t)" by (metis surj_pair)
  from rerank_selects_top_stakes [OF sample_set_wf run] run show ?thesis
    using sample_set_get [of "ObjectId (Hash 1)"] by (intro exI [of _ pq] exI [of _ t]) simp
qed

text \<open>
  Maturing unbonds returns exactly the queue entries whose height has come, in queue order, and
  keeps exactly the others; the coins it returns leave custody, nothing else does; and a refiner
  disappears only if it was unbonding.
\<close>

theorem matured_unbonds_released:
  assumes wf: "refiners_wf s" and run: "process_matured_unbonds h s = (ms, t)"
  shows "ms = matured_unbonds h s
       \<and> rs_queue t = filter (\<lambda>e. h < pu_matures_at e) (rs_queue s)
       \<and> custody s = custody t + sum_list (map snd ms)
       \<and> hm_total stake_sum (rs_refiners t) = hm_total stake_sum (rs_refiners s)
       \<and> (\<forall>i. status_of t i = status_of s i \<or> (status_of s i = Some Unbonding \<and> status_of t i = None))"
proof -
  note law = process_matured_law [OF wf run]
  have q: "rs_queue t = filter (\<lambda>e. h < pu_matures_at e) (rs_queue s)" using law(4) by (simp add: not_le)
  have "queue_sum (filter (\<lambda>e. pu_matures_at e \<le> h) (rs_queue s)) + queue_sum (rs_queue t) = queue_sum (rs_queue s)"
    unfolding law(4) queue_sum_def by (rule sum_list_filter_split)
  moreover have "sum_list (map snd ms) = queue_sum (filter (\<lambda>e. pu_matures_at e \<le> h) (rs_queue s))"
    by (simp add: law(1) matured_unbonds_def queue_sum_def comp_def)
  ultimately have tot: "hm_total stake_sum (rs_refiners t) = hm_total stake_sum (rs_refiners s)"
    using law(2) by (simp add: custody_def)
  have fold: "status_of (fold (\<lambda>m t. remove_if_done (fst m) t) ms u) i = status_of u i \<or>
      (status_of u i = Some Unbonding \<and> status_of (fold (\<lambda>m t. remove_if_done (fst m) t) ms u) i = None)"
    for ms :: "(object_id \<times> nat) list" and u i
  proof (induction ms arbitrary: u)
    case (Cons m ms)
    have "status_of (remove_if_done (fst m) u) i = status_of u i \<or>
        (status_of u i = Some Unbonding \<and> status_of (remove_if_done (fst m) u) i = None)"
      by (auto simp: remove_if_done_def Let_def status_of_def hm_get_del split: option.splits)
    with Cons.IH [of "remove_if_done (fst m) u"] show ?case by auto
  qed simp
  have t: "t = fold (\<lambda>m t. remove_if_done (fst m) t) ms (s\<lparr>rs_queue := filter (\<lambda>e. \<not> pu_matures_at e \<le> h) (rs_queue s)\<rparr>)"
    using run by (auto simp: process_matured_unbonds_def Let_def)
  have "status_of (s\<lparr>rs_queue := filter (\<lambda>e. \<not> pu_matures_at e \<le> h) (rs_queue s)\<rparr>) i = status_of s i" for i
    by (simp add: status_of_def)
  with fold have "\<forall>i. status_of t i = status_of s i \<or> (status_of s i = Some Unbonding \<and> status_of t i = None)"
    unfolding t by metis
  with law q tot show ?thesis by blast
qed

theorem matured_unbonds_released_witness:
  "\<exists>t. process_matured_unbonds 970 sample_set = ([(ObjectId (Hash 1), 500000)], t)
     \<and> rs_queue t = [] \<and> custody sample_set = custody t + 500000"
proof -
  obtain ms t where run: "process_matured_unbonds 970 sample_set = (ms, t)" by (metis surj_pair)
  have ms: "matured_unbonds 970 sample_set = [(ObjectId (Hash 1), 500000)]"
    by (simp add: matured_unbonds_def sample_set_def)
  have q: "filter (\<lambda>e. 970 < pu_matures_at e) (rs_queue sample_set) = []" by (simp add: sample_set_def)
  from matured_unbonds_released [OF sample_set_wf run] ms q run show ?thesis by auto
qed

end
