(* ===== verification/Mempool.thy ===== *)
theory Mempool
  imports Crypto "HOL-Library.Multiset"
begin

text \<open>
  The transaction pool, \<open>crates/consensus/src/mempool.rs\<close>: admission with the congestion fee,
  replacement by fee, eviction by age and by priority, and the ordered view that block producers
  take. The transaction's serialization is a parameter.
\<close>

section \<open>State\<close>

record mempool_entry =
  me_transaction :: transaction
  me_priority :: nat
  me_size :: nat
  me_submitted_at :: nat

record mempool =
  mp_entries :: "(object_id, mempool_entry) hash_map"
  mp_counts :: "(object_id, nat) hash_map"
  mp_size :: nat

definition MAX_NONCE_GAP :: nat where "MAX_NONCE_GAP = 10"

definition mempool_new :: mempool where
  "mempool_new = \<lparr> mp_entries = [], mp_counts = [], mp_size = 0 \<rparr>"

section \<open>Operations\<close>

definition effective_min_fee :: "nat \<Rightarrow> mempool \<Rightarrow> nat" where
  "effective_min_fee suggested_fee p =
     (let pending_blocks = max 1 (min (div_ceil (mp_size p) MAX_BLOCK_SIZE_BYTES) CAPACITY_RATIO)
      in max (sat_mul64 suggested_fee pending_blocks) MIN_FEE)"

definition remove_transaction :: "object_id \<Rightarrow> mempool \<Rightarrow> transaction option \<times> mempool" where
  "remove_transaction i p =
     (case hm_get (mp_entries p) i of
        None \<Rightarrow> (None, p)
      | Some e \<Rightarrow>
          (let sender = tx_sender (me_transaction e);
               counts = (case hm_get (mp_counts p) sender of
                  None \<Rightarrow> mp_counts p
                | Some c \<Rightarrow>
                    (let c' = sat_sub c 1 in
                     if c' = 0 then hm_del sender (mp_counts p) else hm_put sender c' (mp_counts p)))
           in (Some (me_transaction e),
               \<lparr> mp_entries = hm_del i (mp_entries p), mp_counts = counts,
                 mp_size = sat_sub (mp_size p) (me_size e) \<rparr>)))"

definition evict_expired :: "nat \<Rightarrow> mempool \<Rightarrow> nat \<times> mempool" where
  "evict_expired current_time p =
     (let expired = map fst (filter (\<lambda>(_, e). MEMPOOL_TX_EXPIRY_SECS < sat_sub current_time (me_submitted_at e))
            (mp_entries p))
      in (length expired, fold (\<lambda>i q. snd (remove_transaction i q)) expired p))"

fun evict_loop :: "nat \<Rightarrow> (object_id \<times> nat \<times> nat \<times> nat) list \<Rightarrow> nat \<Rightarrow> mempool \<Rightarrow> mempool" where
  "evict_loop needed [] freed p = p"
| "evict_loop needed ((i, _, _, sz) # es) freed p =
     (if needed \<le> freed then p
      else evict_loop needed es (wrap_add64 freed sz) (snd (remove_transaction i p)))"

definition eviction_order :: "mempool \<Rightarrow> (object_id \<times> nat \<times> nat \<times> nat) list" where
  "eviction_order p =
     (let entries = map (\<lambda>(i, e). (i, me_priority e, me_submitted_at e, me_size e)) (mp_entries p)
      in sort_key (\<lambda>(_, prio, _, _). prio) (sort_key (\<lambda>(_, _, at, _). at) entries))"

definition evict_lowest_priority :: "nat \<Rightarrow> mempool \<Rightarrow> mempool" where
  "evict_lowest_priority needed p = evict_loop needed (eviction_order p) 0 p"

section \<open>Stateless verification\<close>

definition compute_mempool_tx_id ::
  "'x externs_scheme \<Rightarrow> object_id \<Rightarrow> transaction_action \<Rightarrow> nat \<Rightarrow> nat \<Rightarrow> nat \<Rightarrow> opolys_error + object_id" where
  "compute_mempool_tx_id X sender action fee nonce chain_id =
     and_then
       (ok_or (x_borsh_tx_body X (sender, action, fee, nonce, chain_id))
          (SerializationError (Fmt (STR ''Mempool transaction ID serialization failed: {}'') [])))
       (\<lambda>d. Inr (hash_to_object_id_with_domain X DOMAIN_TX_ID d))"

definition verify_transaction_for_mempool ::
  "'x externs_scheme \<Rightarrow> transaction \<Rightarrow> nat \<Rightarrow> opolys_error + unit" where
  "verify_transaction_for_mempool X tx expected_chain_id =
     (if tx_chain_id tx \<noteq> expected_chain_id
      then Inl (InvalidTransaction
             (Fmt (STR ''Transaction chain_id {} does not match network chain_id {}'')
                [ANat (tx_chain_id tx), ANat expected_chain_id]))
      else and_then
        (compute_mempool_tx_id X (tx_sender tx) (tx_action tx) (tx_fee tx) (tx_nonce tx) (tx_chain_id tx))
        (\<lambda>expected_tx_id.
           if tx_id tx \<noteq> expected_tx_id
           then Inl (InvalidTransaction (Fmt (STR ''Transaction ID mismatch: expected {}, got {}'')
                  [AId expected_tx_id, AId (tx_id tx)]))
           else if tx_signature_type tx \<noteq> SIGNATURE_TYPE_ED25519
           then Inl (InvalidTransaction
                  (Fmt (STR ''Unsupported signature type: {} (only ed25519 = 0 is supported)'')
                     [ANat (tx_signature_type tx)]))
           else if length (tx_public_key tx) \<noteq> 32
           then Inl (InvalidTransaction
                  (Fmt (STR ''Invalid public key length: {} bytes (expected 32 for ed25519)'')
                     [ANat (length (tx_public_key tx))]))
           else if object_id_as_bytes (tx_sender tx)
                   \<noteq> object_id_as_bytes (ed25519_public_key_to_object_id X (tx_public_key tx))
           then Inl (InvalidTransaction (Fmt (STR ''Public key does not match sender ObjectId'') []))
           else and_then
             (transaction_signing_payload X (tx_sender tx) (tx_action tx) (tx_fee tx) (tx_nonce tx) (tx_chain_id tx))
             (\<lambda>payload.
                if \<not> verify_ed25519 X (tx_public_key tx) payload (tx_signature tx)
                then Inl InvalidSignature else Inr ())))"

section \<open>Admission\<close>

definition mempool_tx_size :: "'x externs_scheme \<Rightarrow> transaction \<Rightarrow> nat" where
  "mempool_tx_size X tx = (case x_borsh_transaction X tx of None \<Rightarrow> 0 | Some b \<Rightarrow> length b)"

definition sender_count :: "mempool \<Rightarrow> object_id \<Rightarrow> nat" where
  "sender_count p a = (case hm_get (mp_counts p) a of None \<Rightarrow> 0 | Some c \<Rightarrow> c)"

definition find_replacement :: "transaction \<Rightarrow> mempool \<Rightarrow> (object_id \<times> nat) option" where
  "find_replacement tx p =
     map_option (\<lambda>(_, e). (tx_id (me_transaction e), tx_fee (me_transaction e)))
       (find (\<lambda>(_, e). tx_sender (me_transaction e) = tx_sender tx \<and> tx_nonce (me_transaction e) = tx_nonce tx)
          (mp_entries p))"

text \<open>The tail of \<open>add_transaction\<close>: make room, then insert.\<close>

definition make_room_and_insert ::
  "transaction \<Rightarrow> nat \<Rightarrow> nat \<Rightarrow> nat \<Rightarrow> mempool \<Rightarrow> (opolys_error + unit) \<times> mempool" where
  "make_room_and_insert tx priority_score submitted_at sz p =
     (let p1 = (if MEMPOOL_MAX_SIZE_BYTES < wrap_add64 (mp_size p) sz then evict_lowest_priority sz p else p) in
      if MEMPOOL_MAX_SIZE_BYTES < wrap_add64 (mp_size p1) sz then (Inl MempoolFull, p1)
      else
        (Inr (),
         \<lparr> mp_entries = hm_put (tx_id tx)
             \<lparr> me_transaction = tx, me_priority = priority_score, me_size = sz, me_submitted_at = submitted_at \<rparr>
             (mp_entries p1),
           mp_counts = hm_put (tx_sender tx)
             (case hm_get (mp_counts p1) (tx_sender tx) of None \<Rightarrow> 1 | Some c \<Rightarrow> wrap_add64 c 1) (mp_counts p1),
           mp_size = wrap_add64 (mp_size p1) sz \<rparr>))"

definition add_transaction ::
  "'x externs_scheme \<Rightarrow> transaction \<Rightarrow> nat \<Rightarrow> nat \<Rightarrow> nat \<Rightarrow> nat \<Rightarrow> nat \<Rightarrow> mempool \<Rightarrow>
   (opolys_error + unit) \<times> mempool" where
  "add_transaction X tx priority_score submitted_at account_nonce suggested_fee expected_chain_id p =
     (case verify_transaction_for_mempool X tx expected_chain_id of
        Inl e \<Rightarrow> (Inl e, p)
      | Inr _ \<Rightarrow>
        (if tx_fee tx < MIN_FEE
         then (Inl (InvalidTransaction (Fmt (STR ''Fee {} is below minimum fee {}'')
                 [ANat (tx_fee tx), ANat MIN_FEE])), p)
         else if tx_fee tx < effective_min_fee suggested_fee p
         then (Inl (InvalidTransaction (Fmt (STR ''Fee {} below congestion minimum {}'')
                 [ANat (tx_fee tx), ANat (effective_min_fee suggested_fee p)])), p)
         else if TX_MAX_SIZE_BYTES < mempool_tx_size X tx
         then (Inl (InvalidTransaction (Fmt (STR ''Transaction too large: {} bytes'')
                 [ANat (mempool_tx_size X tx)])), p)
         else if MEMPOOL_MAX_TXS_PER_ACCOUNT \<le> sender_count p (tx_sender tx)
         then (Inl (InvalidTransaction (Fmt (STR ''Too many transactions from account: {}'')
                 [AId (tx_sender tx)])), p)
         else if wrap_add64 account_nonce MAX_NONCE_GAP < tx_nonce tx
         then (Inl (InvalidTransaction (Fmt (STR ''Nonce gap too large: tx nonce {} vs account nonce {}'')
                 [ANat (tx_nonce tx), ANat account_nonce])), p)
         else if hm_get (mp_entries p) (tx_id tx) \<noteq> None
         then (Inl (InvalidTransaction (Fmt (STR ''Duplicate transaction'') [])), p)
         else
           (case find_replacement tx p of
              None \<Rightarrow> make_room_and_insert tx priority_score submitted_at (mempool_tx_size X tx) p
            | Some (old_id, old_fee) \<Rightarrow>
                (if tx_fee tx < div_ceil (sat_mul64 old_fee 11) 10
                 then (Inl (InvalidTransaction
                         (Fmt (STR ''Replacement fee {} must be at least 10% higher than existing fee {}'')
                            [ANat (tx_fee tx), ANat old_fee])), p)
                 else make_room_and_insert tx priority_score submitted_at (mempool_tx_size X tx)
                        (snd (remove_transaction old_id p))))))"

definition get_transaction :: "object_id \<Rightarrow> mempool \<Rightarrow> transaction option" where
  "get_transaction i p = map_option me_transaction (hm_get (mp_entries p) i)"

definition ordered_entries :: "mempool \<Rightarrow> mempool_entry list" where
  "ordered_entries p =
     sort_key (\<lambda>e. - int (me_priority e)) (sort_key me_submitted_at (map snd (mp_entries p)))"

definition get_ordered_transactions :: "mempool \<Rightarrow> transaction list" where
  "get_ordered_transactions p = map me_transaction (ordered_entries p)"

definition transaction_count :: "mempool \<Rightarrow> nat" where
  "transaction_count p = length (mp_entries p)"

definition mempool_total_size :: "mempool \<Rightarrow> nat" where
  "mempool_total_size p = mp_size p"

section \<open>The pool invariant\<close>

definition from_sender :: "object_id \<Rightarrow> mempool_entry \<Rightarrow> nat" where
  "from_sender a e = (if tx_sender (me_transaction e) = a then 1 else 0)"

definition entry_ok :: "object_id \<Rightarrow> mempool_entry \<Rightarrow> bool" where
  "entry_ok i e \<longleftrightarrow> tx_id (me_transaction e) = i \<and> me_size e \<le> TX_MAX_SIZE_BYTES \<and> MIN_FEE \<le> tx_fee (me_transaction e)"

definition nonces_unique :: "mempool \<Rightarrow> bool" where
  "nonces_unique p \<longleftrightarrow> (\<forall>i j e f. hm_get (mp_entries p) i = Some e \<longrightarrow> hm_get (mp_entries p) j = Some f \<longrightarrow>
     tx_sender (me_transaction e) = tx_sender (me_transaction f) \<longrightarrow>
     tx_nonce (me_transaction e) = tx_nonce (me_transaction f) \<longrightarrow> i = j)"

definition counts_ok :: "mempool \<Rightarrow> bool" where
  "counts_ok p \<longleftrightarrow> hm_wf (mp_counts p) \<and>
     (\<forall>a. hm_get (mp_counts p) a =
        (let n = hm_total (from_sender a) (mp_entries p) in if n = 0 then None else Some n))"

definition mempool_wf :: "mempool \<Rightarrow> bool" where
  "mempool_wf p \<longleftrightarrow> hm_wf (mp_entries p) \<and>
     (\<forall>i e. hm_get (mp_entries p) i = Some e \<longrightarrow> entry_ok i e) \<and>
     nonces_unique p \<and> counts_ok p \<and>
     (\<forall>a. hm_total (from_sender a) (mp_entries p) \<le> MEMPOOL_MAX_TXS_PER_ACCOUNT) \<and>
     mp_size p = hm_total me_size (mp_entries p) \<and> mp_size p \<le> MEMPOOL_MAX_SIZE_BYTES"

interpretation sizes: weighted_store hm_get hm_put hm_del hm_wf "hm_total me_size" me_size
  by unfold_locales
    (auto simp: hm_get_put hm_get_del hm_total_put_new hm_total_put_upd hm_total_del intro: wf_intros)

lemma mempool_wf_new: "mempool_wf mempool_new"
  by (simp add: mempool_wf_def mempool_new_def nonces_unique_def counts_ok_def hm_total_def)

lemma mempool_wf_entry: "mempool_wf p \<Longrightarrow> hm_get (mp_entries p) i = Some e \<Longrightarrow> entry_ok i e"
  unfolding mempool_wf_def by blast

lemma sender_count_exact: "mempool_wf p \<Longrightarrow> sender_count p a = hm_total (from_sender a) (mp_entries p)"
  by (simp add: mempool_wf_def counts_ok_def sender_count_def Let_def)

lemma remove_transaction_none: "hm_get (mp_entries p) i = None \<Longrightarrow> remove_transaction i p = (None, p)"
  by (simp add: remove_transaction_def)

lemma remove_transaction_entries: "mp_entries (snd (remove_transaction i p)) = (if hm_get (mp_entries p) i = None then mp_entries p else hm_del i (mp_entries p))"
  by (auto simp: remove_transaction_def Let_def split: option.splits)

lemma remove_transaction_get:
  "hm_get (mp_entries (snd (remove_transaction i p))) j = (if j = i then None else hm_get (mp_entries p) j)"
  by (auto simp: remove_transaction_entries hm_get_del)

lemma remove_transaction_size:
  assumes wf: "mempool_wf p" and get: "hm_get (mp_entries p) i = Some e"
  shows "mp_size (snd (remove_transaction i p)) + me_size e = mp_size p"
proof -
  have "me_size e \<le> mp_size p" using wf hm_total_ge [OF get, of me_size] by (simp add: mempool_wf_def)
  then show ?thesis using get by (simp add: remove_transaction_def Let_def sat_sub_def)
qed

lemma remove_transaction_wf [wf_intros]:
  assumes wf: "mempool_wf p"
  shows "mempool_wf (snd (remove_transaction i p))"
proof (cases "hm_get (mp_entries p) i")
  case None
  with wf show ?thesis by (simp add: remove_transaction_none)
next
  case (Some e)
  let ?q = "snd (remove_transaction i p)"
  have hm: "hm_wf (mp_entries p)" and cnt: "counts_ok p"
    and sz: "mp_size p = hm_total me_size (mp_entries p)" and le: "mp_size p \<le> MEMPOOL_MAX_SIZE_BYTES"
    and lim: "\<And>a. hm_total (from_sender a) (mp_entries p) \<le> MEMPOOL_MAX_TXS_PER_ACCOUNT"
    using wf by (simp_all add: mempool_wf_def)
  have ent: "mp_entries ?q = hm_del i (mp_entries p)" using Some by (simp add: remove_transaction_entries)
  have tot: "hm_total (from_sender a) (mp_entries ?q) + from_sender a e = hm_total (from_sender a) (mp_entries p)" for a
    unfolding ent using hm Some by (rule hm_total_del)
  have "hm_total me_size (mp_entries ?q) + me_size e = hm_total me_size (mp_entries p)"
    unfolding ent using hm Some by (rule sizes.total_del)
  with remove_transaction_size [OF wf Some] sz have size: "mp_size ?q = hm_total me_size (mp_entries ?q)" by simp
  let ?s = "tx_sender (me_transaction e)"
  have cs: "hm_get (mp_counts p) ?s = Some (hm_total (from_sender ?s) (mp_entries ?q) + 1)"
    using cnt tot [of ?s] by (auto simp: counts_ok_def Let_def from_sender_def)
  have counts: "mp_counts ?q = (if hm_total (from_sender ?s) (mp_entries ?q) = 0 then hm_del ?s (mp_counts p)
      else hm_put ?s (hm_total (from_sender ?s) (mp_entries ?q)) (mp_counts p))"
    using Some cs by (simp add: remove_transaction_def Let_def sat_sub_def)
  have "counts_ok ?q"
  proof -
    have "hm_wf (mp_counts ?q)" using cnt unfolding counts by (simp add: counts_ok_def hm_wf_put hm_wf_del)
    moreover have "hm_get (mp_counts ?q) a =
        (let n = hm_total (from_sender a) (mp_entries ?q) in if n = 0 then None else Some n)" for a
    proof (cases "a = ?s")
      case True
      then show ?thesis unfolding counts by (simp add: hm_get_del hm_get_put Let_def)
    next
      case False
      then have "from_sender a e = 0" by (simp add: from_sender_def)
      with tot [of a] have "hm_total (from_sender a) (mp_entries ?q) = hm_total (from_sender a) (mp_entries p)" by simp
      then show ?thesis using False cnt unfolding counts by (simp add: hm_get_del hm_get_put counts_ok_def)
    qed
    ultimately show ?thesis unfolding counts_ok_def by blast
  qed
  moreover have "nonces_unique ?q"
    using wf unfolding mempool_wf_def nonces_unique_def remove_transaction_get by (metis option.distinct(1))
  moreover have "hm_wf (mp_entries ?q)" unfolding ent using hm by (rule hm_wf_del)
  moreover have "\<forall>j f. hm_get (mp_entries ?q) j = Some f \<longrightarrow> entry_ok j f"
    unfolding remove_transaction_get using mempool_wf_entry [OF wf] by simp
  moreover have "hm_total (from_sender a) (mp_entries ?q) \<le> MEMPOOL_MAX_TXS_PER_ACCOUNT" for a
    using tot [of a] lim [of a] by linarith
  moreover have "mp_size ?q \<le> MEMPOOL_MAX_SIZE_BYTES"
    using remove_transaction_size [OF wf Some] le by linarith
  ultimately show ?thesis using size unfolding mempool_wf_def by blast
qed

text \<open>What every removal keeps: entries are only dropped, never changed.\<close>

definition shrinks :: "mempool \<Rightarrow> mempool \<Rightarrow> bool" where
  "shrinks p q \<longleftrightarrow> mempool_wf q \<and> mp_size q \<le> mp_size p \<and>
     (\<forall>j e. hm_get (mp_entries q) j = Some e \<longrightarrow> hm_get (mp_entries p) j = Some e)"

lemma shrinks_refl: "mempool_wf p \<Longrightarrow> shrinks p p"
  by (simp add: shrinks_def)

lemma shrinks_trans: "shrinks p q \<Longrightarrow> shrinks q r \<Longrightarrow> shrinks p r"
  unfolding shrinks_def by (blast intro: le_trans)

lemma remove_transaction_shrinks: "mempool_wf p \<Longrightarrow> shrinks p (snd (remove_transaction i p))"
proof -
  assume wf: "mempool_wf p"
  have "mp_size (snd (remove_transaction i p)) \<le> mp_size p"
    using remove_transaction_size [OF wf, of i] remove_transaction_none [of p i]
    by (cases "hm_get (mp_entries p) i") fastforce+
  with remove_transaction_wf [OF wf] show ?thesis
    by (auto simp: shrinks_def remove_transaction_get split: if_splits)
qed

lemma remove_all_shrinks:
  "mempool_wf p \<Longrightarrow> shrinks p (fold (\<lambda>i q. snd (remove_transaction i q)) is p)"
proof (induction "is" arbitrary: p)
  case (Cons i "is")
  have one: "shrinks p (snd (remove_transaction i p))" using Cons.prems by (rule remove_transaction_shrinks)
  then have "mempool_wf (snd (remove_transaction i p))" by (simp add: shrinks_def)
  from shrinks_trans [OF one Cons.IH [OF this]] show ?case by simp
qed (simp add: shrinks_refl)

lemma evict_loop_shrinks: "mempool_wf p \<Longrightarrow> shrinks p (evict_loop needed es freed p)"
proof (induction needed es freed p rule: evict_loop.induct)
  case (2 needed i a b sz es freed p)
  show ?case
  proof (cases "needed \<le> freed")
    case False
    have one: "shrinks p (snd (remove_transaction i p))" using "2.prems" by (rule remove_transaction_shrinks)
    then have "shrinks (snd (remove_transaction i p)) (evict_loop needed es (wrap_add64 freed sz) (snd (remove_transaction i p)))"
      using "2.IH" [OF False] by (simp add: shrinks_def)
    from shrinks_trans [OF one this] False show ?thesis by simp
  qed (simp add: "2.prems" shrinks_refl)
qed (simp add: shrinks_refl)

section \<open>Eviction frees enough room\<close>

definition ev_id :: "object_id \<times> nat \<times> nat \<times> nat \<Rightarrow> object_id" where "ev_id x = fst x"
definition ev_size :: "object_id \<times> nat \<times> nat \<times> nat \<Rightarrow> nat" where "ev_size x = snd (snd (snd x))"

lemma evict_loop_frees:
  assumes "mempool_wf p" and "distinct (map ev_id es)"
    and "\<And>x. x \<in> set es \<Longrightarrow> \<exists>e. hm_get (mp_entries p) (ev_id x) = Some e \<and> me_size e = ev_size x"
    and "freed + sum_list (map ev_size es) \<le> U64_MAX"
  shows "needed + mp_size (evict_loop needed es freed p) \<le> freed + mp_size p \<or>
    mp_size (evict_loop needed es freed p) + sum_list (map ev_size es) = mp_size p"
  using assms
proof (induction needed es freed p rule: evict_loop.induct)
  case (2 needed i a b sz es freed p)
  show ?case
  proof (cases "needed \<le> freed")
    case False
    let ?q = "snd (remove_transaction i p)"
    obtain e where e: "hm_get (mp_entries p) i = Some e" "me_size e = sz"
      using "2.prems"(3) [of "(i, a, b, sz)"] by (auto simp: ev_id_def ev_size_def)
    have size: "mp_size ?q + sz = mp_size p" using remove_transaction_size [OF "2.prems"(1) e(1)] e(2) by simp
    have add: "wrap_add64 freed sz = freed + sz"
      using "2.prems"(4) by (intro wrap_add64_exact) (simp add: ev_size_def)
    have pres: "\<exists>e. hm_get (mp_entries ?q) (ev_id x) = Some e \<and> me_size e = ev_size x" if "x \<in> set es" for x
    proof -
      have "ev_id x \<noteq> i" using that "2.prems"(2) by (force simp: ev_id_def)
      with "2.prems"(3) [of x] that show ?thesis by (simp add: remove_transaction_get)
    qed
    have "needed + mp_size (evict_loop needed es (wrap_add64 freed sz) ?q) \<le> wrap_add64 freed sz + mp_size ?q \<or>
        mp_size (evict_loop needed es (wrap_add64 freed sz) ?q) + sum_list (map ev_size es) = mp_size ?q"
      using "2.prems" pres False remove_transaction_wf [OF "2.prems"(1), of i]
      by (intro "2.IH") (simp_all add: add ev_size_def [of "(i, a, b, sz)"])
    then show ?thesis using False size by (auto simp: add ev_size_def [of "(i, a, b, sz)"])
  qed simp
qed simp

lemma eviction_order_law:
  assumes wf: "mempool_wf p"
  shows "distinct (map ev_id (eviction_order p))"
    and "x \<in> set (eviction_order p) \<Longrightarrow> \<exists>e. hm_get (mp_entries p) (ev_id x) = Some e \<and> me_size e = ev_size x"
    and "sum_list (map ev_size (eviction_order p)) = mp_size p"
proof -
  let ?l = "map (\<lambda>(i, e). (i, me_priority e, me_submitted_at e, me_size e)) (mp_entries p)"
  have hm: "hm_wf (mp_entries p)" using wf by (simp add: mempool_wf_def)
  have ms: "mset (eviction_order p) = mset ?l"
    unfolding eviction_order_def Let_def by (simp only: mset_sort)
  have ids: "map ev_id ?l = map fst (mp_entries p)" by (simp add: ev_id_def case_prod_unfold comp_def)
  have "mset (map ev_id (eviction_order p)) = mset (map ev_id ?l)" by (simp only: mset_map ms)
  from mset_eq_imp_distinct_iff [OF this] hm show "distinct (map ev_id (eviction_order p))"
    unfolding ids hm_wf_def by blast
  have "set (eviction_order p) = set ?l" using ms by (rule mset_eq_setD)
  then have "\<exists>e. hm_get (mp_entries p) (ev_id x) = Some e \<and> me_size e = ev_size x" if x: "x \<in> set (eviction_order p)"
  proof -
    obtain k e where ke: "(k, e) \<in> set (mp_entries p)" "x = (k, me_priority e, me_submitted_at e, me_size e)"
      using x \<open>set (eviction_order p) = set ?l\<close> by auto
    from hm_in_set_get [OF hm ke(1)] ke(2) show ?thesis by (simp add: ev_id_def ev_size_def)
  qed
  then show "x \<in> set (eviction_order p) \<Longrightarrow> \<exists>e. hm_get (mp_entries p) (ev_id x) = Some e \<and> me_size e = ev_size x" .
  have "sum_list (map ev_size (eviction_order p)) = sum_list (map ev_size ?l)"
    by (simp only: sum_mset_sum_list [symmetric] mset_map ms)
  also have "\<dots> = hm_total me_size (mp_entries p)"
    by (simp add: hm_total_def ev_size_def case_prod_unfold comp_def)
  finally show "sum_list (map ev_size (eviction_order p)) = mp_size p" using wf by (simp add: mempool_wf_def)
qed

lemma evict_lowest_priority_law:
  assumes wf: "mempool_wf p" and sz: "sz \<le> TX_MAX_SIZE_BYTES"
  shows "shrinks p (evict_lowest_priority sz p)"
    and "mp_size (evict_lowest_priority sz p) + sz \<le> MEMPOOL_MAX_SIZE_BYTES"
proof -
  have le: "mp_size p \<le> MEMPOOL_MAX_SIZE_BYTES" using wf by (simp add: mempool_wf_def)
  show "shrinks p (evict_lowest_priority sz p)"
    unfolding evict_lowest_priority_def using wf by (rule evict_loop_shrinks)
  note ord = eviction_order_law [OF wf]
  have "0 + sum_list (map ev_size (eviction_order p)) \<le> U64_MAX"
    using ord(3) le by (simp add: U64_MAX_def MEMPOOL_MAX_SIZE_BYTES_def)
  from evict_loop_frees [OF wf ord(1) ord(2) this, of sz]
  show "mp_size (evict_lowest_priority sz p) + sz \<le> MEMPOOL_MAX_SIZE_BYTES"
    using ord(3) le sz by (auto simp: evict_lowest_priority_def TX_MAX_SIZE_BYTES_def MEMPOOL_MAX_SIZE_BYTES_def)
qed

text \<open>Making room always succeeds, and the insertion keeps the invariant.\<close>

definition room_made :: "nat \<Rightarrow> mempool \<Rightarrow> mempool" where
  "room_made sz p = (if MEMPOOL_MAX_SIZE_BYTES < mp_size p + sz then evict_lowest_priority sz p else p)"

definition inserted :: "transaction \<Rightarrow> nat \<Rightarrow> nat \<Rightarrow> nat \<Rightarrow> mempool \<Rightarrow> mempool" where
  "inserted tx priority_score submitted_at sz p =
     \<lparr> mp_entries = hm_put (tx_id tx)
         \<lparr> me_transaction = tx, me_priority = priority_score, me_size = sz, me_submitted_at = submitted_at \<rparr>
         (mp_entries p),
       mp_counts = hm_put (tx_sender tx) (sender_count p (tx_sender tx) + 1) (mp_counts p),
       mp_size = mp_size p + sz \<rparr>"

lemma room_made_law:
  assumes wf: "mempool_wf p" and sz: "sz \<le> TX_MAX_SIZE_BYTES"
  shows "shrinks p (room_made sz p)" and "mp_size (room_made sz p) + sz \<le> MEMPOOL_MAX_SIZE_BYTES"
  using evict_lowest_priority_law [OF assms] shrinks_refl [OF wf] by (auto simp: room_made_def)

lemma make_room_and_insert_eq:
  assumes wf: "mempool_wf p" and sz: "sz \<le> TX_MAX_SIZE_BYTES"
  shows "make_room_and_insert tx prio at sz p = (Inr (), inserted tx prio at sz (room_made sz p))"
proof -
  have le: "mp_size p \<le> MEMPOOL_MAX_SIZE_BYTES" using wf by (simp add: mempool_wf_def)
  have "wrap_add64 (mp_size p) sz = mp_size p + sz"
    using le sz by (intro wrap_add64_exact) (simp add: U64_MAX_def MEMPOOL_MAX_SIZE_BYTES_def TX_MAX_SIZE_BYTES_def)
  then have room: "(if MEMPOOL_MAX_SIZE_BYTES < wrap_add64 (mp_size p) sz then evict_lowest_priority sz p else p) = room_made sz p"
    by (simp add: room_made_def)
  let ?q = "room_made sz p"
  note law = room_made_law [OF wf sz]
  have wfq: "mempool_wf ?q" using law(1) by (simp add: shrinks_def)
  have add: "wrap_add64 (mp_size ?q) sz = mp_size ?q + sz"
    using law(2) by (intro wrap_add64_exact) (simp add: U64_MAX_def MEMPOOL_MAX_SIZE_BYTES_def)
  have cnt: "sender_count ?q (tx_sender tx) \<le> MEMPOOL_MAX_TXS_PER_ACCOUNT"
    using wfq sender_count_exact [OF wfq] by (simp add: mempool_wf_def)
  then have "wrap_add64 (sender_count ?q (tx_sender tx)) 1 = sender_count ?q (tx_sender tx) + 1"
    by (intro wrap_add64_exact) (simp add: U64_MAX_def MEMPOOL_MAX_TXS_PER_ACCOUNT_def)
  then have count: "(case hm_get (mp_counts ?q) (tx_sender tx) of None \<Rightarrow> 1 | Some c \<Rightarrow> wrap_add64 c 1)
      = sender_count ?q (tx_sender tx) + 1"
    by (auto simp: sender_count_def split: option.splits)
  have nofull: "(MEMPOOL_MAX_SIZE_BYTES < mp_size ?q + sz) = False" using law(2) by simp
  show ?thesis
    unfolding make_room_and_insert_def Let_def room add count nofull if_False inserted_def ..
qed

lemma inserted_wf:
  assumes wf: "mempool_wf q" and fresh: "hm_get (mp_entries q) (tx_id tx) = None"
    and cnt: "sender_count q (tx_sender tx) < MEMPOOL_MAX_TXS_PER_ACCOUNT"
    and uniq: "\<And>i e. hm_get (mp_entries q) i = Some e \<Longrightarrow>
      \<not> (tx_sender (me_transaction e) = tx_sender tx \<and> tx_nonce (me_transaction e) = tx_nonce tx)"
    and sz: "sz \<le> TX_MAX_SIZE_BYTES" and fit: "mp_size q + sz \<le> MEMPOOL_MAX_SIZE_BYTES"
    and fee: "MIN_FEE \<le> tx_fee tx"
  shows "mempool_wf (inserted tx prio at sz q)"
proof -
  let ?e = "\<lparr> me_transaction = tx, me_priority = prio, me_size = sz, me_submitted_at = at \<rparr>"
  let ?t = "inserted tx prio at sz q"
  have ent: "mp_entries ?t = hm_put (tx_id tx) ?e (mp_entries q)" by (simp add: inserted_def)
  have tot: "hm_total w (mp_entries ?t) = hm_total w (mp_entries q) + w ?e" for w
    unfolding ent using fresh by (rule hm_total_put_new)
  have cq: "counts_ok q" using wf by (simp add: mempool_wf_def)
  have "counts_ok ?t"
    unfolding counts_ok_def
  proof (intro conjI allI)
    show "hm_wf (mp_counts ?t)" using cq by (simp add: counts_ok_def inserted_def hm_wf_put)
    show "hm_get (mp_counts ?t) a = (let n = hm_total (from_sender a) (mp_entries ?t) in if n = 0 then None else Some n)" for a
      using cq sender_count_exact [OF wf] tot [of "from_sender a"]
      by (cases "a = tx_sender tx") (auto simp: counts_ok_def inserted_def hm_get_put from_sender_def Let_def)
  qed
  moreover have "nonces_unique ?t"
    unfolding nonces_unique_def ent hm_get_put
  proof (intro allI impI)
    fix i j e f
    assume i: "(if i = tx_id tx then Some ?e else hm_get (mp_entries q) i) = Some e"
      and j: "(if j = tx_id tx then Some ?e else hm_get (mp_entries q) j) = Some f"
      and s: "tx_sender (me_transaction e) = tx_sender (me_transaction f)"
      and n: "tx_nonce (me_transaction e) = tx_nonce (me_transaction f)"
    show "i = j"
    proof (cases "i = tx_id tx"; cases "j = tx_id tx")
      assume "i \<noteq> tx_id tx" "j \<noteq> tx_id tx"
      with i j s n wf show "i = j" unfolding mempool_wf_def nonces_unique_def by (metis (no_types, lifting))
    next
      assume "i = tx_id tx" "j \<noteq> tx_id tx"
      with i j s n uniq [of j f] show "i = j" by auto
    next
      assume "i \<noteq> tx_id tx" "j = tx_id tx"
      with i j s n uniq [of i e] show "i = j" by auto
    qed simp
  qed
  moreover have "hm_wf (mp_entries ?t)" using wf unfolding ent by (simp add: mempool_wf_def hm_wf_put)
  moreover have "\<forall>i e. hm_get (mp_entries ?t) i = Some e \<longrightarrow> entry_ok i e"
    unfolding ent hm_get_put using mempool_wf_entry [OF wf] sz fee by (auto simp: entry_ok_def)
  moreover have "hm_total (from_sender a) (mp_entries ?t) \<le> MEMPOOL_MAX_TXS_PER_ACCOUNT" for a
    using wf cnt sender_count_exact [OF wf, of a] tot [of "from_sender a"]
    by (cases "a = tx_sender tx") (auto simp: mempool_wf_def from_sender_def)
  moreover have "mp_size ?t = hm_total me_size (mp_entries ?t)" "mp_size ?t \<le> MEMPOOL_MAX_SIZE_BYTES"
    using wf fit tot [of me_size] by (simp_all add: mempool_wf_def inserted_def)
  ultimately show ?thesis unfolding mempool_wf_def by blast
qed

section \<open>Admission\<close>

definition admissible ::
  "'x externs_scheme \<Rightarrow> transaction \<Rightarrow> nat \<Rightarrow> nat \<Rightarrow> nat \<Rightarrow> mempool \<Rightarrow> bool" where
  "admissible X tx account_nonce suggested_fee chain_id p \<longleftrightarrow>
     is_ok (verify_transaction_for_mempool X tx chain_id) \<and> MIN_FEE \<le> tx_fee tx \<and>
     effective_min_fee suggested_fee p \<le> tx_fee tx \<and> mempool_tx_size X tx \<le> TX_MAX_SIZE_BYTES \<and>
     sender_count p (tx_sender tx) < MEMPOOL_MAX_TXS_PER_ACCOUNT \<and>
     tx_nonce tx \<le> wrap_add64 account_nonce MAX_NONCE_GAP \<and> hm_get (mp_entries p) (tx_id tx) = None \<and>
     (case find_replacement tx p of None \<Rightarrow> True | Some (_, old_fee) \<Rightarrow> div_ceil (sat_mul64 old_fee 11) 10 \<le> tx_fee tx)"

definition after_replacement :: "transaction \<Rightarrow> mempool \<Rightarrow> mempool" where
  "after_replacement tx p =
     (case find_replacement tx p of None \<Rightarrow> p | Some (old_id, _) \<Rightarrow> snd (remove_transaction old_id p))"

definition conflicts :: "transaction \<Rightarrow> mempool_entry \<Rightarrow> bool" where
  "conflicts tx e \<longleftrightarrow> tx_sender (me_transaction e) = tx_sender tx \<and> tx_nonce (me_transaction e) = tx_nonce tx"

lemma find_replacement_none:
  assumes "mempool_wf p"
  shows "find_replacement tx p = None \<longleftrightarrow> (\<forall>i e. hm_get (mp_entries p) i = Some e \<longrightarrow> \<not> conflicts tx e)"
proof -
  have hm: "hm_wf (mp_entries p)" using assms by (simp add: mempool_wf_def)
  have "find_replacement tx p = None \<longleftrightarrow> (\<forall>x \<in> set (mp_entries p). \<not> conflicts tx (snd x))"
    by (auto simp: find_replacement_def find_None_iff conflicts_def case_prod_unfold)
  also have "\<dots> \<longleftrightarrow> (\<forall>i e. hm_get (mp_entries p) i = Some e \<longrightarrow> \<not> conflicts tx e)"
    using hm by (metis hm_get_in_set hm_in_set_get prod.collapse snd_conv)
  finally show ?thesis .
qed

lemma find_replacement_some:
  assumes wf: "mempool_wf p" and found: "find_replacement tx p = Some (i, f)"
  obtains e where "hm_get (mp_entries p) i = Some e" and "conflicts tx e" and "tx_fee (me_transaction e) = f"
proof -
  obtain k e where ke: "(k, e) \<in> set (mp_entries p)" "conflicts tx e"
    "i = tx_id (me_transaction e)" "f = tx_fee (me_transaction e)"
    using found by (auto simp: find_replacement_def find_Some_iff conflicts_def)
      (metis nth_mem)
  have "hm_get (mp_entries p) k = Some e" using wf ke(1) by (simp add: mempool_wf_def hm_in_set_get)
  moreover from mempool_wf_entry [OF wf this] have "k = i" using ke(3) by (simp add: entry_ok_def)
  ultimately show thesis using that ke(2,4) by simp
qed

lemma after_replacement_law:
  assumes wf: "mempool_wf p"
  shows "shrinks p (after_replacement tx p)"
    and "hm_get (mp_entries (after_replacement tx p)) i = Some e \<Longrightarrow> \<not> conflicts tx e"
    and "hm_get (mp_entries p) i = Some e \<Longrightarrow> \<not> conflicts tx e \<Longrightarrow> hm_get (mp_entries (after_replacement tx p)) i = Some e"
proof -
  show "shrinks p (after_replacement tx p)"
    using wf shrinks_refl remove_transaction_shrinks by (auto simp: after_replacement_def split: option.splits)
  show "\<not> conflicts tx e" if "hm_get (mp_entries (after_replacement tx p)) i = Some e"
  proof (cases "find_replacement tx p")
    case None
    with that find_replacement_none [OF wf] show ?thesis by (auto simp: after_replacement_def)
  next
    case (Some kf)
    obtain k f where kf: "kf = (k, f)" by (cases kf)
    obtain d where d: "hm_get (mp_entries p) k = Some d" "conflicts tx d"
      using find_replacement_some [OF wf Some [unfolded kf]] by blast
    have i: "i \<noteq> k" "hm_get (mp_entries p) i = Some e"
      using that Some kf by (auto simp: after_replacement_def remove_transaction_get split: if_splits)
    have "nonces_unique p" using wf by (simp add: mempool_wf_def)
    with d i show ?thesis unfolding nonces_unique_def conflicts_def by metis
  qed
  show "hm_get (mp_entries (after_replacement tx p)) i = Some e"
    if "hm_get (mp_entries p) i = Some e" "\<not> conflicts tx e"
  proof (cases "find_replacement tx p")
    case None
    with that show ?thesis by (simp add: after_replacement_def)
  next
    case (Some kf)
    obtain k f where kf: "kf = (k, f)" by (cases kf)
    obtain d where d: "hm_get (mp_entries p) k = Some d" "conflicts tx d"
      using find_replacement_some [OF wf Some [unfolded kf]] by blast
    with that Some kf show ?thesis by (auto simp: after_replacement_def remove_transaction_get)
  qed
qed

lemma add_transaction_reject:
  assumes wf: "mempool_wf p" and not: "\<not> admissible X tx n sf c p"
  shows "\<exists>e. add_transaction X tx prio at n sf c p = (Inl e, p)"
proof (cases "verify_transaction_for_mempool X tx c")
  case (Inr u)
  have step: "add_transaction X tx prio at n sf c p = (if tx_fee tx < MIN_FEE \<or> tx_fee tx < effective_min_fee sf p \<or>
      TX_MAX_SIZE_BYTES < mempool_tx_size X tx \<or> MEMPOOL_MAX_TXS_PER_ACCOUNT \<le> sender_count p (tx_sender tx) \<or>
      wrap_add64 n MAX_NONCE_GAP < tx_nonce tx \<or> hm_get (mp_entries p) (tx_id tx) \<noteq> None
      then add_transaction X tx prio at n sf c p
      else (case find_replacement tx p of None \<Rightarrow> add_transaction X tx prio at n sf c p
        | Some (i, f) \<Rightarrow> if tx_fee tx < div_ceil (sat_mul64 f 11) 10
           then (Inl (InvalidTransaction (Fmt (STR ''Replacement fee {} must be at least 10% higher than existing fee {}'')
              [ANat (tx_fee tx), ANat f])), p) else add_transaction X tx prio at n sf c p))"
    using Inr by (auto simp: add_transaction_def split: option.splits)
  have early: "\<exists>e. add_transaction X tx prio at n sf c p = (Inl e, p)"
    if "tx_fee tx < MIN_FEE \<or> tx_fee tx < effective_min_fee sf p \<or>
      TX_MAX_SIZE_BYTES < mempool_tx_size X tx \<or> MEMPOOL_MAX_TXS_PER_ACCOUNT \<le> sender_count p (tx_sender tx) \<or>
      wrap_add64 n MAX_NONCE_GAP < tx_nonce tx \<or> hm_get (mp_entries p) (tx_id tx) \<noteq> None"
    using that Inr unfolding add_transaction_def by (auto simp only: sum.case split: if_splits)
  show ?thesis
  proof (cases "tx_fee tx < MIN_FEE \<or> tx_fee tx < effective_min_fee sf p \<or>
      TX_MAX_SIZE_BYTES < mempool_tx_size X tx \<or> MEMPOOL_MAX_TXS_PER_ACCOUNT \<le> sender_count p (tx_sender tx) \<or>
      wrap_add64 n MAX_NONCE_GAP < tx_nonce tx \<or> hm_get (mp_entries p) (tx_id tx) \<noteq> None")
    case False
    then obtain i f where r: "find_replacement tx p = Some (i, f)" "tx_fee tx < div_ceil (sat_mul64 f 11) 10"
      using not Inr by (auto simp: admissible_def not_less not_le split: option.splits)
    show ?thesis using False r by (subst step) (simp only: if_False if_True option.case prod.case, blast)
  qed (rule early)
qed (simp add: add_transaction_def)

lemma add_transaction_accept:
  assumes wf: "mempool_wf p" and ok: "admissible X tx n sf c p"
  shows "add_transaction X tx prio at n sf c p =
    (Inr (), inserted tx prio at (mempool_tx_size X tx)
       (room_made (mempool_tx_size X tx) (after_replacement tx p)))"
proof -
  have sz: "mempool_tx_size X tx \<le> TX_MAX_SIZE_BYTES" using ok by (simp add: admissible_def)
  have "mempool_wf (after_replacement tx p)" using after_replacement_law(1) [OF wf] by (simp add: shrinks_def)
  note eq = make_room_and_insert_eq [OF this sz, of tx prio at]
  obtain u where u: "verify_transaction_for_mempool X tx c = Inr u"
    using ok by (cases "verify_transaction_for_mempool X tx c") (auto simp: admissible_def)
  have conds: "(tx_fee tx < MIN_FEE) = False" "(tx_fee tx < effective_min_fee sf p) = False"
    "(TX_MAX_SIZE_BYTES < mempool_tx_size X tx) = False"
    "(MEMPOOL_MAX_TXS_PER_ACCOUNT \<le> sender_count p (tx_sender tx)) = False"
    "(wrap_add64 n MAX_NONCE_GAP < tx_nonce tx) = False" "(hm_get (mp_entries p) (tx_id tx) \<noteq> None) = False"
    using ok by (simp_all add: admissible_def not_less not_le)
  show ?thesis
  proof (cases "find_replacement tx p")
    case None
    then show ?thesis using eq
      unfolding add_transaction_def u sum.case conds if_False by (simp add: after_replacement_def)
  next
    case (Some kf)
    obtain k f where kf: "kf = (k, f)" by (cases kf)
    have "\<not> tx_fee tx < div_ceil (sat_mul64 f 11) 10" using ok Some kf by (simp add: admissible_def)
    then show ?thesis using eq Some kf
      unfolding add_transaction_def u sum.case conds if_False by (simp add: after_replacement_def)
  qed
qed

lemma add_transaction_wf:
  assumes wf: "mempool_wf p" and run: "add_transaction X tx prio at n sf c p = (r, q)"
  shows "mempool_wf q"
proof (cases "admissible X tx n sf c p")
  case False
  with add_transaction_reject [OF wf False, of prio at] run wf show ?thesis by auto
next
  case True
  let ?sz = "mempool_tx_size X tx" and ?a = "after_replacement tx p"
  have sz: "?sz \<le> TX_MAX_SIZE_BYTES" and cnt: "sender_count p (tx_sender tx) < MEMPOOL_MAX_TXS_PER_ACCOUNT"
    and new: "hm_get (mp_entries p) (tx_id tx) = None" and fee: "MIN_FEE \<le> tx_fee tx"
    using True by (simp_all add: admissible_def)
  note ar = after_replacement_law [OF wf, where tx = tx]
  have wfa: "mempool_wf ?a" using ar(1) by (simp add: shrinks_def)
  note rm = room_made_law [OF wfa sz]
  have sh: "shrinks p (room_made ?sz ?a)" using ar(1) rm(1) by (rule shrinks_trans)
  have wfr: "mempool_wf (room_made ?sz ?a)" using rm(1) by (simp add: shrinks_def)
  have le: "hm_total (from_sender a) (mp_entries (room_made ?sz ?a)) \<le> hm_total (from_sender a) (mp_entries p)" for a
  proof -
    have d: "hm_wf (mp_entries p)" "hm_wf (mp_entries (room_made ?sz ?a))" using wf wfr by (simp_all add: mempool_wf_def)
    have sub: "set (mp_entries (room_made ?sz ?a)) \<subseteq> set (mp_entries p)"
    proof
      fix x assume "x \<in> set (mp_entries (room_made ?sz ?a))"
      then have "hm_get (mp_entries (room_made ?sz ?a)) (fst x) = Some (snd x)"
        using hm_in_set_get [OF d(2), of "fst x" "snd x"] by simp
      then have "hm_get (mp_entries p) (fst x) = Some (snd x)" using sh unfolding shrinks_def by blast
      from hm_get_in_set [OF this] show "x \<in> set (mp_entries p)" by simp
    qed
    have conv: "hm_total w m = (\<Sum>x \<in> set m. w (snd x))" if "hm_wf m" for m :: "(object_id, mempool_entry) hash_map" and w
      using that unfolding hm_total_def hm_wf_def
      by (intro sum_list_distinct_conv_sum_set) (simp add: distinct_map)
    show ?thesis unfolding conv [OF d(1)] conv [OF d(2)] by (rule sum_mono2) (use sub in auto)
  qed
  have "q = inserted tx prio at ?sz (room_made ?sz ?a)"
    using add_transaction_accept [OF wf True, of prio at] run by simp
  moreover have "mempool_wf (inserted tx prio at ?sz (room_made ?sz ?a))"
  proof (rule inserted_wf [OF wfr _ _ _ sz rm(2) fee])
    show "hm_get (mp_entries (room_made ?sz ?a)) (tx_id tx) = None"
      using sh new unfolding shrinks_def by (metis not_Some_eq)
    show "sender_count (room_made ?sz ?a) (tx_sender tx) < MEMPOOL_MAX_TXS_PER_ACCOUNT"
      using cnt le [of "tx_sender tx"] sender_count_exact [OF wf] sender_count_exact [OF wfr] by simp
    show "\<not> (tx_sender (me_transaction e) = tx_sender tx \<and> tx_nonce (me_transaction e) = tx_nonce tx)"
      if "hm_get (mp_entries (room_made ?sz ?a)) i = Some e" for i e
      using ar(2) [of i e] that rm(1) by (auto simp: shrinks_def conflicts_def)
  qed
  ultimately show ?thesis by simp
qed

section \<open>Reachable pools\<close>

inductive mempool_step :: "'x externs_scheme \<Rightarrow> mempool \<Rightarrow> mempool \<Rightarrow> bool" for X where
  pool_add: "add_transaction X tx prio at n sf c p = (r, q) \<Longrightarrow> mempool_step X p q"
| pool_remove: "mempool_step X p (snd (remove_transaction i p))"
| pool_expire: "mempool_step X p (snd (evict_expired now p))"

inductive mempool_reachable :: "'x externs_scheme \<Rightarrow> mempool \<Rightarrow> bool" for X where
  pool_new: "mempool_reachable X mempool_new"
| pool_step: "mempool_reachable X p \<Longrightarrow> mempool_step X p q \<Longrightarrow> mempool_reachable X q"

lemma evict_expired_shrinks: "mempool_wf p \<Longrightarrow> shrinks p (snd (evict_expired now p))"
  using remove_all_shrinks by (simp add: evict_expired_def Let_def)

lemma mempool_reachable_wf: "mempool_reachable X p \<Longrightarrow> mempool_wf p"
proof (induction rule: mempool_reachable.induct)
  case pool_new
  show ?case by (rule mempool_wf_new)
next
  case (pool_step p q)
  from pool_step.hyps(2) show ?case
  proof cases
    case pool_add
    with pool_step.IH show ?thesis by (blast intro: add_transaction_wf)
  next
    case pool_remove
    with pool_step.IH show ?thesis by (simp add: remove_transaction_wf)
  next
    case pool_expire
    with evict_expired_shrinks [OF pool_step.IH] show ?thesis by (simp add: shrinks_def)
  qed
qed

lemma remove_all_get:
  "hm_get (mp_entries (fold (\<lambda>i q. snd (remove_transaction i q)) is p)) j =
     (if j \<in> set is then None else hm_get (mp_entries p) j)"
  by (induction "is" arbitrary: p) (auto simp: remove_transaction_get)

text \<open>A stable sort keeps the earlier order among equal keys.\<close>

lemma sorted_wrt_insort_key_stable:
  fixes f :: "'a \<Rightarrow> 'k :: linorder" and g :: "'a \<Rightarrow> 'l :: linorder"
  assumes "sorted_wrt (\<lambda>x y. f x < f y \<or> (f x = f y \<and> g x \<le> g y)) ys" and "\<forall>y \<in> set ys. g x \<le> g y"
  shows "sorted_wrt (\<lambda>x y. f x < f y \<or> (f x = f y \<and> g x \<le> g y)) (insort_key f x ys)"
  using assms
proof (induction ys)
  case (Cons y ys)
  show ?case
  proof (cases "f x \<le> f y")
    case True
    have "f x < f z \<or> (f x = f z \<and> g x \<le> g z)" if "z \<in> set (y # ys)" for z
      using that True Cons.prems by fastforce
    with Cons.prems(1) True show ?thesis by simp
  next
    case False
    then show ?thesis using Cons by (auto simp: set_insort_key)
  qed
qed simp

lemma sorted_wrt_sort_key_stable:
  fixes f :: "'a \<Rightarrow> 'k :: linorder" and g :: "'a \<Rightarrow> 'l :: linorder"
  assumes "sorted (map g xs)"
  shows "sorted_wrt (\<lambda>x y. f x < f y \<or> (f x = f y \<and> g x \<le> g y)) (sort_key f xs)"
  using assms
proof (induction xs)
  case (Cons x xs)
  then have "\<forall>y \<in> set (sort_key f xs). g x \<le> g y" by simp
  with Cons show ?case by (simp add: sorted_wrt_insort_key_stable)
qed simp

lemma demo_admissible: "admissible demo_externs demo_tx 0 1 1 mempool_new"
proof -
  have "verify_transaction_for_mempool demo_externs demo_tx 1 = Inr ()"
    by (simp add: verify_transaction_for_mempool_def compute_mempool_tx_id_def demo_externs_def demo_tx_def
        hash_to_object_id_with_domain_def hash_with_domain_def hasher_finalize_def SIGNATURE_TYPE_ED25519_def
        ed25519_public_key_to_object_id_def transaction_signing_payload_def verify_ed25519_iff)
  moreover have "effective_min_fee 1 mempool_new = 1"
    by (simp add: effective_min_fee_def mempool_new_def MIN_FEE_def sat_mul64_def U64_MAX_def div_ceil_def)
  moreover have "mempool_tx_size demo_externs demo_tx = 3" by (simp add: mempool_tx_size_def demo_externs_def)
  ultimately show ?thesis
    by (simp add: admissible_def sender_count_def mempool_new_def find_replacement_def demo_tx_def MIN_FEE_def
        TX_MAX_SIZE_BYTES_def MEMPOOL_MAX_TXS_PER_ACCOUNT_def)
qed

section \<open>Properties\<close>

text \<open>
  Every pool that admission, removal and expiry can reach is consistent: entries are keyed by
  their transaction id, pay at least the minimum fee and are within the size limit; no two
  entries share sender and nonce; the per-sender counters count the entries of each sender
  exactly and never exceed the account limit; the cached size is the sum of the entry sizes and
  never exceeds the pool limit.
\<close>

theorem reachable_mempool_invariant:
  assumes "mempool_reachable X p"
  shows "mempool_wf p \<and> sender_count p a = hm_total (from_sender a) (mp_entries p)
       \<and> sender_count p a \<le> MEMPOOL_MAX_TXS_PER_ACCOUNT
       \<and> mempool_total_size p = hm_total me_size (mp_entries p)
       \<and> mempool_total_size p \<le> MEMPOOL_MAX_SIZE_BYTES"
  using mempool_reachable_wf [OF assms] sender_count_exact [of p a]
  by (simp add: mempool_wf_def mempool_total_size_def)

theorem reachable_mempool_invariant_witness:
  "\<exists>q. add_transaction demo_externs demo_tx 7 0 0 1 1 mempool_new = (Inr (), q)
     \<and> sender_count q (tx_sender demo_tx) \<le> 50 \<and> mempool_total_size q = hm_total me_size (mp_entries q)"
proof -
  obtain q where run: "add_transaction demo_externs demo_tx 7 0 0 1 1 mempool_new = (Inr (), q)"
    using add_transaction_accept [OF mempool_wf_new demo_admissible] by blast
  then have "mempool_step demo_externs mempool_new q" by (rule pool_add)
  with pool_new have "mempool_reachable demo_externs q" by (rule pool_step)
  from reachable_mempool_invariant [OF this, of "tx_sender demo_tx"]
  have "sender_count q (tx_sender demo_tx) \<le> 50" "mempool_total_size q = hm_total me_size (mp_entries q)"
    by (simp_all add: MEMPOOL_MAX_TXS_PER_ACCOUNT_def)
  with run show ?thesis by blast
qed

text \<open>
  C9: admission is exact and all-or-nothing. On a consistent pool a transaction is accepted
  exactly when it verifies, pays the congestion minimum, fits the size, account and nonce limits,
  is not already present and outbids a transaction of the same sender and nonce by ten percent.
  On acceptance the outbid transaction is gone, room has been made by eviction, and the
  transaction is in the pool; on rejection the pool is untouched. Eviction always frees enough
  room, so the error \<open>MempoolFull\<close> never occurs; which entries it drops does not depend on the
  priority of the arriving transaction.
\<close>

theorem mempool_admission_exact:
  assumes wf: "mempool_wf p" and run: "add_transaction X tx prio submitted n sf c p = (r, q)"
  shows "(admissible X tx n sf c p \<longrightarrow>
            r = Inr () \<and>
            q = inserted tx prio submitted (mempool_tx_size X tx)
                  (room_made (mempool_tx_size X tx) (after_replacement tx p)) \<and>
            get_transaction (tx_id tx) q = Some tx \<and>
            (\<forall>j e. j \<noteq> tx_id tx \<longrightarrow> hm_get (mp_entries q) j = Some e \<longrightarrow>
               hm_get (mp_entries p) j = Some e \<and> \<not> conflicts tx e))
       \<and> (\<not> admissible X tx n sf c p \<longrightarrow> (\<exists>e. r = Inl e) \<and> q = p)
       \<and> mempool_wf q"
proof (intro conjI impI)
  let ?sz = "mempool_tx_size X tx" and ?a = "after_replacement tx p"
  show "mempool_wf q" using wf run by (rule add_transaction_wf)
  assume ok: "admissible X tx n sf c p"
  have q: "(r, q) = (Inr (), inserted tx prio submitted ?sz (room_made ?sz ?a))"
    using run add_transaction_accept [OF wf ok, of prio submitted] by simp
  then show "r = Inr ()" and "q = inserted tx prio submitted ?sz (room_made ?sz ?a)" by simp_all
  show "get_transaction (tx_id tx) q = Some tx"
    using q by (simp add: get_transaction_def inserted_def hm_get_put)
  note ar = after_replacement_law [OF wf, where tx = tx]
  have wfa: "mempool_wf ?a" using ar(1) by (simp add: shrinks_def)
  have sz: "?sz \<le> TX_MAX_SIZE_BYTES" using ok by (simp add: admissible_def)
  have rm: "shrinks ?a (room_made ?sz ?a)" using wfa sz by (rule room_made_law(1))
  show "\<forall>j e. j \<noteq> tx_id tx \<longrightarrow> hm_get (mp_entries q) j = Some e \<longrightarrow>
      hm_get (mp_entries p) j = Some e \<and> \<not> conflicts tx e"
  proof (intro allI impI)
    fix j e assume "j \<noteq> tx_id tx" and "hm_get (mp_entries q) j = Some e"
    then have "hm_get (mp_entries (room_made ?sz ?a)) j = Some e" using q by (simp add: inserted_def hm_get_put)
    then have "hm_get (mp_entries ?a) j = Some e" using rm unfolding shrinks_def by blast
    then show "hm_get (mp_entries p) j = Some e \<and> \<not> conflicts tx e"
      using ar(1) ar(2) unfolding shrinks_def by blast
  qed
next
  assume "\<not> admissible X tx n sf c p"
  from add_transaction_reject [OF wf this, of prio submitted] run show "\<exists>e. r = Inl e" and "q = p" by auto
qed

theorem mempool_admission_exact_witness:
  "\<exists>q. add_transaction demo_externs demo_tx 7 0 0 1 1 mempool_new = (Inr (), q)
     \<and> get_transaction (tx_id demo_tx) q = Some demo_tx"
proof -
  obtain r q where run: "add_transaction demo_externs demo_tx 7 0 0 1 1 mempool_new = (r, q)"
    by (metis surj_pair)
  have "admissible demo_externs demo_tx 0 1 1 mempool_new" by (rule demo_admissible)
  with mempool_admission_exact [OF mempool_wf_new run] run show ?thesis by auto
qed

text \<open>
  Expiry removes exactly the entries that have been in the pool longer than the expiry time
  and reports how many they are; every other entry stays as it is.
\<close>

theorem expiry_removes_exactly_expired:
  assumes wf: "mempool_wf p" and run: "evict_expired now p = (n, q)"
  shows "(\<forall>j e. hm_get (mp_entries q) j = Some e \<longleftrightarrow>
            hm_get (mp_entries p) j = Some e \<and> now - me_submitted_at e \<le> MEMPOOL_TX_EXPIRY_SECS)
       \<and> n = card {j. \<exists>e. hm_get (mp_entries p) j = Some e \<and> MEMPOOL_TX_EXPIRY_SECS < now - me_submitted_at e}
       \<and> mempool_wf q"
proof (intro conjI)
  let ?old = "\<lambda>e. MEMPOOL_TX_EXPIRY_SECS < now - me_submitted_at e"
  let ?ids = "map fst (filter (\<lambda>(_, e). ?old e) (mp_entries p))"
  have hm: "hm_wf (mp_entries p)" using wf by (simp add: mempool_wf_def)
  have q: "n = length ?ids" "q = fold (\<lambda>i q. snd (remove_transaction i q)) ?ids p"
    using run by (auto simp: evict_expired_def Let_def sat_sub_def)
  have ids: "j \<in> set ?ids \<longleftrightarrow> (\<exists>e. hm_get (mp_entries p) j = Some e \<and> ?old e)" for j
    using hm by (force intro: hm_in_set_get dest: hm_get_in_set)
  show "\<forall>j e. hm_get (mp_entries q) j = Some e \<longleftrightarrow>
      hm_get (mp_entries p) j = Some e \<and> now - me_submitted_at e \<le> MEMPOOL_TX_EXPIRY_SECS"
    unfolding q(2) remove_all_get using ids by (auto simp: not_less)
  have "distinct ?ids" using hm by (simp add: hm_wf_def distinct_map_filter)
  then have "n = card (set ?ids)" using q(1) by (metis distinct_card)
  also have "set ?ids = {j. \<exists>e. hm_get (mp_entries p) j = Some e \<and> ?old e}" using ids by blast
  finally show "n = card {j. \<exists>e. hm_get (mp_entries p) j = Some e \<and> ?old e}" .
  show "mempool_wf q" using evict_expired_shrinks [OF wf, of now] run by (simp add: shrinks_def)
qed

theorem expiry_removes_exactly_expired_witness:
  "\<exists>n q. evict_expired 100000 mempool_new = (n, q) \<and> n = 0 \<and> mempool_wf q"
proof -
  obtain n q where run: "evict_expired 100000 mempool_new = (n, q)" by (metis surj_pair)
  from expiry_removes_exactly_expired [OF mempool_wf_new run] run show ?thesis by (simp add: mempool_new_def)
qed

text \<open>
  The view of the pool for block producers lists every pooled transaction exactly once, by
  descending priority and, among equal priorities, by ascending submission time.
\<close>

theorem ordered_view_sorted:
  "mset (get_ordered_transactions p) = mset (map (\<lambda>x. me_transaction (snd x)) (mp_entries p))
   \<and> sorted_wrt (\<lambda>e f. me_priority f < me_priority e \<or>
        (me_priority e = me_priority f \<and> me_submitted_at e \<le> me_submitted_at f)) (ordered_entries p)"
proof
  have "mset (ordered_entries p) = mset (map snd (mp_entries p))"
    unfolding ordered_entries_def by (simp only: mset_sort)
  then have "mset (map me_transaction (ordered_entries p)) = mset (map me_transaction (map snd (mp_entries p)))"
    by (simp only: mset_map)
  then show "mset (get_ordered_transactions p) = mset (map (\<lambda>x. me_transaction (snd x)) (mp_entries p))"
    by (simp add: get_ordered_transactions_def comp_def)
  let ?xs = "sort_key me_submitted_at (map snd (mp_entries p))"
  have base: "sorted (map me_submitted_at ?xs)" by (rule sorted_sort_key)
  let ?key = "\<lambda>e. - int (me_priority e)"
  have "sorted_wrt (\<lambda>e f. ?key e < ?key f \<or> (?key e = ?key f \<and> me_submitted_at e \<le> me_submitted_at f))
      (sort_key ?key ?xs)"
    by (rule sorted_wrt_sort_key_stable [OF base])
  then show "sorted_wrt (\<lambda>e f. me_priority f < me_priority e \<or>
      (me_priority e = me_priority f \<and> me_submitted_at e \<le> me_submitted_at f)) (ordered_entries p)"
    unfolding ordered_entries_def by (rule sorted_wrt_mono_rel [rotated]) auto
qed

end
