(* ===== verification/Dispatcher.thy ===== *)
theory Dispatcher
  imports Refiner_Props Mempool
begin

text \<open>
  The transaction dispatcher, \<open>crates/execution/src/dispatcher.rs\<close>: the dynamic bond and unbond
  assays, the three transaction handlers over the account store and the refiner set, the entry
  point \<open>apply_transaction\<close>, and the stateless verification of a transaction.
\<close>

section \<open>Results and context\<close>

record apply_result =
  ar_success :: bool
  ar_fee_charged :: nat
  ar_assay_burned :: nat
  ar_error :: "message option"

definition apply_ok :: "nat \<Rightarrow> nat \<Rightarrow> apply_result" where
  "apply_ok fee_charged assay_burned =
     \<lparr> ar_success = True, ar_fee_charged = fee_charged, ar_assay_burned = assay_burned, ar_error = None \<rparr>"

definition apply_err :: "message \<Rightarrow> apply_result" where
  "apply_err m = \<lparr> ar_success = False, ar_fee_charged = 0, ar_assay_burned = 0, ar_error = Some m \<rparr>"

record execution_context =
  cx_block_height :: nat
  cx_block_timestamp :: nat
  cx_total_issued :: nat

section \<open>Assays\<close>

definition dispatcher_sqrt_floor :: "nat \<Rightarrow> nat" where
  "dispatcher_sqrt_floor n = (if n < 2 then n else sqrt_newton n n (div_ceil n 2))"

definition dynamic_assay :: "nat \<Rightarrow> nat \<Rightarrow> nat \<Rightarrow> nat \<Rightarrow> nat" where
  "dynamic_assay amount pressure_numerator pressure_denominator active_limit =
     (if amount = 0 \<or> pressure_numerator = 0 \<or> pressure_denominator = 0 then 0
      else
        (let scale = FLAKES_PER_OPL;
             sqrt_pressure_scaled = dispatcher_sqrt_floor
               (sat_mul128 (sat_mul128 pressure_numerator scale) scale div pressure_denominator);
             sqrt_active_limit_scaled = dispatcher_sqrt_floor (sat_mul128 (sat_mul128 active_limit scale) scale);
             denominator = sat_mul128 DECIMAL_PLACES sqrt_active_limit_scaled
         in if denominator = 0 then 0
            else min (sat_mul128 amount sqrt_pressure_scaled div denominator) U64_MAX))"

definition bond_assay :: "nat \<Rightarrow> refiner_set \<Rightarrow> nat \<Rightarrow> nat" where
  "bond_assay amount refiners total_issued_flakes =
     (let active_limit = active_refiner_limit total_issued_flakes;
          baseline = wrap128 (minimum_bond_stake total_issued_flakes * active_limit);
          bonded_after = sat_add64 (total_bonded_stake refiners) amount
      in dynamic_assay amount bonded_after baseline active_limit)"

definition unbond_assay :: "nat \<Rightarrow> refiner_set \<Rightarrow> nat \<Rightarrow> nat" where
  "unbond_assay amount refiners total_issued_flakes =
     (let total_bonded = total_bonded_stake refiners in
      if total_bonded = 0 then 0
      else
        (let active_limit = active_refiner_limit total_issued_flakes;
             baseline = wrap128 (minimum_bond_stake total_issued_flakes * active_limit)
         in dynamic_assay amount baseline total_bonded active_limit))"

definition checked_add_amounts :: "String.literal \<Rightarrow> nat \<Rightarrow> nat \<Rightarrow> message + nat" where
  "checked_add_amounts context a b =
     ok_or (checked_add64 a b) (Fmt (STR ''{} overflow: {} + {}'') [AMsg (Fmt context []), ANat a, ANat b])"

definition checked_total_cost :: "String.literal \<Rightarrow> nat \<Rightarrow> nat \<Rightarrow> nat \<Rightarrow> message + nat" where
  "checked_total_cost context amount fee assay =
     and_then (checked_add_amounts context amount fee)
       (\<lambda>amount_plus_fee. checked_add_amounts context amount_plus_fee assay)"

section \<open>Handlers\<close>

type_synonym ledger_state = "account_store \<times> refiner_set"

definition apply_transfer ::
  "transaction \<Rightarrow> object_id \<Rightarrow> object_id \<Rightarrow> nat \<Rightarrow> account_store \<Rightarrow> apply_result \<times> account_store" where
  "apply_transfer tx sender rcpt amount accounts =
     (case transfer sender rcpt amount (tx_fee tx) accounts of
        (Inr _, a) \<Rightarrow> (apply_ok (tx_fee tx) 0, a)
      | (Inl e, a) \<Rightarrow> (apply_err (opolys_error_to_string e), a))"

definition apply_bond ::
  "transaction \<Rightarrow> object_id \<Rightarrow> nat \<Rightarrow> execution_context \<Rightarrow> ledger_state \<Rightarrow> apply_result \<times> ledger_state" where
  "apply_bond tx sender stake cx st =
     (let accounts = fst st; refiners = snd st;
          minimum_bond = minimum_bond_stake (cx_total_issued cx) in
      if stake < minimum_bond
      then (apply_err (Fmt (STR ''Insufficient bond stake per entry: need {}, got {}'')
              [ANat minimum_bond, ANat stake]), st)
      else
        (let assay = bond_assay stake refiners (cx_total_issued cx) in
         case checked_total_cost (STR ''Bond cost'') stake (tx_fee tx) assay of
           Inl e \<Rightarrow> (apply_err e, st)
         | Inr total_needed \<Rightarrow>
             (if (case hm_get accounts sender of None \<Rightarrow> False | Some a \<Rightarrow> acc_balance a < total_needed)
              then (apply_err (Fmt (STR ''Insufficient balance for bond: need {}, have {}'')
                      [ANat total_needed, ANat (acc_balance (the (hm_get accounts sender)))]), st)
              else
                (case debit sender total_needed accounts of
                   (Inl e, a1) \<Rightarrow> (apply_err (opolys_error_to_string e), (a1, refiners))
                 | (Inr _, a1) \<Rightarrow>
                     (case bond sender stake (cx_block_height cx) (cx_block_timestamp cx) (cx_total_issued cx) refiners of
                        (Inl e, r1) \<Rightarrow>
                          (case credit sender total_needed a1 of
                             (Inl refund_error, a2) \<Rightarrow>
                               (apply_err (Fmt (STR ''Bond failed ({}) and refund failed: {}'')
                                  [AMsg e, AMsg (opolys_error_to_string refund_error)]), (a2, r1))
                           | (Inr _, a2) \<Rightarrow> (apply_err e, (a2, r1)))
                      | (Inr _, r1) \<Rightarrow>
                          (apply_ok (tx_fee tx) assay,
                           (modify_account sender (\<lambda>a. a\<lparr>acc_nonce := wrap_add64 (acc_nonce a) 1\<rparr>) a1, r1)))))))"

definition apply_unbond ::
  "transaction \<Rightarrow> object_id \<Rightarrow> nat \<Rightarrow> execution_context \<Rightarrow> ledger_state \<Rightarrow> apply_result \<times> ledger_state" where
  "apply_unbond tx sender amount cx st =
     (let accounts = fst st; refiners = snd st in
      if get_refiner refiners sender = None then (apply_err (Fmt (STR ''Refiner not bonded'') []), st)
      else if amount = 0 then (apply_err (Fmt (STR ''Unbond amount must be greater than zero'') []), st)
      else
        (let max_assay = unbond_assay amount refiners (cx_total_issued cx) in
         case checked_add_amounts (STR ''Unbond fee'') (tx_fee tx) max_assay of
           Inl e \<Rightarrow> (apply_err e, st)
         | Inr total_fee \<Rightarrow>
             (if (case hm_get accounts sender of None \<Rightarrow> False | Some a \<Rightarrow> acc_balance a < total_fee)
              then (apply_err (Fmt (STR ''Insufficient balance for unbond fees: need {}, have {}'')
                      [ANat total_fee, ANat (acc_balance (the (hm_get accounts sender)))]), st)
              else
                (case unbond_amount sender amount (cx_block_height cx) refiners of
                   (Inl e, r1) \<Rightarrow> (apply_err e, (accounts, r1))
                 | (Inr unbonded, r1) \<Rightarrow>
                     (if unbonded = 0 then (apply_err (Fmt (STR ''No stake unbonded'') []), (accounts, r1))
                      else
                        (case checked_add_amounts (STR ''Unbond fee'') (tx_fee tx) max_assay of
                           Inl e \<Rightarrow> (apply_err e, (accounts, r1))
                         | Inr total_fee2 \<Rightarrow>
                             (let a1 = modify_account sender
                                    (\<lambda>a. a\<lparr>acc_balance := wrap64 (acc_balance a + (U64_MAX + 1) - total_fee2)\<rparr>) accounts;
                                  a2 = modify_account sender (\<lambda>a. a\<lparr>acc_nonce := wrap_add64 (acc_nonce a) 1\<rparr>) a1
                              in (apply_ok (tx_fee tx) max_assay, (a2, r1)))))))))"

section \<open>Verification\<close>

definition compute_tx_id ::
  "'x externs_scheme \<Rightarrow> object_id \<Rightarrow> transaction_action \<Rightarrow> nat \<Rightarrow> nat \<Rightarrow> nat \<Rightarrow> opolys_error + object_id" where
  "compute_tx_id X sender action fee nonce chain_id =
     and_then
       (ok_or (x_borsh_tx_body X (sender, action, fee, nonce, chain_id))
          (SerializationError (Fmt (STR ''Transaction ID serialization failed: {}'') [])))
       (\<lambda>d. Inr (hash_to_object_id_with_domain X DOMAIN_TX_ID d))"

definition verify_transaction :: "'x externs_scheme \<Rightarrow> transaction \<Rightarrow> nat \<Rightarrow> opolys_error + unit" where
  "verify_transaction X tx expected_chain_id =
     (if tx_chain_id tx \<noteq> expected_chain_id
      then Inl (InvalidTransaction
             (Fmt (STR ''Transaction chain_id {} does not match network chain_id {}'')
                [ANat (tx_chain_id tx), ANat expected_chain_id]))
      else and_then (compute_tx_id X (tx_sender tx) (tx_action tx) (tx_fee tx) (tx_nonce tx) (tx_chain_id tx))
        (\<lambda>expected_tx_id.
           if tx_id tx \<noteq> expected_tx_id
           then Inl (InvalidTransaction (Fmt (STR ''Transaction ID mismatch: expected {}, got {}'')
                  [AId expected_tx_id, AId (tx_id tx)]))
           else if tx_signature_type tx \<noteq> SIGNATURE_TYPE_ED25519
           then Inl (InvalidTransaction
                  (Fmt (STR ''Unsupported signature type: {} (only ed25519 = 0 is supported)'')
                     [ANat (tx_signature_type tx)]))
           else if length (tx_public_key tx) \<noteq> 32
           then Inl (InvalidTransaction
                  (Fmt (STR ''Invalid public key length: {} bytes (expected 32 for ed25519)'')
                     [ANat (length (tx_public_key tx))]))
           else
             (let derived_object_id = ed25519_public_key_to_object_id X (tx_public_key tx) in
              if object_id_as_bytes (tx_sender tx) \<noteq> object_id_as_bytes derived_object_id
              then Inl (InvalidTransaction
                     (Fmt (STR ''Public key does not match sender: Blake3(pk)={}, sender={}'')
                        [AId derived_object_id, AId (tx_sender tx)]))
              else and_then
                (transaction_signing_payload X (tx_sender tx) (tx_action tx) (tx_fee tx) (tx_nonce tx) (tx_chain_id tx))
                (\<lambda>unsigned_data.
                   if \<not> verify_ed25519 X (tx_public_key tx) unsigned_data (tx_signature tx)
                   then Inl InvalidSignature else Inr ()))))"

section \<open>The entry point\<close>

definition apply_action ::
  "transaction \<Rightarrow> execution_context \<Rightarrow> ledger_state \<Rightarrow> apply_result \<times> ledger_state" where
  "apply_action tx cx st =
     (case tx_action tx of
        Transfer rcpt amount \<Rightarrow>
          (case apply_transfer tx (tx_sender tx) rcpt amount (fst st) of (r, a) \<Rightarrow> (r, (a, snd st)))
      | RefinerBond amount \<Rightarrow> apply_bond tx (tx_sender tx) amount cx st
      | RefinerUnbond amount \<Rightarrow> apply_unbond tx (tx_sender tx) amount cx st)"

definition apply_transaction ::
  "'x externs_scheme \<Rightarrow> transaction \<Rightarrow> nat \<Rightarrow> nat \<Rightarrow> nat \<Rightarrow> nat \<Rightarrow> ledger_state \<Rightarrow> apply_result \<times> ledger_state" where
  "apply_transaction X tx block_height block_timestamp total_issued_flakes expected_chain_id st =
     (case verify_transaction X tx expected_chain_id of
        Inl e \<Rightarrow> (apply_err (opolys_error_to_string e), st)
      | Inr _ \<Rightarrow>
        (if tx_fee tx < MIN_FEE
         then (apply_err (Fmt (STR ''Fee below minimum: need at least {} flakes, got {}'')
                 [ANat MIN_FEE, ANat (tx_fee tx)]), st)
         else
           (let sender = tx_sender tx;
                cx = \<lparr> cx_block_height = block_height, cx_block_timestamp = block_timestamp,
                       cx_total_issued = total_issued_flakes \<rparr>
            in case get_account (fst st) sender of
                 None \<Rightarrow> (apply_err (Fmt (STR ''Sender account not found: {}'') [AId sender]), st)
               | Some account \<Rightarrow>
                   (if acc_nonce account \<noteq> tx_nonce tx
                    then (apply_err (Fmt (STR ''Invalid nonce: expected {}, got {}'')
                            [ANat (acc_nonce account), ANat (tx_nonce tx)]), st)
                    else if checked_add64 (acc_nonce account) 1 = None
                    then (apply_err (Fmt (STR ''Nonce overflow'') []), st)
                    else
                      (case apply_action tx cx st of
                         (r, (a, rs)) \<Rightarrow>
                           (r, (if ar_success r \<and> tx_public_key tx \<noteq> []
                                then modify_account sender (\<lambda>acc. acc\<lparr>acc_public_key := Some (tx_public_key tx)\<rparr>) a
                                else a, rs)))))))"

definition validate_transaction_basic :: "transaction \<Rightarrow> nat \<Rightarrow> nat \<Rightarrow> opolys_error + unit" where
  "validate_transaction_basic tx sender_balance sender_nonce =
     (if tx_fee tx < MIN_FEE
      then Inl (InvalidParams (Fmt (STR ''Fee below minimum: need at least {} flakes, got {}'')
             [ANat MIN_FEE, ANat (tx_fee tx)]))
      else if tx_nonce tx \<noteq> sender_nonce then Inl (InvalidNonce sender_nonce (tx_nonce tx))
      else
        (let checked_add = (\<lambda>context a b. map_err InvalidParams (checked_add_amounts context a b))
         in and_then
              (case tx_action tx of
                 Transfer _ amount \<Rightarrow> checked_add (STR ''Transfer cost'') amount (tx_fee tx)
               | RefinerBond amount \<Rightarrow> checked_add (STR ''Bond cost'') amount (tx_fee tx)
               | RefinerUnbond _ \<Rightarrow> Inr (tx_fee tx))
              (\<lambda>total_cost.
                 if sender_balance < total_cost then Inl (InsufficientBalance total_cost sender_balance)
                 else Inr ())))"

section \<open>The square root\<close>

interpretation dispatcher_sqrt: isqrt_upto dispatcher_sqrt_floor "U128_MAX + 1"
proof (unfold_locales, goal_cases)
  case (1 n)
  show ?case
  proof (cases "n < 2")
    case True
    then have "n = 0 \<or> n = 1" by auto
    then show ?thesis by (auto simp: dispatcher_sqrt_floor_def)
  next
    case False
    then show ?thesis using sqrt_newton_start [of n] by (simp add: dispatcher_sqrt_floor_def Let_def)
  qed
next
  case (2 n)
  show ?case
  proof (cases "n < 2")
    case True
    then have "n = 0 \<or> n = 1" by auto
    then show ?thesis by (auto simp: dispatcher_sqrt_floor_def)
  next
    case False
    then show ?thesis using sqrt_newton_start [of n] by (simp add: dispatcher_sqrt_floor_def Let_def)
  qed
qed

lemma dispatcher_sqrt_mono: "m \<le> n \<Longrightarrow> n \<le> U128_MAX \<Longrightarrow> dispatcher_sqrt_floor m \<le> dispatcher_sqrt_floor n"
  by (rule dispatcher_sqrt.isqrt_mono) simp_all

lemma sat_mul128_mono: "a \<le> b \<Longrightarrow> c \<le> d \<Longrightarrow> sat_mul128 a c \<le> sat_mul128 b d"
  unfolding sat_mul128_def by (intro min.mono mult_le_mono) simp_all

lemma sat_mul128_le [simp]: "sat_mul128 a b \<le> U128_MAX"
  by (simp add: sat_mul128_def)

text \<open>The assay rises with the pressure ratio and with the amount.\<close>

lemma dynamic_assay_mono:
  assumes "amount \<le> amount'" and "num \<le> num'" and "den' \<le> den" and "0 < den'"
  shows "dynamic_assay amount num den limit \<le> dynamic_assay amount' num' den' limit"
proof (cases "amount = 0 \<or> num = 0")
  case True
  then show ?thesis by (auto simp: dynamic_assay_def)
next
  case False
  let ?p = "\<lambda>num den. dispatcher_sqrt_floor (sat_mul128 (sat_mul128 num FLAKES_PER_OPL) FLAKES_PER_OPL div den)"
  let ?d = "sat_mul128 DECIMAL_PLACES (dispatcher_sqrt_floor (sat_mul128 (sat_mul128 limit FLAKES_PER_OPL) FLAKES_PER_OPL))"
  have nz: "(amount = 0 \<or> num = 0 \<or> den = 0) = False" "(amount' = 0 \<or> num' = 0 \<or> den' = 0) = False"
    using False assms by auto
  have "sat_mul128 (sat_mul128 num FLAKES_PER_OPL) FLAKES_PER_OPL div den
      \<le> sat_mul128 (sat_mul128 num' FLAKES_PER_OPL) FLAKES_PER_OPL div den"
    by (intro div_le_mono sat_mul128_mono assms order_refl)
  also have "\<dots> \<le> sat_mul128 (sat_mul128 num' FLAKES_PER_OPL) FLAKES_PER_OPL div den'"
    using assms by (intro div_le_mono2) auto
  finally have "?p num den \<le> ?p num' den'"
    by (rule dispatcher_sqrt_mono) (meson div_le_dividend order_trans sat_mul128_le)
  then have "sat_mul128 amount (?p num den) div ?d \<le> sat_mul128 amount' (?p num' den') div ?d"
    using assms(1) by (intro div_le_mono sat_mul128_mono)
  then have le: "min (sat_mul128 amount (?p num den) div ?d) U64_MAX \<le> min (sat_mul128 amount' (?p num' den') div ?d) U64_MAX"
    by (intro min.mono) simp_all
  have "dynamic_assay amount num den limit = (if ?d = 0 then 0 else min (sat_mul128 amount (?p num den) div ?d) U64_MAX)"
    unfolding dynamic_assay_def nz Let_def by (simp only: if_False)
  moreover have "dynamic_assay amount' num' den' limit = (if ?d = 0 then 0 else min (sat_mul128 amount' (?p num' den') div ?d) U64_MAX)"
    unfolding dynamic_assay_def nz Let_def by (simp only: if_False)
  ultimately show ?thesis using le by presburger
qed

lemma dynamic_assay_le: "dynamic_assay amount num den limit \<le> U64_MAX"
  by (simp add: dynamic_assay_def Let_def)

section \<open>The ledger invariant\<close>

text \<open>All coins in accounts and in custody; their sum is a \<open>u64\<close>.\<close>

definition coins :: "ledger_state \<Rightarrow> nat" where
  "coins st = total_balance (fst st) + custody (snd st)"

definition ledger_ok :: "ledger_state \<Rightarrow> bool" where
  "ledger_ok st \<longleftrightarrow> accounts_wf (fst st) \<and> refiners_wf (snd st) \<and> coins st \<le> U64_MAX"

text \<open>What a handler may do: fail and change nothing, or succeed, charge exactly what it reports
  and step the sender's nonce.\<close>

definition handler_law :: "object_id \<Rightarrow> nat \<Rightarrow> ledger_state \<Rightarrow> apply_result \<times> ledger_state \<Rightarrow> bool" where
  "handler_law sender fee st out \<longleftrightarrow>
     (case out of (r, st') \<Rightarrow>
       if ar_success r then
         ledger_ok st' \<and> coins st = coins st' + ar_fee_charged r + ar_assay_burned r \<and> ar_fee_charged r = fee \<and>
         (\<exists>a a'. hm_get (fst st) sender = Some a \<and> hm_get (fst st') sender = Some a' \<and> acc_nonce a' = acc_nonce a + 1) \<and>
         (\<forall>i a. i \<noteq> sender \<longrightarrow> hm_get (fst st) i = Some a \<longrightarrow>
            (\<exists>a'. hm_get (fst st') i = Some a' \<and> acc_nonce a' = acc_nonce a \<and> acc_balance a \<le> acc_balance a'))
       else st' = st \<and> ar_fee_charged r = 0 \<and> ar_assay_burned r = 0 \<and> ar_error r \<noteq> None)"

lemma apply_ok_sel [simp]:
  "ar_success (apply_ok f b)" "ar_fee_charged (apply_ok f b) = f" "ar_assay_burned (apply_ok f b) = b"
  "ar_error (apply_ok f b) = None"
  by (simp_all add: apply_ok_def)

lemma apply_err_sel [simp]:
  "\<not> ar_success (apply_err m)" "ar_fee_charged (apply_err m) = 0" "ar_assay_burned (apply_err m) = 0"
  "ar_error (apply_err m) = Some m"
  by (simp_all add: apply_err_def)

lemma handler_law_err [simp]: "handler_law sender fee st (apply_err m, st)"
  by (simp add: handler_law_def)

lemma apply_transfer_law:
  assumes ok: "ledger_ok st"
  shows "handler_law sender (tx_fee tx) st
    (case apply_transfer tx sender rcpt amount (fst st) of (r, a) \<Rightarrow> (r, (a, snd st)))"
proof (cases "transfer_ready (fst st) sender rcpt amount (tx_fee tx)")
  case False
  have "accounts_wf (fst st)" using ok by (simp add: ledger_ok_def)
  from transfer_not_ready [OF this False] show ?thesis by (auto simp: apply_transfer_def)
next
  case True
  have wf: "accounts_wf (fst st)" using ok by (simp add: ledger_ok_def)
  obtain a t where a: "hm_get (fst st) sender = Some a"
    and run: "transfer sender rcpt amount (tx_fee tx) (fst st) =
      (Inr \<lparr> tr_amount = amount, tr_fee_burned = tx_fee tx, tr_new_nonce = acc_nonce a + 1 \<rparr>, t)"
    and tr: "transferred (fst st) sender rcpt amount (tx_fee tx) t"
    and tot: "hm_total acc_balance (fst st) = hm_total acc_balance t + tx_fee tx" and wft: "accounts_wf t"
    using transfer_ready_ok [OF wf True] by blast
  have coins: "coins st = coins (t, snd st) + tx_fee tx" using tot by (simp add: coins_def total_balance_def)
  have "\<exists>a'. hm_get t i = Some a' \<and> acc_nonce a' = acc_nonce b \<and> acc_balance b \<le> acc_balance a'"
    if "i \<noteq> sender" "hm_get (fst st) i = Some b" for i b
    using tr that by (cases "i = rcpt") (auto simp: transferred_def Let_def)
  moreover have "\<exists>a'. hm_get t sender = Some a' \<and> acc_nonce a' = acc_nonce a + 1"
    using tr a by (auto simp: transferred_def)
  moreover have "ledger_ok (t, snd st)" using ok wft coins by (simp add: ledger_ok_def)
  ultimately show ?thesis
    using coins a by (simp add: apply_transfer_def run handler_law_def)
qed

lemma stake_part_le: "total_balance (fst st) \<le> coins st" "custody (snd st) \<le> coins st"
  by (simp_all add: coins_def)

text \<open>The account a debit followed by the nonce step leaves.\<close>

definition charged :: "nat \<Rightarrow> account \<Rightarrow> account" where
  "charged n a = a\<lparr>acc_balance := acc_balance a - n, acc_nonce := acc_nonce a + 1\<rparr>"

lemma charged_store:
  assumes wf: "accounts_wf s" and get: "hm_get s i = Some a" and le: "n \<le> acc_balance a"
    and nonce: "acc_nonce a < U64_MAX"
  shows "accounts_wf (hm_put i (charged n a) s)"
    and "hm_total acc_balance s = hm_total acc_balance (hm_put i (charged n a) s) + n"
proof -
  have "account_ok i a" using wf get by (rule accounts_wf_get)
  then have "account_ok i (charged n a)" using nonce by (auto simp: account_ok_def charged_def)
  with wf show "accounts_wf (hm_put i (charged n a) s)" by (rule accounts_wf_put)
  show "hm_total acc_balance s = hm_total acc_balance (hm_put i (charged n a) s) + n"
    using get by (rule ledger.total_take) (use le in \<open>simp add: charged_def\<close>)
qed

lemma charged_law:
  assumes ok: "ledger_ok (acc, rs)" and get: "hm_get acc i = Some a" and le: "fee + assay + moved \<le> acc_balance a"
    and nonce: "acc_nonce a < U64_MAX" and wf: "refiners_wf rs'" and cust: "custody rs' = custody rs + moved"
  shows "handler_law i fee (acc, rs) (apply_ok fee assay, (hm_put i (charged (fee + assay + moved) a) acc, rs'))"
proof -
  have wfa: "accounts_wf acc" using ok by (simp add: ledger_ok_def)
  note law = charged_store [OF wfa get le nonce]
  let ?st' = "(hm_put i (charged (fee + assay + moved) a) acc, rs')"
  have coins: "coins (acc, rs) = coins ?st' + fee + assay"
    using law(2) cust by (simp add: coins_def total_balance_def)
  then have "ledger_ok ?st'" using ok law(1) wf by (simp add: ledger_ok_def)
  with coins get show ?thesis by (simp add: handler_law_def hm_get_put charged_def)
qed

lemma apply_bond_law:
  assumes ok: "ledger_ok st" and get: "hm_get (fst st) sender = Some a" and nonce: "acc_nonce a < U64_MAX"
  shows "handler_law sender (tx_fee tx) st (apply_bond tx sender stake cx st)"
proof -
  obtain acc rs where st: "st = (acc, rs)" by (cases st)
  have wfa: "accounts_wf acc" and wfr: "refiners_wf rs" using ok by (simp_all add: ledger_ok_def st)
  have geta: "hm_get acc sender = Some a" using get by (simp add: st)
  let ?min = "minimum_bond_stake (cx_total_issued cx)" and ?as = "bond_assay stake rs (cx_total_issued cx)"
  let ?n = "stake + tx_fee tx + ?as"
  consider (small) "stake < ?min" | (over) e where "\<not> stake < ?min" "checked_total_cost (STR ''Bond cost'') stake (tx_fee tx) ?as = Inl e"
    | (poor) "\<not> stake < ?min" "checked_total_cost (STR ''Bond cost'') stake (tx_fee tx) ?as = Inr ?n" "acc_balance a < ?n"
    | (attempt) "\<not> stake < ?min" "checked_total_cost (STR ''Bond cost'') stake (tx_fee tx) ?as = Inr ?n" "?n \<le> acc_balance a"
    by (cases "checked_total_cost (STR ''Bond cost'') stake (tx_fee tx) ?as")
      (force simp: checked_total_cost_def checked_add_amounts_def and_then_Inr_iff)+
  then show ?thesis
  proof cases
    case small
    then show ?thesis by (simp add: apply_bond_def Let_def st)
  next
    case over
    then show ?thesis by (simp add: apply_bond_def Let_def st)
  next
    case poor
    then show ?thesis using geta by (simp add: apply_bond_def Let_def st)
  next
    case attempt
    let ?a1 = "hm_put sender (a\<lparr>acc_balance := acc_balance a - ?n\<rparr>) acc"
    have debit: "debit sender ?n acc = (Inr (), ?a1)" using geta attempt(3) by (simp add: debit_def)
    have refund: "credit sender ?n ?a1 = (Inr (), acc)" using debit wfa by (rule debit_credit_id)
    obtain b r1 where b: "bond sender stake (cx_block_height cx) (cx_block_timestamp cx) (cx_total_issued cx) rs = (b, r1)"
      by (metis surj_pair)
    have step: "apply_bond tx sender stake cx st =
      (case b of Inl e \<Rightarrow> (apply_err e, (acc, r1))
       | Inr u \<Rightarrow> (apply_ok (tx_fee tx) ?as, (modify_account sender (\<lambda>a. a\<lparr>acc_nonce := wrap_add64 (acc_nonce a) 1\<rparr>) ?a1, r1)))"
      using attempt geta by (simp add: apply_bond_def Let_def st debit refund b split: sum.splits)
    show ?thesis
    proof (cases b)
      case (Inl e)
      then have "r1 = rs" using b bond_err by blast
      then show ?thesis using Inl step by (simp add: st)
    next
      case (Inr u)
      then have run: "bond sender stake (cx_block_height cx) (cx_block_timestamp cx) (cx_total_issued cx) rs = (Inr (), r1)"
        using b by simp
      have "acc_balance a \<le> total_balance acc"
        unfolding total_balance_def using geta by (rule hm_total_ge)
      then have "custody rs + stake \<le> coins st" using attempt(3) by (simp add: st coins_def)
      then have fit: "custody rs + stake \<le> U64_MAX" using ok by (simp add: ledger_ok_def)
      have nw: "wrap_add64 (acc_nonce a) (Suc 0) = Suc (acc_nonce a)" using nonce wrap_add64_exact [of "acc_nonce a" 1] by simp
      have eq: "tx_fee tx + ?as + stake = ?n" by simp
      have "modify_account sender (\<lambda>a. a\<lparr>acc_nonce := wrap_add64 (acc_nonce a) 1\<rparr>) ?a1 =
          hm_put sender (charged (tx_fee tx + ?as + stake) a) acc"
        unfolding eq by (simp add: modify_account_def hm_get_put hm_put_put charged_def nw)
      moreover have "handler_law sender (tx_fee tx) (acc, rs)
          (apply_ok (tx_fee tx) ?as, (hm_put sender (charged (tx_fee tx + ?as + stake) a) acc, r1))"
        using ok geta nonce bond_wf [OF wfr run fit] bond_custody [OF run] attempt(3)
        by (intro charged_law) (simp_all add: st)
      ultimately show ?thesis using Inr step by (simp add: st)
    qed
  qed
qed

lemma apply_unbond_law:
  assumes ok: "ledger_ok st" and get: "hm_get (fst st) sender = Some a" and nonce: "acc_nonce a < U64_MAX"
  shows "handler_law sender (tx_fee tx) st (apply_unbond tx sender amount cx st)"
proof -
  obtain acc rs where st: "st = (acc, rs)" by (cases st)
  have wfa: "accounts_wf acc" and wfr: "refiners_wf rs" using ok by (simp_all add: ledger_ok_def st)
  have geta: "hm_get acc sender = Some a" using get by (simp add: st)
  have aok: "account_ok sender a" using wfa geta by (rule accounts_wf_get)
  let ?as = "unbond_assay amount rs (cx_total_issued cx)"
  let ?n = "tx_fee tx + ?as"
  consider (none) "get_refiner rs sender = None" | (zero) "get_refiner rs sender \<noteq> None" "amount = 0"
    | (over) e where "get_refiner rs sender \<noteq> None" "amount \<noteq> 0" "checked_add_amounts (STR ''Unbond fee'') (tx_fee tx) ?as = Inl e"
    | (poor) "get_refiner rs sender \<noteq> None" "amount \<noteq> 0" "checked_add_amounts (STR ''Unbond fee'') (tx_fee tx) ?as = Inr ?n" "acc_balance a < ?n"
    | (attempt) "get_refiner rs sender \<noteq> None" "amount \<noteq> 0" "checked_add_amounts (STR ''Unbond fee'') (tx_fee tx) ?as = Inr ?n" "?n \<le> acc_balance a"
    by (cases "checked_add_amounts (STR ''Unbond fee'') (tx_fee tx) ?as")
      (force simp: checked_add_amounts_def)+
  then show ?thesis
  proof cases
    case none
    then show ?thesis by (simp add: apply_unbond_def Let_def st)
  next
    case zero
    then show ?thesis by (simp add: apply_unbond_def Let_def st)
  next
    case over
    then show ?thesis by (simp add: apply_unbond_def Let_def st)
  next
    case poor
    then show ?thesis using geta by (simp add: apply_unbond_def Let_def st)
  next
    case attempt
    obtain b r1 where b: "unbond_amount sender amount (cx_block_height cx) rs = (b, r1)" by (metis surj_pair)
    have res: "(b = Inr amount \<and> refiners_wf r1 \<and> custody r1 = custody rs) \<or> ((\<exists>e. b = Inl e) \<and> r1 = rs)"
      using unbond_amount_result [OF wfr b] unbond_amount_wf [OF wfr b] unbond_amount_custody [OF wfr b] by blast
    have c: "(get_refiner rs sender = None) = False" "(amount = 0) = False" "(acc_balance a < ?n) = False"
      using attempt by auto
    let ?f = "\<lambda>a. a\<lparr>acc_balance := wrap64 (acc_balance a + (U64_MAX + 1) - ?n)\<rparr>"
    have step: "apply_unbond tx sender amount cx st =
      (case b of Inl e \<Rightarrow> (apply_err e, (acc, r1))
       | Inr u \<Rightarrow> (if u = 0 then (apply_err (Fmt (STR ''No stake unbonded'') []), (acc, r1))
           else (apply_ok (tx_fee tx) ?as,
             (modify_account sender (\<lambda>a. a\<lparr>acc_nonce := wrap_add64 (acc_nonce a) 1\<rparr>) (modify_account sender ?f acc), r1))))"
      unfolding apply_unbond_def Let_def st fst_conv snd_conv c if_False attempt(3) sum.case geta option.case b prod.case
      by (cases b) simp_all
    show ?thesis
    proof (cases b)
      case (Inl e)
      then show ?thesis using res step by (auto simp: st)
    next
      case (Inr u)
      have u: "u \<noteq> 0" "refiners_wf r1" "custody r1 = custody rs + 0" using res Inr attempt(2) by auto
      have "acc_balance a + (U64_MAX + 1) - ?n = (acc_balance a - ?n) + (U64_MAX + 1)" using attempt(4) by simp
      then have red: "wrap64 (acc_balance a + (U64_MAX + 1) - ?n) = wrap64 (acc_balance a - ?n)"
        unfolding wrap64_def by (metis mod_add_self2)
      have "acc_balance a - ?n \<le> U64_MAX" using aok unfolding account_ok_def by (meson diff_le_self le_trans)
      then have "wrap64 (acc_balance a - ?n) = acc_balance a - ?n" by (rule wrap64_exact)
      with red have bal: "wrap64 (acc_balance a + (U64_MAX + 1) - ?n) = acc_balance a - ?n" by (rule trans)
      have nw: "wrap_add64 (acc_nonce a) (Suc 0) = Suc (acc_nonce a)" using nonce wrap_add64_exact [of "acc_nonce a" 1] by simp
      have "modify_account sender (\<lambda>a. a\<lparr>acc_nonce := wrap_add64 (acc_nonce a) 1\<rparr>) (modify_account sender ?f acc) =
          hm_put sender (charged (tx_fee tx + ?as + 0) a) acc"
        unfolding modify_account_def using geta bal
        by (simp add: hm_get_put hm_put_put charged_def nw)
      moreover have "handler_law sender (tx_fee tx) (acc, rs)
          (apply_ok (tx_fee tx) ?as, (hm_put sender (charged (tx_fee tx + ?as + 0) a) acc, r1))"
        using ok geta nonce u attempt(4) by (intro charged_law) (simp_all add: st)
      ultimately show ?thesis using Inr step u(1) by (simp add: st)
    qed
  qed
qed

section \<open>The entry point keeps the law\<close>

lemma apply_action_law:
  assumes "ledger_ok st" and "hm_get (fst st) (tx_sender tx) = Some a" and "acc_nonce a < U64_MAX"
  shows "handler_law (tx_sender tx) (tx_fee tx) st (apply_action tx cx st)"
  using apply_transfer_law [OF assms(1)] apply_bond_law [OF assms] apply_unbond_law [OF assms]
  by (cases "tx_action tx") (simp_all add: apply_action_def)

lemma handler_law_key:
  assumes "handler_law i fee st (r, (a, rs))"
  shows "handler_law i fee st
    (r, (if ar_success r \<and> k \<noteq> [] then modify_account i (\<lambda>acc. acc\<lparr>acc_public_key := Some k\<rparr>) a else a, rs))"
proof (cases "ar_success r \<and> k \<noteq> []")
  case True
  let ?f = "\<lambda>acc. acc\<lparr>acc_public_key := Some k\<rparr>"
  let ?a = "modify_account i ?f a"
  have law: "ledger_ok (a, rs)" "coins st = coins (a, rs) + ar_fee_charged r + ar_assay_burned r"
      "ar_fee_charged r = fee"
    and nonce: "\<exists>b b'. hm_get (fst st) i = Some b \<and> hm_get a i = Some b' \<and> acc_nonce b' = acc_nonce b + 1"
    and others: "\<forall>j b. j \<noteq> i \<longrightarrow> hm_get (fst st) j = Some b \<longrightarrow>
      (\<exists>b'. hm_get a j = Some b' \<and> acc_nonce b' = acc_nonce b \<and> acc_balance b \<le> acc_balance b')"
    using assms True by (simp_all add: handler_law_def)
  have wf: "accounts_wf a" using law(1) by (simp add: ledger_ok_def)
  have "hm_total acc_balance ?a = hm_total acc_balance a"
    by (rule modify_account_same_balance) simp
  then have coins: "coins (?a, rs) = coins (a, rs)" by (simp add: coins_def total_balance_def)
  have "accounts_wf ?a"
    using wf by (rule modify_account_wf) (use accounts_wf_get [OF wf] in \<open>simp add: account_ok_def\<close>)
  with law(1) coins have "ledger_ok (?a, rs)" by (simp add: ledger_ok_def)
  moreover have "\<exists>b b'. hm_get (fst st) i = Some b \<and> hm_get ?a i = Some b' \<and> acc_nonce b' = acc_nonce b + 1"
    using nonce by (auto simp: modify_account_get)
  moreover have "\<forall>j b. j \<noteq> i \<longrightarrow> hm_get (fst st) j = Some b \<longrightarrow>
      (\<exists>b'. hm_get ?a j = Some b' \<and> acc_nonce b' = acc_nonce b \<and> acc_balance b \<le> acc_balance b')"
    using others by (simp add: modify_account_get)
  ultimately show ?thesis using True coins law by (simp add: handler_law_def)
next
  case False
  with assms show ?thesis by auto
qed

text \<open>When the entry point reaches the handlers.\<close>

definition executable_tx :: "'x externs_scheme \<Rightarrow> transaction \<Rightarrow> nat \<Rightarrow> ledger_state \<Rightarrow> bool" where
  "executable_tx X tx c st \<longleftrightarrow> is_ok (verify_transaction X tx c) \<and> MIN_FEE \<le> tx_fee tx \<and>
     (\<exists>a. hm_get (fst st) (tx_sender tx) = Some a \<and> acc_nonce a = tx_nonce tx \<and> acc_nonce a < U64_MAX)"

lemma apply_transaction_not_executable:
  assumes "\<not> executable_tx X tx c st"
  shows "\<exists>m. apply_transaction X tx h ts issued c st = (apply_err m, st)"
proof (cases "verify_transaction X tx c")
  case (Inr u)
  show ?thesis
  proof (cases "tx_fee tx < MIN_FEE")
    case False
    show ?thesis
    proof (cases "hm_get (fst st) (tx_sender tx)")
      case None
      with Inr False show ?thesis by (auto simp: apply_transaction_def Let_def get_account_def)
    next
      case (Some a)
      then have "acc_nonce a \<noteq> tx_nonce tx \<or> U64_MAX < acc_nonce a + 1"
        using assms Inr False by (auto simp: executable_tx_def)
      with Inr False Some show ?thesis
        by (auto simp: apply_transaction_def Let_def get_account_def)
    qed
  qed (auto simp: apply_transaction_def Inr)
qed (auto simp: apply_transaction_def)

lemma apply_transaction_executable:
  assumes "executable_tx X tx c st"
  shows "apply_transaction X tx h ts issued c st =
    (case apply_action tx \<lparr> cx_block_height = h, cx_block_timestamp = ts, cx_total_issued = issued \<rparr> st of
       (r, (a, rs)) \<Rightarrow>
         (r, (if ar_success r \<and> tx_public_key tx \<noteq> []
              then modify_account (tx_sender tx) (\<lambda>acc. acc\<lparr>acc_public_key := Some (tx_public_key tx)\<rparr>) a
              else a, rs)))"
proof -
  obtain u where u: "verify_transaction X tx c = Inr u"
    using assms by (cases "verify_transaction X tx c") (auto simp: executable_tx_def)
  obtain a where a: "hm_get (fst st) (tx_sender tx) = Some a" "acc_nonce a = tx_nonce tx" "acc_nonce a < U64_MAX"
    using assms by (auto simp: executable_tx_def)
  have c: "(tx_fee tx < MIN_FEE) = False" "(acc_nonce a \<noteq> tx_nonce tx) = False" "(checked_add64 (acc_nonce a) 1 = None) = False"
    using assms a by (auto simp: executable_tx_def)
  show ?thesis
    unfolding apply_transaction_def u sum.case Let_def get_account_def a(1) option.case c if_False ..
qed

lemma apply_transaction_law:
  assumes ok: "ledger_ok st"
  shows "handler_law (tx_sender tx) (tx_fee tx) st (apply_transaction X tx h ts issued c st)"
proof (cases "executable_tx X tx c st")
  case False
  then show ?thesis using apply_transaction_not_executable [OF False, of h ts issued] by auto
next
  case True
  then obtain a where a: "hm_get (fst st) (tx_sender tx) = Some a" "acc_nonce a < U64_MAX"
    by (auto simp: executable_tx_def)
  let ?cx = "\<lparr> cx_block_height = h, cx_block_timestamp = ts, cx_total_issued = issued \<rparr>"
  obtain r b rs where act: "apply_action tx ?cx st = (r, (b, rs))" by (metis surj_pair)
  have "handler_law (tx_sender tx) (tx_fee tx) st (r, (b, rs))"
    using apply_action_law [OF ok a, of ?cx] act by simp
  from handler_law_key [OF this] show ?thesis
    unfolding apply_transaction_executable [OF True] act by simp
qed

lemma apply_transaction_ledger_ok:
  "ledger_ok st \<Longrightarrow> apply_transaction X tx h ts issued c st = (r, st') \<Longrightarrow> ledger_ok st'"
  using apply_transaction_law [of st tx X h ts issued c]
  by (cases "ar_success r") (auto simp: handler_law_def)

text \<open>The nonce of an account never falls.\<close>

definition nonces_grow :: "ledger_state \<Rightarrow> ledger_state \<Rightarrow> bool" where
  "nonces_grow st st' \<longleftrightarrow> (\<forall>i a. hm_get (fst st) i = Some a \<longrightarrow>
     (\<exists>a'. hm_get (fst st') i = Some a' \<and> acc_nonce a \<le> acc_nonce a'))"

lemma nonces_grow_refl: "nonces_grow st st"
  by (simp add: nonces_grow_def)

lemma nonces_grow_trans: "nonces_grow a b \<Longrightarrow> nonces_grow b c \<Longrightarrow> nonces_grow a c"
  unfolding nonces_grow_def by (meson order_trans)

lemma apply_transaction_nonces:
  assumes ok: "ledger_ok st" and run: "apply_transaction X tx h ts issued c st = (r, st')"
  shows "nonces_grow st st'"
proof (cases "ar_success r")
  case False
  then have "st' = st" using apply_transaction_law [OF ok, of tx X h ts issued c] run by (simp add: handler_law_def)
  then show ?thesis by (simp add: nonces_grow_refl)
next
  case True
  have law: "\<exists>b b'. hm_get (fst st) (tx_sender tx) = Some b \<and> hm_get (fst st') (tx_sender tx) = Some b' \<and> acc_nonce b' = acc_nonce b + 1"
    "\<forall>j b. j \<noteq> tx_sender tx \<longrightarrow> hm_get (fst st) j = Some b \<longrightarrow>
      (\<exists>b'. hm_get (fst st') j = Some b' \<and> acc_nonce b' = acc_nonce b \<and> acc_balance b \<le> acc_balance b')"
    using apply_transaction_law [OF ok, of tx X h ts issued c] run True by (simp_all add: handler_law_def)
  show ?thesis
    unfolding nonces_grow_def
  proof (intro allI impI)
    fix i a assume a: "hm_get (fst st) i = Some a"
    show "\<exists>a'. hm_get (fst st') i = Some a' \<and> acc_nonce a \<le> acc_nonce a'"
    proof (cases "i = tx_sender tx")
      case True
      with law(1) a show ?thesis by auto
    next
      case False
      with law(2) a show ?thesis by (metis order_refl)
    qed
  qed
qed

text \<open>Applying a list of transactions, each at its own height, time and issuance.\<close>

fun apply_all :: "'x externs_scheme \<Rightarrow> nat \<Rightarrow> (transaction \<times> nat \<times> nat \<times> nat) list \<Rightarrow> ledger_state \<Rightarrow> ledger_state" where
  "apply_all X c [] st = st"
| "apply_all X c ((tx, h, ts, issued) # txs) st =
     apply_all X c txs (snd (apply_transaction X tx h ts issued c st))"

lemma apply_all_law:
  "ledger_ok st \<Longrightarrow> ledger_ok (apply_all X c txs st) \<and> nonces_grow st (apply_all X c txs st)"
proof (induction X c txs st rule: apply_all.induct)
  case (2 X c tx h ts issued txs st)
  obtain r st' where run: "apply_transaction X tx h ts issued c st = (r, st')" by (metis surj_pair)
  have ok: "ledger_ok st'" using "2.prems" run by (rule apply_transaction_ledger_ok)
  have "nonces_grow st st'" using "2.prems" run by (rule apply_transaction_nonces)
  with "2.IH" ok run show ?case by (auto intro: nonces_grow_trans)
qed (simp add: nonces_grow_refl)

section \<open>Authenticity\<close>

text \<open>What a transaction must satisfy, in one condition.\<close>

definition authentic :: "'x externs_scheme \<Rightarrow> transaction \<Rightarrow> nat \<Rightarrow> bool" where
  "authentic X tx c \<longleftrightarrow> tx_chain_id tx = c \<and>
     (\<exists>body. x_borsh_tx_body X (tx_sender tx, tx_action tx, tx_fee tx, tx_nonce tx, tx_chain_id tx) = Some body \<and>
        tx_id tx = ObjectId (x_blake3 X (DOMAIN_TX_ID @ body)) \<and>
        tx_signature_type tx = SIGNATURE_TYPE_ED25519 \<and> length (tx_public_key tx) = 32 \<and>
        tx_sender tx = ObjectId (x_blake3 X (DOMAIN_OBJECT_ID @ tx_public_key tx)) \<and>
        length (tx_signature tx) = 64 \<and> x_ed25519_key_valid X (tx_public_key tx) \<and>
        x_ed25519_verify X (tx_public_key tx) (DOMAIN_TX_SIGNATURE @ body) (tx_signature tx))"

lemma verify_transaction_iff: "is_ok (verify_transaction X tx c) \<longleftrightarrow> authentic X tx c"
  by (cases "x_borsh_tx_body X (tx_sender tx, tx_action tx, tx_fee tx, tx_nonce tx, tx_chain_id tx)")
    (auto simp: verify_transaction_def authentic_def compute_tx_id_def transaction_signing_payload_def
      hash_to_object_id_with_domain_def hash_with_domain_eq ed25519_public_key_to_object_id_def
      verify_ed25519_iff Let_def split: if_splits)

lemma verify_for_mempool_iff: "is_ok (verify_transaction_for_mempool X tx c) \<longleftrightarrow> authentic X tx c"
  by (cases "x_borsh_tx_body X (tx_sender tx, tx_action tx, tx_fee tx, tx_nonce tx, tx_chain_id tx)")
    (auto simp: verify_transaction_for_mempool_def authentic_def compute_mempool_tx_id_def
      transaction_signing_payload_def hash_to_object_id_with_domain_def hash_with_domain_eq
      ed25519_public_key_to_object_id_def verify_ed25519_iff Let_def split: if_splits)

section \<open>A concrete ledger for the witnesses\<close>

definition demo_account :: account where
  "demo_account = \<lparr> acc_object_id = ObjectId (Hash 7), acc_balance = 5000, acc_nonce = 0, acc_public_key = None \<rparr>"

definition demo_ledger :: ledger_state where
  "demo_ledger = ([(ObjectId (Hash 7), demo_account)], refiner_set_new)"

lemma demo_ledger_get: "hm_get (fst demo_ledger) i = (if i = ObjectId (Hash 7) then Some demo_account else None)"
  by (simp add: demo_ledger_def hm_get_def)

lemma demo_ledger_ok: "ledger_ok demo_ledger" "coins demo_ledger = 5000"
proof -
  have "account_ok (ObjectId (Hash 7)) demo_account" by (simp add: account_ok_def demo_account_def U64_MAX_def)
  then have "accounts_wf (fst demo_ledger)"
    by (auto simp: accounts_wf_def demo_ledger_get) (simp add: demo_ledger_def hm_wf_def)
  moreover show "coins demo_ledger = 5000"
    by (simp add: coins_def demo_ledger_def total_balance_def hm_total_def demo_account_def custody_def refiner_set_new_def)
  ultimately show "ledger_ok demo_ledger"
    using refiners_wf_new by (simp add: ledger_ok_def U64_MAX_def) (simp add: demo_ledger_def)
qed

lemma demo_authentic: "authentic demo_externs demo_tx 1"
  by (simp add: authentic_def demo_externs_def demo_tx_def SIGNATURE_TYPE_ED25519_def)

lemma demo_executable: "executable_tx demo_externs demo_tx 1 demo_ledger"
  using demo_authentic
  by (simp add: executable_tx_def verify_transaction_iff MIN_FEE_def demo_ledger_get)
    (simp add: demo_tx_def demo_account_def U64_MAX_def)

lemma demo_apply:
  obtains st where "apply_transaction demo_externs demo_tx 1 90 0 1 demo_ledger = (apply_ok 10 0, st)"
proof -
  have "accounts_wf (fst demo_ledger)" using demo_ledger_ok by (simp add: ledger_ok_def)
  moreover have "transfer_ready (fst demo_ledger) (ObjectId (Hash 7)) (ObjectId (Hash 2)) 1000 10"
    by (simp add: transfer_ready_def demo_ledger_get demo_account_def U64_MAX_def)
  ultimately obtain a t where "transfer (ObjectId (Hash 7)) (ObjectId (Hash 2)) 1000 10 (fst demo_ledger) = (Inr a, t)"
    by (rule transfer_ready_ok)
  then have act: "apply_action demo_tx cx demo_ledger = (apply_ok 10 0, (t, snd demo_ledger))" for cx
    by (simp add: apply_action_def demo_tx_def apply_transfer_def)
  show thesis
    by (rule that) (simp only: apply_transaction_executable [OF demo_executable] act prod.case)
qed

section \<open>Properties\<close>

text \<open>
  C1: executing a transaction neither creates nor loses coins. With all coins of accounts and
  custody within a \<open>u64\<close>, a successful transaction lowers their sum by exactly the reported fee
  and the reported assay, charges exactly its own fee, advances the sender's nonce by one and
  takes no coins from any other account; a failed one reports an error, charges nothing and
  leaves both stores exactly as they were. The invariant of the ledger is kept in both cases.
\<close>

theorem transaction_conserves_coins:
  assumes ok: "ledger_ok st" and run: "apply_transaction X tx h ts issued c st = (r, st')"
  shows "ledger_ok st'
       \<and> coins st = coins st' + ar_fee_charged r + ar_assay_burned r
       \<and> (ar_success r \<longrightarrow> ar_fee_charged r = tx_fee tx \<and>
            (\<exists>a a'. hm_get (fst st) (tx_sender tx) = Some a \<and> hm_get (fst st') (tx_sender tx) = Some a' \<and>
               acc_nonce a = tx_nonce tx \<and> acc_nonce a' = acc_nonce a + 1) \<and>
            (\<forall>i a. i \<noteq> tx_sender tx \<longrightarrow> hm_get (fst st) i = Some a \<longrightarrow>
               (\<exists>a'. hm_get (fst st') i = Some a' \<and> acc_balance a \<le> acc_balance a' \<and> acc_nonce a' = acc_nonce a)))
       \<and> (\<not> ar_success r \<longrightarrow> st' = st \<and> ar_fee_charged r = 0 \<and> ar_assay_burned r = 0 \<and> ar_error r \<noteq> None)"
proof (cases "ar_success r")
  case True
  have ex: "executable_tx X tx c st"
    using apply_transaction_not_executable [of X tx c st h ts issued] run True by fastforce
  have law: "handler_law (tx_sender tx) (tx_fee tx) st (r, st')"
    using apply_transaction_law [OF ok, of tx X h ts issued c] run by simp
  have others: "\<forall>i a. i \<noteq> tx_sender tx \<longrightarrow> hm_get (fst st) i = Some a \<longrightarrow>
      (\<exists>a'. hm_get (fst st') i = Some a' \<and> acc_balance a \<le> acc_balance a' \<and> acc_nonce a' = acc_nonce a)"
    using law True by (force simp: handler_law_def)
  show ?thesis using law ex True others by (auto simp: handler_law_def executable_tx_def)
next
  case False
  then show ?thesis
    using apply_transaction_law [OF ok, of tx X h ts issued c] run ok by (simp add: handler_law_def)
qed

theorem transaction_conserves_coins_witness:
  "\<exists>st. apply_transaction demo_externs demo_tx 1 90 0 1 demo_ledger = (apply_ok 10 0, st) \<and> coins st = 4990"
proof -
  obtain st where run: "apply_transaction demo_externs demo_tx 1 90 0 1 demo_ledger = (apply_ok 10 0, st)"
    by (rule demo_apply)
  from transaction_conserves_coins [OF demo_ledger_ok(1) run] run demo_ledger_ok(2) show ?thesis by auto
qed

text \<open>
  C2: a transaction executes at most once. After it has succeeded, no sequence of further
  transactions leads to a ledger on which the same transaction succeeds again.
\<close>

theorem transaction_not_replayable:
  assumes ok: "ledger_ok st" and run: "apply_transaction X tx h ts issued c st = (r, st')" and "ar_success r"
  shows "\<not> ar_success (fst (apply_transaction X tx h2 ts2 issued2 c (apply_all X c txs st')))"
proof
  let ?st = "apply_all X c txs st'"
  assume again: "ar_success (fst (apply_transaction X tx h2 ts2 issued2 c ?st))"
  have ok': "ledger_ok st'" using ok run by (rule apply_transaction_ledger_ok)
  have law: "handler_law (tx_sender tx) (tx_fee tx) st (r, st')"
    using apply_transaction_law [OF ok, of tx X h ts issued c] run by simp
  have ex: "executable_tx X tx c st"
    using apply_transaction_not_executable [of X tx c st h ts issued] run assms(3) by fastforce
  have ex2: "executable_tx X tx c ?st"
    using apply_transaction_not_executable [of X tx c ?st h2 ts2 issued2] again by fastforce
  obtain a' where a': "hm_get (fst st') (tx_sender tx) = Some a'" "acc_nonce a' = tx_nonce tx + 1"
    using law assms(3) ex by (auto simp: handler_law_def executable_tx_def)
  have "nonces_grow st' ?st" using apply_all_law [OF ok'] by blast
  with a' obtain b where b: "hm_get (fst ?st) (tx_sender tx) = Some b" "tx_nonce tx + 1 \<le> acc_nonce b"
    unfolding nonces_grow_def by metis
  with ex2 show False by (auto simp: executable_tx_def)
qed

theorem transaction_not_replayable_witness:
  "\<exists>st. apply_transaction demo_externs demo_tx 1 90 0 1 demo_ledger = (apply_ok 10 0, st) \<and>
     \<not> ar_success (fst (apply_transaction demo_externs demo_tx 2 180 0 1 st))"
proof -
  obtain st where run: "apply_transaction demo_externs demo_tx 1 90 0 1 demo_ledger = (apply_ok 10 0, st)"
    by (rule demo_apply)
  have s: "ar_success (apply_ok 10 0)" by simp
  show ?thesis
    using transaction_not_replayable [OF demo_ledger_ok(1) run s, of 2 180 0 "[]"] run by auto
qed

text \<open>
  C8: only authentic transactions execute. Success implies that the chain id is the network's,
  the id is the tagged digest of sender, action, fee, nonce and chain id, the sender is the
  digest of the public key, the signature over the same fields verifies under that key, the fee
  is at least the minimum and the nonce is the account's. The mempool accepts the same
  transactions as authentic as the dispatcher does.
\<close>

theorem only_authentic_transactions_execute:
  "(ar_success (fst (apply_transaction X tx h ts issued c st)) \<longrightarrow>
      authentic X tx c \<and> MIN_FEE \<le> tx_fee tx \<and>
      map_option acc_nonce (hm_get (fst st) (tx_sender tx)) = Some (tx_nonce tx))
   \<and> (is_ok (verify_transaction X tx c) \<longleftrightarrow> authentic X tx c)
   \<and> (is_ok (verify_transaction_for_mempool X tx c) \<longleftrightarrow> authentic X tx c)"
proof (intro conjI impI)
  assume "ar_success (fst (apply_transaction X tx h ts issued c st))"
  then have "executable_tx X tx c st"
    using apply_transaction_not_executable [of X tx c st h ts issued] by fastforce
  then show "authentic X tx c" "MIN_FEE \<le> tx_fee tx"
    "map_option acc_nonce (hm_get (fst st) (tx_sender tx)) = Some (tx_nonce tx)"
    by (auto simp: executable_tx_def verify_transaction_iff)
qed (rule verify_transaction_iff verify_for_mempool_iff)+

theorem only_authentic_transactions_execute_witness:
  "authentic demo_externs demo_tx 1 \<and> MIN_FEE \<le> tx_fee demo_tx"
proof -
  obtain st where "apply_transaction demo_externs demo_tx 1 90 0 1 demo_ledger = (apply_ok 10 0, st)"
    by (rule demo_apply)
  then have "ar_success (fst (apply_transaction demo_externs demo_tx 1 90 0 1 demo_ledger))" by simp
  with only_authentic_transactions_execute [of demo_externs demo_tx 1 90 0 1 demo_ledger] show ?thesis by blast
qed

text \<open>
  The \<open>data\<close> field of a transaction is not authenticated. Two transactions that differ only in
  it pass the same verification and have the same effect, so anyone can replace the field of a
  signed transaction without invalidating its id or its signature.
\<close>

theorem transaction_data_malleable:
  "verify_transaction X (tx\<lparr>tx_data := d\<rparr>) c = verify_transaction X tx c
   \<and> apply_transaction X (tx\<lparr>tx_data := d\<rparr>) h ts issued c st = apply_transaction X tx h ts issued c st
   \<and> tx_id (tx\<lparr>tx_data := d\<rparr>) = tx_id tx"
proof -
  have sel: "tx_sender (tx\<lparr>tx_data := d\<rparr>) = tx_sender tx" "tx_action (tx\<lparr>tx_data := d\<rparr>) = tx_action tx"
    "tx_fee (tx\<lparr>tx_data := d\<rparr>) = tx_fee tx" "tx_nonce (tx\<lparr>tx_data := d\<rparr>) = tx_nonce tx"
    "tx_chain_id (tx\<lparr>tx_data := d\<rparr>) = tx_chain_id tx" "tx_id (tx\<lparr>tx_data := d\<rparr>) = tx_id tx"
    "tx_signature_type (tx\<lparr>tx_data := d\<rparr>) = tx_signature_type tx"
    "tx_public_key (tx\<lparr>tx_data := d\<rparr>) = tx_public_key tx" "tx_signature (tx\<lparr>tx_data := d\<rparr>) = tx_signature tx"
    by simp_all
  show ?thesis
    unfolding apply_transaction_def apply_action_def apply_transfer_def apply_bond_def apply_unbond_def
      verify_transaction_def sel
    by (intro conjI refl)
qed

text \<open>
  The assays follow the security of the vault. For the same issued supply, more bonded stake
  never makes bonding cheaper and never makes unbonding dearer, and a larger amount never costs
  less; no assay exceeds a \<open>u64\<close>.
\<close>

theorem assays_follow_bonded_stake:
  assumes "total_bonded_stake s \<le> total_bonded_stake s'" and "0 < total_bonded_stake s" and "amount \<le> amount'"
  shows "bond_assay amount s issued \<le> bond_assay amount' s' issued
       \<and> unbond_assay amount s' issued \<le> unbond_assay amount' s issued
       \<and> bond_assay amount s issued \<le> U64_MAX \<and> unbond_assay amount s issued \<le> U64_MAX"
proof (intro conjI)
  let ?limit = "active_refiner_limit issued"
  let ?base = "wrap128 (minimum_bond_stake issued * ?limit)"
  have "sat_add64 (total_bonded_stake s) amount \<le> sat_add64 (total_bonded_stake s') amount'"
    using assms by (simp add: sat_add64_def)
  then show "bond_assay amount s issued \<le> bond_assay amount' s' issued"
    using dynamic_assay_mono [of amount amount' "sat_add64 (total_bonded_stake s) amount"
        "sat_add64 (total_bonded_stake s') amount'" ?base ?base ?limit] assms(3)
    by (cases "?base = 0") (simp_all add: bond_assay_def Let_def dynamic_assay_def [of _ _ 0])
  show "unbond_assay amount s' issued \<le> unbond_assay amount' s issued"
    using dynamic_assay_mono [OF assms(3) order_refl assms(1,2), of ?base ?limit] assms(1,2)
    by (simp add: unbond_assay_def Let_def)
qed (simp_all add: bond_assay_def unbond_assay_def Let_def dynamic_assay_le)

theorem assays_follow_bonded_stake_witness:
  "bond_assay 1000000 sample_set 0 \<le> bond_assay 2000000 sample_set 0"
proof -
  have "total_bonded_stake sample_set = 5000000"
    unfolding total_bonded_stake_exact [OF sample_set_wf]
    by (simp add: hm_total_def sample_set_def sample_stake)
  with assays_follow_bonded_stake [of sample_set sample_set 1000000 2000000 0] show ?thesis by simp
qed

text \<open>
  The integer square roots written separately in the emission, refiner and execution code, two
  by bisection and one by Newton's iteration, are one function: on every \<open>u128\<close> below the maximum
  they return the largest number whose square does not exceed the argument.
\<close>

theorem square_roots_agree:
  assumes "n < U128_MAX"
  shows "dispatcher_sqrt_floor n = integer_sqrt_floor n \<and> refiner_sqrt_floor n = integer_sqrt_floor n
       \<and> integer_sqrt_floor n * integer_sqrt_floor n \<le> n
       \<and> n < (integer_sqrt_floor n + 1) * (integer_sqrt_floor n + 1)
       \<and> (\<forall>m. m * m \<le> n \<longrightarrow> m \<le> integer_sqrt_floor n)"
proof (intro conjI allI impI)
  show "dispatcher_sqrt_floor n = integer_sqrt_floor n"
    using isqrt_upto_agree [OF dispatcher_sqrt.isqrt_upto_axioms emission_sqrt.isqrt_upto_axioms] assms by simp
qed (use integer_sqrt_floor_spec [OF assms] emission_sqrt.isqrt_greatest [OF assms] refiner_sqrt_eq in auto)

theorem square_roots_agree_witness: "dispatcher_sqrt_floor 1000000 = 1000 \<and> refiner_sqrt_floor 1000000 = 1000"
proof -
  have n: "(1000000 :: nat) < U128_MAX" by (simp add: U128_MAX_def)
  have "integer_sqrt_floor 1000000 = 1000"
    by (rule emission_sqrt.isqrt_unique) (simp_all add: U128_MAX_def)
  with square_roots_agree [OF n] show ?thesis by simp
qed

end
