(* ===== verification/Node.thy ===== *)
theory Node
  imports Chain Dispatcher
begin

text \<open>
  The node of \<open>crates/node/src/node.rs\<close>: its state behind the locks and \<open>apply_block\<close>, the state
  transition of the chain. The function is cut where the code has its numbered steps; a step that
  may return early gives the state it leaves behind, because the code mutates in place and does
  not roll back. The wall clock \<open>now\<close> is an argument. The outer \<open>None\<close> of \<open>apply_block\<close> is the
  rejection sampling of the producer selection not returning.
\<close>

section \<open>State\<close>

record ban_record =
  br_reason :: string
  br_banned_at :: nat
  br_ban_count :: nat
  br_permanent :: bool

record node_state =
  ns_chain :: chain_state
  ns_accounts :: account_store
  ns_refiners :: refiner_set
  ns_mempool :: mempool
  ns_store :: "db option"
  ns_miner_id :: object_id
  ns_signing_key :: "byte list option"
  ns_pending_evidence :: "double_sign_evidence list"
  ns_pending_attestations :: "(nat \<times> string, block_attestation) hash_map"
  ns_refiner_peers :: "(string, object_id) hash_map"
  ns_banned_peers :: "(string, ban_record) hash_map"

definition on_chain :: "(chain_state \<Rightarrow> chain_state) \<Rightarrow> node_state \<Rightarrow> node_state" where
  "on_chain f n = n\<lparr>ns_chain := f (ns_chain n)\<rparr>"

section \<open>Acceptance\<close>

definition next_difficulty :: "node_state \<Rightarrow> nat" where
  "next_difficulty n =
     (let c = ns_chain n in
      effective_difficulty (compute_next_difficulty (cs_current_difficulty c) (cs_current_height c)
        (cs_block_timestamps c) (cs_total_issued c) (total_bonded_stake (ns_refiners n))))"

definition last_timestamp :: "node_state \<Rightarrow> nat" where
  "last_timestamp n = (let ts = cs_block_timestamps (ns_chain n) in if ts = [] then 0 else last ts)"

definition accept_block ::
  "'x pow_externs_scheme \<Rightarrow> nat \<Rightarrow> block \<Rightarrow> node_state \<Rightarrow> message + block_production_kind" where
  "accept_block X now_secs b n =
     (let c = ns_chain n; h = blk_header b in
      and_then (map_err (\<lambda>e. Fmt (STR ''Block validation failed: {}'') [AMsg (opolys_error_to_string e)])
          (validate_block X b (wrap_add64 (cs_current_height c) 1) (cs_latest_block_hash c)
             (last_timestamp n) (next_difficulty n) now_secs)) (\<lambda>_.
      and_then (ok_or (production_kind h)
          (Fmt (STR ''Block has invalid Proof-of-Refinement production fields'') [])) (\<lambda>kind.
      if bh_state_root h \<noteq> cs_state_root c
      then Inl (Fmt (STR ''State root mismatch at height {}: expected {}, got {}'')
             [ANat (bh_height h), AHash (cs_state_root c), AHash (bh_state_root h)])
      else Inr kind)))"

section \<open>Attestations and finality\<close>

record attestation_progress =
  ap_keys :: "(nat \<times> string) list"
  ap_touched :: "(nat \<times> hash) list"
  ap_finality :: "(nat \<times> hash, object_id list) hash_map"
  ap_refiners :: refiner_set

definition include_attestation ::
  "'x storage_externs_scheme \<Rightarrow> db option \<Rightarrow> nat \<Rightarrow> block_attestation \<Rightarrow> attestation_progress \<Rightarrow>
   (message + unit) \<times> attestation_progress" where
  "include_attestation X store block_height a p =
     (if block_height \<le> at_height a
      then (Inl (Fmt (STR ''Attestation height {} must be below block height {}'')
              [ANat (at_height a), ANat block_height]), p)
      else
        (let dedup_key = (at_height a, object_id_to_hex X (at_refiner a)) in
         if dedup_key \<in> set (ap_keys p)
         then (Inl (Fmt (STR ''Duplicate attestation from {} at height {}'')
                 [AId (at_refiner a), ANat (at_height a)]), p)
         else
           (let p1 = p\<lparr>ap_keys := dedup_key # ap_keys p\<rparr> in
            case store of
              None \<Rightarrow> (Inl (Fmt (STR ''Cannot verify included attestation without storage'') []), p1)
            | Some db \<Rightarrow>
                (case load_block X (at_height a) db of
                   Inl e \<Rightarrow> (Inl (Fmt (STR ''Failed to load attested block: {}'') [AMsg e]), p1)
                 | Inr None \<Rightarrow> (Inl (Fmt (STR ''Attested block is not known locally'') []), p1)
                 | Inr (Some attested) \<Rightarrow>
                     if \<not> is_refined (blk_header attested)
                     then (Inl (Fmt (STR ''Attestation target must be a refiner-produced block'') []), p1)
                     else
                       (let canonical_hash = compute_block_hash X (blk_header attested) in
                        case verify_block_attestation_against_refiners X a canonical_hash (ap_refiners p1) of
                          Inl e \<Rightarrow> (Inl e, p1)
                        | Inr _ \<Rightarrow>
                            (let key = (at_height a, canonical_hash);
                                 known = (case hm_get (ap_finality p1) key of None \<Rightarrow> [] | Some l \<Rightarrow> l);
                                 p2 = p1\<lparr>ap_finality := hm_put key (hs_insert (at_refiner a) known) (ap_finality p1),
                                         ap_touched := hs_insert key (ap_touched p1)\<rparr>
                             in case record_correct_attestation (at_refiner a) (ap_refiners p2) of
                                  (Inl e, rs) \<Rightarrow> (Inl e, p2\<lparr>ap_refiners := rs\<rparr>)
                                | (Inr _, rs) \<Rightarrow> (Inr (), p2\<lparr>ap_refiners := rs\<rparr>)))))))"

definition finality_weights ::
  "(nat \<times> hash, object_id list) hash_map \<Rightarrow> refiner_set \<Rightarrow> nat \<Rightarrow> (nat \<times> hash) list \<Rightarrow> (nat, nat) hash_map" where
  "finality_weights index refiners timestamp touched =
     fold (\<lambda>(height, hash) m.
         case hm_get index (height, hash) of
           None \<Rightarrow> m
         | Some ids \<Rightarrow> hm_put height (indexed_attestation_weight_for_refiners ids refiners timestamp) m) touched []"

definition apply_attestations ::
  "'x storage_externs_scheme \<Rightarrow> block \<Rightarrow> node_state \<Rightarrow> (message + unit) \<times> node_state" where
  "apply_attestations X b n =
     (let h = blk_header b;
          threshold = active_refiner_weight_milli_threshold (ns_refiners n) (bh_timestamp h);
          start = \<lparr> ap_keys = [], ap_touched = [], ap_finality = cs_finality_refiners (ns_chain n),
                    ap_refiners = ns_refiners n \<rparr>
      in case fold_while_ok (include_attestation X (ns_store n) (bh_height h)) (blk_attestations b) start of
           (r, p) \<Rightarrow>
             (let n1 = (on_chain (\<lambda>c. c\<lparr>cs_finality_refiners := ap_finality p\<rparr>) n)\<lparr>ns_refiners := ap_refiners p\<rparr> in
              case r of
                Inl e \<Rightarrow> (Inl e, n1)
              | Inr _ \<Rightarrow>
                  (let weights = finality_weights (ap_finality p) (ap_refiners p) (bh_timestamp h) (ap_touched p);
                       new_height = finalized_height_from_attestation_weights (cs_finalized_height (ns_chain n1))
                         weights threshold
                   in (Inr (), on_chain (\<lambda>c. prune_attestation_finality_index
                         (if cs_finalized_height c < new_height then c\<lparr>cs_finalized_height := new_height\<rparr> else c)) n1))))"

section \<open>The producer\<close>

definition check_refiner_signature ::
  "'x externs_scheme \<Rightarrow> block_header \<Rightarrow> account_store \<Rightarrow> message + unit" where
  "check_refiner_signature X h accounts =
     (case bh_refiner_signature h of
        None \<Rightarrow> Inr ()
      | Some sig \<Rightarrow>
          if hash_is_zero (object_id_hash (bh_producer h)) then Inr ()
          else
            and_then (reject_msg (length sig \<noteq> 64) (STR ''Refiner signature must be 64 bytes'')) (\<lambda>_.
            and_then (ok_or (get_account accounts (bh_producer h))
                (Fmt (STR ''Refiner block producer account not found'') [])) (\<lambda>account.
            and_then (ok_or (acc_public_key account)
                (Fmt (STR ''Refiner block producer public key not registered'') [])) (\<lambda>pk.
            and_then (reject_msg (length pk \<noteq> 32) (STR ''Refiner block producer public key must be 32 bytes'')) (\<lambda>_.
            and_then (reject_msg (\<not> x_ed25519_key_valid X pk) (STR ''Refiner block producer public key is invalid'')) (\<lambda>_.
            reject_msg (\<not> x_ed25519_verify_strict X pk
                (refiner_block_signing_payload (compute_block_hash X h)) sig)
              (STR ''Refiner signature verification failed'')))))))"

definition check_mined_producer ::
  "block_production_kind \<Rightarrow> block_header \<Rightarrow> account_store \<Rightarrow> message + unit" where
  "check_mined_producer kind h accounts =
     (if kind \<noteq> Mined then Inr ()
      else
        and_then (ok_or (get_account accounts (bh_producer h)) (Fmt (STR ''PoW block producer account not found'') []))
          (\<lambda>account.
             case acc_public_key account of
               Some pk \<Rightarrow> if length pk = 32 then Inr ()
                          else Inl (Fmt (STR ''PoW block producer public key must be 32 bytes'') [])
             | None \<Rightarrow> Inl (Fmt (STR ''PoW block producer public key not registered'') [])))"

definition selection_seed :: "hash \<Rightarrow> 64 word" where
  "selection_seed latest = word_of_nat (be_value (take 8 (hash_as_bytes latest)))"

definition check_selected_producer ::
  "block_production_kind \<Rightarrow> block_header \<Rightarrow> node_state \<Rightarrow> (message + unit) option" where
  "check_selected_producer kind h n =
     (if kind \<noteq> Refined \<or> hash_is_zero (object_id_hash (bh_producer h)) then Some (Inr ())
      else
        map_option (\<lambda>selected.
            and_then (ok_or selected (Fmt (STR ''Refiner block rejected: no active refiner producer available'') []))
              (\<lambda>expected. if ri_object_id expected \<noteq> bh_producer h
                 then Inl (Fmt (STR ''Refiner block producer mismatch: expected {}, got {}'')
                        [AId (ri_object_id expected), AId (bh_producer h)])
                 else Inr ()))
          (select_block_producer (selection_seed (cs_latest_block_hash (ns_chain n))) (ns_refiners n)))"

definition check_producer ::
  "'x externs_scheme \<Rightarrow> block_production_kind \<Rightarrow> block \<Rightarrow> node_state \<Rightarrow> (message + unit) option" where
  "check_producer X kind b n =
     (let h = blk_header b in
      case and_then (check_refiner_signature X h (ns_accounts n)) (\<lambda>_. check_mined_producer kind h (ns_accounts n)) of
        Inl e \<Rightarrow> Some (Inl e)
      | Inr _ \<Rightarrow> check_selected_producer kind h n)"

section \<open>Slashing and double-sign detection\<close>

definition por_fee_market :: "block_production_kind \<Rightarrow> node_state \<Rightarrow> (nat \<times> nat) option" where
  "por_fee_market kind n =
     (if kind = Refined
      then Some (total_active_refiners (ns_refiners n), active_refiner_limit (cs_total_issued (ns_chain n)))
      else None)"

record slash_progress =
  sp_keys :: "(string \<times> nat) list"
  sp_slashed :: nat
  sp_total_burned :: nat
  sp_refiners :: refiner_set

definition process_evidence ::
  "'x externs_scheme \<Rightarrow> nat \<Rightarrow> double_sign_evidence \<Rightarrow> slash_progress \<Rightarrow> slash_progress" where
  "process_evidence X block_height e p =
     (let dedup_key = (object_id_to_hex X (ev_producer e), ev_height e) in
      if dedup_key \<in> set (sp_keys p) then p
      else if \<not> verify_slash_evidence X e then p
      else
        (case slash_refiner (ev_producer e) block_height (sp_refiners p) of
           (r, rs) \<Rightarrow>
             (let p1 = p\<lparr>sp_keys := dedup_key # sp_keys p, sp_refiners := rs\<rparr> in
              case r of
                Inr burned \<Rightarrow>
                  if 0 < burned
                  then p1\<lparr>sp_total_burned := sat_add64 (sp_total_burned p1) burned,
                          sp_slashed := sat_add64 (sp_slashed p1) burned\<rparr>
                  else p1
              | Inl e \<Rightarrow> p1)))"

definition apply_slashing :: "'x externs_scheme \<Rightarrow> block \<Rightarrow> node_state \<Rightarrow> nat \<times> node_state" where
  "apply_slashing X b n =
     (let p = fold (process_evidence X (bh_height (blk_header b))) (blk_slash_evidence b)
            \<lparr> sp_keys = [], sp_slashed = 0, sp_total_burned = cs_total_burned (ns_chain n), sp_refiners = ns_refiners n \<rparr>
      in (sp_slashed p, (on_chain (\<lambda>c. c\<lparr>cs_total_burned := sp_total_burned p\<rparr>) n)\<lparr>ns_refiners := sp_refiners p\<rparr>))"

definition detect_double_sign ::
  "'x externs_scheme \<Rightarrow> block \<Rightarrow> node_state \<Rightarrow> double_sign_evidence list \<times> node_state" where
  "detect_double_sign X b n =
     (let h = blk_header b in
      case bh_refiner_signature h of
        None \<Rightarrow> ([], n)
      | Some sig \<Rightarrow>
          if hash_is_zero (object_id_hash (bh_producer h)) then ([], n)
          else
            (let block_hash = compute_block_hash X h; key = (bh_height h, object_id_to_hex X (bh_producer h)) in
             case hm_get (cs_producer_signatures (ns_chain n)) key of
               Some (prev_hash, prev_sig) \<Rightarrow>
                 if prev_hash = block_hash then ([], n)
                 else
                   (let pubkey = (case get_account (ns_accounts n) (bh_producer h) of
                         None \<Rightarrow> [] | Some a \<Rightarrow> (case acc_public_key a of None \<Rightarrow> [] | Some pk \<Rightarrow> pk))
                    in ([\<lparr> ev_producer = bh_producer h, ev_producer_pubkey = pubkey, ev_height = bh_height h,
                           ev_hash_a = prev_hash, ev_signature_a = prev_sig, ev_hash_b = block_hash,
                           ev_signature_b = sig \<rparr>], n))
             | None \<Rightarrow>
                 ([], on_chain (\<lambda>c. c\<lparr>cs_producer_signatures :=
                        hm_put key (block_hash, sig) (cs_producer_signatures c)\<rparr>) n)))"

section \<open>The reward\<close>

definition pay_credits :: "planned_credits \<Rightarrow> node_state \<Rightarrow> (message + unit) \<times> node_state" where
  "pay_credits planned n =
     (case ensure_planned_credits_creditable (ns_accounts n) planned of
        Inl e \<Rightarrow> (Inl e, n)
      | Inr _ \<Rightarrow>
          (case pay_planned_credits planned (ns_accounts n) of
             (r, a) \<Rightarrow> (r, n\<lparr>ns_accounts := a\<rparr>)))"

text \<open>One planned credit to the producer, checked and paid.\<close>

definition credit_producer :: "object_id \<Rightarrow> nat \<Rightarrow> node_state \<Rightarrow> (message + unit) \<times> node_state" where
  "credit_producer producer amount n =
     (case add_planned_credit producer amount [] of
        (Inl e, _) \<Rightarrow> (Inl e, n)
      | (Inr _, planned) \<Rightarrow> pay_credits planned n)"

definition block_pow_hash_value :: "'x pow_externs_scheme \<Rightarrow> block_production_kind \<Rightarrow> block_header \<Rightarrow> nat option" where
  "block_pow_hash_value X kind h = (if kind = Mined then compute_pow_hash_value X h else None)"

definition gross_block_reward :: "'x pow_externs_scheme \<Rightarrow> block_production_kind \<Rightarrow> block_header \<Rightarrow> nat \<Rightarrow> nat" where
  "gross_block_reward X kind h base_reward =
     (if kind = Mined
      then compute_block_reward base_reward (bh_difficulty h)
             (case block_pow_hash_value X kind h of None \<Rightarrow> 0 | Some v \<Rightarrow> v)
      else 0)"

definition block_reward_distribution ::
  "'x pow_externs_scheme \<Rightarrow> block_production_kind \<Rightarrow> block_header \<Rightarrow> nat \<Rightarrow> chain_state \<Rightarrow> reward_distribution" where
  "block_reward_distribution X kind h bonded_stake c =
     (let base_reward_amount = (if bh_height h = 0 then 0 else cs_base_reward c div max (bh_difficulty h) MIN_DIFFICULTY);
          coverage_milli = (if 0 < cs_total_issued c then min (bonded_stake * 1000 div cs_total_issued c) 1000 else 0)
      in compute_reward_distribution (gross_block_reward X kind h (cs_base_reward c)) base_reward_amount
           (bh_difficulty h) coverage_milli)"

definition pay_reward :: "block_header \<Rightarrow> reward_distribution \<Rightarrow> node_state \<Rightarrow> (message + unit) \<times> node_state" where
  "pay_reward h rd n =
     (if \<not> hash_is_zero (object_id_hash (bh_producer h)) \<and> 0 < rd_miner_share rd
      then credit_producer (bh_producer h) (rd_miner_share rd) n
      else pay_credits [] n)"

section \<open>Transactions and fees\<close>

record block_totals =
  bt_fees :: nat
  bt_assay :: nat
  bt_signal :: nat
  bt_count :: nat

definition add_to_totals :: "transaction \<Rightarrow> apply_result \<Rightarrow> block_totals \<Rightarrow> message + block_totals" where
  "add_to_totals tx r t =
     and_then (ok_or (checked_add64 (bt_fees t) (ar_fee_charged r)) (Fmt (STR ''Total transaction fees overflow'') [])) (\<lambda>fees.
     and_then (ok_or (checked_add64 (bt_assay t) (ar_assay_burned r)) (Fmt (STR ''Total assay burns overflow'') [])) (\<lambda>assay.
     and_then (ok_or (checked_add64 (bt_signal t) (tx_fee tx)) (Fmt (STR ''Total transaction fee signal overflow'') [])) (\<lambda>sig.
     and_then (ok_or (checked_add64 (bt_count t) 1) (Fmt (STR ''Successful transaction count overflow'') [])) (\<lambda>count.
     Inr \<lparr> bt_fees = fees, bt_assay = assay, bt_signal = sig, bt_count = count \<rparr>))))"

fun execute_transactions ::
  "'x externs_scheme \<Rightarrow> block_header \<Rightarrow> transaction list \<Rightarrow> block_totals \<Rightarrow> node_state \<Rightarrow>
   (message + block_totals) \<times> node_state" where
  "execute_transactions X h [] t n = (Inr t, n)"
| "execute_transactions X h (tx # txs) t n =
     (case apply_transaction X tx (bh_height h) (bh_timestamp h) (cs_total_issued (ns_chain n)) MAINNET_CHAIN_ID
         (ns_accounts n, ns_refiners n) of
        (r, (a, rs)) \<Rightarrow>
          (let n1 = n\<lparr>ns_accounts := a, ns_refiners := rs\<rparr>;
               t1 = (if ar_success r then add_to_totals tx r t else Inr t)
           in case t1 of
                Inl e \<Rightarrow> (Inl e, n1)
              | Inr t2 \<Rightarrow>
                  execute_transactions X h txs t2
                    (n1\<lparr>ns_mempool := snd (remove_transaction (tx_id tx) (ns_mempool n1))\<rparr>)))"

definition split_fees :: "block_production_kind \<Rightarrow> (nat \<times> nat) option \<Rightarrow> block_totals \<Rightarrow> nat \<times> nat" where
  "split_fees kind market t =
     (if kind = Refined
      then (case (case market of None \<Rightarrow> (0, 0) | Some m \<Rightarrow> m) of
              (active, limit) \<Rightarrow> compute_por_fee_split (bt_fees t) active limit)
      else (bt_fees t, 0))"

definition expire_mempool :: "block_header \<Rightarrow> nat \<Rightarrow> node_state \<Rightarrow> node_state" where
  "expire_mempool h now_secs n =
     (if 0 < bh_height h \<and> bh_height h mod EPOCH = 0
      then n\<lparr>ns_mempool := snd (evict_expired now_secs (ns_mempool n))\<rparr> else n)"

definition pay_refiner_income ::
  "block_production_kind \<Rightarrow> block_header \<Rightarrow> nat \<Rightarrow> node_state \<Rightarrow> (message + unit) \<times> node_state" where
  "pay_refiner_income kind h income n =
     (if kind = Refined \<and> \<not> hash_is_zero (object_id_hash (bh_producer h)) \<and> 0 < income
      then credit_producer (bh_producer h) income n
      else (Inr (), n))"

definition burn_on_chain :: "nat \<Rightarrow> String.literal \<Rightarrow> node_state \<Rightarrow> (message + unit) \<times> node_state" where
  "burn_on_chain amount err n =
     (case checked_add64 (cs_total_burned (ns_chain n)) amount of
        None \<Rightarrow> (Inl (Fmt err []), n)
      | Some v \<Rightarrow> (Inr (), on_chain (\<lambda>c. c\<lparr>cs_total_burned := v\<rparr>) n))"

section \<open>The new chain state\<close>

text \<open>Issuance and the mine assay, then height, difficulty, tip, timestamps and the suggested fee.\<close>

definition advance_chain ::
  "block_header \<Rightarrow> hash \<Rightarrow> reward_distribution \<Rightarrow> block_totals \<Rightarrow> node_state \<Rightarrow> (message + unit) \<times> node_state" where
  "advance_chain h block_hash rd t n =
     (let next_suggested_fee = compute_suggested_fee (bt_signal t) (bt_count t) (cs_suggested_fee (ns_chain n));
          n1 = on_chain (\<lambda>c. c\<lparr>cs_total_issued := sat_add64 (cs_total_issued c) (rd_gross_reward rd)\<rparr>) n
      in run_then (burn_on_chain (rd_mine_assay rd) (STR ''Total burned overflow after mine assay'') n1) (\<lambda>_ n2.
         (Inr (), on_chain (\<lambda>c. c\<lparr>cs_current_height := bh_height h, cs_current_difficulty := bh_difficulty h,
              cs_latest_block_hash := block_hash,
              cs_block_timestamps := prune_block_timestamps (cs_block_timestamps c @ [bh_timestamp h]),
              cs_suggested_fee := next_suggested_fee\<rparr>) n2)))"

definition mature_unbonds :: "node_state \<Rightarrow> (message + unit) \<times> node_state" where
  "mature_unbonds n =
     (let height = cs_current_height (ns_chain n); matured = matured_unbonds height (ns_refiners n) in
      case fold_while_ok (\<lambda>(i, amount). add_planned_credit i amount) matured [] of
        (Inl e, _) \<Rightarrow> (Inl e, n)
      | (Inr _, planned) \<Rightarrow>
          (case ensure_planned_credits_creditable (ns_accounts n) planned of
             Inl e \<Rightarrow> (Inl e, n)
           | Inr _ \<Rightarrow>
               (case process_matured_unbonds height (ns_refiners n) of
                  (drained, rs) \<Rightarrow>
                    (case pay_planned_credits drained (ns_accounts n) of
                       (r, a) \<Rightarrow> (r, n\<lparr>ns_refiners := rs, ns_accounts := a\<rparr>)))))"

definition rotate_refiners :: "node_state \<Rightarrow> node_state" where
  "rotate_refiners n =
     (let c = ns_chain n;
          rs = snd (activate_matured_refiners (cs_current_height c) (ns_refiners n));
          rs' = (if 0 < cs_current_height c \<and> cs_current_height c mod EPOCH = 0
                 then snd (rerank_refiners (last_timestamp n) (cs_total_issued c) rs) else rs)
      in n\<lparr>ns_refiners := rs'\<rparr>)"

definition chain_state_root ::
  "'x externs_scheme \<Rightarrow> hash \<Rightarrow> hash \<Rightarrow> nat \<Rightarrow> nat \<Rightarrow> nat \<Rightarrow> hash" where
  "chain_state_root X accounts_root refiners_root issued burned height =
     hasher_finalize X (fold (\<lambda>d h. hasher_update h d)
       [DOMAIN_STATE_ROOT, ascii ''chain'', hash_as_bytes accounts_root, hash_as_bytes refiners_root,
        be_bytes 8 issued, be_bytes 8 burned, be_bytes 8 height] hasher_new)"

definition update_state_root :: "'x refiner_externs_scheme \<Rightarrow> node_state \<Rightarrow> (message + unit) \<times> node_state" where
  "update_state_root X n =
     (let c = ns_chain n in
      case and_then (map_err opolys_error_to_string (accounts_state_root X (ns_accounts n))) (\<lambda>ar.
             and_then (map_err opolys_error_to_string (refiners_state_root X (ns_refiners n))) (\<lambda>rr.
             Inr (chain_state_root X ar rr (cs_total_issued c) (cs_total_burned c) (cs_current_height c)))) of
        Inl e \<Rightarrow> (Inl e, n)
      | Inr root \<Rightarrow> (Inr (), on_chain (\<lambda>c. c\<lparr>cs_state_root := root\<rparr>) n))"

section \<open>Receipt, persistence and the evidence pool\<close>

record block_outcome =
  bo_vein_yield :: nat
  bo_reward :: reward_distribution
  bo_totals :: block_totals
  bo_fees_burned :: nat
  bo_refiner_income :: nat
  bo_slashed :: nat

definition make_receipt :: "block_production_kind \<Rightarrow> block_header \<Rightarrow> hash \<Rightarrow> block_outcome \<Rightarrow> block_economic_receipt" where
  "make_receipt kind h block_hash o1 =
     (let rd = bo_reward o1; t = bo_totals o1 in
      \<lparr> er_height = bh_height h, er_block_hash = block_hash, er_production_kind = kind, er_producer = bh_producer h,
        er_difficulty = bh_difficulty h, er_vein_yield_milli = bo_vein_yield o1,
        er_gross_reward = rd_gross_reward rd, er_mine_assay_burned = rd_mine_assay rd,
        er_miner_credit = rd_miner_share rd, er_successful_transaction_count = bt_count t,
        er_ordinary_fees = bt_fees t, er_ordinary_fees_burned = bo_fees_burned o1,
        er_refiner_fee_income = bo_refiner_income o1, er_bond_unbond_assay_burned = bt_assay t,
        er_slashed_burned = bo_slashed o1,
        er_total_burned = sat_add64 (sat_add64 (sat_add64 (bo_fees_burned o1) (bt_assay t)) (rd_mine_assay rd)) (bo_slashed o1) \<rparr>)"

definition same_slash_evidence :: "double_sign_evidence \<Rightarrow> double_sign_evidence \<Rightarrow> bool" where
  "same_slash_evidence left right \<longleftrightarrow>
     ev_producer left = ev_producer right \<and> ev_height left = ev_height right \<and>
     ev_producer_pubkey left = ev_producer_pubkey right \<and> ev_hash_a left = ev_hash_a right \<and>
     ev_signature_a left = ev_signature_a right \<and> ev_hash_b left = ev_hash_b right \<and>
     ev_signature_b left = ev_signature_b right"

definition remove_accepted_slash_evidence :: "double_sign_evidence list \<Rightarrow> node_state \<Rightarrow> node_state" where
  "remove_accepted_slash_evidence accepted n =
     (if accepted = [] then n
      else n\<lparr>ns_pending_evidence :=
             filter (\<lambda>candidate. \<not> (\<exists>a \<in> set accepted. same_slash_evidence candidate a)) (ns_pending_evidence n)\<rparr>)"

definition queue_slash_evidence :: "double_sign_evidence list \<Rightarrow> node_state \<Rightarrow> node_state" where
  "queue_slash_evidence items n =
     n\<lparr>ns_pending_evidence :=
         fold (\<lambda>e pending. if \<exists>known \<in> set pending. same_slash_evidence known e then pending else pending @ [e])
           items (ns_pending_evidence n)\<rparr>"

text \<open>A failed save is logged and otherwise ignored.\<close>

definition persist_state ::
  "'x storage_externs_scheme \<Rightarrow> block \<Rightarrow> block_economic_receipt \<Rightarrow> node_state \<Rightarrow> node_state" where
  "persist_state X b receipt n =
     (case ns_store n of
        None \<Rightarrow> n
      | Some db \<Rightarrow>
          n\<lparr>ns_store := Some (snd (save_applied_block_atomic X b receipt (to_persisted (ns_chain n))
                (ns_accounts n) (ns_refiners n) db))\<rparr>)"

definition finish_block ::
  "'x storage_externs_scheme \<Rightarrow> block \<Rightarrow> block_production_kind \<Rightarrow> hash \<Rightarrow> block_outcome \<Rightarrow>
   double_sign_evidence list \<Rightarrow> node_state \<Rightarrow> node_state" where
  "finish_block X b kind block_hash o1 new_evidence n =
     (let receipt = make_receipt kind (blk_header b) block_hash o1;
          n1 = on_chain (\<lambda>c. c\<lparr>cs_mint_ledger := record_receipt receipt (cs_mint_ledger c)\<rparr>) n
      in queue_slash_evidence new_evidence
           (remove_accepted_slash_evidence (blk_slash_evidence b) (persist_state X b receipt n1)))"

section \<open>Applying a block\<close>

text \<open>The effects after the checks, in the order of the code.\<close>

definition commit_block ::
  "'x storage_externs_scheme \<Rightarrow> nat \<Rightarrow> nat \<Rightarrow> block_production_kind \<Rightarrow> block \<Rightarrow> node_state \<Rightarrow> (message + hash) \<times> node_state" where
  "commit_block X now_secs bonded_stake kind b n0 =
     (let h = blk_header b; market = por_fee_market kind n0;
          slashed = fst (apply_slashing X b n0); n1 = snd (apply_slashing X b n0);
          new_evidence = fst (detect_double_sign X b n1); n2 = snd (detect_double_sign X b n1);
          vein_yield = (case block_pow_hash_value X kind h of None \<Rightarrow> 0 | Some v \<Rightarrow> compute_vein_yield (bh_difficulty h) v);
          rd = block_reward_distribution X kind h bonded_stake (ns_chain n2);
          block_hash = compute_block_hash X h
      in run_then (pay_reward h rd n2) (\<lambda>_ n3.
         run_then (execute_transactions X h (blk_transactions b)
             \<lparr> bt_fees = 0, bt_assay = 0, bt_signal = 0, bt_count = 0 \<rparr> n3) (\<lambda>t n4.
         let fees_burned = fst (split_fees kind market t); income = snd (split_fees kind market t) in
         run_then (pay_refiner_income kind h income (expire_mempool h now_secs n4)) (\<lambda>_ n5.
         run_then (burn_on_chain fees_burned (STR ''Total burned overflow after transaction fees'') n5) (\<lambda>_ n6.
         run_then (burn_on_chain (bt_assay t) (STR ''Total burned overflow after assay burns'') n6) (\<lambda>_ n7.
         run_then (advance_chain h block_hash rd t n7) (\<lambda>_ n8.
         run_then (mature_unbonds n8) (\<lambda>_ n9.
         run_then (update_state_root X (rotate_refiners n9)) (\<lambda>_ n10.
         (Inr block_hash,
          finish_block X b kind block_hash
            \<lparr> bo_vein_yield = vein_yield, bo_reward = rd, bo_totals = t, bo_fees_burned = fees_burned,
              bo_refiner_income = income, bo_slashed = slashed \<rparr> new_evidence n10))))))))))"

definition apply_block ::
  "'x storage_externs_scheme \<Rightarrow> nat \<Rightarrow> block \<Rightarrow> node_state \<Rightarrow> ((message + hash) \<times> node_state) option" where
  "apply_block X now_secs b n =
     (case accept_block X now_secs b n of
        Inl e \<Rightarrow> Some (Inl e, n)
      | Inr kind \<Rightarrow>
          (case apply_attestations X b n of
             (Inl e, n1) \<Rightarrow> Some (Inl e, n1)
           | (Inr _, n1) \<Rightarrow>
               (case check_producer X kind b n1 of
                  None \<Rightarrow> None
                | Some (Inl e) \<Rightarrow> Some (Inl e, n1)
                | Some (Inr _) \<Rightarrow>
                    Some (commit_block X now_secs (total_bonded_stake (ns_refiners n)) kind b n1))))"

definition get_block :: "'x storage_externs_scheme \<Rightarrow> nat \<Rightarrow> node_state \<Rightarrow> block option" where
  "get_block X height n =
     (case ns_store n of
        None \<Rightarrow> None
      | Some db \<Rightarrow> (case load_block X height db of Inl _ \<Rightarrow> None | Inr r \<Rightarrow> r))"

end
