(* ===== verification/Node_Ops.thy ===== *)
theory Node_Ops
  imports Node
begin

text \<open>
  The rest of \<open>crates/node/src/node.rs\<close>: starting a node, attesting blocks, the pools a producer
  draws from, producing a block by mining or by a refiner's signature, and the ban list. The wall
  clock, the contents of the key file and of the disk are arguments.
\<close>

section \<open>Signing\<close>

text \<open>The ed25519 key of a 32-byte seed, and its signatures.\<close>

record node_externs = storage_externs +
  x_ed25519_public_key :: "byte list \<Rightarrow> byte list"
  x_ed25519_sign :: "byte list \<Rightarrow> byte list \<Rightarrow> byte list"

section \<open>Start-up\<close>

definition load_identity ::
  "'x node_externs_scheme \<Rightarrow> (message + byte list) option \<Rightarrow> object_id \<times> byte list option" where
  "load_identity X key_file =
     (case key_file of
        Some (Inr seed) \<Rightarrow>
          if length seed = 32
          then (ed25519_public_key_to_object_id X (x_ed25519_public_key X seed), Some seed)
          else (ObjectId hash_zero, None)
      | Some (Inl e) \<Rightarrow> (ObjectId hash_zero, None)
      | None \<Rightarrow> (ObjectId hash_zero, None))"

definition open_store :: "'x storage_externs_scheme \<Rightarrow> message + db \<Rightarrow> message + db" where
  "open_store X disk =
     and_then disk (\<lambda>db. case ensure_schema_version X db of (r, db') \<Rightarrow> and_then r (\<lambda>_. Inr db'))"

definition fresh_chain ::
  "'x externs_scheme \<Rightarrow> genesis_config \<Rightarrow> message + (chain_state \<times> account_store \<times> refiner_set)" where
  "fresh_chain X config =
     and_then (map_err opolys_error_to_string (chain_state_new X config)) (\<lambda>c.
       case apply_genesis_accounts config account_store_new of
         (Inl e, _) \<Rightarrow> Inl (Fmt (STR ''Failed to apply genesis accounts: {}'') [AMsg e])
       | (Inr genesis_issued, accounts) \<Rightarrow>
           Inr (c\<lparr>cs_total_issued := sat_add64 (cs_total_issued c) genesis_issued,
                   cs_mint_ledger := record_genesis_issuance genesis_issued (cs_mint_ledger c)\<rparr>,
                accounts, refiner_set_new))"

definition restored_chain ::
  "'x storage_externs_scheme \<Rightarrow> hash \<Rightarrow> db \<Rightarrow> persisted_chain_state \<Rightarrow>
   message + (chain_state \<times> account_store \<times> refiner_set)" where
  "restored_chain X expected_genesis db persisted =
     (if ps_chain_id persisted \<noteq> MAINNET_CHAIN_ID
      then Inl (Fmt (STR ''persisted chain_id {} does not match expected mainnet chain_id {}'')
             [ANat (ps_chain_id persisted), ANat MAINNET_CHAIN_ID])
      else if hash_from_bytes (ps_genesis_hash persisted) \<noteq> expected_genesis
      then Inl (Fmt (STR ''persisted genesis {} does not match expected genesis {}'')
             [AHash (hash_from_bytes (ps_genesis_hash persisted)), AHash expected_genesis])
      else
        and_then (map_err (\<lambda>e. Fmt (STR ''failed to load persisted accounts: {}'') [AMsg e]) (load_accounts X db))
          (\<lambda>accounts.
        and_then (map_err (\<lambda>e. Fmt (STR ''failed to load persisted refiners: {}'') [AMsg e]) (load_refiners X db))
          (\<lambda>refiners. Inr (from_persisted persisted, accounts, refiners))))"

text \<open>
  \<open>OpolysNode::new\<close> over the genesis configuration, the contents of the key file, the opened disk
  and the ban list read from it. An error is a panic.
\<close>

definition start_node ::
  "'x node_externs_scheme \<Rightarrow> genesis_config \<Rightarrow> (message + byte list) option \<Rightarrow> message + db \<Rightarrow>
   (string, ban_record) hash_map \<Rightarrow> message + node_state" where
  "start_node X config key_file disk bans =
     (let (miner_id, signing_key) = load_identity X key_file in
      and_then (map_err opolys_error_to_string (chain_state_new X config)) (\<lambda>expected.
      and_then (map_err (\<lambda>e. Fmt (STR ''Refusing to start without persistence: {}'') [AMsg e]) (open_store X disk))
        (\<lambda>db.
      and_then (map_err (\<lambda>e. Fmt (STR ''failed to load persisted chain state: {}'') [AMsg e]) (load_chain_state X db))
        (\<lambda>loaded.
      and_then (case loaded of
                  Some persisted \<Rightarrow> restored_chain X (cs_genesis_hash expected) db persisted
                | None \<Rightarrow> fresh_chain X config) (\<lambda>(c, accounts, refiners).
      case ensure_local_producer_account miner_id (map_option (x_ed25519_public_key X) signing_key) accounts of
        (Inl e, _) \<Rightarrow> Inl e
      | (Inr _, accounts') \<Rightarrow>
          Inr \<lparr> ns_chain = c, ns_accounts = accounts', ns_refiners = refiners, ns_mempool = mempool_new,
                ns_store = Some db, ns_miner_id = miner_id, ns_signing_key = signing_key,
                ns_pending_evidence = [], ns_pending_attestations = [], ns_refiner_peers = [],
                ns_banned_peers = bans \<rparr>)))))"

section \<open>Attestations\<close>

definition is_refiner_peer :: "string \<Rightarrow> node_state \<Rightarrow> bool" where
  "is_refiner_peer peer n =
     (case hm_get (ns_refiner_peers n) peer of
        None \<Rightarrow> False
      | Some i \<Rightarrow> (case get_refiner (ns_refiners n) i of None \<Rightarrow> False | Some r \<Rightarrow> ri_status r = Active))"

definition create_block_attestation ::
  "'x node_externs_scheme \<Rightarrow> nat \<Rightarrow> hash \<Rightarrow> node_state \<Rightarrow> block_attestation option" where
  "create_block_attestation X height block_hash n =
     (case (ns_signing_key n, get_refiner (ns_refiners n) (ns_miner_id n), get_block X height n) of
        (Some seed, Some r, Some b) \<Rightarrow>
          if ri_status r \<noteq> Active \<or> compute_block_hash X (blk_header b) \<noteq> block_hash \<or>
             bh_refiner_signature (blk_header b) = None \<or> bh_pow_proof (blk_header b) \<noteq> None
          then None
          else Some \<lparr> at_refiner = ns_miner_id n, at_refiner_pubkey = x_ed25519_public_key X seed,
                      at_height = height, at_block_hash = block_hash,
                      at_signature = x_ed25519_sign X seed (block_attestation_signing_payload height block_hash) \<rparr>
      | _ \<Rightarrow> None)"

definition check_received_attestation ::
  "'x storage_externs_scheme \<Rightarrow> block_attestation \<Rightarrow> node_state \<Rightarrow> message + unit" where
  "check_received_attestation X a n =
     and_then (reject_msg (length (at_refiner_pubkey a) \<noteq> 32) (STR ''Attestation public key must be 32 bytes'')) (\<lambda>_.
     and_then (reject_msg (length (at_signature a) \<noteq> 64) (STR ''Attestation signature must be 64 bytes'')) (\<lambda>_.
     and_then (reject_msg (ed25519_public_key_to_object_id X (at_refiner_pubkey a) \<noteq> at_refiner a)
         (STR ''Attestation public key does not match refiner ObjectId'')) (\<lambda>_.
     and_then (ok_or (get_refiner (ns_refiners n) (at_refiner a)) (Fmt (STR ''Attestation refiner is not bonded'') [])) (\<lambda>r.
     and_then (reject_msg (ri_status r \<noteq> Active) (STR ''Attestation refiner is not active'')) (\<lambda>_.
     and_then (ok_or (ns_store n) (Fmt (STR ''Cannot verify attestation without storage'') [])) (\<lambda>db.
     and_then (map_err (\<lambda>e. Fmt (STR ''Failed to load attested block: {}'') [AMsg e]) (load_block X (at_height a) db)) (\<lambda>found.
     and_then (ok_or found (Fmt (STR ''Attested block is not known locally'') [])) (\<lambda>b.
     and_then (reject_msg (bh_refiner_signature (blk_header b) = None \<or> bh_pow_proof (blk_header b) \<noteq> None)
         (STR ''Attestation target must be a refiner-produced block'')) (\<lambda>_.
     and_then (reject_msg (compute_block_hash X (blk_header b) \<noteq> at_block_hash a)
         (STR ''Attestation block hash is not canonical'')) (\<lambda>_.
     reject_msg (\<not> verify_ed25519 X (at_refiner_pubkey a)
           (block_attestation_signing_payload (at_height a) (at_block_hash a)) (at_signature a))
         (STR ''Attestation signature verification failed'')))))))))))"

text \<open>The flag tells whether the attestation is new.\<close>

definition accept_block_attestation ::
  "'x storage_externs_scheme \<Rightarrow> block_attestation \<Rightarrow> node_state \<Rightarrow> (message + bool) \<times> node_state" where
  "accept_block_attestation X a n =
     (case check_received_attestation X a n of
        Inl e \<Rightarrow> (Inl e, n)
      | Inr _ \<Rightarrow>
          (let min_height = sat_sub (cs_current_height (ns_chain n)) EPOCH;
               key = (at_height a, object_id_to_hex X (at_refiner a));
               pending = filter (\<lambda>((height, _), _). min_height \<le> height) (ns_pending_attestations n)
           in if hm_get pending key \<noteq> None
              then (Inr False, n\<lparr>ns_pending_attestations := pending\<rparr>)
              else (Inr True, n\<lparr>ns_pending_attestations := hm_put key a pending\<rparr>)))"

definition drain_pending_attestations_for_block :: "nat \<Rightarrow> node_state \<Rightarrow> block_attestation list \<times> node_state" where
  "drain_pending_attestations_for_block next_height n =
     (let min_height = sat_sub next_height EPOCH;
          pending = filter (\<lambda>((height, _), _). min_height \<le> height \<and> height < next_height) (ns_pending_attestations n);
          keys = take MAX_ATTESTATIONS_PER_BLOCK (map fst pending);
          attestations = List.map_filter (hm_get pending) keys
      in (attestations, n\<lparr>ns_pending_attestations := fold (\<lambda>k m. hm_del k m) keys pending\<rparr>))"

definition pending_slash_evidence_for_block :: "node_state \<Rightarrow> double_sign_evidence list" where
  "pending_slash_evidence_for_block n = take MAX_SLASH_EVIDENCE_PER_BLOCK (ns_pending_evidence n)"

section \<open>Producing a block\<close>

text \<open>
  The part shared by mining and refining: the body from the pools and the unsealed header. A root
  that cannot be serialized returns nothing, after the attestations have left the pool.
\<close>

definition block_template :: "'x externs_scheme \<Rightarrow> nat \<Rightarrow> node_state \<Rightarrow> block option \<times> node_state" where
  "block_template X now_secs n =
     (let c = ns_chain n;
          transactions = take MAX_TRANSACTIONS_PER_BLOCK (get_ordered_transactions (ns_mempool n));
          pending_evidence = pending_slash_evidence_for_block n;
          next_height = wrap_add64 (cs_current_height c) 1;
          drained = drain_pending_attestations_for_block next_height n
      in (case (compute_evidence_root X pending_evidence, compute_attestation_root X (fst drained),
                compute_genesis_ceremony_hash X None) of
            (Inr er, Inr ar, Inr gr) \<Rightarrow>
              Some \<lparr> blk_header =
                  \<lparr> bh_version = BLOCK_VERSION, bh_height = next_height, bh_previous_hash = cs_latest_block_hash c,
                    bh_state_root = cs_state_root c, bh_transaction_root = compute_transaction_root X transactions,
                    bh_evidence_root = er, bh_attestation_root = ar, bh_genesis_ceremony_hash = gr,
                    bh_timestamp = max now_secs (sat_add64 (last_timestamp n) minimum_block_timestamp_delta_secs),
                    bh_difficulty = next_difficulty n, bh_suggested_fee = cs_suggested_fee c,
                    bh_extension_root = None, bh_producer = ns_miner_id n, bh_pow_proof = None,
                    bh_refiner_signature = None \<rparr>,
                blk_transactions = transactions, blk_slash_evidence = pending_evidence,
                blk_attestations = fst drained, blk_genesis_ceremony = None \<rparr>
          | _ \<Rightarrow> None, snd drained))"

text \<open>What the threads of the parallel search may return, see \<open>mine_parallel_may\<close>.\<close>

definition mine_block_may ::
  "'x pow_externs_scheme \<Rightarrow> nat \<Rightarrow> nat \<Rightarrow> node_state \<Rightarrow> block option \<Rightarrow> node_state \<Rightarrow> bool" where
  "mine_block_may X now_secs max_attempts n r n' \<longleftrightarrow>
     (case block_template X now_secs n of
        (None, n1) \<Rightarrow> r = None \<and> n' = n1
      | (Some t, n1) \<Rightarrow>
          n' = n1 \<and>
          (\<exists>m. mine_parallel_may X (blk_header t) (bh_difficulty (blk_header t)) max_attempts m \<and>
               r = map_option (\<lambda>b. b\<lparr>blk_transactions := blk_transactions t, blk_slash_evidence := blk_slash_evidence t,
                     blk_attestations := blk_attestations t, blk_genesis_ceremony := blk_genesis_ceremony t\<rparr>) m))"

definition sign_block :: "'x node_externs_scheme \<Rightarrow> byte list \<Rightarrow> block \<Rightarrow> block" where
  "sign_block X seed b =
     (let block_hash = compute_block_hash X (blk_header b) in
      b\<lparr>blk_header := (blk_header b)\<lparr>bh_refiner_signature :=
          Some (x_ed25519_sign X seed (refiner_block_signing_payload block_hash))\<rparr>\<rparr>)"

text \<open>The outer \<open>None\<close> is the rejection sampling of the selection not returning.\<close>

definition produce_refiner_block ::
  "'x node_externs_scheme \<Rightarrow> nat \<Rightarrow> node_state \<Rightarrow> (block option \<times> node_state) option" where
  "produce_refiner_block X now_secs n =
     (case ns_signing_key n of
        None \<Rightarrow> Some (None, n)
      | Some seed \<Rightarrow>
          map_option (\<lambda>selected.
              case selected of
                None \<Rightarrow> (None, n)
              | Some p \<Rightarrow>
                  if ri_object_id p \<noteq> ns_miner_id n then (None, n)
                  else apfst (map_option (sign_block X seed)) (block_template X now_secs n))
            (select_block_producer (selection_seed (cs_latest_block_hash (ns_chain n))) (ns_refiners n)))"

section \<open>The ban list\<close>

definition ban_duration_secs :: "nat \<Rightarrow> nat" where
  "ban_duration_secs ban_count =
     (if ban_count = 1 then 3600 else if ban_count = 2 then 86400 else if ban_count = 3 then 604800 else U64_MAX)"

definition is_peer_banned :: "nat \<Rightarrow> string \<Rightarrow> node_state \<Rightarrow> bool" where
  "is_peer_banned now peer n =
     (case hm_get (ns_banned_peers n) peer of
        None \<Rightarrow> False
      | Some r \<Rightarrow> br_permanent r \<or> now < sat_add64 (br_banned_at r) (ban_duration_secs (br_ban_count r)))"

definition ban_peer :: "nat \<Rightarrow> string \<Rightarrow> string \<Rightarrow> bool \<Rightarrow> node_state \<Rightarrow> node_state" where
  "ban_peer now peer reason permanent n =
     (let ban_count = ((case hm_get (ns_banned_peers n) peer of None \<Rightarrow> 0 | Some r \<Rightarrow> br_ban_count r) + 1) mod 2 ^ 32;
          is_permanent = permanent \<or> 4 \<le> ban_count
      in n\<lparr>ns_banned_peers := hm_put peer
           \<lparr> br_reason = reason, br_banned_at = now, br_ban_count = ban_count, br_permanent = is_permanent \<rparr>
           (ns_banned_peers n)\<rparr>)"

end
