(* ===== verification/Network.thy ===== *)
theory Network
  imports Node_Ops
begin

text \<open>
  \<open>crates/networking/src\<close>: the messages of the sync and challenge protocols, the configuration,
  the commands and events between the node and its network task, and what the task does with them.
  The libp2p swarm is the environment: it delivers \<open>swarm_event\<close>s and performs
  \<open>swarm_action\<close>s. Peer ids and addresses are strings, request ids numbers; a response channel
  is the peer it leads to.
\<close>

section \<open>Constants\<close>

definition NETWORK_PROTOCOL_VERSION :: string where "NETWORK_PROTOCOL_VERSION = ''1.0.0''"

definition MAX_INBOUND_CONNECTIONS :: nat where "MAX_INBOUND_CONNECTIONS = 50"

definition MAX_OUTBOUND_CONNECTIONS :: nat where "MAX_OUTBOUND_CONNECTIONS = 50"

definition MAX_PEER_COUNT :: nat where "MAX_PEER_COUNT = 200"

definition SYNC_MAX_BLOCKS_PER_REQUEST :: nat where "SYNC_MAX_BLOCKS_PER_REQUEST = 500"

definition SYNC_MAX_HEADERS_PER_REQUEST :: nat where "SYNC_MAX_HEADERS_PER_REQUEST = 2000"

definition KAD_BUCKET_SIZE :: nat where "KAD_BUCKET_SIZE = 20"

definition KAD_QUERY_TIMEOUT_SECS :: nat where "KAD_QUERY_TIMEOUT_SECS = 60"

definition DEFAULT_LISTEN_PORT :: nat where "DEFAULT_LISTEN_PORT = 4170"

definition GOSSIP_MAX_MESSAGE_SIZE_BYTES :: nat where "GOSSIP_MAX_MESSAGE_SIZE_BYTES = MAX_BLOCK_SIZE_BYTES"

definition MAX_SYNC_BLOCKS :: nat where "MAX_SYNC_BLOCKS = SYNC_MAX_BLOCKS_PER_REQUEST"

definition MAX_SYNC_HEADERS :: nat where "MAX_SYNC_HEADERS = SYNC_MAX_HEADERS_PER_REQUEST"

definition MAX_SYNC_RESPONSE_BYTES :: nat where "MAX_SYNC_RESPONSE_BYTES = 10 * 1024 * 1024"

definition CHALLENGE_TIMEOUT_SECS :: nat where "CHALLENGE_TIMEOUT_SECS = 15"

definition GOSSIP_TX_TOPIC :: string where "GOSSIP_TX_TOPIC = ''opolys/tx/v1''"

definition GOSSIP_BLOCK_TOPIC :: string where "GOSSIP_BLOCK_TOPIC = ''opolys/block/v1''"

definition GOSSIP_ATTESTATION_TOPIC :: string where "GOSSIP_ATTESTATION_TOPIC = ''opolys/attestation/v1''"

definition opolys_agent_string :: string where
  "opolys_agent_string = ''/opolys/'' @ NETWORK_PROTOCOL_VERSION"

section \<open>Messages and configuration\<close>

record challenge_request =
  cq_height :: nat
  cq_nonce :: nat
  cq_parent_hash :: hash

record challenge_response =
  cp_hash_val :: nat

record sync_request =
  sr_start_height :: nat
  sr_count :: nat

record sync_response =
  sp_blocks :: "byte list list"
  sp_from_height :: nat

definition payload_size_bytes :: "sync_response \<Rightarrow> nat" where
  "payload_size_bytes r = sum_list (map length (sp_blocks r))"

definition is_within_size_limit :: "sync_response \<Rightarrow> bool" where
  "is_within_size_limit r \<longleftrightarrow> payload_size_bytes r \<le> MAX_SYNC_RESPONSE_BYTES"

record gossip_config =
  gc_max_message_size :: nat
  gc_tx_topic :: string
  gc_block_topic :: string
  gc_attestation_topic :: string

definition gossip_config_default :: gossip_config where
  "gossip_config_default =
     \<lparr> gc_max_message_size = GOSSIP_MAX_MESSAGE_SIZE_BYTES, gc_tx_topic = GOSSIP_TX_TOPIC,
       gc_block_topic = GOSSIP_BLOCK_TOPIC, gc_attestation_topic = GOSSIP_ATTESTATION_TOPIC \<rparr>"

record discovery_config =
  dv_bucket_size :: nat
  dv_query_timeout_secs :: nat

definition discovery_config_default :: discovery_config where
  "discovery_config_default = \<lparr> dv_bucket_size = KAD_BUCKET_SIZE, dv_query_timeout_secs = KAD_QUERY_TIMEOUT_SECS \<rparr>"

record sync_config =
  sc_max_blocks_per_request :: nat
  sc_max_headers_per_request :: nat
  sc_request_timeout_secs :: nat
  sc_parallel_peer_count :: nat

definition sync_config_default :: sync_config where
  "sync_config_default =
     \<lparr> sc_max_blocks_per_request = SYNC_MAX_BLOCKS_PER_REQUEST,
       sc_max_headers_per_request = SYNC_MAX_HEADERS_PER_REQUEST,
       sc_request_timeout_secs = 30, sc_parallel_peer_count = 3 \<rparr>"

record network_config =
  nc_listen_port :: nat
  nc_bootstrap_peers :: "string list"
  nc_keypair_path :: "string option"
  nc_gossip :: gossip_config
  nc_discovery :: discovery_config
  nc_sync :: sync_config

definition network_config_default :: network_config where
  "network_config_default =
     \<lparr> nc_listen_port = DEFAULT_LISTEN_PORT, nc_bootstrap_peers = [], nc_keypair_path = None,
       nc_gossip = gossip_config_default, nc_discovery = discovery_config_default,
       nc_sync = sync_config_default \<rparr>"

datatype network_error = DialError string | BroadcastError string | SyncTimeout | SyncError string | ChannelClosed

fun network_error_to_string :: "network_error \<Rightarrow> string" where
  "network_error_to_string (DialError s) = ''Dial error: '' @ s"
| "network_error_to_string (BroadcastError s) = ''Broadcast error: '' @ s"
| "network_error_to_string SyncTimeout = ''Sync request timed out''"
| "network_error_to_string (SyncError s) = ''Sync error: '' @ s"
| "network_error_to_string ChannelClosed = ''Network channel closed''"

datatype network_command =
    BroadcastTransaction "byte list"
  | BroadcastBlock "byte list"
  | BroadcastAttestation "byte list"
  | RequestBlocks string sync_request
  | RespondSyncRequest nat sync_response
  | DialPeer string
  | GetConnectedPeers
  | DisconnectPeer string
  | SendChallenge string nat nat hash
  | RespondChallenge nat nat

datatype network_event =
    GossipTransaction "byte list" string
  | GossipBlock "byte list" string
  | GossipAttestation "byte list" string
  | PeerConnected string "string option"
  | PeerIdentified string string string
  | PeerDisconnected string
  | SyncResponseReceived string sync_response
  | SyncRequestReceived string nat sync_request
  | ChallengeRequestReceived string nat nat nat hash
  | ChallengeResponseReceived string nat

section \<open>The network task\<close>

datatype swarm_event =
    ConnectionEstablished string "string option"
  | ConnectionClosed string
  | GossipMessage string string "byte list"
  | SyncMessage string nat "sync_request + sync_response"
  | IdentifyReceived string "string list" string string
  | ChallengeMessage string nat "challenge_request + challenge_response"
  | OtherSwarmEvent

datatype swarm_action =
    Publish string "byte list"
  | SendSyncRequest string sync_request
  | SendSyncResponse string sync_response
  | Dial string
  | ReportConnectedPeers
  | DisconnectPeerId string
  | SendChallengeRequest string challenge_request
  | SendChallengeResponse string challenge_response
  | AddAddress string string
  | Subscribe string
  | ListenOn nat

text \<open>
  The events wait for the node in a channel of 256 places; \<open>try_send\<close> drops an event for which
  there is no room.
\<close>

record swarm_task =
  sw_inbound_requests :: "(nat, string) hash_map"
  sw_inbound_challenges :: "(nat, string) hash_map"
  sw_events :: "network_event list"

definition try_send_event :: "network_event \<Rightarrow> swarm_task \<Rightarrow> swarm_task" where
  "try_send_event e t = (if length (sw_events t) < 256 then t\<lparr>sw_events := sw_events t @ [e]\<rparr> else t)"

definition handle_command :: "network_command \<Rightarrow> swarm_task \<Rightarrow> swarm_action list \<times> swarm_task" where
  "handle_command command t =
     (case command of
        BroadcastTransaction data \<Rightarrow> ([Publish GOSSIP_TX_TOPIC data], t)
      | BroadcastBlock data \<Rightarrow> ([Publish GOSSIP_BLOCK_TOPIC data], t)
      | BroadcastAttestation data \<Rightarrow> ([Publish GOSSIP_ATTESTATION_TOPIC data], t)
      | RequestBlocks peer request \<Rightarrow> ([SendSyncRequest peer request], t)
      | RespondSyncRequest request_id response \<Rightarrow>
          (let t' = t\<lparr>sw_inbound_requests := hm_del request_id (sw_inbound_requests t)\<rparr> in
           if \<not> is_within_size_limit response then ([], t')
           else (case hm_get (sw_inbound_requests t) request_id of
                   Some channel \<Rightarrow> ([SendSyncResponse channel response], t')
                 | None \<Rightarrow> ([], t')))
      | DialPeer addr \<Rightarrow> ([Dial addr], t)
      | GetConnectedPeers \<Rightarrow> ([ReportConnectedPeers], t)
      | DisconnectPeer peer \<Rightarrow> ([DisconnectPeerId peer], t)
      | SendChallenge peer height nonce parent_hash \<Rightarrow>
          ([SendChallengeRequest peer \<lparr> cq_height = height, cq_nonce = nonce, cq_parent_hash = parent_hash \<rparr>], t)
      | RespondChallenge request_id hash_val \<Rightarrow>
          (let t' = t\<lparr>sw_inbound_challenges := hm_del request_id (sw_inbound_challenges t)\<rparr> in
           case hm_get (sw_inbound_challenges t) request_id of
             Some channel \<Rightarrow> ([SendChallengeResponse channel \<lparr> cp_hash_val = hash_val \<rparr>], t')
           | None \<Rightarrow> ([], t')))"

definition handle_gossip :: "string \<Rightarrow> string \<Rightarrow> byte list \<Rightarrow> swarm_task \<Rightarrow> swarm_task" where
  "handle_gossip source topic data t =
     (if topic = GOSSIP_TX_TOPIC then try_send_event (GossipTransaction data source) t
      else if topic = GOSSIP_BLOCK_TOPIC then try_send_event (GossipBlock data source) t
      else if topic = GOSSIP_ATTESTATION_TOPIC then try_send_event (GossipAttestation data source) t
      else t)"

definition handle_sync_message :: "string \<Rightarrow> nat \<Rightarrow> sync_request + sync_response \<Rightarrow> swarm_task \<Rightarrow> swarm_task" where
  "handle_sync_message peer request_id m t =
     (case m of
        Inl request \<Rightarrow>
          try_send_event (SyncRequestReceived peer request_id request)
            (t\<lparr>sw_inbound_requests := hm_put request_id peer (sw_inbound_requests t)\<rparr>)
      | Inr response \<Rightarrow>
          if is_within_size_limit response then try_send_event (SyncResponseReceived peer response) t else t)"

definition handle_identify :: "string \<Rightarrow> string list \<Rightarrow> string \<Rightarrow> string \<Rightarrow> swarm_task \<Rightarrow> swarm_action list \<times> swarm_task" where
  "handle_identify peer addrs protocol agent t =
     (map (AddAddress peer) addrs, try_send_event (PeerIdentified peer protocol agent) t)"

definition handle_challenge_message ::
  "string \<Rightarrow> nat \<Rightarrow> challenge_request + challenge_response \<Rightarrow> swarm_task \<Rightarrow> swarm_task" where
  "handle_challenge_message peer request_id m t =
     (case m of
        Inl request \<Rightarrow>
          try_send_event (ChallengeRequestReceived peer request_id (cq_height request) (cq_nonce request)
                            (cq_parent_hash request))
            (t\<lparr>sw_inbound_challenges := hm_put request_id peer (sw_inbound_challenges t)\<rparr>)
      | Inr response \<Rightarrow> try_send_event (ChallengeResponseReceived peer (cp_hash_val response)) t)"

definition handle_swarm_event :: "swarm_event \<Rightarrow> swarm_task \<Rightarrow> swarm_action list \<times> swarm_task" where
  "handle_swarm_event event t =
     (case event of
        ConnectionEstablished peer addr \<Rightarrow> ([], try_send_event (PeerConnected peer addr) t)
      | ConnectionClosed peer \<Rightarrow> ([], try_send_event (PeerDisconnected peer) t)
      | GossipMessage source topic data \<Rightarrow> ([], handle_gossip source topic data t)
      | SyncMessage peer request_id m \<Rightarrow> ([], handle_sync_message peer request_id m t)
      | IdentifyReceived peer addrs protocol agent \<Rightarrow> handle_identify peer addrs protocol agent t
      | ChallengeMessage peer request_id m \<Rightarrow> ([], handle_challenge_message peer request_id m t)
      | OtherSwarmEvent \<Rightarrow> ([], t))"

text \<open>
  The start of the task: the three topics, the port, and every bootstrap address that parses.
\<close>

definition swarm_task_start :: "(string \<Rightarrow> bool) \<Rightarrow> network_config \<Rightarrow> swarm_action list \<times> swarm_task" where
  "swarm_task_start multiaddr_ok config =
     (map Subscribe [GOSSIP_TX_TOPIC, GOSSIP_BLOCK_TOPIC, GOSSIP_ATTESTATION_TOPIC] @
      [ListenOn (nc_listen_port config)] @ map Dial (filter multiaddr_ok (nc_bootstrap_peers config)),
      \<lparr> sw_inbound_requests = [], sw_inbound_challenges = [], sw_events = [] \<rparr>)"

end
