(* ===== verification/Peers.thy ===== *)
theory Peers
  imports Network
begin

text \<open>
  The peers of a node, \<open>crates/node/src/main.rs\<close>: rate limits, the peer cache, the limits per
  subnet, and the handler of every network event. An instant is a number of nanoseconds; the wall
  clock, the instant and the random nonce of an event are arguments.
\<close>

section \<open>Constants and parameters\<close>

definition MAX_BLOCKS_PER_PEER_PER_SECOND :: nat where "MAX_BLOCKS_PER_PEER_PER_SECOND = 10"

definition MAX_TXS_PER_PEER_PER_SECOND :: nat where "MAX_TXS_PER_PEER_PER_SECOND = 50"

definition MAX_HEIGHT_LOOKAHEAD :: nat where "MAX_HEIGHT_LOOKAHEAD = 10"

definition FEE_MULTIPLIER_HIGH :: nat where "FEE_MULTIPLIER_HIGH = 10"

definition MIN_OUTBOUND_FOR_MINING :: nat where "MIN_OUTBOUND_FOR_MINING = 3"

definition MAX_PEERS_PER_SUBNET :: nat where "MAX_PEERS_PER_SUBNET = 3"

text \<open>
  Parameters: the bytes of a peer id, the Borsh codecs of transactions and attestations, and the
  parser of addresses, of which only success matters.
\<close>

record net_externs = node_externs +
  x_peer_bytes :: "string \<Rightarrow> byte list"
  x_unborsh_transaction :: "byte list \<Rightarrow> transaction option"
  x_unborsh_attestation :: "byte list \<Rightarrow> block_attestation option"
  x_borsh_attestation :: "block_attestation \<Rightarrow> byte list option"
  x_multiaddr_ok :: "string \<Rightarrow> bool"

section \<open>Pure rules\<close>

definition clamp_sync_request_range :: "nat \<Rightarrow> nat \<Rightarrow> nat \<Rightarrow> nat \<times> nat" where
  "clamp_sync_request_range start_height requested current_height =
     (let start = min start_height current_height;
          available = sat_add64 (sat_sub current_height start) 1
      in (start, min (min requested MAX_SYNC_BLOCKS) available))"

definition should_attempt_refinement :: "nat \<Rightarrow> nat \<Rightarrow> bool" where
  "should_attempt_refinement height_before_wait height_after_wait \<longleftrightarrow> height_after_wait \<le> height_before_wait"

definition has_mining_peer_quorum :: "nat \<Rightarrow> bool \<Rightarrow> bool" where
  "has_mining_peer_quorum outbound_count allow_solo_mining \<longleftrightarrow>
     allow_solo_mining \<or> MIN_OUTBOUND_FOR_MINING \<le> outbound_count"

definition is_compatible_opolys_protocol :: "string \<Rightarrow> bool" where
  "is_compatible_opolys_protocol protocol_version \<longleftrightarrow> protocol_version = NETWORK_PROTOCOL_VERSION"

text \<open>The attempts of one round of the mining loop; the multiplication is Rust's.\<close>

definition mining_attempts :: "nat \<Rightarrow> nat" where
  "mining_attempts difficulty = min (wrap64 (100000 * max difficulty 1)) 10000000"

fun split_at :: "char \<Rightarrow> string \<Rightarrow> string list" where
  "split_at c [] = [[]]"
| "split_at c (d # s) =
     (if d = c then [] # split_at c s
      else (case split_at c s of [] \<Rightarrow> [[d]] | p # ps \<Rightarrow> (d # p) # ps))"

definition is_digit :: "char \<Rightarrow> bool" where
  "is_digit c \<longleftrightarrow> 48 \<le> (of_char c :: nat) \<and> (of_char c :: nat) \<le> 57"

definition digits_value :: "string \<Rightarrow> nat" where
  "digits_value s = foldl (\<lambda>n c. 10 * n + (of_char c - 48)) 0 s"

text \<open>\<open>str::parse::<u8>\<close>: an optional plus sign, digits, at most 255.\<close>

definition parse_u8 :: "string \<Rightarrow> nat option" where
  "parse_u8 s =
     (let ds = (case s of [] \<Rightarrow> [] | c # t \<Rightarrow> if c = CHR ''+'' then t else s) in
      if ds \<noteq> [] \<and> (\<forall>c \<in> set ds. is_digit c) \<and> digits_value ds \<le> 255 then Some (digits_value ds) else None)"

type_synonym subnet = "nat \<times> nat \<times> nat"

fun find_subnet :: "string list \<Rightarrow> subnet option" where
  "find_subnet (p # q # ps) =
     (if p = ''ip4''
      then (case List.map_filter parse_u8 (split_at (CHR ''.'') q) of
              [a, b, c, d] \<Rightarrow> Some (a, b, c)
            | _ \<Rightarrow> find_subnet (q # ps))
      else find_subnet (q # ps))"
| "find_subnet _ = None"

definition extract_subnet_24 :: "string \<Rightarrow> subnet option" where
  "extract_subnet_24 addr = find_subnet (split_at (CHR ''/'') addr)"

section \<open>The peer cache\<close>

definition is_space :: "char \<Rightarrow> bool" where
  "is_space c \<longleftrightarrow> c \<in> {CHR '' '', CHR 0x09, CHR 0x0A, CHR 0x0B, CHR 0x0C, CHR 0x0D}"

definition trim :: "string \<Rightarrow> string" where
  "trim s = rev (dropWhile is_space (rev (dropWhile is_space s)))"

text \<open>\<open>filter(|line| seen.insert(line))\<close>: the first of equal lines stays.\<close>

fun first_seen :: "'a list \<Rightarrow> 'a list \<Rightarrow> 'a list" where
  "first_seen seen [] = []"
| "first_seen seen (x # xs) = (if x \<in> set seen then first_seen seen xs else x # first_seen (x # seen) xs)"

text \<open>The file of known peers is its contents, or \<open>None\<close> where it cannot be read.\<close>

definition load_known_peers :: "'x net_externs_scheme \<Rightarrow> string option \<Rightarrow> string list" where
  "load_known_peers X file =
     (case file of
        None \<Rightarrow> []
      | Some contents \<Rightarrow>
          take MAX_PEER_COUNT
            (first_seen [] (filter (x_multiaddr_ok X)
               (filter (\<lambda>l. l \<noteq> []) (map trim (split_at (CHR 0x0A) contents))))))"

text \<open>Saving; the directory can be created and the file written.\<close>

definition save_peer_to_cache :: "'x net_externs_scheme \<Rightarrow> string \<Rightarrow> string option \<Rightarrow> string option" where
  "save_peer_to_cache X addr file =
     (if \<not> x_multiaddr_ok X addr then file
      else
        (let peers = load_known_peers X file in
         if addr \<in> set peers then file
         else
           (let kept = (if MAX_PEER_COUNT \<le> length peers then tl peers else peers)
            in Some (concat (map (\<lambda>p. p @ [CHR 0x0A]) (kept @ [addr]))))))"

section \<open>Rate limits\<close>

record peer_rate_limit =
  rl_block_count :: nat
  rl_tx_count :: nat
  rl_window_start :: nat

definition peer_rate_limit_new :: "nat \<Rightarrow> peer_rate_limit" where
  "peer_rate_limit_new now = \<lparr> rl_block_count = 0, rl_tx_count = 0, rl_window_start = now \<rparr>"

definition maybe_reset :: "nat \<Rightarrow> peer_rate_limit \<Rightarrow> peer_rate_limit" where
  "maybe_reset now l = (if 1000000000 \<le> now - rl_window_start l then peer_rate_limit_new now else l)"

section \<open>The state of the event loop\<close>

record chain_info =
  ci_height :: nat
  ci_difficulty :: nat
  ci_total_issued :: nat
  ci_total_burned :: nat
  ci_circulating_supply :: nat
  ci_mint_ledger :: mint_ledger_totals
  ci_latest_block_hash :: hash
  ci_state_root :: hash
  ci_block_timestamps :: "nat list"
  ci_suggested_fee :: nat
  ci_finalized_height :: nat

definition chain_state_to_info :: "chain_state \<Rightarrow> chain_info" where
  "chain_state_to_info c =
     \<lparr> ci_height = cs_current_height c, ci_difficulty = cs_current_difficulty c,
       ci_total_issued = cs_total_issued c, ci_total_burned = cs_total_burned c,
       ci_circulating_supply = circulating_supply c, ci_mint_ledger = cs_mint_ledger c,
       ci_latest_block_hash = cs_latest_block_hash c, ci_state_root = cs_state_root c,
       ci_block_timestamps = cs_block_timestamps c, ci_suggested_fee = cs_suggested_fee c,
       ci_finalized_height = cs_finalized_height c \<rparr>"

record net_state =
  nt_node :: node_state
  nt_info :: chain_info
  nt_outbound :: "string list"
  nt_inbound :: "string list"
  nt_strikes :: "(string, nat) hash_map"
  nt_rate_limits :: "(string, peer_rate_limit) hash_map"
  nt_verified :: "string list"
  nt_pending :: "(string, nat \<times> nat) hash_map"
  nt_subnet_counts :: "(subnet, nat) hash_map"
  nt_peer_subnets :: "(string, subnet) hash_map"
  nt_known_peers :: "string option"

record net_env =
  en_now_secs :: nat
  en_instant :: nat
  en_nonce :: nat
  en_local_peer :: string

definition on_node :: "(node_state \<Rightarrow> node_state) \<Rightarrow> net_state \<Rightarrow> net_state" where
  "on_node f s = s\<lparr>nt_node := f (nt_node s)\<rparr>"

definition refresh_info :: "net_state \<Rightarrow> net_state" where
  "refresh_info s = s\<lparr>nt_info := chain_state_to_info (ns_chain (nt_node s))\<rparr>"

text \<open>Forgetting a peer that was banned for its blocks.\<close>

definition forget_peer :: "string \<Rightarrow> net_state \<Rightarrow> net_state" where
  "forget_peer p s =
     s\<lparr>nt_strikes := hm_del p (nt_strikes s), nt_rate_limits := hm_del p (nt_rate_limits s),
       nt_verified := removeAll p (nt_verified s), nt_pending := hm_del p (nt_pending s)\<rparr>"

text \<open>
  What a handler returns: the commands to the network task and the new state, or \<open>None\<close> when
  it does not return: the selection of a producer in \<open>apply_block\<close> can loop, and
  \<open>expect\<close> ends the task when a block or an attestation cannot be serialized.
\<close>

type_synonym handled = "(network_command list \<times> net_state) option"

end
