(* ===== verification/Peer_Events.thy ===== *)
theory Peer_Events
  imports Peers
begin

text \<open>
  \<open>handle_network_event\<close> of \<open>crates/node/src/main.rs\<close>: one definition per event, and the two
  timers of the event loop.
\<close>

section \<open>Blocks\<close>

text \<open>
  \<open>rl.block_count += 1\<close> on the entry of the peer, fresh or reset; the flag tells whether the
  message is within the limit. The counters are \<open>u32\<close>.
\<close>

definition count_block :: "nat \<Rightarrow> string \<Rightarrow> nat \<Rightarrow> net_state \<Rightarrow> bool \<times> net_state" where
  "count_block now p block_limit s =
     (let l = maybe_reset now (case hm_get (nt_rate_limits s) p of None \<Rightarrow> peer_rate_limit_new now | Some l \<Rightarrow> l);
          n = (rl_block_count l + 1) mod 2 ^ 32
      in (n \<le> block_limit, s\<lparr>nt_rate_limits := hm_put p (l\<lparr>rl_block_count := n\<rparr>) (nt_rate_limits s)\<rparr>))"

definition count_tx :: "nat \<Rightarrow> string \<Rightarrow> nat \<Rightarrow> net_state \<Rightarrow> bool \<times> net_state" where
  "count_tx now p tx_limit s =
     (let l = maybe_reset now (case hm_get (nt_rate_limits s) p of None \<Rightarrow> peer_rate_limit_new now | Some l \<Rightarrow> l);
          n = (rl_tx_count l + 1) mod 2 ^ 32
      in (n \<le> tx_limit, s\<lparr>nt_rate_limits := hm_put p (l\<lparr>rl_tx_count := n\<rparr>) (nt_rate_limits s)\<rparr>))"

text \<open>The attestation of a block just applied, when this node refines; \<open>None\<close> is the panic of \<open>expect\<close>.\<close>

definition local_block_attestation ::
  "'x net_externs_scheme \<Rightarrow> nat \<Rightarrow> hash \<Rightarrow> node_state \<Rightarrow> (network_command list \<times> node_state) option" where
  "local_block_attestation X height hash n =
     (case create_block_attestation X height hash n of
        None \<Rightarrow> Some ([], n)
      | Some a \<Rightarrow>
          map_option (\<lambda>d. ([BroadcastAttestation d], snd (accept_block_attestation X a n)))
            (x_borsh_attestation X a))"

datatype pow_precheck = PowPass | PowFake | PowMalformed

text \<open>The check of a mined block before it is applied: its hash value against the target.\<close>

definition precheck_pow :: "'x pow_externs_scheme \<Rightarrow> block_header \<Rightarrow> pow_precheck" where
  "precheck_pow X h =
     (if bh_pow_proof h = None then PowPass
      else
        (let target = difficulty_to_target (bh_difficulty h) in
         if target = 0 then PowPass
         else (case compute_pow_hash_value X h of
                 None \<Rightarrow> PowMalformed
               | Some hash_val \<Rightarrow> if target < hash_val then PowFake else PowPass)))"

definition ban_and_forget :: "nat \<Rightarrow> string \<Rightarrow> string \<Rightarrow> bool \<Rightarrow> net_state \<Rightarrow> network_command list \<times> net_state" where
  "ban_and_forget now p reason permanent s =
     ([DisconnectPeer p], forget_peer p (on_node (ban_peer now p reason permanent) s))"

text \<open>A block that was refused is a strike; the second strike, of a refiner the third, is a ban.\<close>

definition strike_peer :: "nat \<Rightarrow> string \<Rightarrow> bool \<Rightarrow> net_state \<Rightarrow> network_command list \<times> net_state" where
  "strike_peer now p is_refiner s =
     (let max_strikes = (if is_refiner then 3 else 2);
          strikes = ((case hm_get (nt_strikes s) p of None \<Rightarrow> 0 | Some k \<Rightarrow> k) + 1) mod 2 ^ 32;
          s1 = s\<lparr>nt_strikes := hm_put p strikes (nt_strikes s)\<rparr>
      in if max_strikes \<le> strikes then ban_and_forget now p ''invalid_block'' False s1 else ([], s1))"

definition apply_gossip_block ::
  "'x net_externs_scheme \<Rightarrow> net_env \<Rightarrow> string \<Rightarrow> bool \<Rightarrow> block \<Rightarrow> net_state \<Rightarrow> handled" where
  "apply_gossip_block X e p is_refiner b s =
     (case apply_block X (en_now_secs e) b (nt_node s) of
        None \<Rightarrow> None
      | Some (Inl err, n1) \<Rightarrow> Some (strike_peer (en_now_secs e) p is_refiner (s\<lparr>nt_node := n1\<rparr>))
      | Some (Inr hash, n1) \<Rightarrow>
          (case (x_borsh_block X b, local_block_attestation X (bh_height (blk_header b)) hash n1) of
             (Some d, Some (cs, n2)) \<Rightarrow> Some (BroadcastBlock d # cs, refresh_info (s\<lparr>nt_node := n2\<rparr>))
           | _ \<Rightarrow> None))"

definition handle_gossip_block ::
  "'x net_externs_scheme \<Rightarrow> net_env \<Rightarrow> byte list \<Rightarrow> string \<Rightarrow> net_state \<Rightarrow> handled" where
  "handle_gossip_block X e data p s =
     (if p \<notin> set (nt_verified s) then Some ([], s)
      else
        (let is_refiner = is_refiner_peer p (nt_node s);
             block_limit = (if is_refiner then MAX_BLOCKS_PER_PEER_PER_SECOND * 2 else MAX_BLOCKS_PER_PEER_PER_SECOND)
         in case count_block (en_instant e) p block_limit s of
              (False, s1) \<Rightarrow> Some ([], s1)
            | (True, s1) \<Rightarrow>
                if MAX_BLOCK_SIZE_BYTES < length data then Some ([], s1)
                else (case x_unborsh_block X data of
                   None \<Rightarrow> Some ([], s1)
                 | Some b \<Rightarrow>
                     (let height = bh_height (blk_header b);
                          current_height = cs_current_height (ns_chain (nt_node s1)) in
                      if height \<le> current_height \<or> wrap_add64 current_height MAX_HEIGHT_LOOKAHEAD < height
                      then Some ([], s1)
                      else (case precheck_pow X (blk_header b) of
                              PowFake \<Rightarrow> Some (ban_and_forget (en_now_secs e) p ''fake_pow'' True s1)
                            | PowMalformed \<Rightarrow> Some ([], s1)
                            | PowPass \<Rightarrow> apply_gossip_block X e p is_refiner b s1)))))"

section \<open>Transactions and attestations\<close>

text \<open>\<open>e.to_string().contains("chain_id")\<close>, over the literal parts of the message.\<close>

fun contains_text :: "string \<Rightarrow> string \<Rightarrow> bool" where
  "contains_text t [] = (t = [])"
| "contains_text t (c # s) = (take (length t) (c # s) = t \<or> contains_text t s)"

fun message_contains :: "string \<Rightarrow> message \<Rightarrow> bool" and arg_contains :: "string \<Rightarrow> fmt_arg \<Rightarrow> bool" where
  "message_contains t (Fmt m args) = (contains_text t (String.explode m) \<or> list_ex (arg_contains t) args)"
| "arg_contains t (AMsg m) = message_contains t m"
| "arg_contains t (AStr s) = contains_text t s"
| "arg_contains t _ = False"

text \<open>Banning for a transaction keeps the strikes and the rate limits of the peer.\<close>

definition ban_for_tx :: "nat \<Rightarrow> string \<Rightarrow> string \<Rightarrow> bool \<Rightarrow> net_state \<Rightarrow> network_command list \<times> net_state" where
  "ban_for_tx now p reason permanent s =
     ([DisconnectPeer p], (on_node (ban_peer now p reason permanent) s)
        \<lparr>nt_verified := removeAll p (nt_verified s), nt_pending := hm_del p (nt_pending s)\<rparr>)"

definition reject_gossip_tx :: "nat \<Rightarrow> string \<Rightarrow> opolys_error \<Rightarrow> net_state \<Rightarrow> network_command list \<times> net_state" where
  "reject_gossip_tx now p err s =
     (if err = InvalidSignature then ban_for_tx now p ''invalid_signature'' True s
      else if message_contains ''chain_id'' (opolys_error_to_string err)
      then ban_for_tx now p ''wrong_chain_id'' False s
      else ([], s))"

definition admit_gossip_tx ::
  "'x externs_scheme \<Rightarrow> nat \<Rightarrow> byte list \<Rightarrow> transaction \<Rightarrow> net_state \<Rightarrow> network_command list \<times> net_state" where
  "admit_gossip_tx X now data tx s =
     (let n = nt_node s;
          account_nonce = (case get_account (ns_accounts n) (tx_sender tx) of None \<Rightarrow> 0 | Some a \<Rightarrow> acc_nonce a);
          suggested_fee = cs_suggested_fee (ns_chain n)
      in case add_transaction X tx (tx_fee tx) now account_nonce suggested_fee MAINNET_CHAIN_ID (ns_mempool n) of
           (Inl err, pool) \<Rightarrow> ([], on_node (\<lambda>n. n\<lparr>ns_mempool := pool\<rparr>) s)
         | (Inr _, pool) \<Rightarrow>
             (let high_threshold = sat_mul64 suggested_fee FEE_MULTIPLIER_HIGH in
              (if high_threshold \<le> tx_fee tx then [BroadcastTransaction data]
               else if suggested_fee \<le> tx_fee tx then [BroadcastTransaction data]
               else [], on_node (\<lambda>n. n\<lparr>ns_mempool := pool\<rparr>) s)))"

definition handle_gossip_transaction ::
  "'x net_externs_scheme \<Rightarrow> net_env \<Rightarrow> byte list \<Rightarrow> string \<Rightarrow> net_state \<Rightarrow> network_command list \<times> net_state" where
  "handle_gossip_transaction X e data p s =
     (if p \<notin> set (nt_verified s) then ([], s)
      else
        (let is_refiner = is_refiner_peer p (nt_node s);
             tx_limit = (if is_refiner then MAX_TXS_PER_PEER_PER_SECOND * 2 else MAX_TXS_PER_PEER_PER_SECOND)
         in case count_tx (en_instant e) p tx_limit s of
              (False, s1) \<Rightarrow> ([], s1)
            | (True, s1) \<Rightarrow>
                if TX_MAX_SIZE_BYTES < length data then ([], s1)
                else (case x_unborsh_transaction X data of
                   None \<Rightarrow> ([], s1)
                 | Some tx \<Rightarrow>
                     (case verify_transaction X tx MAINNET_CHAIN_ID of
                        Inl err \<Rightarrow> reject_gossip_tx (en_now_secs e) p err s1
                      | Inr _ \<Rightarrow> admit_gossip_tx X (en_now_secs e) data tx s1))))"

definition handle_gossip_attestation ::
  "'x net_externs_scheme \<Rightarrow> byte list \<Rightarrow> string \<Rightarrow> net_state \<Rightarrow> network_command list \<times> net_state" where
  "handle_gossip_attestation X data p s =
     (if p \<notin> set (nt_verified s) then ([], s)
      else (case x_unborsh_attestation X data of
         None \<Rightarrow> ([], s)
       | Some a \<Rightarrow>
           (case accept_block_attestation X a (nt_node s) of
              (r, n1) \<Rightarrow> (if r = Inr True then [BroadcastAttestation data] else [], s\<lparr>nt_node := n1\<rparr>))))"

section \<open>Connections\<close>

definition handle_peer_connected ::
  "'x net_externs_scheme \<Rightarrow> net_env \<Rightarrow> string \<Rightarrow> string option \<Rightarrow> net_state \<Rightarrow> network_command list \<times> net_state" where
  "handle_peer_connected X e p addr s =
     (let n = nt_node s;
          inbound_count = length (nt_inbound s); outbound_count = length (nt_outbound s);
          refuse = ([DisconnectPeer p], s);
          challenge = (\<lambda>s1.
            let height = cs_current_height (ns_chain n); parent_hash = cs_latest_block_hash (ns_chain n);
                wanted = compute_challenge_hash X MAINNET_CHAIN_ID parent_hash height (en_nonce e)
                  (x_peer_bytes X (en_local_peer e)) (x_peer_bytes X p)
            in ([SendChallenge p height (en_nonce e) parent_hash],
                s1\<lparr>nt_pending := hm_put p (wanted, en_instant e) (nt_pending s1)\<rparr>))
      in if is_peer_banned (en_now_secs e) p n then refuse
         else if MAX_PEER_COUNT \<le> sat_add64 inbound_count outbound_count then refuse
         else (case addr of
            Some a \<Rightarrow>
              if MAX_OUTBOUND_CONNECTIONS \<le> outbound_count then refuse
              else
                (let admit = (\<lambda>s1. challenge
                       (s1\<lparr>nt_outbound := hs_insert p (nt_outbound s1),
                           nt_known_peers := save_peer_to_cache X a (nt_known_peers s1)\<rparr>))
                 in case extract_subnet_24 a of
                      None \<Rightarrow> admit s
                    | Some net \<Rightarrow>
                        (let shared = (case hm_get (nt_subnet_counts s) net of None \<Rightarrow> 0 | Some k \<Rightarrow> k) in
                         if MAX_PEERS_PER_SUBNET \<le> shared then refuse
                         else admit (s\<lparr>nt_subnet_counts := hm_put net (shared + 1) (nt_subnet_counts s),
                                       nt_peer_subnets := hm_put p net (nt_peer_subnets s)\<rparr>)))
          | None \<Rightarrow>
              if MAX_INBOUND_CONNECTIONS \<le> inbound_count then refuse
              else challenge (s\<lparr>nt_inbound := hs_insert p (nt_inbound s)\<rparr>)))"

text \<open>The announcement of a refiner in the agent string: the word after \<open>refiner:\<close>, in hex.\<close>

fun after_text :: "string \<Rightarrow> string \<Rightarrow> string option" where
  "after_text t [] = None"
| "after_text t (c # s) = (if take (length t) (c # s) = t then Some (drop (length t) (c # s)) else after_text t s)"

text \<open>\<open>split(t).nth(1)\<close>: from the first occurrence of \<open>t\<close> to the next.\<close>

fun until_text :: "string \<Rightarrow> string \<Rightarrow> string" where
  "until_text t [] = []"
| "until_text t (c # s) = (if take (length t) (c # s) = t then [] else c # until_text t s)"

definition announced_refiner :: "'x externs_scheme \<Rightarrow> string \<Rightarrow> object_id option" where
  "announced_refiner X agent_version =
     (case after_text ''refiner:'' agent_version of
        None \<Rightarrow> None
      | Some after \<Rightarrow>
          (case x_hex_decode X (takeWhile (\<lambda>c. \<not> is_space c) (dropWhile is_space (until_text ''refiner:'' after))) of
             None \<Rightarrow> None
           | Some bytes \<Rightarrow> if length bytes = 32 then Some (ObjectId (hash_from_bytes bytes)) else None))"

definition handle_peer_identified ::
  "'x externs_scheme \<Rightarrow> string \<Rightarrow> string \<Rightarrow> string \<Rightarrow> net_state \<Rightarrow> network_command list \<times> net_state" where
  "handle_peer_identified X p protocol_version agent_version s =
     (if \<not> is_compatible_opolys_protocol protocol_version
      then ([DisconnectPeer p], s\<lparr>nt_pending := hm_del p (nt_pending s)\<rparr>)
      else (case announced_refiner X agent_version of
         None \<Rightarrow> ([], s)
       | Some i \<Rightarrow>
           (case get_refiner (ns_refiners (nt_node s)) i of
              None \<Rightarrow> ([], s)
            | Some r \<Rightarrow>
                if ri_status r = Active
                then ([], on_node (\<lambda>n. n\<lparr>ns_refiner_peers := hm_put p i (ns_refiner_peers n)\<rparr>) s)
                else ([], s))))"

definition handle_peer_disconnected :: "string \<Rightarrow> net_state \<Rightarrow> net_state" where
  "handle_peer_disconnected p s =
     (let s1 = on_node (\<lambda>n. n\<lparr>ns_refiner_peers := hm_del p (ns_refiner_peers n)\<rparr>)
            ((forget_peer p s)\<lparr>nt_outbound := removeAll p (nt_outbound s), nt_inbound := removeAll p (nt_inbound s),
               nt_peer_subnets := hm_del p (nt_peer_subnets s)\<rparr>)
      in case hm_get (nt_peer_subnets s) p of
           None \<Rightarrow> s1
         | Some net \<Rightarrow>
             (case hm_get (nt_subnet_counts s) net of
                None \<Rightarrow> s1
              | Some k \<Rightarrow>
                  s1\<lparr>nt_subnet_counts := (if sat_sub k 1 = 0 then hm_del net (nt_subnet_counts s)
                                           else hm_put net (sat_sub k 1) (nt_subnet_counts s))\<rparr>))"

section \<open>Synchronization and challenges\<close>

text \<open>The blocks from the store, up to the first that is missing or cannot be read.\<close>

fun serve_blocks :: "'x storage_externs_scheme \<Rightarrow> db \<Rightarrow> nat list \<Rightarrow> byte list list option" where
  "serve_blocks X db [] = Some []"
| "serve_blocks X db (h # hs) =
     (case load_block X h db of
        Inr (Some b) \<Rightarrow>
          (case x_borsh_block X b of
             None \<Rightarrow> None
           | Some d \<Rightarrow> map_option (\<lambda>ds. d # ds) (serve_blocks X db hs))
      | _ \<Rightarrow> Some [])"

definition handle_sync_request ::
  "'x net_externs_scheme \<Rightarrow> string \<Rightarrow> nat \<Rightarrow> sync_request \<Rightarrow> net_state \<Rightarrow> handled" where
  "handle_sync_request X p request_id request s =
     (let current_height = cs_current_height (ns_chain (nt_node s)) in
      if p \<notin> set (nt_verified s)
      then Some ([RespondSyncRequest request_id \<lparr> sp_blocks = [], sp_from_height = current_height \<rparr>], s)
      else
        (case clamp_sync_request_range (sr_start_height request) (sr_count request) current_height of
           (from_height, number) \<Rightarrow>
             map_option (\<lambda>blocks.
                 ([RespondSyncRequest request_id \<lparr> sp_blocks = blocks, sp_from_height = from_height \<rparr>], s))
               (case ns_store (nt_node s) of
                  None \<Rightarrow> Some []
                | Some db \<Rightarrow> serve_blocks X db [from_height..<sat_add64 from_height number])))"

text \<open>The blocks of a response, applied until one is too large, out of order or refused.\<close>

fun apply_sync_blocks ::
  "'x storage_externs_scheme \<Rightarrow> nat \<Rightarrow> byte list list \<Rightarrow> net_state \<Rightarrow> net_state option" where
  "apply_sync_blocks X now [] s = Some s"
| "apply_sync_blocks X now (d # ds) s =
     (if MAX_BLOCK_SIZE_BYTES < length d then Some s
      else (case x_unborsh_block X d of
         None \<Rightarrow> Some s
       | Some b \<Rightarrow>
           if bh_height (blk_header b) \<noteq> wrap_add64 (cs_current_height (ns_chain (nt_node s))) 1 then Some s
           else (case apply_block X now b (nt_node s) of
              None \<Rightarrow> None
            | Some (Inl _, n1) \<Rightarrow> Some (s\<lparr>nt_node := n1\<rparr>)
            | Some (Inr _, n1) \<Rightarrow> apply_sync_blocks X now ds (refresh_info (s\<lparr>nt_node := n1\<rparr>)))))"

definition handle_sync_response ::
  "'x net_externs_scheme \<Rightarrow> net_env \<Rightarrow> string \<Rightarrow> sync_response \<Rightarrow> net_state \<Rightarrow> handled" where
  "handle_sync_response X e p response s =
     (if p \<notin> set (nt_verified s) then Some ([], s)
      else map_option (\<lambda>s'. ([], s')) (apply_sync_blocks X (en_now_secs e) (sp_blocks response) s))"

definition handle_challenge_request ::
  "'x net_externs_scheme \<Rightarrow> net_env \<Rightarrow> string \<Rightarrow> nat \<Rightarrow> nat \<Rightarrow> nat \<Rightarrow> hash \<Rightarrow> network_command list" where
  "handle_challenge_request X e p request_id height nonce parent_hash =
     [RespondChallenge request_id
        (compute_challenge_hash X MAINNET_CHAIN_ID parent_hash height nonce
           (x_peer_bytes X p) (x_peer_bytes X (en_local_peer e)))]"

definition handle_challenge_response ::
  "net_env \<Rightarrow> string \<Rightarrow> nat \<Rightarrow> net_state \<Rightarrow> network_command list \<times> net_state" where
  "handle_challenge_response e p hash_val s =
     (case hm_get (nt_pending s) p of
        None \<Rightarrow> ([], s)
      | Some (wanted, _) \<Rightarrow>
          (let s1 = s\<lparr>nt_pending := hm_del p (nt_pending s)\<rparr> in
           if hash_val = wanted
           then ([RequestBlocks p \<lparr> sr_start_height = wrap_add64 (cs_current_height (ns_chain (nt_node s))) 1,
                                     sr_count = MAX_SYNC_BLOCKS \<rparr>],
                 s1\<lparr>nt_verified := hs_insert p (nt_verified s)\<rparr>)
           else ([DisconnectPeer p],
                 (on_node (ban_peer (en_now_secs e) p ''failed_memory_challenge'' True) s1)
                   \<lparr>nt_strikes := hm_del p (nt_strikes s), nt_rate_limits := hm_del p (nt_rate_limits s)\<rparr>)))"

section \<open>The handler and the timers\<close>

definition handle_network_event ::
  "'x net_externs_scheme \<Rightarrow> net_env \<Rightarrow> network_event \<Rightarrow> net_state \<Rightarrow> handled" where
  "handle_network_event X e ev s =
     (case ev of
        GossipBlock data p \<Rightarrow> handle_gossip_block X e data p s
      | GossipTransaction data p \<Rightarrow> Some (handle_gossip_transaction X e data p s)
      | GossipAttestation data p \<Rightarrow> Some (handle_gossip_attestation X data p s)
      | PeerConnected p addr \<Rightarrow> Some (handle_peer_connected X e p addr s)
      | PeerIdentified p protocol agent \<Rightarrow> Some (handle_peer_identified X p protocol agent s)
      | PeerDisconnected p \<Rightarrow> Some ([], handle_peer_disconnected p s)
      | SyncRequestReceived p request_id request \<Rightarrow> handle_sync_request X p request_id request s
      | ChallengeRequestReceived p request_id height nonce parent_hash \<Rightarrow>
          Some (handle_challenge_request X e p request_id height nonce parent_hash, s)
      | ChallengeResponseReceived p hash_val \<Rightarrow> Some (handle_challenge_response e p hash_val s)
      | SyncResponseReceived p response \<Rightarrow> handle_sync_response X e p response s)"

text \<open>Every five seconds: the challenges that went unanswered for 15 seconds.\<close>

definition check_challenges :: "net_env \<Rightarrow> net_state \<Rightarrow> network_command list \<times> net_state" where
  "check_challenges e s =
     (let expired = map fst (filter (\<lambda>(_, (_, sent_at)). CHALLENGE_TIMEOUT_SECS * 1000000000 \<le> en_instant e - sent_at)
            (nt_pending s))
      in (map DisconnectPeer expired,
          fold (\<lambda>p t. on_node (ban_peer (en_now_secs e) p ''challenge_timeout'' False)
             (t\<lparr>nt_pending := hm_del p (nt_pending t)\<rparr>)) expired s))"

text \<open>Every ten minutes: the expired transactions of the pool.\<close>

definition evict_expired_tick :: "net_env \<Rightarrow> net_state \<Rightarrow> net_state" where
  "evict_expired_tick e s = on_node (\<lambda>n. n\<lparr>ns_mempool := snd (evict_expired (en_now_secs e) (ns_mempool n))\<rparr>) s"

end
