(* ===== verification/Tasks.thy ===== *)
theory Tasks
  imports Peer_Events
begin

text \<open>
  The rest of \<open>crates/node/src/main.rs\<close>: the operator's arguments and what becomes of them, and
  the tasks that run beside the event loop: blocks submitted over RPC, the mining loop, the refiner
  loop, and the two queues through which they hand blocks and attestations to the event loop.
\<close>

section \<open>Arguments and configuration\<close>

record args =
  ag_port :: nat
  ag_rpc_port :: "nat option"
  ag_data_dir :: "string option"
  ag_bootstrap :: "string list"
  ag_no_bootstrap :: bool
  ag_log_level :: string
  ag_mine :: bool
  ag_allow_solo_mining :: bool
  ag_no_rpc :: bool
  ag_refine :: bool
  ag_key_file :: "string option"
  ag_genesis_params :: "string option"
  ag_rpc_listen_addr :: string
  ag_rpc_api_key :: "string option"
  ag_no_rpc_auth :: bool
  ag_allow_dry_run_genesis :: bool

record node_config =
  cf_listen_port :: nat
  cf_rpc_port :: nat
  cf_data_dir :: string
  cf_bootstrap_peers :: "string list"
  cf_no_bootstrap :: bool
  cf_log_level :: string
  cf_mine :: bool
  cf_allow_solo_mining :: bool
  cf_no_rpc :: bool
  cf_refine :: bool
  cf_key_file :: "string option"
  cf_rpc_listen_addr :: string
  cf_rpc_api_key :: "string option"
  cf_genesis_params_path :: "string option"
  cf_allow_dry_run_genesis :: bool

definition node_config_default :: node_config where
  "node_config_default =
     \<lparr> cf_listen_port = DEFAULT_LISTEN_PORT, cf_rpc_port = DEFAULT_LISTEN_PORT + 1, cf_data_dir = ''./data'',
       cf_bootstrap_peers = [], cf_no_bootstrap = False, cf_log_level = ''info'', cf_mine = False,
       cf_allow_solo_mining = False, cf_no_rpc = False, cf_refine = False, cf_key_file = None,
       cf_rpc_listen_addr = ''127.0.0.1'', cf_rpc_api_key = None, cf_genesis_params_path = None,
       cf_allow_dry_run_genesis = False \<rparr>"

definition chain_data_dir :: "node_config \<Rightarrow> string" where
  "chain_data_dir config = cf_data_dir config @ ''/mainnet''"

definition block_production_mode :: "node_config \<Rightarrow> string" where
  "block_production_mode config =
     (case (cf_mine config, cf_refine config) of
        (True, True) \<Rightarrow> ''mining+refinement''
      | (True, False) \<Rightarrow> ''mining''
      | (False, True) \<Rightarrow> ''refinement''
      | (False, False) \<Rightarrow> ''observer'')"

definition rpc_auth_mode :: "node_config \<Rightarrow> string" where
  "rpc_auth_mode config =
     (if cf_no_rpc config then ''disabled''
      else if cf_rpc_api_key config \<noteq> None then ''api-key''
      else ''disabled-by-flag'')"

definition bootstrap_mode :: "node_config \<Rightarrow> nat \<Rightarrow> string" where
  "bootstrap_mode config bootstrap_peer_count =
     (if cf_no_bootstrap config \<and> bootstrap_peer_count = 0 then ''disabled''
      else if cf_no_bootstrap config then ''explicit-only''
      else ''peer-cache+dns+explicit'')"

definition validate_operator_args :: "args \<Rightarrow> message + unit" where
  "validate_operator_args a =
     (if ag_genesis_params a = None
      then Inl (Fmt (STR ''Node requires --genesis-params <path>. Generate the file with the genesis-ceremony tool before starting.'') [])
      else if (ag_mine a \<or> ag_refine a) \<and> ag_key_file a = None
      then Inl (Fmt (STR ''Block production requires --key-file <path>. Export one with `opl export-key-file` before using --mine or --refine.'') [])
      else Inr ())"

text \<open>
  \<open>main\<close> up to the configuration. The argument \<open>random_key\<close> is the outcome of
  \<open>generate_rpc_api_key\<close>, 32 random bytes in hexadecimal or an error of the operating system.
  An error ends the process.
\<close>

definition choose_rpc_api_key :: "args \<Rightarrow> message + string \<Rightarrow> message + string option" where
  "choose_rpc_api_key a random_key =
     (if ag_no_rpc a \<or> ag_no_rpc_auth a then Inr None
      else (case ag_rpc_api_key a of
              Some key \<Rightarrow> Inr (Some key)
            | None \<Rightarrow> map_sum (\<lambda>e. e) Some random_key))"

definition operator_config :: "args \<Rightarrow> message + string \<Rightarrow> message + node_config" where
  "operator_config a random_key =
     and_then (validate_operator_args a) (\<lambda>_.
     and_then (choose_rpc_api_key a random_key) (\<lambda>rpc_api_key.
     Inr \<lparr> cf_listen_port = ag_port a,
           cf_rpc_port = (case ag_rpc_port a of Some p \<Rightarrow> p | None \<Rightarrow> (ag_port a + 1) mod 2 ^ 16),
           cf_data_dir = (case ag_data_dir a of Some d \<Rightarrow> d | None \<Rightarrow> ''./data''),
           cf_bootstrap_peers = ag_bootstrap a, cf_no_bootstrap = ag_no_bootstrap a, cf_log_level = ag_log_level a,
           cf_mine = ag_mine a, cf_allow_solo_mining = ag_allow_solo_mining a, cf_no_rpc = ag_no_rpc a,
           cf_refine = ag_refine a, cf_key_file = ag_key_file a, cf_rpc_listen_addr = ag_rpc_listen_addr a,
           cf_rpc_api_key = rpc_api_key, cf_genesis_params_path = ag_genesis_params a,
           cf_allow_dry_run_genesis = ag_allow_dry_run_genesis a \<rparr>))"

text \<open>The peers to dial: the cache of an earlier session, the resolved seeds, the operator's own.\<close>

definition bootstrap_peer_list ::
  "'x net_externs_scheme \<Rightarrow> node_config \<Rightarrow> string option \<Rightarrow> string list \<Rightarrow> string list" where
  "bootstrap_peer_list X config cache resolved =
     (if cf_no_bootstrap config then [] else load_known_peers X cache @ resolved) @ cf_bootstrap_peers config"

definition start_network_config :: "node_config \<Rightarrow> string list \<Rightarrow> network_config" where
  "start_network_config config peers =
     network_config_default\<lparr>nc_listen_port := cf_listen_port config, nc_bootstrap_peers := peers,
       nc_keypair_path := Some (chain_data_dir config @ ''/network_keypair.ed25519'')\<rparr>"

section \<open>The tasks\<close>

text \<open>
  The process: the state of the event loop, which holds the node, the queues of 64 blocks and
  256 attestations on their way to it, and where the mining loop and the refiner loop are: the miner
  may hold a block it has found and not applied yet; the refiner is between two turns, waits for the
  target time since a height, or holds its block. \<open>try_send\<close> drops what finds its queue full.
\<close>

datatype refiner_task = BetweenTurns | WaitingSince nat | HoldingBlock block

record process =
  pr_net :: net_state
  pr_blocks :: "byte list list"
  pr_attestations :: "byte list list"
  pr_miner :: "block option"
  pr_refiner :: refiner_task

definition try_send_block :: "byte list \<Rightarrow> process \<Rightarrow> process" where
  "try_send_block d p = (if length (pr_blocks p) < 64 then p\<lparr>pr_blocks := pr_blocks p @ [d]\<rparr> else p)"

definition try_send_attestation :: "byte list \<Rightarrow> process \<Rightarrow> process" where
  "try_send_attestation d p =
     (if length (pr_attestations p) < 256 then p\<lparr>pr_attestations := pr_attestations p @ [d]\<rparr> else p)"

definition with_node :: "node_state \<Rightarrow> process \<Rightarrow> process" where
  "with_node n p = p\<lparr>pr_net := (pr_net p)\<lparr>nt_node := n\<rparr>\<rparr>"

text \<open>\<open>None\<close> is the panic of \<open>expect\<close>.\<close>

definition queue_local_block_attestation ::
  "'x net_externs_scheme \<Rightarrow> nat \<Rightarrow> hash \<Rightarrow> process \<Rightarrow> process option" where
  "queue_local_block_attestation X height hash p =
     (let n = nt_node (pr_net p) in
      case create_block_attestation X height hash n of
        None \<Rightarrow> Some p
      | Some a \<Rightarrow>
          (let p1 = with_node (snd (accept_block_attestation X a n)) p in
           map_option (\<lambda>d. try_send_attestation d p1) (x_borsh_attestation X a)))"

text \<open>
  What all three tasks do with a block of their own: apply it, refresh the snapshot, queue it for
  broadcast and queue the attestation.
\<close>

definition apply_own_block ::
  "'x net_externs_scheme \<Rightarrow> nat \<Rightarrow> block \<Rightarrow> process \<Rightarrow> ((message + hash) \<times> process) option" where
  "apply_own_block X now_secs b p =
     (case apply_block X now_secs b (nt_node (pr_net p)) of
        None \<Rightarrow> None
      | Some (Inl e, n) \<Rightarrow> Some (Inl e, with_node n p)
      | Some (Inr hash, n) \<Rightarrow>
          (case x_borsh_block X b of
             None \<Rightarrow> None
           | Some d \<Rightarrow>
               (let p1 = with_node n p;
                    p2 = p1\<lparr>pr_net := refresh_info (pr_net p1)\<rparr>
                in map_option (Pair (Inr hash))
                     (queue_local_block_attestation X (bh_height (blk_header b)) hash (try_send_block d p2)))))"

record block_submission_result =
  sb_block_hash :: "string option"
  sb_error :: "message option"

definition process_submission ::
  "'x net_externs_scheme \<Rightarrow> nat \<Rightarrow> block \<Rightarrow> process \<Rightarrow> (block_submission_result \<times> process) option" where
  "process_submission X now_secs b p =
     map_option (apfst (\<lambda>r. case r of
         Inr hash \<Rightarrow> \<lparr> sb_block_hash = Some (hash_to_hex X hash), sb_error = None \<rparr>
       | Inl e \<Rightarrow> \<lparr> sb_block_hash = None, sb_error = Some e \<rparr>))
       (apply_own_block X now_secs b p)"

text \<open>
  The mining loop: without enough outbound peers nothing happens; otherwise a block is searched, a
  relation since the threads of the search race. What it finds is applied after the search, on
  whatever the node has become.
\<close>

definition mining_search_may :: "'x net_externs_scheme \<Rightarrow> bool \<Rightarrow> nat \<Rightarrow> process \<Rightarrow> process \<Rightarrow> bool" where
  "mining_search_may X allow_solo_mining now_secs p p' \<longleftrightarrow>
     (if \<not> has_mining_peer_quorum (length (nt_outbound (pr_net p))) allow_solo_mining then p' = p
      else
        (\<exists>r n. mine_block_may X now_secs (mining_attempts (cs_current_difficulty (ns_chain (nt_node (pr_net p)))))
                 (nt_node (pr_net p)) r n \<and> p' = (with_node n p)\<lparr>pr_miner := r\<rparr>))"

definition mining_apply :: "'x net_externs_scheme \<Rightarrow> nat \<Rightarrow> process \<Rightarrow> process option" where
  "mining_apply X now_secs p =
     (case pr_miner p of
        None \<Rightarrow> Some p
      | Some b \<Rightarrow> map_option snd (apply_own_block X now_secs b (p\<lparr>pr_miner := None\<rparr>)))"

text \<open>
  The refiner loop: it notes the height, waits for the target time, and produces a block only when the
  height is still the same.
\<close>

definition refiner_wait :: "process \<Rightarrow> process" where
  "refiner_wait p = p\<lparr>pr_refiner := WaitingSince (cs_current_height (ns_chain (nt_node (pr_net p))))\<rparr>"

definition refiner_attempt :: "'x net_externs_scheme \<Rightarrow> nat \<Rightarrow> nat \<Rightarrow> process \<Rightarrow> process option" where
  "refiner_attempt X height_before now_secs p =
     (if \<not> should_attempt_refinement height_before (cs_current_height (ns_chain (nt_node (pr_net p))))
      then Some (p\<lparr>pr_refiner := BetweenTurns\<rparr>)
      else
        (case produce_refiner_block X now_secs (nt_node (pr_net p)) of
           None \<Rightarrow> None
         | Some (None, n) \<Rightarrow> Some ((with_node n p)\<lparr>pr_refiner := BetweenTurns\<rparr>)
         | Some (Some b, n) \<Rightarrow> Some ((with_node n p)\<lparr>pr_refiner := HoldingBlock b\<rparr>)))"

definition refiner_turn :: "'x net_externs_scheme \<Rightarrow> nat \<Rightarrow> process \<Rightarrow> process option" where
  "refiner_turn X now_secs p =
     (case pr_refiner p of
        BetweenTurns \<Rightarrow> Some (refiner_wait p)
      | WaitingSince h \<Rightarrow> refiner_attempt X h now_secs p
      | HoldingBlock b \<Rightarrow> map_option snd (apply_own_block X now_secs b (p\<lparr>pr_refiner := BetweenTurns\<rparr>)))"

text \<open>The event loop takes the next entry of a queue and broadcasts it.\<close>

definition broadcast_next_block :: "process \<Rightarrow> network_command list \<times> process" where
  "broadcast_next_block p =
     (case pr_blocks p of [] \<Rightarrow> ([], p) | d # ds \<Rightarrow> ([BroadcastBlock d], p\<lparr>pr_blocks := ds\<rparr>))"

definition broadcast_next_attestation :: "process \<Rightarrow> network_command list \<times> process" where
  "broadcast_next_attestation p =
     (case pr_attestations p of [] \<Rightarrow> ([], p) | d # ds \<Rightarrow> ([BroadcastAttestation d], p\<lparr>pr_attestations := ds\<rparr>))"

end
