(* ===== verification/Float64.thy ===== *)
theory Float64
  imports Complex_Main Types IntSqrt
begin

text \<open>
  The type \<open>f64\<close> of Rust: finite values as the rationals they stand for, with the rounding to nearest,
  ties to even, written out for a significand of 53 bits. The sign of a zero is not kept: the code
  never divides by a zero and prints both zeros alike.
\<close>

datatype f64 = FNum rat | FInf bool | FNaN

section \<open>Rounding\<close>

text \<open>The exponent of the leading bit of a positive number.\<close>

definition floor_log2 :: "rat \<Rightarrow> int" where
  "floor_log2 q = (if 1 \<le> q then int (bit_length (nat \<lfloor>q\<rfloor>)) - 1 else - int (bit_length (nat (\<lceil>1 / q\<rceil> - 1))))"

text \<open>The exponent of the last bit of the significand; subnormal numbers have the least one.\<close>

definition ulp_exp :: "rat \<Rightarrow> int" where
  "ulp_exp q = max (floor_log2 q - 52) (- 1074)"

definition round_half_even :: "rat \<Rightarrow> int" where
  "round_half_even x =
     (let f = \<lfloor>x\<rfloor>; r = x - of_int f in
      if r < 1 / 2 then f else if 1 / 2 < r then f + 1 else if even f then f else f + 1)"

definition round_magnitude :: "rat \<Rightarrow> rat" where
  "round_magnitude q = of_int (round_half_even (q / 2 powi ulp_exp q)) * 2 powi ulp_exp q"

definition round_f64 :: "rat \<Rightarrow> f64" where
  "round_f64 q =
     (if q = 0 then FNum 0
      else let m = round_magnitude \<bar>q\<bar> in
        if 2 ^ 1024 \<le> m then FInf (q < 0) else FNum (if q < 0 then - m else m))"

section \<open>Operations\<close>

fun f64_is_finite :: "f64 \<Rightarrow> bool" where
  "f64_is_finite (FNum q) = True"
| "f64_is_finite _ = False"

fun f64_less :: "f64 \<Rightarrow> f64 \<Rightarrow> bool" where
  "f64_less (FNum a) (FNum b) = (a < b)"
| "f64_less (FNum a) (FInf s) = (\<not> s)"
| "f64_less (FInf s) (FNum b) = s"
| "f64_less (FInf s) (FInf t) = (s \<and> \<not> t)"
| "f64_less _ _ = False"

fun f64_neg :: "f64 \<Rightarrow> f64" where
  "f64_neg (FNum q) = FNum (- q)"
| "f64_neg (FInf s) = FInf (\<not> s)"
| "f64_neg FNaN = FNaN"

fun f64_add :: "f64 \<Rightarrow> f64 \<Rightarrow> f64" where
  "f64_add (FNum a) (FNum b) = round_f64 (a + b)"
| "f64_add (FInf s) (FInf t) = (if s = t then FInf s else FNaN)"
| "f64_add (FInf s) (FNum b) = FInf s"
| "f64_add (FNum a) (FInf t) = FInf t"
| "f64_add _ _ = FNaN"

definition f64_sub :: "f64 \<Rightarrow> f64 \<Rightarrow> f64" where
  "f64_sub a b = f64_add a (f64_neg b)"

fun f64_mul :: "f64 \<Rightarrow> f64 \<Rightarrow> f64" where
  "f64_mul (FNum a) (FNum b) = round_f64 (a * b)"
| "f64_mul (FInf s) (FInf t) = FInf (s \<noteq> t)"
| "f64_mul (FInf s) (FNum b) = (if b = 0 then FNaN else FInf (s \<noteq> (b < 0)))"
| "f64_mul (FNum a) (FInf t) = (if a = 0 then FNaN else FInf (t \<noteq> (a < 0)))"
| "f64_mul _ _ = FNaN"

fun f64_div :: "f64 \<Rightarrow> f64 \<Rightarrow> f64" where
  "f64_div (FNum a) (FNum b) =
     (if b = 0 then (if a = 0 then FNaN else FInf (a < 0)) else round_f64 (a / b))"
| "f64_div (FInf s) (FNum b) = FInf (s \<noteq> (b < 0))"
| "f64_div (FNum a) (FInf t) = FNum 0"
| "f64_div _ _ = FNaN"

fun f64_abs :: "f64 \<Rightarrow> f64" where
  "f64_abs (FNum q) = FNum \<bar>q\<bar>"
| "f64_abs (FInf s) = FInf False"
| "f64_abs FNaN = FNaN"

fun f64_floor :: "f64 \<Rightarrow> f64" where
  "f64_floor (FNum q) = FNum (of_int \<lfloor>q\<rfloor>)"
| "f64_floor x = x"

text \<open>\<open>round\<close>: halves away from zero.\<close>

fun f64_round :: "f64 \<Rightarrow> f64" where
  "f64_round (FNum q) = FNum (if q < 0 then - of_int \<lfloor>- q + 1 / 2\<rfloor> else of_int \<lfloor>q + 1 / 2\<rfloor>)"
| "f64_round x = x"

text \<open>\<open>as u64\<close>: towards zero, saturating.\<close>

fun f64_to_u64 :: "f64 \<Rightarrow> nat" where
  "f64_to_u64 (FNum q) = min (nat \<lfloor>q\<rfloor>) U64_MAX"
| "f64_to_u64 (FInf s) = (if s then 0 else U64_MAX)"
| "f64_to_u64 FNaN = 0"

definition f64_of_nat :: "nat \<Rightarrow> f64" where
  "f64_of_nat n = round_f64 (of_nat n)"

text \<open>\<open>{:.k}\<close> of a finite number: exact decimals, rounded to nearest, ties to even.\<close>

definition show_decimals :: "nat \<Rightarrow> rat \<Rightarrow> string" where
  "show_decimals k q =
     (let n = nat (round_half_even (\<bar>q\<bar> * 10 ^ k)) in
      (if q < 0 then ''-'' else []) @ show_nat (n div 10 ^ k) @
      (if k = 0 then [] else ''.'' @ pad_zeros k (show_nat (n mod 10 ^ k))))"

section \<open>Laws of the rounding\<close>

lemma round_half_even_bounds: "\<lfloor>x\<rfloor> \<le> round_half_even x" "round_half_even x \<le> \<lceil>x\<rceil>"
  by (auto simp: round_half_even_def Let_def) linarith+

lemma round_half_even_int [simp]: "round_half_even (of_int n) = n"
  by (simp add: round_half_even_def)

lemma round_half_even_mono: "x \<le> y \<Longrightarrow> round_half_even x \<le> round_half_even y"
proof -
  assume le: "x \<le> y"
  then have f: "\<lfloor>x\<rfloor> \<le> \<lfloor>y\<rfloor>" by (rule floor_mono)
  show ?thesis
  proof (cases "\<lfloor>x\<rfloor> = \<lfloor>y\<rfloor>")
    case True
    with le show ?thesis by (auto simp: round_half_even_def Let_def)
  next
    case False
    with f have "\<lfloor>x\<rfloor> + 1 \<le> \<lfloor>y\<rfloor>" by simp
    moreover have "round_half_even x \<le> \<lfloor>x\<rfloor> + 1" by (simp add: round_half_even_def Let_def)
    moreover have "\<lfloor>y\<rfloor> \<le> round_half_even y" by (rule round_half_even_bounds)
    ultimately show ?thesis by linarith
  qed
qed

lemma powi_pos: "0 < (2 :: rat) powi e"
  by (simp add: zero_less_power_int)

lemma powi_less_iff: "(2 :: rat) powi a < 2 powi b \<longleftrightarrow> a < b"
proof
  show "a < b" if "(2 :: rat) powi a < 2 powi b"
    using that power_int_increasing [of b a "2 :: rat"] by (cases "a < b") simp_all
  show "(2 :: rat) powi a < 2 powi b" if "a < b"
    using that by (rule power_int_strict_increasing) simp
qed

lemma floor_log2_bounds:
  assumes "0 < q"
  shows "2 powi floor_log2 q \<le> q" "q < 2 powi (floor_log2 q + 1)"
proof -
  have "2 powi floor_log2 q \<le> q \<and> q < 2 powi (floor_log2 q + 1)"
  proof (cases "1 \<le> q")
    case True
    let ?n = "nat \<lfloor>q\<rfloor>"
    have n: "0 < ?n" "of_nat ?n = (of_int \<lfloor>q\<rfloor> :: rat)" using True by (simp_all add: of_nat_nat)
    have b: "bit_length ?n \<noteq> 0" using bit_length_pos [OF n(1)] by simp
    have "(2 :: nat) ^ (bit_length ?n - 1) \<le> ?n" by (rule bit_length_lower [OF n(1)])
    then have "(2 :: rat) ^ (bit_length ?n - 1) \<le> of_nat ?n" by (metis of_nat_le_iff of_nat_numeral of_nat_power)
    then have low: "(2 :: rat) ^ (bit_length ?n - 1) \<le> q" using n(2) of_int_floor_le [of q] by linarith
    have "?n + 1 \<le> 2 ^ bit_length ?n" using bit_length_upper [of ?n] by (simp only: Suc_eq_plus1 [symmetric] Suc_le_eq)
    then have "of_nat (?n + 1) \<le> (2 :: rat) ^ bit_length ?n" by (metis of_nat_le_iff of_nat_numeral of_nat_power)
    then have high: "q < 2 ^ bit_length ?n" using n(2) floor_correct [of q] by simp
    have e: "floor_log2 q = int (bit_length ?n - 1)" "floor_log2 q + 1 = int (bit_length ?n)"
      using True b by (simp_all add: floor_log2_def of_nat_diff)
    have "2 powi floor_log2 q \<le> q" unfolding e(1) power_int_of_nat by (rule low)
    moreover have "q < 2 powi (floor_log2 q + 1)" unfolding e(2) power_int_of_nat by (rule high)
    ultimately show ?thesis by simp
  next
    case False
    let ?m = "nat (\<lceil>1 / q\<rceil> - 1)"
    have big: "1 < 1 / q" using False assms by simp
    then have c: "2 \<le> \<lceil>1 / q\<rceil>" by linarith
    then have "0 \<le> \<lceil>1 / q\<rceil> - 1" by linarith
    then have m1: "of_nat ?m = (of_int (\<lceil>1 / q\<rceil> - 1) :: rat)" by (rule of_nat_nat)
    have m2: "0 < ?m" using c by linarith
    have b: "bit_length ?m \<noteq> 0" using bit_length_pos [OF m2] by simp
    have "(2 :: nat) ^ (bit_length ?m - 1) \<le> ?m" by (rule bit_length_lower [OF m2])
    then have "(2 :: rat) ^ (bit_length ?m - 1) \<le> of_nat ?m" by (metis of_nat_le_iff of_nat_numeral of_nat_power)
    then have low: "(2 :: rat) ^ (bit_length ?m - 1) < 1 / q" using m1 ceiling_correct [of "1 / q"] by simp
    have "?m + 1 \<le> 2 ^ bit_length ?m" using bit_length_upper [of ?m] by (simp only: Suc_eq_plus1 [symmetric] Suc_le_eq)
    then have top: "of_nat (?m + 1) \<le> (2 :: rat) ^ bit_length ?m" by (metis of_nat_le_iff of_nat_numeral of_nat_power)
    have "1 / q \<le> of_int \<lceil>1 / q\<rceil>" by (rule le_of_int_ceiling)
    also have "\<dots> = of_nat (?m + 1)" using m1 by simp
    finally have high: "1 / q \<le> 2 ^ bit_length ?m" using top by (rule order_trans)
    have e: "floor_log2 q = - int (bit_length ?m)" "floor_log2 q + 1 = - int (bit_length ?m - 1)"
      using False b by (simp_all add: floor_log2_def of_nat_diff)
    have "1 / 2 ^ bit_length ?m \<le> q" using high assms by (simp add: field_simps)
    then have "2 powi floor_log2 q \<le> q" by (simp only: e(1) power_int_minus_divide power_int_of_nat)
    moreover have "q < 1 / 2 ^ (bit_length ?m - 1)" using low assms by (simp add: field_simps)
    then have "q < 2 powi (floor_log2 q + 1)" by (simp only: e(2) power_int_minus_divide power_int_of_nat)
    ultimately show ?thesis by simp
  qed
  then show "2 powi floor_log2 q \<le> q" "q < 2 powi (floor_log2 q + 1)" by auto
qed

lemma floor_log2_eqI:
  assumes "2 powi e \<le> q" and "q < 2 powi (e + 1)"
  shows "floor_log2 q = e"
proof -
  have q: "0 < q" using assms(1) powi_pos [of e] by linarith
  have "(2 :: rat) powi floor_log2 q < 2 powi (e + 1)" "(2 :: rat) powi e < 2 powi (floor_log2 q + 1)"
    using floor_log2_bounds [OF q] assms by linarith+
  then show ?thesis by (simp add: powi_less_iff)
qed

lemma floor_log2_mono: "0 < a \<Longrightarrow> a \<le> b \<Longrightarrow> floor_log2 a \<le> floor_log2 b"
proof -
  assume a: "0 < a" "a \<le> b"
  have "(2 :: rat) powi floor_log2 a < 2 powi (floor_log2 b + 1)"
    using floor_log2_bounds [of a] floor_log2_bounds [of b] a by linarith
  then show ?thesis by (simp add: powi_less_iff)
qed


lemma ulp_exp_mono: "0 < a \<Longrightarrow> a \<le> b \<Longrightarrow> ulp_exp a \<le> ulp_exp b"
  using floor_log2_mono [of a b] by (simp add: ulp_exp_def max_def)

lemma magnitude_top: "0 < q \<Longrightarrow> q < 2 powi (ulp_exp q + 53)"
proof -
  assume q: "0 < q"
  have "q < 2 powi (floor_log2 q + 1)" by (rule floor_log2_bounds [OF q])
  also have "\<dots> \<le> 2 powi (ulp_exp q + 53)"
    by (rule power_int_increasing) (simp_all add: ulp_exp_def)
  finally show ?thesis .
qed

text \<open>Rounding to a multiple of a power of two keeps the multiples on either side.\<close>

lemma round_multiple_ge:
  assumes "of_int k * 2 powi e \<le> q"
  shows "of_int k * 2 powi e \<le> of_int (round_half_even (q / 2 powi e)) * (2 :: rat) powi e"
proof -
  have "of_int k \<le> q / 2 powi e" using assms powi_pos [of e] by (simp add: field_simps)
  then have "k \<le> round_half_even (q / 2 powi e)" using round_half_even_mono [of "of_int k"] by simp
  then show ?thesis using powi_pos [of e] by (intro mult_right_mono) simp_all
qed

lemma round_multiple_le:
  assumes "q \<le> of_int k * 2 powi e"
  shows "of_int (round_half_even (q / 2 powi e)) * (2 :: rat) powi e \<le> of_int k * 2 powi e"
proof -
  have "q / 2 powi e \<le> of_int k" using assms powi_pos [of e] by (simp add: field_simps)
  then have "round_half_even (q / 2 powi e) \<le> k" using round_half_even_mono [of _ "of_int k"] by simp
  then show ?thesis using powi_pos [of e] by (intro mult_right_mono) simp_all
qed

lemma powi_split: "a \<le> b \<Longrightarrow> (2 :: rat) powi b = of_int (2 ^ nat (b - a)) * 2 powi a"
proof -
  assume "a \<le> b"
  then have b: "b = int (nat (b - a)) + a" by simp
  have "(2 :: rat) powi (int (nat (b - a)) + a) = 2 powi int (nat (b - a)) * 2 powi a" by (rule power_int_add) simp
  also have "\<dots> = of_int (2 ^ nat (b - a)) * 2 powi a" by (simp only: power_int_of_nat of_int_power of_int_numeral)
  finally show ?thesis using b by metis
qed

lemma round_magnitude_ge_powi:
  assumes "ulp_exp q \<le> b" and "2 powi b \<le> q"
  shows "2 powi b \<le> round_magnitude q"
  using assms(2) unfolding round_magnitude_def powi_split [OF assms(1)] by (rule round_multiple_ge)

lemma round_magnitude_le_powi:
  assumes "ulp_exp q \<le> b" and "q \<le> 2 powi b"
  shows "round_magnitude q \<le> 2 powi b"
  using assms(2) unfolding round_magnitude_def powi_split [OF assms(1)] by (rule round_multiple_le)

lemma round_magnitude_mono:
  assumes a: "0 < a" and le: "a \<le> b"
  shows "round_magnitude a \<le> round_magnitude b"
proof (cases "ulp_exp a = ulp_exp b")
  case True
  have "a / 2 powi ulp_exp b \<le> b / 2 powi ulp_exp b" using le powi_pos [of "ulp_exp b"] by (simp add: divide_right_mono)
  from round_half_even_mono [OF this] show ?thesis
    using True powi_pos [of "ulp_exp b"] by (simp add: round_magnitude_def mult_right_mono)
next
  case False
  then have less: "ulp_exp a + 1 \<le> ulp_exp b" using ulp_exp_mono [OF a le] by linarith
  then have top: "ulp_exp b = floor_log2 b - 52" using ulp_exp_def [of a] by (auto simp: ulp_exp_def)
  let ?t = "2 powi (ulp_exp a + 53) :: rat"
  have "round_magnitude a \<le> ?t"
    using magnitude_top [OF a] by (intro round_magnitude_le_powi) simp_all
  also have "?t \<le> 2 powi floor_log2 b" using less top by (intro power_int_increasing) simp_all
  also have "\<dots> \<le> round_magnitude b"
    using floor_log2_bounds(1) [of b] a le top by (intro round_magnitude_ge_powi) simp_all
  finally show ?thesis .
qed

text \<open>The numbers with at most 53 significant bits are exact.\<close>

lemma round_magnitude_exact:
  assumes "0 < q" and "q = of_int k * 2 powi ulp_exp q"
  shows "round_magnitude q = q"
  using round_multiple_ge [of k "ulp_exp q" q] round_multiple_le [of q k "ulp_exp q"] assms
  by (simp add: round_magnitude_def)

lemma round_magnitude_nat:
  assumes "0 < n" and "n \<le> 2 ^ 53"
  shows "round_magnitude (of_nat n) = of_nat n"
proof (cases "n = 2 ^ 53")
  case True
  have "floor_log2 (of_nat n) = 53" by (rule floor_log2_eqI) (simp_all add: True)
  then have e: "ulp_exp (of_nat n) = 1" by (simp add: ulp_exp_def)
  have "(of_nat n :: rat) = of_int (2 ^ 52) * 2 powi ulp_exp (of_nat n)" by (simp only: e) (simp add: True)
  then show ?thesis by (rule round_magnitude_exact [rotated]) (use assms in simp)
next
  case False
  then have n: "(of_nat n :: rat) < 2 powi 53" using assms(2) by (metis le_neq_implies_less of_nat_less_iff of_nat_numeral of_nat_power power_int_numeral)
  have "(2 :: rat) powi floor_log2 (of_nat n) < 2 powi 53" using floor_log2_bounds(1) [of "of_nat n"] assms(1) n by simp
  then have "floor_log2 (of_nat n) < 53" by (simp only: powi_less_iff)
  then have e: "ulp_exp (of_nat n) \<le> 0" by (simp add: ulp_exp_def)
  have "(of_nat n :: rat) = of_int (int n * 2 ^ nat (- ulp_exp (of_nat n))) * 2 powi ulp_exp (of_nat n)"
    using powi_split [OF e] by (simp add: mult.assoc)
  then show ?thesis by (rule round_magnitude_exact [rotated]) (use assms in simp)
qed

end
