(* ===== verification/Jsonrpc.thy ===== *)
theory Jsonrpc
  imports Tasks Float64
begin

text \<open>
  The JSON-RPC envelope and the rate limiter, \<open>crates/rpc/src/jsonrpc.rs\<close>, and the JSON values of
  serde that the parameters of a request are made of. An instant is a number of nanoseconds.
\<close>

section \<open>JSON values\<close>

text \<open>\<open>serde_json::Value\<close>; a number is one of the three variants of serde.\<close>

datatype json_number = PosInt nat | NegInt int | FloatNumber f64

datatype json =
    JNull
  | JBool bool
  | JNumber json_number
  | JString string
  | JArray "json list"
  | JObject "(string \<times> json) list"

fun json_as_u64 :: "json \<Rightarrow> nat option" where
  "json_as_u64 (JNumber (PosInt n)) = Some n"
| "json_as_u64 _ = None"

fun json_as_str :: "json \<Rightarrow> string option" where
  "json_as_str (JString s) = Some s"
| "json_as_str _ = None"

section \<open>Errors\<close>

record json_rpc_error =
  je_code :: int
  je_message :: message

definition invalid_request :: "message \<Rightarrow> json_rpc_error" where
  "invalid_request m = \<lparr> je_code = - 32600, je_message = m \<rparr>"

definition method_not_found :: json_rpc_error where
  "method_not_found = \<lparr> je_code = - 32601, je_message = Fmt (STR ''Method not found'') [] \<rparr>"

definition invalid_params :: "message \<Rightarrow> json_rpc_error" where
  "invalid_params m = \<lparr> je_code = - 32602, je_message = m \<rparr>"

definition internal_error :: "message \<Rightarrow> json_rpc_error" where
  "internal_error m = \<lparr> je_code = - 32603, je_message = m \<rparr>"

definition not_found :: "message \<Rightarrow> json_rpc_error" where
  "not_found m = \<lparr> je_code = - 32001, je_message = m \<rparr>"

definition unauthorized :: json_rpc_error where
  "unauthorized =
     \<lparr> je_code = - 32004,
       je_message = Fmt (STR ''This method requires an API key. Use Authorization: Bearer <key> or X-Api-Key: <key>.'') [] \<rparr>"

definition rate_limited :: json_rpc_error where
  "rate_limited = \<lparr> je_code = - 32005, je_message = Fmt (STR ''Rate limit exceeded. Too many requests.'') [] \<rparr>"

section \<open>The envelope\<close>

datatype json_rpc_id = IdNumber nat | IdString string | IdNull

record json_rpc_request =
  jq_jsonrpc :: string
  jq_method :: string
  jq_params :: json
  jq_id :: json_rpc_id

record 'v json_rpc_response =
  jp_jsonrpc :: string
  jp_result :: "'v option"
  jp_error :: "json_rpc_error option"
  jp_id :: json_rpc_id

section \<open>The rate limiter\<close>

definition RATE_LIMIT_WINDOW_SECS :: nat where "RATE_LIMIT_WINDOW_SECS = 60"

definition MAX_RATE_LIMIT_KEYS :: nat where "MAX_RATE_LIMIT_KEYS = 10000"

record rate_limiter =
  lm_requests :: "(string, nat list) hash_map"
  lm_max_per_minute :: nat

definition rate_limiter_new :: "nat \<Rightarrow> rate_limiter" where
  "rate_limiter_new max_per_minute = \<lparr> lm_requests = [], lm_max_per_minute = max_per_minute \<rparr>"

definition fresh_entries :: "nat \<Rightarrow> nat list \<Rightarrow> nat list" where
  "fresh_entries now entries = filter (\<lambda>t. (now - t) div 1000000000 < RATE_LIMIT_WINDOW_SECS) entries"

definition retain_fresh :: "nat \<Rightarrow> (string, nat list) hash_map \<Rightarrow> (string, nat list) hash_map" where
  "retain_fresh now m = filter (\<lambda>(_, es). es \<noteq> []) (map (\<lambda>(k, es). (k, fresh_entries now es)) m)"

definition check_limit :: "nat \<Rightarrow> string \<Rightarrow> nat \<Rightarrow> rate_limiter \<Rightarrow> bool \<times> rate_limiter" where
  "check_limit now key limit l =
     (let m = retain_fresh now (lm_requests l) in
      if hm_get m key = None \<and> MAX_RATE_LIMIT_KEYS \<le> length m then (False, l\<lparr>lm_requests := m\<rparr>)
      else
        (let entries = (case hm_get m key of None \<Rightarrow> [] | Some es \<Rightarrow> es) in
         if limit \<le> length entries then (False, l\<lparr>lm_requests := hm_put key entries m\<rparr>)
         else (True, l\<lparr>lm_requests := hm_put key (entries @ [now]) m\<rparr>)))"

definition check :: "nat \<Rightarrow> string \<Rightarrow> rate_limiter \<Rightarrow> bool \<times> rate_limiter" where
  "check now key l = check_limit now key (lm_max_per_minute l) l"

section \<open>What the limiter guarantees\<close>

text \<open>The answers to a sequence of calls, each an instant, a key and the limit for the key.\<close>

fun limiter_run :: "(nat \<times> string \<times> nat) list \<Rightarrow> rate_limiter \<Rightarrow> bool list \<times> rate_limiter" where
  "limiter_run [] l = ([], l)"
| "limiter_run ((now, key, limit) # cs) l =
     (case check_limit now key limit l of (ok, l1) \<Rightarrow>
        (case limiter_run cs l1 of (oks, l2) \<Rightarrow> (ok # oks, l2)))"

text \<open>The instants of the admitted calls of one key.\<close>

definition admitted :: "string \<Rightarrow> (nat \<times> string \<times> nat) list \<Rightarrow> bool list \<Rightarrow> nat list" where
  "admitted key cs oks = map (\<lambda>x. fst (fst x)) (filter (\<lambda>x. snd x \<and> fst (snd (fst x)) = key) (zip cs oks))"

definition in_window :: "nat \<Rightarrow> nat \<Rightarrow> bool" where
  "in_window t x \<longleftrightarrow> t \<le> x \<and> x < t + 60000000000"

definition limiter_inv :: "string \<Rightarrow> nat \<Rightarrow> nat \<Rightarrow> nat list \<Rightarrow> rate_limiter \<Rightarrow> bool" where
  "limiter_inv key limit latest A l \<longleftrightarrow> hm_wf (lm_requests l) \<and> (\<forall>x \<in> set A. x \<le> latest) \<and>
     fresh_entries latest (case hm_get (lm_requests l) key of None \<Rightarrow> [] | Some es \<Rightarrow> es) = fresh_entries latest A \<and>
     (\<forall>t. length (filter (in_window t) A) \<le> limit)"

lemma fresh_iff: "(now - t) div 1000000000 < RATE_LIMIT_WINDOW_SECS \<longleftrightarrow> now < t + 60000000000" for now t :: nat
  by (auto simp: RATE_LIMIT_WINDOW_SECS_def div_less_iff_less_mult)

lemma fresh_entries_eq: "fresh_entries now es = filter (\<lambda>t. now < t + 60000000000) es"
  by (simp add: fresh_entries_def fresh_iff)

lemma fresh_later: "latest \<le> now \<Longrightarrow> fresh_entries now es = fresh_entries now (fresh_entries latest es)"
  unfolding fresh_entries_eq filter_filter by (intro filter_cong) auto

lemma retain_fresh_wf: "hm_wf m \<Longrightarrow> hm_wf (retain_fresh now m)"
  unfolding hm_wf_def retain_fresh_def
  by (induction m) (auto simp: rev_image_eqI split: if_splits)

lemma retain_fresh_get:
  "hm_wf m \<Longrightarrow> hm_get (retain_fresh now m) key =
     (case hm_get m key of None \<Rightarrow> None
      | Some es \<Rightarrow> if fresh_entries now es = [] then None else Some (fresh_entries now es))"
  unfolding hm_wf_def hm_get_def retain_fresh_def
proof (induction m)
  case (Cons x m)
  obtain k es where x: "x = (k, es)" by (cases x)
  have none: "map_of (filter (\<lambda>(_, es). es \<noteq> []) (map (\<lambda>(k, es). (k, fresh_entries now es)) m)) k = None"
    using Cons.prems x by (auto simp: map_of_eq_None_iff rev_image_eqI)
  show ?case using Cons none by (auto simp: x split: option.splits)
qed simp

lemma retain_fresh_length: "length (retain_fresh now m) \<le> length m"
  unfolding retain_fresh_def using length_filter_le [of _ "map (\<lambda>(k, es). (k, fresh_entries now es)) m"] by simp

lemma fresh_put_other:
  "hm_wf m \<Longrightarrow> (case hm_get (retain_fresh now m) key of None \<Rightarrow> [] | Some es \<Rightarrow> es) =
     fresh_entries now (case hm_get m key of None \<Rightarrow> [] | Some es \<Rightarrow> es)"
  by (auto simp: retain_fresh_get fresh_entries_def split: option.splits)

lemma check_limit_inv:
  assumes inv: "limiter_inv key limit latest A l" and now: "latest \<le> now" and same: "k = key \<Longrightarrow> most = limit"
    and run: "check_limit now k most l = (ok, l')"
  shows "limiter_inv key limit now (if ok \<and> k = key then A @ [now] else A) l'"
proof -
  let ?m = "retain_fresh now (lm_requests l)"
  let ?e = "\<lambda>k. case hm_get ?m k of None \<Rightarrow> [] | Some es \<Rightarrow> es"
  have wf: "hm_wf (lm_requests l)" "hm_wf ?m" using inv by (simp_all add: limiter_inv_def retain_fresh_wf)
  have le: "\<forall>x \<in> set A. x \<le> now" and bound: "length (filter (in_window t) A) \<le> limit" for t
    using inv now by (auto simp: limiter_inv_def)
  have entries: "?e key = fresh_entries now A"
    using inv fresh_put_other [OF wf(1)] fresh_later [OF now] unfolding limiter_inv_def by metis
  have again: "fresh_entries now (?e key) = fresh_entries now A"
    unfolding entries by (simp add: fresh_entries_def)
  have old: ?thesis if "\<not> (ok \<and> k = key)" "lm_requests l' = ?m \<or> (\<exists>es. lm_requests l' = hm_put k es ?m \<and> (k = key \<longrightarrow> es = ?e key))"
    using that wf(2) le bound again by (auto simp: limiter_inv_def hm_get_put hm_wf_put split: if_splits option.splits)
  show ?thesis
  proof (cases "ok \<and> k = key")
    case True
    then have put: "lm_requests l' = hm_put key (?e key @ [now]) ?m" and few: "length (?e key) < limit"
      using run same by (auto simp: check_limit_def Let_def split: if_splits)
    have "length (filter (in_window t) (A @ [now])) \<le> limit" for t
    proof (cases "in_window t now")
      case in_w: True
      have "filter (in_window t) A = filter (in_window t) (fresh_entries now A)"
        unfolding fresh_entries_eq filter_filter using le in_w by (intro filter_cong) (auto simp: in_window_def)
      then have "length (filter (in_window t) A) \<le> length (fresh_entries now A)" by simp
      then show ?thesis using few in_w by (simp add: entries)
    next
      case False
      then show ?thesis using bound by simp
    qed
    moreover have "fresh_entries now (fresh_entries now A @ [now]) = fresh_entries now (A @ [now])"
      by (simp add: fresh_entries_def)
    ultimately show ?thesis using True le wf(2) by (simp add: limiter_inv_def put hm_get_put hm_wf_put entries)
  next
    case False
    have "lm_requests l' = ?m \<or> (\<exists>es. lm_requests l' = hm_put k es ?m \<and> (k = key \<longrightarrow> es = ?e key))"
      using run False by (auto simp: check_limit_def Let_def split: if_splits)
    then show ?thesis by (rule old [OF False])
  qed
qed

lemma limiter_run_inv:
  "limiter_inv key limit latest A l \<Longrightarrow> sorted (latest # map fst cs) \<Longrightarrow>
     (\<And>now most. (now, key, most) \<in> set cs \<Longrightarrow> most = limit) \<Longrightarrow> limiter_run cs l = (oks, l') \<Longrightarrow>
     \<exists>now. limiter_inv key limit now (A @ admitted key cs oks) l'"
proof (induction cs arbitrary: latest A l oks)
  case Nil
  then show ?case by (auto simp: admitted_def)
next
  case (Cons c cs)
  obtain now k most where c: "c = (now, k, most)" by (cases c)
  obtain ok l1 oks1 where one: "check_limit now k most l = (ok, l1)" and rest: "limiter_run cs l1 = (oks1, l')"
    and oks: "oks = ok # oks1"
    using Cons.prems(4) by (auto simp: c split: prod.splits)
  have "limiter_inv key limit now (if ok \<and> k = key then A @ [now] else A) l1"
    using Cons.prems(2,3) by (intro check_limit_inv [OF Cons.prems(1) _ _ one]) (auto simp: c)
  from Cons.IH [OF this _ _ rest] Cons.prems(2,3)
  obtain t where "limiter_inv key limit t ((if ok \<and> k = key then A @ [now] else A) @ admitted key cs oks1) l'"
    by (auto simp: c)
  then show ?case by (auto simp: admitted_def oks c split: if_splits)
qed

text \<open>No window of a minute holds more admitted calls of a key than its limit.\<close>

lemma limiter_window:
  assumes "sorted (map fst cs)" and "\<And>now most. (now, key, most) \<in> set cs \<Longrightarrow> most = limit"
    and "limiter_run cs (rate_limiter_new d) = (oks, l)"
  shows "length (filter (in_window t) (admitted key cs oks)) \<le> limit"
proof -
  have "limiter_inv key limit 0 [] (rate_limiter_new d)"
    by (simp add: limiter_inv_def rate_limiter_new_def fresh_entries_def)
  moreover have "sorted (0 # map fst cs)" using assms(1) by simp
  ultimately obtain now where "limiter_inv key limit now ([] @ admitted key cs oks) l"
    using limiter_run_inv [OF _ _ _ assms(3)] assms(2) by blast
  then show ?thesis by (simp add: limiter_inv_def)
qed

text \<open>The map of the limiter never holds more than 10,000 keys.\<close>

lemma check_limit_keys:
  assumes "length (lm_requests l) \<le> MAX_RATE_LIMIT_KEYS"
  shows "length (lm_requests (snd (check_limit now key limit l))) \<le> MAX_RATE_LIMIT_KEYS"
proof -
  let ?m = "retain_fresh now (lm_requests l)"
  have le: "length ?m \<le> MAX_RATE_LIMIT_KEYS" using assms retain_fresh_length le_trans by blast
  have put: "length (hm_put key es ?m) \<le> MAX_RATE_LIMIT_KEYS"
    if "hm_get ?m key \<noteq> None \<or> length ?m < MAX_RATE_LIMIT_KEYS" for es
  proof (cases "hm_get ?m key")
    case None
    then have "key \<notin> fst ` set ?m" by (simp add: hm_get_def map_of_eq_None_iff)
    then show ?thesis using that None by (simp add: hm_put_append)
  next
    case (Some x)
    then have "key \<in> fst ` set ?m" by (metis hm_get_def domI dom_map_of_conv_image_fst)
    then have "map fst (hm_put key es ?m) = map fst ?m" by (simp add: hm_put_def AList.update_keys)
    then show ?thesis using le by (metis length_map)
  qed
  show ?thesis using le put by (auto simp: check_limit_def Let_def split: if_splits)
qed

lemma limiter_run_keys:
  "length (lm_requests l) \<le> MAX_RATE_LIMIT_KEYS \<Longrightarrow> length (lm_requests (snd (limiter_run cs l))) \<le> MAX_RATE_LIMIT_KEYS"
proof (induction cs arbitrary: l)
  case (Cons c cs)
  obtain now k most where c: "c = (now, k, most)" by (cases c)
  show ?case using Cons.IH [OF check_limit_keys [OF Cons.prems, of now k most]]
    by (auto simp: c split: prod.splits)
qed simp

end
