(* ===== verification/Rpc_Views.thy ===== *)
theory Rpc_Views
  imports Jsonrpc
begin

text \<open>
  The responses of the RPC server, \<open>crates/rpc/src/server.rs\<close>, and the pure functions that read
  parameters and build responses. The conversion of a response record to JSON is serde's; the
  value of a response is the record.
\<close>

section \<open>Response records\<close>

record chain_info_response =
  cir_height :: nat
  cir_difficulty :: nat
  cir_total_issued :: nat
  cir_total_burned :: nat
  cir_circulating_supply :: nat
  cir_circulating_supply_opl :: string
  cir_suggested_fee :: nat
  cir_suggested_fee_opl :: string
  cir_refiner_count :: nat
  cir_active_refiners :: nat
  cir_bonding_refiners :: nat
  cir_waiting_refiners :: nat
  cir_max_active_refiners :: nat
  cir_minimum_refiner_bond_flakes :: nat
  cir_minimum_refiner_bond_opl :: string
  cir_bonded_stake :: nat
  cir_protocol_version :: string
  cir_finalized_height :: nat

record balance_response =
  blr_object_id :: string
  blr_balance_flakes :: nat
  blr_balance_opl :: string

record account_response =
  acr_object_id :: string
  acr_balance_flakes :: nat
  acr_balance_opl :: string
  acr_nonce :: nat

record block_response =
  bkr_version :: nat
  bkr_height :: nat
  bkr_production_kind :: string
  bkr_previous_hash :: string
  bkr_state_root :: string
  bkr_transaction_root :: string
  bkr_timestamp :: nat
  bkr_difficulty :: nat
  bkr_suggested_fee :: nat
  bkr_transaction_count :: nat
  bkr_block_hash :: string
  bkr_finalized :: bool

record block_assay_certificate_response =
  asr_height :: nat
  asr_block_hash :: string
  asr_production_kind :: string
  asr_producer :: string
  asr_difficulty :: nat
  asr_vein_yield_milli :: nat
  asr_vein_yield_multiplier :: string
  asr_gross_reward_flakes :: nat
  asr_gross_reward_opl :: string
  asr_mine_assay_burned_flakes :: nat
  asr_mine_assay_burned_opl :: string
  asr_miner_credit_flakes :: nat
  asr_miner_credit_opl :: string
  asr_successful_transaction_count :: nat
  asr_ordinary_fees_flakes :: nat
  asr_ordinary_fees_opl :: string
  asr_ordinary_fees_burned_flakes :: nat
  asr_ordinary_fees_burned_opl :: string
  asr_refiner_fee_income_flakes :: nat
  asr_refiner_fee_income_opl :: string
  asr_bond_unbond_assay_burned_flakes :: nat
  asr_bond_unbond_assay_burned_opl :: string
  asr_slashed_burned_flakes :: nat
  asr_slashed_burned_opl :: string
  asr_total_burned_flakes :: nat
  asr_total_burned_opl :: string

record transaction_response =
  txr_tx_id :: string
  txr_sender :: string
  txr_action :: string
  txr_fee_flakes :: nat
  txr_fee_opl :: string
  txr_nonce :: nat
  txr_status :: string
  txr_block_height :: "nat option"

record mempool_status_response =
  mpr_transaction_count :: nat
  mpr_total_size_bytes :: nat

record supply_response =
  spr_total_issued_flakes :: nat
  spr_total_burned_flakes :: nat
  spr_circulating_supply_flakes :: nat
  spr_total_issued_opl :: string
  spr_total_burned_opl :: string
  spr_circulating_supply_opl :: string

record mint_ledger_response =
  mlr_height :: nat
  mlr_total_issued_flakes :: nat
  mlr_total_issued_opl :: string
  mlr_total_burned_flakes :: nat
  mlr_total_burned_opl :: string
  mlr_circulating_supply_flakes :: nat
  mlr_circulating_supply_opl :: string
  mlr_total_genesis_issued_flakes :: nat
  mlr_total_genesis_issued_opl :: string
  mlr_total_mined_gross_reward_flakes :: nat
  mlr_total_mined_gross_reward_opl :: string
  mlr_total_mine_assay_burned_flakes :: nat
  mlr_total_mine_assay_burned_opl :: string
  mlr_total_ordinary_fees_burned_flakes :: nat
  mlr_total_ordinary_fees_burned_opl :: string
  mlr_total_bond_unbond_assay_burned_flakes :: nat
  mlr_total_bond_unbond_assay_burned_opl :: string
  mlr_total_slashed_stake_burned_flakes :: nat
  mlr_total_slashed_stake_burned_opl :: string
  mlr_total_refiner_fee_income_flakes :: nat
  mlr_total_refiner_fee_income_opl :: string
  mlr_total_mined_blocks :: nat
  mlr_total_refined_blocks :: nat
  mlr_total_successful_transactions :: nat

record difficulty_response =
  dfr_current_difficulty :: nat
  dfr_retarget :: nat
  dfr_consensus_floor :: nat
  dfr_effective_difficulty :: nat
  dfr_height :: nat
  dfr_next_retarget_height :: nat

record bond_entry_response =
  ber_stake_flakes :: nat
  ber_stake_opl :: string
  ber_bonded_at_height :: nat
  ber_bonded_at_timestamp :: nat

record refiner_response =
  rfr_object_id :: string
  rfr_entries :: "bond_entry_response list"
  rfr_total_stake_flakes :: nat
  rfr_total_stake_opl :: string
  rfr_total_weight_flakes :: nat
  rfr_status :: string
  rfr_last_signed_height :: nat

record refiner_hallmark_response =
  hmr_object_id :: string
  hmr_status :: string
  hmr_total_stake_flakes :: nat
  hmr_total_stake_opl :: string
  hmr_total_weight_flakes :: nat
  hmr_last_signed_height :: nat
  hmr_consecutive_correct_attestations :: nat
  hmr_scan_from_height :: nat
  hmr_scan_to_height :: nat
  hmr_refined_blocks_produced :: nat
  hmr_attestations_included :: nat
  hmr_slash_events_included :: nat
  hmr_refiner_fee_income_flakes :: nat
  hmr_refiner_fee_income_opl :: string
  hmr_missing_receipts :: nat
  hmr_last_refined_block_height :: "nat option"
  hmr_last_attestation_included_height :: "nat option"
  hmr_last_slash_height :: "nat option"

record block_confidence_response =
  bcr_height :: nat
  bcr_block_hash :: string
  bcr_confirmations :: nat
  bcr_finalized :: bool
  bcr_security_model :: string
  bcr_attestation_required :: bool
  bcr_attestation_count :: nat
  bcr_attesting_weight :: nat
  bcr_total_active_weight :: nat
  bcr_confidence_milli :: nat
  bcr_confidence_percent :: string
  bcr_included_through_height :: nat

record send_transaction_response =
  sdr_tx_id :: string
  sdr_fee_flakes :: nat
  sdr_fee_opl :: string
  sdr_action :: string
  sdr_status :: string

record mining_job_response =
  mjr_version :: nat
  mjr_height :: nat
  mjr_previous_hash :: string
  mjr_state_root :: string
  mjr_transaction_root :: string
  mjr_difficulty :: nat
  mjr_target :: nat
  mjr_suggested_fee :: nat
  mjr_timestamp :: nat
  mjr_transaction_count :: nat
  mjr_producer :: string
  mjr_header_bytes :: string

record submit_solution_response =
  ssr_height :: nat
  ssr_block_hash :: string
  ssr_status :: string

text \<open>What a handler serializes.\<close>

datatype rpc_value =
    VNat nat
  | VText string
  | VChainInfo chain_info_response
  | VBalance balance_response
  | VAccount account_response
  | VBlock block_response
  | VBlocks "block_response list"
  | VTransaction transaction_response
  | VMempoolStatus mempool_status_response
  | VSupply supply_response
  | VMintLedger mint_ledger_response
  | VDifficulty difficulty_response
  | VRefiners "refiner_response list"
  | VHallmark refiner_hallmark_response
  | VConfidence block_confidence_response
  | VCertificate block_assay_certificate_response
  | VSent send_transaction_response
  | VJob mining_job_response
  | VSolution submit_solution_response

section \<open>Text\<close>

text \<open>\<open>format_flake\<close> of the server.\<close>

definition format_flake :: "nat \<Rightarrow> string" where
  "format_flake flakes =
     (let opl = flakes div FLAKES_PER_OPL; frac = flakes mod FLAKES_PER_OPL
      in show_nat opl @ ''.'' @ pad_zeros 6 (show_nat frac) @ '' OPL'')"

text \<open>
  \<open>{:.1}\<close> of a count of tenths and \<open>{:.3}\<close> of a count of thousandths, divided as \<open>f64\<close>: exact in the
  range of a confidence, at most 1,000, and of a vein yield, at most 7,665.
\<close>

definition show_fraction :: "nat \<Rightarrow> nat \<Rightarrow> string" where
  "show_fraction digits n = show_nat (n div 10 ^ digits) @ ''.'' @ pad_zeros digits (show_nat (n mod 10 ^ digits))"

fun refiner_status_debug :: "refiner_status \<Rightarrow> string" where
  "refiner_status_debug StatusNone = ''None''"
| "refiner_status_debug Bonding = ''Bonding''"
| "refiner_status_debug Waiting = ''Waiting''"
| "refiner_status_debug Active = ''Active''"
| "refiner_status_debug Unbonding = ''Unbonding''"
| "refiner_status_debug Slashed = ''Slashed''"

fun format_production_kind :: "block_production_kind \<Rightarrow> string" where
  "format_production_kind Genesis = ''genesis''"
| "format_production_kind Mined = ''mined''"
| "format_production_kind Refined = ''refined''"

fun format_action :: "'x externs_scheme \<Rightarrow> transaction_action \<Rightarrow> string" where
  "format_action X (Transfer rcpt amount) =
     ''Transfer '' @ show_nat amount @ '' flakes to '' @ object_id_to_hex X rcpt"
| "format_action X (RefinerBond amount) =
     ''Bond '' @ show_nat amount @ '' flakes ('' @ format_flake amount @ '')''"
| "format_action X (RefinerUnbond amount) =
     ''Unbond '' @ show_nat amount @ '' flakes ('' @ format_flake amount @ '')''"

section \<open>Parameters\<close>

definition parse_32_bytes :: "String.literal \<Rightarrow> 'x externs_scheme \<Rightarrow> string \<Rightarrow> json_rpc_error + hash" where
  "parse_32_bytes wrong_len X hex_str =
     (case x_hex_decode X hex_str of
        None \<Rightarrow> Inl (invalid_params (Fmt (STR ''Invalid hex: {}'') []))
      | Some bytes \<Rightarrow>
          if length bytes \<noteq> 32 then Inl (invalid_params (Fmt wrong_len [ANat (length bytes)]))
          else Inr (hash_from_bytes bytes))"

definition parse_hash :: "'x externs_scheme \<Rightarrow> string \<Rightarrow> json_rpc_error + hash" where
  "parse_hash X = parse_32_bytes (STR ''Expected 32-byte hash, got {} bytes'') X"

definition parse_object_id :: "'x externs_scheme \<Rightarrow> string \<Rightarrow> json_rpc_error + object_id" where
  "parse_object_id X s = map_sum id ObjectId (parse_32_bytes (STR ''Expected 32 bytes, got {}'') X s)"

definition require_object_id :: "'x externs_scheme \<Rightarrow> json \<Rightarrow> json_rpc_error + object_id" where
  "require_object_id X params =
     (case params of
        JArray [] \<Rightarrow> Inl (invalid_params (Fmt (STR ''Missing object_id parameter'') []))
      | JArray (v # _) \<Rightarrow> parse_object_id X (case json_as_str v of None \<Rightarrow> [] | Some s \<Rightarrow> s)
      | _ \<Rightarrow> Inl (invalid_params (Fmt (STR ''Expected params array with object_id'') [])))"

definition require_u64_param :: "json \<Rightarrow> string \<Rightarrow> json_rpc_error + nat" where
  "require_u64_param params name =
     (case params of
        JArray [] \<Rightarrow> Inl (invalid_params (Fmt (STR ''Missing {} parameter'') [AStr name]))
      | JArray (v # _) \<Rightarrow> ok_or (json_as_u64 v) (invalid_params (Fmt (STR ''{} must be a number'') [AStr name]))
      | _ \<Rightarrow> Inl (invalid_params (Fmt (STR ''Expected params array with {}'') [AStr name])))"

definition require_string_param :: "json \<Rightarrow> string \<Rightarrow> json_rpc_error + string" where
  "require_string_param params name =
     (case params of
        JArray [] \<Rightarrow> Inl (invalid_params (Fmt (STR ''Missing {} parameter'') [AStr name]))
      | JArray (v # _) \<Rightarrow> ok_or (json_as_str v) (invalid_params (Fmt (STR ''{} must be a string'') [AStr name]))
      | _ \<Rightarrow> Inl (invalid_params (Fmt (STR ''Expected params array with {}'') [AStr name])))"

definition optional_u64_param :: "json \<Rightarrow> nat \<Rightarrow> json_rpc_error + nat" where
  "optional_u64_param params fallback =
     (case params of
        JArray (v # _) \<Rightarrow> Inr (case json_as_u64 v of None \<Rightarrow> fallback | Some n \<Rightarrow> n)
      | _ \<Rightarrow> Inr fallback)"

definition require_hallmark_params :: "'x externs_scheme \<Rightarrow> json \<Rightarrow> json_rpc_error + object_id \<times> nat" where
  "require_hallmark_params X params =
     (case params of
        JArray [] \<Rightarrow> Inl (invalid_params (Fmt (STR ''Missing refiner ObjectId'') []))
      | JArray (v # vs) \<Rightarrow>
          (case json_as_str v of
             None \<Rightarrow> Inl (invalid_params (Fmt (STR ''Refiner ObjectId must be a 32-byte hex string'') []))
           | Some refiner_hex \<Rightarrow>
               (let second = (case vs of [] \<Rightarrow> None | w # _ \<Rightarrow> json_as_u64 w);
                    lookback = max (case second of None \<Rightarrow> EPOCH | Some n \<Rightarrow> n) 1
                in and_then (parse_object_id X refiner_hex) (\<lambda>i. Inr (i, lookback))))
      | _ \<Rightarrow> Inl (invalid_params
            (Fmt (STR ''Expected params array with refiner ObjectId and optional lookback blocks'') [])))"

section \<open>Responses from stored data\<close>

definition block_to_response :: "'x externs_scheme \<Rightarrow> block \<Rightarrow> nat \<Rightarrow> block_response" where
  "block_to_response X b finalized_height =
     (let h = blk_header b in
      \<lparr> bkr_version = bh_version h, bkr_height = bh_height h,
        bkr_production_kind = (case production_kind h of None \<Rightarrow> ''invalid'' | Some k \<Rightarrow> format_production_kind k),
        bkr_previous_hash = hash_to_hex X (bh_previous_hash h), bkr_state_root = hash_to_hex X (bh_state_root h),
        bkr_transaction_root = hash_to_hex X (bh_transaction_root h), bkr_timestamp = bh_timestamp h,
        bkr_difficulty = bh_difficulty h, bkr_suggested_fee = bh_suggested_fee h,
        bkr_transaction_count = length (blk_transactions b),
        bkr_block_hash = hash_to_hex X (compute_block_hash X h), bkr_finalized = (bh_height h \<le> finalized_height) \<rparr>)"

definition receipt_to_response ::
  "'x externs_scheme \<Rightarrow> block_economic_receipt \<Rightarrow> block_assay_certificate_response" where
  "receipt_to_response X r =
     \<lparr> asr_height = er_height r, asr_block_hash = hash_to_hex X (er_block_hash r),
       asr_production_kind = format_production_kind (er_production_kind r),
       asr_producer = object_id_to_hex X (er_producer r), asr_difficulty = er_difficulty r,
       asr_vein_yield_milli = er_vein_yield_milli r,
       asr_vein_yield_multiplier = show_fraction 3 (er_vein_yield_milli r),
       asr_gross_reward_flakes = er_gross_reward r, asr_gross_reward_opl = format_flake (er_gross_reward r),
       asr_mine_assay_burned_flakes = er_mine_assay_burned r,
       asr_mine_assay_burned_opl = format_flake (er_mine_assay_burned r),
       asr_miner_credit_flakes = er_miner_credit r, asr_miner_credit_opl = format_flake (er_miner_credit r),
       asr_successful_transaction_count = er_successful_transaction_count r,
       asr_ordinary_fees_flakes = er_ordinary_fees r, asr_ordinary_fees_opl = format_flake (er_ordinary_fees r),
       asr_ordinary_fees_burned_flakes = er_ordinary_fees_burned r,
       asr_ordinary_fees_burned_opl = format_flake (er_ordinary_fees_burned r),
       asr_refiner_fee_income_flakes = er_refiner_fee_income r,
       asr_refiner_fee_income_opl = format_flake (er_refiner_fee_income r),
       asr_bond_unbond_assay_burned_flakes = er_bond_unbond_assay_burned r,
       asr_bond_unbond_assay_burned_opl = format_flake (er_bond_unbond_assay_burned r),
       asr_slashed_burned_flakes = er_slashed_burned r, asr_slashed_burned_opl = format_flake (er_slashed_burned r),
       asr_total_burned_flakes = er_total_burned r, asr_total_burned_opl = format_flake (er_total_burned r) \<rparr>"

section \<open>Confidence in a refined block\<close>

text \<open>The sum of \<open>u128\<close> values, which would wrap.\<close>

definition total_active_refiner_weight :: "refiner_set \<Rightarrow> nat \<Rightarrow> nat" where
  "total_active_refiner_weight refiners current_timestamp =
     wrap128 (sum_list (map (\<lambda>r. refiner_weight r current_timestamp)
       (filter (\<lambda>r. ri_status r = Active) (all_refiners refiners))))"

fun attesting_loop ::
  "nat \<Rightarrow> hash \<Rightarrow> refiner_set \<Rightarrow> nat \<Rightarrow> block_attestation list \<Rightarrow> object_id list \<Rightarrow> nat \<Rightarrow> object_id list \<times> nat" where
  "attesting_loop height h refiners now [] seen weight = (seen, weight)"
| "attesting_loop height h refiners now (a # as) seen weight =
     (if at_height a \<noteq> height \<or> at_block_hash a \<noteq> h then attesting_loop height h refiners now as seen weight
      else if at_refiner a \<in> set seen then attesting_loop height h refiners now as seen weight
      else (case get_refiner refiners (at_refiner a) of
              Some r \<Rightarrow>
                if ri_status r = Active
                then attesting_loop height h refiners now as (at_refiner a # seen) (sat_add128 weight (refiner_weight r now))
                else attesting_loop height h refiners now as (at_refiner a # seen) weight
            | None \<Rightarrow> attesting_loop height h refiners now as (at_refiner a # seen) weight))"

definition attestation_confidence_weight ::
  "nat \<Rightarrow> hash \<Rightarrow> block_attestation list \<Rightarrow> refiner_set \<Rightarrow> nat \<Rightarrow> nat \<times> nat" where
  "attestation_confidence_weight target_height target_hash attestations refiners current_timestamp =
     (case attesting_loop target_height target_hash refiners current_timestamp attestations [] 0 of
        (seen, weight) \<Rightarrow> (length seen, weight))"

definition confidence_milli :: "nat \<Rightarrow> nat \<Rightarrow> nat" where
  "confidence_milli attesting_weight total_active_weight =
     (if total_active_weight = 0 then 0 else min (sat_mul128 attesting_weight 1000 div total_active_weight) 1000)"

end
