(* ===== verification/Rpc_Server.thy ===== *)
theory Rpc_Server
  imports Rpc_Views
begin

text \<open>
  The RPC server, \<open>crates/rpc/src/server.rs\<close>: its state, the authentication and rate limit of a
  request, the handler of every method, and the pipeline that a request passes through. The server
  shares accounts, refiners, mempool, database and chain snapshot with the node; a submitted block
  goes through a channel to the task \<open>process_submission\<close>, whose answer is a parameter here.
\<close>

section \<open>State\<close>

definition MAX_RPC_REQUEST_BODY_BYTES :: nat where
  "MAX_RPC_REQUEST_BODY_BYTES = MAX_BLOCK_SIZE_BYTES * 2 + 16384"

definition BLOCK_SUBMISSION_TIMEOUT_SECS :: nat where "BLOCK_SUBMISSION_TIMEOUT_SECS = 30"

text \<open>The limiter is \<open>None\<close> when its lock is poisoned.\<close>

record rpc_state =
  rv_net :: net_state
  rv_miner_id :: object_id
  rv_limiter :: "rate_limiter option"
  rv_api_key :: "string option"

definition rpc_state_new :: "net_state \<Rightarrow> object_id \<Rightarrow> string option \<Rightarrow> rpc_state" where
  "rpc_state_new s miner_id api_key =
     \<lparr> rv_net = s, rv_miner_id = miner_id, rv_limiter = Some (rate_limiter_new 120), rv_api_key = api_key \<rparr>"

text \<open>The server runs only when the node has a database.\<close>

definition rv_store :: "rpc_state \<Rightarrow> db" where
  "rv_store st = (case ns_store (nt_node (rv_net st)) of Some d \<Rightarrow> d | None \<Rightarrow> (\<lambda>_. None))"

definition rv_info :: "rpc_state \<Rightarrow> chain_info" where "rv_info st = nt_info (rv_net st)"
definition rv_accounts :: "rpc_state \<Rightarrow> account_store" where "rv_accounts st = ns_accounts (nt_node (rv_net st))"
definition rv_refiners :: "rpc_state \<Rightarrow> refiner_set" where "rv_refiners st = ns_refiners (nt_node (rv_net st))"
definition rv_mempool :: "rpc_state \<Rightarrow> mempool" where "rv_mempool st = ns_mempool (nt_node (rv_net st))"

text \<open>The answer of the block task to a submission, as the handler sees it within 30 seconds.\<close>

datatype block_reply = ChannelClosed | TimedOut | NoAnswer | Answered block_submission_result

record rpc_env =
  rp_now_secs :: nat
  rp_instant :: nat
  rp_ip :: string
  rp_reply :: "block \<Rightarrow> block_reply"

section \<open>Authentication\<close>

definition classify_method :: "string \<Rightarrow> string \<times> nat \<times> bool" where
  "classify_method m =
     (if m = ''opl_sendTransaction'' then (''write'', 10, True)
      else if m = ''opl_getMiningJob'' \<or> m = ''opl_submitSolution'' then (''mining'', 30, True)
      else (''read'', 120, False))"

definition constant_time_key_eq :: "string \<Rightarrow> string \<Rightarrow> bool" where
  "constant_time_key_eq provided required =
     (let provided_padded = zip_into 256 (ascii provided);
          required_padded = zip_into 256 (ascii required);
          bytes_match = (provided_padded = required_padded);
          lengths_match = (length provided = length required);
          provided_fits = (length provided \<le> 256);
          required_fits = (length required \<le> 256)
      in bytes_match \<and> lengths_match \<and> provided_fits \<and> required_fits)"

text \<open>A header value as text: visible ASCII and tabs only.\<close>

definition header_to_str :: "string \<Rightarrow> string option" where
  "header_to_str v =
     (if \<forall>c \<in> set v. (32 \<le> (of_char c :: nat) \<and> (of_char c :: nat) < 127) \<or> c = CHR 0x09 then Some v else None)"

type_synonym header_map = "(string \<times> string) list"

definition header_text :: "header_map \<Rightarrow> string \<Rightarrow> string option" where
  "header_text headers name = (case map_of headers name of None \<Rightarrow> None | Some v \<Rightarrow> header_to_str v)"

definition check_api_key :: "header_map \<Rightarrow> string \<Rightarrow> bool" where
  "check_api_key headers required_key =
     ((case header_text headers ''authorization'' of
         Some v \<Rightarrow> take 7 v = ''Bearer '' \<and> constant_time_key_eq (drop 7 v) required_key
       | None \<Rightarrow> False) \<or>
      (case header_text headers ''x-api-key'' of
         Some v \<Rightarrow> constant_time_key_eq v required_key
       | None \<Rightarrow> False))"

section \<open>Chain, accounts and supply\<close>

type_synonym handler_result = "json_rpc_error + rpc_value"

definition handle_get_block_height :: "rpc_state \<Rightarrow> handler_result" where
  "handle_get_block_height st = Inr (VNat (ci_height (rv_info st)))"

definition handle_get_chain_info :: "rpc_state \<Rightarrow> handler_result" where
  "handle_get_chain_info st =
     (let chain = rv_info st; refiners = rv_refiners st in
      Inr (VChainInfo
        \<lparr> cir_height = ci_height chain, cir_difficulty = ci_difficulty chain, cir_total_issued = ci_total_issued chain,
          cir_total_burned = ci_total_burned chain, cir_circulating_supply = ci_circulating_supply chain,
          cir_circulating_supply_opl = format_flake (ci_circulating_supply chain),
          cir_suggested_fee = ci_suggested_fee chain, cir_suggested_fee_opl = format_flake (ci_suggested_fee chain),
          cir_refiner_count = refiner_count refiners, cir_active_refiners = total_active_refiners refiners,
          cir_bonding_refiners = total_bonding_refiners refiners,
          cir_waiting_refiners = total_waiting_refiners refiners,
          cir_max_active_refiners = active_refiner_limit (ci_total_issued chain),
          cir_minimum_refiner_bond_flakes = minimum_bond_stake (ci_total_issued chain),
          cir_minimum_refiner_bond_opl = format_flake (minimum_bond_stake (ci_total_issued chain)),
          cir_bonded_stake = total_bonded_stake refiners, cir_protocol_version = NETWORK_PROTOCOL_VERSION,
          cir_finalized_height = ci_finalized_height chain \<rparr>))"

definition handle_get_finalized_height :: "rpc_state \<Rightarrow> handler_result" where
  "handle_get_finalized_height st = Inr (VNat (ci_finalized_height (rv_info st)))"

definition handle_get_network_version :: handler_result where
  "handle_get_network_version = Inr (VText NETWORK_PROTOCOL_VERSION)"

definition handle_get_balance :: "'x externs_scheme \<Rightarrow> rpc_state \<Rightarrow> json \<Rightarrow> handler_result" where
  "handle_get_balance X st params =
     and_then (require_object_id X params) (\<lambda>i.
       let balance = (case get_account (rv_accounts st) i of None \<Rightarrow> 0 | Some a \<Rightarrow> acc_balance a) in
       Inr (VBalance \<lparr> blr_object_id = object_id_to_hex X i, blr_balance_flakes = balance,
                       blr_balance_opl = format_flake balance \<rparr>))"

definition handle_get_account :: "'x externs_scheme \<Rightarrow> rpc_state \<Rightarrow> json \<Rightarrow> handler_result" where
  "handle_get_account X st params =
     and_then (require_object_id X params) (\<lambda>i.
       case get_account (rv_accounts st) i of
         Some a \<Rightarrow> Inr (VAccount \<lparr> acr_object_id = object_id_to_hex X (acc_object_id a),
             acr_balance_flakes = acc_balance a, acr_balance_opl = format_flake (acc_balance a),
             acr_nonce = acc_nonce a \<rparr>)
       | None \<Rightarrow> Inl (not_found (Fmt (STR ''Account not found'') [])))"

definition handle_get_supply :: "rpc_state \<Rightarrow> handler_result" where
  "handle_get_supply st =
     (let chain = rv_info st in
      Inr (VSupply
        \<lparr> spr_total_issued_flakes = ci_total_issued chain, spr_total_burned_flakes = ci_total_burned chain,
          spr_circulating_supply_flakes = ci_circulating_supply chain,
          spr_total_issued_opl = format_flake (ci_total_issued chain),
          spr_total_burned_opl = format_flake (ci_total_burned chain),
          spr_circulating_supply_opl = format_flake (ci_circulating_supply chain) \<rparr>))"

definition handle_get_mint_ledger :: "rpc_state \<Rightarrow> handler_result" where
  "handle_get_mint_ledger st =
     (let chain = rv_info st; ledger = ci_mint_ledger chain in
      Inr (VMintLedger
        \<lparr> mlr_height = ci_height chain,
          mlr_total_issued_flakes = ci_total_issued chain, mlr_total_issued_opl = format_flake (ci_total_issued chain),
          mlr_total_burned_flakes = ci_total_burned chain, mlr_total_burned_opl = format_flake (ci_total_burned chain),
          mlr_circulating_supply_flakes = ci_circulating_supply chain,
          mlr_circulating_supply_opl = format_flake (ci_circulating_supply chain),
          mlr_total_genesis_issued_flakes = ml_genesis_issued ledger,
          mlr_total_genesis_issued_opl = format_flake (ml_genesis_issued ledger),
          mlr_total_mined_gross_reward_flakes = ml_mined_gross_reward ledger,
          mlr_total_mined_gross_reward_opl = format_flake (ml_mined_gross_reward ledger),
          mlr_total_mine_assay_burned_flakes = ml_mine_assay_burned ledger,
          mlr_total_mine_assay_burned_opl = format_flake (ml_mine_assay_burned ledger),
          mlr_total_ordinary_fees_burned_flakes = ml_ordinary_fees_burned ledger,
          mlr_total_ordinary_fees_burned_opl = format_flake (ml_ordinary_fees_burned ledger),
          mlr_total_bond_unbond_assay_burned_flakes = ml_bond_unbond_assay_burned ledger,
          mlr_total_bond_unbond_assay_burned_opl = format_flake (ml_bond_unbond_assay_burned ledger),
          mlr_total_slashed_stake_burned_flakes = ml_slashed_stake_burned ledger,
          mlr_total_slashed_stake_burned_opl = format_flake (ml_slashed_stake_burned ledger),
          mlr_total_refiner_fee_income_flakes = ml_refiner_fee_income ledger,
          mlr_total_refiner_fee_income_opl = format_flake (ml_refiner_fee_income ledger),
          mlr_total_mined_blocks = ml_mined_blocks ledger, mlr_total_refined_blocks = ml_refined_blocks ledger,
          mlr_total_successful_transactions = ml_successful_transactions ledger \<rparr>))"

definition rpc_next_difficulty :: "rpc_state \<Rightarrow> difficulty_target" where
  "rpc_next_difficulty st =
     (let chain = rv_info st in
      compute_next_difficulty (ci_difficulty chain) (ci_height chain) (ci_block_timestamps chain)
        (ci_total_issued chain) (total_bonded_stake (rv_refiners st)))"

definition handle_get_difficulty :: "rpc_state \<Rightarrow> handler_result" where
  "handle_get_difficulty st =
     (let chain = rv_info st; diff_target = rpc_next_difficulty st in
      Inr (VDifficulty
        \<lparr> dfr_current_difficulty = ci_difficulty chain, dfr_retarget = dt_retarget diff_target,
          dfr_consensus_floor = dt_consensus_floor diff_target,
          dfr_effective_difficulty = effective_difficulty diff_target, dfr_height = ci_height chain,
          dfr_next_retarget_height = wrap64 ((ci_height chain div EPOCH + 1) * EPOCH) \<rparr>))"

section \<open>Blocks and transactions\<close>

definition handle_get_block_by_height ::
  "'x storage_externs_scheme \<Rightarrow> rpc_state \<Rightarrow> json \<Rightarrow> handler_result" where
  "handle_get_block_by_height X st params =
     and_then (require_u64_param params ''height'') (\<lambda>height.
       case load_block X height (rv_store st) of
         Inr (Some b) \<Rightarrow> Inr (VBlock (block_to_response X b (ci_finalized_height (rv_info st))))
       | Inr None \<Rightarrow> Inl (not_found (Fmt (STR ''Block at height {} not found'') [ANat height]))
       | Inl e \<Rightarrow> Inl (internal_error e))"

definition handle_get_block_by_hash ::
  "'x storage_externs_scheme \<Rightarrow> rpc_state \<Rightarrow> json \<Rightarrow> handler_result" where
  "handle_get_block_by_hash X st params =
     and_then (require_string_param params ''hash'') (\<lambda>hex_hash.
     and_then (parse_hash X hex_hash) (\<lambda>h.
       case load_block_by_hash X h (rv_store st) of
         Inr (Some b) \<Rightarrow> Inr (VBlock (block_to_response X b (ci_finalized_height (rv_info st))))
       | Inr None \<Rightarrow> Inl (not_found (Fmt (STR ''Block not found'') []))
       | Inl e \<Rightarrow> Inl (internal_error e)))"

fun blocks_downward ::
  "'x storage_externs_scheme \<Rightarrow> db \<Rightarrow> nat \<Rightarrow> nat list \<Rightarrow> block_response list" where
  "blocks_downward X db finalized [] = []"
| "blocks_downward X db finalized (h # hs) =
     (case load_block X h db of
        Inr (Some b) \<Rightarrow> block_to_response X b finalized # blocks_downward X db finalized hs
      | _ \<Rightarrow> [])"

definition handle_get_latest_blocks ::
  "'x storage_externs_scheme \<Rightarrow> rpc_state \<Rightarrow> json \<Rightarrow> handler_result" where
  "handle_get_latest_blocks X st params =
     and_then (optional_u64_param params 10) (\<lambda>n.
       let current_height = ci_height (rv_info st); limit = min n 50 in
       Inr (VBlocks (blocks_downward X (rv_store st) (ci_finalized_height (rv_info st))
         (map (\<lambda>i. current_height - i) [0..<min limit (current_height + 1)]))))"

definition transaction_to_response :: "'x externs_scheme \<Rightarrow> transaction \<Rightarrow> string \<Rightarrow> nat option \<Rightarrow> transaction_response" where
  "transaction_to_response X tx status height =
     \<lparr> txr_tx_id = object_id_to_hex X (tx_id tx), txr_sender = object_id_to_hex X (tx_sender tx),
       txr_action = format_action X (tx_action tx), txr_fee_flakes = tx_fee tx, txr_fee_opl = format_flake (tx_fee tx),
       txr_nonce = tx_nonce tx, txr_status = status, txr_block_height = height \<rparr>"

definition handle_get_transaction ::
  "'x storage_externs_scheme \<Rightarrow> rpc_state \<Rightarrow> json \<Rightarrow> handler_result" where
  "handle_get_transaction X st params =
     and_then (require_string_param params ''tx_id'') (\<lambda>hex_id.
     and_then (parse_object_id X hex_id) (\<lambda>i.
       case get_transaction i (rv_mempool st) of
         Some tx \<Rightarrow> Inr (VTransaction (transaction_to_response X tx ''pending'' None))
       | None \<Rightarrow>
           (case load_transaction X i (rv_store st) of
              Inr (Some (h, tx)) \<Rightarrow> Inr (VTransaction (transaction_to_response X tx ''confirmed'' (Some h)))
            | Inr None \<Rightarrow> Inl (not_found (Fmt (STR ''Transaction not found'') []))
            | Inl e \<Rightarrow> Inl (internal_error e))))"

definition handle_get_mempool_status :: "rpc_state \<Rightarrow> handler_result" where
  "handle_get_mempool_status st =
     Inr (VMempoolStatus \<lparr> mpr_transaction_count = transaction_count (rv_mempool st),
                           mpr_total_size_bytes = mempool_total_size (rv_mempool st) \<rparr>)"

section \<open>Refiners\<close>

definition last_block_timestamp :: "rpc_state \<Rightarrow> nat" where
  "last_block_timestamp st = (let ts = ci_block_timestamps (rv_info st) in if ts = [] then 0 else last ts)"

definition bond_entry_to_response :: "bond_entry \<Rightarrow> bond_entry_response" where
  "bond_entry_to_response e =
     \<lparr> ber_stake_flakes = bd_stake e, ber_stake_opl = format_flake (bd_stake e), ber_bonded_at_height = bd_height e,
       ber_bonded_at_timestamp = bd_timestamp e \<rparr>"

definition handle_get_refiners :: "'x externs_scheme \<Rightarrow> rpc_state \<Rightarrow> handler_result" where
  "handle_get_refiners X st =
     Inr (VRefiners (map (\<lambda>r.
       \<lparr> rfr_object_id = object_id_to_hex X (ri_object_id r),
         rfr_entries = map bond_entry_to_response (ri_entries r), rfr_total_stake_flakes = total_stake r,
         rfr_total_stake_opl = format_flake (total_stake r),
         rfr_total_weight_flakes = refiner_weight r (last_block_timestamp st),
         rfr_status = refiner_status_debug (ri_status r), rfr_last_signed_height = ri_last_signed_height r \<rparr>)
       (all_refiners (rv_refiners st))))"

text \<open>The counters of the scan over the recent blocks.\<close>

record hallmark_scan =
  hs_refined_blocks_produced :: nat
  hs_attestations_included :: nat
  hs_slash_events_included :: nat
  hs_refiner_fee_income :: nat
  hs_missing_receipts :: nat
  hs_last_refined :: "nat option"
  hs_last_attestation :: "nat option"
  hs_last_slash :: "nat option"

definition hallmark_start :: hallmark_scan where
  "hallmark_start =
     \<lparr> hs_refined_blocks_produced = 0, hs_attestations_included = 0, hs_slash_events_included = 0,
       hs_refiner_fee_income = 0, hs_missing_receipts = 0, hs_last_refined = None, hs_last_attestation = None,
       hs_last_slash = None \<rparr>"

definition scan_produced ::
  "'x storage_externs_scheme \<Rightarrow> db \<Rightarrow> object_id \<Rightarrow> block \<Rightarrow> hallmark_scan \<Rightarrow> json_rpc_error + hallmark_scan" where
  "scan_produced X db i b s =
     (let height = bh_height (blk_header b) in
      if is_refined (blk_header b) \<and> bh_producer (blk_header b) = i
      then (let s1 = s\<lparr>hs_refined_blocks_produced := sat_add64 (hs_refined_blocks_produced s) 1,
                       hs_last_refined := Some height\<rparr>
            in case load_block_receipt X height db of
                 Inr (Some r) \<Rightarrow>
                   Inr (s1\<lparr>hs_refiner_fee_income := sat_add64 (hs_refiner_fee_income s1) (er_refiner_fee_income r)\<rparr>)
               | Inr None \<Rightarrow> Inr (s1\<lparr>hs_missing_receipts := sat_add64 (hs_missing_receipts s1) 1\<rparr>)
               | Inl e \<Rightarrow> Inl (internal_error e))
      else Inr s)"

definition scan_attestations :: "object_id \<Rightarrow> block \<Rightarrow> hallmark_scan \<Rightarrow> hallmark_scan" where
  "scan_attestations i b s =
     (let k = length (filter (\<lambda>a. at_refiner a = i) (blk_attestations b)) in
      if 0 < k then s\<lparr>hs_attestations_included := sat_add64 (hs_attestations_included s) k,
                      hs_last_attestation := Some (bh_height (blk_header b))\<rparr> else s)"

definition scan_slashes :: "object_id \<Rightarrow> block \<Rightarrow> hallmark_scan \<Rightarrow> hallmark_scan" where
  "scan_slashes i b s =
     (let k = length (filter (\<lambda>e. ev_producer e = i) (blk_slash_evidence b)) in
      if 0 < k then s\<lparr>hs_slash_events_included := sat_add64 (hs_slash_events_included s) k,
                      hs_last_slash := Some (bh_height (blk_header b))\<rparr> else s)"

fun scan_hallmark ::
  "'x storage_externs_scheme \<Rightarrow> db \<Rightarrow> object_id \<Rightarrow> nat list \<Rightarrow> hallmark_scan \<Rightarrow> json_rpc_error + hallmark_scan" where
  "scan_hallmark X db i [] s = Inr s"
| "scan_hallmark X db i (h # hs) s =
     (case load_block X h db of
        Inl e \<Rightarrow> Inl (internal_error e)
      | Inr None \<Rightarrow> scan_hallmark X db i hs s
      | Inr (Some b) \<Rightarrow>
          and_then (scan_produced X db i b s) (\<lambda>s1.
            scan_hallmark X db i hs (scan_slashes i b (scan_attestations i b s1))))"

definition handle_get_refiner_hallmark ::
  "'x storage_externs_scheme \<Rightarrow> rpc_state \<Rightarrow> json \<Rightarrow> handler_result" where
  "handle_get_refiner_hallmark X st params =
     and_then (require_hallmark_params X params) (\<lambda>(i, lookback_blocks).
       let current_height = ci_height (rv_info st); now = last_block_timestamp st in
       case get_refiner (rv_refiners st) i of
         None \<Rightarrow> Inl (not_found (Fmt (STR ''Refiner not found'') []))
       | Some r \<Rightarrow>
           (let scan_len = min (min lookback_blocks EPOCH) (sat_add64 current_height 1);
                scan_from_height = sat_sub (sat_add64 current_height 1) scan_len
            in and_then (scan_hallmark X (rv_store st) i [scan_from_height..<Suc current_height] hallmark_start) (\<lambda>s.
                 Inr (VHallmark
                   \<lparr> hmr_object_id = object_id_to_hex X (ri_object_id r),
                     hmr_status = refiner_status_debug (ri_status r), hmr_total_stake_flakes = total_stake r,
                     hmr_total_stake_opl = format_flake (total_stake r), hmr_total_weight_flakes = refiner_weight r now,
                     hmr_last_signed_height = ri_last_signed_height r,
                     hmr_consecutive_correct_attestations = ri_attestations r,
                     hmr_scan_from_height = scan_from_height, hmr_scan_to_height = current_height,
                     hmr_refined_blocks_produced = hs_refined_blocks_produced s,
                     hmr_attestations_included = hs_attestations_included s,
                     hmr_slash_events_included = hs_slash_events_included s,
                     hmr_refiner_fee_income_flakes = hs_refiner_fee_income s,
                     hmr_refiner_fee_income_opl = format_flake (hs_refiner_fee_income s),
                     hmr_missing_receipts = hs_missing_receipts s, hmr_last_refined_block_height = hs_last_refined s,
                     hmr_last_attestation_included_height = hs_last_attestation s,
                     hmr_last_slash_height = hs_last_slash s \<rparr>))))"

section \<open>Confidence and certificates\<close>

text \<open>The selector of a block: a height or a hash.\<close>

definition load_confidence_target_block ::
  "'x storage_externs_scheme \<Rightarrow> rpc_state \<Rightarrow> json \<Rightarrow> json_rpc_error + block" where
  "load_confidence_target_block X st params =
     (case params of
        JArray [] \<Rightarrow> Inl (invalid_params (Fmt (STR ''Missing block height or hash'') []))
      | JArray (v # _) \<Rightarrow>
          (case json_as_u64 v of
             Some height \<Rightarrow>
               (case load_block X height (rv_store st) of
                  Inr (Some b) \<Rightarrow> Inr b
                | Inr None \<Rightarrow> Inl (not_found (Fmt (STR ''Block at height {} not found'') [ANat height]))
                | Inl e \<Rightarrow> Inl (internal_error e))
           | None \<Rightarrow>
               (case json_as_str v of
                  None \<Rightarrow> Inl (invalid_params
                    (Fmt (STR ''Block selector must be a height number or 32-byte hash hex string'') []))
                | Some hash_hex \<Rightarrow>
                    and_then (parse_hash X hash_hex) (\<lambda>h.
                      case load_block_by_hash X h (rv_store st) of
                        Inr (Some b) \<Rightarrow> Inr b
                      | Inr None \<Rightarrow> Inl (not_found (Fmt (STR ''Block not found'') []))
                      | Inl e \<Rightarrow> Inl (internal_error e))))
      | _ \<Rightarrow> Inl (invalid_params (Fmt (STR ''Expected params array with block height or hash'') [])))"

text \<open>The attestations in the blocks of the given heights, up to the first block that is missing.\<close>

fun collect_attestations ::
  "'x storage_externs_scheme \<Rightarrow> db \<Rightarrow> nat list \<Rightarrow> nat \<Rightarrow> block_attestation list \<Rightarrow>
   json_rpc_error + nat \<times> block_attestation list" where
  "collect_attestations X db [] through as = Inr (through, as)"
| "collect_attestations X db (h # hs) through as =
     (case load_block X h db of
        Inl e \<Rightarrow> Inl (internal_error e)
      | Inr None \<Rightarrow> Inr (through, as)
      | Inr (Some b) \<Rightarrow> collect_attestations X db hs h (as @ blk_attestations b))"

definition handle_get_block_confidence ::
  "'x storage_externs_scheme \<Rightarrow> rpc_state \<Rightarrow> json \<Rightarrow> handler_result" where
  "handle_get_block_confidence X st params =
     and_then (load_confidence_target_block X st params) (\<lambda>b.
       let target_height = bh_height (blk_header b);
           target_hash = compute_block_hash X (blk_header b);
           current_height = ci_height (rv_info st);
           confirmations = sat_add64 (sat_sub current_height target_height) 1;
           finalized = (target_height \<le> ci_finalized_height (rv_info st));
           now = last_block_timestamp st
       in if \<not> is_refined (blk_header b)
          then Inr (VConfidence
            \<lparr> bcr_height = target_height, bcr_block_hash = hash_to_hex X target_hash, bcr_confirmations = confirmations,
              bcr_finalized = finalized, bcr_security_model = ''pow'', bcr_attestation_required = False,
              bcr_attestation_count = 0, bcr_attesting_weight = 0, bcr_total_active_weight = 0,
              bcr_confidence_milli = 0, bcr_confidence_percent = ''n/a'',
              bcr_included_through_height = target_height \<rparr>)
          else
            (let scan_through_height = min current_height (sat_add64 target_height EPOCH) in
             and_then (collect_attestations X (rv_store st) [sat_add64 target_height 1..<Suc scan_through_height]
                 target_height []) (\<lambda>(included_through_height, included_attestations).
               let total = total_active_refiner_weight (rv_refiners st) now;
                   (n, weight) = attestation_confidence_weight target_height target_hash included_attestations
                     (rv_refiners st) now;
                   milli = confidence_milli weight total
               in Inr (VConfidence
                 \<lparr> bcr_height = target_height, bcr_block_hash = hash_to_hex X target_hash,
                   bcr_confirmations = confirmations, bcr_finalized = finalized,
                   bcr_security_model = ''refiner_attestation'', bcr_attestation_required = True,
                   bcr_attestation_count = n, bcr_attesting_weight = min weight U64_MAX,
                   bcr_total_active_weight = min total U64_MAX, bcr_confidence_milli = milli,
                   bcr_confidence_percent = show_fraction 1 milli,
                   bcr_included_through_height = included_through_height \<rparr>))))"

definition missing_receipt_fallback ::
  "'x storage_externs_scheme \<Rightarrow> rpc_state \<Rightarrow> nat \<Rightarrow> json_rpc_error + block_economic_receipt" where
  "missing_receipt_fallback X st height =
     (case load_block X height (rv_store st) of
        Inl e \<Rightarrow> Inl (internal_error e)
      | Inr None \<Rightarrow> Inl (not_found (Fmt (STR ''Block at height {} not found'') [ANat height]))
      | Inr (Some b) \<Rightarrow>
          (if bh_height (blk_header b) = 0
           then Inr \<lparr> er_height = bh_height (blk_header b), er_block_hash = compute_block_hash X (blk_header b),
                  er_production_kind = Genesis, er_producer = bh_producer (blk_header b),
                  er_difficulty = bh_difficulty (blk_header b), er_vein_yield_milli = 0, er_gross_reward = 0,
                  er_mine_assay_burned = 0, er_miner_credit = 0, er_successful_transaction_count = 0,
                  er_ordinary_fees = 0, er_ordinary_fees_burned = 0, er_refiner_fee_income = 0,
                  er_bond_unbond_assay_burned = 0, er_slashed_burned = 0, er_total_burned = 0 \<rparr>
           else Inl (not_found (Fmt (STR ''Block assay certificate not available for this block; it may have been written before receipt indexing was introduced'') []))))"

definition load_block_assay_receipt ::
  "'x storage_externs_scheme \<Rightarrow> rpc_state \<Rightarrow> json \<Rightarrow> json_rpc_error + block_economic_receipt" where
  "load_block_assay_receipt X st params =
     (case params of
        JArray [] \<Rightarrow> Inl (invalid_params (Fmt (STR ''Missing block height or hash'') []))
      | JArray (v # _) \<Rightarrow>
          (case json_as_u64 v of
             Some height \<Rightarrow>
               (case load_block_receipt X height (rv_store st) of
                  Inl e \<Rightarrow> Inl (internal_error e)
                | Inr (Some r) \<Rightarrow> Inr r
                | Inr None \<Rightarrow> missing_receipt_fallback X st height)
           | None \<Rightarrow>
               (case json_as_str v of
                  None \<Rightarrow> Inl (invalid_params
                    (Fmt (STR ''Block selector must be a height number or 32-byte hash hex string'') []))
                | Some hash_hex \<Rightarrow>
                    and_then (parse_hash X hash_hex) (\<lambda>h.
                      case load_block_receipt_by_hash X h (rv_store st) of
                        Inl e \<Rightarrow> Inl (internal_error e)
                      | Inr (Some r) \<Rightarrow> Inr r
                      | Inr None \<Rightarrow>
                          (case load_block_by_hash X h (rv_store st) of
                             Inl e \<Rightarrow> Inl (internal_error e)
                           | Inr None \<Rightarrow> Inl (not_found (Fmt (STR ''Block not found'') []))
                           | Inr (Some b) \<Rightarrow> missing_receipt_fallback X st (bh_height (blk_header b))))))
      | _ \<Rightarrow> Inl (invalid_params (Fmt (STR ''Expected params array with block height or hash'') [])))"

definition handle_get_block_assay_certificate ::
  "'x storage_externs_scheme \<Rightarrow> rpc_state \<Rightarrow> json \<Rightarrow> handler_result" where
  "handle_get_block_assay_certificate X st params =
     and_then (load_block_assay_receipt X st params) (\<lambda>r. Inr (VCertificate (receipt_to_response X r)))"

section \<open>Transactions from clients\<close>

definition decode_verified_rpc_transaction ::
  "'x net_externs_scheme \<Rightarrow> string \<Rightarrow> json_rpc_error + transaction \<times> nat" where
  "decode_verified_rpc_transaction X hex_data =
     (case x_hex_decode X hex_data of
        None \<Rightarrow> Inl (invalid_params (Fmt (STR ''Invalid hex: {}'') []))
      | Some bytes \<Rightarrow>
          if TX_MAX_SIZE_BYTES < length bytes
          then Inl (invalid_params (Fmt (STR ''Transaction too large: {} bytes (max {})'')
                 [ANat (length bytes), ANat TX_MAX_SIZE_BYTES]))
          else (case x_unborsh_transaction X bytes of
                  None \<Rightarrow> Inl (invalid_params (Fmt (STR ''Invalid transaction: {}'') []))
                | Some tx \<Rightarrow>
                    (case verify_transaction X tx MAINNET_CHAIN_ID of
                       Inl e \<Rightarrow> Inl (invalid_params
                         (Fmt (STR ''Invalid transaction: {}'') [AMsg (opolys_error_to_string e)]))
                     | Inr _ \<Rightarrow> Inr (tx, length bytes))))"

text \<open>The integer fee density, scaled by a million.\<close>

definition rpc_priority :: "nat \<Rightarrow> nat \<Rightarrow> nat" where
  "rpc_priority fee tx_size = min (fee * 1000000 div max tx_size 1) U64_MAX"

text \<open>The message of a refusal by the pool holds the error's text; the source prints its debug form.\<close>

definition handle_send_transaction ::
  "'x net_externs_scheme \<Rightarrow> nat \<Rightarrow> rpc_state \<Rightarrow> json \<Rightarrow> handler_result \<times> rpc_state" where
  "handle_send_transaction X now_secs st params =
     (case and_then (require_string_param params ''data'') (decode_verified_rpc_transaction X) of
        Inl e \<Rightarrow> (Inl e, st)
      | Inr (tx, tx_size) \<Rightarrow>
          (let account_nonce = (case get_account (rv_accounts st) (tx_sender tx) of None \<Rightarrow> 0 | Some a \<Rightarrow> acc_nonce a)
           in case add_transaction X tx (rpc_priority (tx_fee tx) tx_size) now_secs account_nonce
                     (ci_suggested_fee (rv_info st)) MAINNET_CHAIN_ID (rv_mempool st) of
                (r, pool) \<Rightarrow>
                  (let st1 = st\<lparr>rv_net := on_node (\<lambda>n. n\<lparr>ns_mempool := pool\<rparr>) (rv_net st)\<rparr> in
                   case r of
                     Inl e \<Rightarrow> (Inl (invalid_params (Fmt (STR ''Mempool rejected: {:?}'') [AMsg (opolys_error_to_string e)])), st1)
                   | Inr _ \<Rightarrow>
                       (Inr (VSent \<lparr> sdr_tx_id = object_id_to_hex X (tx_id tx), sdr_fee_flakes = tx_fee tx,
                            sdr_fee_opl = format_flake (tx_fee tx), sdr_action = format_action X (tx_action tx),
                            sdr_status = ''pending'' \<rparr>), st1))))"

section \<open>External miners\<close>

definition job_transactions :: "rpc_state \<Rightarrow> transaction list" where
  "job_transactions st = take 100 (get_ordered_transactions (rv_mempool st))"

text \<open>The header that a miner works on.\<close>

definition job_header :: "'x externs_scheme \<Rightarrow> nat \<Rightarrow> rpc_state \<Rightarrow> opolys_error + block_header" where
  "job_header X now_secs st =
     (let chain = rv_info st in
      and_then (compute_evidence_root X []) (\<lambda>er.
      and_then (compute_attestation_root X []) (\<lambda>ar.
      and_then (compute_genesis_ceremony_hash X None) (\<lambda>gr.
        Inr \<lparr> bh_version = BLOCK_VERSION, bh_height = wrap_add64 (ci_height chain) 1,
              bh_previous_hash = ci_latest_block_hash chain, bh_state_root = ci_state_root chain,
              bh_transaction_root = compute_transaction_root X (job_transactions st), bh_evidence_root = er,
              bh_attestation_root = ar, bh_genesis_ceremony_hash = gr, bh_timestamp = now_secs,
              bh_difficulty = effective_difficulty (rpc_next_difficulty st),
              bh_suggested_fee = ci_suggested_fee chain, bh_extension_root = None,
              bh_producer = rv_miner_id st, bh_pow_proof = None, bh_refiner_signature = None \<rparr>))))"

definition handle_get_mining_job :: "'x externs_scheme \<Rightarrow> nat \<Rightarrow> rpc_state \<Rightarrow> handler_result" where
  "handle_get_mining_job X now_secs st =
     (if object_id_hash (rv_miner_id st) = hash_zero
      then Inl (invalid_request (Fmt (STR ''Mining jobs require the node to start with --key-file'') []))
      else
        (case job_header X now_secs st of
           Inl e \<Rightarrow> Inl (internal_error (opolys_error_to_string e))
         | Inr h \<Rightarrow>
             Inr (VJob
               \<lparr> mjr_version = BLOCK_VERSION, mjr_height = bh_height h,
                 mjr_previous_hash = hash_to_hex X (bh_previous_hash h),
                 mjr_state_root = hash_to_hex X (bh_state_root h),
                 mjr_transaction_root = hash_to_hex X (bh_transaction_root h), mjr_difficulty = bh_difficulty h,
                 mjr_target = difficulty_to_target (bh_difficulty h), mjr_suggested_fee = bh_suggested_fee h,
                 mjr_timestamp = bh_timestamp h, mjr_transaction_count = length (job_transactions st),
                 mjr_producer = object_id_to_hex X (rv_miner_id st),
                 mjr_header_bytes = x_hex_encode X (serialize_header_for_pow h) \<rparr>)))"

definition decode_submission :: "'x storage_externs_scheme \<Rightarrow> json \<Rightarrow> json_rpc_error + block" where
  "decode_submission X params =
     and_then (require_string_param params ''block'') (\<lambda>hex_data.
       case x_hex_decode X hex_data of
         None \<Rightarrow> Inl (invalid_params (Fmt (STR ''Invalid hex: {}'') []))
       | Some bytes \<Rightarrow>
           if MAX_BLOCK_SIZE_BYTES < length bytes
           then Inl (invalid_params (Fmt (STR ''Block too large: {} bytes (max {})'')
                  [ANat (length bytes), ANat MAX_BLOCK_SIZE_BYTES]))
           else ok_or (x_unborsh_block X bytes) (invalid_params (Fmt (STR ''Invalid block: {}'') [])))"

definition answer_submission :: "nat \<Rightarrow> block_reply \<Rightarrow> handler_result" where
  "answer_submission height reply =
     (case reply of
        ChannelClosed \<Rightarrow>
          Inl (internal_error (Fmt (STR ''Node is not accepting blocks - channel closed'') []))
      | TimedOut \<Rightarrow> Inl (internal_error (Fmt (STR ''Timed out waiting for block submission result'') []))
      | NoAnswer \<Rightarrow> Inl (internal_error (Fmt (STR ''Node did not respond to block submission'') []))
      | Answered result \<Rightarrow>
          (case sb_block_hash result of
             Some h \<Rightarrow> Inr (VSolution \<lparr> ssr_height = height, ssr_block_hash = h, ssr_status = ''accepted'' \<rparr>)
           | None \<Rightarrow> Inl (internal_error (case sb_error result of
                 None \<Rightarrow> Fmt (STR ''Block application failed'') [] | Some e \<Rightarrow> e))))"

text \<open>The handler hands the block to the node, the first component, unless its channel is closed, and waits for the answer.\<close>

definition handle_submit_solution ::
  "'x storage_externs_scheme \<Rightarrow> rpc_env \<Rightarrow> json \<Rightarrow> block option \<times> handler_result" where
  "handle_submit_solution X env params =
     (case decode_submission X params of
        Inl e \<Rightarrow> (None, Inl e)
      | Inr b \<Rightarrow> (if rp_reply env b = ChannelClosed then None else Some b, answer_submission (bh_height (blk_header b)) (rp_reply env b)))"

section \<open>The pipeline\<close>

text \<open>The methods that only read; \<open>None\<close> for an unknown method.\<close>

definition read_method ::
  "'x net_externs_scheme \<Rightarrow> rpc_state \<Rightarrow> string \<Rightarrow> json \<Rightarrow> handler_result option" where
  "read_method X st m params =
     (if m = ''opl_getBlockHeight'' then Some (handle_get_block_height st)
      else if m = ''opl_getChainInfo'' then Some (handle_get_chain_info st)
      else if m = ''opl_getNetworkVersion'' then Some handle_get_network_version
      else if m = ''opl_getBalance'' then Some (handle_get_balance X st params)
      else if m = ''opl_getAccount'' then Some (handle_get_account X st params)
      else if m = ''opl_getBlockByHeight'' then Some (handle_get_block_by_height X st params)
      else if m = ''opl_getBlockByHash'' then Some (handle_get_block_by_hash X st params)
      else if m = ''opl_getLatestBlocks'' then Some (handle_get_latest_blocks X st params)
      else if m = ''opl_getTransaction'' then Some (handle_get_transaction X st params)
      else if m = ''opl_getMempoolStatus'' then Some (handle_get_mempool_status st)
      else if m = ''opl_getSupply'' then Some (handle_get_supply st)
      else if m = ''opl_getMintLedger'' then Some (handle_get_mint_ledger st)
      else if m = ''opl_getDifficulty'' then Some (handle_get_difficulty st)
      else if m = ''opl_getRefiners'' then Some (handle_get_refiners X st)
      else if m = ''opl_getRefinerHallmark'' then Some (handle_get_refiner_hallmark X st params)
      else if m = ''opl_getBlockConfidence'' then Some (handle_get_block_confidence X st params)
      else if m = ''opl_getBlockAssayCertificate'' then Some (handle_get_block_assay_certificate X st params)
      else if m = ''opl_getFinalizedHeight'' then Some (handle_get_finalized_height st)
      else None)"

record routed =
  ro_result :: "handler_result option"
  ro_submitted :: "block option"
  ro_state :: rpc_state

definition route_method :: "'x net_externs_scheme \<Rightarrow> rpc_env \<Rightarrow> rpc_state \<Rightarrow> string \<Rightarrow> json \<Rightarrow> routed" where
  "route_method X env st m params =
     (if m = ''opl_sendTransaction''
      then (case handle_send_transaction X (rp_now_secs env) st params of
              (r, st1) \<Rightarrow> \<lparr> ro_result = Some r, ro_submitted = None, ro_state = st1 \<rparr>)
      else if m = ''opl_getMiningJob''
      then \<lparr> ro_result = Some (handle_get_mining_job X (rp_now_secs env) st), ro_submitted = None, ro_state = st \<rparr>
      else if m = ''opl_submitSolution''
      then (case handle_submit_solution X env params of
              (sent, r) \<Rightarrow> \<lparr> ro_result = Some r, ro_submitted = sent, ro_state = st \<rparr>)
      else \<lparr> ro_result = read_method X st m params, ro_submitted = None, ro_state = st \<rparr>)"

record rpc_outcome =
  oc_status :: nat
  oc_response :: "rpc_value json_rpc_response"
  oc_submitted :: "block option"

definition refuse :: "nat \<Rightarrow> json_rpc_error \<Rightarrow> json_rpc_request \<Rightarrow> rpc_outcome" where
  "refuse status e req =
     \<lparr> oc_status = status,
       oc_response = \<lparr> jp_jsonrpc = ''2.0'', jp_result = None, jp_error = Some e, jp_id = jq_id req \<rparr>,
       oc_submitted = None \<rparr>"

definition respond :: "json_rpc_request \<Rightarrow> routed \<Rightarrow> rpc_outcome" where
  "respond req ro =
     \<lparr> oc_status = 200,
       oc_response = (case ro_result ro of
           None \<Rightarrow> \<lparr> jp_jsonrpc = ''2.0'', jp_result = None, jp_error = Some method_not_found, jp_id = jq_id req \<rparr>
         | Some (Inl e) \<Rightarrow> \<lparr> jp_jsonrpc = ''2.0'', jp_result = None, jp_error = Some e, jp_id = jq_id req \<rparr>
         | Some (Inr v) \<Rightarrow> \<lparr> jp_jsonrpc = ''2.0'', jp_result = Some v, jp_error = None, jp_id = jq_id req \<rparr>),
       oc_submitted = ro_submitted ro \<rparr>"

definition handle_jsonrpc ::
  "'x net_externs_scheme \<Rightarrow> rpc_env \<Rightarrow> header_map \<Rightarrow> json_rpc_request \<Rightarrow> rpc_state \<Rightarrow> rpc_outcome \<times> rpc_state" where
  "handle_jsonrpc X env headers req st =
     (if jq_jsonrpc req \<noteq> ''2.0''
      then (refuse 400 (invalid_request (Fmt (STR ''jsonrpc must be exactly \"2.0\"'') [])) req, st)
      else
        (case classify_method (jq_method req) of (tier, max_per_min, needs_auth) \<Rightarrow>
          (case rv_limiter st of
             None \<Rightarrow> (refuse 500 (internal_error (Fmt (STR ''RPC rate limiter unavailable'') [])) req, st)
           | Some limiter \<Rightarrow>
               (case check_limit (rp_instant env) (rp_ip env @ '':'' @ tier) max_per_min limiter of (ok, limiter1) \<Rightarrow>
                 (let st1 = st\<lparr>rv_limiter := Some limiter1\<rparr> in
                  if \<not> ok then (refuse 429 rate_limited req, st1)
                  else if needs_auth \<and>
                     (case rv_api_key st of None \<Rightarrow> False | Some required_key \<Rightarrow> \<not> check_api_key headers required_key)
                  then (refuse 401 unauthorized req, st1)
                  else (let ro = route_method X env st1 (jq_method req) (jq_params req)
                        in (respond req ro, ro_state ro)))))))"

end
