(* ===== verification/Node_Laws.thy ===== *)
theory Node_Laws
  imports Node
begin

text \<open>
  The laws of block application: what every step does to the coins, the issued and the burned
  supply, and the chain of blocks.
\<close>

section \<open>The supply\<close>

definition held :: "node_state \<Rightarrow> nat" where
  "held n = total_balance (ns_accounts n) + custody (ns_refiners n)"

definition issued :: "node_state \<Rightarrow> nat" where "issued n = cs_total_issued (ns_chain n)"

definition burned :: "node_state \<Rightarrow> nat" where "burned n = cs_total_burned (ns_chain n)"

definition stores_wf :: "node_state \<Rightarrow> bool" where
  "stores_wf n \<longleftrightarrow> accounts_wf (ns_accounts n) \<and> refiners_wf (ns_refiners n)"

text \<open>Every coin issued is in an account, in custody, or burned.\<close>

definition supply_ok :: "node_state \<Rightarrow> bool" where
  "supply_ok n \<longleftrightarrow> stores_wf n \<and> held n + burned n = issued n \<and> issued n \<le> U64_MAX"

lemma on_chain_sel [simp]:
  "ns_chain (on_chain f n) = f (ns_chain n)" "ns_accounts (on_chain f n) = ns_accounts n"
  "ns_refiners (on_chain f n) = ns_refiners n" "ns_mempool (on_chain f n) = ns_mempool n"
  "ns_store (on_chain f n) = ns_store n" "ns_pending_evidence (on_chain f n) = ns_pending_evidence n"
  "ns_miner_id (on_chain f n) = ns_miner_id n" "ns_signing_key (on_chain f n) = ns_signing_key n"
  "ns_pending_attestations (on_chain f n) = ns_pending_attestations n" "ns_banned_peers (on_chain f n) = ns_banned_peers n"
  by (simp_all add: on_chain_def)

lemmas supply_defs = held_def issued_def burned_def stores_wf_def

section \<open>The steps and the coins\<close>

lemma process_evidence_law:
  assumes "refiners_wf (sp_refiners p)" and "custody (sp_refiners p) + sp_total_burned p \<le> U64_MAX"
    and "sp_slashed p \<le> sp_total_burned p"
    and q_def: "q = process_evidence X h e p"
  shows "refiners_wf (sp_refiners q) \<and>
    custody (sp_refiners q) + sp_total_burned q = custody (sp_refiners p) + sp_total_burned p \<and>
    sp_slashed q + sp_total_burned p = sp_total_burned q + sp_slashed p"
proof (cases "(object_id_to_hex X (ev_producer e), ev_height e) \<in> set (sp_keys p) \<or> \<not> verify_slash_evidence X e")
  case True
  then show ?thesis using assms(1) by (auto simp: q_def process_evidence_def Let_def)
next
  case False
  obtain r rs where run: "slash_refiner (ev_producer e) h (sp_refiners p) = (r, rs)" by (metis surj_pair)
  have cust: "custody (sp_refiners p) = custody rs + (case r of Inl _ \<Rightarrow> 0 | Inr burn \<Rightarrow> burn)" and wf: "refiners_wf rs"
    using slash_law(1,2) [OF assms(1) run] by blast+
  show ?thesis
  proof (cases r)
    case (Inl m)
    then show ?thesis using False run cust wf by (simp add: q_def process_evidence_def Let_def)
  next
    case (Inr d)
    have "sp_total_burned p + d \<le> U64_MAX" "sp_slashed p + d \<le> U64_MAX" using assms(2,3) cust Inr by simp_all
    then show ?thesis using False run cust wf Inr
      by (simp add: q_def process_evidence_def Let_def sat_add64_exact)
  qed
qed

lemma process_evidence_fold:
  assumes "refiners_wf (sp_refiners p)" and "custody (sp_refiners p) + sp_total_burned p \<le> U64_MAX"
    and "sp_slashed p \<le> sp_total_burned p"
  shows "refiners_wf (sp_refiners (fold (process_evidence X h) es p)) \<and>
    custody (sp_refiners (fold (process_evidence X h) es p)) + sp_total_burned (fold (process_evidence X h) es p)
      = custody (sp_refiners p) + sp_total_burned p \<and>
    sp_slashed (fold (process_evidence X h) es p) + sp_total_burned p =
      sp_total_burned (fold (process_evidence X h) es p) + sp_slashed p"
  using assms
proof (induction es arbitrary: p)
  case (Cons e es)
  note one = process_evidence_law [OF Cons.prems refl, of X h e]
  have "sp_slashed (process_evidence X h e p) \<le> sp_total_burned (process_evidence X h e p)"
    using one Cons.prems(3) by linarith
  with Cons.IH [of "process_evidence X h e p"] one Cons.prems show ?case by simp
qed simp

lemma apply_slashing_law:
  assumes "stores_wf n" and "custody (ns_refiners n) + burned n \<le> U64_MAX"
    and "apply_slashing X b n = (d, n')"
  shows "stores_wf n' \<and> ns_accounts n' = ns_accounts n \<and> held n = held n' + d \<and> burned n' = burned n + d \<and>
    issued n' = issued n"
proof -
  let ?p = "\<lparr> sp_keys = [], sp_slashed = 0, sp_total_burned = cs_total_burned (ns_chain n), sp_refiners = ns_refiners n \<rparr>"
  note law = process_evidence_fold [of ?p X "bh_height (blk_header b)" "blk_slash_evidence b"]
  show ?thesis
    using law assms by (auto simp: apply_slashing_def Let_def supply_defs)
qed

lemma detect_double_sign_frame:
  "ns_accounts (snd (detect_double_sign X b n)) = ns_accounts n"
  "ns_refiners (snd (detect_double_sign X b n)) = ns_refiners n"
  "ns_mempool (snd (detect_double_sign X b n)) = ns_mempool n"
  "ns_store (snd (detect_double_sign X b n)) = ns_store n"
  "ns_pending_evidence (snd (detect_double_sign X b n)) = ns_pending_evidence n"
  by (simp_all add: detect_double_sign_def Let_def split: option.splits prod.splits)

lemma detect_double_sign_chain:
  "\<exists>m. ns_chain (snd (detect_double_sign X b n)) = (ns_chain n)\<lparr>cs_producer_signatures := m\<rparr>"
proof -
  have "\<exists>m. ns_chain n = (ns_chain n)\<lparr>cs_producer_signatures := m\<rparr>"
    by (intro exI [of _ "cs_producer_signatures (ns_chain n)"]) simp
  then show ?thesis by (auto simp: detect_double_sign_def Let_def split: option.splits prod.splits)
qed

text \<open>A payment into an account that the supply bound allows.\<close>

lemma pay_credits_law:
  assumes "accounts_wf (ns_accounts n)" and "total_balance (ns_accounts n) + planned_total p \<le> U64_MAX"
  shows "\<exists>a. pay_credits p n = (Inr (), n\<lparr>ns_accounts := a\<rparr>) \<and> accounts_wf a \<and>
    total_balance a = total_balance (ns_accounts n) + planned_total p"
  using pay_planned_credits_ok [OF assms] ensure_creditable_ok [OF assms(2)]
  by (auto simp: pay_credits_def)

lemma credit_producer_law:
  assumes "accounts_wf (ns_accounts n)" and "total_balance (ns_accounts n) + amount \<le> U64_MAX"
  shows "\<exists>a. credit_producer i amount n = (Inr (), n\<lparr>ns_accounts := a\<rparr>) \<and> accounts_wf a \<and>
    total_balance a = total_balance (ns_accounts n) + amount"
proof -
  have z: "planned_total [] = 0" by (simp add: planned_total_def hm_total_def)
  obtain q where q: "add_planned_credit i amount [] = (Inr (), q)" "planned_total q = amount"
    using add_planned_credit_ok [of "[]" amount i] assms(2) z by auto
  then show ?thesis using pay_credits_law [of n q] assms by (simp add: credit_producer_def)
qed

lemma pay_reward_law:
  assumes "accounts_wf (ns_accounts n)" and "total_balance (ns_accounts n) + rd_miner_share rd \<le> U64_MAX"
    and "rd_miner_share rd = 0 \<or> object_id_hash (bh_producer h) \<noteq> hash_zero"
  shows "\<exists>a. pay_reward h rd n = (Inr (), n\<lparr>ns_accounts := a\<rparr>) \<and> accounts_wf a \<and>
    total_balance a = total_balance (ns_accounts n) + rd_miner_share rd"
proof (cases "rd_miner_share rd = 0")
  case True
  have "total_balance (ns_accounts n) + planned_total [] \<le> U64_MAX" "planned_total [] = 0"
    using assms(2) True by (simp_all add: planned_total_def hm_total_def)
  with True pay_credits_law [of n "[]"] assms(1) show ?thesis by (simp add: pay_reward_def)
next
  case False
  then have "\<not> hash_is_zero (object_id_hash (bh_producer h))"
    using assms(3) by (simp add: hash_is_zero_def hash_zero_def)
  with False credit_producer_law [OF assms(1,2), of "bh_producer h"] show ?thesis by (simp add: pay_reward_def)
qed

text \<open>The transactions of a block: the totals are exactly what leaves the stores.\<close>

definition totals_ok :: "block_totals \<Rightarrow> bool" where
  "totals_ok t \<longleftrightarrow> bt_signal t = bt_fees t \<and> bt_count t \<le> bt_fees t"

lemma add_to_totals_law:
  assumes "totals_ok t" and "bt_fees t + ar_fee_charged r + bt_assay t + ar_assay_burned r \<le> U64_MAX"
    and "ar_fee_charged r = tx_fee tx" and "1 \<le> tx_fee tx"
  shows "\<exists>t'. add_to_totals tx r t = Inr t' \<and> totals_ok t' \<and> bt_fees t' = bt_fees t + tx_fee tx \<and>
    bt_assay t' = bt_assay t + ar_assay_burned r \<and> bt_count t' = bt_count t + 1"
proof -
  have f: "checked_add64 (bt_fees t) (ar_fee_charged r) = Some (bt_fees t + tx_fee tx)"
    "checked_add64 (bt_assay t) (ar_assay_burned r) = Some (bt_assay t + ar_assay_burned r)"
    "checked_add64 (bt_signal t) (tx_fee tx) = Some (bt_fees t + tx_fee tx)"
    "checked_add64 (bt_count t) 1 = Some (bt_count t + 1)"
    using assms by (simp_all add: totals_ok_def checked_add64_def)
  have "add_to_totals tx r t = Inr \<lparr> bt_fees = bt_fees t + tx_fee tx, bt_assay = bt_assay t + ar_assay_burned r,
      bt_signal = bt_fees t + tx_fee tx, bt_count = bt_count t + 1 \<rparr>"
    by (simp only: add_to_totals_def f ok_or.simps and_then.simps)
  then show ?thesis using assms(1,4) by (simp add: totals_ok_def)
qed

lemma successful_fee_positive:
  assumes "ledger_ok st" and "apply_transaction X tx h ts i c st = (r, st')" and "ar_success r"
  shows "1 \<le> tx_fee tx"
proof (rule ccontr)
  assume "\<not> 1 \<le> tx_fee tx"
  then have "\<not> executable_tx X tx c st" by (simp add: executable_tx_def MIN_FEE_def)
  from apply_transaction_not_executable [OF this, of h ts i] assms(2,3) show False by auto
qed

lemma execute_transactions_law:
  assumes "stores_wf n" and "totals_ok t" and "held n + bt_fees t + bt_assay t \<le> U64_MAX"
  shows "\<exists>t' a rs m. execute_transactions X h txs t n =
        (Inr t', n\<lparr>ns_accounts := a, ns_refiners := rs, ns_mempool := m\<rparr>) \<and>
      stores_wf (n\<lparr>ns_accounts := a, ns_refiners := rs, ns_mempool := m\<rparr>) \<and> totals_ok t' \<and>
      total_balance a + custody rs + bt_fees t' + bt_assay t' = held n + bt_fees t + bt_assay t"
  using assms
proof (induction txs arbitrary: t n)
  case Nil
  then show ?case
    by (intro exI [of _ t] exI [of _ "ns_accounts n"] exI [of _ "ns_refiners n"] exI [of _ "ns_mempool n"])
      (simp add: held_def)
next
  case (Cons tx txs)
  let ?st = "(ns_accounts n, ns_refiners n)"
  have ok: "ledger_ok ?st" using Cons.prems by (simp add: ledger_ok_def stores_wf_def coins_def held_def)
  obtain r a rs where run: "apply_transaction X tx (bh_height h) (bh_timestamp h) (cs_total_issued (ns_chain n))
      MAINNET_CHAIN_ID ?st = (r, (a, rs))" by (metis surj_pair)
  have law: "handler_law (tx_sender tx) (tx_fee tx) ?st (r, (a, rs))"
    using apply_transaction_law [OF ok, of tx X] run by metis
  have ok': "ledger_ok (a, rs)" using ok run by (rule apply_transaction_ledger_ok)
  let ?n1 = "n\<lparr>ns_accounts := a, ns_refiners := rs,
      ns_mempool := snd (remove_transaction (tx_id tx) (ns_mempool n))\<rparr>"
  have wf1: "stores_wf ?n1" using ok' by (simp add: stores_wf_def ledger_ok_def)
  have "\<exists>t2. (if ar_success r then add_to_totals tx r t else Inr t) = Inr t2 \<and> totals_ok t2 \<and>
      held ?n1 + bt_fees t2 + bt_assay t2 = held n + bt_fees t + bt_assay t"
  proof (cases "ar_success r")
    case False
    then have "(a, rs) = ?st" using law by (simp add: handler_law_def)
    with False Cons.prems show ?thesis by (simp add: held_def)
  next
    case True
    then have c: "coins ?st = coins (a, rs) + ar_fee_charged r + ar_assay_burned r" "ar_fee_charged r = tx_fee tx"
      using law by (simp_all add: handler_law_def)
    have "1 \<le> tx_fee tx" using ok run True by (rule successful_fee_positive)
    moreover have "bt_fees t + ar_fee_charged r + bt_assay t + ar_assay_burned r \<le> U64_MAX"
      using Cons.prems(3) c by (simp add: coins_def held_def)
    ultimately obtain t2 where "add_to_totals tx r t = Inr t2" "totals_ok t2" "bt_fees t2 = bt_fees t + tx_fee tx"
      "bt_assay t2 = bt_assay t + ar_assay_burned r"
      using add_to_totals_law [OF Cons.prems(2) _ c(2)] by blast
    with True c show ?thesis by (simp add: held_def coins_def)
  qed
  then obtain t2 where t2: "(if ar_success r then add_to_totals tx r t else Inr t) = Inr t2" "totals_ok t2"
    "held ?n1 + bt_fees t2 + bt_assay t2 = held n + bt_fees t + bt_assay t" by blast
  have step: "execute_transactions X h (tx # txs) t n = execute_transactions X h txs t2 ?n1"
    using run t2(1) by (simp add: Let_def)
  have "held ?n1 + bt_fees t2 + bt_assay t2 \<le> U64_MAX" using t2(3) Cons.prems(3) by simp
  from Cons.IH [OF wf1 t2(2) this] show ?case unfolding step t2(3) by simp
qed

lemma split_fees_law:
  "fst (split_fees kind m t) + snd (split_fees kind m t) = bt_fees t"
  "kind \<noteq> Refined \<Longrightarrow> snd (split_fees kind m t) = 0"
  by (auto simp: split_fees_def compute_por_fee_split_def Let_def sat_sub_def split: option.splits prod.splits)

lemma expire_mempool_frame [simp]:
  "ns_accounts (expire_mempool h now n) = ns_accounts n" "ns_refiners (expire_mempool h now n) = ns_refiners n"
  "ns_chain (expire_mempool h now n) = ns_chain n" "ns_store (expire_mempool h now n) = ns_store n"
  "ns_pending_evidence (expire_mempool h now n) = ns_pending_evidence n"
  by (simp_all add: expire_mempool_def)

lemma pay_refiner_income_law:
  assumes "accounts_wf (ns_accounts n)" and "total_balance (ns_accounts n) + income \<le> U64_MAX"
    and "income = 0 \<or> kind = Refined \<and> object_id_hash (bh_producer h) \<noteq> hash_zero"
  shows "\<exists>a. pay_refiner_income kind h income n = (Inr (), n\<lparr>ns_accounts := a\<rparr>) \<and> accounts_wf a \<and>
    total_balance a = total_balance (ns_accounts n) + income"
proof (cases "income = 0")
  case True
  then show ?thesis using assms(1) by (intro exI [of _ "ns_accounts n"]) (simp add: pay_refiner_income_def)
next
  case False
  then have "kind = Refined" "\<not> hash_is_zero (object_id_hash (bh_producer h))"
    using assms(3) by (simp_all add: hash_is_zero_def hash_zero_def)
  with False credit_producer_law [OF assms(1,2), of "bh_producer h"] show ?thesis
    by (simp add: pay_refiner_income_def)
qed

lemma burn_on_chain_law:
  "burned n + amount \<le> U64_MAX \<Longrightarrow>
     burn_on_chain amount err n = (Inr (), on_chain (\<lambda>c. c\<lparr>cs_total_burned := burned n + amount\<rparr>) n)"
  by (simp add: burn_on_chain_def burned_def checked_add64_def)

text \<open>The chain state after a block, field by field.\<close>

definition advanced :: "block_header \<Rightarrow> hash \<Rightarrow> nat \<Rightarrow> nat \<Rightarrow> nat \<Rightarrow> chain_state \<Rightarrow> chain_state" where
  "advanced h block_hash new_issued new_burned fee c =
     c\<lparr>cs_total_issued := new_issued, cs_total_burned := new_burned, cs_current_height := bh_height h,
       cs_current_difficulty := bh_difficulty h, cs_latest_block_hash := block_hash,
       cs_block_timestamps := prune_block_timestamps (cs_block_timestamps c @ [bh_timestamp h]),
       cs_suggested_fee := fee\<rparr>"

lemma advance_chain_law:
  assumes "issued n + rd_gross_reward rd \<le> U64_MAX" and "burned n + rd_mine_assay rd \<le> U64_MAX"
  shows "\<exists>fee. advance_chain h g rd t n =
    (Inr (), on_chain (advanced h g (issued n + rd_gross_reward rd) (burned n + rd_mine_assay rd) fee) n)"
  using assms burn_on_chain_law [of "on_chain (\<lambda>c. c\<lparr>cs_total_issued := issued n + rd_gross_reward rd\<rparr>) n" "rd_mine_assay rd"]
  by (intro exI [of _ "compute_suggested_fee (bt_signal t) (bt_count t) (cs_suggested_fee (ns_chain n))"])
    (simp add: advance_chain_def Let_def sat_add64_exact issued_def burned_def on_chain_def advanced_def)

lemma mature_unbonds_law:
  assumes "stores_wf n" and "held n \<le> U64_MAX"
  shows "\<exists>a rs. mature_unbonds n = (Inr (), n\<lparr>ns_refiners := rs, ns_accounts := a\<rparr>) \<and>
    accounts_wf a \<and> refiners_wf rs \<and> total_balance a + custody rs = held n"
proof -
  let ?height = "cs_current_height (ns_chain n)"
  obtain ms rs where pm: "process_matured_unbonds ?height (ns_refiners n) = (ms, rs)" by (metis surj_pair)
  have wf: "refiners_wf (ns_refiners n)" "accounts_wf (ns_accounts n)" using assms(1) by (simp_all add: stores_wf_def)
  note law = process_matured_law [OF wf(1) pm]
  have sum: "custody (ns_refiners n) = custody rs + sum_list (map snd ms)" by (rule law(2))
  have fit: "total_balance (ns_accounts n) + sum_list (map snd ms) \<le> U64_MAX"
    using sum assms(2) by (simp add: held_def)
  have z: "planned_total [] = 0" by (simp add: planned_total_def hm_total_def)
  obtain q where q: "fold_while_ok (\<lambda>(i, n). add_planned_credit i n) ms [] = (Inr (), q)"
    "planned_total q = sum_list (map snd ms)"
    using fold_planned_credits_ok [of "[]" ms] fit z by auto
  have c: "ensure_planned_credits_creditable (ns_accounts n) q = Inr ()"
    using fit q(2) by (intro ensure_creditable_ok) simp
  have "planned_total ms = sum_list (map snd ms)" by (simp add: planned_total_def hm_total_def)
  then obtain a where a: "pay_planned_credits ms (ns_accounts n) = (Inr (), a)" "accounts_wf a"
    "total_balance a = total_balance (ns_accounts n) + sum_list (map snd ms)"
    using pay_planned_credits_ok [OF wf(2), of ms] fit by auto
  have "mature_unbonds n = (Inr (), n\<lparr>ns_refiners := rs, ns_accounts := a\<rparr>)"
    using q(1) c pm a(1) law(1) by (simp add: mature_unbonds_def Let_def)
  then show ?thesis by (intro exI [of _ a] exI [of _ rs]) (simp add: held_def a law sum)
qed

lemma rotate_refiners_law:
  assumes "refiners_wf (ns_refiners n)"
  shows "\<exists>rs. rotate_refiners n = n\<lparr>ns_refiners := rs\<rparr> \<and> refiners_wf rs \<and> custody rs = custody (ns_refiners n)"
proof -
  obtain activated rs where act: "activate_matured_refiners (cs_current_height (ns_chain n)) (ns_refiners n) = (activated, rs)"
    by (metis surj_pair)
  note law = activate_matured_law [OF assms act]
  obtain x rs' where rr: "rerank_refiners (last_timestamp n) (cs_total_issued (ns_chain n)) rs = (x, rs')"
    by (metis surj_pair)
  note law' = rerank_law [OF conjunct1 [OF law] rr]
  show ?thesis
    using law law' act rr
    by (intro exI [of _ "ns_refiners (rotate_refiners n)"]) (simp add: rotate_refiners_def Let_def last_timestamp_def)
qed

lemma update_state_root_cases:
  obtains e where "update_state_root X n = (Inl e, n)"
  | root where "update_state_root X n = (Inr (), on_chain (\<lambda>c. c\<lparr>cs_state_root := root\<rparr>) n)"
proof -
  let ?root = "and_then (map_err opolys_error_to_string (accounts_state_root X (ns_accounts n))) (\<lambda>ar.
      and_then (map_err opolys_error_to_string (refiners_state_root X (ns_refiners n))) (\<lambda>rr.
      Inr (chain_state_root X ar rr (cs_total_issued (ns_chain n)) (cs_total_burned (ns_chain n)) (cs_current_height (ns_chain n)))))"
  have "update_state_root X n = (case ?root of Inl e \<Rightarrow> (Inl e, n)
      | Inr root \<Rightarrow> (Inr (), on_chain (\<lambda>c. c\<lparr>cs_state_root := root\<rparr>) n))"
    by (simp only: update_state_root_def Let_def)
  then show thesis by (cases ?root) (auto intro: that)
qed

section \<open>A committed block\<close>

definition total_destroyed :: "block_outcome \<Rightarrow> nat" where
  "total_destroyed o1 = bo_slashed o1 + bo_fees_burned o1 + bt_assay (bo_totals o1) + rd_mine_assay (bo_reward o1)"

lemma commit_block_run:
  fixes X :: "'x storage_externs_scheme" and kind :: block_production_kind and now_secs bonded_stake :: nat
    and b :: block and n0 :: node_state
  defines "h \<equiv> blk_header b" and "rd \<equiv> block_reward_distribution X kind (blk_header b) bonded_stake (ns_chain n0)"
  assumes ok: "supply_ok n0" and rd: "rd_miner_share rd + rd_mine_assay rd = rd_gross_reward rd"
    and bound: "issued n0 + rd_gross_reward rd \<le> U64_MAX"
    and producer: "object_id_hash (bh_producer h) \<noteq> hash_zero"
  shows "\<exists>n9 o1 ev m fee.
      commit_block X now_secs bonded_stake kind b n0 =
        run_then (update_state_root X (rotate_refiners n9)) (\<lambda>_ n10.
          (Inr (compute_block_hash X h), finish_block X b kind (compute_block_hash X h) o1 ev n10)) \<and>
      stores_wf n9 \<and> held n9 + burned n9 = issued n9 \<and> ns_store n9 = ns_store n0 \<and>
      ns_pending_evidence n9 = ns_pending_evidence n0 \<and>
      bo_reward o1 = rd \<and> burned n9 = burned n0 + total_destroyed o1 \<and> issued n9 = issued n0 + rd_gross_reward rd \<and>
      ev = fst (detect_double_sign X b (snd (apply_slashing X b n0))) \<and>
      ns_chain n9 = advanced h (compute_block_hash X h) (issued n9) (burned n9) fee
        ((ns_chain n0)\<lparr>cs_producer_signatures := m\<rparr>) \<and>
      m = cs_producer_signatures (ns_chain (snd (detect_double_sign X b (snd (apply_slashing X b n0)))))"
proof -
  have wf0: "stores_wf n0" "held n0 + burned n0 = issued n0" using ok by (simp_all add: supply_ok_def)
  obtain slashed n1 where s: "apply_slashing X b n0 = (slashed, n1)" by (metis surj_pair)
  have "custody (ns_refiners n0) + burned n0 \<le> U64_MAX" using wf0 bound by (simp add: held_def)
  note l1 = apply_slashing_law [OF wf0(1) this s]
  define n2 where "n2 = snd (detect_double_sign X b n1)"
  have f2: "ns_accounts n2 = ns_accounts n1" "ns_refiners n2 = ns_refiners n1" "ns_store n2 = ns_store n1"
    "ns_pending_evidence n2 = ns_pending_evidence n1"
    by (simp_all add: n2_def detect_double_sign_frame)
  obtain m where m: "ns_chain n2 = (ns_chain n1)\<lparr>cs_producer_signatures := m\<rparr>"
    using detect_double_sign_chain [of X b n1] by (auto simp: n2_def)
  have n1: "n1 = (on_chain (\<lambda>c. c\<lparr>cs_total_burned := burned n1\<rparr>) n0)\<lparr>ns_refiners := ns_refiners n1\<rparr>"
    using s by (auto simp: apply_slashing_def Let_def burned_def on_chain_def)
  have c1: "ns_chain n1 = (ns_chain n0)\<lparr>cs_total_burned := burned n1\<rparr>" "ns_store n1 = ns_store n0"
    "ns_pending_evidence n1 = ns_pending_evidence n0"
    by (subst n1, simp)+
  have rd2: "block_reward_distribution X kind h bonded_stake (ns_chain n2) = rd"
    by (simp add: rd_def h_def block_reward_distribution_def m c1 Let_def)
  have b2: "burned n2 = burned n0 + slashed" "issued n2 = issued n0" "stores_wf n2" "held n2 + slashed = held n0"
    using l1 f2 m wf0(1) by (simp_all add: burned_def issued_def stores_wf_def held_def)
  have share: "rd_miner_share rd \<le> rd_gross_reward rd" "rd_mine_assay rd \<le> rd_gross_reward rd" using rd by simp_all
  have "total_balance (ns_accounts n2) + rd_miner_share rd \<le> U64_MAX"
    using b2 wf0(2) bound share by (simp add: held_def)
  then obtain a3 where p3: "pay_reward h rd n2 = (Inr (), n2\<lparr>ns_accounts := a3\<rparr>)" "accounts_wf a3"
    "total_balance a3 = total_balance (ns_accounts n2) + rd_miner_share rd"
    using pay_reward_law [of n2 rd h] producer b2(3) by (auto simp: stores_wf_def)
  let ?n3 = "n2\<lparr>ns_accounts := a3\<rparr>" and ?t0 = "\<lparr> bt_fees = 0, bt_assay = 0, bt_signal = 0, bt_count = 0 \<rparr>"
  have n3: "stores_wf ?n3" "held ?n3 = held n2 + rd_miner_share rd"
    using b2(3) p3 by (simp_all add: stores_wf_def held_def)
  have "held ?n3 + bt_fees ?t0 + bt_assay ?t0 \<le> U64_MAX" using n3(2) b2 wf0(2) bound share by simp
  moreover have "totals_ok ?t0" by (simp add: totals_ok_def)
  ultimately obtain t a4 rs4 m4 where p4: "execute_transactions X h (blk_transactions b) ?t0 ?n3 =
      (Inr t, ?n3\<lparr>ns_accounts := a4, ns_refiners := rs4, ns_mempool := m4\<rparr>)"
    "stores_wf (?n3\<lparr>ns_accounts := a4, ns_refiners := rs4, ns_mempool := m4\<rparr>)"
    "total_balance a4 + custody rs4 + bt_fees t + bt_assay t = held ?n3"
    using execute_transactions_law [OF n3(1), of ?t0 X h "blk_transactions b"] by auto
  define n4 where "n4 = expire_mempool h now_secs (?n3\<lparr>ns_accounts := a4, ns_refiners := rs4, ns_mempool := m4\<rparr>)"
  have n4: "ns_accounts n4 = a4" "ns_refiners n4 = rs4" "ns_chain n4 = ns_chain n2" "ns_store n4 = ns_store n2"
    "ns_pending_evidence n4 = ns_pending_evidence n2"
    by (simp_all add: n4_def)
  let ?market = "por_fee_market kind n0"
  define fb where "fb = fst (split_fees kind ?market t)"
  define inc where "inc = snd (split_fees kind ?market t)"
  have fees: "fb + inc = bt_fees t" "kind \<noteq> Refined \<Longrightarrow> inc = 0"
    using split_fees_law by (simp_all add: fb_def inc_def)
  have inc: "inc = 0 \<or> kind = Refined \<and> object_id_hash (bh_producer h) \<noteq> hash_zero"
    using fees(2) producer by blast
  have wf4: "accounts_wf a4" "refiners_wf rs4" using p4(2) by (simp_all add: stores_wf_def)
  have "total_balance (ns_accounts n4) + inc \<le> U64_MAX"
    using p4(3) n3(2) b2 wf0(2) bound share fees(1) n4(1) by simp
  then obtain a5 where p5: "pay_refiner_income kind h inc n4 = (Inr (), n4\<lparr>ns_accounts := a5\<rparr>)" "accounts_wf a5"
    "total_balance a5 = total_balance a4 + inc"
    using pay_refiner_income_law [of n4 inc kind h] wf4 inc n4(1) by auto
  let ?n5 = "n4\<lparr>ns_accounts := a5\<rparr>"
  have n5: "burned ?n5 = burned n0 + slashed" "issued ?n5 = issued n0"
    using b2 n4 by (simp_all add: burned_def issued_def)
  have held5: "total_balance a5 + custody rs4 + fb + bt_assay t + burned ?n5 = issued n0 + rd_miner_share rd"
    using p5(3) fees(1) p4(3) n3(2) b2 wf0(2) n5 by simp
  let ?n6 = "on_chain (\<lambda>c. c\<lparr>cs_total_burned := burned ?n5 + fb\<rparr>) ?n5"
  have p6: "burn_on_chain fb e1 ?n5 = (Inr (), ?n6)" for e1
    using held5 bound share by (intro burn_on_chain_law) simp
  have b6: "burned ?n6 = burned ?n5 + fb" by (simp add: burned_def)
  let ?n7 = "on_chain (\<lambda>c. c\<lparr>cs_total_burned := burned ?n6 + bt_assay t\<rparr>) ?n6"
  have p7: "burn_on_chain (bt_assay t) e1 ?n6 = (Inr (), ?n7)" for e1
    using held5 bound share b6 by (intro burn_on_chain_law) simp
  have b7: "burned ?n7 = burned ?n5 + fb + bt_assay t" "issued ?n7 = issued n0"
    using b6 n5 by (simp_all add: burned_def issued_def)
  obtain fee where p8: "advance_chain h (compute_block_hash X h) rd t ?n7 =
     (Inr (), on_chain (advanced h (compute_block_hash X h) (issued ?n7 + rd_gross_reward rd) (burned ?n7 + rd_mine_assay rd) fee) ?n7)"
    using advance_chain_law [of ?n7 rd h "compute_block_hash X h" t] held5 bound rd b7 by auto
  define n8 where "n8 = on_chain (advanced h (compute_block_hash X h) (issued ?n7 + rd_gross_reward rd) (burned ?n7 + rd_mine_assay rd) fee) ?n7"
  have n8: "ns_accounts n8 = a5" "ns_refiners n8 = rs4" "issued n8 = issued n0 + rd_gross_reward rd"
    "burned n8 = burned ?n5 + fb + bt_assay t + rd_mine_assay rd" "ns_store n8 = ns_store n0"
    "ns_pending_evidence n8 = ns_pending_evidence n0"
    using b7 n4 f2 c1 by (simp_all add: n8_def issued_def burned_def advanced_def)
  have wf8: "stores_wf n8" using p5(2) wf4(2) n8 by (simp add: stores_wf_def)
  have held8: "held n8 + burned n8 = issued n8" using held5 n8 rd by (simp add: held_def)
  have "held n8 \<le> U64_MAX" using held8 n8(3) bound by simp
  then obtain a9 rs9 where p9: "mature_unbonds n8 = (Inr (), n8\<lparr>ns_refiners := rs9, ns_accounts := a9\<rparr>)"
    "accounts_wf a9" "refiners_wf rs9" "total_balance a9 + custody rs9 = held n8"
    using mature_unbonds_law [OF wf8] by blast
  let ?n9 = "n8\<lparr>ns_refiners := rs9, ns_accounts := a9\<rparr>"
  let ?o = "\<lparr> bo_vein_yield = (case block_pow_hash_value X kind h of None \<Rightarrow> 0 | Some v \<Rightarrow> compute_vein_yield (bh_difficulty h) v),
      bo_reward = rd, bo_totals = t, bo_fees_burned = fb, bo_refiner_income = inc, bo_slashed = slashed \<rparr>"
  have run: "commit_block X now_secs bonded_stake kind b n0 =
        run_then (update_state_root X (rotate_refiners ?n9)) (\<lambda>_ n10.
          (Inr (compute_block_hash X h), finish_block X b kind (compute_block_hash X h) ?o
             (fst (detect_double_sign X b (snd (apply_slashing X b n0)))) n10))"
    unfolding commit_block_def Let_def s fst_conv snd_conv n2_def [symmetric] h_def [symmetric] rd2 p3(1) run_then.simps
      p4(1) n4_def [symmetric] fb_def [symmetric] inc_def [symmetric] p5(1) p6 p7 p8 n8_def [symmetric] p9(1) by simp
  have d: "burned ?n9 = burned n0 + total_destroyed ?o" "issued ?n9 = issued n0 + rd_gross_reward rd"
    using n8 n5 by (simp_all add: total_destroyed_def burned_def issued_def)
  have chain: "ns_chain ?n9 = advanced h (compute_block_hash X h) (issued ?n9) (burned ?n9) fee
        ((ns_chain n0)\<lparr>cs_producer_signatures := m\<rparr>)"
  proof -
    obtain v where c: "ns_chain n1 = (ns_chain n0)\<lparr>cs_total_burned := v\<rparr>" using c1(1) by blast
    have "ns_chain n8 = advanced h (compute_block_hash X h) (issued n8) (burned n8) fee (ns_chain n2)"
      by (simp add: n8_def advanced_def issued_def burned_def n4(3))
    then show ?thesis by (simp add: m c advanced_def issued_def burned_def)
  qed
  have last: "stores_wf ?n9" "held ?n9 + burned ?n9 = issued ?n9" "ns_store ?n9 = ns_store n0"
    "ns_pending_evidence ?n9 = ns_pending_evidence n0"
    using p9 held8 n8(5,6) by (simp_all add: stores_wf_def held_def burned_def issued_def)
  have m': "m = cs_producer_signatures (ns_chain (snd (detect_double_sign X b (snd (apply_slashing X b n0)))))"
    using m by (simp add: s n2_def)
  show ?thesis
    by (intro exI [of _ ?n9] exI [of _ ?o] exI [of _ "fst (detect_double_sign X b (snd (apply_slashing X b n0)))"]
        exI [of _ m] exI [of _ fee] conjI run last d chain m' refl) simp
qed

end
