(* ===== verification/Node_Chain.thy ===== *)
theory Node_Chain
  imports Node_Laws Node_Ops
begin

text \<open>
  Applying a block, as a whole: what each check leaves of the state, what an accepted block
  establishes, and the chains a node can reach.
\<close>

section \<open>Attestations\<close>

text \<open>
  While the attestations of a block at \<open>height\<close> are counted: the refiner set keeps its coins and its
  well-formedness, and the finality index gains only keys below the block.
\<close>

definition index_ok :: "(nat \<times> hash, object_id list) hash_map \<Rightarrow> bool" where
  "index_ok m \<longleftrightarrow> hm_wf m \<and> (\<forall>k ids. hm_get m k = Some ids \<longrightarrow> distinct ids)"

definition counting_ok :: "nat \<Rightarrow> nat \<Rightarrow> (nat \<times> hash) set \<Rightarrow> attestation_progress \<Rightarrow> bool" where
  "counting_ok height coins_held old p \<longleftrightarrow>
     refiners_wf (ap_refiners p) \<and> custody (ap_refiners p) = coins_held \<and> index_ok (ap_finality p) \<and>
     (\<forall>k ids. hm_get (ap_finality p) k = Some ids \<longrightarrow> k \<in> old \<or> fst k < height) \<and>
     (\<forall>k \<in> set (ap_touched p). fst k < height)"

lemma distinct_hs_insert: "distinct s \<Longrightarrow> distinct (hs_insert x s)"
  by (simp add: hs_insert_def)

lemma set_hs_insert [simp]: "set (hs_insert x s) = insert x (set s)"
  by (auto simp: hs_insert_def)

lemma index_ok_insert:
  "index_ok m \<Longrightarrow> index_ok (hm_put k (hs_insert i (case hm_get m k of None \<Rightarrow> [] | Some l \<Rightarrow> l)) m)"
  by (auto simp: index_ok_def hm_get_put intro: wf_intros distinct_hs_insert split: option.splits if_splits)

text \<open>One counted attestation.\<close>

definition counted :: "nat \<times> hash \<Rightarrow> object_id \<Rightarrow> refiner_set \<Rightarrow> attestation_progress \<Rightarrow> attestation_progress" where
  "counted k i rs p =
     p\<lparr>ap_finality := hm_put k (hs_insert i (case hm_get (ap_finality p) k of None \<Rightarrow> [] | Some l \<Rightarrow> l)) (ap_finality p),
       ap_touched := hs_insert k (ap_touched p), ap_refiners := rs\<rparr>"

lemma include_attestation_shape:
  assumes "include_attestation X store height a p = (r, q)"
  shows "\<exists>keys. q = p\<lparr>ap_keys := keys\<rparr> \<or>
    (\<exists>g s rs. at_height a < height \<and> record_correct_attestation (at_refiner a) (ap_refiners p) = (s, rs) \<and>
       q = counted (at_height a, g) (at_refiner a) rs (p\<lparr>ap_keys := keys\<rparr>))"
proof (cases "height \<le> at_height a \<or> (at_height a, object_id_to_hex X (at_refiner a)) \<in> set (ap_keys p)")
  case True
  then have "q = p\<lparr>ap_keys := ap_keys p\<rparr>" using assms by (auto simp: include_attestation_def Let_def split: if_splits)
  then show ?thesis by blast
next
  case False
  let ?p1 = "p\<lparr>ap_keys := (at_height a, object_id_to_hex X (at_refiner a)) # ap_keys p\<rparr>"
  have h: "at_height a < height" using False by simp
  have "q = ?p1 \<or> (\<exists>g s rs. record_correct_attestation (at_refiner a) (ap_refiners p) = (s, rs) \<and>
      q = counted (at_height a, g) (at_refiner a) rs ?p1)"
  proof (cases "\<exists>db b v. store = Some db \<and> load_block X (at_height a) db = Inr (Some b) \<and> is_refined (blk_header b) \<and>
      verify_block_attestation_against_refiners X a (compute_block_hash X (blk_header b)) (ap_refiners p) = Inr v")
    case True
    then obtain db b v where t: "store = Some db" "load_block X (at_height a) db = Inr (Some b)" "is_refined (blk_header b)"
      "verify_block_attestation_against_refiners X a (compute_block_hash X (blk_header b)) (ap_refiners p) = Inr v" by blast
    obtain s rs where rec: "record_correct_attestation (at_refiner a) (ap_refiners p) = (s, rs)" by (metis surj_pair)
    have "q = counted (at_height a, compute_block_hash X (blk_header b)) (at_refiner a) rs ?p1"
      using assms False t rec by (cases s) (simp_all add: include_attestation_def Let_def counted_def)
    with rec show ?thesis by blast
  next
    case no: False
    then have "q = ?p1" using assms False
      by (auto simp: include_attestation_def Let_def split: if_splits option.splits sum.splits)
    then show ?thesis by blast
  qed
  with h show ?thesis by blast
qed

lemma include_attestation_counting:
  assumes ok: "counting_ok height c old p" and run: "include_attestation X store height a p = (r, q)"
  shows "counting_ok height c old q"
proof -
  from include_attestation_shape [OF run] obtain keys where
    "q = p\<lparr>ap_keys := keys\<rparr> \<or>
     (\<exists>g s rs. at_height a < height \<and> record_correct_attestation (at_refiner a) (ap_refiners p) = (s, rs) \<and>
       q = counted (at_height a, g) (at_refiner a) rs (p\<lparr>ap_keys := keys\<rparr>))" by blast
  then show ?thesis
  proof (elim disjE exE conjE)
    assume "q = p\<lparr>ap_keys := keys\<rparr>"
    with ok show ?thesis by (simp add: counting_ok_def)
  next
    fix g s rs
    assume h: "at_height a < height" and rec: "record_correct_attestation (at_refiner a) (ap_refiners p) = (s, rs)"
      and q: "q = counted (at_height a, g) (at_refiner a) rs (p\<lparr>ap_keys := keys\<rparr>)"
    have "refiners_wf (ap_refiners p)" using ok by (simp add: counting_ok_def)
    then have "refiners_wf rs \<and> custody rs = custody (ap_refiners p)" using rec by (rule record_attestation_law)
    with ok h index_ok_insert [of "ap_finality p"] show ?thesis
      by (auto simp: counting_ok_def q counted_def hm_get_put split: if_splits)
  qed
qed

lemma hm_keys_subset: "fst ` set (hm_put k v m) \<subseteq> insert k (fst ` set m)"
  using arg_cong [OF hm_keys_put [of k v m], of set] by (auto split: if_splits)

lemma finality_weights_heights:
  assumes "\<forall>k \<in> set touched. fst k < height" and "(g, w) \<in> set (finality_weights index rs ts touched)"
  shows "g < height"
proof -
  have put: "fst ` set (hm_put h v m) \<subseteq> {..<height}"
    if "fst ` set m \<subseteq> {..<height}" "h < height" for h v and m :: "(nat, nat) hash_map"
    using hm_keys_subset [of h v m] that by blast
  have "fst ` set (finality_weights index rs ts touched) \<subseteq> {..<height}"
    unfolding finality_weights_def
    by (rule fold_invariant [where Q = "\<lambda>k. fst k < height"])
      (use assms(1) put in \<open>simp_all add: case_prod_unfold split: option.splits\<close>)
  with assms(2) show ?thesis by force
qed

text \<open>What counting the attestations of a block leaves of the node.\<close>

lemma apply_attestations_frame:
  assumes "apply_attestations X b n = (r, n1)"
  shows "ns_accounts n1 = ns_accounts n" "ns_mempool n1 = ns_mempool n" "ns_store n1 = ns_store n"
    "ns_pending_evidence n1 = ns_pending_evidence n" "ns_pending_attestations n1 = ns_pending_attestations n"
    "ns_miner_id n1 = ns_miner_id n" "ns_signing_key n1 = ns_signing_key n" "ns_banned_peers n1 = ns_banned_peers n"
    "ns_chain n1 = (ns_chain n)\<lparr>cs_finality_refiners := cs_finality_refiners (ns_chain n1),
       cs_finalized_height := cs_finalized_height (ns_chain n1)\<rparr>"
proof -
  obtain s p where fold: "fold_while_ok (include_attestation X (ns_store n) (bh_height (blk_header b))) (blk_attestations b)
      \<lparr> ap_keys = [], ap_touched = [], ap_finality = cs_finality_refiners (ns_chain n), ap_refiners = ns_refiners n \<rparr> = (s, p)"
    by (metis surj_pair)
  have "\<exists>idx f. n1 = (on_chain (\<lambda>c. c\<lparr>cs_finality_refiners := idx, cs_finalized_height := f\<rparr>) n)\<lparr>ns_refiners := ap_refiners p\<rparr>"
  proof (cases s)
    case (Inl e)
    then have "n1 = (on_chain (\<lambda>c. c\<lparr>cs_finality_refiners := ap_finality p\<rparr>) n)\<lparr>ns_refiners := ap_refiners p\<rparr>"
      using assms fold by (simp add: apply_attestations_def Let_def)
    then show ?thesis
      by (intro exI [of _ "ap_finality p"] exI [of _ "cs_finalized_height (ns_chain n)"]) (simp add: on_chain_def)
  next
    case (Inr u)
    define f where "f = finalized_height_from_attestation_weights (cs_finalized_height (ns_chain n))
      (finality_weights (ap_finality p) (ap_refiners p) (bh_timestamp (blk_header b)) (ap_touched p))
      (active_refiner_weight_milli_threshold (ns_refiners n) (bh_timestamp (blk_header b)))"
    have "n1 = on_chain (\<lambda>c. prune_attestation_finality_index
        (if cs_finalized_height c < f then c\<lparr>cs_finalized_height := f\<rparr> else c))
        ((on_chain (\<lambda>c. c\<lparr>cs_finality_refiners := ap_finality p\<rparr>) n)\<lparr>ns_refiners := ap_refiners p\<rparr>)"
      using assms fold Inr unfolding f_def by (simp add: apply_attestations_def Let_def)
    then show ?thesis
      by (intro exI [of _ "cs_finality_refiners (ns_chain n1)"] exI [of _ "cs_finalized_height (ns_chain n1)"])
        (simp add: on_chain_def prune_attestation_finality_index_def)
  qed
  then obtain idx f where
    n1: "n1 = (on_chain (\<lambda>c. c\<lparr>cs_finality_refiners := idx, cs_finalized_height := f\<rparr>) n)\<lparr>ns_refiners := ap_refiners p\<rparr>"
    by blast
  show "ns_accounts n1 = ns_accounts n" "ns_mempool n1 = ns_mempool n" "ns_store n1 = ns_store n"
    "ns_pending_evidence n1 = ns_pending_evidence n" "ns_pending_attestations n1 = ns_pending_attestations n"
    "ns_miner_id n1 = ns_miner_id n" "ns_signing_key n1 = ns_signing_key n" "ns_banned_peers n1 = ns_banned_peers n"
    "ns_chain n1 = (ns_chain n)\<lparr>cs_finality_refiners := cs_finality_refiners (ns_chain n1),
       cs_finalized_height := cs_finalized_height (ns_chain n1)\<rparr>"
    unfolding n1 by (simp_all add: on_chain_def)
qed

lemma hm_get_filter: "hm_get (filter P m) k = Some v \<Longrightarrow> hm_wf m \<Longrightarrow> hm_get m k = Some v"
proof -
  assume g: "hm_get (filter P m) k = Some v" and wf: "hm_wf m"
  have "(k, v) \<in> set m" using hm_get_in_set [OF g] by simp
  with wf show ?thesis by (rule hm_in_set_get)
qed

lemma index_ok_filter: "index_ok m \<Longrightarrow> index_ok (filter P m)"
proof -
  assume ok: "index_ok m"
  have wf: "hm_wf (filter P m)" using ok by (simp add: index_ok_def hm_wf_def distinct_map_filter)
  have "distinct ids" if "hm_get (filter P m) k = Some ids" for k ids
  proof -
    have "hm_get m k = Some ids" by (rule hm_get_filter [OF that]) (use ok in \<open>simp add: index_ok_def\<close>)
    with ok show ?thesis unfolding index_ok_def by blast
  qed
  with wf show ?thesis by (simp add: index_ok_def)
qed

text \<open>
  Counting keeps the coins and only ever raises the finalized height, to a height below the block.
\<close>

lemma apply_attestations_law:
  assumes wf: "refiners_wf (ns_refiners n)" and index: "index_ok (cs_finality_refiners (ns_chain n))"
    and run: "apply_attestations X b n = (r, n1)"
  shows "refiners_wf (ns_refiners n1)" "custody (ns_refiners n1) = custody (ns_refiners n)"
    "index_ok (cs_finality_refiners (ns_chain n1))"
    "hm_get (cs_finality_refiners (ns_chain n1)) k = Some ids \<Longrightarrow>
       k \<in> fst ` set (cs_finality_refiners (ns_chain n)) \<or> fst k < bh_height (blk_header b)"
    "cs_finalized_height (ns_chain n) \<le> cs_finalized_height (ns_chain n1)"
    "cs_finalized_height (ns_chain n1) = cs_finalized_height (ns_chain n) \<or>
       cs_finalized_height (ns_chain n1) < bh_height (blk_header b)"
proof -
  let ?h = "blk_header b" and ?old = "fst ` set (cs_finality_refiners (ns_chain n))"
  let ?start = "\<lparr> ap_keys = [], ap_touched = [], ap_finality = cs_finality_refiners (ns_chain n), ap_refiners = ns_refiners n \<rparr>"
  obtain s p where fold: "fold_while_ok (include_attestation X (ns_store n) (bh_height ?h)) (blk_attestations b) ?start = (s, p)"
    by (metis surj_pair)
  have "counting_ok (bh_height ?h) (custody (ns_refiners n)) ?old ?start"
    using wf index by (auto simp: counting_ok_def dest!: hm_get_in_set intro: rev_image_eqI)
  then have ok: "counting_ok (bh_height ?h) (custody (ns_refiners n)) ?old p"
    using fold include_attestation_counting by (rule_tac fold_while_ok_invariant)
  then have p: "refiners_wf (ap_refiners p)" "custody (ap_refiners p) = custody (ns_refiners n)" "index_ok (ap_finality p)"
    "\<And>k ids. hm_get (ap_finality p) k = Some ids \<Longrightarrow> k \<in> ?old \<or> fst k < bh_height ?h"
    "\<forall>k \<in> set (ap_touched p). fst k < bh_height ?h"
    using ok unfolding counting_ok_def by blast+
  define f where "f = finalized_height_from_attestation_weights (cs_finalized_height (ns_chain n))
      (finality_weights (ap_finality p) (ap_refiners p) (bh_timestamp ?h) (ap_touched p))
      (active_refiner_weight_milli_threshold (ns_refiners n) (bh_timestamp ?h))"
  let ?w = "finality_weights (ap_finality p) (ap_refiners p) (bh_timestamp ?h) (ap_touched p)"
    and ?t = "active_refiner_weight_milli_threshold (ns_refiners n) (bh_timestamp ?h)"
  have f1: "cs_finalized_height (ns_chain n) \<le> f" unfolding f_def by (rule finalized_height_law(1))
  have f2: "f = cs_finalized_height (ns_chain n) \<or> f < bh_height ?h"
  proof (cases "f = cs_finalized_height (ns_chain n)")
    case False
    then obtain w where "(f, w) \<in> set ?w" using finalized_height_law(2) [of _ ?w ?t] unfolding f_def by blast
    then show ?thesis using finality_weights_heights [OF p(5)] by blast
  qed simp
  have shape: "ns_refiners n1 = ap_refiners p \<and>
      (\<exists>P. cs_finality_refiners (ns_chain n1) = filter P (ap_finality p)) \<and>
      (cs_finalized_height (ns_chain n1) = cs_finalized_height (ns_chain n) \<or> cs_finalized_height (ns_chain n1) = f)"
  proof (cases s)
    case (Inl e)
    then have "ns_refiners n1 = ap_refiners p" "cs_finality_refiners (ns_chain n1) = filter (\<lambda>_. True) (ap_finality p)"
      "cs_finalized_height (ns_chain n1) = cs_finalized_height (ns_chain n)"
      using run fold by (auto simp: apply_attestations_def Let_def)
    then show ?thesis by blast
  next
    case (Inr u)
    then show ?thesis using run fold
      by (auto simp: apply_attestations_def Let_def prune_attestation_finality_index_def f_def split: if_splits)
  qed
  then obtain P where P: "cs_finality_refiners (ns_chain n1) = filter P (ap_finality p)" by blast
  show "refiners_wf (ns_refiners n1)" "custody (ns_refiners n1) = custody (ns_refiners n)" using shape p by simp_all
  show "index_ok (cs_finality_refiners (ns_chain n1))" using P p(3) index_ok_filter by simp
  show "k \<in> ?old \<or> fst k < bh_height ?h" if "hm_get (cs_finality_refiners (ns_chain n1)) k = Some ids"
    using hm_get_filter [OF that [unfolded P]] p(3,4) unfolding index_ok_def by blast
  show "cs_finalized_height (ns_chain n) \<le> cs_finalized_height (ns_chain n1)"
    "cs_finalized_height (ns_chain n1) = cs_finalized_height (ns_chain n) \<or> cs_finalized_height (ns_chain n1) < bh_height ?h"
    using shape f1 f2 by auto
qed

section \<open>The checks\<close>

lemma accept_block_iff:
  "accept_block X now b n = Inr kind \<longleftrightarrow>
     block_valid X b (wrap_add64 (cs_current_height (ns_chain n)) 1) (cs_latest_block_hash (ns_chain n))
       (last_timestamp n) (next_difficulty n) now \<and>
     production_kind (blk_header b) = Some kind \<and> bh_state_root (blk_header b) = cs_state_root (ns_chain n)"
  unfolding validate_block_ok [symmetric] is_ok_unit by (auto simp: accept_block_def Let_def and_then_Inr_iff)

lemma apply_block_cases:
  assumes "apply_block X now b n = Some (r, n')"
  obtains (refused) e where "accept_block X now b n = Inl e" "r = Inl e" "n' = n"
  | (counted) kind e s where "accept_block X now b n = Inr kind" "apply_attestations X b n = (s, n')" "r = Inl e"
      "s = Inl e \<or> s = Inr () \<and> check_producer X kind b n' = Some (Inl e)"
  | (committed) kind n1 where "accept_block X now b n = Inr kind" "apply_attestations X b n = (Inr (), n1)"
      "check_producer X kind b n1 = Some (Inr ())"
      "commit_block X now (total_bonded_stake (ns_refiners n)) kind b n1 = (r, n')"
proof (cases "accept_block X now b n")
  case (Inl e)
  then have "r = Inl e" "n' = n" using assms by (simp_all add: apply_block_def)
  with Inl show ?thesis by (rule refused)
next
  case acc: (Inr kind)
  obtain s n1 where a: "apply_attestations X b n = (s, n1)" by (metis surj_pair)
  show ?thesis
  proof (cases s)
    case (Inl e)
    then have "r = Inl e" "n' = n1" using assms acc a by (simp_all add: apply_block_def)
    then show ?thesis using acc a Inl by (intro counted [of kind s e]) simp_all
  next
    case (Inr u)
    show ?thesis
    proof (cases "check_producer X kind b n1")
      case None
      then show ?thesis using assms acc a Inr by (simp add: apply_block_def)
    next
      case (Some c)
      show ?thesis
      proof (cases c)
        case (Inl e)
        then have "r = Inl e" "n' = n1" using assms acc a \<open>s = Inr u\<close> Some by (simp_all add: apply_block_def)
        then show ?thesis using acc a \<open>s = Inr u\<close> Some Inl by (intro counted [of kind s e]) simp_all
      next
        case c: (Inr v)
        then have "commit_block X now (total_bonded_stake (ns_refiners n)) kind b n1 = (r, n')"
          using assms acc a Inr Some by (simp add: apply_block_def)
        then show ?thesis using acc a Inr Some c by (intro committed [of kind n1]) simp_all
      qed
    qed
  qed
qed

text \<open>An accepted block pays what its reward distribution says, in whole.\<close>

lemma accepted_reward:
  fixes bonded_stake :: nat
  assumes acc: "accept_block X now b n = Inr kind" and top: "cs_current_height (ns_chain n) < U64_MAX"
  defines "h \<equiv> blk_header b"
  defines "rd \<equiv> block_reward_distribution X kind h bonded_stake (ns_chain n)"
  shows "bh_height h = cs_current_height (ns_chain n) + 1" "object_id_hash (bh_producer h) \<noteq> hash_zero"
    "rd_miner_share rd + rd_mine_assay rd = rd_gross_reward rd"
    "rd_gross_reward rd = gross_block_reward X kind h (cs_base_reward (ns_chain n))"
    "kind = Mined \<or> kind = Refined" "kind = Mined \<Longrightarrow> bh_difficulty h \<le> 256"
proof -
  have w: "wrap_add64 (cs_current_height (ns_chain n)) 1 = cs_current_height (ns_chain n) + 1"
    using top by (simp add: wrap_add64_def wrap64_def U64_MAX_def)
  have v: "block_valid X b (cs_current_height (ns_chain n) + 1) (cs_latest_block_hash (ns_chain n))
       (last_timestamp n) (next_difficulty n) now" and k: "production_kind h = Some kind"
    using acc unfolding accept_block_iff w h_def by blast+
  show height: "bh_height h = cs_current_height (ns_chain n) + 1"
    using v by (simp add: block_valid_def header_and_size_valid_def Let_def h_def)
  have p: "object_id_hash (bh_producer h) \<noteq> hash_zero"
    "production_kind h = Some Mined \<and> is_ok (verify_pow_light X h (bh_difficulty h)) \<or> production_kind h = Some Refined"
    using v by (auto simp: block_valid_def production_valid_def Let_def h_def)
  show "object_id_hash (bh_producer h) \<noteq> hash_zero" by (rule p)
  show mr: "kind = Mined \<or> kind = Refined" using p(2) k by auto
  have d: "0 < bh_difficulty h \<and> bh_difficulty h \<le> 256" if "kind = Mined"
  proof -
    have "is_ok (verify_pow_light X h (bh_difficulty h))" using p(2) k that by simp
    then show ?thesis unfolding verify_pow_light_iff using leading_zeros_bound le_trans by blast
  qed
  then show "kind = Mined \<Longrightarrow> bh_difficulty h \<le> 256" by blast
  have "rd_miner_share rd + rd_mine_assay rd = rd_gross_reward rd \<and>
    rd_gross_reward rd = gross_block_reward X kind h (cs_base_reward (ns_chain n))"
  proof (cases "kind = Mined")
    case True
    have "gross_block_reward X kind h (cs_base_reward (ns_chain n)) \<le> U64_MAX"
      by (simp add: gross_block_reward_def compute_block_reward_fits)
    from reward_distribution_law [OF this, of "bh_difficulty h"] d [OF True] show ?thesis
      by (simp add: rd_def block_reward_distribution_def Let_def)
  next
    case False
    then show ?thesis by (simp add: rd_def block_reward_distribution_def gross_block_reward_def compute_reward_distribution_def Let_def)
  qed
  then show "rd_miner_share rd + rd_mine_assay rd = rd_gross_reward rd"
    "rd_gross_reward rd = gross_block_reward X kind h (cs_base_reward (ns_chain n))" by simp_all
qed

section \<open>An accepted block\<close>

lemma finish_block_frame:
  "ns_accounts (finish_block X b kind g o1 ev n) = ns_accounts n"
  "ns_refiners (finish_block X b kind g o1 ev n) = ns_refiners n"
  "ns_chain (finish_block X b kind g o1 ev n) = (ns_chain n)\<lparr>cs_mint_ledger :=
     record_receipt (make_receipt kind (blk_header b) g o1) (cs_mint_ledger (ns_chain n))\<rparr>"
  "ns_store (finish_block X b kind g o1 ev n) = map_option (\<lambda>db. snd (save_applied_block_atomic X b
     (make_receipt kind (blk_header b) g o1) (to_persisted (ns_chain (finish_block X b kind g o1 ev n)))
     (ns_accounts n) (ns_refiners n) db)) (ns_store n)"
  by (simp_all add: finish_block_def queue_slash_evidence_def remove_accepted_slash_evidence_def persist_state_def Let_def
      split: option.split)

text \<open>
  The state between the last step that can fail on coins and the state root, and how the result
  comes from it.
\<close>

lemma committed_block:
  assumes ok: "supply_ok n" and index: "index_ok (cs_finality_refiners (ns_chain n))"
    and top: "cs_current_height (ns_chain n) < U64_MAX"
    and bound: "issued n + gross_block_reward X kind (blk_header b) (cs_base_reward (ns_chain n)) \<le> U64_MAX"
    and acc: "accept_block X now b n = Inr kind" and att: "apply_attestations X b n = (s, n1)"
    and run: "commit_block X now (total_bonded_stake (ns_refiners n)) kind b n1 = (r, n')"
  obtains n10 o1 ev m fee where
    "(r, n') = run_then (update_state_root X n10)
       (\<lambda>_ n11. (Inr (compute_block_hash X (blk_header b)), finish_block X b kind (compute_block_hash X (blk_header b)) o1 ev n11))"
    "stores_wf n10" "held n10 + burned n10 = issued n10" "ns_store n10 = ns_store n"
    "ns_pending_evidence n10 = ns_pending_evidence n"
    "issued n10 = issued n + gross_block_reward X kind (blk_header b) (cs_base_reward (ns_chain n))"
    "burned n10 = burned n + total_destroyed o1"
    "bo_reward o1 = block_reward_distribution X kind (blk_header b) (total_bonded_stake (ns_refiners n)) (ns_chain n)"
    "ns_chain n10 = advanced (blk_header b) (compute_block_hash X (blk_header b)) (issued n10) (burned n10) fee
        ((ns_chain n1)\<lparr>cs_producer_signatures := m\<rparr>)"
    "ev = fst (detect_double_sign X b (snd (apply_slashing X b n1)))"
    "m = cs_producer_signatures (ns_chain (snd (detect_double_sign X b (snd (apply_slashing X b n1)))))"
proof -
  let ?h = "blk_header b" and ?g = "compute_block_hash X (blk_header b)" and ?bs = "total_bonded_stake (ns_refiners n)"
  have wf: "refiners_wf (ns_refiners n)" using ok by (simp add: supply_ok_def stores_wf_def)
  note f = apply_attestations_frame [OF att]
  note l = apply_attestations_law [OF wf index att]
  define i1 f1 where "i1 = cs_finality_refiners (ns_chain n1)" and "f1 = cs_finalized_height (ns_chain n1)"
  have c1: "ns_chain n1 = (ns_chain n)\<lparr>cs_finality_refiners := i1, cs_finalized_height := f1\<rparr>"
    using f(9) by (simp add: i1_def f1_def)
  have ok1: "supply_ok n1" "issued n1 = issued n" "burned n1 = burned n"
    using ok f(1) l(1,2) by (simp_all add: supply_ok_def supply_defs c1)
  have rd: "block_reward_distribution X kind ?h ?bs (ns_chain n1) = block_reward_distribution X kind ?h ?bs (ns_chain n)"
    by (simp add: block_reward_distribution_def c1 Let_def)
  note rw = accepted_reward(2) [OF acc top] accepted_reward(3,4) [OF acc top, of ?bs]
  obtain n9 o1 ev m fee where c:
      "commit_block X now ?bs kind b n1 = run_then (update_state_root X (rotate_refiners n9))
         (\<lambda>_ n10. (Inr ?g, finish_block X b kind ?g o1 ev n10))"
      "stores_wf n9" "held n9 + burned n9 = issued n9" "ns_store n9 = ns_store n1"
      "ns_pending_evidence n9 = ns_pending_evidence n1"
      "bo_reward o1 = block_reward_distribution X kind ?h ?bs (ns_chain n)" "burned n9 = burned n + total_destroyed o1"
      "issued n9 = issued n + gross_block_reward X kind ?h (cs_base_reward (ns_chain n))"
      "ev = fst (detect_double_sign X b (snd (apply_slashing X b n1)))"
      "ns_chain n9 = advanced ?h ?g (issued n9) (burned n9) fee ((ns_chain n1)\<lparr>cs_producer_signatures := m\<rparr>)"
      "m = cs_producer_signatures (ns_chain (snd (detect_double_sign X b (snd (apply_slashing X b n1)))))"
    using commit_block_run [OF ok1(1), where X = X and kind = kind and b = b and bonded_stake = ?bs and now_secs = now]
      rw bound unfolding rd ok1 by metis
  obtain rs where rot: "rotate_refiners n9 = n9\<lparr>ns_refiners := rs\<rparr>" "refiners_wf rs" "custody rs = custody (ns_refiners n9)"
    using rotate_refiners_law [of n9] c(2) by (auto simp: stores_wf_def)
  have same: "ns_accounts (rotate_refiners n9) = ns_accounts n9" "ns_chain (rotate_refiners n9) = ns_chain n9"
    "ns_store (rotate_refiners n9) = ns_store n9" "ns_pending_evidence (rotate_refiners n9) = ns_pending_evidence n9" by (simp_all add: rot(1))
  then have amounts: "burned (rotate_refiners n9) = burned n9" "issued (rotate_refiners n9) = issued n9"
    by (simp_all add: burned_def issued_def)
  have coins: "held (rotate_refiners n9) = held n9" "stores_wf (rotate_refiners n9)"
    using rot c(2) by (simp_all add: held_def stores_wf_def)
  have "(r, n') = run_then (update_state_root X (rotate_refiners n9)) (\<lambda>_ n11. (Inr ?g, finish_block X b kind ?g o1 ev n11))"
    using c(1) run by simp
  moreover have "held (rotate_refiners n9) + burned (rotate_refiners n9) = issued (rotate_refiners n9)"
    by (simp only: amounts coins(1) c(3))
  moreover have "ns_store (rotate_refiners n9) = ns_store n" by (simp only: same c(4) f(3))
  moreover have "ns_pending_evidence (rotate_refiners n9) = ns_pending_evidence n" by (simp only: same c(5) f(4))
  moreover have "issued (rotate_refiners n9) = issued n + gross_block_reward X kind ?h (cs_base_reward (ns_chain n))"
    "burned (rotate_refiners n9) = burned n + total_destroyed o1" by (simp_all only: amounts c(7,8))
  moreover have "ns_chain (rotate_refiners n9) = advanced ?h ?g (issued (rotate_refiners n9)) (burned (rotate_refiners n9)) fee
      ((ns_chain n1)\<lparr>cs_producer_signatures := m\<rparr>)"
    using c(10) by (simp only: same amounts)
  ultimately show ?thesis using coins(2) c(6,9,11) by (intro that)
qed

end
