(* ===== verification/Node_Props.thy ===== *)
theory Node_Props
  imports Node_Chain
begin

text \<open>
  The properties of block application: the supply, the link to the parent, what a rejected block
  leaves behind, when mining is possible at all.
\<close>

section \<open>A node to try them on\<close>

definition demo_x :: node_externs where
  "demo_x =
     \<lparr> x_blake3 = (\<lambda>_. Hash 7), x_hex_encode = demo_hex, x_hex_decode = (\<lambda>_. Some []),
       x_ed25519_key_valid = (\<lambda>_. True), x_ed25519_verify = (\<lambda>_ _ _. True),
       x_ed25519_verify_strict = (\<lambda>_ _ _. True), x_borsh_tx_body = (\<lambda>_. Some [1]),
       x_borsh_transaction = (\<lambda>_. Some [1, 2, 3]), x_borsh_evidence = (\<lambda>_. Some []),
       x_borsh_attestations = (\<lambda>_. Some []), x_borsh_ceremony = (\<lambda>_. Some []),
       x_borsh_block = (\<lambda>_. Some [0]), x_borsh_account = (\<lambda>_. Some [1]),
       x_borsh_refiner = (\<lambda>_. Some [2]), x_borsh_unbond = (\<lambda>_. Some [3]),
       x_evo_generate = (\<lambda>_. []), x_evo_hash = (\<lambda>_ _ _ _. Hash 1), x_evo_hash_light = (\<lambda>_ _ _ _. Hash 1),
       x_db_get_fails = (\<lambda>_. False), x_db_write_fails = (\<lambda>_. False),
       x_unborsh_block = (\<lambda>_. Some demo_block), x_borsh_receipt = (\<lambda>_. Some [4]),
       x_unborsh_receipt = (\<lambda>_. Some demo_receipt), x_borsh_chain_state = (\<lambda>_. Some [5]),
       x_unborsh_chain_state = (\<lambda>_. Some demo_persisted), x_borsh_accounts = (\<lambda>_. Some [6]),
       x_unborsh_accounts = (\<lambda>_. Some []), x_borsh_refiners = (\<lambda>_. Some [7]),
       x_unborsh_refiners = (\<lambda>_. Some []), x_borsh_ids = (\<lambda>_. Some [8]),
       x_borsh_queue = (\<lambda>_. Some [9]), x_unborsh_queue = (\<lambda>_. Some []),
       x_ed25519_public_key = (\<lambda>_. replicate 32 0), x_ed25519_sign = (\<lambda>_ _. replicate 64 0) \<rparr>"

definition demo_chain :: chain_state where
  "demo_chain =
     \<lparr> cs_current_height = 0, cs_current_difficulty = 7, cs_total_issued = 0, cs_total_burned = 0,
       cs_mint_ledger = mint_ledger_default, cs_block_timestamps = [0], cs_genesis_hash = Hash 7,
       cs_latest_block_hash = Hash 7, cs_state_root = Hash 7, cs_suggested_fee = 1,
       cs_producer_signatures = [], cs_base_reward = 332000000, cs_finalized_height = 0,
       cs_finality_refiners = [] \<rparr>"

definition demo_db :: db where
  "demo_db = [(CfChainState, STORAGE_SCHEMA_VERSION_KEY) \<mapsto> encode_value demo_x (le_bytes 4 2)]"

definition demo_node :: node_state where
  "demo_node =
     \<lparr> ns_chain = demo_chain,
       ns_accounts = [(ObjectId (Hash 7), (account_new (ObjectId (Hash 7)))\<lparr>acc_public_key := Some (replicate 32 0)\<rparr>)],
       ns_refiners = refiner_set_new, ns_mempool = mempool_new, ns_store = Some demo_db,
       ns_miner_id = ObjectId (Hash 7), ns_signing_key = Some (replicate 32 1), ns_pending_evidence = [],
       ns_pending_attestations = [], ns_refiner_peers = [], ns_banned_peers = [] \<rparr>"

text \<open>What the start of this node asks of the parameters.\<close>

definition starts_demo :: "'x node_externs_scheme \<Rightarrow> bool" where
  "starts_demo X \<longleftrightarrow> x_blake3 X = (\<lambda>_. Hash 7) \<and> x_borsh_evidence X = (\<lambda>_. Some []) \<and>
     x_borsh_attestations X = (\<lambda>_. Some []) \<and> x_borsh_ceremony X = (\<lambda>_. Some []) \<and>
     (\<forall>k. \<not> x_db_get_fails X k) \<and> (\<forall>w. \<not> x_db_write_fails X w) \<and>
     x_ed25519_public_key X = (\<lambda>_. replicate 32 0)"

lemma demo_x_starts: "starts_demo demo_x"
  by (simp add: starts_demo_def demo_x_def)

lemma demo_chain_new: "starts_demo X \<Longrightarrow> chain_state_new X genesis_config_default = Inr demo_chain"
  by (simp add: starts_demo_def chain_state_new_def build_genesis_block_def Let_def genesis_config_default_def demo_chain_def
      compute_evidence_root_def compute_attestation_root_def compute_genesis_ceremony_hash_def hash_with_domain_def
      compute_block_hash_def hasher_finalize_def const_defs)

lemma schema_key_fresh:
  "chain_state_key \<noteq> (CfChainState, STORAGE_SCHEMA_VERSION_KEY)"
  "latest_height_key \<noteq> (CfChainState, STORAGE_SCHEMA_VERSION_KEY)"
proof -
  have "length (snd chain_state_key) \<noteq> length STORAGE_SCHEMA_VERSION_KEY"
    "length (snd latest_height_key) \<noteq> length STORAGE_SCHEMA_VERSION_KEY"
    by (simp_all add: chain_state_key_def latest_height_key_def STORAGE_SCHEMA_VERSION_KEY_def ascii_def)
  then show "chain_state_key \<noteq> (CfChainState, STORAGE_SCHEMA_VERSION_KEY)"
    "latest_height_key \<noteq> (CfChainState, STORAGE_SCHEMA_VERSION_KEY)" by (metis snd_conv)+
qed

lemma demo_opens:
  fixes X :: "'x node_externs_scheme"
  assumes "starts_demo X"
  shows "open_store X (Inr Map.empty) = Inr demo_db" "load_chain_state X demo_db = Inr None"
proof -
  have "encode_value X d = encode_value demo_x d" for d
    using assms demo_x_starts by (simp add: starts_demo_def encode_value_def hash_with_domain_eq)
  moreover have io: "\<not> x_db_get_fails X k" "\<not> x_db_write_fails X w" for k w
    using assms unfolding starts_demo_def by blast+
  ultimately show "open_store X (Inr Map.empty) = Inr demo_db" "load_chain_state X demo_db = Inr None"
    by (simp_all add: io open_store_def ensure_schema_version_def db_get_def db_put_def db_write_def
        apply_batch_def demo_db_def STORAGE_SCHEMA_VERSION_def load_chain_state_def db_load_def latest_block_height_def
        schema_key_fresh)
qed

lemma demo_node_starts:
  fixes X :: "'x node_externs_scheme"
  assumes "starts_demo X"
  shows "start_node X genesis_config_default (Some (Inr (replicate 32 1))) (Inr Map.empty) [] = Inr demo_node"
proof -
  have i: "load_identity X (Some (Inr (replicate 32 1))) = (ObjectId (Hash 7), Some (replicate 32 1))"
    using assms by (simp add: starts_demo_def load_identity_def ed25519_public_key_to_object_id_def hash_with_domain_eq)
  have f: "fresh_chain X genesis_config_default = Inr (demo_chain, account_store_new, refiner_set_new)"
  proof -
    have g: "gn_accounts genesis_config_default = []" by (simp add: genesis_config_default_def)
    show ?thesis
      by (simp add: fresh_chain_def demo_chain_new [OF assms] apply_genesis_accounts_def g record_genesis_issuance_def)
        (simp add: demo_chain_def mint_ledger_default_def sat_add64_def)
  qed
  have "hash_is_zero (Hash 7) = False" by (simp add: hash_is_zero_def)
  then have e: "ensure_local_producer_account (ObjectId (Hash 7)) (Some (replicate 32 0)) account_store_new
     = (Inr (), ns_accounts demo_node)"
    by (simp add: ensure_local_producer_account_def account_store_new_def get_account_def create_account_def
        demo_node_def modify_account_def hm_put_def hm_get_def account_new_def)
  have "x_ed25519_public_key X = (\<lambda>_. replicate 32 0)" using assms by (simp add: starts_demo_def)
  then show ?thesis
    by (simp add: start_node_def i demo_chain_new [OF assms] demo_opens [OF assms] f e demo_node_def)
qed

text \<open>Its first block, mined.\<close>

definition demo_first :: block where
  "demo_first =
     \<lparr> blk_header =
         \<lparr> bh_version = 4, bh_height = 1, bh_previous_hash = Hash 7, bh_state_root = Hash 7,
           bh_transaction_root = Hash 7, bh_evidence_root = Hash 7, bh_attestation_root = Hash 7,
           bh_genesis_ceremony_hash = Hash 7, bh_timestamp = 90, bh_difficulty = 7, bh_suggested_fee = 1,
           bh_extension_root = None, bh_producer = ObjectId (Hash 7), bh_pow_proof = Some (le_bytes 8 3),
           bh_refiner_signature = None \<rparr>,
       blk_transactions = [], blk_slash_evidence = [], blk_attestations = [], blk_genesis_ceremony = None \<rparr>"

text \<open>Its variants with another producer and with attestations, and when they are acceptable.\<close>

definition first_block :: "object_id \<Rightarrow> block_attestation list \<Rightarrow> block" where
  "first_block i as = demo_first\<lparr>blk_header := (blk_header demo_first)\<lparr>bh_producer := i\<rparr>, blk_attestations := as\<rparr>"

lemma first_block_accepted:
  fixes X :: "'x pow_externs_scheme"
  assumes digest: "x_blake3 X = (\<lambda>_. Hash 7)" and size: "x_borsh_block X = (\<lambda>_. Some [0])"
    and codecs: "x_borsh_evidence X = (\<lambda>_. Some [])" "x_borsh_attestations X = (\<lambda>_. Some [])"
      "x_borsh_ceremony X = (\<lambda>_. Some [])"
    and pow: "\<And>seed d h k. 7 \<le> leading_zeros (x_evo_hash_light X seed d h k)"
    and chain: "cs_current_height (ns_chain n) = 0" "cs_latest_block_hash (ns_chain n) = Hash 7"
      "cs_state_root (ns_chain n) = Hash 7" "cs_block_timestamps (ns_chain n) = [0]"
    and d: "next_difficulty n = 7" and i: "object_id_hash i \<noteq> hash_zero" and few: "length as \<le> MAX_ATTESTATIONS_PER_BLOCK"
  shows "accept_block X 90 (first_block i as) n = Inr Mined"
proof -
  let ?b = "first_block i as"
  have w: "wrap_add64 0 1 = 1" by (simp add: wrap_add64_def U64_MAX_def)
  have h: "header_and_size_valid X ?b 1 (Hash 7) 0 7 90"
    using few by (simp add: header_and_size_valid_def first_block_def demo_first_def size Let_def sat_add64_def U64_MAX_def const_defs)
  have r: "roots_valid X ?b"
    by (simp add: roots_valid_def first_block_def demo_first_def digest codecs Let_def compute_transaction_root_def
        compute_evidence_root_def compute_attestation_root_def compute_genesis_ceremony_hash_def hash_with_domain_def
        hasher_finalize_def)
  have t: "transactions_valid ?b" by (simp add: transactions_valid_def first_block_def demo_first_def)
  have k: "production_kind (blk_header ?b) = Some Mined"
    by (simp add: production_kind_Mined_iff first_block_def demo_first_def)
  have "is_ok (verify_pow_light X (blk_header ?b) 7)"
    using pow unfolding verify_pow_light_iff by (simp add: first_block_def demo_first_def pow_nonce_def)
  then have p: "production_valid X ?b 1"
    using i by (simp add: production_valid_def Let_def k) (simp add: first_block_def demo_first_def)
  have "block_valid X ?b 1 (Hash 7) 0 7 90" using h r t p by (simp add: block_valid_def)
  then show ?thesis unfolding accept_block_iff d
    using k by (simp add: chain w [simplified] last_timestamp_def) (simp add: first_block_def demo_first_def)
qed

lemma demo_first_block: "demo_first = first_block (ObjectId (Hash 7)) []"
  by (simp add: first_block_def demo_first_def)

lemma demo_next_difficulty: "next_difficulty demo_node = 7"
proof -
  have "compute_retarget 7 0 [0] = 7" by (simp add: compute_retarget_def const_defs)
  moreover have "total_bonded_stake refiner_set_new = 0"
    by (simp add: total_bonded_stake_def refiner_set_new_def active_refiners_def map_filter_def wrap64_def sat_add64_def)
  ultimately show ?thesis
    by (simp add: next_difficulty_def demo_node_def demo_chain_def compute_next_difficulty_def effective_difficulty_def
        compute_consensus_floor_def Let_def MIN_DIFFICULTY_def)
qed

lemma demo_accept: "accept_block demo_x 90 demo_first demo_node = Inr Mined"
  unfolding demo_first_block
  using demo_next_difficulty
  by (rule first_block_accepted [rotated 10];
      simp add: demo_x_def demo_node_def demo_chain_def hash_zero_def leading_zeros_iff)

lemma demo_checks:
  fixes X :: "'x storage_externs_scheme" and Y :: "'y externs_scheme"
  shows "apply_attestations X demo_first demo_node = (Inr (), demo_node)"
    "check_producer Y Mined demo_first demo_node = Some (Inr ())"
proof -
  have "finalized_height_from_attestation_weights 0 [] t = 0" for t
    by (simp add: finalized_height_from_attestation_weights_def)
  then show "apply_attestations X demo_first demo_node = (Inr (), demo_node)"
    by (simp add: apply_attestations_def demo_first_def demo_node_def Let_def on_chain_def finality_weights_def
        prune_attestation_finality_index_def demo_chain_def)
  show "check_producer Y Mined demo_first demo_node = Some (Inr ())"
    by (simp add: check_producer_def check_refiner_signature_def check_mined_producer_def check_selected_producer_def
        demo_first_def demo_node_def get_account_def hm_get_def Let_def)
qed

lemma demo_supply: "supply_ok demo_node" "index_ok (cs_finality_refiners (ns_chain demo_node))"
  "cs_current_height (ns_chain demo_node) < U64_MAX"
proof -
  have "accounts_wf (ns_accounts demo_node)"
    by (auto simp: accounts_wf_def demo_node_def hm_wf_def hm_get_def account_ok_def account_new_def U64_MAX_def split: if_splits)
  then show "supply_ok demo_node"
    using refiners_wf_new
    by (simp add: supply_ok_def supply_defs demo_node_def demo_chain_def total_balance_def hm_total_def custody_def
        refiner_set_new_def queue_sum_def account_new_def U64_MAX_def)
qed (simp_all add: demo_node_def demo_chain_def index_ok_def U64_MAX_def)

section \<open>Conditions and steps shared by the properties\<close>

text \<open>What a block issues, by the code's own formula.\<close>

definition block_issue :: "'x pow_externs_scheme \<Rightarrow> block \<Rightarrow> node_state \<Rightarrow> nat" where
  "block_issue X b n =
     (case production_kind (blk_header b) of
        None \<Rightarrow> 0
      | Some kind \<Rightarrow> gross_block_reward X kind (blk_header b) (cs_base_reward (ns_chain n)))"

text \<open>
  A state in which the supply adds up, the finality index is a map, and neither the height nor the
  supply is at the end of its range.
\<close>

definition can_grow :: "'x pow_externs_scheme \<Rightarrow> block \<Rightarrow> node_state \<Rightarrow> bool" where
  "can_grow X b n \<longleftrightarrow> supply_ok n \<and> index_ok (cs_finality_refiners (ns_chain n)) \<and>
     cs_current_height (ns_chain n) < U64_MAX \<and> issued n + block_issue X b n \<le> U64_MAX"

text \<open>Borsh serializes accounts, refiners and queue entries; writing to memory does not fail.\<close>

definition borsh_total :: "'x refiner_externs_scheme \<Rightarrow> bool" where
  "borsh_total X \<longleftrightarrow> (\<forall>a. \<exists>d. x_borsh_account X a = Some d) \<and> (\<forall>r. \<exists>d. x_borsh_refiner X r = Some d) \<and>
     (\<forall>u. \<exists>d. x_borsh_unbond X u = Some d)"

lemma borsh_totalD:
  assumes "borsh_total X"
  obtains d e f where "x_borsh_account X a = Some d" "x_borsh_refiner X r = Some e" "x_borsh_unbond X u = Some f"
  using assms unfolding borsh_total_def by meson

lemma hash_accounts_total: "borsh_total X \<Longrightarrow> \<exists>g. hash_accounts X s ids h = Inr g"
proof (induction ids arbitrary: h)
  case (Cons i ids)
  show ?case
    using Cons by (cases "hm_get s i") (auto elim!: borsh_totalD [where a = "the (hm_get s i)"] split: option.split)
qed simp

lemma hash_refiners_total: "borsh_total X \<Longrightarrow> \<exists>g. hash_refiners X s ids h = Inr g"
proof (induction ids arbitrary: h)
  case (Cons i ids)
  show ?case
    using Cons by (cases "hm_get s i") (auto elim!: borsh_totalD [where r = "the (hm_get s i)"] split: option.split)
qed simp

lemma hash_unbonds_total: "borsh_total X \<Longrightarrow> \<exists>g. hash_unbonds X es h = Inr g"
proof (induction es arbitrary: h)
  case (Cons u es)
  then show ?case by (auto elim!: borsh_totalD [where u = u] split: option.split)
qed simp

lemma update_state_root_total:
  assumes "borsh_total X"
  shows "fst (update_state_root X n) = Inr ()"
proof -
  define h1 h2 where "h1 = hasher_update (hasher_update hasher_new DOMAIN_STATE_ROOT) (ascii ''accounts'')"
    and "h2 = hasher_update (hasher_update hasher_new DOMAIN_STATE_ROOT) (ascii ''refiners'')"
  obtain g1 where "hash_accounts X (ns_accounts n) (sort (map fst (ns_accounts n))) h1 = Inr g1"
    using hash_accounts_total [OF assms] by blast
  then have 1: "accounts_state_root X (ns_accounts n) = Inr (hasher_finalize X g1)"
    by (simp add: accounts_state_root_def Let_def h1_def)
  obtain g2 where g2: "hash_refiners X (rs_refiners (ns_refiners n)) (sort (map fst (rs_refiners (ns_refiners n)))) h2 = Inr g2"
    using hash_refiners_total [OF assms] by blast
  obtain g3 where "hash_unbonds X (rs_queue (ns_refiners n)) g2 = Inr g3" using hash_unbonds_total [OF assms] by blast
  with g2 have "refiners_state_root X (ns_refiners n) = Inr (hasher_finalize X g3)"
    by (simp add: refiners_state_root_def Let_def h2_def)
  with 1 show ?thesis by (simp add: update_state_root_def Let_def)
qed

text \<open>The state after the state root, which only changes the root.\<close>

lemma with_state_root:
  assumes "(r, n') = run_then (update_state_root X n) (\<lambda>_ m. (Inr g, finish_block X b kind g o1 ev m))"
  shows "ns_accounts n' = ns_accounts n" "ns_refiners n' = ns_refiners n"
    "issued n' = issued n" "burned n' = burned n"
    "borsh_total X \<Longrightarrow> r = Inr g"
    "r = Inr g' \<Longrightarrow> g' = g \<and> (\<exists>root. update_state_root X n = (Inr (), on_chain (\<lambda>c. c\<lparr>cs_state_root := root\<rparr>) n) \<and>
       n' = finish_block X b kind g o1 ev (on_chain (\<lambda>c. c\<lparr>cs_state_root := root\<rparr>) n))"
proof -
  consider (err) e where "update_state_root X n = (Inl e, n)" "r = Inl e" "n' = n"
    | (ok) root where "update_state_root X n = (Inr (), on_chain (\<lambda>c. c\<lparr>cs_state_root := root\<rparr>) n)"
        "r = Inr g" "n' = finish_block X b kind g o1 ev (on_chain (\<lambda>c. c\<lparr>cs_state_root := root\<rparr>) n)"
  proof (cases rule: update_state_root_cases [of X n])
    case (1 e)
    then have "r = Inl e" "n' = n" using assms by simp_all
    with 1 show thesis by (rule err)
  next
    case (2 root)
    then have "r = Inr g" "n' = finish_block X b kind g o1 ev (on_chain (\<lambda>c. c\<lparr>cs_state_root := root\<rparr>) n)"
      using assms by simp_all
    with 2 show thesis by (rule ok)
  qed
  note c = this
  show "ns_accounts n' = ns_accounts n" "ns_refiners n' = ns_refiners n" "issued n' = issued n" "burned n' = burned n"
    by (cases rule: c; simp add: finish_block_frame issued_def burned_def)+
  show "r = Inr g" if "borsh_total X"
    using update_state_root_total [OF that, of n] by (cases rule: c) simp_all
  show "g' = g \<and> (\<exists>root. update_state_root X n = (Inr (), on_chain (\<lambda>c. c\<lparr>cs_state_root := root\<rparr>) n) \<and>
       n' = finish_block X b kind g o1 ev (on_chain (\<lambda>c. c\<lparr>cs_state_root := root\<rparr>) n))" if "r = Inr g'"
    using that by (cases rule: c) auto
qed

lemma counted_frame:
  assumes "supply_ok n" "index_ok (cs_finality_refiners (ns_chain n))" "apply_attestations X b n = (s, n')"
  shows "supply_ok n' \<and> issued n' = issued n \<and> burned n' = burned n"
proof -
  have wf: "refiners_wf (ns_refiners n)" using assms(1) by (simp add: supply_ok_def stores_wf_def)
  note f = apply_attestations_frame [OF assms(3)]
  define i1 f1 where "i1 = cs_finality_refiners (ns_chain n')" and "f1 = cs_finalized_height (ns_chain n')"
  have c1: "ns_chain n' = (ns_chain n)\<lparr>cs_finality_refiners := i1, cs_finalized_height := f1\<rparr>"
    using f(9) by (simp add: i1_def f1_def)
  show ?thesis
    using assms(1) f(1) apply_attestations_law(1,2) [OF wf assms(2,3)]
    by (simp add: supply_ok_def supply_defs c1)
qed

lemma demo_can_grow: "can_grow demo_x demo_first demo_node"
proof -
  have "issued demo_node = 0" by (simp add: issued_def demo_node_def demo_chain_def)
  moreover have "production_kind (blk_header demo_first) = Some Mined"
    using demo_accept by (simp add: accept_block_iff)
  ultimately show ?thesis
    using demo_supply by (simp add: can_grow_def block_issue_def gross_block_reward_def compute_block_reward_fits)
qed

text \<open>The root that an accepted block leaves behind.\<close>

definition root_of :: "'x refiner_externs_scheme \<Rightarrow> node_state \<Rightarrow> opolys_error + hash" where
  "root_of X n =
     and_then (accounts_state_root X (ns_accounts n)) (\<lambda>ar. and_then (refiners_state_root X (ns_refiners n)) (\<lambda>rr.
       Inr (chain_state_root X ar rr (issued n) (burned n) (cs_current_height (ns_chain n)))))"

lemma update_state_root_ok:
  assumes "update_state_root X n = (Inr (), on_chain (\<lambda>c. c\<lparr>cs_state_root := root\<rparr>) n)"
  shows "root_of X n = Inr root"
proof -
  let ?root = "and_then (map_err opolys_error_to_string (accounts_state_root X (ns_accounts n))) (\<lambda>ar.
      and_then (map_err opolys_error_to_string (refiners_state_root X (ns_refiners n))) (\<lambda>rr.
      Inr (chain_state_root X ar rr (issued n) (burned n) (cs_current_height (ns_chain n)))))"
  have run: "update_state_root X n = (case ?root of Inl e \<Rightarrow> (Inl e, n)
      | Inr root \<Rightarrow> (Inr (), on_chain (\<lambda>c. c\<lparr>cs_state_root := root\<rparr>) n))"
    by (simp only: update_state_root_def Let_def issued_def burned_def)
  show ?thesis
  proof (cases ?root)
    case (Inl e)
    with run assms show ?thesis by simp
  next
    case (Inr v)
    then have "on_chain (\<lambda>c. c\<lparr>cs_state_root := v\<rparr>) n = on_chain (\<lambda>c. c\<lparr>cs_state_root := root\<rparr>) n"
      using run assms by simp
    then have "v = root" by (drule_tac f = "\<lambda>m. cs_state_root (ns_chain m)" in arg_cong) simp
    with Inr show ?thesis by (auto simp: root_of_def and_then_Inr_iff)
  qed
qed

text \<open>Everything an accepted block establishes, in terms of the state before.\<close>

lemma accepted_block:
  assumes grow: "can_grow X b n" and run: "apply_block X now b n = Some (Inr g, n')"
  obtains kind n1 o1 fee root n10 where
    "accept_block X now b n = Inr kind" "apply_attestations X b n = (Inr (), n1)"
    "check_producer X kind b n1 = Some (Inr ())" "g = compute_block_hash X (blk_header b)"
    "ns_chain n' = (advanced (blk_header b) g (issued n') (burned n') fee
       ((ns_chain n1)\<lparr>cs_producer_signatures := cs_producer_signatures
          (ns_chain (snd (detect_double_sign X b (snd (apply_slashing X b n1)))))\<rparr>))
       \<lparr>cs_state_root := root,
        cs_mint_ledger := record_receipt (make_receipt kind (blk_header b) g o1) (cs_mint_ledger (ns_chain n))\<rparr>"
    "root_of X n' = Inr root" "burned n' = burned n + total_destroyed o1"
    "issued n' = issued n + block_issue X b n"
    "bo_reward o1 = block_reward_distribution X kind (blk_header b) (total_bonded_stake (ns_refiners n)) (ns_chain n)"
    "n' = finish_block X b kind g o1 (fst (detect_double_sign X b (snd (apply_slashing X b n1))))
       (on_chain (\<lambda>c. c\<lparr>cs_state_root := root\<rparr>) n10)"
    "ns_store n10 = ns_store n" "ns_pending_evidence n10 = ns_pending_evidence n" "stores_wf n'"
  using run
proof (cases rule: apply_block_cases)
  case (committed kind n1)
  let ?h = "blk_header b" and ?g = "compute_block_hash X (blk_header b)"
  have k: "production_kind ?h = Some kind" using committed(1) by (simp add: accept_block_iff)
  have issue: "block_issue X b n = gross_block_reward X kind ?h (cs_base_reward (ns_chain n))"
    by (simp add: block_issue_def k)
  have g1: "supply_ok n" "index_ok (cs_finality_refiners (ns_chain n))" "cs_current_height (ns_chain n) < U64_MAX"
    "issued n + gross_block_reward X kind ?h (cs_base_reward (ns_chain n)) \<le> U64_MAX"
    using grow by (simp_all add: can_grow_def issue)
  obtain n10 o1 ev m fee where c:
      "(Inr g, n') = run_then (update_state_root X n10) (\<lambda>_ n11. (Inr ?g, finish_block X b kind ?g o1 ev n11))"
      "stores_wf n10" "ns_store n10 = ns_store n" "ns_pending_evidence n10 = ns_pending_evidence n" "issued n10 = issued n + block_issue X b n"
      "burned n10 = burned n + total_destroyed o1"
      "bo_reward o1 = block_reward_distribution X kind ?h (total_bonded_stake (ns_refiners n)) (ns_chain n)"
      "ns_chain n10 = advanced ?h ?g (issued n10) (burned n10) fee ((ns_chain n1)\<lparr>cs_producer_signatures := m\<rparr>)"
      "ev = fst (detect_double_sign X b (snd (apply_slashing X b n1)))"
      "m = cs_producer_signatures (ns_chain (snd (detect_double_sign X b (snd (apply_slashing X b n1)))))"
    by (rule committed_block [OF g1 committed(1,2,4)]) (use issue in simp)
  note w = with_state_root [OF c(1)]
  obtain root where root: "g = ?g" "update_state_root X n10 = (Inr (), on_chain (\<lambda>c. c\<lparr>cs_state_root := root\<rparr>) n10)"
    "n' = finish_block X b kind ?g o1 ev (on_chain (\<lambda>c. c\<lparr>cs_state_root := root\<rparr>) n10)"
    using w(6) [OF refl] by blast
  have ledger: "cs_mint_ledger (ns_chain n10) = cs_mint_ledger (ns_chain n)"
  proof -
    define i1 f1 where "i1 = cs_finality_refiners (ns_chain n1)" and "f1 = cs_finalized_height (ns_chain n1)"
    have "ns_chain n1 = (ns_chain n)\<lparr>cs_finality_refiners := i1, cs_finalized_height := f1\<rparr>"
      using apply_attestations_frame(9) [OF committed(2)] by (simp add: i1_def f1_def)
    then show ?thesis by (simp add: c(8) advanced_def)
  qed
  have chain: "ns_chain n' = (ns_chain n10)\<lparr>cs_state_root := root,
      cs_mint_ledger := record_receipt (make_receipt kind ?h ?g o1) (cs_mint_ledger (ns_chain n10))\<rparr>"
    by (simp add: root(3) finish_block_frame)
  have "cs_current_height (ns_chain n') = cs_current_height (ns_chain n10)" by (simp add: chain)
  then have rt: "root_of X n' = Inr root"
    using update_state_root_ok [OF root(2)] w(1-4) by (simp add: root_of_def)
  have sums: "issued n' = issued n + block_issue X b n" "burned n' = burned n + total_destroyed o1" "stores_wf n'"
    using w(1-4) c(2,5,6) by (simp_all add: stores_wf_def)
  have "ns_chain n' = (ns_chain n10)\<lparr>cs_state_root := root,
      cs_mint_ledger := record_receipt (make_receipt kind ?h ?g o1) (cs_mint_ledger (ns_chain n))\<rparr>"
    by (simp only: chain ledger)
  then have chain': "ns_chain n' = (advanced ?h g (issued n') (burned n') fee
       ((ns_chain n1)\<lparr>cs_producer_signatures := cs_producer_signatures
          (ns_chain (snd (detect_double_sign X b (snd (apply_slashing X b n1)))))\<rparr>))
       \<lparr>cs_state_root := root,
        cs_mint_ledger := record_receipt (make_receipt kind ?h g o1) (cs_mint_ledger (ns_chain n))\<rparr>"
    by (simp only: c(8,10) w(3,4) root(1))
  have fin: "n' = finish_block X b kind g o1 (fst (detect_double_sign X b (snd (apply_slashing X b n1))))
       (on_chain (\<lambda>c. c\<lparr>cs_state_root := root\<rparr>) n10)"
    using root(3) by (simp only: root(1) c(9))
  show ?thesis
    by (rule that [OF committed(1,2,3) root(1) chain' rt sums(2,1) c(7) fin c(3,4) sums(3)])
qed simp_all

lemma checked_block_result:
  assumes grow: "can_grow X b n" and borsh: "borsh_total X"
    and acc: "accept_block X now b n = Inr kind" and att: "apply_attestations X b n = (Inr (), n1)"
    and prod: "check_producer X kind b n1 = Some (Inr ())"
  shows "\<exists>n'. apply_block X now b n = Some (Inr (compute_block_hash X (blk_header b)), n')"
proof -
  obtain r n' where c: "commit_block X now (total_bonded_stake (ns_refiners n)) kind b n1 = (r, n')" by (metis surj_pair)
  have run: "apply_block X now b n = Some (r, n')" by (simp add: apply_block_def acc att prod c)
  have k: "production_kind (blk_header b) = Some kind" using acc by (simp add: accept_block_iff)
  have g1: "supply_ok n" "index_ok (cs_finality_refiners (ns_chain n))" "cs_current_height (ns_chain n) < U64_MAX"
    "issued n + gross_block_reward X kind (blk_header b) (cs_base_reward (ns_chain n)) \<le> U64_MAX"
    using grow by (simp_all add: can_grow_def block_issue_def k)
  obtain n10 o1 ev where "(r, n') = run_then (update_state_root X n10) (\<lambda>_ n11. (Inr (compute_block_hash X (blk_header b)),
      finish_block X b kind (compute_block_hash X (blk_header b)) o1 ev n11))"
    by (rule committed_block [OF g1 acc att c])
  then have "r = Inr (compute_block_hash X (blk_header b))" using borsh by (rule with_state_root(5))
  with run show ?thesis by blast
qed

lemma demo_borsh: "borsh_total demo_x"
  by (simp add: borsh_total_def demo_x_def)

lemma demo_applies:
  obtains n' where "apply_block demo_x 90 demo_first demo_node = Some (Inr (Hash 7), n')"
proof -
  have "compute_block_hash demo_x h = Hash 7" for h
    by (simp add: compute_block_hash_def hasher_finalize_def demo_x_def)
  with checked_block_result [OF demo_can_grow demo_borsh demo_accept demo_checks] show thesis by (auto intro: that)
qed

lemma applied_supply_law:
  assumes "can_grow X b n" and "apply_block X now b n = Some (r, n')"
  shows "supply_ok n' \<and> burned n \<le> burned n'
    \<and> (\<forall>g. r = Inr g \<longrightarrow> issued n' = issued n + block_issue X b n)
    \<and> (production_kind (blk_header b) = Some Refined \<longrightarrow> issued n' = issued n)
    \<and> (\<forall>e. r = Inl e \<and> borsh_total X \<longrightarrow> issued n' = issued n \<and> burned n' = burned n)"
  using assms(2)
proof (cases rule: apply_block_cases)
  case (refused e)
  with assms(1) show ?thesis by (simp add: can_grow_def)
next
  case (counted kind e s)
  with assms(1) counted_frame [OF _ _ counted(2)] show ?thesis by (simp add: can_grow_def)
next
  case (committed kind n1)
  have k: "production_kind (blk_header b) = Some kind" using committed(1) by (simp add: accept_block_iff)
  have issue: "block_issue X b n = gross_block_reward X kind (blk_header b) (cs_base_reward (ns_chain n))"
    by (simp add: block_issue_def k)
  from assms(1) obtain n10 o1 ev m fee where c:
      "(r, n') = run_then (update_state_root X n10)
         (\<lambda>_ n11. (Inr (compute_block_hash X (blk_header b)), finish_block X b kind (compute_block_hash X (blk_header b)) o1 ev n11))"
      "stores_wf n10" "held n10 + burned n10 = issued n10" "issued n10 = issued n + block_issue X b n"
      "burned n10 = burned n + total_destroyed o1"
    by (auto simp: can_grow_def issue intro: committed_block [OF _ _ _ _ committed(1,2,4)])
  note w = with_state_root [OF c(1)]
  have "supply_ok n'"
    using c(2,3,4) w(1,2,3,4) assms(1) by (simp add: supply_ok_def stores_wf_def held_def can_grow_def)
  moreover have "kind = Refined \<longrightarrow> block_issue X b n = 0" by (simp add: issue gross_block_reward_def)
  moreover have "r \<noteq> Inl e" if "borsh_total X" for e using w(5) [OF that] by simp
  ultimately show ?thesis using w(3,4) c(4,5) k by auto
qed

lemma applied_supply: "can_grow X b n \<Longrightarrow> apply_block X now b n = Some (r, n') \<Longrightarrow> supply_ok n'"
  using applied_supply_law by blast

section \<open>The supply\<close>

text \<open>
  C15: applying a block conserves the supply: every coin issued so far is on an account, in custody
  or counted as burned, before and after, whatever the result. A rejected block issues and burns
  nothing, as long as accounts and refiners can be serialized. An accepted block issues exactly its
  reward by the emission formula, nothing for a refiner's block, and never lowers the amount burned.
\<close>

theorem block_conserves_supply:
  assumes "can_grow X b n" and "apply_block X now_secs b n = Some (r, n')"
  shows "supply_ok n' \<and> burned n \<le> burned n'
    \<and> (\<forall>g. r = Inr g \<longrightarrow> issued n' = issued n + block_issue X b n)
    \<and> (production_kind (blk_header b) = Some Refined \<longrightarrow> issued n' = issued n)
    \<and> (\<forall>e. r = Inl e \<and> borsh_total X \<longrightarrow> issued n' = issued n \<and> burned n' = burned n)"
  using applied_supply_law [OF assms] .

theorem block_conserves_supply_witness:
  "\<exists>r n'. apply_block demo_x 90 demo_first demo_node = Some (r, n') \<and> supply_ok n'"
proof -
  obtain r n' where run: "apply_block demo_x 90 demo_first demo_node = Some (r, n')"
    by (cases "commit_block demo_x 90 (total_bonded_stake (ns_refiners demo_node)) Mined demo_first demo_node")
      (simp add: apply_block_def demo_accept demo_checks)
  from block_conserves_supply [OF demo_can_grow run] run show ?thesis by blast
qed

lemma accepted_link:
  fixes n n' :: node_state
  assumes "can_grow X b n" and "apply_block X now b n = Some (Inr g, n')"
    and "cs_finalized_height (ns_chain n) \<le> cs_current_height (ns_chain n)"
  shows "let h = blk_header b; c = ns_chain n; c' = ns_chain n' in
      g = compute_block_hash X h \<and> bh_height h = cs_current_height c + 1 \<and>
      bh_previous_hash h = cs_latest_block_hash c \<and> bh_state_root h = cs_state_root c \<and>
      bh_difficulty h = next_difficulty n \<and> sat_add64 (last_timestamp n) 45 \<le> bh_timestamp h \<and>
      production_valid X b (bh_height h) \<and>
      cs_current_height c' = bh_height h \<and> cs_latest_block_hash c' = g \<and> cs_current_difficulty c' = bh_difficulty h \<and>
      last_timestamp n' = bh_timestamp h \<and>
      cs_genesis_hash c' = cs_genesis_hash c \<and> cs_base_reward c' = cs_base_reward c \<and>
      cs_finalized_height c \<le> cs_finalized_height c' \<and> cs_finalized_height c' < bh_height h \<and>
      root_of X n' = Inr (cs_state_root c')"
proof -
  obtain kind n1 o1 fee root n10 where a: "accept_block X now b n = Inr kind" "apply_attestations X b n = (Inr (), n1)"
    "g = compute_block_hash X (blk_header b)"
    "ns_chain n' = (advanced (blk_header b) g (issued n') (burned n') fee
       ((ns_chain n1)\<lparr>cs_producer_signatures := cs_producer_signatures
          (ns_chain (snd (detect_double_sign X b (snd (apply_slashing X b n1)))))\<rparr>))
       \<lparr>cs_state_root := root,
        cs_mint_ledger := record_receipt (make_receipt kind (blk_header b) g o1) (cs_mint_ledger (ns_chain n))\<rparr>"
    "root_of X n' = Inr root"
    by (rule accepted_block [OF assms(1,2)])
  have top: "cs_current_height (ns_chain n) < U64_MAX" and ok: "refiners_wf (ns_refiners n)"
    "index_ok (cs_finality_refiners (ns_chain n))"
    using assms(1) by (simp_all add: can_grow_def supply_ok_def stores_wf_def)
  have height: "bh_height (blk_header b) = cs_current_height (ns_chain n) + 1" by (rule accepted_reward(1) [OF a(1) top])
  have v: "block_valid X b (bh_height (blk_header b)) (cs_latest_block_hash (ns_chain n)) (last_timestamp n) (next_difficulty n) now"
    "bh_state_root (blk_header b) = cs_state_root (ns_chain n)"
    using a(1) top by (simp_all add: accept_block_iff height wrap_add64_def U64_MAX_def)
  define i1 f1 where "i1 = cs_finality_refiners (ns_chain n1)" and "f1 = cs_finalized_height (ns_chain n1)"
  have c1: "ns_chain n1 = (ns_chain n)\<lparr>cs_finality_refiners := i1, cs_finalized_height := f1\<rparr>"
    using apply_attestations_frame(9) [OF a(2)] by (simp add: i1_def f1_def)
  have fin: "cs_finalized_height (ns_chain n) \<le> f1" "f1 < bh_height (blk_header b)"
    using apply_attestations_law(5,6) [OF ok a(2)] assms(3) height by (auto simp: f1_def)
  define i' b' m where "i' = issued n'" and "b' = burned n'" and "m = cs_producer_signatures
     (ns_chain (snd (detect_double_sign X b (snd (apply_slashing X b n1)))))"
  have c': "ns_chain n' = (advanced (blk_header b) g i' b' fee ((ns_chain n1)\<lparr>cs_producer_signatures := m\<rparr>))
       \<lparr>cs_state_root := root,
        cs_mint_ledger := record_receipt (make_receipt kind (blk_header b) g o1) (cs_mint_ledger (ns_chain n))\<rparr>"
    using a(4) by (simp only: i'_def b'_def m_def)
  have ts: "last_timestamp n' = bh_timestamp (blk_header b)"
    by (simp add: last_timestamp_def c' advanced_def prune_block_timestamps_eq BLOCK_TIMESTAMP_WINDOW_LEN_def Let_def)
  show ?thesis
    using v fin a(3,5) height ts
    by (simp add: Let_def c' c1 advanced_def block_valid_def header_and_size_valid_def)
qed

section \<open>Acceptance\<close>

text \<open>
  C16: an accepted block extends the chain by one. It carries the next height, the hash of the tip, the
  state root of the parent state, the difficulty the node computes and a timestamp at least half the
  target time after the last one, and its production proof was checked. Afterwards it is the tip:
  height, hash and difficulty are its own, its timestamp is the last one in the window, genesis hash
  and base reward are unchanged, the finalized height has not fallen and is below the block, and the
  stored state root is the root of the new accounts, refiners, supply and height.
\<close>

theorem accepted_block_extends_chain:
  fixes n n' :: node_state
  assumes "can_grow X b n" and "apply_block X now_secs b n = Some (Inr g, n')"
    and "cs_finalized_height (ns_chain n) \<le> cs_current_height (ns_chain n)"
  shows "let h = blk_header b; c = ns_chain n; c' = ns_chain n' in
      g = compute_block_hash X h \<and> bh_height h = cs_current_height c + 1 \<and>
      bh_previous_hash h = cs_latest_block_hash c \<and> bh_state_root h = cs_state_root c \<and>
      bh_difficulty h = next_difficulty n \<and> sat_add64 (last_timestamp n) 45 \<le> bh_timestamp h \<and>
      production_valid X b (bh_height h) \<and>
      cs_current_height c' = bh_height h \<and> cs_latest_block_hash c' = g \<and> cs_current_difficulty c' = bh_difficulty h \<and>
      last_timestamp n' = bh_timestamp h \<and>
      cs_genesis_hash c' = cs_genesis_hash c \<and> cs_base_reward c' = cs_base_reward c \<and>
      cs_finalized_height c \<le> cs_finalized_height c' \<and> cs_finalized_height c' < bh_height h \<and>
      root_of X n' = Inr (cs_state_root c')"
  by (rule accepted_link [OF assms])

theorem accepted_block_extends_chain_witness:
  "\<exists>n'. apply_block demo_x 90 demo_first demo_node = Some (Inr (Hash 7), n') \<and>
     cs_current_height (ns_chain n') = 1 \<and> cs_latest_block_hash (ns_chain n') = Hash 7"
proof -
  obtain n' where run: "apply_block demo_x 90 demo_first demo_node = Some (Inr (Hash 7), n')" by (rule demo_applies)
  have "cs_finalized_height (ns_chain demo_node) \<le> cs_current_height (ns_chain demo_node)"
    by (simp add: demo_node_def demo_chain_def)
  from accepted_block_extends_chain [OF demo_can_grow run this] run show ?thesis
    by (simp add: Let_def demo_first_def)
qed

text \<open>
  C17: a block that passes the checks commits. Once acceptance, the attestations and the producer
  checks have passed on a state whose supply adds up, none of the later error returns can be taken:
  no credit, fee total, burn total or matured unbond overflows, and the block is applied.
\<close>

theorem checked_block_commits:
  assumes "can_grow X b n" and "borsh_total X"
    and "accept_block X now_secs b n = Inr kind" and "apply_attestations X b n = (Inr (), n1)"
    and "check_producer X kind b n1 = Some (Inr ())"
  shows "\<exists>n'. apply_block X now_secs b n = Some (Inr (compute_block_hash X (blk_header b)), n')"
  using checked_block_result [OF assms] by blast

theorem checked_block_commits_witness:
  "\<exists>n'. apply_block demo_x 90 demo_first demo_node = Some (Inr (compute_block_hash demo_x (blk_header demo_first)), n')"
  by (rule checked_block_commits [OF demo_can_grow demo_borsh demo_accept demo_checks])

end
