(* ===== verification/Node_Reach.thy ===== *)
theory Node_Reach
  imports Node_Props
begin

text \<open>
  When mining is possible, what a rejected block leaves behind, and the chains that a freshly
  started node can reach.
\<close>

section \<open>The consensus floor\<close>

text \<open>A sole refiner with the minimum bond puts the floor at the square root of the supply.\<close>

lemma minimum_bond_floor:
  assumes "66049 * FLAKES_PER_OPL \<le> minted" and "minted \<le> U64_MAX"
  shows "256 < minted div minimum_bond_stake minted"
proof -
  define opl s where "opl = minted div FLAKES_PER_OPL" and "s = refiner_sqrt_floor opl"
  have opl: "66049 \<le> opl" "opl \<le> U64_MAX"
    using assms div_le_mono [OF assms(1), of FLAKES_PER_OPL] div_le_dividend [of minted FLAKES_PER_OPL]
    by (simp_all add: opl_def FLAKES_PER_OPL_def)
  have bound: "opl < U128_MAX" using opl(2) by (simp add: U64_MAX_def U128_MAX_def)
  have s: "257 \<le> s" "s * s \<le> opl"
    using refiner_sqrt.isqrt_greatest [OF bound, of 257] refiner_sqrt.isqrt_le [OF bound] opl(1) by (simp_all add: s_def)
  have "s \<le> U64_MAX" using refiner_sqrt.isqrt_self_le [OF bound] opl(2) by (simp add: s_def)
  then have "sat_mul128 s FLAKES_PER_OPL = s * FLAKES_PER_OPL"
    by (simp add: sat_mul128_def U64_MAX_def U128_MAX_def FLAKES_PER_OPL_def)
  moreover have "s * FLAKES_PER_OPL \<le> U64_MAX"
  proof -
    have "s \<le> opl" using s by (metis le_trans mult_le_mono1 mult_1 one_le_numeral)
    then have "s * FLAKES_PER_OPL \<le> opl * FLAKES_PER_OPL" by (rule mult_le_mono1)
    also have "\<dots> \<le> minted" by (simp add: opl_def)
    finally show ?thesis using assms(2) by (rule le_trans)
  qed
  ultimately have m: "minimum_bond_stake minted = s * FLAKES_PER_OPL"
    using s(1) by (simp add: minimum_bond_stake_def Let_def opl_def [symmetric] s_def [symmetric] max_def min_absorb1)
  have "257 * (s * FLAKES_PER_OPL) \<le> (s * s) * FLAKES_PER_OPL" using s(1) by simp
  also have "\<dots> \<le> opl * FLAKES_PER_OPL" using s(2) by (rule mult_le_mono1)
  also have "\<dots> \<le> minted" by (simp add: opl_def)
  finally have "257 * (s * FLAKES_PER_OPL) \<le> minted" .
  moreover have "0 < s * FLAKES_PER_OPL" using s(1) by (simp add: FLAKES_PER_OPL_def)
  ultimately have "257 \<le> minted div (s * FLAKES_PER_OPL)" by (simp add: less_eq_div_iff_mult_less_eq)
  then show ?thesis by (simp add: m)
qed

text \<open>
  C18: mining stops when a stake is bonded and low against the supply. The consensus floor, a ratio of
  coins, is used as a number of leading zero bits: while a stake that is not zero is bonded and the issued supply
  divided by it, rounded down, is above 256, so at least 257 times the stake, no mined block is accepted. A sole
  refiner bonding the minimum reaches that point as soon as 66049 OPL are issued. Without any bonded stake
  the floor is zero and the property says nothing.
\<close>

theorem consensus_floor_stops_mining:
  assumes "cs_current_height (ns_chain n) < U64_MAX" and "0 < total_bonded_stake (ns_refiners n)"
  shows "(256 < issued n div total_bonded_stake (ns_refiners n) \<longrightarrow> accept_block X now_secs b n \<noteq> Inr Mined)
    \<and> (total_bonded_stake (ns_refiners n) = minimum_bond_stake (issued n) \<and>
       66049 * FLAKES_PER_OPL \<le> issued n \<and> issued n \<le> U64_MAX \<longrightarrow> accept_block X now_secs b n \<noteq> Inr Mined)"
proof -
  let ?s = "total_bonded_stake (ns_refiners n)"
  have stop: "accept_block X now_secs b n \<noteq> Inr Mined" if "256 < issued n div ?s"
  proof
    assume acc: "accept_block X now_secs b n = Inr Mined"
    have "bh_difficulty (blk_header b) \<le> 256" using accepted_reward(6) [OF acc assms(1)] by simp
    moreover have "bh_difficulty (blk_header b) = next_difficulty n"
      using acc by (simp add: accept_block_iff block_valid_def header_and_size_valid_def Let_def)
    moreover have "issued n div ?s \<le> next_difficulty n"
      unfolding next_difficulty_def Let_def issued_def using assms(2) by (rule next_difficulty_floor)
    ultimately show False using that by linarith
  qed
  then show ?thesis using minimum_bond_floor by auto
qed

theorem consensus_floor_stops_mining_witness:
  "\<exists>n. total_bonded_stake (ns_refiners n) = 1000000 \<and> issued n = 300000000 \<and>
     (\<forall>now_secs b. accept_block demo_x now_secs b n \<noteq> Inr Mined)"
proof -
  let ?i = "ObjectId (Hash 5)"
  let ?n = "(on_chain (\<lambda>c. c\<lparr>cs_total_issued := 300000000\<rparr>) demo_node)
    \<lparr>ns_refiners := refiner_set_new\<lparr>rs_refiners := [(?i, refiner_new ?i 1000000 0 0)]\<rparr>\<rparr>"
  have s: "total_bonded_stake (ns_refiners ?n) = 1000000"
    by (simp add: total_bonded_stake_def refiner_set_new_def active_refiners_def map_filter_def wrap64_def sat_add64_def
        refiner_new_def total_stake_def U64_MAX_def)
  have h: "cs_current_height (ns_chain ?n) < U64_MAX" by (simp add: demo_node_def demo_chain_def U64_MAX_def)
  have i: "issued ?n = 300000000" by (simp add: issued_def)
  have pos: "0 < total_bonded_stake (ns_refiners ?n)" unfolding s by simp
  have "accept_block demo_x now_secs b ?n \<noteq> Inr Mined" for now_secs b
    using consensus_floor_stops_mining [OF h pos, of demo_x now_secs b] unfolding s i by simp
  with s i show ?thesis by blast
qed

section \<open>Reachable nodes\<close>

text \<open>
  A node started on a disk without a chain, then whatever the process does: it applies blocks, takes
  attestations and transactions from its peers, draws block templates and bans peers. A block step
  is taken below the end of the ranges of height and supply.
\<close>

inductive node_reachable :: "'x node_externs_scheme \<Rightarrow> genesis_config \<Rightarrow> node_state \<Rightarrow> bool" for X config where
  node_start: "start_node X config key_file disk bans = Inr n \<Longrightarrow> open_store X disk = Inr db \<Longrightarrow>
     load_chain_state X db = Inr None \<Longrightarrow> node_reachable X config n"
| node_block: "node_reachable X config n \<Longrightarrow> cs_current_height (ns_chain n) < U64_MAX \<Longrightarrow>
     issued n + block_issue X b n \<le> U64_MAX \<Longrightarrow> apply_block X now b n = Some (r, n') \<Longrightarrow> node_reachable X config n'"
| node_attest: "node_reachable X config n \<Longrightarrow> accept_block_attestation X a n = (r, n') \<Longrightarrow> node_reachable X config n'"
| node_template: "node_reachable X config n \<Longrightarrow> block_template X now n = (t, n') \<Longrightarrow> node_reachable X config n'"
| node_pool: "node_reachable X config n \<Longrightarrow> node_reachable X config (n\<lparr>ns_mempool := p\<rparr>)"
| node_ban: "node_reachable X config n \<Longrightarrow> node_reachable X config (ban_peer now peer reason permanent n)"

text \<open>The mint ledger accounts for every coin issued and every coin burned.\<close>

definition ledger_exact :: "node_state \<Rightarrow> bool" where
  "ledger_exact n \<longleftrightarrow> (let l = cs_mint_ledger (ns_chain n) in
     issued n = ml_genesis_issued l + ml_mined_gross_reward l \<and>
     burned n = ml_mine_assay_burned l + ml_ordinary_fees_burned l + ml_bond_unbond_assay_burned l + ml_slashed_stake_burned l)"

definition keys_le :: "(nat \<times> 'k, 'v) hash_map \<Rightarrow> nat \<Rightarrow> bool" where
  "keys_le m h \<longleftrightarrow> (\<forall>k v. hm_get m k = Some v \<longrightarrow> fst k \<le> h)"

lemma keys_leD: "keys_le m h \<Longrightarrow> hm_get m k = Some v \<Longrightarrow> fst k \<le> h"
  unfolding keys_le_def by blast

lemma keys_leI: "(\<And>k v. hm_get m k = Some v \<Longrightarrow> fst k \<le> h) \<Longrightarrow> keys_le m h"
  unfolding keys_le_def by blast

lemma keys_le_mono: "keys_le m h \<Longrightarrow> h \<le> h' \<Longrightarrow> keys_le m h'"
  unfolding keys_le_def using le_trans by blast

definition heights_bounded :: "node_state \<Rightarrow> bool" where
  "heights_bounded n \<longleftrightarrow> (let c = ns_chain n in
     cs_finalized_height c \<le> cs_current_height c \<and>
     keys_le (cs_finality_refiners c) (cs_current_height c) \<and> keys_le (cs_producer_signatures c) (cs_current_height c))"

definition node_inv :: "node_state \<Rightarrow> bool" where
  "node_inv n \<longleftrightarrow> supply_ok n \<and> index_ok (cs_finality_refiners (ns_chain n)) \<and> ledger_exact n \<and> heights_bounded n \<and>
     ns_pending_evidence n = []"

lemma node_inv_frame:
  assumes "node_inv n" and "ns_chain n' = ns_chain n" "ns_accounts n' = ns_accounts n" "ns_refiners n' = ns_refiners n"
    "ns_pending_evidence n' = ns_pending_evidence n"
  shows "node_inv n'"
  using assms by (simp add: node_inv_def supply_ok_def supply_defs ledger_exact_def heights_bounded_def)

text \<open>No signature of an earlier block stands in the way of a new one.\<close>

lemma detect_nothing:
  assumes below: "keys_le (cs_producer_signatures (ns_chain n)) h" and new: "bh_height (blk_header b) = h + 1"
  shows "fst (detect_double_sign X b n) = []"
    and "keys_le (cs_producer_signatures (ns_chain (snd (detect_double_sign X b n)))) (h + 1)"
proof -
  have none: "hm_get (cs_producer_signatures (ns_chain n)) (bh_height (blk_header b), i) = None" for i
    using keys_leD [OF below, of "(bh_height (blk_header b), i)"] new
    by (cases "hm_get (cs_producer_signatures (ns_chain n)) (bh_height (blk_header b), i)") simp_all
  show "fst (detect_double_sign X b n) = []"
    by (simp add: detect_double_sign_def Let_def none split: option.split)
  have wide: "keys_le (cs_producer_signatures (ns_chain n)) (h + 1)" using below by (rule keys_le_mono) simp
  have put: "keys_le (hm_put (bh_height (blk_header b), i) v (cs_producer_signatures (ns_chain n))) (h + 1)" for i v
    using keys_leD [OF wide] new by (intro keys_leI) (auto simp: hm_get_put split: if_splits)
  show "keys_le (cs_producer_signatures (ns_chain (snd (detect_double_sign X b n)))) (h + 1)"
    using wide put by (simp add: detect_double_sign_def Let_def none split: option.split)
qed

lemma apply_slashing_signatures:
  "cs_producer_signatures (ns_chain (snd (apply_slashing X b n))) = cs_producer_signatures (ns_chain n)"
  by (simp add: apply_slashing_def Let_def)

lemma record_receipt_exact:
  fixes l :: mint_ledger_totals and kind :: block_production_kind and h :: block_header and hash :: hash
    and o1 :: block_outcome and g :: nat
  assumes "ml_genesis_issued l + ml_mined_gross_reward l + g \<le> U64_MAX"
    and "ml_mine_assay_burned l + ml_ordinary_fees_burned l + ml_bond_unbond_assay_burned l + ml_slashed_stake_burned l
      + total_destroyed o1 \<le> U64_MAX"
    and "kind = Mined \<and> g = rd_gross_reward (bo_reward o1) \<or> kind = Refined \<and> g = 0"
  defines "l' \<equiv> record_receipt (make_receipt kind h hash o1) l"
  shows "ml_genesis_issued l' + ml_mined_gross_reward l' = ml_genesis_issued l + ml_mined_gross_reward l + g"
    and "ml_mine_assay_burned l' + ml_ordinary_fees_burned l' + ml_bond_unbond_assay_burned l' + ml_slashed_stake_burned l' =
      ml_mine_assay_burned l + ml_ordinary_fees_burned l + ml_bond_unbond_assay_burned l + ml_slashed_stake_burned l
      + total_destroyed o1"
  using assms(3) assms(1,2)
  by (auto simp: l'_def record_receipt_def make_receipt_def Let_def total_destroyed_def sat_add64_exact)

lemma counted_heights:
  assumes acc: "accept_block X now b n = Inr kind" and top: "cs_current_height (ns_chain n) < U64_MAX"
    and wf: "refiners_wf (ns_refiners n)" and index: "index_ok (cs_finality_refiners (ns_chain n))"
    and hb: "heights_bounded n" and att: "apply_attestations X b n = (s, m)"
  shows "heights_bounded m"
proof -
  have h: "bh_height (blk_header b) = cs_current_height (ns_chain n) + 1" by (rule accepted_reward(1) [OF acc top])
  define i1 f1 where "i1 = cs_finality_refiners (ns_chain m)" and "f1 = cs_finalized_height (ns_chain m)"
  have c1: "ns_chain m = (ns_chain n)\<lparr>cs_finality_refiners := i1, cs_finalized_height := f1\<rparr>"
    using apply_attestations_frame(9) [OF att] by (simp add: i1_def f1_def)
  note l = apply_attestations_law [OF wf index att]
  have b: "cs_finalized_height (ns_chain n) \<le> cs_current_height (ns_chain n)"
    "keys_le (cs_finality_refiners (ns_chain n)) (cs_current_height (ns_chain n))"
    "keys_le (cs_producer_signatures (ns_chain n)) (cs_current_height (ns_chain n))"
    using hb by (simp_all add: heights_bounded_def Let_def)
  have "keys_le i1 (cs_current_height (ns_chain n))"
  proof (rule keys_leI)
    fix k v
    assume "hm_get i1 k = Some v"
    then consider "k \<in> fst ` set (cs_finality_refiners (ns_chain n))" | "fst k < bh_height (blk_header b)"
      using l(4) unfolding i1_def by blast
    then show "fst k \<le> cs_current_height (ns_chain n)"
    proof cases
      case 1
      then have "hm_get (cs_finality_refiners (ns_chain n)) k \<noteq> None" unfolding hm_get_None_iff by blast
      then show ?thesis using keys_leD [OF b(2)] by blast
    qed (simp add: h)
  qed
  moreover have "f1 \<le> cs_current_height (ns_chain n)" using l(6) h b(1) by (auto simp: f1_def)
  ultimately show ?thesis using b(3) by (simp add: heights_bounded_def Let_def c1)
qed

lemma node_inv_rejected:
  fixes X :: "'x storage_externs_scheme"
  assumes inv: "node_inv n" and acc: "accept_block X now b n = Inr kind" and top: "cs_current_height (ns_chain n) < U64_MAX"
    and att: "apply_attestations X b n = (s, m)"
  shows "node_inv m"
proof -
  have ok: "refiners_wf (ns_refiners n)" "index_ok (cs_finality_refiners (ns_chain n))" "supply_ok n" "heights_bounded n"
    using inv by (simp_all add: node_inv_def supply_ok_def stores_wf_def)
  define i1 f1 where "i1 = cs_finality_refiners (ns_chain m)" and "f1 = cs_finalized_height (ns_chain m)"
  have c1: "ns_chain m = (ns_chain n)\<lparr>cs_finality_refiners := i1, cs_finalized_height := f1\<rparr>"
    using apply_attestations_frame(9) [OF att] by (simp add: i1_def f1_def)
  have "ledger_exact m" "ns_pending_evidence m = []"
    using inv apply_attestations_frame(4) [OF att] by (simp_all add: node_inv_def ledger_exact_def issued_def burned_def c1)
  then show ?thesis
    using counted_frame [OF ok(3,2) att] counted_heights [OF acc top ok(1,2,4) att] apply_attestations_law(3) [OF ok(1,2) att]
    by (simp add: node_inv_def)
qed

lemma node_inv_accepted:
  fixes X :: "'x storage_externs_scheme"
  assumes inv: "node_inv n" and grow: "can_grow X b n" and run: "apply_block X now b n = Some (Inr g, n')"
    and ok': "supply_ok n'"
  shows "node_inv n'"
proof -
  let ?h = "cs_current_height (ns_chain n)"
  have top: "?h < U64_MAX" using grow by (simp add: can_grow_def)
  obtain kind n1 o1 fee root n10 where a: "accept_block X now b n = Inr kind" "apply_attestations X b n = (Inr (), n1)"
    "ns_chain n' = (advanced (blk_header b) g (issued n') (burned n') fee
       ((ns_chain n1)\<lparr>cs_producer_signatures := cs_producer_signatures
          (ns_chain (snd (detect_double_sign X b (snd (apply_slashing X b n1)))))\<rparr>))
       \<lparr>cs_state_root := root,
        cs_mint_ledger := record_receipt (make_receipt kind (blk_header b) g o1) (cs_mint_ledger (ns_chain n))\<rparr>"
    "burned n' = burned n + total_destroyed o1" "issued n' = issued n + block_issue X b n"
    "bo_reward o1 = block_reward_distribution X kind (blk_header b) (total_bonded_stake (ns_refiners n)) (ns_chain n)"
    "n' = finish_block X b kind g o1 (fst (detect_double_sign X b (snd (apply_slashing X b n1))))
       (on_chain (\<lambda>c. c\<lparr>cs_state_root := root\<rparr>) n10)" "ns_pending_evidence n10 = ns_pending_evidence n"
    by (rule accepted_block [OF grow run])
  have h: "bh_height (blk_header b) = ?h + 1" by (rule accepted_reward(1) [OF a(1) top])
  have inv1: "node_inv n1" by (rule node_inv_rejected [OF inv a(1) top a(2)])
  define i1 f1 where "i1 = cs_finality_refiners (ns_chain n1)" and "f1 = cs_finalized_height (ns_chain n1)"
  have c1: "ns_chain n1 = (ns_chain n)\<lparr>cs_finality_refiners := i1, cs_finalized_height := f1\<rparr>"
    using apply_attestations_frame(9) [OF a(2)] by (simp add: i1_def f1_def)
  have b1: "f1 \<le> ?h" "keys_le i1 ?h" "keys_le (cs_producer_signatures (ns_chain n)) ?h" "index_ok i1"
    using inv1 by (simp_all add: node_inv_def heights_bounded_def Let_def c1)
  have sl: "keys_le (cs_producer_signatures (ns_chain (snd (apply_slashing X b n1)))) ?h"
    using b1(3) by (simp add: apply_slashing_signatures c1)
  note det = detect_nothing [OF sl h, of X]
  define i' b' m where "i' = issued n'" and "b' = burned n'" and "m = cs_producer_signatures
     (ns_chain (snd (detect_double_sign X b (snd (apply_slashing X b n1)))))"
  let ?l = "cs_mint_ledger (ns_chain n)"
  have c': "ns_chain n' = (advanced (blk_header b) g i' b' fee ((ns_chain n1)\<lparr>cs_producer_signatures := m\<rparr>))
       \<lparr>cs_state_root := root, cs_mint_ledger := record_receipt (make_receipt kind (blk_header b) g o1) ?l\<rparr>"
    using a(3) by (simp only: i'_def b'_def m_def)
  have evidence: "ns_pending_evidence n' = []"
    using inv a(8) by (simp add: a(7) det(1) finish_block_def Let_def queue_slash_evidence_def persist_state_def
        remove_accepted_slash_evidence_def node_inv_def split: option.split)
  have led: "issued n = ml_genesis_issued ?l + ml_mined_gross_reward ?l"
    "burned n = ml_mine_assay_burned ?l + ml_ordinary_fees_burned ?l + ml_bond_unbond_assay_burned ?l + ml_slashed_stake_burned ?l"
    using inv by (simp_all add: node_inv_def ledger_exact_def Let_def)
  have fits: "issued n + block_issue X b n \<le> U64_MAX" "burned n + total_destroyed o1 \<le> U64_MAX"
    using ok' a(4,5) by (simp_all add: supply_ok_def)
  have k: "production_kind (blk_header b) = Some kind" using a(1) by (simp add: accept_block_iff)
  have kind: "kind = Mined \<and> block_issue X b n = rd_gross_reward (bo_reward o1) \<or> kind = Refined \<and> block_issue X b n = 0"
    using accepted_reward(4) [OF a(1) top, of "total_bonded_stake (ns_refiners n)"] accepted_reward(5) [OF a(1) top]
    by (auto simp: block_issue_def k a(6) gross_block_reward_def)
  have "ledger_exact n'"
    using record_receipt_exact [of ?l "block_issue X b n" o1 kind, OF _ _ kind] fits led a(4,5)
    by (simp add: ledger_exact_def Let_def c')
  moreover have "heights_bounded n'"
    using b1 det(2) keys_le_mono [OF b1(2), of "?h + 1"] by (simp add: heights_bounded_def Let_def c' c1 advanced_def h m_def)
  moreover have "index_ok (cs_finality_refiners (ns_chain n'))" using b1(4) by (simp add: c' c1 advanced_def)
  ultimately show ?thesis using ok' evidence by (simp add: node_inv_def)
qed

lemma node_inv_block:
  fixes X :: "'x storage_externs_scheme"
  assumes inv: "node_inv n" and borsh: "borsh_total X" and top: "cs_current_height (ns_chain n) < U64_MAX"
    and bound: "issued n + block_issue X b n \<le> U64_MAX" and run: "apply_block X now b n = Some (r, n')"
  shows "node_inv n'"
proof -
  have grow: "can_grow X b n" using inv top bound by (simp add: can_grow_def node_inv_def)
  from run show ?thesis
  proof (cases rule: apply_block_cases)
    case (refused e)
    with inv show ?thesis by simp
  next
    case (counted kind e s)
    show ?thesis by (rule node_inv_rejected [OF inv counted(1) top counted(2)])
  next
    case (committed kind n1)
    then have r: "r = Inr (compute_block_hash X (blk_header b))"
      using checked_block_result [OF grow borsh committed(1,2,3)] run by simp
    show ?thesis
      using node_inv_accepted [OF inv grow run [unfolded r]] applied_supply [OF grow run] by blast
  qed
qed

section \<open>A fresh node\<close>

lemma ensure_local_producer_account_law:
  assumes "accounts_wf s" and "ensure_local_producer_account i pk s = (r, t)"
  shows "accounts_wf t \<and> total_balance t = total_balance s"
proof -
  define s1 where "s1 = (if hm_get s i = None then hm_put i (account_new i) s else s)"
  have s1: "accounts_wf s1" "total_balance s1 = total_balance s" "hm_get s1 i \<noteq> None"
    using assms(1) by (auto simp: s1_def total_balance_def hm_total_put_new hm_get_put intro!: wf_intros)
  have create: "(if get_account s i = None then snd (create_account i s) else s) = s1"
    by (simp add: s1_def get_account_def create_account_def)
  have "t = s \<or> t = s1 \<or> (\<exists>k. t = modify_account i (\<lambda>a. a\<lparr>acc_public_key := Some k\<rparr>) s1)"
    using assms(2) unfolding ensure_local_producer_account_def create Let_def
    by (auto split: option.splits if_splits)
  moreover have "accounts_wf (modify_account i (\<lambda>a. a\<lparr>acc_public_key := Some k\<rparr>) s1) \<and>
      total_balance (modify_account i (\<lambda>a. a\<lparr>acc_public_key := Some k\<rparr>) s1) = total_balance s1" for k
    using set_public_key_law(1,2) [where i = i and pk = k and s = s1] s1(1) by (simp add: total_balance_def)
  ultimately show ?thesis using assms(1) s1 by auto
qed

lemma chain_state_new_fields:
  assumes "chain_state_new X config = Inr c"
  shows "cs_current_height c = 0" "cs_total_issued c = 0" "cs_total_burned c = 0" "cs_finality_refiners c = []"
    "cs_producer_signatures c = []" "cs_finalized_height c = 0" "cs_mint_ledger c = mint_ledger_default"
    "cs_base_reward c = gn_base_reward config"
  using assms by (auto simp: chain_state_new_def and_then_Inr_iff Let_def)

lemma fresh_chain_ok:
  assumes "fresh_chain X config = Inr (c, accounts, refiners)"
  obtains c0 amount where "chain_state_new X config = Inr c0" "amount \<le> U64_MAX"
    "c = c0\<lparr>cs_total_issued := amount, cs_mint_ledger := record_genesis_issuance amount mint_ledger_default\<rparr>"
    "accounts_wf accounts" "total_balance accounts = amount" "refiners = refiner_set_new"
proof -
  obtain c0 where c0: "chain_state_new X config = Inr c0"
    using assms by (auto simp: fresh_chain_def and_then_Inr_iff)
  note f = chain_state_new_fields [OF c0]
  obtain r t where run: "apply_genesis_entries (gn_accounts config) 0 account_store_new = (r, t)" by (metis surj_pair)
  have e: "accounts_wf account_store_new" "hm_total acc_balance account_store_new = 0"
    by (simp_all add: account_store_new_def accounts_wf_def hm_total_def)
  obtain v where r: "r = Inr v"
    using assms run by (cases r) (simp_all add: fresh_chain_def c0 apply_genesis_accounts_def)
  have law: "genesis_amount (gn_accounts config) \<le> U64_MAX \<and> v = genesis_amount (gn_accounts config) \<and> accounts_wf t \<and>
      hm_total acc_balance t = genesis_amount (gn_accounts config)"
    using apply_genesis_entries_law [OF e(1), of 0 "gn_accounts config"] e(2) run r by (simp split: if_splits)
  have "c = c0\<lparr>cs_total_issued := sat_add64 0 v, cs_mint_ledger := record_genesis_issuance v mint_ledger_default\<rparr>"
    "accounts = t" "refiners = refiner_set_new"
    using assms run r f by (simp_all add: fresh_chain_def c0 apply_genesis_accounts_def)
  then show thesis using that [OF c0, of v] law by (simp add: sat_add64_def total_balance_def)
qed

lemma start_node_fresh:
  assumes "start_node X config key_file disk bans = Inr n" and "open_store X disk = Inr db"
    and "load_chain_state X db = Inr None"
  obtains c accounts where "fresh_chain X config = Inr (c, accounts, ns_refiners n)" "ns_chain n = c"
    "fst (ensure_local_producer_account (ns_miner_id n) (map_option (x_ed25519_public_key X) (ns_signing_key n)) accounts) = Inr ()"
    "ns_accounts n = snd (ensure_local_producer_account (ns_miner_id n) (map_option (x_ed25519_public_key X) (ns_signing_key n)) accounts)"
    "ns_pending_evidence n = []" "ns_store n = Some db" "ns_pending_attestations n = []"
    "load_identity X key_file = (ns_miner_id n, ns_signing_key n)" "ns_mempool n = mempool_new"
proof -
  obtain i k where id: "load_identity X key_file = (i, k)" by (metis surj_pair)
  obtain e where e: "chain_state_new X config = Inr e"
    using assms(1) by (auto simp: start_node_def id and_then_Inr_iff)
  obtain c accounts refiners where f: "fresh_chain X config = Inr (c, accounts, refiners)"
    using assms by (auto simp: start_node_def id e and_then_Inr_iff)
  obtain r t where loc: "ensure_local_producer_account i (map_option (x_ed25519_public_key X) k) accounts = (r, t)"
    by (metis surj_pair)
  then obtain u where "r = Inr u" using assms by (cases r) (simp_all add: start_node_def id e f)
  then have n: "n = \<lparr> ns_chain = c, ns_accounts = t, ns_refiners = refiners, ns_mempool = mempool_new,
                ns_store = Some db, ns_miner_id = i, ns_signing_key = k,
                ns_pending_evidence = [], ns_pending_attestations = [], ns_refiner_peers = [],
                ns_banned_peers = bans \<rparr>"
    using assms loc by (simp add: start_node_def id e f)
  show thesis
    by (rule that [of c accounts]) (use f loc id \<open>r = Inr u\<close> in \<open>simp_all add: n\<close>)
qed

lemma node_inv_start:
  assumes "start_node X config key_file disk bans = Inr n" and "open_store X disk = Inr db"
    and "load_chain_state X db = Inr None"
  shows "node_inv n"
proof -
  obtain c accounts where s: "fresh_chain X config = Inr (c, accounts, ns_refiners n)" "ns_chain n = c"
    "ns_accounts n = snd (ensure_local_producer_account (ns_miner_id n) (map_option (x_ed25519_public_key X) (ns_signing_key n)) accounts)"
    "ns_pending_evidence n = []"
    by (rule start_node_fresh [OF assms])
  obtain c0 amount where f: "chain_state_new X config = Inr c0" "amount \<le> U64_MAX"
    "c = c0\<lparr>cs_total_issued := amount, cs_mint_ledger := record_genesis_issuance amount mint_ledger_default\<rparr>"
    "accounts_wf accounts" "total_balance accounts = amount" "ns_refiners n = refiner_set_new"
    by (rule fresh_chain_ok [OF s(1)])
  note z = chain_state_new_fields [OF f(1)]
  have "accounts_wf (ns_accounts n) \<and> total_balance (ns_accounts n) = amount"
    using ensure_local_producer_account_law [OF f(4)] f(5) s(3) by (metis prod.collapse)
  moreover have "custody refiner_set_new = 0" by (simp add: custody_def refiner_set_new_def queue_sum_def hm_total_def)
  ultimately show ?thesis
    using f(2,6) refiners_wf_new s(4) z
    by (simp add: node_inv_def supply_ok_def supply_defs s(2) f(3) ledger_exact_def heights_bounded_def Let_def
        index_ok_def keys_le_def record_genesis_issuance_def mint_ledger_default_def sat_add64_def)
qed

section \<open>The invariant of reachable nodes\<close>

lemma accept_block_attestation_frame:
  "ns_chain (snd (accept_block_attestation X a n)) = ns_chain n"
  "ns_accounts (snd (accept_block_attestation X a n)) = ns_accounts n"
  "ns_refiners (snd (accept_block_attestation X a n)) = ns_refiners n"
  "ns_pending_evidence (snd (accept_block_attestation X a n)) = ns_pending_evidence n"
  by (simp_all add: accept_block_attestation_def Let_def split: sum.split)

lemma block_template_frame:
  "ns_chain (snd (block_template X now n)) = ns_chain n"
  "ns_accounts (snd (block_template X now n)) = ns_accounts n"
  "ns_refiners (snd (block_template X now n)) = ns_refiners n"
  "ns_pending_evidence (snd (block_template X now n)) = ns_pending_evidence n"
  by (simp_all add: block_template_def drain_pending_attestations_for_block_def Let_def)

lemma node_reachable_inv:
  assumes "node_reachable X config n" and "borsh_total X"
  shows "node_inv n"
  using assms
proof (induction rule: node_reachable.induct)
  case (node_start key_file disk bans n db)
  show ?case by (rule node_inv_start [OF node_start.hyps])
next
  case (node_block n b now r n')
  show ?case
    by (rule node_inv_block [OF node_block.IH [OF node_block.prems] node_block.prems node_block.hyps(2-4)])
next
  case (node_attest n a r n')
  then show ?case
    using accept_block_attestation_frame [of X a n] by (rule_tac node_inv_frame [of n n']) simp_all
next
  case (node_template n now t n')
  then show ?case using block_template_frame [of X now n] by (rule_tac node_inv_frame [of n n']) simp_all
next
  case (node_pool n p)
  then show ?case by (rule_tac node_inv_frame [of n]) simp_all
next
  case (node_ban n now peer reason permanent)
  then show ?case by (rule_tac node_inv_frame [of n]) (simp_all add: ban_peer_def Let_def)
qed

lemma template_evidence:
  assumes "block_template X now n = (Some t, m)"
  shows "blk_slash_evidence t = take MAX_SLASH_EVIDENCE_PER_BLOCK (ns_pending_evidence n)"
proof -
  have "pred_option (\<lambda>t. blk_slash_evidence t = pending_slash_evidence_for_block n) (fst (block_template X now n))"
    by (simp add: block_template_def Let_def split: sum.split)
  then show ?thesis using assms by (simp add: pending_slash_evidence_for_block_def)
qed

text \<open>
  Every node that a fresh start can reach keeps its books. Accounts and refiner set are well formed,
  balances, custody and burned coins add up to the issued supply, and the mint ledger splits that
  supply exactly into genesis issuance and mined rewards and the burned coins exactly into mine
  assays, fees, bond and unbond assays and slashed stake. The finalized height and every key of the
  finality index and of the signature index are at most the height of the chain.
\<close>

theorem reachable_node_invariant:
  assumes "node_reachable X config n" and "borsh_total X"
  shows "let c = ns_chain n; l = cs_mint_ledger c in
      accounts_wf (ns_accounts n) \<and> refiners_wf (ns_refiners n) \<and>
      total_balance (ns_accounts n) + custody (ns_refiners n) + cs_total_burned c = cs_total_issued c \<and>
      cs_total_issued c \<le> U64_MAX \<and>
      cs_total_issued c = ml_genesis_issued l + ml_mined_gross_reward l \<and>
      cs_total_burned c = ml_mine_assay_burned l + ml_ordinary_fees_burned l + ml_bond_unbond_assay_burned l +
        ml_slashed_stake_burned l \<and>
      cs_finalized_height c \<le> cs_current_height c \<and>
      (\<forall>k ids. hm_get (cs_finality_refiners c) k = Some ids \<longrightarrow> fst k \<le> cs_current_height c) \<and>
      (\<forall>k s. hm_get (cs_producer_signatures c) k = Some s \<longrightarrow> fst k \<le> cs_current_height c)"
  using node_reachable_inv [OF assms]
  unfolding node_inv_def supply_ok_def supply_defs ledger_exact_def heights_bounded_def keys_le_def Let_def
  by blast

lemma demo_reachable: "node_reachable demo_x genesis_config_default demo_node"
  by (rule node_start [OF demo_node_starts [OF demo_x_starts] demo_opens [OF demo_x_starts]])

theorem reachable_node_invariant_witness:
  "\<exists>n. cs_current_height (ns_chain n) = 1 \<and> node_reachable demo_x genesis_config_default n \<and>
     total_balance (ns_accounts n) + custody (ns_refiners n) + cs_total_burned (ns_chain n) = cs_total_issued (ns_chain n)"
proof -
  obtain n' where run: "apply_block demo_x 90 demo_first demo_node = Some (Inr (Hash 7), n')" by (rule demo_applies)
  have "cs_current_height (ns_chain n') = 1"
  proof -
    have "cs_finalized_height (ns_chain demo_node) \<le> cs_current_height (ns_chain demo_node)"
      by (simp add: demo_node_def demo_chain_def)
    from accepted_link [OF demo_can_grow run this] show ?thesis by (simp add: Let_def demo_first_def)
  qed
  moreover have "issued demo_node + block_issue demo_x demo_first demo_node \<le> U64_MAX"
    "cs_current_height (ns_chain demo_node) < U64_MAX" using demo_can_grow by (simp_all add: can_grow_def)
  then have reach: "node_reachable demo_x genesis_config_default n'" by (intro node_block [OF demo_reachable _ _ run])
  ultimately show ?thesis
    using reachable_node_invariant [OF reach demo_borsh] by (auto simp: Let_def)
qed

text \<open>
  C19: double signing is never detected. The detection compares a new block with an earlier signature
  at the same height, but every block that is applied is one above the tip, where no signature is
  stored. So no reachable node ever queues evidence, and no block it builds carries any.
\<close>

theorem no_evidence_is_ever_queued:
  assumes "node_reachable X config n" and "borsh_total X"
  shows "ns_pending_evidence n = [] \<and>
     (\<forall>now_secs t m. block_template X now_secs n = (Some t, m) \<longrightarrow> blk_slash_evidence t = [])"
  using node_reachable_inv [OF assms] template_evidence by (fastforce simp: node_inv_def)

theorem no_evidence_is_ever_queued_witness:
  "ns_pending_evidence demo_node = []"
  using no_evidence_is_ever_queued [OF demo_reachable demo_borsh] by blast

end
