(* ===== verification/Node_Start.thy ===== *)
theory Node_Start
  imports Node_Reach
begin

text \<open>
  Starting a node: whose blocks a fresh node takes, and what a restart on a saved database restores.
\<close>

section \<open>The producers a node knows\<close>

text \<open>An accepted block names a producer that already has an account with a public key of 32 bytes.\<close>

lemma accepted_producer:
  assumes run: "apply_block X now b n = Some (Inr g, n')" and top: "cs_current_height (ns_chain n) < U64_MAX"
  obtains a pk where "get_account (ns_accounts n) (bh_producer (blk_header b)) = Some a"
    "acc_public_key a = Some pk" "length pk = 32"
  using run
proof (cases rule: apply_block_cases)
  case (committed kind n1)
  have acc: "ns_accounts n1 = ns_accounts n" by (rule apply_attestations_frame(1) [OF committed(2)])
  have valid: "production_valid X b (cs_current_height (ns_chain n) + 1)" and kind: "production_kind (blk_header b) = Some kind"
    using committed(1) top by (simp_all add: accept_block_iff block_valid_def Let_def wrap_add64_def wrap64_def U64_MAX_def)
  have checks: "check_refiner_signature X (blk_header b) (ns_accounts n) = Inr ()"
    "check_mined_producer kind (blk_header b) (ns_accounts n) = Inr ()"
    using committed(3) by (auto simp: check_producer_def Let_def acc and_then_Inr_iff split: sum.splits)
  have nz: "\<not> hash_is_zero (object_id_hash (bh_producer (blk_header b)))"
    using valid by (simp add: production_valid_def Let_def hash_is_zero_def hash_zero_def)
  from valid kind consider "kind = Mined" | sig where "bh_refiner_signature (blk_header b) = Some sig"
    by (auto simp: production_valid_def Let_def)
  then show thesis
  proof cases
    case 1
    then show thesis
      using checks(2) by (auto simp: check_mined_producer_def and_then_Inr_iff split: option.splits if_splits intro: that)
  next
    case 2
    then show thesis
      using checks(1) nz by (auto simp: check_refiner_signature_def and_then_Inr_iff reject_msg_def split: if_splits intro: that)
  qed
qed simp_all

lemma genesis_entries_keys:
  "apply_genesis_entries es paid s = (r, t) \<Longrightarrow> hm_get t k \<noteq> None \<Longrightarrow> hm_get s k \<noteq> None \<or> k \<in> fst ` set es"
proof (induction es arbitrary: paid s r t)
  case Nil
  then show ?case by simp
next
  case (Cons e es)
  obtain i amount pk where e: "e = (i, amount, pk)" by (cases e)
  obtain s1 where s1: "ensure_genesis_account i s = (Inr (), s1)" using ensure_genesis_account_ok by blast
  have k1: "hm_get s1 k \<noteq> None \<Longrightarrow> hm_get s k \<noteq> None \<or> k = i" for k
    using s1 by (auto simp: ensure_genesis_account_def create_account_def get_account_def hm_get_put split: if_splits)
  define s2 where "s2 = (if pk \<noteq> [] then modify_account i (\<lambda>a. a\<lparr>acc_public_key := Some pk\<rparr>) s1 else s1)"
  have k2: "hm_get s2 k \<noteq> None \<Longrightarrow> hm_get s1 k \<noteq> None" for k
    by (auto simp: s2_def modify_account_def hm_get_put split: if_splits option.splits)
  obtain c s3 where cr: "credit i amount s2 = (c, s3)" by (metis surj_pair)
  have k3: "hm_get s3 k \<noteq> None \<Longrightarrow> hm_get s2 k \<noteq> None" for k
    using cr by (auto simp: credit_def hm_get_put split: option.splits if_splits)
  have "t = s3 \<or> (\<exists>j. apply_genesis_entries es j s3 = (r, t))"
    using Cons.prems(1) s1 cr by (auto simp: e s2_def [symmetric] Let_def split: sum.splits option.splits)
  then have "hm_get s3 k \<noteq> None \<or> k \<in> fst ` set es" using Cons.IH Cons.prems(2) by blast
  then have "hm_get s k \<noteq> None \<or> k = i \<or> k \<in> fst ` set es" using k1 k2 k3 by blast
  then show ?case by (auto simp: e)
qed

lemma local_producer_keys:
  "ensure_local_producer_account i pk s = (r, t) \<Longrightarrow> hm_get t k \<noteq> None \<Longrightarrow> hm_get s k \<noteq> None \<or> k = i"
  by (auto simp: ensure_local_producer_account_def get_account_def create_account_def modify_account_def hm_get_put Let_def
      split: option.splits if_splits)

text \<open>
  A freshly started node takes its first block from nobody but itself and the accounts of the
  genesis configuration. Accounts come from the genesis accounts and from the node's own key file, and
  a producer without an account is refused, mined or refined. With an empty list of genesis accounts,
  as the ceremony builds it, the first block of another miner is refused by every node.
\<close>

theorem first_block_is_own:
  assumes "start_node X config key_file disk bans = Inr n" and "open_store X disk = Inr db"
    and "load_chain_state X db = Inr None" and "apply_block X now b n = Some (Inr g, n')"
  shows "bh_producer (blk_header b) = ns_miner_id n \<or> bh_producer (blk_header b) \<in> fst ` set (gn_accounts config)"
proof -
  let ?p = "bh_producer (blk_header b)"
  obtain c accounts where s: "fresh_chain X config = Inr (c, accounts, ns_refiners n)" "ns_chain n = c"
    "ns_accounts n = snd (ensure_local_producer_account (ns_miner_id n) (map_option (x_ed25519_public_key X) (ns_signing_key n)) accounts)"
    by (rule start_node_fresh [OF assms(1-3)])
  obtain c0 where z: "chain_state_new X config = Inr c0" and h: "cs_current_height c = cs_current_height c0"
    by (rule fresh_chain_ok [OF s(1)]) simp
  have "cs_current_height (ns_chain n) < U64_MAX"
    using chain_state_new_fields(1) [OF z] h by (simp add: s(2) U64_MAX_def)
  then obtain a where "hm_get (ns_accounts n) ?p = Some a"
    using accepted_producer [OF assms(4)] by (metis get_account_def)
  then have "hm_get accounts ?p \<noteq> None \<or> ?p = ns_miner_id n"
    using local_producer_keys [OF surjective_pairing] s(3) by (metis option.distinct(1))
  moreover obtain r t where run: "apply_genesis_entries (gn_accounts config) 0 account_store_new = (r, t)"
    by (metis surj_pair)
  then have "t = accounts"
    using s(1) by (cases r) (auto simp: fresh_chain_def and_then_Inr_iff apply_genesis_accounts_def)
  with run have "apply_genesis_entries (gn_accounts config) 0 account_store_new = (r, accounts)" by simp
  ultimately show ?thesis
    using genesis_entries_keys [of "gn_accounts config" 0 account_store_new r accounts ?p]
    by (auto simp: account_store_new_def)
qed

theorem first_block_is_own_witness:
  "bh_producer (blk_header demo_first) = ns_miner_id demo_node"
proof -
  obtain n' where "apply_block demo_x 90 demo_first demo_node = Some (Inr (Hash 7), n')"
    using demo_applies by blast
  from first_block_is_own [OF demo_node_starts [OF demo_x_starts] demo_opens [OF demo_x_starts] this] show ?thesis
    by (simp add: genesis_config_default_def)
qed

section \<open>Restarting\<close>

lemma opened_again:
  assumes "reads_work X" and "db (CfChainState, STORAGE_SCHEMA_VERSION_KEY) = Some (encode_value X (le_bytes 4 2))"
  shows "open_store X (Inr db) = Inr db"
  using assms le_value_le_bytes [of 4 2]
  by (simp add: open_store_def ensure_schema_version_def db_get_def reads_work_def STORAGE_SCHEMA_VERSION_def Let_def)

text \<open>
  The state of a node and a saved block, as the node holds them when it writes to an opened database.
\<close>

definition restartable :: "'x node_externs_scheme \<Rightarrow> genesis_config \<Rightarrow> block \<Rightarrow> block_economic_receipt \<Rightarrow> node_state \<Rightarrow> db \<Rightarrow> bool" where
  "restartable X config b receipt n db \<longleftrightarrow>
     hex_ok X \<and> reads_work X \<and>
     codecs_invert X b receipt (to_persisted (ns_chain n)) (ns_accounts n) (ns_refiners n) \<and>
     db (CfChainState, STORAGE_SCHEMA_VERSION_KEY) = Some (encode_value X (le_bytes 4 2)) \<and>
     accounts_wf (ns_accounts n) \<and> refiners_wf (ns_refiners n) \<and> chain_maps_ok (ns_chain n) \<and>
     distinct (map tx_id (blk_transactions b)) \<and> bh_height (blk_header b) \<le> U64_MAX \<and>
     (\<exists>c. chain_state_new X config = Inr c \<and> cs_genesis_hash c = cs_genesis_hash (ns_chain n))"

text \<open>
  C24: a restart continues where the saved block left off. Started on the database that a successful
  save left, under the same genesis configuration, the node has the chain state it saved, up to the
  order inside the finality index, the same accounts but for the one of its own key file, and the
  same refiners; its pools start empty and the database is not touched. The only start that
  fails is one whose key file contradicts the account of its id.
\<close>

theorem restart_restores_node:
  assumes ok: "restartable X config b receipt n db"
    and saved: "save_applied_block_atomic X b receipt (to_persisted (ns_chain n)) (ns_accounts n) (ns_refiners n) db = (Inr (), db')"
  shows "\<exists>c refiners. same_chain (ns_chain n) c \<and> same_refiners (ns_refiners n) refiners \<and> refiners_wf refiners \<and>
    start_node X config key_file (Inr db') bans =
      (case load_identity X key_file of (i, k) \<Rightarrow>
         case ensure_local_producer_account i (map_option (x_ed25519_public_key X) k) (ns_accounts n) of
           (Inl e, _) \<Rightarrow> Inl e
         | (Inr _, accounts) \<Rightarrow>
             Inr \<lparr> ns_chain = c, ns_accounts = accounts, ns_refiners = refiners, ns_mempool = mempool_new,
                   ns_store = Some db', ns_miner_id = i, ns_signing_key = k, ns_pending_evidence = [],
                   ns_pending_attestations = [], ns_refiner_peers = [], ns_banned_peers = bans \<rparr>)"
proof -
  note r = ok [unfolded restartable_def]
  obtain g where g: "chain_state_new X config = Inr g" "cs_genesis_hash g = cs_genesis_hash (ns_chain n)"
    using r by blast
  have load: "load_chain_state X db' = Inr (Some (to_persisted (ns_chain n)))" "load_accounts X db' = Inr (ns_accounts n)"
    "\<exists>refiners. load_refiners X db' = Inr refiners \<and> same_refiners (ns_refiners n) refiners \<and> refiners_wf refiners"
    using save_then_load [OF saved] r by simp_all
  then obtain refiners where refs: "load_refiners X db' = Inr refiners" "same_refiners (ns_refiners n) refiners" "refiners_wf refiners"
    by blast
  have "db' (CfChainState, STORAGE_SCHEMA_VERSION_KEY) = db (CfChainState, STORAGE_SCHEMA_VERSION_KEY)"
    by (rule save_keeps_column [OF saved]) (use schema_key_fresh in auto)
  then have opened: "open_store X (Inr db') = Inr db'" using r by (intro opened_again) simp_all
  have "restored_chain X (cs_genesis_hash g) db' (to_persisted (ns_chain n)) =
      Inr (from_persisted (to_persisted (ns_chain n)), ns_accounts n, refiners)"
    by (simp add: restored_chain_def load(2) refs(1) g(2), simp add: to_persisted_def)
  moreover have "same_chain (ns_chain n) (from_persisted (to_persisted (ns_chain n)))"
    using persisted_round_trip r by blast
  ultimately show ?thesis
    using refs by (intro exI [of _ "from_persisted (to_persisted (ns_chain n))"] exI [of _ refiners])
      (simp add: start_node_def g(1) opened load(1) split: prod.split)
qed

text \<open>A disk that remembers the node of the examples.\<close>

definition demo_disk :: node_externs where
  "demo_disk = demo_x\<lparr>x_unborsh_block := (\<lambda>_. Some demo_first),
     x_unborsh_chain_state := (\<lambda>_. Some (to_persisted demo_chain)),
     x_unborsh_accounts := (\<lambda>_. Some (all_accounts (ns_accounts demo_node)))\<rparr>"

lemma demo_restartable: "restartable demo_disk genesis_config_default demo_first demo_receipt demo_node demo_db"
proof -
  have hex: "hex_ok demo_disk"
    using demo_hex_inject length_demo_hex by (auto simp: hex_ok_def demo_disk_def demo_x_def intro: injI)
  have frame: "encode_value demo_disk p = encode_value demo_x p" for p
    by (simp add: encode_value_def hash_with_domain_eq demo_disk_def)
  have genesis: "chain_state_new demo_disk genesis_config_default = Inr demo_chain"
    by (simp add: chain_state_new_def build_genesis_block_def Let_def genesis_config_default_def demo_x_def demo_chain_def
        demo_disk_def compute_evidence_root_def compute_attestation_root_def compute_genesis_ceremony_hash_def
        hash_with_domain_def compute_block_hash_def hasher_finalize_def const_defs)
  have codecs: "codecs_invert demo_disk demo_first demo_receipt (to_persisted demo_chain) (ns_accounts demo_node)
      (ns_refiners demo_node)"
    by (simp add: codecs_invert_def demo_disk_def demo_x_def demo_node_def all_refiners_def refiner_set_new_def)
  have maps: "chain_maps_ok demo_chain"
    by (simp add: chain_maps_ok_def demo_chain_def hm_wf_def BLOCK_TIMESTAMP_WINDOW_LEN_def EPOCH_def)
  have "accounts_wf (ns_accounts demo_node)" "refiners_wf (ns_refiners demo_node)"
    using demo_supply(1) by (simp_all add: supply_ok_def stores_wf_def)
  then show ?thesis
    using hex codecs maps genesis frame unfolding restartable_def
    by (simp add: reads_work_def demo_db_def demo_first_def U64_MAX_def,
        simp add: demo_disk_def demo_x_def demo_node_def)
qed

theorem restart_restores_node_witness:
  "\<exists>db' c accounts refiners. start_node demo_disk genesis_config_default (Some (Inr (replicate 32 1))) (Inr db') [] =
      Inr \<lparr> ns_chain = c, ns_accounts = accounts, ns_refiners = refiners, ns_mempool = mempool_new,
            ns_store = Some db', ns_miner_id = ObjectId (Hash 7), ns_signing_key = Some (replicate 32 1),
            ns_pending_evidence = [], ns_pending_attestations = [], ns_refiner_peers = [], ns_banned_peers = [] \<rparr>
      \<and> same_chain demo_chain c"
proof -
  obtain db' where saved: "save_applied_block_atomic demo_disk demo_first demo_receipt (to_persisted (ns_chain demo_node))
      (ns_accounts demo_node) (ns_refiners demo_node) demo_db = (Inr (), db')"
    by (simp add: save_applied_block_atomic_def applied_block_batch_def Let_def demo_disk_def demo_x_def db_write_def
        all_refiners_def refiner_set_new_def demo_node_def)
  have i: "load_identity demo_disk (Some (Inr (replicate 32 1))) = (ObjectId (Hash 7), Some (replicate 32 1))"
    by (simp add: load_identity_def ed25519_public_key_to_object_id_def hash_with_domain_eq demo_x_def demo_disk_def)
  have "\<not> hash_is_zero (Hash 7)" by (simp add: hash_is_zero_def)
  then have e: "ensure_local_producer_account (ObjectId (Hash 7)) (Some (x_ed25519_public_key demo_disk (replicate 32 1)))
      (ns_accounts demo_node) = (Inr (), ns_accounts demo_node)"
    by (simp add: ensure_local_producer_account_def get_account_def demo_node_def hm_get_def demo_disk_def demo_x_def)
  have "ns_chain demo_node = demo_chain" by (simp add: demo_node_def)
  with restart_restores_node [OF demo_restartable saved, of "Some (Inr (replicate 32 1))" "[]"] i e
  show ?thesis by auto
qed

section \<open>A refused block\<close>

text \<open>
  A refused block touches nothing but the attestation records. Whatever the reason, accounts, mempool,
  store, pools and every field of the chain state except the finality index and the finalized height
  are as before, and no coin moves. Those two and the attestation counters of the refiners may move:
  attestations are counted before the producer is checked, and are not taken back.
\<close>

theorem refused_block_effects:
  fixes X :: "'x node_externs_scheme"
  assumes "can_grow X b n" and "borsh_total X" and "apply_block X now b n = Some (Inl e, n')"
  shows "ns_accounts n' = ns_accounts n \<and> ns_mempool n' = ns_mempool n \<and> ns_store n' = ns_store n \<and>
    ns_pending_evidence n' = ns_pending_evidence n \<and> ns_pending_attestations n' = ns_pending_attestations n \<and>
    ns_chain n' = (ns_chain n)\<lparr>cs_finality_refiners := cs_finality_refiners (ns_chain n'),
      cs_finalized_height := cs_finalized_height (ns_chain n')\<rparr> \<and>
    custody (ns_refiners n') = custody (ns_refiners n) \<and> refiners_wf (ns_refiners n')"
  using assms(3)
proof (cases rule: apply_block_cases)
  case (refused f)
  then show ?thesis using assms(1) by (simp add: can_grow_def supply_ok_def stores_wf_def)
next
  case (counted kind f s)
  have "refiners_wf (ns_refiners n)" "index_ok (cs_finality_refiners (ns_chain n))"
    using assms(1) by (simp_all add: can_grow_def supply_ok_def stores_wf_def)
  from apply_attestations_law(1,2) [OF this counted(2)] apply_attestations_frame [OF counted(2)]
  show ?thesis by blast
next
  case (committed kind n1)
  from checked_block_result [OF assms(1,2) committed(1,2,3)] assms(3) show ?thesis by simp
qed

text \<open>A refiner's attestation in a block whose producer has no account.\<close>

definition demo_refined :: block where
  "demo_refined = demo_first\<lparr>blk_header := (blk_header demo_first)\<lparr>bh_pow_proof := None,
     bh_refiner_signature := Some (replicate 64 0)\<rparr>\<rparr>"

definition demo_peer :: node_externs where
  "demo_peer = demo_x\<lparr>x_unborsh_block := (\<lambda>_. Some demo_refined)\<rparr>"

definition demo_attestation :: block_attestation where
  "demo_attestation = \<lparr> at_refiner = ObjectId (Hash 7), at_refiner_pubkey = replicate 32 0, at_height = 0,
     at_block_hash = Hash 7, at_signature = replicate 64 0 \<rparr>"

definition demo_unpaid :: block where
  "demo_unpaid = demo_first\<lparr>blk_header := (blk_header demo_first)\<lparr>bh_producer := ObjectId (Hash 5)\<rparr>,
     blk_attestations := [demo_attestation]\<rparr>"

definition demo_refiner :: "nat \<Rightarrow> refiner_set" where
  "demo_refiner k = refiner_set_new\<lparr>
     rs_refiners := [(ObjectId (Hash 7), (refiner_new (ObjectId (Hash 7)) 1 0 0)\<lparr>ri_status := Active, ri_attestations := k\<rparr>)],
     rs_active_set := [ObjectId (Hash 7)]\<rparr>"

definition demo_bonded :: node_state where
  "demo_bonded = demo_node\<lparr>ns_chain := demo_chain\<lparr>cs_total_issued := 1, cs_base_reward := 0\<rparr>,
     ns_refiners := demo_refiner 0,
     ns_store := Some (demo_db(height_key 0 \<mapsto> encode_value demo_peer []))\<rparr>"

lemma demo_bonded_grows: "can_grow demo_peer demo_unpaid demo_bonded"
proof -
  let ?i = "ObjectId (Hash 7)" and ?r = "(refiner_new (ObjectId (Hash 7)) 1 0 0)\<lparr>ri_status := Active\<rparr>"
  have refs: "rs_refiners (demo_refiner 0) = [(?i, ?r)]" "rs_active_set (demo_refiner 0) = [?i]" "rs_queue (demo_refiner 0) = []"
    by (simp_all add: demo_refiner_def refiner_new_def refiner_set_new_def)
  have c: "custody (demo_refiner 0) = 1"
    by (simp add: custody_def refs hm_total_def queue_sum_def stake_sum_def refiner_new_def)
  have "refiner_ok ?i ?r" by (simp add: refiner_ok_def refiner_new_def)
  then have "refiners_wf (demo_refiner 0)"
    by (simp add: refiners_wf_def c registry_ok_def active_ok_def refs hm_wf_def hm_get_def U64_MAX_def)
  then have "supply_ok demo_bonded"
    using demo_supply(1) c
    by (simp add: supply_ok_def supply_defs demo_bonded_def demo_node_def demo_chain_def U64_MAX_def total_balance_def)
  moreover have "block_issue demo_peer demo_unpaid demo_bonded = 0"
    by (simp add: block_issue_def demo_bonded_def gross_block_reward_def compute_block_reward_def Let_def
        saturating_u128_to_flakes_def split: option.split)
  ultimately show ?thesis
    by (simp add: can_grow_def demo_bonded_def demo_chain_def index_ok_def issued_def U64_MAX_def)
qed

lemma demo_bonded_accepts: "accept_block demo_peer 90 demo_unpaid demo_bonded = Inr Mined"
proof -
  have "compute_retarget 7 0 [0] = 7" by (simp add: compute_retarget_def const_defs)
  moreover have "total_bonded_stake (demo_refiner 0) = 1"
    by (simp add: total_bonded_stake_def demo_refiner_def active_refiners_def map_filter_def wrap64_def sat_add64_def
        refiner_new_def total_stake_def hm_get_def refiner_set_new_def U64_MAX_def)
  ultimately have d: "next_difficulty demo_bonded = 7"
    by (simp add: next_difficulty_def demo_bonded_def demo_chain_def compute_next_difficulty_def effective_difficulty_def
        compute_consensus_floor_def Let_def MIN_DIFFICULTY_def)
  have "demo_unpaid = first_block (ObjectId (Hash 5)) [demo_attestation]"
    by (simp add: demo_unpaid_def first_block_def demo_first_def)
  then show ?thesis
    using d first_block_accepted [where X = demo_peer and n = demo_bonded and i = "ObjectId (Hash 5)" and as = "[demo_attestation]"]
    by (simp add: demo_peer_def demo_x_def demo_bonded_def demo_chain_def hash_zero_def leading_zeros_iff
        MAX_ATTESTATIONS_PER_BLOCK_def)
qed

lemma demo_bonded_counts:
  obtains m where "apply_attestations demo_peer demo_unpaid demo_bonded = (Inr (), m)"
    "hm_get (rs_refiners (ns_refiners m)) (ObjectId (Hash 7)) =
       Some ((refiner_new (ObjectId (Hash 7)) 1 0 0)\<lparr>ri_status := Active, ri_attestations := 1\<rparr>)"
    "ns_accounts m = ns_accounts demo_bonded"
proof -
  let ?db = "demo_db(height_key 0 \<mapsto> encode_value demo_peer [])"
  define start where "start = \<lparr> ap_keys = [], ap_touched = [], ap_finality = [], ap_refiners = demo_refiner 0 \<rparr>"
  have "\<not> x_db_get_fails demo_peer (height_key 0)" "x_unborsh_block demo_peer [] = Some demo_refined"
    by (simp_all add: demo_peer_def demo_x_def)
  then have load: "load_block demo_peer 0 ?db = Inr (Some demo_refined)"
    unfolding load_block_def by (intro db_load_stored) simp_all
  have hash: "compute_block_hash demo_peer h = Hash 7" for h
    by (simp add: compute_block_hash_def hasher_finalize_def demo_peer_def demo_x_def)
  have ref: "is_refined (blk_header demo_refined)"
    by (simp add: is_refined_def production_kind_Refined_iff demo_refined_def demo_first_def)
  have g: "hm_get (rs_refiners (demo_refiner 0)) (ObjectId (Hash 7)) =
      Some ((refiner_new (ObjectId (Hash 7)) 1 0 0)\<lparr>ri_status := Active\<rparr>)"
    by (simp add: demo_refiner_def hm_get_def refiner_new_def)
  have "is_ok (verify_block_attestation_against_refiners demo_peer demo_attestation (Hash 7) (demo_refiner 0))"
    unfolding verify_block_attestation_ok using g
    by (simp add: demo_attestation_def ed25519_public_key_to_object_id_def hash_with_domain_eq demo_peer_def demo_x_def
        verify_ed25519_iff)
  then have v: "verify_block_attestation_against_refiners demo_peer demo_attestation (Hash 7) (demo_refiner 0) = Inr ()"
    by (simp add: is_ok_unit)
  have rec: "\<exists>rs. record_correct_attestation (ObjectId (Hash 7)) (demo_refiner 0) = (Inr 1, rs) \<and>
      hm_get (rs_refiners rs) (ObjectId (Hash 7)) =
       Some ((refiner_new (ObjectId (Hash 7)) 1 0 0)\<lparr>ri_status := Active, ri_attestations := 1\<rparr>)"
    by (simp add: record_correct_attestation_def g hm_get_put refiner_new_def sat_add64_def U64_MAX_def)
  then obtain rs where rs: "record_correct_attestation (ObjectId (Hash 7)) (demo_refiner 0) = (Inr 1, rs)"
    "hm_get (rs_refiners rs) (ObjectId (Hash 7)) =
       Some ((refiner_new (ObjectId (Hash 7)) 1 0 0)\<lparr>ri_status := Active, ri_attestations := 1\<rparr>)" by blast
  have a: "at_height demo_attestation = 0" "at_refiner demo_attestation = ObjectId (Hash 7)"
    by (simp_all add: demo_attestation_def)
  have "\<exists>q. include_attestation demo_peer (Some ?db) 1 demo_attestation start = (Inr (), q) \<and> ap_refiners q = rs"
    by (simp add: include_attestation_def a start_def load ref hash v rs(1) Let_def)
  then obtain q where q: "include_attestation demo_peer (Some ?db) 1 demo_attestation start = (Inr (), q)" "ap_refiners q = rs"
    by blast
  have f: "blk_attestations demo_unpaid = [demo_attestation]" "bh_height (blk_header demo_unpaid) = 1"
    "ns_store demo_bonded = Some ?db" "cs_finality_refiners (ns_chain demo_bonded) = []" "ns_refiners demo_bonded = demo_refiner 0"
    by (simp_all add: demo_unpaid_def demo_first_def demo_bonded_def demo_chain_def)
  obtain m where m: "apply_attestations demo_peer demo_unpaid demo_bonded = (Inr (), m)" "ns_refiners m = rs"
    using q by (simp add: apply_attestations_def f start_def [symmetric] Let_def on_chain_def)
  show thesis using that [OF m(1)] m(2) rs(2) apply_attestations_frame(1) [OF m(1)] by simp
qed

theorem refused_block_effects_witness:
  "\<exists>e n'. apply_block demo_peer 90 demo_unpaid demo_bonded = Some (Inl e, n') \<and>
     ns_accounts n' = ns_accounts demo_bonded \<and> ns_refiners n' \<noteq> ns_refiners demo_bonded"
proof -
  obtain m where m: "apply_attestations demo_peer demo_unpaid demo_bonded = (Inr (), m)"
    "hm_get (rs_refiners (ns_refiners m)) (ObjectId (Hash 7)) =
       Some ((refiner_new (ObjectId (Hash 7)) 1 0 0)\<lparr>ri_status := Active, ri_attestations := 1\<rparr>)"
    "ns_accounts m = ns_accounts demo_bonded" by (rule demo_bonded_counts)
  have "\<exists>e. check_producer demo_peer Mined demo_unpaid m = Some (Inl e)"
    by (simp add: check_producer_def check_refiner_signature_def check_mined_producer_def m(3) Let_def demo_unpaid_def
        demo_first_def demo_bonded_def demo_node_def get_account_def hm_get_def)
  then obtain e where run: "apply_block demo_peer 90 demo_unpaid demo_bonded = Some (Inl e, m)"
    using demo_bonded_accepts m(1) by (auto simp: apply_block_def)
  have "borsh_total demo_peer" by (simp add: borsh_total_def demo_peer_def demo_x_def)
  from refused_block_effects [OF demo_bonded_grows this run] run
  have "ns_accounts m = ns_accounts demo_bonded" by blast
  moreover have "ns_refiners m \<noteq> ns_refiners demo_bonded"
    using m(2) by (auto simp: demo_bonded_def demo_refiner_def hm_get_def refiner_new_def)
  ultimately show ?thesis using run by blast
qed

end
