(* ===== verification/Peer_Props.thy ===== *)
theory Peer_Props
  imports Peer_Events Node_Start
begin

text \<open>
  What the event loop guarantees about its peers, and where its checks disagree with the consensus
  rules.
\<close>

section \<open>The check of gossiped proofs of work\<close>

text \<open>The eighth byte of a digest is the most significant one of its little-endian prefix.\<close>

lemma hash_prefix_value_byte: "256 ^ 7 * unat (hash_as_bytes g ! 7) \<le> hash_prefix_value g"
proof -
  have "length (hash_as_bytes g) = 32" by simp
  then have "take 8 (hash_as_bytes g) = take 7 (hash_as_bytes g) @ [hash_as_bytes g ! 7]"
    using take_Suc_conv_app_nth [of 7 "hash_as_bytes g"] by simp
  then show ?thesis by (simp add: hash_prefix_value_def le_value_last)
qed

text \<open>The digest that a mined header is judged by.\<close>

definition pow_digest :: "'x pow_externs_scheme \<Rightarrow> block_header \<Rightarrow> hash" where
  "pow_digest X h =
     x_evo_hash_light X (compute_epoch_seed X (bh_height h) EPOCH (epoch_seed_material h))
       (serialize_header_for_pow h) (bh_height h) (the (pow_nonce h))"

lemma valid_pow_judged_fake:
  assumes "is_ok (verify_pow_light X h (bh_difficulty h))" and "7 \<le> bh_difficulty h" "bh_difficulty h < 64"
    and "2 \<le> unat (hash_as_bytes (pow_digest X h) ! 7)"
  shows "precheck_pow X h = PowFake"
proof -
  obtain nonce where n: "pow_nonce h = Some nonce"
    using assms(1) unfolding verify_pow_light_iff by blast
  then have p: "bh_pow_proof h \<noteq> None" by (auto simp: pow_nonce_def split: option.splits)
  have "(2::nat) ^ (64 - bh_difficulty h) \<le> 2 ^ 57" using assms(2) by (intro power_increasing) auto
  moreover have "(1::nat) < 2 ^ (64 - bh_difficulty h)" using assms(3) by (intro one_less_power) auto
  ultimately have t: "0 < difficulty_to_target (bh_difficulty h)" "difficulty_to_target (bh_difficulty h) < 2 ^ 57"
    using assms(2,3) by (simp_all add: difficulty_to_target_def)
  have "2 ^ 57 \<le> 256 ^ 7 * unat (hash_as_bytes (pow_digest X h) ! 7)" using assms(4) by simp
  then have "2 ^ 57 \<le> hash_prefix_value (pow_digest X h)" using hash_prefix_value_byte by (rule le_trans)
  then have "difficulty_to_target (bh_difficulty h) < hash_prefix_value (pow_digest X h)" using t(2) by linarith
  moreover have "compute_pow_hash_value X h = Some (hash_prefix_value (pow_digest X h))"
    by (simp add: compute_pow_hash_value_def n pow_digest_def Let_def)
  ultimately show ?thesis using p t(1) by (auto simp: precheck_pow_def Let_def)
qed

lemma accepted_mined_pow:
  assumes "accept_block X now b n = Inr Mined" and "cs_current_height (ns_chain n) < U64_MAX"
  shows "is_ok (verify_pow_light X (blk_header b) (bh_difficulty (blk_header b)))"
    and "bh_height (blk_header b) = cs_current_height (ns_chain n) + 1"
proof -
  have h: "bh_height (blk_header b) = cs_current_height (ns_chain n) + 1"
    and "production_valid X b (bh_height (blk_header b))" and "production_kind (blk_header b) = Some Mined"
    using assms by (simp_all add: accept_block_iff block_valid_def header_and_size_valid_def Let_def wrap_add64_exact)
  then show "is_ok (verify_pow_light X (blk_header b) (bh_difficulty (blk_header b)))"
    "bh_height (blk_header b) = cs_current_height (ns_chain n) + 1"
    by (simp_all add: production_valid_def Let_def)
qed

lemma banned_for_good: "is_peer_banned later p (ban_peer now p reason True n)"
  by (simp add: is_peer_banned_def ban_peer_def Let_def hm_get_put)

text \<open>A message that the handler decodes: from a verified peer, within the limits.\<close>

definition admitted_block :: "'x net_externs_scheme \<Rightarrow> net_env \<Rightarrow> byte list \<Rightarrow> string \<Rightarrow> block \<Rightarrow> net_state \<Rightarrow> net_state \<Rightarrow> bool" where
  "admitted_block X e data p b s s1 \<longleftrightarrow>
     p \<in> set (nt_verified s) \<and>
     count_block (en_instant e) p (if is_refiner_peer p (nt_node s) then MAX_BLOCKS_PER_PEER_PER_SECOND * 2
       else MAX_BLOCKS_PER_PEER_PER_SECOND) s = (True, s1) \<and>
     length data \<le> MAX_BLOCK_SIZE_BYTES \<and> x_unborsh_block X data = Some b"

lemma count_block_frame:
  assumes "count_block now p limit s = (ok, s1)"
  shows "\<exists>m. s1 = s\<lparr>nt_rate_limits := m\<rparr>"
  using assms by (auto simp: count_block_def Let_def)

lemma handle_admitted_block:
  assumes "admitted_block X e data p b s s1"
  shows "handle_gossip_block X e data p s =
    (let height = bh_height (blk_header b); current_height = cs_current_height (ns_chain (nt_node s)) in
     if height \<le> current_height \<or> wrap_add64 current_height MAX_HEIGHT_LOOKAHEAD < height then Some ([], s1)
     else (case precheck_pow X (blk_header b) of
             PowFake \<Rightarrow> Some (ban_and_forget (en_now_secs e) p ''fake_pow'' True s1)
           | PowMalformed \<Rightarrow> Some ([], s1)
           | PowPass \<Rightarrow> apply_gossip_block X e p (is_refiner_peer p (nt_node s)) b s1))"
proof -
  obtain m where m: "s1 = s\<lparr>nt_rate_limits := m\<rparr>"
    using count_block_frame assms unfolding admitted_block_def by blast
  then have "ns_chain (nt_node s1) = ns_chain (nt_node s)" by simp
  then show ?thesis using assms by (simp add: handle_gossip_block_def admitted_block_def Let_def)
qed

text \<open>
  C25: a valid mined block gets the peer that relays it banned for ever. The check before the block is
  applied reads the first eight bytes of the digest in little-endian order and compares that number
  with a target for the leading bits: at every difficulty from 7 to 63, a block that satisfies the
  consensus rules but whose eighth digest byte is at least 2 is judged a fake, its relayer is
  disconnected and permanently banned, and the block is not applied.
\<close>

theorem valid_block_bans_relayer:
  assumes "admitted_block X e data p b s s1"
    and "accept_block X (en_now_secs e) b (nt_node s) = Inr Mined"
    and "cs_current_height (ns_chain (nt_node s)) + MAX_HEIGHT_LOOKAHEAD \<le> U64_MAX"
    and "7 \<le> bh_difficulty (blk_header b)" "bh_difficulty (blk_header b) < 64"
    and "2 \<le> unat (hash_as_bytes (pow_digest X (blk_header b)) ! 7)"
  shows "\<exists>s'. handle_network_event X e (GossipBlock data p) s = Some ([DisconnectPeer p], s') \<and>
     ns_chain (nt_node s') = ns_chain (nt_node s) \<and> p \<notin> set (nt_verified s') \<and>
     (\<forall>later. is_peer_banned later p (nt_node s'))"
proof -
  obtain m where m: "s1 = s\<lparr>nt_rate_limits := m\<rparr>"
    using count_block_frame assms(1) unfolding admitted_block_def by blast
  have top: "cs_current_height (ns_chain (nt_node s)) < U64_MAX"
    using assms(3) by (simp add: MAX_HEIGHT_LOOKAHEAD_def)
  note pow = accepted_mined_pow [OF assms(2) top]
  have "precheck_pow X (blk_header b) = PowFake"
    by (rule valid_pow_judged_fake [OF pow(1) assms(4-6)])
  then have "handle_gossip_block X e data p s = Some (ban_and_forget (en_now_secs e) p ''fake_pow'' True s1)"
    using handle_admitted_block [OF assms(1)] pow(2) assms(3)
    by (simp add: wrap_add64_exact MAX_HEIGHT_LOOKAHEAD_def)
  then show ?thesis
    by (simp add: handle_network_event_def ban_and_forget_def forget_peer_def on_node_def m banned_for_good)
      (simp add: ban_peer_def Let_def)
qed

text \<open>An event loop to try the properties on, with a digest of 62 leading zero bits.\<close>

definition demo_network :: net_externs where
  "demo_network = node_externs.extend (demo_x\<lparr>x_evo_hash_light := (\<lambda>_ _ _ _. Hash (2 ^ 193)),
     x_unborsh_block := (\<lambda>_. Some demo_first)\<rparr>)
     (net_externs.fields (\<lambda>p. ascii p) (\<lambda>_. None) (\<lambda>_. None) (\<lambda>_. Some []) (\<lambda>_. True))"

definition demo_env :: net_env where
  "demo_env = \<lparr> en_now_secs = 90, en_instant = 0, en_nonce = 5, en_local_peer = ''me'' \<rparr>"

definition demo_loop :: net_state where
  "demo_loop =
     \<lparr> nt_node = demo_node, nt_info = chain_state_to_info demo_chain, nt_outbound = [''a''], nt_inbound = [],
       nt_strikes = [], nt_rate_limits = [], nt_verified = [''a''], nt_pending = [], nt_subnet_counts = [],
       nt_peer_subnets = [], nt_known_peers = None \<rparr>"

lemma demo_network_fields:
  "x_blake3 demo_network = (\<lambda>_. Hash 7)" "x_borsh_block demo_network = (\<lambda>_. Some [0])"
  "x_borsh_evidence demo_network = (\<lambda>_. Some [])" "x_borsh_attestations demo_network = (\<lambda>_. Some [])"
  "x_borsh_ceremony demo_network = (\<lambda>_. Some [])" "x_evo_hash_light demo_network = (\<lambda>_ _ _ _. Hash (2 ^ 193))"
  "x_unborsh_block demo_network = (\<lambda>_. Some demo_first)"
  by (simp_all add: demo_network_def demo_x_def node_externs.extend_def net_externs.fields_def)

lemma demo_digest: "7 \<le> leading_zeros (Hash (2 ^ 193))" "2 \<le> unat (hash_as_bytes (Hash (2 ^ 193)) ! 7)"
proof -
  have u: "unat ((2 :: 256 word) ^ 193) = 2 ^ 193" by simp
  show "7 \<le> leading_zeros (Hash (2 ^ 193))" unfolding leading_zeros_iff u by simp
  show "2 \<le> unat (hash_as_bytes (Hash (2 ^ 193)) ! 7)"
    unfolding hash_as_bytes.simps u by (simp add: be_bytes_def rev_nth nth_le_bytes)
qed

theorem valid_block_bans_relayer_witness:
  "accept_block demo_network 90 demo_first demo_node = Inr Mined \<and>
     (\<exists>s'. handle_network_event demo_network demo_env (GossipBlock [] ''a'') demo_loop = Some ([DisconnectPeer ''a''], s') \<and>
        (\<forall>later. is_peer_banned later ''a'' (nt_node s')))"
proof -
  have d: "bh_difficulty (blk_header demo_first) = 7" by (simp add: demo_first_def)
  have acc: "accept_block demo_network 90 demo_first demo_node = Inr Mined"
    unfolding demo_first_block using demo_next_difficulty demo_digest(1)
    by (rule_tac first_block_accepted; simp add: demo_network_fields demo_node_def demo_chain_def hash_zero_def)
  have "is_refiner_peer ''a'' demo_node = False" by (simp add: is_refiner_peer_def demo_node_def)
  then have "\<exists>s1. admitted_block demo_network demo_env [] ''a'' demo_first demo_loop s1"
    by (simp add: admitted_block_def demo_loop_def demo_network_fields count_block_def Let_def maybe_reset_def
        peer_rate_limit_new_def demo_env_def MAX_BLOCKS_PER_PEER_PER_SECOND_def)
  then obtain s1 where adm: "admitted_block demo_network demo_env [] ''a'' demo_first demo_loop s1" by blast
  have n: "nt_node demo_loop = demo_node" "en_now_secs demo_env = 90" by (simp_all add: demo_loop_def demo_env_def)
  have "2 \<le> unat (hash_as_bytes (pow_digest demo_network (blk_header demo_first)) ! 7)"
    using demo_digest(2) by (simp only: pow_digest_def demo_network_fields)
  moreover have "cs_current_height (ns_chain demo_node) + MAX_HEIGHT_LOOKAHEAD \<le> U64_MAX"
    by (simp add: demo_node_def demo_chain_def MAX_HEIGHT_LOOKAHEAD_def U64_MAX_def)
  ultimately show ?thesis
    using valid_block_bans_relayer [OF adm] acc d by (auto simp: n)
qed

text \<open>
  The same comparison decides the reward. A mined block is meant to earn more the further its
  digest stays below the target; for every valid block at difficulty 7 to 63 whose eighth digest byte
  is at least 2, however small the digest is, the reward is the base reward.
\<close>

theorem valid_block_earns_no_vein:
  assumes "is_ok (verify_pow_light X h (bh_difficulty h))" and "7 \<le> bh_difficulty h" "bh_difficulty h < 64"
    and "2 \<le> unat (hash_as_bytes (pow_digest X h) ! 7)" and "base \<le> U64_MAX"
  shows "gross_block_reward X Mined h base = compute_base_reward base (bh_difficulty h)"
proof -
  have fake: "precheck_pow X h = PowFake" by (rule valid_pow_judged_fake [OF assms(1-4)])
  obtain v where v: "compute_pow_hash_value X h = Some v" "difficulty_to_target (bh_difficulty h) < v"
    using fake by (auto simp: precheck_pow_def Let_def split: option.splits if_splits)
  then have y: "compute_vein_yield (bh_difficulty h) v = 1000"
    using assms(2) by (simp add: compute_vein_yield_def Let_def)
  have "base div max (bh_difficulty h) MIN_DIFFICULTY \<le> U64_MAX"
    using div_le_dividend assms(5) by (rule le_trans)
  then show ?thesis
    using v(1) by (simp add: gross_block_reward_def block_pow_hash_value_def compute_block_reward_def compute_base_reward_def
        y Let_def saturating_u128_to_flakes_def)
qed

theorem valid_block_earns_no_vein_witness:
  "gross_block_reward demo_network Mined (blk_header demo_first) 332000000 = 332000000 div 7"
proof -
  have d: "bh_difficulty (blk_header demo_first) = 7" by (simp add: demo_first_def)
  have "is_ok (verify_pow_light demo_network (blk_header demo_first) 7)"
    unfolding verify_pow_light_iff demo_network_fields using demo_digest(1) by (simp add: demo_first_def pow_nonce_def)
  moreover have "2 \<le> unat (hash_as_bytes (pow_digest demo_network (blk_header demo_first)) ! 7)"
    using demo_digest(2) by (simp only: pow_digest_def demo_network_fields)
  ultimately show ?thesis
    using valid_block_earns_no_vein [of demo_network "blk_header demo_first" 332000000]
    by (simp add: d compute_base_reward_def MIN_DIFFICULTY_def U64_MAX_def)
qed

section \<open>Blocks ahead of the tip\<close>

lemma wrong_height_refused:
  assumes "bh_height (blk_header b) \<noteq> wrap_add64 (cs_current_height (ns_chain n)) 1"
  obtains err where "apply_block X now b n = Some (Inl err, n)"
proof (cases "accept_block X now b n")
  case (Inl err)
  then show ?thesis by (intro that [of err]) (simp add: apply_block_def)
next
  case (Inr kind)
  then have "bh_height (blk_header b) = wrap_add64 (cs_current_height (ns_chain n)) 1"
    by (simp add: accept_block_iff block_valid_def header_and_size_valid_def Let_def)
  with assms show ?thesis by blast
qed

text \<open>A block that the look-ahead window lets through but that does not follow the tip.\<close>

definition early_block :: "'x pow_externs_scheme \<Rightarrow> block \<Rightarrow> net_state \<Rightarrow> bool" where
  "early_block X b s \<longleftrightarrow>
     cs_current_height (ns_chain (nt_node s)) + 1 < bh_height (blk_header b) \<and>
     bh_height (blk_header b) \<le> cs_current_height (ns_chain (nt_node s)) + MAX_HEIGHT_LOOKAHEAD \<and>
     bh_height (blk_header b) \<le> U64_MAX - MAX_HEIGHT_LOOKAHEAD \<and> precheck_pow X (blk_header b) = PowPass"

lemma early_block_strikes:
  assumes adm: "admitted_block X e data p b s s1" and early: "early_block X b s"
  shows "handle_gossip_block X e data p s = Some (strike_peer (en_now_secs e) p (is_refiner_peer p (nt_node s)) s1)"
proof -
  obtain m where m: "s1 = s\<lparr>nt_rate_limits := m\<rparr>"
    using count_block_frame adm unfolding admitted_block_def by blast
  have w: "wrap_add64 (cs_current_height (ns_chain (nt_node s))) k = cs_current_height (ns_chain (nt_node s)) + k"
    if "k \<le> MAX_HEIGHT_LOOKAHEAD" for k
    using that early by (intro wrap_add64_exact) (simp add: early_block_def MAX_HEIGHT_LOOKAHEAD_def U64_MAX_def)
  have one: "1 \<le> MAX_HEIGHT_LOOKAHEAD" by (simp add: MAX_HEIGHT_LOOKAHEAD_def)
  have n: "nt_node s1 = nt_node s" by (simp add: m)
  have "bh_height (blk_header b) \<noteq> wrap_add64 (cs_current_height (ns_chain (nt_node s1))) 1"
    using early unfolding n w [OF one] by (simp add: early_block_def)
  then obtain err where "apply_block X (en_now_secs e) b (nt_node s1) = Some (Inl err, nt_node s1)"
    by (rule wrong_height_refused)
  then show ?thesis
    using handle_admitted_block [OF adm] early w [OF order_refl]
    by (simp add: early_block_def apply_gossip_block_def Let_def n) (simp add: m)
qed

lemma second_strike:
  assumes "hm_get (nt_strikes s) p = Some 1"
  shows "strike_peer now p False s =
    ban_and_forget now p ''invalid_block'' False (s\<lparr>nt_strikes := hm_put p 2 (nt_strikes s)\<rparr>)"
proof -
  have "(1 + 1) mod 2 ^ 32 = (2 :: nat)" by simp
  then show ?thesis unfolding strike_peer_def assms Let_def option.case by (simp add: numeral_2_eq_2)
qed

text \<open>
  A node that lags behind bans the peers that keep up. Blocks up to ten heights ahead pass the
  window, but only the next height can be applied, so every other one is a strike: when a peer that is
  no refiner gossips two such blocks, valid or not, it is disconnected and banned for an hour, and the
  chain has not moved.
\<close>

theorem lagging_node_bans_peers:
  assumes "admitted_block X e data p b s s1" and "early_block X b s"
    and "handle_network_event X e (GossipBlock data p) s = Some (cs, t)"
    and "admitted_block X e2 data2 p b2 t t1" and "early_block X b2 t"
    and "hm_get (nt_strikes s) p = None" and "\<not> is_refiner_peer p (nt_node s)"
    and "hm_get (ns_banned_peers (nt_node s)) p = None" "en_now_secs e2 \<le> now" "now < en_now_secs e2 + 3600"
    and "en_now_secs e2 + 3600 \<le> U64_MAX"
  shows "cs = [] \<and> (\<exists>u. handle_network_event X e2 (GossipBlock data2 p) t = Some ([DisconnectPeer p], u) \<and>
     ns_chain (nt_node u) = ns_chain (nt_node s) \<and> is_peer_banned now p (nt_node u))"
proof -
  obtain m where m: "s1 = s\<lparr>nt_rate_limits := m\<rparr>"
    using count_block_frame assms(1) unfolding admitted_block_def by blast
  have first: "cs = []" "t = s1\<lparr>nt_strikes := hm_put p 1 (nt_strikes s1)\<rparr>"
    using assms(3) early_block_strikes [OF assms(1,2)] assms(6,7)
    by (simp_all add: handle_network_event_def strike_peer_def Let_def m)
  obtain m2 where m2: "t1 = t\<lparr>nt_rate_limits := m2\<rparr>"
    using count_block_frame assms(4) unfolding admitted_block_def by blast
  have "nt_node t = nt_node s" by (simp add: first m)
  moreover have "hm_get (nt_strikes t1) p = Some 1" by (simp add: m2 first hm_get_put)
  ultimately have "handle_network_event X e2 (GossipBlock data2 p) t =
      Some (ban_and_forget (en_now_secs e2) p ''invalid_block'' False (t1\<lparr>nt_strikes := hm_put p 2 (nt_strikes t1)\<rparr>))"
    using early_block_strikes [OF assms(4,5)] assms(7) second_strike [of t1 p] by (simp add: handle_network_event_def m2)
  then show ?thesis
    using assms(8-11) first(1)
    by (simp add: ban_and_forget_def forget_peer_def on_node_def m2 first(2) m is_peer_banned_def ban_peer_def Let_def
        hm_get_put ban_duration_secs_def sat_add64_exact)
qed

theorem lagging_node_bans_peers_witness:
  "\<exists>(X :: net_externs) (b :: block) s t u. bh_height (blk_header b) = 2 \<and> x_unborsh_block X [] = Some b \<and>
     handle_network_event X demo_env (GossipBlock [] ''a'') s = Some ([], t) \<and>
     handle_network_event X demo_env (GossipBlock [] ''a'') t = Some ([DisconnectPeer ''a''], u) \<and>
     is_peer_banned 91 ''a'' (nt_node u)"
proof -
  let ?b = "demo_refined\<lparr>blk_header := (blk_header demo_refined)\<lparr>bh_height := 2\<rparr>\<rparr>"
  let ?X = "demo_network\<lparr>x_unborsh_block := (\<lambda>_. Some ?b)\<rparr>"
  have h: "bh_height (blk_header ?b) = 2" "bh_pow_proof (blk_header ?b) = None"
    by (simp_all add: demo_refined_def demo_first_def)
  have ref: "is_refiner_peer ''a'' demo_node = False" by (simp add: is_refiner_peer_def demo_node_def)
  have early: "early_block ?X ?b s" if "nt_node s = demo_node" for s
    using h that by (simp add: early_block_def demo_node_def demo_chain_def MAX_HEIGHT_LOOKAHEAD_def precheck_pow_def U64_MAX_def)
  have adm: "\<exists>s1. admitted_block ?X demo_env [] ''a'' ?b s s1 \<and> nt_node s1 = nt_node s \<and> nt_verified s1 = nt_verified s \<and>
      nt_strikes s1 = nt_strikes s \<and> (\<exists>l. nt_rate_limits s1 = [(''a'', l)] \<and> rl_block_count l = k + 1)"
    if "nt_node s = demo_node" "nt_verified s = [''a'']" "nt_rate_limits s = (if k = 0 then [] else [(''a'', l)])"
      "rl_block_count l = k" "k < 2" for s k l
    using that ref
    by (auto simp: admitted_block_def count_block_def Let_def maybe_reset_def peer_rate_limit_new_def demo_env_def
        MAX_BLOCKS_PER_PEER_PER_SECOND_def hm_put_def hm_get_def split: if_splits)
  obtain s1 l1 where s1: "admitted_block ?X demo_env [] ''a'' ?b demo_loop s1" "nt_node s1 = demo_node"
    "nt_verified s1 = [''a'']" "nt_strikes s1 = []" "nt_rate_limits s1 = [(''a'', l1)]" "rl_block_count l1 = 1"
    using adm [of demo_loop 0 "peer_rate_limit_new 0"] by (auto simp: demo_loop_def peer_rate_limit_new_def)
  have n: "nt_node demo_loop = demo_node" by (simp add: demo_loop_def)
  define t where "t = snd (strike_peer 90 ''a'' False s1)"
  have t: "strike_peer 90 ''a'' False s1 = ([], t)" "nt_node t = demo_node" "nt_verified t = [''a'']"
    "nt_rate_limits t = [(''a'', l1)]"
    using s1 by (simp_all add: t_def strike_peer_def Let_def)
  have first: "handle_network_event ?X demo_env (GossipBlock [] ''a'') demo_loop = Some ([], t)"
    using early_block_strikes [OF s1(1) early [OF n]] t(1) ref
    by (simp add: handle_network_event_def n demo_env_def)
  obtain t1 where t1: "admitted_block ?X demo_env [] ''a'' ?b t t1"
    using adm [of t 1 l1] t s1(6) by auto
  have "hm_get (nt_strikes demo_loop) ''a'' = None" "hm_get (ns_banned_peers (nt_node demo_loop)) ''a'' = None"
    by (simp_all add: demo_loop_def demo_node_def)
  then have "\<exists>u. handle_network_event ?X demo_env (GossipBlock [] ''a'') t = Some ([DisconnectPeer ''a''], u) \<and>
      is_peer_banned 91 ''a'' (nt_node u)"
    using lagging_node_bans_peers [OF s1(1) early [OF n] first t1 early [OF t(2)], of 91] ref
    by (auto simp: n demo_env_def U64_MAX_def)
  moreover have "x_unborsh_block ?X [] = Some ?b" by simp
  ultimately show ?thesis using first h(1) by blast
qed

end
