(* ===== verification/Peer_Reach.thy ===== *)
theory Peer_Reach
  imports Peer_Props
begin

text \<open>
  Runs of the event loop: which peers are trusted, how many are connected, and what a connection
  leaves behind.
\<close>

section \<open>Runs\<close>

datatype loop_step = NetEvent network_event | ChallengeTick | EvictTick

definition run_step :: "'x net_externs_scheme \<Rightarrow> net_env \<Rightarrow> loop_step \<Rightarrow> net_state \<Rightarrow> handled" where
  "run_step X e st s =
     (case st of
        NetEvent ev \<Rightarrow> handle_network_event X e ev s
      | ChallengeTick \<Rightarrow> Some (check_challenges e s)
      | EvictTick \<Rightarrow> Some ([], evict_expired_tick e s))"

text \<open>
  A run records each step with the commands it gave the network. The loop starts without peers; between its steps the other tasks of the process (mining, refining,
  RPC) may change the node.
\<close>

inductive loop_trace :: "'x net_externs_scheme \<Rightarrow> (net_env \<times> loop_step \<times> network_command list) list \<Rightarrow> net_state \<Rightarrow> bool" for X where
  trace_start: "nt_outbound s = [] \<Longrightarrow> nt_inbound s = [] \<Longrightarrow> nt_verified s = [] \<Longrightarrow> nt_pending s = [] \<Longrightarrow>
     nt_subnet_counts s = [] \<Longrightarrow> nt_peer_subnets s = [] \<Longrightarrow> loop_trace X [] s"
| trace_step: "loop_trace X evs s \<Longrightarrow> run_step X e st s = Some (cs, t) \<Longrightarrow> loop_trace X (evs @ [(e, st, cs)]) t"
| trace_other: "loop_trace X evs s \<Longrightarrow> loop_trace X evs (s\<lparr>nt_node := n, nt_info := i\<rparr>)"

section \<open>What the handlers leave alone\<close>

definition keeps_peers :: "net_state \<Rightarrow> net_state \<Rightarrow> bool" where
  "keeps_peers s t \<longleftrightarrow> nt_outbound t = nt_outbound s \<and> nt_inbound t = nt_inbound s \<and>
     nt_subnet_counts t = nt_subnet_counts s \<and> nt_peer_subnets t = nt_peer_subnets s"

definition trusts_less :: "net_state \<Rightarrow> net_state \<Rightarrow> bool" where
  "trusts_less s t \<longleftrightarrow> (\<forall>q x. hm_get (nt_pending t) q = Some x \<longrightarrow> hm_get (nt_pending s) q = Some x) \<and>
     set (nt_verified t) \<subseteq> set (nt_verified s)"

definition calm :: "net_state \<Rightarrow> net_state \<Rightarrow> bool" where
  "calm s t \<longleftrightarrow> keeps_peers s t \<and> trusts_less s t"

lemma calm_refl [simp]: "calm s s"
  by (simp add: calm_def keeps_peers_def trusts_less_def)

lemma calm_trans: "calm s t \<Longrightarrow> calm t u \<Longrightarrow> calm s u"
  by (auto simp: calm_def keeps_peers_def trusts_less_def)

lemma calm_updates [simp]:
  "calm s (s\<lparr>nt_node := n\<rparr>)" "calm s (s\<lparr>nt_strikes := k\<rparr>)" "calm s (s\<lparr>nt_rate_limits := l\<rparr>)"
  "calm s (s\<lparr>nt_info := i\<rparr>)" "calm s (s\<lparr>nt_node := n, nt_info := i\<rparr>)" "calm s (on_node f s)" "calm s (refresh_info s)"
  "calm s (forget_peer p s)"
  by (auto simp: calm_def keeps_peers_def trusts_less_def on_node_def refresh_info_def forget_peer_def hm_get_del split: if_splits)

lemma calm_ban: "calm s (snd (ban_and_forget now p reason perm s))" "calm s (snd (ban_for_tx now p reason perm s))"
  by (auto simp: ban_and_forget_def ban_for_tx_def calm_def keeps_peers_def trusts_less_def on_node_def forget_peer_def
      hm_get_del split: if_splits)

lemma calm_strike: "calm s (snd (strike_peer now p r s))"
  using calm_trans [OF calm_updates(2) calm_ban(1)] by (simp add: strike_peer_def Let_def)

lemma calm_count:
  "count_block now p k s = (ok, t) \<Longrightarrow> calm s t" "count_tx now p k s = (ok, t) \<Longrightarrow> calm s t"
  by (auto simp: count_block_def count_tx_def Let_def)

lemma calm_gossip_block:
  assumes "handle_gossip_block X e data p s = Some (cs, t)"
  shows "calm s t"
proof (cases "p \<in> set (nt_verified s)")
  case False
  then show ?thesis using assms by (simp add: handle_gossip_block_def)
next
  case True
  let ?r = "is_refiner_peer p (nt_node s)"
  obtain ok s1 where c: "count_block (en_instant e) p (if ?r then MAX_BLOCKS_PER_PEER_PER_SECOND * 2
      else MAX_BLOCKS_PER_PEER_PER_SECOND) s = (ok, s1)" by (metis surj_pair)
  have s1: "calm s s1" by (rule calm_count(1) [OF c])
  have applied: "calm s1 t" if ap: "apply_gossip_block X e p ?r b s1 = Some (cs, t)" for b
  proof (cases "apply_block X (en_now_secs e) b (nt_node s1)")
    case None
    then show ?thesis using that by (simp add: apply_gossip_block_def)
  next
    case (Some rn)
    obtain r n1 where rn: "rn = (r, n1)" by (cases rn)
    show ?thesis
    proof (cases r)
      case (Inl err)
      then have "t = snd (strike_peer (en_now_secs e) p ?r (s1\<lparr>nt_node := n1\<rparr>))"
        using that Some rn by (simp add: apply_gossip_block_def)
      then show ?thesis using calm_trans [OF calm_updates(1) calm_strike] by blast
    next
      case (Inr g)
      then obtain n2 where "t = refresh_info (s1\<lparr>nt_node := n2\<rparr>)"
        using ap Some rn by (auto simp: apply_gossip_block_def split: option.splits)
      then show ?thesis using calm_trans [OF calm_updates(1) calm_updates(7)] by blast
    qed
  qed
  show ?thesis
  proof (cases "ok \<and> length data \<le> MAX_BLOCK_SIZE_BYTES \<and> x_unborsh_block X data \<noteq> None")
    case False
    then have "t = s1" using assms True c
      unfolding handle_gossip_block_def Let_def by (cases ok; cases "x_unborsh_block X data") (auto split: if_splits)
    with s1 show ?thesis by simp
  next
    case dec: True
    then obtain b where b: "x_unborsh_block X data = Some b" by blast
    with True c dec have adm: "admitted_block X e data p b s s1" by (simp add: admitted_block_def)
    have "t = s1 \<or> t = snd (ban_and_forget (en_now_secs e) p ''fake_pow'' True s1) \<or>
        apply_gossip_block X e p ?r b s1 = Some (cs, t)"
      using assms unfolding handle_admitted_block [OF adm]
      by (auto simp: Let_def split: if_splits pow_precheck.splits)
    then show ?thesis using s1 applied calm_trans [OF s1 calm_ban(1)] calm_trans [OF s1] by blast
  qed
qed

lemma calm_gossip_transaction: "calm s (snd (handle_gossip_transaction X e data p s))"
proof -
  obtain ok s1 where c: "count_tx (en_instant e) p (if is_refiner_peer p (nt_node s) then MAX_TXS_PER_PEER_PER_SECOND * 2
      else MAX_TXS_PER_PEER_PER_SECOND) s = (ok, s1)" by (metis surj_pair)
  have s1: "calm s s1" by (rule calm_count(2) [OF c])
  have "calm s1 (snd (reject_gossip_tx now p err s1))" for now err
    using calm_ban(2) by (simp add: reject_gossip_tx_def)
  moreover have "calm s1 (snd (admit_gossip_tx X now data tx s1))" for now tx
    by (simp add: admit_gossip_tx_def Let_def split: prod.split sum.split)
  ultimately have "calm s (snd (reject_gossip_tx now p err s1))" "calm s (snd (admit_gossip_tx X now data tx s1))" for now err tx
    using calm_trans [OF s1] by blast+
  then show ?thesis using s1 c
    by (cases ok) (simp_all add: handle_gossip_transaction_def Let_def split: option.split sum.split)
qed

lemma calm_sync: "apply_sync_blocks X now ds s = Some t \<Longrightarrow> calm s t"
proof (induction ds arbitrary: s)
  case Nil
  then show ?case by simp
next
  case (Cons d ds)
  then show ?case
    using calm_trans [OF calm_updates(1) calm_updates(7)]
    by (fastforce simp: Let_def dest: calm_trans split: if_splits option.splits prod.splits sum.splits)
qed

lemma calm_challenge_tick: "calm s (snd (check_challenges e s))"
proof -
  have "calm t (fold (\<lambda>p t. on_node (ban_peer now p reason False) (t\<lparr>nt_pending := hm_del p (nt_pending t)\<rparr>)) ps t)" for now reason ps t
  proof (induction ps arbitrary: t)
    case (Cons p ps)
    have "calm t (on_node (ban_peer now p reason False) (t\<lparr>nt_pending := hm_del p (nt_pending t)\<rparr>))"
      by (auto simp: calm_def keeps_peers_def trusts_less_def on_node_def hm_get_del split: if_splits)
    with Cons show ?case by (auto intro: calm_trans)
  qed simp
  then show ?thesis by (simp add: check_challenges_def Let_def)
qed

text \<open>Only three events touch the trust or the connections; every other step is calm.\<close>

lemma step_cases:
  assumes "run_step X e st s = Some (cs, t)"
  obtains (calm) "calm s t" "\<And>p. st \<noteq> NetEvent (PeerDisconnected p)" "\<And>p a. st \<noteq> NetEvent (PeerConnected p a)"
  | (connected) p addr where "st = NetEvent (PeerConnected p addr)" "t = snd (handle_peer_connected X e p addr s)"
  | (disconnected) p where "st = NetEvent (PeerDisconnected p)" "t = handle_peer_disconnected p s"
  | (answered) p v where "st = NetEvent (ChallengeResponseReceived p v)" "t = snd (handle_challenge_response e p v s)"
proof (cases st)
  case ChallengeTick
  then show ?thesis using assms calm_challenge_tick [of s e] by (intro calm) (auto simp: run_step_def)
next
  case EvictTick
  then show ?thesis using assms by (intro calm) (auto simp: run_step_def evict_expired_tick_def)
next
  case (NetEvent ev)
  note r = assms [unfolded run_step_def NetEvent loop_step.case handle_network_event_def]
  show ?thesis
  proof (cases ev)
    case (GossipTransaction data p)
    then show ?thesis using r NetEvent calm_gossip_transaction [of s X e data p]
      by (intro calm) auto
  next
    case (GossipBlock data p)
    then show ?thesis using r NetEvent calm_gossip_block [of X e data p s cs t] by (intro calm) auto
  next
    case (GossipAttestation data p)
    then have "t = s \<or> (\<exists>n. t = s\<lparr>nt_node := n\<rparr>)"
      using r by (auto simp: handle_gossip_attestation_def split: if_splits option.splits prod.splits)
    then show ?thesis using GossipAttestation NetEvent by (intro calm) auto
  next
    case (PeerConnected p a)
    then show ?thesis using r NetEvent by (intro connected [of p a]) auto
  next
    case (PeerIdentified p v a)
    then have "t = s \<or> t = s\<lparr>nt_pending := hm_del p (nt_pending s)\<rparr> \<or> (\<exists>f. t = on_node f s)"
      using r by (auto simp: handle_peer_identified_def split: if_splits option.splits)
    moreover have "calm s (s\<lparr>nt_pending := hm_del p (nt_pending s)\<rparr>)"
      by (auto simp: calm_def keeps_peers_def trusts_less_def hm_get_del split: if_splits)
    ultimately show ?thesis using PeerIdentified NetEvent by (intro calm) auto
  next
    case (PeerDisconnected p)
    then show ?thesis using r NetEvent by (intro disconnected [of p]) auto
  next
    case (SyncResponseReceived p resp)
    then have "t = s \<or> apply_sync_blocks X (en_now_secs e) (sp_blocks resp) s = Some t"
      using r by (auto simp: handle_sync_response_def split: if_splits)
    then show ?thesis using calm_sync SyncResponseReceived NetEvent by (intro calm) auto
  next
    case (SyncRequestReceived p i req)
    then have "t = s" using r by (auto simp: handle_sync_request_def Let_def split: if_splits prod.splits)
    then show ?thesis using SyncRequestReceived NetEvent by (intro calm) auto
  next
    case (ChallengeRequestReceived p i h k g)
    then show ?thesis using r NetEvent by (intro calm) auto
  next
    case (ChallengeResponseReceived p v)
    then show ?thesis using r NetEvent by (intro answered [of p v]) auto
  qed
qed

section \<open>Trust\<close>

text \<open>Challenges are sent to peers that connect only.\<close>

definition unchallenging :: "network_command list \<Rightarrow> bool" where
  "unchallenging cs \<longleftrightarrow> (\<forall>q h n g. SendChallenge q h n g \<notin> set cs)"

lemma unchallenging_strike: "unchallenging (fst (strike_peer now p r s))"
  by (simp add: strike_peer_def ban_and_forget_def unchallenging_def Let_def)

lemma unchallenging_attestation: "local_block_attestation X h g n = Some (cs, n2) \<Longrightarrow> unchallenging cs"
  by (auto simp: local_block_attestation_def unchallenging_def split: option.splits)

lemma unchallenging_applied:
  assumes "apply_gossip_block X e p r b s = Some (cs, t)"
  shows "unchallenging cs"
proof -
  obtain res n1 where run: "apply_block X (en_now_secs e) b (nt_node s) = Some (res, n1)"
    using assms by (cases "apply_block X (en_now_secs e) b (nt_node s)") (auto simp: apply_gossip_block_def)
  show ?thesis
  proof (cases res)
    case (Inl err)
    then have "strike_peer (en_now_secs e) p r (s\<lparr>nt_node := n1\<rparr>) = (cs, t)"
      using assms run by (simp add: apply_gossip_block_def)
    then show ?thesis using unchallenging_strike [of "en_now_secs e" p r "s\<lparr>nt_node := n1\<rparr>"] by simp
  next
    case (Inr g)
    then obtain d cs' n2 where "cs = BroadcastBlock d # cs'" "local_block_attestation X (bh_height (blk_header b)) g n1 = Some (cs', n2)"
      using assms run by (auto simp: apply_gossip_block_def split: option.splits)
    then show ?thesis using unchallenging_attestation [of X] by (auto simp: unchallenging_def)
  qed
qed

lemma unchallenging_simps [simp]: "unchallenging []" "unchallenging [DisconnectPeer p]"
  by (simp_all add: unchallenging_def)

lemma unchallenging_gossip_block:
  assumes "handle_gossip_block X e data p s = Some (cs, t)"
  shows "unchallenging cs"
proof -
  let ?r = "is_refiner_peer p (nt_node s)"
  obtain ok s1 where c: "count_block (en_instant e) p (if ?r then MAX_BLOCKS_PER_PEER_PER_SECOND * 2
      else MAX_BLOCKS_PER_PEER_PER_SECOND) s = (ok, s1)" by (metis surj_pair)
  have "cs = [] \<or> cs = [DisconnectPeer p] \<or> (\<exists>b. apply_gossip_block X e p ?r b s1 = Some (cs, t))"
    using assms c unfolding handle_gossip_block_def Let_def
    by (cases ok; cases "x_unborsh_block X data") (auto simp: ban_and_forget_def split: if_splits pow_precheck.splits)
  then show ?thesis using unchallenging_applied by auto
qed

lemma unchallenging_handlers:
  "unchallenging (fst (handle_gossip_transaction X e data p s))"
  "unchallenging (fst (handle_gossip_attestation X data p s))"
  "unchallenging (fst (handle_peer_identified X p pv av s))"
  "unchallenging (fst (handle_challenge_response e p v s))"
  "unchallenging (handle_challenge_request X e p i h k g)"
  "unchallenging (fst (check_challenges e s))"
  "handle_sync_request X p i rq s = Some (cs, t) \<Longrightarrow> unchallenging cs"
  "handle_sync_response X e p rs s = Some (cs, t) \<Longrightarrow> unchallenging cs"
  by (auto simp: unchallenging_def handle_gossip_transaction_def reject_gossip_tx_def ban_for_tx_def admit_gossip_tx_def
      handle_gossip_attestation_def handle_peer_identified_def handle_challenge_response_def handle_challenge_request_def
      check_challenges_def handle_sync_request_def handle_sync_response_def Let_def split: option.splits prod.splits sum.splits bool.splits if_splits)

lemma challenge_on_connection:
  assumes "run_step X e st s = Some (cs, t)" and "\<And>p a. st \<noteq> NetEvent (PeerConnected p a)"
  shows "unchallenging cs"
proof (cases st)
  case ChallengeTick
  then show ?thesis using assms(1) unchallenging_handlers(6) [of e s] by (simp add: run_step_def)
next
  case EvictTick
  then show ?thesis using assms(1) by (simp add: run_step_def unchallenging_def)
next
  case (NetEvent ev)
  have u: "p = (cs, t) \<Longrightarrow> unchallenging (fst p) \<Longrightarrow> unchallenging cs" for p :: "network_command list \<times> net_state" by simp
  note r = assms(1) [unfolded run_step_def NetEvent loop_step.case handle_network_event_def]
  show ?thesis
    using r assms(2) NetEvent
    by (cases ev) (auto intro: unchallenging_gossip_block unchallenging_handlers(7,8) u [OF _ unchallenging_handlers(1)]
        u [OF _ unchallenging_handlers(2)] u [OF _ unchallenging_handlers(3)] u [OF _ unchallenging_handlers(4)]
        simp: unchallenging_handlers(5))
qed

text \<open>The commands of a step hold the challenge that \<open>v\<close> answers.\<close>

definition challenge_sent :: "'x net_externs_scheme \<Rightarrow> net_env \<Rightarrow> string \<Rightarrow> network_command list \<Rightarrow> nat \<Rightarrow> bool" where
  "challenge_sent X e q cs v \<longleftrightarrow> (\<exists>parent height. SendChallenge q height (en_nonce e) parent \<in> set cs \<and>
     v = compute_challenge_hash X MAINNET_CHAIN_ID parent height (en_nonce e)
       (x_peer_bytes X (en_local_peer e)) (x_peer_bytes X q))"

type_synonym trace = "(net_env \<times> loop_step \<times> network_command list) list"

definition stays :: "string \<Rightarrow> trace \<Rightarrow> bool" where
  "stays q evs \<longleftrightarrow> (\<forall>(e, st, cs) \<in> set evs. st \<noteq> NetEvent (PeerDisconnected q))"

definition not_challenged_again :: "string \<Rightarrow> trace \<Rightarrow> bool" where
  "not_challenged_again q evs \<longleftrightarrow> (\<forall>(e, st, cs) \<in> set evs. \<forall>h n g. SendChallenge q h n g \<notin> set cs)"

definition challenged :: "'x net_externs_scheme \<Rightarrow> trace \<Rightarrow> string \<Rightarrow> nat \<Rightarrow> bool" where
  "challenged X evs q v \<longleftrightarrow> (\<exists>pre e a cs mid. evs = pre @ (e, NetEvent (PeerConnected q a), cs) # mid \<and>
     challenge_sent X e q cs v \<and> stays q mid \<and> not_challenged_again q mid)"

definition answered :: "'x net_externs_scheme \<Rightarrow> trace \<Rightarrow> string \<Rightarrow> bool" where
  "answered X evs q \<longleftrightarrow> (\<exists>pre e v cs post. evs = pre @ (e, NetEvent (ChallengeResponseReceived q v), cs) # post \<and>
     challenged X pre q v \<and> stays q post)"

lemma stays_append: "stays q evs \<Longrightarrow> st \<noteq> NetEvent (PeerDisconnected q) \<Longrightarrow> stays q (evs @ [(e, st, cs)])"
  by (auto simp: stays_def)

lemma challenged_append:
  assumes "challenged X evs q v" and "st \<noteq> NetEvent (PeerDisconnected q)" and "\<And>h n g. SendChallenge q h n g \<notin> set cs"
  shows "challenged X (evs @ [(e, st, cs)]) q v"
proof -
  obtain pre e1 a cs1 mid where c: "evs = pre @ (e1, NetEvent (PeerConnected q a), cs1) # mid" "challenge_sent X e1 q cs1 v"
    "stays q mid" "not_challenged_again q mid"
    using assms(1) unfolding challenged_def by blast
  from c(4) assms(3) have "not_challenged_again q (mid @ [(e, st, cs)])" by (auto simp: not_challenged_again_def)
  with c(1,2) stays_append [OF c(3) assms(2)] show ?thesis
    unfolding challenged_def
    by (intro exI [of _ pre] exI [of _ e1] exI [of _ a] exI [of _ cs1] exI [of _ "mid @ [(e, st, cs)]"]) simp
qed

lemma answered_append:
  assumes "answered X evs q" and "st \<noteq> NetEvent (PeerDisconnected q)"
  shows "answered X (evs @ [(e, st, cs)]) q"
proof -
  obtain pre e1 v cs1 post where "evs = pre @ (e1, NetEvent (ChallengeResponseReceived q v), cs1) # post" "challenged X pre q v" "stays q post"
    using assms(1) unfolding answered_def by blast
  with stays_append [OF _ assms(2)] show ?thesis
    unfolding answered_def
    by (intro exI [of _ pre] exI [of _ e1] exI [of _ v] exI [of _ cs1] exI [of _ "post @ [(e, st, cs)]"]) simp
qed

text \<open>What connecting does: nothing, or one more peer of its kind and a pending challenge.\<close>

definition subnet_count :: "net_state \<Rightarrow> subnet \<Rightarrow> nat" where
  "subnet_count s net = (case hm_get (nt_subnet_counts s) net of None \<Rightarrow> 0 | Some k \<Rightarrow> k)"

lemma connect_cases:
  assumes "t = snd (handle_peer_connected X e p addr s)"
  obtains (refused) "t = s" "fst (handle_peer_connected X e p addr s) = [DisconnectPeer p]"
  | (inbound) v where "addr = None" "length (nt_inbound s) < MAX_INBOUND_CONNECTIONS"
      "challenge_sent X e p (fst (handle_peer_connected X e p addr s)) v"
      "t = s\<lparr>nt_inbound := hs_insert p (nt_inbound s), nt_pending := hm_put p (v, en_instant e) (nt_pending s)\<rparr>"
  | (outbound) a v cache where "addr = Some a" "extract_subnet_24 a = None" "length (nt_outbound s) < MAX_OUTBOUND_CONNECTIONS"
      "challenge_sent X e p (fst (handle_peer_connected X e p addr s)) v"
      "t = s\<lparr>nt_outbound := hs_insert p (nt_outbound s), nt_known_peers := cache,
         nt_pending := hm_put p (v, en_instant e) (nt_pending s)\<rparr>"
  | (in_subnet) a net v cache where "addr = Some a" "extract_subnet_24 a = Some net"
      "length (nt_outbound s) < MAX_OUTBOUND_CONNECTIONS" "subnet_count s net < MAX_PEERS_PER_SUBNET"
      "challenge_sent X e p (fst (handle_peer_connected X e p addr s)) v"
      "t = s\<lparr>nt_subnet_counts := hm_put net (subnet_count s net + 1) (nt_subnet_counts s),
         nt_peer_subnets := hm_put p net (nt_peer_subnets s), nt_outbound := hs_insert p (nt_outbound s), nt_known_peers := cache,
         nt_pending := hm_put p (v, en_instant e) (nt_pending s)\<rparr>"
proof -
  define v where "v = compute_challenge_hash X MAINNET_CHAIN_ID (cs_latest_block_hash (ns_chain (nt_node s)))
    (cs_current_height (ns_chain (nt_node s))) (en_nonce e) (x_peer_bytes X (en_local_peer e)) (x_peer_bytes X p)"
  note sent = handle_peer_connected_def Let_def challenge_sent_def v_def
  note t = assms [unfolded handle_peer_connected_def Let_def, folded v_def]
  show thesis
  proof (cases "is_peer_banned (en_now_secs e) p (nt_node s) \<or>
      MAX_PEER_COUNT \<le> sat_add64 (length (nt_inbound s)) (length (nt_outbound s))")
    case True
    then show thesis using t by (intro refused) (auto simp: handle_peer_connected_def Let_def)
  next
    case go: False
    show thesis
    proof (cases addr)
      case None
      show thesis
      proof (cases "MAX_INBOUND_CONNECTIONS \<le> length (nt_inbound s)")
        case True
        then show thesis using t go None by (intro refused) (simp_all add: handle_peer_connected_def Let_def)
      next
        case False
        then show thesis using t go None by (intro inbound [OF None, of v]) (simp_all add: sent)
      qed
    next
      case (Some a)
      show thesis
      proof (cases "MAX_OUTBOUND_CONNECTIONS \<le> length (nt_outbound s)")
        case True
        then show thesis using t go Some by (intro refused) (simp_all add: handle_peer_connected_def Let_def)
      next
        case free: False
        show thesis
        proof (cases "extract_subnet_24 a")
          case None
          then show thesis using t go Some free by (intro outbound [OF Some None, of v]) (simp_all add: sent)
        next
          case net: (Some net)
          show thesis
          proof (cases "MAX_PEERS_PER_SUBNET \<le> subnet_count s net")
            case True
            then show thesis using t go Some free net by (intro refused) (simp_all add: subnet_count_def handle_peer_connected_def Let_def)
          next
            case False
            then show thesis using t go Some free net
              by (intro in_subnet [OF Some net, of v]) (simp_all add: subnet_count_def sent)
          qed
        qed
      qed
    qed
  qed
qed

lemma connected_trust:
  assumes "t = snd (handle_peer_connected X e p addr s)"
  shows "nt_verified t = nt_verified s"
    and "hm_get (nt_pending t) q = Some (v, i) \<Longrightarrow> hm_get (nt_pending s) q = Some (v, i) \<and>
        (\<forall>h n g. SendChallenge q h n g \<notin> set (fst (handle_peer_connected X e p addr s))) \<or>
      q = p \<and> challenge_sent X e p (fst (handle_peer_connected X e p addr s)) v"
proof -
  have only: "q = p" if "SendChallenge q h n g \<in> set (fst (handle_peer_connected X e p addr s))" for q h n g
    using that by (auto simp: handle_peer_connected_def Let_def split: if_splits option.splits)
  show "nt_verified t = nt_verified s" by (cases rule: connect_cases [OF assms]) auto
  show "hm_get (nt_pending s) q = Some (v, i) \<and> (\<forall>h n g. SendChallenge q h n g \<notin> set (fst (handle_peer_connected X e p addr s))) \<or>
      q = p \<and> challenge_sent X e p (fst (handle_peer_connected X e p addr s)) v" if "hm_get (nt_pending t) q = Some (v, i)"
    using that only by (cases rule: connect_cases [OF assms]) (auto simp: hm_get_put split: if_splits)
qed

lemma disconnected_trust:
  "nt_verified (handle_peer_disconnected p s) = removeAll p (nt_verified s)"
  "nt_pending (handle_peer_disconnected p s) = hm_del p (nt_pending s)"
  by (simp_all add: handle_peer_disconnected_def Let_def forget_peer_def on_node_def split: option.split)

lemma answered_trust:
  assumes "t = snd (handle_challenge_response e p v s)"
  shows "hm_get (nt_pending t) q = Some x \<Longrightarrow> hm_get (nt_pending s) q = Some x"
    and "q \<in> set (nt_verified t) \<Longrightarrow> q \<in> set (nt_verified s) \<or> q = p \<and> (\<exists>i. hm_get (nt_pending s) p = Some (v, i))"
  unfolding assms
  by (auto simp: handle_challenge_response_def Let_def hm_get_del on_node_def hs_insert_def split: option.splits if_splits)

lemma trace_trust:
  assumes "loop_trace X evs s"
  shows "(\<forall>q v i. hm_get (nt_pending s) q = Some (v, i) \<longrightarrow> challenged X evs q v) \<and>
    (\<forall>q \<in> set (nt_verified s). answered X evs q)"
  using assms
proof (induction rule: loop_trace.induct)
  case (trace_start s)
  then show ?case by simp
next
  case (trace_other evs s n i)
  then show ?case by simp
next
  case (trace_step evs s e st cs t)
  note old = trace_step.IH
  have calm_append: "challenged X (evs @ [(e, st, cs)]) q v"
    if "challenged X evs q v" "st \<noteq> NetEvent (PeerDisconnected q)" "\<And>p a. st \<noteq> NetEvent (PeerConnected p a)" for q v
    using challenged_append [OF that(1,2)] challenge_on_connection [OF trace_step.hyps(2) that(3)] by (simp add: unchallenging_def)
  show ?case
  proof (cases rule: step_cases [OF trace_step.hyps(2)])
    case 1
    then have "trusts_less s t" by (simp add: calm_def)
    then show ?thesis using old 1(2) calm_append [OF _ _ 1(3)] answered_append unfolding trusts_less_def by blast
  next
    case (2 p addr)
    have ne: "st \<noteq> NetEvent (PeerDisconnected q)" for q by (simp add: 2(1))
    have cs: "cs = fst (handle_peer_connected X e p addr s)"
      using trace_step.hyps(2) by (simp add: 2(1) run_step_def handle_network_event_def)
    have "challenged X (evs @ [(e, st, cs)]) p v" if "challenge_sent X e p cs v" for v
      using that unfolding challenged_def 2(1) stays_def not_challenged_again_def
      by (intro exI [of _ evs] exI [of _ e] exI [of _ addr] exI [of _ cs] exI [of _ "[]"]) simp
    then show ?thesis
      using connected_trust [OF 2(2), folded cs] old challenged_append [OF _ ne] answered_append [OF _ ne] by metis
  next
    case (3 p)
    have ne: "st \<noteq> NetEvent (PeerDisconnected q)" if "q \<noteq> p" for q using that by (simp add: 3(1))
    have con: "st \<noteq> NetEvent (PeerConnected q a)" for q a by (simp add: 3(1))
    have "challenged X evs q v \<Longrightarrow> q \<noteq> p \<Longrightarrow> challenged X (evs @ [(e, st, cs)]) q v"
      "answered X evs q \<Longrightarrow> q \<noteq> p \<Longrightarrow> answered X (evs @ [(e, st, cs)]) q" for q v
      using calm_append [OF _ ne con] answered_append [OF _ ne] by blast+
    then show ?thesis using old unfolding 3(2) disconnected_trust hm_get_del by auto
  next
    case (4 p v)
    have ne: "st \<noteq> NetEvent (PeerDisconnected q)" for q by (simp add: 4(1))
    have con: "st \<noteq> NetEvent (PeerConnected q a)" for q a by (simp add: 4(1))
    have new: "answered X (evs @ [(e, st, cs)]) p" if "hm_get (nt_pending s) p = Some (v, i)" for i
      using old that unfolding answered_def 4(1) stays_def
      by (intro exI [of _ evs] exI [of _ e] exI [of _ v] exI [of _ cs] exI [of _ "[]"]) simp
    show ?thesis
      using answered_trust [OF 4(2)] old calm_append [OF _ ne con] answered_append [OF _ ne] new by metis
  qed
qed

text \<open>
  C26: a peer is trusted only for its answer to a challenge that this node has sent it. In every run of the
  event loop, with any changes of the node in between, a verified peer has connected at some step whose commands
  contain the memory challenge to it, with a height, a parent hash and this node's nonce; it has answered with exactly the hash of
  that height, parent and nonce and of both peer ids; between the two this node sent it no other
  challenge; and it disconnected neither between the two nor after the answer.
\<close>

theorem verified_peer_answered_challenge:
  assumes "loop_trace X evs s" and "q \<in> set (nt_verified s)"
  shows "\<exists>pre e a cmds mid e2 v cmds2 post parent height.
     evs = pre @ (e, NetEvent (PeerConnected q a), cmds) # mid @ (e2, NetEvent (ChallengeResponseReceived q v), cmds2) # post \<and>
     SendChallenge q height (en_nonce e) parent \<in> set cmds \<and>
     v = compute_challenge_hash X MAINNET_CHAIN_ID parent height (en_nonce e)
       (x_peer_bytes X (en_local_peer e)) (x_peer_bytes X q) \<and>
     (\<forall>(e3, st, cs) \<in> set mid. \<forall>h n g. SendChallenge q h n g \<notin> set cs) \<and>
     (\<forall>(e3, st, cs) \<in> set (mid @ post). st \<noteq> NetEvent (PeerDisconnected q))"
proof -
  from trace_trust [OF assms(1)] assms(2) obtain pre2 e2 v cmds2 post where
    a: "evs = pre2 @ (e2, NetEvent (ChallengeResponseReceived q v), cmds2) # post" "challenged X pre2 q v" "stays q post"
    unfolding answered_def by blast
  then obtain pre e a cmds mid where c: "pre2 = pre @ (e, NetEvent (PeerConnected q a), cmds) # mid"
    "challenge_sent X e q cmds v" "stays q mid" "not_challenged_again q mid"
    unfolding challenged_def by blast
  have "evs = pre @ (e, NetEvent (PeerConnected q a), cmds) # mid @ (e2, NetEvent (ChallengeResponseReceived q v), cmds2) # post"
    using a(1) c(1) by simp
  moreover have "\<forall>(e3, st, cs) \<in> set (mid @ post). st \<noteq> NetEvent (PeerDisconnected q)"
    using a(3) c(3) unfolding stays_def by auto
  ultimately show ?thesis using c(2,4) unfolding challenge_sent_def not_challenged_again_def by blast
qed

theorem verified_peer_answered_challenge_witness:
  "\<exists>evs s. loop_trace demo_network evs s \<and> ''b'' \<in> set (nt_verified s) \<and>
     (\<exists>e v cs. (e, NetEvent (ChallengeResponseReceived ''b'' v), cs) \<in> set evs)"
proof -
  define s0 where "s0 = demo_loop\<lparr>nt_outbound := [], nt_verified := []\<rparr>"
  define s1 where "s1 = snd (handle_peer_connected demo_network demo_env ''b'' None s0)"
  have start: "loop_trace demo_network [] s0" by (rule trace_start) (simp_all add: s0_def demo_loop_def)
  have "\<not> is_peer_banned 90 ''b'' demo_node" by (simp add: is_peer_banned_def demo_node_def)
  then obtain v where v: "hm_get (nt_pending s1) ''b'' = Some (v, 0)"
    by (simp add: s1_def s0_def handle_peer_connected_def Let_def demo_loop_def demo_env_def MAX_PEER_COUNT_def
        sat_add64_def MAX_INBOUND_CONNECTIONS_def hm_get_put)
  define s2 where "s2 = snd (handle_challenge_response demo_env ''b'' v s1)"
  have "run_step demo_network demo_env (NetEvent (PeerConnected ''b'' None)) s0 =
      Some (fst (handle_peer_connected demo_network demo_env ''b'' None s0), s1)"
    "run_step demo_network demo_env (NetEvent (ChallengeResponseReceived ''b'' v)) s1 =
      Some (fst (handle_challenge_response demo_env ''b'' v s1), s2)"
    by (simp_all add: run_step_def handle_network_event_def s1_def s2_def)
  from trace_step [OF trace_step [OF start this(1)] this(2)]
  have run: "loop_trace demo_network
      [(demo_env, NetEvent (PeerConnected ''b'' None), fst (handle_peer_connected demo_network demo_env ''b'' None s0)),
       (demo_env, NetEvent (ChallengeResponseReceived ''b'' v), fst (handle_challenge_response demo_env ''b'' v s1))] s2" by simp
  have "''b'' \<in> set (nt_verified s2)"
    by (simp add: s2_def handle_challenge_response_def v Let_def hs_insert_def)
  with run verified_peer_answered_challenge [OF run this] show ?thesis by fastforce
qed

section \<open>Connections\<close>

definition sharing :: "net_state \<Rightarrow> subnet \<Rightarrow> string set" where
  "sharing s net = {q \<in> set (nt_outbound s). hm_get (nt_peer_subnets s) q = Some net}"

definition connections_ok :: "net_state \<Rightarrow> bool" where
  "connections_ok s \<longleftrightarrow> length (nt_outbound s) \<le> MAX_OUTBOUND_CONNECTIONS \<and> length (nt_inbound s) \<le> MAX_INBOUND_CONNECTIONS \<and>
     (\<forall>q. hm_get (nt_peer_subnets s) q \<noteq> None \<longrightarrow> q \<in> set (nt_outbound s)) \<and>
     (\<forall>net. card (sharing s net) \<le> subnet_count s net \<and> subnet_count s net \<le> MAX_PEERS_PER_SUBNET)"

lemma connections_okD:
  assumes "connections_ok s"
  shows "length (nt_outbound s) \<le> MAX_OUTBOUND_CONNECTIONS" "length (nt_inbound s) \<le> MAX_INBOUND_CONNECTIONS"
    "hm_get (nt_peer_subnets s) q = Some net \<Longrightarrow> q \<in> set (nt_outbound s)"
    "card (sharing s net) \<le> subnet_count s net" "subnet_count s net \<le> MAX_PEERS_PER_SUBNET"
  using assms unfolding connections_ok_def by blast+

lemma connections_okI:
  assumes "length (nt_outbound s) \<le> MAX_OUTBOUND_CONNECTIONS" "length (nt_inbound s) \<le> MAX_INBOUND_CONNECTIONS"
    and "\<And>q net. hm_get (nt_peer_subnets s) q = Some net \<Longrightarrow> q \<in> set (nt_outbound s)"
    and "\<And>net. card (sharing s net) \<le> subnet_count s net \<and> subnet_count s net \<le> MAX_PEERS_PER_SUBNET"
  shows "connections_ok s"
  using assms unfolding connections_ok_def by blast

lemma finite_sharing [simp]: "finite (sharing s net)"
  by (simp add: sharing_def)

lemma hs_insert_set: "set (hs_insert x xs) = insert x (set xs)" "length (hs_insert x xs) \<le> length xs + 1"
  by (auto simp: hs_insert_def)

lemma connections_connect:
  assumes ok: "connections_ok s" and t: "t = snd (handle_peer_connected X e p addr s)"
  shows "connections_ok t"
proof (cases rule: connect_cases [OF t])
  case 1
  with ok show ?thesis by simp
next
  case (2 v)
  have "sharing t net = sharing s net" "subnet_count t net = subnet_count s net" for net
    by (simp_all add: 2 sharing_def subnet_count_def)
  with ok 2 hs_insert_set(2) [of p "nt_inbound s"] show ?thesis by (simp add: connections_ok_def)
next
  case (3 a v cache)
  have "subnet_count t net = subnet_count s net" for net by (simp add: 3 subnet_count_def)
  moreover have "sharing t net = sharing s net" for net
    using connections_okD(3) [OF ok, of p net] by (auto simp: 3 sharing_def hs_insert_set)
  ultimately show ?thesis using ok 3 hs_insert_set(2) [of p "nt_outbound s"] by (simp add: connections_ok_def hs_insert_set)
next
  case (4 a net v cache)
  have "card (sharing t m) \<le> subnet_count t m \<and> subnet_count t m \<le> MAX_PEERS_PER_SUBNET" for m
  proof (cases "m = net")
    case True
    have "sharing t net \<subseteq> insert p (sharing s net)" by (auto simp: 4 sharing_def hs_insert_set hm_get_put)
    then have "card (sharing t net) \<le> card (insert p (sharing s net))" by (intro card_mono) simp_all
    also have "\<dots> \<le> Suc (card (sharing s net))" by (simp add: card_insert_if)
    finally have "card (sharing t net) \<le> Suc (card (sharing s net))" .
    moreover have "subnet_count t net = subnet_count s net + 1" by (simp add: 4 subnet_count_def hm_get_put)
    ultimately show ?thesis using True 4(4) connections_okD(4) [OF ok, of net] by simp
  next
    case False
    then have "sharing t m \<subseteq> sharing s m"
      by (auto simp: 4 sharing_def hs_insert_set hm_get_put split: if_splits)
    then have "card (sharing t m) \<le> card (sharing s m)" by (intro card_mono) simp_all
    moreover have "subnet_count t m = subnet_count s m" using False by (simp add: 4 subnet_count_def hm_get_put)
    ultimately show ?thesis using connections_okD(4,5) [OF ok, of m] by simp
  qed
  moreover have "length (nt_outbound t) \<le> MAX_OUTBOUND_CONNECTIONS" "nt_inbound t = nt_inbound s"
    using 4(3) hs_insert_set(2) [of p "nt_outbound s"] by (auto simp: 4(6))
  moreover have "q \<in> set (nt_outbound t)" if "hm_get (nt_peer_subnets t) q = Some m" for q m
    using that connections_okD(3) [OF ok, of q m] by (auto simp: 4(6) hm_get_put hs_insert_set split: if_splits)
  ultimately show ?thesis using connections_okD(2) [OF ok] by (intro connections_okI) simp_all
qed

lemma connections_disconnect:
  assumes ok: "connections_ok s"
  shows "connections_ok (handle_peer_disconnected p s)"
proof -
  let ?t = "handle_peer_disconnected p s"
  have fields: "nt_outbound ?t = removeAll p (nt_outbound s)" "nt_inbound ?t = removeAll p (nt_inbound s)"
    "nt_peer_subnets ?t = hm_del p (nt_peer_subnets s)"
    by (simp_all add: handle_peer_disconnected_def Let_def forget_peer_def on_node_def split: option.split)
  have len: "length (removeAll p xs) \<le> length xs" for xs :: "string list"
    by (simp add: removeAll_filter_not_eq)
  have share: "sharing ?t m = sharing s m - {p}" for m
    by (auto simp: sharing_def fields hm_get_del)
  have at: "card (sharing ?t m) \<le> subnet_count ?t m \<and> subnet_count ?t m \<le> MAX_PEERS_PER_SUBNET" for m
  proof -
    note old = connections_okD(4,5) [OF ok, of m]
    have less: "card (sharing ?t m) \<le> card (sharing s m)" unfolding share by (intro card_mono) auto
    show ?thesis
    proof (cases "hm_get (nt_peer_subnets s) p = Some m")
      case True
      then have "p \<in> sharing s m" using connections_okD(3) [OF ok] by (simp add: sharing_def)
      then have c: "card (sharing ?t m) = card (sharing s m) - 1" "0 < card (sharing s m)"
        by (auto simp: share card_gt_0_iff)
      with old have "hm_get (nt_subnet_counts s) m \<noteq> None" by (auto simp: subnet_count_def split: option.splits)
      then have "subnet_count ?t m = subnet_count s m - 1"
        using True by (auto simp: handle_peer_disconnected_def Let_def forget_peer_def on_node_def subnet_count_def sat_sub_def
            hm_get_del hm_get_put)
      with c(1) old show ?thesis by linarith
    next
      case False
      then have "subnet_count ?t m = subnet_count s m"
        by (auto simp: handle_peer_disconnected_def Let_def forget_peer_def on_node_def subnet_count_def hm_get_del hm_get_put
            split: option.split)
      with less old show ?thesis by simp
    qed
  qed
  show ?thesis
    using le_trans [OF len connections_okD(1) [OF ok]] le_trans [OF len connections_okD(2) [OF ok]] at connections_okD(3) [OF ok]
    by (intro connections_okI) (auto simp: fields hm_get_del split: if_splits)
qed

lemma trace_connections: "loop_trace X evs s \<Longrightarrow> connections_ok s"
proof (induction rule: loop_trace.induct)
  case (trace_start s)
  then show ?case by (simp add: connections_ok_def sharing_def subnet_count_def)
next
  case (trace_other evs s n i)
  then show ?case by (simp add: connections_ok_def sharing_def subnet_count_def)
next
  case (trace_step evs s e st cs t)
  show ?case
  proof (cases rule: step_cases [OF trace_step.hyps(2)])
    case 1
    then show ?thesis using trace_step.IH
      by (simp add: calm_def keeps_peers_def connections_ok_def sharing_def subnet_count_def)
  next
    case (2 p addr)
    then show ?thesis using connections_connect trace_step.IH by blast
  next
    case (3 p)
    then show ?thesis using connections_disconnect trace_step.IH by blast
  next
    case (4 p v)
    have "keeps_peers s t"
      by (simp add: 4(2) handle_challenge_response_def keeps_peers_def Let_def on_node_def split: option.split)
    then show ?thesis using trace_step.IH by (simp add: keeps_peers_def connections_ok_def sharing_def subnet_count_def)
  qed
qed

text \<open>
  The limits on connections hold in every run. There are never more than 50 outbound and 50 inbound
  peers, and never more than three outbound peers of one /24 subnet; so the limit of 200 peers in all
  never refuses anybody.
\<close>

theorem connection_limits:
  assumes "loop_trace X evs s"
  shows "length (nt_outbound s) \<le> 50 \<and> length (nt_inbound s) \<le> 50 \<and>
    length (nt_outbound s) + length (nt_inbound s) < MAX_PEER_COUNT \<and>
    card {q \<in> set (nt_outbound s). hm_get (nt_peer_subnets s) q = Some net} \<le> 3"
proof -
  note ok = connections_okD [OF trace_connections [OF assms]]
  have "card (sharing s net) \<le> MAX_PEERS_PER_SUBNET" using ok(4,5) by (rule le_trans)
  with ok(1,2) show ?thesis
    by (simp add: MAX_OUTBOUND_CONNECTIONS_def MAX_INBOUND_CONNECTIONS_def MAX_PEER_COUNT_def MAX_PEERS_PER_SUBNET_def
        sharing_def)
qed

theorem connection_limits_witness:
  "\<exists>cs s. loop_trace demo_network [(demo_env, NetEvent (PeerConnected ''b'' (Some ''/ip4/1.2.3.4/udp'')), cs)] s \<and>
     nt_outbound s = [''b''] \<and> length (nt_outbound s) + length (nt_inbound s) < MAX_PEER_COUNT \<and>
     card {q \<in> set (nt_outbound s). hm_get (nt_peer_subnets s) q = Some (1, 2, 3)} \<le> 3"
proof -
  define s0 where "s0 = demo_loop\<lparr>nt_outbound := [], nt_verified := []\<rparr>"
  define r where "r = handle_peer_connected demo_network demo_env ''b'' (Some ''/ip4/1.2.3.4/udp'') s0"
  have start: "loop_trace demo_network [] s0" by (rule trace_start) (simp_all add: s0_def demo_loop_def)
  have "run_step demo_network demo_env (NetEvent (PeerConnected ''b'' (Some ''/ip4/1.2.3.4/udp''))) s0 = Some (fst r, snd r)"
    by (simp add: run_step_def handle_network_event_def r_def)
  from trace_step [OF start this]
  have run: "loop_trace demo_network [(demo_env, NetEvent (PeerConnected ''b'' (Some ''/ip4/1.2.3.4/udp'')), fst r)] (snd r)" by simp
  have "\<not> is_peer_banned 90 ''b'' demo_node" by (simp add: is_peer_banned_def demo_node_def)
  moreover have "extract_subnet_24 ''/ip4/1.2.3.4/udp'' = Some (1, 2, 3)"
    by (simp add: extract_subnet_24_def parse_u8_def is_digit_def digits_value_def map_filter_def Let_def)
  ultimately have "nt_outbound (snd r) = [''b'']"
    by (simp add: r_def s0_def handle_peer_connected_def Let_def demo_loop_def demo_env_def MAX_PEER_COUNT_def
        sat_add64_def MAX_OUTBOUND_CONNECTIONS_def MAX_PEERS_PER_SUBNET_def hs_insert_def)
  with run connection_limits [OF run, of "(1, 2, 3)"] show ?thesis by blast
qed

text \<open>
  A second connection of a connected peer leaks a slot of its subnet. libp2p reports every
  connection, so the same outbound peer can be reported again: its subnet is counted once more, but
  when it disconnects, however often, only one slot is freed. The slot stays taken although the peer
  is gone, and three such peers close the subnet to all others.
\<close>

theorem subnet_slots_leak:
  assumes "hm_get (nt_peer_subnets s) p = Some net" and "extract_subnet_24 a = Some net"
    and "t = snd (handle_peer_connected X e p (Some a) s)" and "t \<noteq> s"
    and "u = (handle_peer_disconnected p ^^ Suc k) t"
  shows "subnet_count t net = subnet_count s net + 1 \<and> subnet_count u net = subnet_count s net \<and>
    p \<notin> set (nt_outbound u) \<and> p \<notin> set (nt_inbound u) \<and> hm_get (nt_peer_subnets u) p = None"
proof -
  have t: "subnet_count t net = subnet_count s net + 1" "hm_get (nt_peer_subnets t) p = Some net"
    "hm_get (nt_subnet_counts t) net = Some (subnet_count s net + 1)"
    by (cases rule: connect_cases [OF assms(3)]; use assms(2,4) in \<open>simp add: subnet_count_def hm_get_put\<close>)+
  define gone where "gone = (\<lambda>u. subnet_count u net = subnet_count s net \<and> p \<notin> set (nt_outbound u) \<and>
    p \<notin> set (nt_inbound u) \<and> hm_get (nt_peer_subnets u) p = None)"
  have "gone (handle_peer_disconnected p t)"
    using t by (simp add: gone_def handle_peer_disconnected_def Let_def forget_peer_def on_node_def subnet_count_def sat_sub_def
        hm_get_del hm_get_put)
  moreover have "gone (handle_peer_disconnected p u)" if "gone u" for u
    using that by (simp add: gone_def handle_peer_disconnected_def Let_def forget_peer_def on_node_def subnet_count_def hm_get_del)
  ultimately have "gone ((handle_peer_disconnected p ^^ Suc k) t)"
    by (induction k) simp_all
  then show ?thesis using t(1) by (simp add: gone_def assms(5))
qed

theorem subnet_slots_leak_witness:
  "\<exists>(s :: net_state) u. nt_outbound s = [''b''] \<and> nt_outbound u = [] \<and> subnet_count u (1, 2, 3) = 1"
proof -
  let ?a = "''/ip4/1.2.3.4/udp''"
  define s where "s = demo_loop\<lparr>nt_outbound := [''b''], nt_peer_subnets := [(''b'', (1, 2, 3))],
    nt_subnet_counts := [((1, 2, 3), 1)]\<rparr>"
  define t where "t = snd (handle_peer_connected demo_network demo_env ''b'' (Some ?a) s)"
  have a: "extract_subnet_24 ?a = Some (1, 2, 3)"
    by (simp add: extract_subnet_24_def parse_u8_def is_digit_def digits_value_def map_filter_def Let_def)
  have "\<not> is_peer_banned 90 ''b'' demo_node" by (simp add: is_peer_banned_def demo_node_def)
  then have o: "nt_outbound t = [''b'']" "subnet_count t (1, 2, 3) = 2"
    using a by (simp_all add: t_def s_def handle_peer_connected_def Let_def demo_loop_def demo_env_def MAX_PEER_COUNT_def
        sat_add64_def U64_MAX_def MAX_OUTBOUND_CONNECTIONS_def MAX_PEERS_PER_SUBNET_def hs_insert_def hm_get_def subnet_count_def
        hm_put_def)
  have s: "hm_get (nt_peer_subnets s) ''b'' = Some (1, 2, 3)" "subnet_count s (1, 2, 3) = 1" "nt_outbound s = [''b'']"
    by (simp_all add: s_def hm_get_def subnet_count_def)
  have "t \<noteq> s" using o(2) s(2) by auto
  from subnet_slots_leak [OF s(1) a t_def this, of "handle_peer_disconnected ''b'' t" 0] s
  have "subnet_count (handle_peer_disconnected ''b'' t) (1, 2, 3) = 1" by simp
  moreover have "nt_outbound (handle_peer_disconnected ''b'' t) = []"
    using o(1) by (simp add: handle_peer_disconnected_def Let_def forget_peer_def on_node_def split: option.split)
  ultimately show ?thesis using s(3) by blast
qed

section \<open>Two honest nodes\<close>

text \<open>
  An honest peer passes the challenge. When a node challenges a peer that has just connected and
  that peer answers as the code does, the node verifies it and asks it for the blocks above its tip.
\<close>

theorem honest_peer_is_verified:
  assumes "handle_peer_connected X e q addr s = (cmds, t)" and "SendChallenge q height nonce parent \<in> set cmds"
    and "en_local_peer e' = q" and "RespondChallenge i v \<in> set (handle_challenge_request X e' (en_local_peer e) i height nonce parent)"
    and "handle_challenge_response e2 q v t = (cmds2, u)"
  shows "q \<in> set (nt_verified u) \<and> hm_get (nt_pending u) q = None \<and>
    cmds2 = [RequestBlocks q \<lparr> sr_start_height = wrap_add64 (cs_current_height (ns_chain (nt_node t))) 1,
                               sr_count = MAX_SYNC_BLOCKS \<rparr>]"
proof -
  define w where "w = compute_challenge_hash X MAINNET_CHAIN_ID (cs_latest_block_hash (ns_chain (nt_node s)))
    (cs_current_height (ns_chain (nt_node s))) (en_nonce e) (x_peer_bytes X (en_local_peer e)) (x_peer_bytes X q)"
  have "height = cs_current_height (ns_chain (nt_node s)) \<and> nonce = en_nonce e \<and>
      parent = cs_latest_block_hash (ns_chain (nt_node s)) \<and> hm_get (nt_pending t) q = Some (w, en_instant e)"
    using assms(1,2) unfolding handle_peer_connected_def Let_def w_def [symmetric]
    by (auto simp: hm_get_put split: option.splits if_splits)
  moreover from this have "v = w" using assms(3,4) by (simp add: handle_challenge_request_def w_def)
  ultimately show ?thesis using assms(5) by (auto simp: handle_challenge_response_def Let_def hs_insert_def hm_get_del)
qed

theorem honest_peer_is_verified_witness:
  "\<exists>v u. ''b'' \<in> set (nt_verified u) \<and>
     handle_challenge_response demo_env ''b'' v
       (snd (handle_peer_connected demo_network demo_env ''b'' None demo_loop)) =
     ([RequestBlocks ''b'' \<lparr> sr_start_height = 1, sr_count = 500 \<rparr>], u)"
proof -
  define t where "t = snd (handle_peer_connected demo_network demo_env ''b'' None demo_loop)"
  have "\<not> is_peer_banned 90 ''b'' demo_node" by (simp add: is_peer_banned_def demo_node_def)
  then have c: "handle_peer_connected demo_network demo_env ''b'' None demo_loop = ([SendChallenge ''b'' 0 5 (Hash 7)], t)"
    by (simp add: t_def handle_peer_connected_def Let_def demo_loop_def demo_env_def MAX_PEER_COUNT_def
        sat_add64_def MAX_INBOUND_CONNECTIONS_def)
      (simp add: demo_node_def demo_chain_def)
  define e' where "e' = demo_env\<lparr>en_local_peer := ''b''\<rparr>"
  have b: "en_local_peer e' = ''b''" by (simp add: e'_def)
  obtain v where v: "RespondChallenge 1 v \<in> set (handle_challenge_request demo_network e' (en_local_peer demo_env) 1 0 5 (Hash 7))"
    by (simp add: handle_challenge_request_def)
  obtain cmds u where r: "handle_challenge_response demo_env ''b'' v t = (cmds, u)" by (metis surj_pair)
  have "nt_node t = demo_node"
    by (cases rule: connect_cases [OF t_def]; simp add: demo_loop_def)
  then have h: "wrap_add64 (cs_current_height (ns_chain (nt_node t))) 1 = 1"
    by (simp add: demo_node_def demo_chain_def wrap_add64_def U64_MAX_def)
  have "SendChallenge ''b'' 0 5 (Hash 7) \<in> set [SendChallenge ''b'' 0 5 (Hash 7)]" by simp
  from honest_peer_is_verified [OF c this b v r] h r show ?thesis
    by (auto simp: t_def MAX_SYNC_BLOCKS_def SYNC_MAX_BLOCKS_PER_REQUEST_def)
qed

end
