(* ===== verification/Peer_Sync.thy ===== *)
theory Peer_Sync
  imports Peer_Reach
begin

text \<open>
  Synchronization: what a node serves, what it asks for, and what the peer cache keeps.
\<close>

section \<open>Serving blocks\<close>

lemma clamp_range:
  assumes "clamp_sync_request_range start k current = (from, number)" and "current < U64_MAX"
  shows "from \<le> current" "number \<le> MAX_SYNC_BLOCKS" "number \<le> k" "from + number \<le> current + 1"
    "0 < k \<Longrightarrow> 0 < number" "start \<le> current \<Longrightarrow> from = start"
  using assms by (auto simp: clamp_sync_request_range_def Let_def sat_sub_def sat_add64_def min_def U64_MAX_def
      MAX_SYNC_BLOCKS_def SYNC_MAX_BLOCKS_PER_REQUEST_def split: if_splits)

lemma serve_blocks_law:
  "serve_blocks X db [from..<to] = Some blocks \<Longrightarrow> length blocks \<le> to - from \<and>
     (\<forall>k < length blocks. \<exists>b. load_block X (from + k) db = Inr (Some b) \<and> x_borsh_block X b = Some (blocks ! k))"
proof (induction "to - from" arbitrary: "from" blocks)
  case 0
  then show ?case by simp
next
  case (Suc d)
  then have u: "[from..<to] = from # [Suc from..<to]" by (simp add: upt_conv_Cons)
  show ?case
  proof (cases "\<exists>b. load_block X from db = Inr (Some b)")
    case False
    then have "blocks = []" using Suc.prems unfolding u by (auto split: sum.splits option.splits)
    then show ?thesis by simp
  next
    case True
    then obtain b where b: "load_block X from db = Inr (Some b)" by blast
    then obtain d' ds where d': "x_borsh_block X b = Some d'" "serve_blocks X db [Suc from..<to] = Some ds" "blocks = d' # ds"
      using Suc.prems unfolding u by (auto split: option.splits)
    have "length ds \<le> to - Suc from \<and>
        (\<forall>k < length ds. \<exists>b. load_block X (Suc from + k) db = Inr (Some b) \<and> x_borsh_block X b = Some (ds ! k))"
      using Suc.hyps(2) by (intro Suc.hyps(1) [OF _ d'(2)]) simp
    then show ?thesis using b d' Suc.hyps(2) by (auto simp: nth_Cons split: nat.split)
  qed
qed

text \<open>
  A sync request is answered with stored blocks in order. A verified peer gets at most 500 blocks,
  consecutive from a height that is at most the tip and is the requested one if that exists, none above
  the tip, each the serialization of the block stored at its height. When they are together larger
  than 10 MiB the network task sends nothing: the range is not shortened to fit.
\<close>

theorem sync_response_contents:
  assumes "handle_sync_request X p i req s = Some (cmds, t)" and "p \<in> set (nt_verified s)"
    and "ns_store (nt_node s) = Some db" and "cs_current_height (ns_chain (nt_node s)) < U64_MAX"
  shows "\<exists>blocks from. cmds = [RespondSyncRequest i \<lparr> sp_blocks = blocks, sp_from_height = from \<rparr>] \<and> t = s \<and>
    from \<le> cs_current_height (ns_chain (nt_node s)) \<and> length blocks \<le> 500 \<and> length blocks \<le> sr_count req \<and>
    from + length blocks \<le> cs_current_height (ns_chain (nt_node s)) + 1 \<and>
    (sr_start_height req \<le> cs_current_height (ns_chain (nt_node s)) \<longrightarrow> from = sr_start_height req) \<and>
    (\<forall>k < length blocks. \<exists>b. load_block X (from + k) db = Inr (Some b) \<and> x_borsh_block X b = Some (blocks ! k)) \<and>
    (MAX_SYNC_RESPONSE_BYTES < sum_list (map length blocks) \<longrightarrow>
       (\<forall>task. fst (handle_command (RespondSyncRequest i \<lparr> sp_blocks = blocks, sp_from_height = from \<rparr>) task) = []))"
proof -
  let ?c = "cs_current_height (ns_chain (nt_node s))"
  obtain f number where r: "clamp_sync_request_range (sr_start_height req) (sr_count req) ?c = (f, number)" by (metis surj_pair)
  note c = clamp_range [OF r assms(4)]
  have "sat_add64 f number = f + number" using c(4) assms(4) by (intro sat_add64_exact) simp
  then obtain blocks where b: "serve_blocks X db [f..<f + number] = Some blocks"
    "cmds = [RespondSyncRequest i \<lparr> sp_blocks = blocks, sp_from_height = f \<rparr>]" "t = s"
    using assms(1-3) by (auto simp: handle_sync_request_def Let_def r)
  note l = serve_blocks_law [OF b(1)]
  have "fst (handle_command (RespondSyncRequest i \<lparr> sp_blocks = blocks, sp_from_height = f \<rparr>) task) = []"
    if "MAX_SYNC_RESPONSE_BYTES < sum_list (map length blocks)" for task
    using that by (simp add: handle_command_def Let_def is_within_size_limit_def payload_size_bytes_def)
  then show ?thesis using b(2,3) l c
    by (intro exI [of _ blocks] exI [of _ f]) (auto simp: MAX_SYNC_BLOCKS_def SYNC_MAX_BLOCKS_PER_REQUEST_def)
qed

theorem sync_response_contents_witness:
  "\<exists>blocks. handle_sync_request demo_network ''a'' 3 \<lparr> sr_start_height = 0, sr_count = 10 \<rparr>
      (demo_loop\<lparr>nt_node := demo_node\<lparr>ns_store := Some (demo_db(height_key 0 \<mapsto> encode_value demo_network []))\<rparr>\<rparr>) =
      Some ([RespondSyncRequest 3 \<lparr> sp_blocks = blocks, sp_from_height = 0 \<rparr>],
        demo_loop\<lparr>nt_node := demo_node\<lparr>ns_store := Some (demo_db(height_key 0 \<mapsto> encode_value demo_network []))\<rparr>\<rparr>) \<and>
      length blocks \<le> 1"
proof -
  let ?db = "demo_db(height_key 0 \<mapsto> encode_value demo_network [])"
  let ?s = "demo_loop\<lparr>nt_node := demo_node\<lparr>ns_store := Some ?db\<rparr>\<rparr>"
  have f: "x_db_get_fails demo_network k = False" for k
    by (simp add: demo_network_def demo_x_def node_externs.extend_def net_externs.fields_def)
  have "load_block demo_network 0 ?db = Inr (Some demo_first)"
    unfolding load_block_def by (intro db_load_stored) (simp_all add: f demo_network_fields)
  then have run: "\<exists>cmds t. handle_sync_request demo_network ''a'' 3 \<lparr> sr_start_height = 0, sr_count = 10 \<rparr> ?s = Some (cmds, t)"
    by (simp add: handle_sync_request_def Let_def demo_loop_def clamp_sync_request_range_def demo_node_def demo_chain_def
        sat_sub_def sat_add64_def U64_MAX_def MAX_SYNC_BLOCKS_def SYNC_MAX_BLOCKS_PER_REQUEST_def demo_network_fields)
  then obtain cmds t where run: "handle_sync_request demo_network ''a'' 3 \<lparr> sr_start_height = 0, sr_count = 10 \<rparr> ?s = Some (cmds, t)"
    by blast
  from sync_response_contents [OF run, of ?db] run show ?thesis
    by (auto simp: demo_loop_def demo_node_def demo_chain_def U64_MAX_def)
qed

section \<open>Asking for blocks\<close>

text \<open>
  Only a passed challenge makes a node ask for blocks, once and for at most 500 of them: a response is
  applied without asking for more.
\<close>

lemma requests_only_after_challenge:
  assumes "run_step X e st s = Some (cs, t)" and "RequestBlocks p req \<in> set cs"
  shows "\<exists>v. st = NetEvent (ChallengeResponseReceived p v) \<and> sr_count req = 500"
proof (cases st)
  case (NetEvent ev)
  have quiet: "RequestBlocks p req \<notin> set cmds" if "apply_gossip_block X e q r b s1 = Some (cmds, u)" for q r b s1 cmds u
    using that by (auto simp: apply_gossip_block_def local_block_attestation_def strike_peer_def ban_and_forget_def Let_def
        split: option.splits sum.splits prod.splits if_splits)
  show ?thesis
    using assms quiet NetEvent
    by (cases ev)
      (auto simp: run_step_def handle_network_event_def handle_gossip_block_def handle_gossip_transaction_def
        handle_gossip_attestation_def handle_peer_connected_def handle_peer_identified_def handle_sync_request_def
        handle_challenge_request_def handle_challenge_response_def handle_sync_response_def reject_gossip_tx_def
        ban_for_tx_def admit_gossip_tx_def ban_and_forget_def Let_def MAX_SYNC_BLOCKS_def SYNC_MAX_BLOCKS_PER_REQUEST_def
        split: if_splits option.splits bool.splits prod.splits sum.splits pow_precheck.splits)
qed (use assms in \<open>auto simp: run_step_def check_challenges_def Let_def\<close>)

section \<open>The peer cache\<close>

lemma split_at_line: "c \<notin> set p \<Longrightarrow> split_at c (p @ c # s) = p # split_at c s"
  by (induction p) auto

lemma split_at_parts: "q \<in> set (split_at c s) \<Longrightarrow> c \<notin> set q"
  by (induction s arbitrary: q) (auto split: list.splits if_splits)

lemma split_at_lines:
  "\<forall>p \<in> set ps. c \<notin> set p \<Longrightarrow> split_at c (concat (map (\<lambda>p. p @ [c]) ps)) = ps @ [[]]"
  by (induction ps) (simp_all add: split_at_line)

lemma set_trim: "set (trim s) \<subseteq> set s"
  by (auto simp: trim_def dest!: set_dropWhileD)

lemma dropWhile_rev_hd:
  assumes "dropWhile f s = s"
  shows "dropWhile f (rev (dropWhile f (rev s))) = rev (dropWhile f (rev s))"
proof (cases "rev (dropWhile f (rev s))")
  case (Cons a t)
  have "s = rev (dropWhile f (rev s)) @ rev (takeWhile f (rev s))"
    by (metis rev_append rev_rev_ident takeWhile_dropWhile_id)
  then have "s \<noteq> []" "hd s = a" using Cons by (metis append_Cons list.distinct(1), metis append_Cons list.sel(1))
  then obtain u where s: "s = a # u" by (cases s) auto
  have "\<not> f a" using assms length_dropWhile_le [of f u] by (auto simp: s)
  then show ?thesis by (simp add: Cons)
next
  case Nil
  show ?thesis by (simp only: Nil dropWhile.simps)
qed

lemma trim_trim: "trim (trim s) = trim s"
proof -
  have "dropWhile is_space (dropWhile is_space s) = dropWhile is_space s" for s by (rule dropWhile_idem)
  then have "dropWhile is_space (trim s) = trim s" unfolding trim_def by (intro dropWhile_rev_hd)
  then have "trim (trim s) = rev (dropWhile is_space (rev (trim s)))" by (simp add: trim_def)
  also have "rev (trim s) = dropWhile is_space (rev (dropWhile is_space s))" by (simp add: trim_def)
  finally show ?thesis by (simp add: trim_def dropWhile_idem)
qed

lemma first_seen_law:
  "set (first_seen seen xs) = set xs - set seen" "distinct (first_seen seen xs)"
  "distinct xs \<Longrightarrow> set xs \<inter> set seen = {} \<Longrightarrow> first_seen seen xs = xs"
  by (induction xs arbitrary: seen) auto

text \<open>A line as the cache holds it.\<close>

definition cacheable :: "'x net_externs_scheme \<Rightarrow> string \<Rightarrow> bool" where
  "cacheable X p \<longleftrightarrow> p \<noteq> [] \<and> trim p = p \<and> CHR 0x0A \<notin> set p \<and> x_multiaddr_ok X p"

lemma loaded_peers:
  "distinct (load_known_peers X disk)" "length (load_known_peers X disk) \<le> MAX_PEER_COUNT"
  "p \<in> set (load_known_peers X disk) \<Longrightarrow> cacheable X p"
proof -
  show "distinct (load_known_peers X disk)" "length (load_known_peers X disk) \<le> MAX_PEER_COUNT"
    by (auto simp: load_known_peers_def first_seen_law(2) split: option.split)
  show "cacheable X p" if mem: "p \<in> set (load_known_peers X disk)"
  proof (cases disk)
    case None
    then show ?thesis using mem by (simp add: load_known_peers_def)
  next
    case (Some s)
    let ?lines = "split_at (CHR 0x0A) s"
    have "p \<in> set (first_seen [] (filter (x_multiaddr_ok X) (filter (\<lambda>l. l \<noteq> []) (map trim ?lines))))"
      using mem Some by (auto simp: load_known_peers_def dest: in_set_takeD)
    then obtain l where l: "l \<in> set ?lines" "p = trim l" "p \<noteq> []" "x_multiaddr_ok X p"
      by (auto simp: first_seen_law(1))
    have "CHR 0x0A \<notin> set p" using split_at_parts [OF l(1)] set_trim [of l] l(2) by blast
    then show ?thesis using l trim_trim [of l] by (simp add: cacheable_def)
  qed
qed

lemma load_saved:
  assumes "distinct ps" and "length ps \<le> MAX_PEER_COUNT" and "\<And>p. p \<in> set ps \<Longrightarrow> cacheable X p"
  shows "load_known_peers X (Some (concat (map (\<lambda>p. p @ [CHR 0x0A]) ps))) = ps"
proof -
  have "map trim (split_at (CHR 0x0A) (concat (map (\<lambda>p. p @ [CHR 0x0A]) ps))) = ps @ [[]]"
    using assms(3) by (subst split_at_lines) (auto simp: cacheable_def trim_def map_idI)
  moreover have "filter (\<lambda>l. l \<noteq> []) (ps @ [[]]) = ps" "filter (x_multiaddr_ok X) ps = ps"
    using assms(3) by (auto simp: cacheable_def filter_id_conv)
  ultimately show ?thesis using assms(1,2) first_seen_law(3) [of ps "[]"] by (simp add: load_known_peers_def)
qed

text \<open>
  The peer cache keeps the newest: what was saved is loaded again, a known address changes nothing, and
  a new one goes to the end, in place of the oldest when the cache is full.
\<close>

theorem peer_cache_round_trip:
  assumes "cacheable X addr"
  shows "load_known_peers X (save_peer_to_cache X addr disk) =
    (let peers = load_known_peers X disk in
     if addr \<in> set peers then peers
     else (if length peers < MAX_PEER_COUNT then peers else tl peers) @ [addr])"
proof (cases "addr \<in> set (load_known_peers X disk)")
  case True
  then show ?thesis by (simp add: save_peer_to_cache_def Let_def)
next
  case False
  let ?l = "load_known_peers X disk"
  define kept where "kept = (if MAX_PEER_COUNT \<le> length ?l then tl ?l else ?l)"
  have sub: "set kept \<subseteq> set ?l" using list.set_sel(2) [of ?l] by (cases ?l) (auto simp: kept_def)
  have "load_known_peers X (Some (concat (map (\<lambda>p. p @ [CHR 0x0A]) (kept @ [addr])))) = kept @ [addr]"
  proof (rule load_saved)
    show "distinct (kept @ [addr])"
      using loaded_peers(1) [of X disk] sub False by (auto simp: kept_def distinct_tl)
    show "length (kept @ [addr]) \<le> MAX_PEER_COUNT"
      using loaded_peers(2) [of X disk] by (auto simp: kept_def MAX_PEER_COUNT_def)
    show "cacheable X p" if "p \<in> set (kept @ [addr])" for p
      using that loaded_peers(3) sub assms by auto
  qed
  moreover have "save_peer_to_cache X addr disk = Some (concat (map (\<lambda>p. p @ [CHR 0x0A]) (kept @ [addr])))"
    using False assms by (simp add: save_peer_to_cache_def Let_def kept_def cacheable_def)
  ultimately show ?thesis using False by (auto simp: Let_def kept_def)
qed

end
