(* ===== verification/Process.thy ===== *)
theory Process
  imports Tasks Peer_Sync
begin

text \<open>
  The whole process: the event loop and the tasks beside it work on one node. Every interleaving of
  their steps keeps the node's books, keeps the RPC snapshot up to date, and broadcasts only blocks
  that this node applied.
\<close>

section \<open>Runs of the process\<close>

datatype process_step =
    Loop loop_step
  | Submission block
  | MiningSearch bool
  | MiningApply
  | RefinerTurn
  | SendBlock
  | SendAttestation
  | PoolChange mempool

inductive process_step_may ::
  "'x net_externs_scheme \<Rightarrow> net_env \<Rightarrow> process_step \<Rightarrow> process \<Rightarrow> network_command list \<Rightarrow> process \<Rightarrow> bool" for X e where
  step_loop: "run_step X e st (pr_net p) = Some (cs, s) \<Longrightarrow> process_step_may X e (Loop st) p cs (p\<lparr>pr_net := s\<rparr>)"
| step_submission: "process_submission X (en_now_secs e) b p = Some (r, p') \<Longrightarrow> process_step_may X e (Submission b) p [] p'"
| step_search: "pr_miner p = None \<Longrightarrow> mining_search_may X solo (en_now_secs e) p p' \<Longrightarrow>
     process_step_may X e (MiningSearch solo) p [] p'"
| step_mined: "mining_apply X (en_now_secs e) p = Some p' \<Longrightarrow> process_step_may X e MiningApply p [] p'"
| step_refiner: "refiner_turn X (en_now_secs e) p = Some p' \<Longrightarrow> process_step_may X e RefinerTurn p [] p'"
| step_block: "broadcast_next_block p = (cs, p') \<Longrightarrow> process_step_may X e SendBlock p cs p'"
| step_attestation: "broadcast_next_attestation p = (cs, p') \<Longrightarrow> process_step_may X e SendAttestation p cs p'"
| step_pool: "process_step_may X e (PoolChange pool) p [] (with_node ((nt_node (pr_net p))\<lparr>ns_mempool := pool\<rparr>) p)"

inductive_cases process_step_mayE: "process_step_may X e st p cs p'"

text \<open>How many blocks a step can apply.\<close>

definition blocks_of :: "process_step \<Rightarrow> nat" where
  "blocks_of st =
     (case st of
        Loop (NetEvent (SyncResponseReceived _ r)) \<Rightarrow> length (sp_blocks r)
      | Loop (NetEvent (GossipBlock _ _)) \<Rightarrow> 1
      | Submission _ \<Rightarrow> 1 | MiningApply \<Rightarrow> 1 | RefinerTurn \<Rightarrow> 1
      | _ \<Rightarrow> 0)"

text \<open>The ranges of height and supply have room for \<open>k\<close> more blocks at eight times the base reward.\<close>

definition room :: "nat \<Rightarrow> node_state \<Rightarrow> bool" where
  "room k n \<longleftrightarrow> cs_current_height (ns_chain n) + k \<le> U64_MAX \<and>
     issued n + k * (8 * cs_base_reward (ns_chain n)) \<le> U64_MAX"

definition process_starts :: "'x net_externs_scheme \<Rightarrow> genesis_config \<Rightarrow> process \<Rightarrow> bool" where
  "process_starts X config p \<longleftrightarrow> (let s = pr_net p in
     (\<exists>key_file disk bans db. start_node X config key_file disk bans = Inr (nt_node s) \<and>
        open_store X disk = Inr db \<and> load_chain_state X db = Inr None) \<and>
     nt_info s = chain_state_to_info (ns_chain (nt_node s)) \<and>
     nt_outbound s = [] \<and> nt_inbound s = [] \<and> nt_verified s = [] \<and> nt_pending s = [] \<and>
     nt_subnet_counts s = [] \<and> nt_peer_subnets s = [] \<and>
     pr_blocks p = [] \<and> pr_attestations p = [] \<and> pr_miner p = None \<and> pr_refiner p = BetweenTurns)"

text \<open>The commands sent to the network so far, and the state.\<close>

inductive process_run ::
  "'x net_externs_scheme \<Rightarrow> genesis_config \<Rightarrow> network_command list \<Rightarrow> process \<Rightarrow> bool" for X config where
  run_start: "process_starts X config p \<Longrightarrow> process_run X config [] p"
| run_more: "process_run X config out p \<Longrightarrow> room (blocks_of st) (nt_node (pr_net p)) \<Longrightarrow>
     process_step_may X e st p cs p' \<Longrightarrow> process_run X config (out @ cs) p'"

section \<open>What is kept\<close>

definition info_ok :: "net_state \<Rightarrow> bool" where
  "info_ok s \<longleftrightarrow> (let c = ns_chain (nt_node s) in
     nt_info s = (chain_state_to_info c)\<lparr>ci_finalized_height := ci_finalized_height (nt_info s)\<rparr> \<and>
     ci_finalized_height (nt_info s) \<le> cs_finalized_height c)"

definition good :: "nat \<Rightarrow> net_state \<Rightarrow> bool" where
  "good k s \<longleftrightarrow> node_inv (nt_node s) \<and> info_ok s \<and> room k (nt_node s)"

definition same_books :: "node_state \<Rightarrow> node_state \<Rightarrow> bool" where
  "same_books n n' \<longleftrightarrow> ns_chain n' = ns_chain n \<and> ns_accounts n' = ns_accounts n \<and> ns_refiners n' = ns_refiners n \<and>
     ns_pending_evidence n' = ns_pending_evidence n"

definition steady :: "net_state \<Rightarrow> net_state \<Rightarrow> bool" where
  "steady s t \<longleftrightarrow> same_books (nt_node s) (nt_node t) \<and> nt_info t = nt_info s"

lemma same_books_refl [simp]: "same_books n n"
  by (simp add: same_books_def)

lemma steady_refl [simp]: "steady s s"
  by (simp add: steady_def)

lemma steady_trans: "steady s t \<Longrightarrow> steady t u \<Longrightarrow> steady s u"
  by (simp add: steady_def same_books_def)

lemma good_steady: "good k s \<Longrightarrow> steady s t \<Longrightarrow> good k t"
  using node_inv_frame [of "nt_node s" "nt_node t"]
  by (auto simp: good_def steady_def same_books_def info_ok_def room_def issued_def)

lemma good_less: "good k s \<Longrightarrow> j \<le> k \<Longrightarrow> good j s"
proof -
  assume "good k s" "j \<le> k"
  moreover have "j * (8 * r) \<le> k * (8 * r)" for r :: nat using \<open>j \<le> k\<close> by (intro mult_right_mono) simp_all
  ultimately show ?thesis unfolding good_def room_def by (meson add_left_mono order_trans)
qed

lemma block_issue_le:
  assumes "cs_base_reward (ns_chain n) \<le> U64_MAX"
  shows "block_issue X b n \<le> 8 * cs_base_reward (ns_chain n)"
proof -
  let ?r = "cs_base_reward (ns_chain n)"
  have "compute_block_reward ?r d v \<le> 8 * ?r" for d v
  proof -
    have "compute_block_reward ?r d v * 1000 \<le> compute_base_reward ?r d * 7665"
      using compute_block_reward_bounds [OF assms] by blast
    also have "\<dots> \<le> ?r * 8000" by (rule mult_mono) (simp_all add: compute_base_reward_def)
    finally show ?thesis by simp
  qed
  then show ?thesis by (simp add: block_issue_def gross_block_reward_def split: option.split)
qed

text \<open>A refused block moves at most the finality.\<close>

lemma refused_chain:
  assumes grow: "can_grow X b n" and borsh: "borsh_total X" and run: "apply_block X now b n = Some (Inl e, n')"
  shows "ns_chain n' = (ns_chain n)\<lparr>cs_finality_refiners := cs_finality_refiners (ns_chain n'),
      cs_finalized_height := cs_finalized_height (ns_chain n')\<rparr>"
    "cs_finalized_height (ns_chain n) \<le> cs_finalized_height (ns_chain n')"
proof -
  have ok: "refiners_wf (ns_refiners n)" "index_ok (cs_finality_refiners (ns_chain n))"
    using grow by (simp_all add: can_grow_def supply_ok_def stores_wf_def)
  have "ns_chain n' = (ns_chain n)\<lparr>cs_finality_refiners := cs_finality_refiners (ns_chain n'),
      cs_finalized_height := cs_finalized_height (ns_chain n')\<rparr> \<and>
    cs_finalized_height (ns_chain n) \<le> cs_finalized_height (ns_chain n')"
    using run
  proof (cases rule: apply_block_cases)
    case (counted kind f s)
    show ?thesis using apply_attestations_frame(9) [OF counted(2)] apply_attestations_law(5) [OF ok counted(2)] by blast
  next
    case (committed kind n1)
    from checked_block_result [OF grow borsh committed(1,2,3)] run show ?thesis by simp
  qed simp
  then show "ns_chain n' = (ns_chain n)\<lparr>cs_finality_refiners := cs_finality_refiners (ns_chain n'),
      cs_finalized_height := cs_finalized_height (ns_chain n')\<rparr>"
    "cs_finalized_height (ns_chain n) \<le> cs_finalized_height (ns_chain n')" by blast+
qed

text \<open>A block that is applied uses up room for one.\<close>

lemma good_block:
  fixes X :: "'x net_externs_scheme"
  assumes good: "good (Suc k) s" and borsh: "borsh_total X" and run: "apply_block X now b (nt_node s) = Some (r, n')"
  shows "room 1 (nt_node s)" "node_inv (nt_node s)"
    "r = Inl e \<Longrightarrow> good k (s\<lparr>nt_node := n'\<rparr>)" "r = Inr h \<Longrightarrow> good k (refresh_info (s\<lparr>nt_node := n'\<rparr>))"
proof -
  let ?n = "nt_node s" let ?r = "cs_base_reward (ns_chain ?n)"
  show inv: "node_inv ?n" and room: "room 1 ?n" using good good_less [OF good, of 1] by (simp_all add: good_def)
  have "?r \<le> U64_MAX" using room by (simp add: room_def)
  note issue = block_issue_le [OF this, of X b]
  have top: "cs_current_height (ns_chain ?n) < U64_MAX" "issued ?n + block_issue X b ?n \<le> U64_MAX"
    using room issue by (simp_all add: room_def)
  have grow: "can_grow X b ?n" using inv top by (simp add: can_grow_def node_inv_def)
  have inv': "node_inv n'" by (rule node_inv_block [OF inv borsh top run])
  show "good k (s\<lparr>nt_node := n'\<rparr>)" if "r = Inl e"
  proof -
    define i1 f1 where "i1 = cs_finality_refiners (ns_chain n')" and "f1 = cs_finalized_height (ns_chain n')"
    have c: "ns_chain n' = (ns_chain ?n)\<lparr>cs_finality_refiners := i1, cs_finalized_height := f1\<rparr>"
      "cs_finalized_height (ns_chain ?n) \<le> f1"
      using refused_chain [OF grow borsh run [unfolded that]] by (simp_all only: i1_def f1_def)
    have "info_ok (s\<lparr>nt_node := n'\<rparr>)"
      using good c(2) by (auto simp: good_def info_ok_def c(1) chain_state_to_info_def circulating_supply_def Let_def)
    moreover have "room k n'" using good_less [OF good, of k] by (simp add: good_def room_def c(1) issued_def)
    ultimately show ?thesis using inv' by (simp add: good_def)
  qed
  show "good k (refresh_info (s\<lparr>nt_node := n'\<rparr>))" if "r = Inr h"
  proof -
    have fin: "cs_finalized_height (ns_chain ?n) \<le> cs_current_height (ns_chain ?n)"
      using inv by (simp add: node_inv_def heights_bounded_def Let_def)
    have l: "cs_current_height (ns_chain n') = cs_current_height (ns_chain ?n) + 1" "cs_base_reward (ns_chain n') = ?r"
      using accepted_link [OF grow run [unfolded that] fin] by (simp_all add: Let_def)
    have i: "issued n' = issued ?n + block_issue X b ?n" using applied_supply_law [OF grow run] that by blast
    have "room k n'" using good issue by (simp add: good_def room_def l i)
    then show ?thesis using inv' by (simp add: good_def refresh_info_def info_ok_def chain_state_to_info_def)
  qed
qed


section \<open>The handlers\<close>

definition quiet :: "network_command list \<Rightarrow> bool" where
  "quiet cs \<longleftrightarrow> (\<forall>d. BroadcastBlock d \<notin> set cs)"

lemma steady_updates [simp]:
  "steady s (s\<lparr>nt_strikes := k\<rparr>)" "steady s (s\<lparr>nt_rate_limits := l\<rparr>)" "steady s (s\<lparr>nt_pending := q\<rparr>)"
  "steady s (forget_peer p s)" "steady s (on_node (ban_peer now p reason perm) s)"
  "steady s (on_node (\<lambda>n. n\<lparr>ns_mempool := m\<rparr>) s)" "steady s (on_node (\<lambda>n. n\<lparr>ns_refiner_peers := g\<rparr>) s)"
  by (simp_all add: steady_def same_books_def forget_peer_def on_node_def ban_peer_def Let_def)

lemma steady_ban:
  "steady s (snd (ban_and_forget now p reason perm s))" "quiet (fst (ban_and_forget now p reason perm s))"
  "steady s (snd (ban_for_tx now p reason perm s))"
  by (simp_all add: ban_and_forget_def ban_for_tx_def steady_def same_books_def forget_peer_def on_node_def
      ban_peer_def Let_def quiet_def)

lemma steady_strike: "steady s (snd (strike_peer now p r s))" "quiet (fst (strike_peer now p r s))"
  using steady_trans [OF steady_updates(1) steady_ban(1)] steady_ban(2)
  by (simp_all add: strike_peer_def Let_def quiet_def)

lemma steady_count:
  "count_block now p k s = (ok, t) \<Longrightarrow> steady s t" "count_tx now p k s = (ok, t) \<Longrightarrow> steady s t"
  by (auto simp: count_block_def count_tx_def Let_def)

lemma attestation_books: "same_books n (snd (accept_block_attestation X a n))"
  by (simp add: same_books_def accept_block_attestation_frame)

lemma attestation_same: "accept_block_attestation X a n = (r, n') \<Longrightarrow> same_books n n'"
  using attestation_books [of n X a] by simp

lemma local_attestation_books:
  assumes "local_block_attestation X h g n = Some (cs, n2)"
  shows "same_books n n2" "quiet cs"
  using assms attestation_books [of n X] by (auto simp: local_block_attestation_def quiet_def split: option.splits)

lemma gossip_block_outcome:
  assumes "handle_gossip_block X e data p s = Some (cs, t)"
  obtains (dropped) "steady s t" "quiet cs"
  | (refused) s1 b err n1 where "steady s s1" "apply_block X (en_now_secs e) b (nt_node s1) = Some (Inl err, n1)"
      "steady (s1\<lparr>nt_node := n1\<rparr>) t" "quiet cs"
  | (applied) s1 b h n1 n2 d cs' where "steady s s1" "nt_node s1 = nt_node s" "apply_block X (en_now_secs e) b (nt_node s1) = Some (Inr h, n1)"
      "x_borsh_block X b = Some d" "same_books n1 n2" "t = refresh_info (s1\<lparr>nt_node := n2\<rparr>)"
      "cs = BroadcastBlock d # cs'" "quiet cs'"
proof (cases "p \<in> set (nt_verified s)")
  case False
  then show ?thesis using assms by (intro dropped) (auto simp: handle_gossip_block_def quiet_def)
next
  case True
  let ?r = "is_refiner_peer p (nt_node s)"
  obtain ok s1 where c: "count_block (en_instant e) p (if ?r then MAX_BLOCKS_PER_PEER_PER_SECOND * 2
      else MAX_BLOCKS_PER_PEER_PER_SECOND) s = (ok, s1)" by (metis surj_pair)
  have s1: "steady s s1" by (rule steady_count(1) [OF c])
  have node: "nt_node s1 = nt_node s" using c by (auto simp: count_block_def Let_def)
  show ?thesis
  proof (cases "ok \<and> length data \<le> MAX_BLOCK_SIZE_BYTES \<and> x_unborsh_block X data \<noteq> None")
    case False
    then have "(cs, t) = ([], s1)" using assms True c
      unfolding handle_gossip_block_def Let_def by (cases ok; cases "x_unborsh_block X data") (auto split: if_splits)
    with s1 show ?thesis by (intro dropped) (simp_all add: quiet_def)
  next
    case dec: True
    then obtain b where b: "x_unborsh_block X data = Some b" by blast
    with True c dec have adm: "admitted_block X e data p b s s1" by (simp add: admitted_block_def)
    have "cs = [] \<and> t = s1 \<or> ban_and_forget (en_now_secs e) p ''fake_pow'' True s1 = (cs, t) \<or>
        apply_gossip_block X e p ?r b s1 = Some (cs, t)"
      using assms unfolding handle_admitted_block [OF adm]
      by (auto simp: Let_def split: if_splits pow_precheck.splits)
    then consider "cs = []" "t = s1" | "ban_and_forget (en_now_secs e) p ''fake_pow'' True s1 = (cs, t)"
      | "apply_gossip_block X e p ?r b s1 = Some (cs, t)" by blast
    then show ?thesis
    proof cases
      case 1
      with s1 show ?thesis by (intro dropped) (simp_all add: quiet_def)
    next
      case 2
      then have "steady s1 t" "quiet cs" using steady_ban(1) [of s1 "en_now_secs e" p "''fake_pow''" True]
          steady_ban(2) [of "en_now_secs e" p "''fake_pow''" True s1] by simp_all
      then show ?thesis using steady_trans [OF s1] by (intro dropped)
    next
      case ap: 3
      then obtain r n1 where rn: "apply_block X (en_now_secs e) b (nt_node s1) = Some (r, n1)"
        by (cases "apply_block X (en_now_secs e) b (nt_node s1)") (auto simp: apply_gossip_block_def)
      show ?thesis
      proof (cases r)
        case (Inl err)
        then have "strike_peer (en_now_secs e) p ?r (s1\<lparr>nt_node := n1\<rparr>) = (cs, t)"
          using ap rn by (simp add: apply_gossip_block_def)
        then show ?thesis using steady_strike(1) [of "s1\<lparr>nt_node := n1\<rparr>" "en_now_secs e" p ?r]
            steady_strike(2) [of "en_now_secs e" p ?r "s1\<lparr>nt_node := n1\<rparr>"] rn Inl s1
          by (intro refused [of s1 b err n1]) simp_all
      next
        case (Inr g)
        then obtain n2 d cs' where "t = refresh_info (s1\<lparr>nt_node := n2\<rparr>)" "cs = BroadcastBlock d # cs'"
          "x_borsh_block X b = Some d" "local_block_attestation X (bh_height (blk_header b)) g n1 = Some (cs', n2)"
          using ap rn by (auto simp: apply_gossip_block_def split: option.splits)
        then show ?thesis using local_attestation_books rn Inr s1 node by (intro applied [of s1 b g n1 d n2 cs']) auto
      qed
    qed
  qed
qed

lemma steady_gossip_transaction:
  "steady s (snd (handle_gossip_transaction X e data p s))" "quiet (fst (handle_gossip_transaction X e data p s))"
proof -
  obtain ok s1 where c: "count_tx (en_instant e) p (if is_refiner_peer p (nt_node s) then MAX_TXS_PER_PEER_PER_SECOND * 2
      else MAX_TXS_PER_PEER_PER_SECOND) s = (ok, s1)" by (metis surj_pair)
  have s1: "steady s s1" by (rule steady_count(2) [OF c])
  have r: "steady s1 (snd (reject_gossip_tx now p err s1))" "quiet (fst (reject_gossip_tx now p err s1))" for now err
    using steady_ban(3) by (simp_all add: reject_gossip_tx_def quiet_def ban_for_tx_def)
  have a: "steady s1 (snd (admit_gossip_tx X now data tx s1))" "quiet (fst (admit_gossip_tx X now data tx s1))" for now tx
    by (simp_all add: admit_gossip_tx_def Let_def quiet_def split: prod.split sum.split)
  show "steady s (snd (handle_gossip_transaction X e data p s))"
    using s1 c steady_trans [OF s1 r(1)] steady_trans [OF s1 a(1)]
    by (cases ok) (simp_all add: handle_gossip_transaction_def Let_def split: option.split sum.split)
  show "quiet (fst (handle_gossip_transaction X e data p s))"
    using c r(2) a(2) by (cases ok) (simp_all add: handle_gossip_transaction_def Let_def quiet_def split: option.split sum.split)
qed


lemma good_sync:
  fixes X :: "'x net_externs_scheme"
  assumes "borsh_total X"
  shows "apply_sync_blocks X now ds s = Some t \<Longrightarrow> good (length ds) s \<Longrightarrow> good 0 t"
proof (induction ds arbitrary: s)
  case Nil
  then show ?case by simp
next
  case (Cons d ds)
  have good: "good (Suc (length ds)) s" using Cons.prems(2) by simp
  have s0: "good 0 s" by (rule good_less [OF good]) simp
  show ?case
  proof (cases "length d \<le> MAX_BLOCK_SIZE_BYTES \<and> (\<exists>b. x_unborsh_block X d = Some b \<and>
      bh_height (blk_header b) = wrap_add64 (cs_current_height (ns_chain (nt_node s))) 1)")
    case False
    then have "t = s" using Cons.prems(1) by (auto split: if_splits option.splits)
    with s0 show ?thesis by simp
  next
    case True
    then obtain b where b: "length d \<le> MAX_BLOCK_SIZE_BYTES" "x_unborsh_block X d = Some b"
      "bh_height (blk_header b) = wrap_add64 (cs_current_height (ns_chain (nt_node s))) 1" by blast
    then obtain r n1 where run: "apply_block X now b (nt_node s) = Some (r, n1)"
      using Cons.prems(1) by (cases "apply_block X now b (nt_node s)") auto
    show ?thesis
    proof (cases r)
      case (Inl err)
      then have "t = s\<lparr>nt_node := n1\<rparr>" using Cons.prems(1) b run by simp
      then show ?thesis using good_block(3) [OF good assms run Inl] good_less by blast
    next
      case (Inr h)
      then have "apply_sync_blocks X now ds (refresh_info (s\<lparr>nt_node := n1\<rparr>)) = Some t"
        using Cons.prems(1) b run by simp
      then show ?thesis using Cons.IH good_block(4) [OF good assms run Inr] by blast
    qed
  qed
qed

lemma steady_challenge_tick: "steady s (snd (check_challenges e s))" "quiet (fst (check_challenges e s))"
proof -
  have "steady t (fold (\<lambda>p t. on_node (ban_peer now p reason False) (t\<lparr>nt_pending := hm_del p (nt_pending t)\<rparr>)) ps t)"
    for now reason ps t
  proof (induction ps arbitrary: t)
    case (Cons p ps)
    have "steady t (on_node (ban_peer now p reason False) (t\<lparr>nt_pending := hm_del p (nt_pending t)\<rparr>))"
      using steady_trans [OF steady_updates(3) steady_updates(5)] .
    with Cons show ?case by (auto intro: steady_trans)
  qed simp
  then show "steady s (snd (check_challenges e s))" by (simp add: check_challenges_def Let_def)
  show "quiet (fst (check_challenges e s))" by (auto simp: check_challenges_def Let_def quiet_def)
qed

lemma steady_connections:
  "steady s (snd (handle_peer_connected X e p addr s))" "quiet (fst (handle_peer_connected X e p addr s))"
  "steady s (handle_peer_disconnected p s)"
  "steady s (snd (handle_peer_identified X p v a s))" "quiet (fst (handle_peer_identified X p v a s))"
  "steady s (snd (handle_challenge_response e p w s))" "quiet (fst (handle_challenge_response e p w s))"
proof -
  show "steady s (snd (handle_peer_connected X e p addr s))" "quiet (fst (handle_peer_connected X e p addr s))"
    by (simp_all add: handle_peer_connected_def Let_def steady_def quiet_def split: option.split)
  show "steady s (handle_peer_disconnected p s)"
    by (simp add: handle_peer_disconnected_def Let_def steady_def same_books_def forget_peer_def on_node_def split: option.split)
  show "steady s (snd (handle_peer_identified X p v a s))" "quiet (fst (handle_peer_identified X p v a s))"
    by (simp_all add: handle_peer_identified_def quiet_def steady_def same_books_def on_node_def split: option.split)
  show "steady s (snd (handle_challenge_response e p w s))" "quiet (fst (handle_challenge_response e p w s))"
    by (simp_all add: handle_challenge_response_def Let_def steady_def same_books_def on_node_def ban_peer_def quiet_def
        split: option.split prod.split)
qed

text \<open>Between two states of the loop the node itself has applied the block with these bytes.\<close>

definition applied_between :: "'x net_externs_scheme \<Rightarrow> nat \<Rightarrow> net_state \<Rightarrow> net_state \<Rightarrow> byte list \<Rightarrow> bool" where
  "applied_between X now s t d \<longleftrightarrow> (\<exists>b h n'. node_inv (nt_node s) \<and> room 1 (nt_node s) \<and>
     apply_block X now b (nt_node s) = Some (Inr h, n') \<and> same_books n' (nt_node t) \<and> x_borsh_block X b = Some d)"

lemma good_gossip_block:
  fixes X :: "'x net_externs_scheme"
  assumes "good 1 s" and "borsh_total X" and "handle_gossip_block X e data p s = Some (cs, t)"
  shows "good 0 t \<and> (\<forall>d. BroadcastBlock d \<in> set cs \<longrightarrow> applied_between X (en_now_secs e) s t d)"
  using assms(3)
proof (cases rule: gossip_block_outcome)
  case dropped
  then show ?thesis using good_steady [OF good_less [OF assms(1), of 0]] by (simp add: quiet_def)
next
  case (refused s1 b err n1)
  have "good (Suc 0) s1" using good_steady [OF assms(1) refused(1)] by simp
  from good_block(3) [OF this assms(2) refused(2) refl] show ?thesis
    using good_steady refused(3,4) unfolding quiet_def by blast
next
  case (applied s1 b h n1 n2 d cs')
  have g: "good (Suc 0) s1" using good_steady [OF assms(1) applied(1)] by simp
  note gb = good_block [OF g assms(2) applied(3)]
  have "steady (refresh_info (s1\<lparr>nt_node := n1\<rparr>)) t"
    using applied(5,6) by (simp add: steady_def same_books_def refresh_info_def)
  then have "good 0 t" using good_steady gb(4) by blast
  moreover have "same_books n1 (nt_node t)" using applied(5,6) by (simp add: refresh_info_def)
  then have "applied_between X (en_now_secs e) s t d"
    unfolding applied_between_def using gb(1,2) applied(3,4) unfolding applied(2) by blast
  ultimately show ?thesis using applied(7,8) by (auto simp: quiet_def)
qed


lemma good_loop_step:
  fixes X :: "'x net_externs_scheme"
  assumes good: "good (blocks_of (Loop st)) s" and borsh: "borsh_total X" and run: "run_step X e st s = Some (cs, t)"
  shows "good 0 t \<and> (\<forall>d. BroadcastBlock d \<in> set cs \<longrightarrow> applied_between X (en_now_secs e) s t d)"
proof -
  have calm: ?thesis if "steady s t" "quiet cs"
    using good_steady [OF good_less [OF good, of 0]] that by (simp add: quiet_def)
  show ?thesis
  proof (cases st)
    case ChallengeTick
    then show ?thesis using run steady_challenge_tick(1) [of s e] steady_challenge_tick(2) [of e s]
      by (intro calm) (simp_all add: run_step_def)
  next
    case EvictTick
    then show ?thesis using run by (intro calm) (auto simp: run_step_def evict_expired_tick_def quiet_def steady_def
        same_books_def on_node_def)
  next
    case (NetEvent ev)
    note r = run [unfolded run_step_def NetEvent loop_step.case handle_network_event_def]
    show ?thesis
    proof (cases ev)
      case (GossipTransaction data p)
      then show ?thesis using r steady_gossip_transaction(1) [of s X e data p] steady_gossip_transaction(2) [of X e data p s]
        by (intro calm) auto
    next
      case (GossipBlock data p)
      then show ?thesis using r good_gossip_block [of s X e data p cs t] good borsh NetEvent by (simp add: blocks_of_def)
    next
      case (GossipAttestation data p)
      then have "steady s t" "quiet cs"
        using r by (auto simp: handle_gossip_attestation_def quiet_def steady_def attestation_same
            split: if_splits option.splits prod.splits)
      then show ?thesis by (rule calm)
    next
      case (PeerConnected p a)
      then show ?thesis using r steady_connections(1) [of s X e p a] steady_connections(2) [of X e p a s]
        by (intro calm) auto
    next
      case (PeerIdentified p v a)
      then show ?thesis using r steady_connections(4) [of s X p v a] steady_connections(5) [of X p v a s]
        by (intro calm) auto
    next
      case (PeerDisconnected p)
      then show ?thesis using r steady_connections(3) [of s p] by (intro calm) (auto simp: quiet_def)
    next
      case (SyncResponseReceived p resp)
      then have "cs = []" "t = s \<or> apply_sync_blocks X (en_now_secs e) (sp_blocks resp) s = Some t"
        using r by (auto simp: handle_sync_response_def split: if_splits)
      moreover have "good (length (sp_blocks resp)) s" using good SyncResponseReceived NetEvent by (simp add: blocks_of_def)
      ultimately show ?thesis using good_sync [OF borsh, of "en_now_secs e" "sp_blocks resp" s t] good_less [of _ s 0] by auto
    next
      case (SyncRequestReceived p i req)
      then have "t = s" "quiet cs" using r by (auto simp: handle_sync_request_def Let_def quiet_def split: if_splits prod.splits)
      then show ?thesis by (intro calm) simp_all
    next
      case (ChallengeRequestReceived p i h k g)
      then show ?thesis using r by (intro calm) (auto simp: handle_challenge_request_def quiet_def)
    next
      case (ChallengeResponseReceived p v)
      then show ?thesis using r steady_connections(6) [of s e p v] steady_connections(7) [of e p v s]
        by (intro calm) auto
    qed
  qed
qed

section \<open>The tasks\<close>

lemma template_books: "same_books n (snd (block_template X now n))"
  by (simp add: same_books_def block_template_frame)

lemma mine_books: "mine_block_may X now k n r n' \<Longrightarrow> same_books n n'"
  using template_books [of n X now] by (auto simp: mine_block_may_def split: prod.splits option.splits)

lemma produce_books:
  assumes "produce_refiner_block X now n = Some (r, n')"
  shows "same_books n n'"
  using assms template_books [of n X now]
  by (auto simp: produce_refiner_block_def apfst_def map_prod_def split: option.splits if_splits prod.splits)

lemma steady_with_node [simp]: "same_books (nt_node (pr_net p)) n \<Longrightarrow> steady (pr_net p) (pr_net (with_node n p))"
  by (simp add: with_node_def steady_def)

text \<open>What the tasks do with a block of their own.\<close>

lemma own_block_outcome:
  assumes "apply_own_block X now b p = Some (r, p')"
  obtains (refused) err n where "apply_block X now b (nt_node (pr_net p)) = Some (Inl err, n)" "p' = with_node n p"
  | (applied) h n d where "apply_block X now b (nt_node (pr_net p)) = Some (Inr h, n)" "x_borsh_block X b = Some d"
      "steady (refresh_info ((pr_net p)\<lparr>nt_node := n\<rparr>)) (pr_net p')" "set (pr_blocks p') \<subseteq> insert d (set (pr_blocks p))"
proof -
  obtain r0 n where run: "apply_block X now b (nt_node (pr_net p)) = Some (r0, n)"
    using assms by (cases "apply_block X now b (nt_node (pr_net p))") (auto simp: apply_own_block_def)
  show ?thesis
  proof (cases r0)
    case (Inl err)
    then show ?thesis using assms run by (intro refused) (auto simp: apply_own_block_def)
  next
    case (Inr h)
    then obtain d where d: "x_borsh_block X b = Some d" and q: "queue_local_block_attestation X (bh_height (blk_header b)) h
        (try_send_block d ((with_node n p)\<lparr>pr_net := refresh_info (pr_net (with_node n p))\<rparr>)) = Some p'"
      using assms run by (auto simp: apply_own_block_def Let_def split: option.splits)
    have "steady (refresh_info ((pr_net p)\<lparr>nt_node := n\<rparr>)) (pr_net p')"
      using q attestation_books [of n X] by (auto simp: queue_local_block_attestation_def Let_def try_send_block_def
          try_send_attestation_def with_node_def refresh_info_def steady_def split: option.splits if_splits)
    moreover have "set (pr_blocks p') \<subseteq> insert d (set (pr_blocks p))"
      using q by (auto simp: queue_local_block_attestation_def Let_def try_send_block_def
          try_send_attestation_def with_node_def split: option.splits if_splits)
    ultimately show ?thesis using run Inr d by (intro applied) auto
  qed
qed


lemma good_own_block:
  fixes X :: "'x net_externs_scheme"
  assumes good: "good 1 (pr_net p)" and borsh: "borsh_total X" and run: "apply_own_block X now b p = Some (r, p')"
  shows "good 0 (pr_net p') \<and> (\<forall>d \<in> set (pr_blocks p'). d \<in> set (pr_blocks p) \<or> applied_between X now (pr_net p) (pr_net p') d)"
  using run
proof (cases rule: own_block_outcome)
  case (refused err n)
  have "good (Suc 0) (pr_net p)" using good by simp
  from good_block(3) [OF this borsh refused(1) refl] show ?thesis by (simp add: refused(2) with_node_def)
next
  case (applied h n d)
  have "good (Suc 0) (pr_net p)" using good by simp
  note gb = good_block [OF this borsh applied(1)]
  have "good 0 (pr_net p')" using good_steady [OF gb(4) applied(3)] by simp
  moreover have "same_books n (nt_node (pr_net p'))" using applied(3) by (simp add: steady_def refresh_info_def)
  then have "applied_between X now (pr_net p) (pr_net p') d"
    unfolding applied_between_def using gb(1,2) applied(1,2) by blast
  ultimately show ?thesis using applied(4) by blast
qed

lemma good_process_step:
  fixes X :: "'x net_externs_scheme"
  assumes step: "process_step_may X e st p cs p'" and good: "good (blocks_of st) (pr_net p)" and borsh: "borsh_total X"
  shows "good 0 (pr_net p') \<and> (\<forall>d \<in> set (pr_blocks p'). d \<in> set (pr_blocks p) \<or> applied_between X (en_now_secs e) (pr_net p) (pr_net p') d) \<and>
    (\<forall>d. BroadcastBlock d \<in> set cs \<longrightarrow> d \<in> set (pr_blocks p) \<or> applied_between X (en_now_secs e) (pr_net p) (pr_net p') d)"
proof -
  have good0: "good 0 (pr_net p)" by (rule good_less [OF good]) simp
  have keep: "good 0 (pr_net q)" if "steady (pr_net p) (pr_net q)" for q using good_steady [OF good0 that] .
  from step show ?thesis
  proof cases
    case (step_loop st0 s)
    then show ?thesis using good_loop_step [OF good [unfolded step_loop(1)] borsh step_loop(3)] by auto
  next
    case (step_submission b r)
    then obtain r0 where "apply_own_block X (en_now_secs e) b p = Some (r0, p')"
      by (auto simp: process_submission_def)
    then show ?thesis using good_own_block [of p X _ b r0 p'] good borsh step_submission by (simp add: blocks_of_def)
  next
    case (step_search solo)
    then have "p' = p \<or> (\<exists>n r. same_books (nt_node (pr_net p)) n \<and> p' = (with_node n p)\<lparr>pr_miner := r\<rparr>)"
      unfolding mining_search_may_def by (meson mine_books)
    then have "steady (pr_net p) (pr_net p')" "pr_blocks p' = pr_blocks p" by (auto simp: with_node_def steady_def)
    then show ?thesis using keep step_search by simp
  next
    case step_mined
    show ?thesis
    proof (cases "pr_miner p")
      case None
      then show ?thesis using step_mined good0 by (simp add: mining_apply_def)
    next
      case (Some b)
      then obtain r where "apply_own_block X (en_now_secs e) b (p\<lparr>pr_miner := None\<rparr>) = Some (r, p')"
        using step_mined by (auto simp: mining_apply_def)
      then show ?thesis using good_own_block [of "p\<lparr>pr_miner := None\<rparr>" X _ b r p'] good borsh step_mined
        by (simp add: blocks_of_def)
    qed
  next
    case step_refiner
    show ?thesis
    proof (cases "pr_refiner p")
      case BetweenTurns
      then show ?thesis using step_refiner good0 by (auto simp: refiner_turn_def refiner_wait_def)
    next
      case (WaitingSince h)
      then have "(\<exists>g. p' = p\<lparr>pr_refiner := g\<rparr>) \<or>
          (\<exists>n g. same_books (nt_node (pr_net p)) n \<and> p' = (with_node n p)\<lparr>pr_refiner := g\<rparr>)"
        using step_refiner(3) by (auto simp: refiner_turn_def refiner_attempt_def
            split: if_splits option.splits prod.splits dest: produce_books)
      then have "steady (pr_net p) (pr_net p')" "pr_blocks p' = pr_blocks p" by (auto simp: with_node_def steady_def)
      then show ?thesis using keep step_refiner by simp
    next
      case (HoldingBlock b)
      then obtain r where "apply_own_block X (en_now_secs e) b (p\<lparr>pr_refiner := BetweenTurns\<rparr>) = Some (r, p')"
        using step_refiner by (auto simp: refiner_turn_def)
      then show ?thesis using good_own_block [of "p\<lparr>pr_refiner := BetweenTurns\<rparr>" X _ b r p'] good borsh step_refiner
        by (simp add: blocks_of_def)
    qed
  next
    case step_block
    then show ?thesis using good0 by (auto simp: broadcast_next_block_def split: list.splits)
  next
    case step_attestation
    then show ?thesis using good0 by (auto simp: broadcast_next_attestation_def split: list.splits)
  next
    case (step_pool pool)
    then show ?thesis using good0 keep [of p'] by (auto simp: with_node_def steady_def same_books_def)
  qed
qed

lemma process_run_good:
  fixes X :: "'x net_externs_scheme"
  assumes "process_run X config out p" and "borsh_total X"
  shows "node_inv (nt_node (pr_net p)) \<and> info_ok (pr_net p)"
  using assms
proof (induction rule: process_run.induct)
  case (run_start p)
  then obtain key_file disk bans db where s: "start_node X config key_file disk bans = Inr (nt_node (pr_net p))"
    "open_store X disk = Inr db" "load_chain_state X db = Inr None"
    by (auto simp: process_starts_def Let_def)
  have "info_ok (pr_net p)" using run_start(1)
    by (simp add: process_starts_def Let_def info_ok_def chain_state_to_info_def)
  then show ?case using node_inv_start [OF s] by blast
next
  case (run_more out p st e cs p')
  have good: "good (blocks_of st) (pr_net p)" using run_more.IH [OF run_more.prems] run_more.hyps(2) by (simp add: good_def)
  from good_process_step [OF run_more.hyps(3) good run_more.prems] show ?case by (simp add: good_def)
qed

text \<open>How a run goes on.\<close>

inductive process_leads ::
  "'x net_externs_scheme \<Rightarrow> network_command list \<Rightarrow> process \<Rightarrow> network_command list \<Rightarrow> process \<Rightarrow> bool" for X out p where
  leads_here: "process_leads X out p out p"
| leads_on: "process_leads X out p out' p' \<Longrightarrow> room (blocks_of st) (nt_node (pr_net p')) \<Longrightarrow>
     process_step_may X e st p' cs p'' \<Longrightarrow> process_leads X out p (out' @ cs) p''"

lemma process_leads_run:
  "process_leads X out p out' p' \<Longrightarrow> process_run X config out p \<Longrightarrow> process_run X config out' p'"
  by (induction rule: process_leads.induct) (auto intro: run_more)

text \<open>The step of a run in which its node applied a block.\<close>

definition applied_in_run :: "'x net_externs_scheme \<Rightarrow> genesis_config \<Rightarrow> network_command list \<Rightarrow> process \<Rightarrow> byte list \<Rightarrow> bool" where
  "applied_in_run X config out p d \<longleftrightarrow> (\<exists>out0 p0 e st cs p1. process_run X config out0 p0 \<and>
     process_step_may X e st p0 cs p1 \<and> applied_between X (en_now_secs e) (pr_net p0) (pr_net p1) d \<and>
     process_leads X (out0 @ cs) p1 out p)"

lemma applied_in_run_on:
  assumes "applied_in_run X config out p d" and "room (blocks_of st) (nt_node (pr_net p))" and "process_step_may X e st p cs p'"
  shows "applied_in_run X config (out @ cs) p' d"
  using assms(1) leads_on [OF _ assms(2,3)] unfolding applied_in_run_def by blast

lemma process_run_applied:
  fixes X :: "'x net_externs_scheme"
  assumes "process_run X config out p" and "borsh_total X"
  shows "\<forall>d. BroadcastBlock d \<in> set out \<or> d \<in> set (pr_blocks p) \<longrightarrow> applied_in_run X config out p d"
  using assms
proof (induction rule: process_run.induct)
  case (run_start p)
  then show ?case by (simp add: process_starts_def Let_def)
next
  case (run_more out p st e cs p')
  have good: "good (blocks_of st) (pr_net p)"
    using process_run_good [OF run_more.hyps(1) run_more.prems] run_more.hyps(2) by (simp add: good_def)
  note step = good_process_step [OF run_more.hyps(3) good run_more.prems]
  note kept = applied_in_run_on [OF _ run_more.hyps(2,3)]
  have fresh: "applied_in_run X config (out @ cs) p' d" if "applied_between X (en_now_secs e) (pr_net p) (pr_net p') d" for d
    unfolding applied_in_run_def using run_more.hyps(1,3) that leads_here by blast
  show ?case
  proof (intro allI impI)
    fix d assume "BroadcastBlock d \<in> set (out @ cs) \<or> d \<in> set (pr_blocks p')"
    then have "(BroadcastBlock d \<in> set out \<or> d \<in> set (pr_blocks p)) \<or> applied_between X (en_now_secs e) (pr_net p) (pr_net p') d"
      using step by auto
    then show "applied_in_run X config (out @ cs) p' d"
      using run_more.IH [OF run_more.prems] kept fresh by blast
  qed
qed


section \<open>Properties of the process\<close>

text \<open>
  C20: whatever the peers, the miner, the refiner, the RPC clients and the timers do, in any order, a process
  that started on a disk without a chain, and that applies blocks while the height and the supply have room in 64 bits, keeps the books of its node: accounts and refiners stay well formed, every issued
  coin is on an account, in custody or burned, the mint ledger splits issue and burn exactly. The
  snapshot that RPC serves equals the chain state, but for a finalized height that may lag behind.
\<close>

theorem process_keeps_books:
  fixes X :: "'x net_externs_scheme"
  assumes "process_run X config out p" and "borsh_total X"
  shows "let n = nt_node (pr_net p); c = ns_chain n; l = cs_mint_ledger c; i = nt_info (pr_net p) in
     accounts_wf (ns_accounts n) \<and> refiners_wf (ns_refiners n) \<and>
     total_balance (ns_accounts n) + custody (ns_refiners n) + cs_total_burned c = cs_total_issued c \<and>
     cs_total_issued c = ml_genesis_issued l + ml_mined_gross_reward l \<and>
     cs_total_burned c = ml_mine_assay_burned l + ml_ordinary_fees_burned l + ml_bond_unbond_assay_burned l +
       ml_slashed_stake_burned l \<and>
     i = (chain_state_to_info c)\<lparr>ci_finalized_height := ci_finalized_height i\<rparr> \<and>
     ci_finalized_height i \<le> cs_finalized_height c"
  using process_run_good [OF assms]
  unfolding node_inv_def supply_ok_def supply_defs ledger_exact_def info_ok_def Let_def by blast

text \<open>A first block over RPC, applied and broadcast.\<close>

definition demo_process :: process where
  "demo_process = \<lparr> pr_net = demo_loop\<lparr>nt_outbound := [], nt_verified := []\<rparr>, pr_blocks = [], pr_attestations = [],
     pr_miner = None, pr_refiner = BetweenTurns \<rparr>"

lemma demo_process_node: "nt_node (pr_net demo_process) = demo_node"
  by (simp add: demo_process_def demo_loop_def)

lemma demo_network_starts: "starts_demo demo_network" "borsh_total demo_network"
  by (simp_all add: starts_demo_def borsh_total_def demo_network_def demo_x_def node_externs.extend_def net_externs.fields_def)

lemma demo_submission:
  obtains p' where "process_run demo_network genesis_config_default [] demo_process"
    "process_step_may demo_network demo_env (Submission demo_first) demo_process [] p'"
    "process_run demo_network genesis_config_default [] p'" "pr_blocks p' = [[0]]" "room 0 (nt_node (pr_net p'))"
proof -
  note st = demo_network_starts(1)
  have "process_starts demo_network genesis_config_default demo_process"
    unfolding process_starts_def Let_def
    using demo_node_starts [OF st] demo_opens [OF st]
    by (intro conjI exI [of _ "Some (Inr (replicate 32 1))"] exI [of _ "Inr Map.empty"] exI [of _ "[]"] exI [of _ demo_db])
      (simp_all add: demo_process_def demo_loop_def demo_node_def)
  then have start: "process_run demo_network genesis_config_default [] demo_process" by (rule run_start)
  have fields: "x_blake3 demo_network = (\<lambda>_. Hash 7)" "x_borsh_block demo_network = (\<lambda>_. Some [0])"
    by (rule demo_network_fields)+
  have room: "room 1 demo_node" by (simp add: room_def issued_def demo_node_def demo_chain_def U64_MAX_def)
  have acc: "accept_block demo_network 90 demo_first demo_node = Inr Mined"
    unfolding demo_first_block using demo_next_difficulty demo_digest(1)
    by (rule_tac first_block_accepted; simp add: demo_network_fields demo_node_def demo_chain_def hash_zero_def)
  have "block_issue demo_network demo_first demo_node \<le> 8 * 332000000"
    using block_issue_le [of demo_node demo_network demo_first] by (simp add: demo_node_def demo_chain_def U64_MAX_def)
  then have grow: "can_grow demo_network demo_first demo_node"
    using demo_supply by (simp add: can_grow_def issued_def demo_node_def demo_chain_def U64_MAX_def)
  obtain n' where run: "apply_block demo_network 90 demo_first demo_node =
      Some (Inr (compute_block_hash demo_network (blk_header demo_first)), n')"
    using checked_block_result [OF grow demo_network_starts(2) acc demo_checks] by blast
  have p: "nt_node (pr_net demo_process) = demo_node" "pr_blocks demo_process = []" "pr_attestations demo_process = []"
    "en_now_secs demo_env = 90"
    by (simp_all add: demo_process_def demo_loop_def demo_env_def)
  define q where "q = (with_node n' demo_process)\<lparr>pr_net := refresh_info (pr_net (with_node n' demo_process)), pr_blocks := [[0]]\<rparr>"
  have q: "try_send_block [0] ((with_node n' demo_process)\<lparr>pr_net := refresh_info (pr_net (with_node n' demo_process))\<rparr>) = q"
    by (simp add: q_def try_send_block_def with_node_def p)
  have total: "x_borsh_attestation demo_network = (\<lambda>_. Some [])"
    by (simp add: demo_network_def node_externs.extend_def net_externs.fields_def)
  obtain p' where p': "queue_local_block_attestation demo_network (bh_height (blk_header demo_first))
      (compute_block_hash demo_network (blk_header demo_first)) q = Some p'" "pr_blocks p' = [[0]]"
    by (cases "create_block_attestation demo_network (bh_height (blk_header demo_first))
        (compute_block_hash demo_network (blk_header demo_first)) (nt_node (pr_net q))")
      (simp_all add: queue_local_block_attestation_def Let_def total try_send_attestation_def with_node_def q_def)
  have "process_submission demo_network (en_now_secs demo_env) demo_first demo_process =
      Some (\<lparr> sb_block_hash = Some (hash_to_hex demo_network (compute_block_hash demo_network (blk_header demo_first))),
        sb_error = None \<rparr>, p')"
    by (simp add: process_submission_def apply_own_block_def p run fields Let_def q p'(1))
  then have step: "process_step_may demo_network demo_env (Submission demo_first) demo_process [] p'"
    by (rule step_submission)
  have "room (blocks_of (Submission demo_first)) (nt_node (pr_net demo_process))"
    using room by (simp add: blocks_of_def p)
  from run_more [OF start this step] have "process_run demo_network genesis_config_default [] p'" by simp
  moreover have "good (blocks_of (Submission demo_first)) (pr_net demo_process)"
    using process_run_good [OF start demo_network_starts(2)] room by (simp add: good_def blocks_of_def p)
  from good_process_step [OF step this demo_network_starts(2)] have "room 0 (nt_node (pr_net p'))" by (simp add: good_def)
  ultimately show thesis using start step p'(2) that by blast
qed

theorem process_keeps_books_witness:
  "\<exists>p. process_run demo_network genesis_config_default [] p \<and> pr_blocks p = [[0]] \<and>
     total_balance (ns_accounts (nt_node (pr_net p))) + custody (ns_refiners (nt_node (pr_net p)))
       + cs_total_burned (ns_chain (nt_node (pr_net p))) = cs_total_issued (ns_chain (nt_node (pr_net p)))"
proof -
  obtain p' where "process_run demo_network genesis_config_default [] p'" "pr_blocks p' = [[0]]"
    by (rule demo_submission)
  then show ?thesis using process_keeps_books [of demo_network _ _ p'] demo_network_starts(2) by (auto simp: Let_def)
qed

text \<open>
  C21: the node broadcasts only blocks it has applied itself. For every block that any task or handler has sent to
  the network in a run, or left in the queue for it, the run has a step, at that time or before, in which the
  node of the process applied this block to its state of that moment and kept the result: the block linked to the tip of that state,
  carried a valid proof of work or a refiner signature, and its books with the block as the new tip are those of
  the process after the step. Runs start on a disk without a chain, and blocks need room in the ranges of height and supply.
\<close>

theorem only_applied_blocks_are_broadcast:
  fixes X :: "'x net_externs_scheme"
  assumes "process_run X config out p" and "borsh_total X"
    and "BroadcastBlock d \<in> set out \<or> d \<in> set (pr_blocks p)"
  shows "\<exists>out0 p0 e st cs p1 b n'. process_run X config out0 p0 \<and> process_step_may X e st p0 cs p1 \<and>
     process_leads X (out0 @ cs) p1 out p \<and> x_borsh_block X b = Some d \<and>
     apply_block X (en_now_secs e) b (nt_node (pr_net p0)) = Some (Inr (compute_block_hash X (blk_header b)), n') \<and>
     ns_chain (nt_node (pr_net p1)) = ns_chain n' \<and> ns_accounts (nt_node (pr_net p1)) = ns_accounts n' \<and>
     ns_refiners (nt_node (pr_net p1)) = ns_refiners n' \<and>
     bh_previous_hash (blk_header b) = cs_latest_block_hash (ns_chain (nt_node (pr_net p0))) \<and>
     bh_height (blk_header b) = cs_current_height (ns_chain (nt_node (pr_net p0))) + 1 \<and>
     production_valid X b (bh_height (blk_header b)) \<and>
     cs_latest_block_hash (ns_chain (nt_node (pr_net p1))) = compute_block_hash X (blk_header b)"
proof -
  have "applied_in_run X config out p d" using process_run_applied [OF assms(1,2)] assms(3) by blast
  then obtain out0 p0 e st cs p1 b h n' where run: "process_run X config out0 p0" "process_step_may X e st p0 cs p1"
    "process_leads X (out0 @ cs) p1 out p"
    and n: "node_inv (nt_node (pr_net p0))" "room 1 (nt_node (pr_net p0))"
    "apply_block X (en_now_secs e) b (nt_node (pr_net p0)) = Some (Inr h, n')" "x_borsh_block X b = Some d"
    and books: "same_books n' (nt_node (pr_net p1))"
    unfolding applied_in_run_def applied_between_def by blast
  let ?n = "nt_node (pr_net p0)"
  have "cs_base_reward (ns_chain ?n) \<le> U64_MAX" using n(2) by (simp add: room_def)
  from block_issue_le [OF this, of X b] n(1,2) have grow: "can_grow X b ?n" by (simp add: can_grow_def node_inv_def room_def)
  have "cs_finalized_height (ns_chain ?n) \<le> cs_current_height (ns_chain ?n)"
    using n(1) by (simp add: node_inv_def heights_bounded_def Let_def)
  from accepted_link [OF grow n(3) this] run n(3,4) books show ?thesis unfolding Let_def same_books_def by metis
qed

theorem only_applied_blocks_are_broadcast_witness:
  "\<exists>p. process_run demo_network genesis_config_default [BroadcastBlock [0]] p \<and>
     (\<exists>b. x_borsh_block demo_network b = Some [0] \<and> production_valid demo_network b (bh_height (blk_header b)))"
proof -
  obtain p' where p': "process_run demo_network genesis_config_default [] p'" "pr_blocks p' = [[0]]"
    "room 0 (nt_node (pr_net p'))" by (rule demo_submission)
  have "room (blocks_of SendBlock) (nt_node (pr_net p'))"
    using p'(3) by (simp add: blocks_of_def)
  moreover have "process_step_may demo_network demo_env SendBlock p' [BroadcastBlock [0]] (p'\<lparr>pr_blocks := []\<rparr>)"
    by (rule step_block) (simp add: broadcast_next_block_def p'(2))
  ultimately have "process_run demo_network genesis_config_default [BroadcastBlock [0]] (p'\<lparr>pr_blocks := []\<rparr>)"
    using run_more [OF p'(1)] by fastforce
  from only_applied_blocks_are_broadcast [OF this demo_network_starts(2), of "[0]"] this show ?thesis by auto
qed

end
