(* ===== verification/Production.thy ===== *)
theory Production
  imports Process
begin

text \<open>
  Block production as a whole: from the pool through the template and the search to the acceptance of
  the block by the node that made it, and what stands in its way.
\<close>

section \<open>Templates and blocks\<close>

lemma pool_listed: "set (get_ordered_transactions p) = (\<lambda>x. me_transaction (snd x)) ` set (mp_entries p)"
  by (simp add: get_ordered_transactions_def ordered_entries_def image_image)

lemma pool_entries:
  assumes "mempool_wf p" and "tx \<in> set (get_ordered_transactions p)"
  shows "MIN_FEE \<le> tx_fee tx"
proof -
  obtain i e where e: "(i, e) \<in> set (mp_entries p)" "tx = me_transaction e" using assms(2) by (auto simp: pool_listed)
  then have "hm_get (mp_entries p) i = Some e" using assms(1) by (auto simp: mempool_wf_def intro: hm_in_set_get)
  then show ?thesis using mempool_wf_entry [OF assms(1)] e(2) by (simp add: entry_ok_def)
qed

lemma pool_ids_distinct:
  assumes "mempool_wf p"
  shows "distinct (map tx_id (get_ordered_transactions p))"
proof -
  have keys: "map (\<lambda>x. tx_id (me_transaction (snd x))) (mp_entries p) = map fst (mp_entries p)"
  proof (rule map_cong [OF refl])
    fix x assume "x \<in> set (mp_entries p)"
    then have "hm_get (mp_entries p) (fst x) = Some (snd x)"
      using assms by (auto simp: mempool_wf_def intro: hm_in_set_get)
    then show "tx_id (me_transaction (snd x)) = fst x" using mempool_wf_entry [OF assms] by (simp add: entry_ok_def)
  qed
  have d: "distinct (map (\<lambda>x. tx_id (me_transaction (snd x))) (mp_entries p))"
    unfolding keys using assms by (simp add: mempool_wf_def hm_wf_def)
  have "mset (map tx_id (get_ordered_transactions p)) = mset (map (\<lambda>x. tx_id (me_transaction (snd x))) (mp_entries p))"
  proof -
    have "mset (ordered_entries p) = mset (map snd (mp_entries p))" by (simp add: ordered_entries_def)
    then have "mset (map (\<lambda>e. tx_id (me_transaction e)) (ordered_entries p)) =
        mset (map (\<lambda>e. tx_id (me_transaction e)) (map snd (mp_entries p)))" by (simp only: mset_map)
    then show ?thesis by (simp add: get_ordered_transactions_def comp_def)
  qed
  then show ?thesis using d mset_eq_imp_distinct_iff by blast
qed

text \<open>The template of a block and the block that comes of it.\<close>

lemma template_fields:
  assumes "block_template X now n = (Some t, n')"
  shows "blk_transactions t = take MAX_TRANSACTIONS_PER_BLOCK (get_ordered_transactions (ns_mempool n))"
    "bh_version (blk_header t) = BLOCK_VERSION" "bh_height (blk_header t) = wrap_add64 (cs_current_height (ns_chain n)) 1"
    "bh_previous_hash (blk_header t) = cs_latest_block_hash (ns_chain n)"
    "bh_state_root (blk_header t) = cs_state_root (ns_chain n)" "bh_difficulty (blk_header t) = next_difficulty n"
    "bh_timestamp (blk_header t) = max now (sat_add64 (last_timestamp n) minimum_block_timestamp_delta_secs)"
    "bh_producer (blk_header t) = ns_miner_id n" "bh_refiner_signature (blk_header t) = None"
    "blk_genesis_ceremony t = None" "roots_valid X t" "length (blk_slash_evidence t) \<le> MAX_SLASH_EVIDENCE_PER_BLOCK"
    "length (blk_attestations t) \<le> MAX_ATTESTATIONS_PER_BLOCK" "ns_mempool n' = ns_mempool n" "ns_chain n' = ns_chain n"
    "ns_refiners n' = ns_refiners n" "ns_pending_attestations n = [] \<Longrightarrow> blk_attestations t = []"
proof -
  let ?d = "drain_pending_attestations_for_block (wrap_add64 (cs_current_height (ns_chain n)) 1) n"
  obtain er ar gr where r: "compute_evidence_root X (pending_slash_evidence_for_block n) = Inr er"
    "compute_attestation_root X (fst ?d) = Inr ar" "compute_genesis_ceremony_hash X None = Inr gr"
    using assms by (auto simp: block_template_def Let_def split: sum.splits)
  have few: "length (fst ?d) \<le> MAX_ATTESTATIONS_PER_BLOCK"
  proof -
    have "length (List.map_filter f (take k xs)) \<le> k" for f :: "'c \<Rightarrow> 'd option" and k xs
      by (simp add: List.map_filter_def) (rule order_trans [OF length_filter_le], simp)
    then show ?thesis unfolding drain_pending_attestations_for_block_def Let_def fst_conv .
  qed
  have t: "t = \<lparr>blk_header =
      \<lparr> bh_version = BLOCK_VERSION, bh_height = wrap_add64 (cs_current_height (ns_chain n)) 1,
        bh_previous_hash = cs_latest_block_hash (ns_chain n), bh_state_root = cs_state_root (ns_chain n),
        bh_transaction_root = compute_transaction_root X
          (take MAX_TRANSACTIONS_PER_BLOCK (get_ordered_transactions (ns_mempool n))),
        bh_evidence_root = er, bh_attestation_root = ar, bh_genesis_ceremony_hash = gr,
        bh_timestamp = max now (sat_add64 (last_timestamp n) minimum_block_timestamp_delta_secs),
        bh_difficulty = next_difficulty n, bh_suggested_fee = cs_suggested_fee (ns_chain n), bh_extension_root = None,
        bh_producer = ns_miner_id n, bh_pow_proof = None, bh_refiner_signature = None \<rparr>,
      blk_transactions = take MAX_TRANSACTIONS_PER_BLOCK (get_ordered_transactions (ns_mempool n)),
      blk_slash_evidence = pending_slash_evidence_for_block n, blk_attestations = fst ?d, blk_genesis_ceremony = None\<rparr>"
    using assms by (auto simp: block_template_def Let_def r simp del: One_nat_def)
  have n': "n' = snd ?d" using assms by (auto simp: block_template_def Let_def)
  show "ns_mempool n' = ns_mempool n" "ns_chain n' = ns_chain n" "ns_refiners n' = ns_refiners n"
    by (simp_all add: n' drain_pending_attestations_for_block_def Let_def)
  show "blk_attestations t = []" if "ns_pending_attestations n = []"
    by (simp add: t drain_pending_attestations_for_block_def Let_def that List.map_filter_def)
  show "blk_transactions t = take MAX_TRANSACTIONS_PER_BLOCK (get_ordered_transactions (ns_mempool n))"
    "bh_version (blk_header t) = BLOCK_VERSION" "bh_height (blk_header t) = wrap_add64 (cs_current_height (ns_chain n)) 1"
    "bh_previous_hash (blk_header t) = cs_latest_block_hash (ns_chain n)"
    "bh_state_root (blk_header t) = cs_state_root (ns_chain n)" "bh_difficulty (blk_header t) = next_difficulty n"
    "bh_timestamp (blk_header t) = max now (sat_add64 (last_timestamp n) minimum_block_timestamp_delta_secs)"
    "bh_producer (blk_header t) = ns_miner_id n" "bh_refiner_signature (blk_header t) = None"
    "blk_genesis_ceremony t = None" "roots_valid X t" "length (blk_slash_evidence t) \<le> MAX_SLASH_EVIDENCE_PER_BLOCK"
    "length (blk_attestations t) \<le> MAX_ATTESTATIONS_PER_BLOCK"
    using few r
    by (simp_all add: t roots_valid_def pending_slash_evidence_for_block_def)
qed

lemma mined_from_template:
  assumes "mine_block_may X now k n (Some b) n'"
  obtains t nonce where "block_template X now n = (Some t, n')" "nonce < k" "0 < bh_difficulty (blk_header t)"
    "bh_difficulty (blk_header t) \<le> leading_zeros (x_evo_hash X (x_evo_generate X
        (compute_epoch_seed X (bh_height (blk_header t)) EPOCH (epoch_seed_material (blk_header t))))
       (serialize_header_for_pow (blk_header t)) (bh_height (blk_header t)) nonce)"
    "b = t\<lparr>blk_header := (blk_header t)\<lparr>bh_pow_proof := Some (le_bytes 8 nonce)\<rparr>\<rparr>"
proof -
  obtain t where t: "block_template X now n = (Some t, n')"
    using assms by (auto simp: mine_block_may_def split: prod.splits option.splits)
  then obtain m where m: "mine_parallel_may X (blk_header t) (bh_difficulty (blk_header t)) k (Some m)"
    "b = m\<lparr>blk_transactions := blk_transactions t, blk_slash_evidence := blk_slash_evidence t,
        blk_attestations := blk_attestations t, blk_genesis_ceremony := blk_genesis_ceremony t\<rparr>"
    using assms t by (auto simp: mine_block_may_def dest!: map_option_eq_Some [THEN iffD1, OF sym])
  then obtain r where r: "evo_mine_parallel_may X (serialize_header_for_pow (blk_header t)) (bh_height (blk_header t))
      (bh_difficulty (blk_header t)) k EPOCH (epoch_seed_material (blk_header t)) r"
      "Some m = map_option (mined_with (blk_header t)) r"
    unfolding mine_parallel_may_def by blast
  then obtain nonce where "r = Some nonce" "m = mined_with (blk_header t) nonce" by (cases r) auto
  with r(1) have "nonce < k" "m = mined_with (blk_header t) nonce" "0 < bh_difficulty (blk_header t)"
    "bh_difficulty (blk_header t) \<le> leading_zeros (x_evo_hash X (x_evo_generate X
        (compute_epoch_seed X (bh_height (blk_header t)) EPOCH (epoch_seed_material (blk_header t))))
       (serialize_header_for_pow (blk_header t)) (bh_height (blk_header t)) nonce)"
    by (auto simp: evo_mine_parallel_may_def Let_def split: if_splits)
  with t m show thesis by (intro that [of t nonce]) (simp_all add: mined_with_def)
qed



section \<open>A transaction that stops production\<close>




section \<open>A block that its maker accepts\<close>

lemma mined_block_valid:
  fixes X :: "'x node_externs_scheme"
  assumes "mine_block_may X now k n (Some b) n'" and "evo_modes_agree X" and "k \<le> 2 ^ 64"
    and "mempool_wf (ns_mempool n)" and "\<And>tx. tx \<in> set (get_ordered_transactions (ns_mempool n)) \<Longrightarrow>
      length (tx_data tx) \<le> MAX_TX_DATA_SIZE_BYTES"
    and "x_borsh_block X b = Some v" and "length v \<le> MAX_BLOCK_SIZE_BYTES"
    and "object_id_hash (ns_miner_id n) \<noteq> hash_zero" and "cs_current_height (ns_chain n) < U64_MAX"
    and "max now (sat_add64 (last_timestamp n) 45) \<le> sat_add64 later 300"
    and m: "ns_chain m = ns_chain n" "ns_refiners m = ns_refiners n"
  shows "accept_block X later b m = Inr Mined" "bh_producer (blk_header b) = ns_miner_id n"
    "bh_refiner_signature (blk_header b) = None" "ns_pending_attestations n = [] \<Longrightarrow> blk_attestations b = []"
proof -
  obtain t nonce where t: "block_template X now n = (Some t, n')" "nonce < k" "0 < bh_difficulty (blk_header t)"
    "bh_difficulty (blk_header t) \<le> leading_zeros (x_evo_hash X (x_evo_generate X
        (compute_epoch_seed X (bh_height (blk_header t)) EPOCH (epoch_seed_material (blk_header t))))
       (serialize_header_for_pow (blk_header t)) (bh_height (blk_header t)) nonce)"
    "b = t\<lparr>blk_header := (blk_header t)\<lparr>bh_pow_proof := Some (le_bytes 8 nonce)\<rparr>\<rparr>"
    using assms(1) by (rule mined_from_template)
  note f = template_fields [OF t(1)]
  have chain: "wrap_add64 (cs_current_height (ns_chain n)) 1 = cs_current_height (ns_chain n) + 1"
    using assms(9) by (simp add: wrap_add64_exact)
  have height: "bh_height (blk_header t) = cs_current_height (ns_chain n) + 1" by (simp only: f(3) chain)
  have b: "blk_header b = (blk_header t)\<lparr>bh_pow_proof := Some (le_bytes 8 nonce)\<rparr>" "blk_transactions b = blk_transactions t"
    "blk_slash_evidence b = blk_slash_evidence t" "blk_attestations b = blk_attestations t"
    "blk_genesis_ceremony b = blk_genesis_ceremony t" by (simp_all add: t(5))
  have last: "last_timestamp m = last_timestamp n" "next_difficulty m = next_difficulty n"
    by (simp_all add: last_timestamp_def next_difficulty_def m)
  have "header_and_size_valid X b (cs_current_height (ns_chain n) + 1) (cs_latest_block_hash (ns_chain n)) (last_timestamp n)
      (next_difficulty n) later"
    unfolding header_and_size_valid_def Let_def b(1-4) using f assms(6,7,10) chain
    by (simp add: minimum_block_timestamp_delta_secs_def const_defs MAX_SLASH_EVIDENCE_PER_BLOCK_def)
  moreover have "roots_valid X b" using f(11) by (simp add: roots_valid_def Let_def b)
  moreover have "transactions_valid b"
  proof -
    have "distinct (map tx_id (take MAX_TRANSACTIONS_PER_BLOCK (get_ordered_transactions (ns_mempool n))))"
      using pool_ids_distinct [OF assms(4)] by (simp only: take_map [symmetric] distinct_take)
    then show ?thesis using assms(5) pool_entries [OF assms(4)] by (auto simp: transactions_valid_def b f(1) dest: in_set_takeD)
  qed
  moreover have kind: "production_kind (blk_header b) = Some Mined"
    by (simp add: production_kind_Mined_iff b f(9) height)
  moreover have "is_ok (verify_pow_light X (blk_header b) (bh_difficulty (blk_header b)))"
  proof -
    have "nonce < 2 ^ 64" using t(2) assms(3) by linarith
    then show ?thesis using mined_with_verifies [OF assms(2) t(3) _ t(4)] by (simp add: mined_with_def b)
  qed
  ultimately show "accept_block X later b m = Inr Mined" unfolding accept_block_iff using assms(8)
    by (simp add: block_valid_def production_valid_def m last chain [simplified]) (simp add: b f(5,8))
  show "bh_producer (blk_header b) = ns_miner_id n" "bh_refiner_signature (blk_header b) = None" by (simp_all add: b f(8,9))
  show "blk_attestations b = []" if "ns_pending_attestations n = []" using f(17) [OF that] by (simp add: b)
qed

lemma mined_producer_passes:
  assumes "bh_refiner_signature (blk_header b) = None" and "get_account (ns_accounts m) (bh_producer (blk_header b)) = Some a"
    and "acc_public_key a = Some pk" and "length pk = 32"
  shows "check_producer X Mined b m = Some (Inr ())"
  using assms by (simp add: check_producer_def check_refiner_signature_def check_mined_producer_def check_selected_producer_def Let_def)

text \<open>
  C23: when a node applies the block it has mined. The transactions in its pool have at most 1,024 bytes of data
  each, the block found serializes within the size limit, the node's id is not zero and has an account with a public key of 32 bytes,
  there is room for one more block in the ranges of height and supply, and writing Borsh to memory does not fail. Then, in any later state with the
  chain, accounts and refiners of the template and a clock at most five minutes before its timestamp,
  the block is valid, and it is applied exactly when the attestations drawn into it are still accepted; without
  waiting attestations it is always applied.
\<close>

theorem own_mined_block_accepted:
  fixes X :: "'x node_externs_scheme"
  assumes "mine_block_may X now k n (Some b) n'" and "evo_modes_agree X" and "k \<le> 2 ^ 64"
    and "mempool_wf (ns_mempool n)" and "\<And>tx. tx \<in> set (get_ordered_transactions (ns_mempool n)) \<Longrightarrow>
      length (tx_data tx) \<le> MAX_TX_DATA_SIZE_BYTES"
    and "x_borsh_block X b = Some v" and "length v \<le> MAX_BLOCK_SIZE_BYTES"
    and "object_id_hash (ns_miner_id n) \<noteq> hash_zero"
    and producer: "get_account (ns_accounts n) (ns_miner_id n) = Some a" "acc_public_key a = Some pk" "length pk = 32"
    and inv: "node_inv n" and room: "room 1 n" and borsh: "borsh_total X"
    and later: "same_books n m" "max now (sat_add64 (last_timestamp n) 45) \<le> sat_add64 later 300"
  shows "accept_block X later b m = Inr Mined \<and>
    ((\<exists>m'. apply_block X later b m = Some (Inr (compute_block_hash X (blk_header b)), m')) \<longleftrightarrow>
      fst (apply_attestations X b m) = Inr ()) \<and>
    (ns_pending_attestations n = [] \<longrightarrow>
      (\<exists>m'. apply_block X later b m = Some (Inr (compute_block_hash X (blk_header b)), m')))"
proof -
  have m: "ns_chain m = ns_chain n" "ns_refiners m = ns_refiners n" "ns_accounts m = ns_accounts n"
    "ns_pending_evidence m = ns_pending_evidence n" using later(1) by (simp_all add: same_books_def)
  have top: "cs_current_height (ns_chain n) < U64_MAX" using room by (simp add: room_def)
  note valid = mined_block_valid [OF assms(1-8) top later(2) m(1,2)]
  have "cs_base_reward (ns_chain m) \<le> U64_MAX" using room m(1) by (simp add: room_def)
  from block_issue_le [OF this, of X b] node_inv_frame [OF inv m(1,3,2,4)] room top
  have grow: "can_grow X b m" by (simp add: can_grow_def node_inv_def room_def issued_def m(1))
  obtain r m1 where att: "apply_attestations X b m = (r, m1)" by (metis surj_pair)
  have "ns_accounts m1 = ns_accounts n" using apply_attestations_frame(1) [OF att] m(3) by simp
  then have "check_producer X Mined b m1 = Some (Inr ())"
    using producer by (intro mined_producer_passes) (simp_all add: valid(2,3))
  then have applied: "(\<exists>m'. apply_block X later b m = Some (Inr (compute_block_hash X (blk_header b)), m')) \<longleftrightarrow>
      fst (apply_attestations X b m) = Inr ()"
    using checked_block_result [OF grow borsh valid(1), of m1] att valid(1) by (cases r) (auto simp: apply_block_def)
  have "fst (apply_attestations X b m) = Inr ()" if "ns_pending_attestations n = []"
    using valid(4) [OF _ that] by (simp add: apply_attestations_def Let_def)
  then show ?thesis using valid(1) applied by blast
qed

section \<open>Both on a node\<close>

lemma mining_finds:
  assumes "block_template X now n = (Some t, n')" and "0 < bh_difficulty (blk_header t)" and "0 < k"
    and "\<And>d h i nonce. bh_difficulty (blk_header t) \<le> leading_zeros (x_evo_hash X d h i nonce)"
  shows "mine_block_may X now k n (Some (t\<lparr>blk_header := (blk_header t)\<lparr>bh_pow_proof := Some (le_bytes 8 0)\<rparr>\<rparr>)) n'"
proof -
  have "evo_mine_parallel_may X (serialize_header_for_pow (blk_header t)) (bh_height (blk_header t))
      (bh_difficulty (blk_header t)) k EPOCH (epoch_seed_material (blk_header t)) (Some 0)"
    using assms(2-4) by (simp add: evo_mine_parallel_may_def Let_def)
  then have "mine_parallel_may X (blk_header t) (bh_difficulty (blk_header t)) k (Some (mined_with (blk_header t) 0))"
    unfolding mine_parallel_may_def by force
  then show ?thesis
    unfolding mine_block_may_def assms(1) by (force simp: mined_with_def)
qed

definition demo_pool_tx :: "byte list \<Rightarrow> transaction" where
  "demo_pool_tx d = demo_tx\<lparr>tx_id := ObjectId (Hash 7), tx_sender := ObjectId (Hash 7), tx_chain_id := 1,
     tx_signature_type := 0, tx_public_key := replicate 32 0, tx_signature := replicate 64 0, tx_fee := 1, tx_nonce := 0,
     tx_data := d\<rparr>"

lemma demo_pool_admissible: "admissible demo_x (demo_pool_tx d) 0 1 1 mempool_new"
proof -
  have "verify_transaction_for_mempool demo_x (demo_pool_tx d) 1 = Inr ()"
    by (simp add: verify_transaction_for_mempool_def compute_mempool_tx_id_def demo_x_def demo_pool_tx_def
        hash_to_object_id_with_domain_def hash_with_domain_def hasher_finalize_def SIGNATURE_TYPE_ED25519_def
        ed25519_public_key_to_object_id_def transaction_signing_payload_def verify_ed25519_iff)
  moreover have "effective_min_fee 1 mempool_new = 1"
    by (simp add: effective_min_fee_def mempool_new_def MIN_FEE_def sat_mul64_def U64_MAX_def div_ceil_def)
  moreover have "mempool_tx_size demo_x (demo_pool_tx d) = 3" by (simp add: mempool_tx_size_def demo_x_def)
  ultimately show ?thesis
    by (simp add: admissible_def sender_count_def mempool_new_def find_replacement_def demo_pool_tx_def MIN_FEE_def
        TX_MAX_SIZE_BYTES_def MEMPOOL_MAX_TXS_PER_ACCOUNT_def)
qed

lemma demo_pooled_mines:
  assumes "add_transaction demo_x tx prio submitted nonce sf chain mempool_new = (r, p)"
  defines "n \<equiv> demo_node\<lparr>ns_mempool := p\<rparr>"
  obtains t n' where "block_template demo_x 90 n = (Some t, n')"
    "mine_block_may demo_x 90 1 n (Some (t\<lparr>blk_header := (blk_header t)\<lparr>bh_pow_proof := Some (le_bytes 8 0)\<rparr>\<rparr>)) n'"
proof -
  have roots: "compute_evidence_root demo_x es = Inr (Hash 7)" "compute_attestation_root demo_x as = Inr (Hash 7)"
    "compute_genesis_ceremony_hash demo_x g = Inr (Hash 7)" for es as g
    by (simp_all add: compute_evidence_root_def compute_attestation_root_def compute_genesis_ceremony_hash_def
        hash_with_domain_def hasher_finalize_def demo_x_def)
  obtain t n' where t: "block_template demo_x 90 n = (Some t, n')"
    by (cases "block_template demo_x 90 n") (auto simp: block_template_def Let_def roots)
  have "next_difficulty n = next_difficulty demo_node" by (simp add: next_difficulty_def n_def)
  then have d: "bh_difficulty (blk_header t) = 7" by (simp add: template_fields(6) [OF t] demo_next_difficulty)
  have "7 \<le> leading_zeros (x_evo_hash demo_x ds h i k)" for ds h i k by (simp add: demo_x_def leading_zeros_iff)
  with d have "mine_block_may demo_x 90 1 n (Some (t\<lparr>blk_header := (blk_header t)\<lparr>bh_pow_proof := Some (le_bytes 8 0)\<rparr>\<rparr>)) n'"
    by (intro mining_finds [OF t]) simp_all
  with t show thesis by (rule that)
qed

lemma demo_pool:
  obtains p where "add_transaction demo_x (demo_pool_tx d) 1 0 0 1 1 mempool_new = (Inr (), p)" "mempool_wf p"
    "transaction_count p = 1" "set (get_ordered_transactions p) = {demo_pool_tx d}"
proof -
  define p where "p = inserted (demo_pool_tx d) 1 0 3 mempool_new"
  have "after_replacement (demo_pool_tx d) mempool_new = mempool_new" "mempool_tx_size demo_x (demo_pool_tx d) = 3"
    by (simp_all add: after_replacement_def find_replacement_def mempool_new_def mempool_tx_size_def demo_x_def)
  moreover have "room_made 3 mempool_new = mempool_new"
    by (simp add: room_made_def mempool_new_def MEMPOOL_MAX_SIZE_BYTES_def)
  ultimately have add: "add_transaction demo_x (demo_pool_tx d) 1 0 0 1 1 mempool_new = (Inr (), p)"
    using add_transaction_accept [OF mempool_wf_new demo_pool_admissible, of d 1 0] by (simp add: p_def)
  have "mempool_wf p" by (rule add_transaction_wf [OF mempool_wf_new add])
  moreover have "transaction_count p = 1" "set (get_ordered_transactions p) = {demo_pool_tx d}"
    by (simp_all add: pool_listed transaction_count_def p_def inserted_def mempool_new_def hm_put_def)
  ultimately show thesis using add that by blast
qed


theorem own_mined_block_accepted_witness:
  "\<exists>p b n'. set (get_ordered_transactions p) = {demo_pool_tx []} \<and>
     mine_block_may demo_x 90 1 (demo_node\<lparr>ns_mempool := p\<rparr>) (Some b) n' \<and>
     (\<exists>m. apply_block demo_x 95 b n' = Some (Inr (compute_block_hash demo_x (blk_header b)), m))"
proof -
  obtain p where p: "add_transaction demo_x (demo_pool_tx []) 1 0 0 1 1 mempool_new = (Inr (), p)" "mempool_wf p"
    "set (get_ordered_transactions p) = {demo_pool_tx []}" by (rule demo_pool)
  define n where "n = demo_node\<lparr>ns_mempool := p\<rparr>"
  obtain b n' where mine: "mine_block_may demo_x 90 1 n (Some b) n'"
    using demo_pooled_mines [OF p(1)] unfolding n_def by blast
  have "node_inv demo_node"
    using process_run_good [OF _ demo_network_starts(2)] demo_submission by (metis demo_process_node)
  then have inv: "node_inv n" by (rule node_inv_frame) (simp_all add: n_def)
  have "ns_pending_attestations n = [] \<longrightarrow> (\<exists>m. apply_block demo_x 95 b n' = Some (Inr (compute_block_hash demo_x (blk_header b)), m))"
  proof (rule own_mined_block_accepted [OF mine, THEN conjunct2, THEN conjunct2])
    show "evo_modes_agree demo_x" by (simp add: evo_modes_agree_def demo_x_def)
    show "mempool_wf (ns_mempool n)" by (simp add: n_def p(2))
    show "length (tx_data tx) \<le> MAX_TX_DATA_SIZE_BYTES" if "tx \<in> set (get_ordered_transactions (ns_mempool n))" for tx
      using that by (simp add: n_def p(3) demo_pool_tx_def)
    show "x_borsh_block demo_x b = Some [0]" by (simp add: demo_x_def)
    show "object_id_hash (ns_miner_id n) \<noteq> hash_zero" "max 90 (sat_add64 (last_timestamp n) 45) \<le> sat_add64 95 300"
      by (simp_all add: n_def demo_node_def demo_chain_def hash_zero_def last_timestamp_def sat_add64_def U64_MAX_def)
    show "length (replicate 32 (0 :: byte)) = 32" by simp
    show "get_account (ns_accounts n) (ns_miner_id n) = Some ((account_new (ObjectId (Hash 7)))\<lparr>acc_public_key := Some (replicate 32 0)\<rparr>)"
      by (simp add: n_def demo_node_def get_account_def hm_get_def)
    show "room 1 n" by (simp add: room_def issued_def n_def demo_node_def demo_chain_def U64_MAX_def)
    show "borsh_total demo_x" by (rule demo_borsh)
    show "same_books n n'" by (rule mine_books [OF mine])
  qed (simp_all add: MAX_BLOCK_SIZE_BYTES_def inv)
  moreover have "ns_pending_attestations n = []" by (simp add: n_def demo_node_def)
  ultimately show ?thesis using p(3) mine unfolding n_def by blast
qed

end
