(* ===== verification/Rpc_Props.thy ===== *)
theory Rpc_Props
  imports Rpc_Server Production
begin

text \<open>
  What the RPC server guarantees: the key of the protected methods, the rate limits, the figures it
  reports, and how its transactions and mining jobs relate to those of the node.
\<close>

section \<open>Authentication\<close>

lemma constant_time_key_eq_iff: "constant_time_key_eq a b \<longleftrightarrow> a = b \<and> length b \<le> 256"
  by (auto simp: constant_time_key_eq_def Let_def zip_into_def)

definition presents_key :: "header_map \<Rightarrow> string \<Rightarrow> bool" where
  "presents_key headers key \<longleftrightarrow> length key \<le> 256 \<and>
     (header_text headers ''authorization'' = Some (''Bearer '' @ key) \<or> header_text headers ''x-api-key'' = Some key)"

lemma check_api_key_iff: "check_api_key headers key \<longleftrightarrow> presents_key headers key"
proof -
  have "take 7 v = ''Bearer '' \<and> drop 7 v = key \<longleftrightarrow> v = ''Bearer '' @ key" for v :: string
  proof
    assume v: "take 7 v = ''Bearer '' \<and> drop 7 v = key"
    show "v = ''Bearer '' @ key" unfolding v [THEN conjunct1, symmetric] v [THEN conjunct2, symmetric]
      by (rule append_take_drop_id [symmetric])
  qed simp
  then show ?thesis
    unfolding check_api_key_def presents_key_def constant_time_key_eq_iff by (auto split: option.splits)
qed

section \<open>The pipeline\<close>

text \<open>Every outcome of the pipeline, with the condition it arises under.\<close>

lemma handle_jsonrpc_cases [consumes 1, case_names bad_version no_limiter limited refused served]:
  assumes "handle_jsonrpc X env headers req st = (oc, st')"
  obtains
    (bad_version) "jq_jsonrpc req \<noteq> ''2.0''" "oc_status oc = 400" "oc_submitted oc = None"
      "jp_result (oc_response oc) = None" "st' = st"
  | (no_limiter) "jq_jsonrpc req = ''2.0''" "rv_limiter st = None" "oc_status oc = 500" "oc_submitted oc = None"
      "jp_result (oc_response oc) = None" "st' = st"
  | (limited) l l1 where "jq_jsonrpc req = ''2.0''" "rv_limiter st = Some l"
      "check_limit (rp_instant env) (rp_ip env @ '':'' @ fst (classify_method (jq_method req)))
         (fst (snd (classify_method (jq_method req)))) l = (False, l1)"
      "oc_status oc = 429" "oc_submitted oc = None" "jp_result (oc_response oc) = None" "st' = st\<lparr>rv_limiter := Some l1\<rparr>"
  | (refused) l l1 key where "jq_jsonrpc req = ''2.0''" "rv_limiter st = Some l"
      "check_limit (rp_instant env) (rp_ip env @ '':'' @ fst (classify_method (jq_method req)))
         (fst (snd (classify_method (jq_method req)))) l = (True, l1)"
      "rv_api_key st = Some key" "snd (snd (classify_method (jq_method req)))" "\<not> presents_key headers key"
      "oc_status oc = 401" "oc_submitted oc = None" "jp_result (oc_response oc) = None" "st' = st\<lparr>rv_limiter := Some l1\<rparr>"
  | (served) l l1 where "jq_jsonrpc req = ''2.0''" "rv_limiter st = Some l"
      "check_limit (rp_instant env) (rp_ip env @ '':'' @ fst (classify_method (jq_method req)))
         (fst (snd (classify_method (jq_method req)))) l = (True, l1)"
      "\<And>key. snd (snd (classify_method (jq_method req))) \<Longrightarrow> rv_api_key st = Some key \<Longrightarrow> presents_key headers key"
      "oc = respond req (route_method X env (st\<lparr>rv_limiter := Some l1\<rparr>) (jq_method req) (jq_params req))"
      "st' = ro_state (route_method X env (st\<lparr>rv_limiter := Some l1\<rparr>) (jq_method req) (jq_params req))"
proof -
  obtain tier most auth where c: "classify_method (jq_method req) = (tier, most, auth)" by (metis prod_cases3)
  show thesis
  proof (cases "jq_jsonrpc req = ''2.0''")
    case False
    then show ?thesis using assms by (intro bad_version) (auto simp: handle_jsonrpc_def refuse_def)
  next
    case version: True
    show ?thesis
    proof (cases "rv_limiter st")
      case None
      then show ?thesis using assms version
        by (intro no_limiter) (auto simp: handle_jsonrpc_def refuse_def c)
    next
      case (Some l)
      obtain ok l1 where lim: "check_limit (rp_instant env) (rp_ip env @ '':'' @ tier) most l = (ok, l1)"
        by (metis surj_pair)
      note unfolded = assms [unfolded handle_jsonrpc_def c Some prod.case option.case lim Let_def]
      show ?thesis
      proof (cases ok)
        case False
        then show ?thesis using unfolded version lim
          by (intro limited [OF version Some]) (auto simp: c refuse_def)
      next
        case ok: True
        show ?thesis
        proof (cases "auth \<and> (case rv_api_key st of None \<Rightarrow> False | Some k \<Rightarrow> \<not> check_api_key headers k)")
          case True
          then obtain k where "rv_api_key st = Some k" "\<not> check_api_key headers k" by (auto split: option.splits)
          then show ?thesis using unfolded version lim ok True
            by (intro refused [OF version Some]) (auto simp: c refuse_def check_api_key_iff)
        next
          case False
          then show ?thesis using unfolded version lim ok
            by (intro served [OF version Some]) (auto simp: c check_api_key_iff split: option.splits)
        qed
      qed
    qed
  qed
qed

lemma route_method_effects:
  fixes X :: "'x net_externs_scheme" and m params st env
  defines "ro \<equiv> route_method X env st m params"
  shows "m \<noteq> ''opl_sendTransaction'' \<Longrightarrow> ro_state ro = st"
    and "m \<noteq> ''opl_submitSolution'' \<Longrightarrow> ro_submitted ro = None"
    and "rv_limiter (ro_state ro) = rv_limiter st" and "rv_api_key (ro_state ro) = rv_api_key st"
proof -
  have send: "rv_limiter (snd (handle_send_transaction X now st params)) = rv_limiter st \<and>
      rv_api_key (snd (handle_send_transaction X now st params)) = rv_api_key st" for now
    by (auto simp: handle_send_transaction_def Let_def split: sum.split prod.split)
  show "m \<noteq> ''opl_sendTransaction'' \<Longrightarrow> ro_state ro = st"
    unfolding ro_def route_method_def by (cases "handle_submit_solution X env params") simp
  show "m \<noteq> ''opl_submitSolution'' \<Longrightarrow> ro_submitted ro = None"
    unfolding ro_def route_method_def by (cases "handle_send_transaction X (rp_now_secs env) st params") simp
  show "rv_limiter (ro_state ro) = rv_limiter st" "rv_api_key (ro_state ro) = rv_api_key st"
    using send [of "rp_now_secs env"] unfolding ro_def route_method_def
    by (cases "handle_submit_solution X env params";
        cases "handle_send_transaction X (rp_now_secs env) st params"; simp)+
qed

lemma classify_protected:
  "snd (snd (classify_method m)) \<longleftrightarrow> m \<in> {''opl_sendTransaction'', ''opl_getMiningJob'', ''opl_submitSolution''}"
  by (auto simp: classify_method_def)

text \<open>No handler that only reads returns a mining job.\<close>

definition no_job :: "handler_result \<Rightarrow> bool" where
  "no_job r \<longleftrightarrow> (\<forall>j. r \<noteq> Inr (VJob j))"

lemma no_job_Inl [simp]: "no_job (Inl e)"
  by (simp add: no_job_def)

lemma no_job_Inr [simp]: "no_job (Inr v) \<longleftrightarrow> (\<forall>j. v \<noteq> VJob j)"
  by (simp add: no_job_def)

lemma no_job_and_then [simp]: "no_job (and_then r f) \<longleftrightarrow> (\<forall>a. r = Inr a \<longrightarrow> no_job (f a))"
  by (cases r) simp_all

lemma no_job_simple [simp]:
  "no_job (handle_get_block_height st)" "no_job (handle_get_chain_info st)" "no_job handle_get_network_version"
  "no_job (handle_get_mempool_status st)" "no_job (handle_get_supply st)" "no_job (handle_get_mint_ledger st)"
  "no_job (handle_get_difficulty st)" "no_job (handle_get_refiners X st)" "no_job (handle_get_finalized_height st)"
  by (simp_all add: handle_get_block_height_def handle_get_chain_info_def handle_get_network_version_def
      handle_get_mempool_status_def handle_get_supply_def handle_get_mint_ledger_def handle_get_difficulty_def
      handle_get_refiners_def handle_get_finalized_height_def Let_def)

lemma no_job_params [simp]:
  "no_job (handle_get_balance X st params)" "no_job (handle_get_account X st params)"
  "no_job (handle_get_block_by_height Y st params)" "no_job (handle_get_block_by_hash Y st params)"
  "no_job (handle_get_latest_blocks Y st params)" "no_job (handle_get_transaction Y st params)"
  "no_job (handle_get_refiner_hallmark Y st params)" "no_job (handle_get_block_confidence Y st params)"
  "no_job (handle_get_block_assay_certificate Y st params)"
  unfolding handle_get_balance_def handle_get_account_def handle_get_block_by_height_def handle_get_block_by_hash_def
    handle_get_latest_blocks_def handle_get_transaction_def handle_get_refiner_hallmark_def
    handle_get_block_confidence_def handle_get_block_assay_certificate_def Let_def
  by (auto split: option.split sum.split prod.split)

lemma read_method_job: "read_method X st m params \<noteq> Some (Inr (VJob j))"
proof -
  have "read_method X st m params = Some r \<Longrightarrow> no_job r" for r
    unfolding read_method_def by (auto split: if_splits)
  then show ?thesis by (auto simp: no_job_def)
qed

text \<open>
  C30: the protected methods need the key. When the node has an API key, a request that changes anything
  but the counters of the rate limiter, submits a block, or gets a mining job, presents exactly that key in
  one of the two headers; and no key longer than 256 bytes opens them.
\<close>

theorem protected_methods_need_key:
  fixes X :: "'x net_externs_scheme"
  assumes "handle_jsonrpc X env headers req st = (oc, st')" and "rv_api_key st = Some key"
    and "rv_net st' \<noteq> rv_net st \<or> oc_submitted oc \<noteq> None \<or> (\<exists>j. jp_result (oc_response oc) = Some (VJob j))"
  shows "length key \<le> 256 \<and>
     (header_text headers ''authorization'' = Some (''Bearer '' @ key) \<or> header_text headers ''x-api-key'' = Some key)"
  using assms(1)
proof (cases rule: handle_jsonrpc_cases)
  case (served l l1)
  let ?m = "jq_method req" and ?st = "st\<lparr>rv_limiter := Some l1\<rparr>"
  have "snd (snd (classify_method ?m))"
  proof (rule ccontr)
    assume "\<not> snd (snd (classify_method ?m))"
    then have m: "?m \<noteq> ''opl_sendTransaction''" "?m \<noteq> ''opl_getMiningJob''" "?m \<noteq> ''opl_submitSolution''"
      by (auto simp: classify_protected)
    have "ro_result (route_method X env ?st ?m (jq_params req)) = read_method X ?st ?m (jq_params req)"
      using m by (simp add: route_method_def)
    then have "jp_result (oc_response oc) \<noteq> Some (VJob j)" for j
      using read_method_job [of X ?st ?m "jq_params req" j] unfolding served(5) respond_def by (auto split: option.splits sum.splits)
    moreover have "rv_net st' = rv_net st" "oc_submitted oc = None"
      using route_method_effects(1) [OF m(1), of X env ?st "jq_params req"]
        route_method_effects(2) [OF m(3), of X env ?st "jq_params req"] unfolding served(5,6) respond_def by simp_all
    ultimately show False using assms(3) by blast
  qed
  with served(4) assms(2) show ?thesis unfolding presents_key_def by blast
qed (use assms in simp_all)

section \<open>Rate limits\<close>

text \<open>
  Requests in order, each with the state of the node at that time; the answers are the status codes.
\<close>

fun rpc_run ::
  "'x net_externs_scheme \<Rightarrow> (net_state \<times> rpc_env \<times> header_map \<times> json_rpc_request) list \<Rightarrow> rpc_state \<Rightarrow> nat list" where
  "rpc_run X [] st = []"
| "rpc_run X ((s, env, headers, req) # rs) st =
     (case handle_jsonrpc X env headers req (st\<lparr>rv_net := s\<rparr>) of (oc, st1) \<Rightarrow> oc_status oc # rpc_run X rs st1)"

definition limiter_call :: "net_state \<times> rpc_env \<times> header_map \<times> json_rpc_request \<Rightarrow> nat \<times> string \<times> nat" where
  "limiter_call = (\<lambda>(s, env, headers, req). (rp_instant env,
     rp_ip env @ '':'' @ fst (classify_method (jq_method req)), fst (snd (classify_method (jq_method req)))))"

definition request_valid :: "net_state \<times> rpc_env \<times> header_map \<times> json_rpc_request \<Rightarrow> bool" where
  "request_valid = (\<lambda>(s, env, headers, req). jq_jsonrpc req = ''2.0'')"

text \<open>The instants at which requests of one client and one tier got past the limiter.\<close>

definition passed :: "string \<Rightarrow> string \<Rightarrow> (net_state \<times> rpc_env \<times> header_map \<times> json_rpc_request) list \<Rightarrow> nat list \<Rightarrow> nat list" where
  "passed ip tier rs status = map (\<lambda>((s, env, headers, req), c). rp_instant env)
     (filter (\<lambda>((s, env, headers, req), c). c \<notin> {400, 429} \<and> rp_ip env = ip \<and> fst (classify_method (jq_method req)) = tier)
       (zip rs status))"

lemma tier_cases: "fst (classify_method m) \<in> {''read'', ''write'', ''mining''}"
  by (simp add: classify_method_def)

lemma tier_limit: "fst (classify_method m) = fst (classify_method n) \<Longrightarrow> fst (snd (classify_method m)) = fst (snd (classify_method n))"
  by (auto simp: classify_method_def split: if_splits)

lemma rate_key_inject:
  assumes "ip @ '':'' @ fst (classify_method m) = ip' @ '':'' @ fst (classify_method n)"
  shows "ip = ip'" "fst (classify_method m) = fst (classify_method n)"
proof -
  have "last (fst (classify_method m)) = last (fst (classify_method n))"
    using arg_cong [OF assms, of last] tier_cases [of m] tier_cases [of n] by (auto split: if_splits)
  then show "fst (classify_method m) = fst (classify_method n)" using tier_cases [of m] tier_cases [of n] by auto
  with assms show "ip = ip'" by simp
qed

lemma rpc_run_limiter:
  fixes X :: "'x net_externs_scheme"
  assumes "tier = fst (classify_method m0)"
  shows "rv_limiter st = Some l \<Longrightarrow> \<exists>l' oks. limiter_run (map limiter_call (filter request_valid rs)) l = (oks, l') \<and>
     passed ip tier rs (rpc_run X rs st) =
       map fst (map fst (filter (\<lambda>x. snd x \<and> fst (snd (fst x)) = ip @ '':'' @ tier)
         (zip (map limiter_call (filter request_valid rs)) oks)))"
proof (induction rs arbitrary: st l)
  case Nil
  then show ?case by (simp add: passed_def)
next
  case (Cons r rs)
  obtain s env headers req where r: "r = (s, env, headers, req)" by (metis prod_cases4)
  obtain oc st1 where run: "handle_jsonrpc X env headers req (st\<lparr>rv_net := s\<rparr>) = (oc, st1)" by (metis surj_pair)
  have key: "rp_ip env @ '':'' @ fst (classify_method (jq_method req)) = ip @ '':'' @ tier \<longleftrightarrow>
      rp_ip env = ip \<and> fst (classify_method (jq_method req)) = tier"
    using rate_key_inject [of "rp_ip env" "jq_method req" ip m0] assms by blast
  from run show ?case
  proof (cases rule: handle_jsonrpc_cases)
    case bad_version
    then have "rv_limiter st1 = Some l" using Cons.prems by simp
    from Cons.IH [OF this] bad_version(1,2) run show ?thesis by (simp add: r request_valid_def passed_def)
  next
    case no_limiter
    then show ?thesis using Cons.prems by simp
  next
    case (limited l0 l1)
    then have "rv_limiter st1 = Some l1" by simp
    from Cons.IH [OF this] limited(1,2,3,4) run Cons.prems show ?thesis
      by (auto simp: r request_valid_def passed_def limiter_call_def)
  next
    case (refused l0 l1 k)
    then have "rv_limiter st1 = Some l1" by simp
    from Cons.IH [OF this] refused(1,2,3,7) run Cons.prems show ?thesis
      by (auto simp: r request_valid_def passed_def limiter_call_def key [simplified])
  next
    case (served l0 l1)
    have "rv_limiter st1 = Some l1" by (simp add: served(6) route_method_effects(3))
    moreover have "oc_status oc = 200" by (simp add: served(5) respond_def)
    moreover note Cons.IH [OF calculation(1)]
    ultimately show ?thesis using served(1,2,3) run Cons.prems
      by (auto simp: r request_valid_def passed_def limiter_call_def key [simplified])
  qed
qed

text \<open>
  C31: the rate limits hold over every minute. However requests and the node's own work are interleaved,
  no window of 60 seconds holds more requests of one client that get past the limiter than the limit of
  their tier: 120 to read, 10 to send transactions, 30 to mine.
\<close>

theorem rate_limit_holds:
  fixes X :: "'x net_externs_scheme"
  assumes "sorted (map (\<lambda>(s, env, headers, req). rp_instant env) rs)"
    and "classify_method m = (tier, limit, auth)"
  shows "length (filter (\<lambda>x. t \<le> x \<and> x < t + 60000000000)
     (passed ip tier rs (rpc_run X rs (rpc_state_new s miner_id key)))) \<le> limit"
proof -
  let ?cs = "map limiter_call (filter request_valid rs)"
  have tier: "tier = fst (classify_method m)" and limit: "limit = fst (snd (classify_method m))" by (simp_all add: assms(2))
  obtain l oks where run: "limiter_run ?cs (rate_limiter_new 120) = (oks, l)"
    "passed ip tier rs (rpc_run X rs (rpc_state_new s miner_id key)) = admitted (ip @ '':'' @ tier) ?cs oks"
    using rpc_run_limiter [OF tier, of "rpc_state_new s miner_id key" "rate_limiter_new 120" rs ip X]
    by (auto simp: rpc_state_new_def admitted_def)
  have instants: "map fst ?cs = map (\<lambda>(s, env, headers, req). rp_instant env) (filter request_valid rs)"
    by (simp add: limiter_call_def case_prod_unfold)
  have "sorted (map fst ?cs)" unfolding instants by (rule sorted_filter [OF assms(1)])
  moreover have "bnd = limit" if call: "(now, ip @ '':'' @ tier, bnd) \<in> set ?cs" for now bnd
  proof -
    obtain env :: rpc_env and req :: json_rpc_request where "ip @ '':'' @ tier = rp_ip env @ '':'' @ fst (classify_method (jq_method req))"
      "bnd = fst (snd (classify_method (jq_method req)))"
      using call by (auto simp: limiter_call_def)
    then show ?thesis using rate_key_inject(2) [of ip m "rp_ip env" "jq_method req"] tier_limit unfolding tier limit by metis
  qed
  ultimately have "length (filter (in_window t) (admitted (ip @ '':'' @ tier) ?cs oks)) \<le> limit"
    using limiter_window [OF _ _ run(1)] by blast
  then show ?thesis by (simp add: run(2) in_window_def [abs_def])
qed

section \<open>Confidence\<close>

text \<open>The weight a refiner contributes to the confidence in a block.\<close>

definition counted_weight :: "refiner_set \<Rightarrow> nat \<Rightarrow> object_id \<Rightarrow> nat" where
  "counted_weight refiners now i =
     (case get_refiner refiners i of
        Some r \<Rightarrow> if ri_status r = Active then refiner_weight r now else 0 | None \<Rightarrow> 0)"

definition attesters :: "nat \<Rightarrow> hash \<Rightarrow> block_attestation list \<Rightarrow> object_id set" where
  "attesters height h as = at_refiner ` {a \<in> set as. at_height a = height \<and> at_block_hash a = h}"

lemma attesters_Cons:
  "attesters height h (a # as) =
     (if at_height a = height \<and> at_block_hash a = h then insert (at_refiner a) (attesters height h as)
      else attesters height h as)"
  by (auto simp: attesters_def)

lemma attesting_loop_law:
  "distinct seen \<Longrightarrow> weight = min U128_MAX (sum (counted_weight refiners now) (set seen)) \<Longrightarrow>
     attesting_loop height h refiners now as seen weight = (seen', weight') \<Longrightarrow>
     distinct seen' \<and> set seen' = set seen \<union> attesters height h as \<and>
     weight' = min U128_MAX (sum (counted_weight refiners now) (set seen'))"
proof (induction as arbitrary: seen weight)
  case Nil
  then show ?case by (auto simp: attesters_def)
next
  case (Cons a as)
  show ?case
  proof (cases "at_height a = height \<and> at_block_hash a = h \<and> at_refiner a \<notin> set seen")
    case True
    let ?w = "sat_add128 weight (counted_weight refiners now (at_refiner a))"
    have "weight \<le> U128_MAX" using Cons.prems(2) by simp
    then have loop: "attesting_loop height h refiners now as (at_refiner a # seen) ?w = (seen', weight')"
      using Cons.prems(3) True
      by (auto simp: counted_weight_def sat_add128_def split: option.splits if_splits)
    have "?w = min U128_MAX (sum (counted_weight refiners now) (set (at_refiner a # seen)))"
      using Cons.prems(2) True by (auto simp: sat_add128_def)
    from Cons.IH [OF _ this loop] Cons.prems(1) True show ?thesis by (auto simp: attesters_Cons)
  next
    case False
    then have "attesting_loop height h refiners now as seen weight = (seen', weight')"
      using Cons.prems(3) by (auto split: if_splits)
    from Cons.IH [OF Cons.prems(1,2) this] False show ?thesis by (auto simp: attesters_Cons)
  qed
qed

lemma sum_lookup_le:
  assumes "hm_wf m" and "finite S"
  shows "(\<Sum>i\<in>S. case hm_get m i of None \<Rightarrow> 0 | Some v \<Rightarrow> f v) \<le> (\<Sum>(k, v) \<leftarrow> m. f v :: nat)"
  using assms
proof (induction m arbitrary: S)
  case (Cons x m)
  obtain k v where x: "x = (k, v)" by (cases x)
  let ?g = "\<lambda>m i. case hm_get m i of None \<Rightarrow> 0 | Some v \<Rightarrow> f v"
  have "sum (?g (x # m)) S \<le> sum (?g (x # m)) (insert k (S - {k}))" using Cons.prems(2) by (intro sum_mono2) auto
  also have "\<dots> = f v + sum (?g (x # m)) (S - {k})"
    using Cons.prems(2) by (subst sum.insert) (auto simp: x hm_get_def)
  also have "sum (?g (x # m)) (S - {k}) = sum (?g m) (S - {k})" by (rule sum.cong) (auto simp: x hm_get_def)
  also have "f v + \<dots> \<le> f v + (\<Sum>(k, v) \<leftarrow> m. f v)"
    using Cons.IH [of "S - {k}"] Cons.prems by (simp add: hm_wf_def)
  finally show ?case by (simp add: x)
qed simp

lemma active_total:
  "sum_list (map (\<lambda>r. refiner_weight r now) (filter (\<lambda>r. ri_status r = Active) (all_refiners s))) =
     (\<Sum>(k, r) \<leftarrow> rs_refiners s. if ri_status r = Active then refiner_weight r now else 0)"
proof -
  let ?w = "\<lambda>r. if ri_status r = Active then refiner_weight r now else 0"
  have "sum_list (map (\<lambda>r. refiner_weight r now) (filter (\<lambda>r. ri_status r = Active) xs)) = sum_list (map ?w xs)" for xs
    by (induction xs) simp_all
  moreover have "sum_list (map ?w (all_refiners s)) = sum_list (map ?w (map snd (rs_refiners s)))"
  proof -
    have "mset (map ?w (all_refiners s)) = mset (map ?w (map snd (rs_refiners s)))"
      by (simp only: all_refiners_def mset_map mset_sort)
    from arg_cong [OF this, of sum_mset] show ?thesis by (simp only: sum_mset_sum_list)
  qed
  ultimately show ?thesis by (simp add: case_prod_unfold comp_def)
qed

lemma active_total_small:
  assumes "length (rs_refiners s) < 2 ^ 32"
  shows "total_active_refiner_weight s now =
     (\<Sum>(k, r) \<leftarrow> rs_refiners s. if ri_status r = Active then refiner_weight r now else 0)"
    and "total_active_refiner_weight s now * 1000 \<le> U128_MAX"
proof -
  let ?w = "\<lambda>r. if ri_status r = Active then refiner_weight r now else 0"
  have "(\<Sum>(k, r) \<leftarrow> xs. ?w r) \<le> length xs * U64_MAX" for xs :: "(object_id \<times> refiner_info) list"
  proof (induction xs)
    case (Cons x xs)
    have "?w (snd x) \<le> U64_MAX" by (simp add: refiner_weight_def wrap64_def)
    with Cons show ?case by (simp add: case_prod_unfold)
  qed simp
  then have le: "(\<Sum>(k, r) \<leftarrow> rs_refiners s. ?w r) \<le> 2 ^ 32 * U64_MAX"
    using assms by (meson le_trans less_imp_le mult_le_mono1)
  moreover have "2 ^ 32 * U64_MAX * 1000 < U128_MAX" by (simp add: U64_MAX_def U128_MAX_def)
  ultimately show eq: "total_active_refiner_weight s now = (\<Sum>(k, r) \<leftarrow> rs_refiners s. ?w r)"
    unfolding total_active_refiner_weight_def active_total wrap128_def by (intro mod_less) linarith
  show "total_active_refiner_weight s now * 1000 \<le> U128_MAX"
    using le \<open>2 ^ 32 * U64_MAX * 1000 < U128_MAX\<close> unfolding eq by linarith
qed

text \<open>
  The confidence that the server reports for a refined block counts every refiner once. The number
  is that of the distinct refiners with an included attestation for the block, the weight is the sum of
  the weights of those that are active, at most the total active weight, and the confidence is the exact
  share in thousandths, at most 1,000.
\<close>

theorem confidence_is_weight_share:
  assumes "refiners_wf refiners" and "length (rs_refiners refiners) < 2 ^ 32"
    and "attestation_confidence_weight height h as refiners now = (n, weight)"
  shows "n = card (attesters height h as) \<and>
     weight = (\<Sum>i\<in>attesters height h as. counted_weight refiners now i) \<and>
     weight \<le> total_active_refiner_weight refiners now \<and>
     confidence_milli weight (total_active_refiner_weight refiners now) =
       weight * 1000 div total_active_refiner_weight refiners now \<and>
     confidence_milli weight (total_active_refiner_weight refiners now) \<le> 1000"
proof -
  let ?A = "attesters height h as" and ?total = "total_active_refiner_weight refiners now"
  obtain seen where loop: "attesting_loop height h refiners now as [] 0 = (seen, weight)" "n = length seen"
    using assms(3) by (auto simp: attestation_confidence_weight_def split: prod.splits)
  have seen: "distinct seen" "set seen = ?A" "weight = min U128_MAX (sum (counted_weight refiners now) ?A)"
    using attesting_loop_law [OF _ _ loop(1)] by auto
  have fin: "finite ?A" by (simp add: attesters_def)
  have counted: "counted_weight refiners now = (\<lambda>i. case hm_get (rs_refiners refiners) i of None \<Rightarrow> 0
      | Some r \<Rightarrow> if ri_status r = Active then refiner_weight r now else 0)"
    by (rule ext) (simp add: counted_weight_def get_refiner_def split: option.split)
  have "hm_wf (rs_refiners refiners)" using assms(1) by (simp add: refiners_wf_def registry_ok_def)
  from sum_lookup_le [OF this fin] have le: "sum (counted_weight refiners now) ?A \<le> ?total"
    unfolding counted active_total_small(1) [OF assms(2)] .
  have small: "?total * 1000 \<le> U128_MAX" by (rule active_total_small(2) [OF assms(2)])
  have weight: "weight = sum (counted_weight refiners now) ?A" using seen(3) le small by simp
  have "weight \<le> ?total" using le weight by simp
  moreover from this have "weight * 1000 div ?total \<le> 1000" by (metis div_le_mono div_mult_self_is_m div_by_0
      le_zero_eq mult.commute mult_le_mono1 neq0_conv zero_le)
  moreover have "confidence_milli weight ?total = weight * 1000 div ?total"
    using calculation small by (auto simp: confidence_milli_def sat_mul128_def)
  moreover have "n = card ?A" using loop(2) distinct_card [OF seen(1)] seen(2) by simp
  ultimately show ?thesis using weight by simp
qed

section \<open>Witnesses\<close>

definition demo_request :: "string \<Rightarrow> json_rpc_request" where
  "demo_request m = \<lparr> jq_jsonrpc = ''2.0'', jq_method = m, jq_params = JArray [], jq_id = IdNumber 1 \<rparr>"

definition demo_rpc_env :: rpc_env where
  "demo_rpc_env = \<lparr> rp_now_secs = 90, rp_instant = 0, rp_ip = ''1'', rp_reply = (\<lambda>_. NoAnswer) \<rparr>"

definition demo_server :: rpc_state where
  "demo_server = rpc_state_new demo_loop (ObjectId (Hash 7)) (Some ''k'')"

lemma demo_job: "\<exists>j. handle_get_mining_job demo_network 90 (st\<lparr>rv_miner_id := ObjectId (Hash 7)\<rparr>) = Inr (VJob j)"
  by (simp add: handle_get_mining_job_def hash_zero_def job_header_def Let_def compute_evidence_root_def
      compute_attestation_root_def compute_genesis_ceremony_hash_def demo_network_fields)

theorem protected_methods_need_key_witness:
  "\<exists>oc st' j. handle_jsonrpc demo_network demo_rpc_env [(''x-api-key'', ''k'')] (demo_request ''opl_getMiningJob'') demo_server = (oc, st') \<and>
     jp_result (oc_response oc) = Some (VJob j) \<and> length ''k'' \<le> (256 :: nat)"
proof -
  let ?h = "[(''x-api-key'', ''k'')]"
  obtain l1 where lim: "check_limit 0 ''1:mining'' 30 (rate_limiter_new 120) = (True, l1)"
    by (simp add: check_limit_def rate_limiter_new_def retain_fresh_def MAX_RATE_LIMIT_KEYS_def Let_def)
  have key: "check_api_key ?h ''k''" by (simp add: check_api_key_iff presents_key_def header_text_def header_to_str_def)
  define st where "st = demo_server\<lparr>rv_limiter := Some l1\<rparr>"
  have "st = st\<lparr>rv_miner_id := ObjectId (Hash 7)\<rparr>" by (simp add: st_def demo_server_def rpc_state_new_def)
  then obtain j where j: "handle_get_mining_job demo_network 90 st = Inr (VJob j)" using demo_job [of st] by metis
  obtain oc st' where run: "handle_jsonrpc demo_network demo_rpc_env ?h (demo_request ''opl_getMiningJob'') demo_server = (oc, st')"
    by (metis surj_pair)
  have server: "rv_limiter demo_server = Some (rate_limiter_new 120)" "rv_api_key demo_server = Some ''k''"
    by (simp_all add: demo_server_def rpc_state_new_def)
  have oc: "jp_result (oc_response oc) = Some (VJob j)"
    using run lim key j
    by (simp add: handle_jsonrpc_def demo_request_def classify_method_def server demo_rpc_env_def Let_def
        st_def [symmetric] route_method_def respond_def) auto
  from protected_methods_need_key [OF run server(2)] oc run show ?thesis by blast
qed

theorem rate_limit_holds_witness:
  "length (filter (\<lambda>x. 0 \<le> x \<and> x < 0 + 60000000000) (passed ''1'' ''write''
     [(demo_loop, demo_rpc_env, [], demo_request ''opl_sendTransaction'')]
     (rpc_run demo_network [(demo_loop, demo_rpc_env, [], demo_request ''opl_sendTransaction'')]
       (rpc_state_new demo_loop (ObjectId (Hash 7)) None)))) \<le> 10"
  by (rule rate_limit_holds [where auth = True and m = "''opl_sendTransaction''"]) (simp_all add: classify_method_def)

definition demo_attested :: refiner_set where
  "demo_attested = refiner_set_new
     \<lparr>rs_refiners := [(ObjectId (Hash 3), (refiner_new (ObjectId (Hash 3)) 1000000 0 0)\<lparr>ri_status := Active\<rparr>)],
      rs_active_set := [ObjectId (Hash 3)]\<rparr>"

definition demo_vote :: block_attestation where
  "demo_vote = \<lparr> at_refiner = ObjectId (Hash 3), at_refiner_pubkey = [], at_height = 5, at_block_hash = Hash 7, at_signature = [] \<rparr>"

theorem confidence_is_weight_share_witness:
  "\<exists>weight. attestation_confidence_weight 5 (Hash 7) [demo_vote, demo_vote] demo_attested 0 = (1, weight) \<and>
     attesters 5 (Hash 7) [demo_vote, demo_vote] = {ObjectId (Hash 3)} \<and>
     weight \<le> total_active_refiner_weight demo_attested 0"
proof -
  have "refiners_wf demo_attested"
    by (auto simp: demo_attested_def refiner_set_new_def refiners_wf_def registry_ok_def active_ok_def custody_def
        hm_total_def refiner_ok_def hm_get_def hm_wf_def refiner_new_def stake_sum_def U64_MAX_def)
  moreover have "length (rs_refiners demo_attested) < 2 ^ 32" by (simp add: demo_attested_def)
  moreover obtain n weight where run: "attestation_confidence_weight 5 (Hash 7) [demo_vote, demo_vote] demo_attested 0 = (n, weight)"
    by (metis surj_pair)
  moreover have "attesters 5 (Hash 7) [demo_vote, demo_vote] = {ObjectId (Hash 3)}"
    by (auto simp: attesters_def demo_vote_def)
  ultimately show ?thesis using confidence_is_weight_share [of demo_attested 5 "Hash 7" "[demo_vote, demo_vote]" 0 n weight]
    by simp
qed

end
