(* ===== verification/Pool_Run.thy ===== *)
theory Pool_Run
  imports Process
begin

text \<open>
  What the steps of the process do to the transaction pool: gossip adds a transaction with its fee as
  priority, the RPC server adds in a step of its own, and every other step only takes transactions out.
\<close>

section \<open>Taking out\<close>

definition takes_out :: "mempool \<Rightarrow> mempool \<Rightarrow> bool" where
  "takes_out p q \<longleftrightarrow> (mempool_wf p \<longrightarrow> shrinks p q)"

lemma takes_out_refl [simp]: "takes_out p p"
  by (simp add: takes_out_def shrinks_refl)

lemma takes_out_trans: "takes_out p q \<Longrightarrow> takes_out q r \<Longrightarrow> takes_out p r"
  unfolding takes_out_def by (metis shrinks_def shrinks_trans)

lemma takes_out_removal [simp]: "takes_out p (snd (remove_transaction i p))" "takes_out p (snd (evict_expired now p))"
  by (simp_all add: takes_out_def remove_transaction_shrinks evict_expired_shrinks)

section \<open>Blocks\<close>

definition pool_kept :: "mempool \<Rightarrow> ('e + 'a) \<times> node_state \<Rightarrow> bool" where
  "pool_kept p r \<longleftrightarrow> takes_out p (ns_mempool (snd r))"

lemma pool_kept_then:
  assumes "pool_kept p r" and "\<And>a n. takes_out p (ns_mempool n) \<Longrightarrow> pool_kept p (f a n)"
  shows "pool_kept p (run_then r f)"
  using assms by (cases r; cases "fst r") (auto simp: pool_kept_def)

lemma same_pool:
  "ns_mempool (snd (pay_credits c n)) = ns_mempool n"
  "ns_mempool (snd (credit_producer i k n)) = ns_mempool n"
  "ns_mempool (snd (pay_reward h rd n)) = ns_mempool n"
  "ns_mempool (snd (pay_refiner_income kind h k n)) = ns_mempool n"
  "ns_mempool (snd (burn_on_chain k err n)) = ns_mempool n"
  "ns_mempool (snd (mature_unbonds n)) = ns_mempool n"
  "ns_mempool (snd (update_state_root X n)) = ns_mempool n"
  "ns_mempool (rotate_refiners n) = ns_mempool n"
  "ns_mempool (snd (apply_slashing X b n)) = ns_mempool n"
  "ns_mempool (finish_block X b kind g o1 ev n) = ns_mempool n"
proof -
  show pay: "ns_mempool (snd (pay_credits c n)) = ns_mempool n" for c n
    by (simp add: pay_credits_def split: sum.split prod.split)
  show credit: "ns_mempool (snd (credit_producer i k n)) = ns_mempool n" for i k
    by (simp add: credit_producer_def pay split: sum.split prod.split)
  show "ns_mempool (snd (pay_reward h rd n)) = ns_mempool n" "ns_mempool (snd (pay_refiner_income kind h k n)) = ns_mempool n"
    by (simp_all add: pay_reward_def pay_refiner_income_def pay credit)
  show "ns_mempool (snd (burn_on_chain k err n)) = ns_mempool n"
    by (simp add: burn_on_chain_def split: option.split)
  show "ns_mempool (snd (mature_unbonds n)) = ns_mempool n"
    by (simp add: mature_unbonds_def Let_def split: sum.split prod.split)
  show "ns_mempool (snd (update_state_root X n)) = ns_mempool n"
    by (simp add: update_state_root_def Let_def split: sum.split)
  show "ns_mempool (rotate_refiners n) = ns_mempool n" "ns_mempool (snd (apply_slashing X b n)) = ns_mempool n"
    by (simp_all add: rotate_refiners_def apply_slashing_def Let_def)
  show "ns_mempool (finish_block X b kind g o1 ev n) = ns_mempool n"
    by (simp add: finish_block_def queue_slash_evidence_def remove_accepted_slash_evidence_def persist_state_def Let_def
        split: option.split)
qed

lemma advance_chain_pool: "ns_mempool (snd (advance_chain h g rd t n)) = ns_mempool n"
proof -
  have "ns_mempool (snd (run_then (burn_on_chain k err m) (\<lambda>_ n2. (Inr (), on_chain f n2)))) = ns_mempool m"
    for k err m and f :: "chain_state \<Rightarrow> chain_state"
    by (simp add: burn_on_chain_def split: option.split)
  then show ?thesis by (simp add: advance_chain_def Let_def)
qed

lemma execute_transactions_pool:
  "takes_out p (ns_mempool n) \<Longrightarrow> pool_kept p (execute_transactions X h txs t n)"
proof (induction txs arbitrary: t n)
  case Nil
  then show ?case by (simp add: pool_kept_def)
next
  case (Cons tx txs)
  obtain r a rs where run: "apply_transaction X tx (bh_height h) (bh_timestamp h) (cs_total_issued (ns_chain n)) MAINNET_CHAIN_ID
      (ns_accounts n, ns_refiners n) = (r, (a, rs))" by (metis surj_pair)
  have "takes_out p (snd (remove_transaction i (ns_mempool n)))" for i
    using takes_out_trans [OF Cons.prems takes_out_removal(1)] .
  then show ?case using Cons.IH Cons.prems by (simp add: run Let_def split: sum.split) (simp add: pool_kept_def)
qed

lemma commit_block_pool: "takes_out (ns_mempool n) (ns_mempool (snd (commit_block X now bonded kind b n)))"
proof -
  have kept: "takes_out p (ns_mempool m) \<Longrightarrow> ns_mempool (snd r) = ns_mempool m \<Longrightarrow> pool_kept p r"
    for p m and r :: "(message + 'b) \<times> node_state" by (simp add: pool_kept_def)
  have expired: "takes_out p (ns_mempool m) \<Longrightarrow> takes_out p (ns_mempool (expire_mempool h s m))" for p h s m
    using takes_out_trans [OF _ takes_out_removal(2)] by (auto simp: expire_mempool_def)
  have "pool_kept (ns_mempool n) (commit_block X now bonded kind b n)"
    unfolding commit_block_def Let_def
    by (intro pool_kept_then execute_transactions_pool)
      (simp_all add: pool_kept_def same_pool advance_chain_pool expired detect_double_sign_frame)
  then show ?thesis by (simp add: pool_kept_def)
qed

lemma apply_block_pool:
  assumes "apply_block X now b n = Some (r, n')"
  shows "takes_out (ns_mempool n) (ns_mempool n')"
  using assms
proof (cases rule: apply_block_cases)
  case (counted kind e s)
  then show ?thesis using apply_attestations_frame(2) [OF counted(2)] by simp
next
  case (committed kind n1)
  then show ?thesis
    using commit_block_pool [of n1 X now "total_bonded_stake (ns_refiners n)" kind b] apply_attestations_frame(2) [OF committed(2)] by simp
qed simp

section \<open>The event loop\<close>

abbreviation pool_of :: "net_state \<Rightarrow> mempool" where
  "pool_of s \<equiv> ns_mempool (nt_node s)"

lemma loop_pool_simps [simp]:
  "pool_of (snd (ban_and_forget now p reason perm s)) = pool_of s" "pool_of (snd (ban_for_tx now p reason perm s)) = pool_of s"
  "pool_of (snd (reject_gossip_tx now p err s)) = pool_of s" "pool_of (snd (strike_peer now p r s)) = pool_of s"
  "pool_of (refresh_info s) = pool_of s" "pool_of (forget_peer p s) = pool_of s"
  "ns_mempool (ban_peer now p reason perm n) = ns_mempool n"
  "ns_mempool (snd (accept_block_attestation X a n)) = ns_mempool n"
proof -
  show ban: "ns_mempool (ban_peer now p reason perm n) = ns_mempool n" for n p reason perm
    by (simp add: ban_peer_def Let_def)
  show "pool_of (refresh_info s) = pool_of s" "pool_of (forget_peer p s) = pool_of s"
    by (simp_all add: refresh_info_def forget_peer_def)
  show "pool_of (snd (ban_and_forget now p reason perm s)) = pool_of s" for reason perm s
    by (simp add: ban_and_forget_def forget_peer_def on_node_def ban)
  then show "pool_of (snd (strike_peer now p r s)) = pool_of s" by (simp add: strike_peer_def Let_def)
  show "pool_of (snd (ban_for_tx now p reason perm s)) = pool_of s" for reason perm
    by (simp add: ban_for_tx_def on_node_def ban)
  then show "pool_of (snd (reject_gossip_tx now p err s)) = pool_of s" by (simp add: reject_gossip_tx_def)
  show "ns_mempool (snd (accept_block_attestation X a n)) = ns_mempool n"
    by (simp add: accept_block_attestation_def Let_def split: sum.split)
qed

lemma counted_pool:
  "count_block now p k s = (ok, t) \<Longrightarrow> pool_of t = pool_of s" "count_tx now p k s = (ok, t) \<Longrightarrow> pool_of t = pool_of s"
  by (auto simp: count_block_def count_tx_def Let_def)

lemma local_attestation_pool: "local_block_attestation X h g n = Some (cs, n2) \<Longrightarrow> ns_mempool n2 = ns_mempool n"
  by (auto simp: local_block_attestation_def split: option.splits)

lemma applied_gossip_pool:
  assumes "apply_gossip_block X e p r b s = Some (cs, t)"
  shows "takes_out (pool_of s) (pool_of t)"
proof -
  obtain res n1 where run: "apply_block X (en_now_secs e) b (nt_node s) = Some (res, n1)"
    using assms by (cases "apply_block X (en_now_secs e) b (nt_node s)") (auto simp: apply_gossip_block_def)
  note out = apply_block_pool [OF run]
  show ?thesis
  proof (cases res)
    case (Inl err)
    then have "t = snd (strike_peer (en_now_secs e) p r (s\<lparr>nt_node := n1\<rparr>))"
      using assms run by (simp add: apply_gossip_block_def)
    then show ?thesis using out by simp
  next
    case (Inr g)
    then obtain cs' n2 where "t = refresh_info (s\<lparr>nt_node := n2\<rparr>)" "local_block_attestation X (bh_height (blk_header b)) g n1 = Some (cs', n2)"
      using assms run by (auto simp: apply_gossip_block_def split: option.splits)
    then show ?thesis using out local_attestation_pool [of X] by (auto simp: refresh_info_def)
  qed
qed

lemma gossip_block_pool:
  assumes "handle_gossip_block X e data p s = Some (cs, t)"
  shows "takes_out (pool_of s) (pool_of t)"
proof -
  let ?r = "is_refiner_peer p (nt_node s)"
  obtain ok s1 where c: "count_block (en_instant e) p (if ?r then MAX_BLOCKS_PER_PEER_PER_SECOND * 2
      else MAX_BLOCKS_PER_PEER_PER_SECOND) s = (ok, s1)" by (metis surj_pair)
  have "t = s \<or> t = s1 \<or> t = snd (ban_and_forget (en_now_secs e) p ''fake_pow'' True s1) \<or>
      (\<exists>b. apply_gossip_block X e p ?r b s1 = Some (cs, t))"
    using assms c unfolding handle_gossip_block_def Let_def
    by (cases ok; cases "x_unborsh_block X data") (auto split: if_splits pow_precheck.splits)
  then show ?thesis using applied_gossip_pool [of X e p ?r _ s1 cs t] counted_pool(1) [OF c] by auto
qed

lemma sync_pool: "apply_sync_blocks X now ds s = Some t \<Longrightarrow> takes_out (pool_of s) (pool_of t)"
proof (induction ds arbitrary: s)
  case Nil
  then show ?case by simp
next
  case (Cons d ds)
  show ?case
  proof (cases "length d \<le> MAX_BLOCK_SIZE_BYTES \<and> (\<exists>b. x_unborsh_block X d = Some b \<and>
      bh_height (blk_header b) = wrap_add64 (cs_current_height (ns_chain (nt_node s))) 1)")
    case False
    then have "t = s" using Cons.prems by (auto split: if_splits option.splits)
    then show ?thesis by simp
  next
    case True
    then obtain b where b: "length d \<le> MAX_BLOCK_SIZE_BYTES" "x_unborsh_block X d = Some b"
      "bh_height (blk_header b) = wrap_add64 (cs_current_height (ns_chain (nt_node s))) 1" by blast
    then obtain r n1 where run: "apply_block X now b (nt_node s) = Some (r, n1)"
      using Cons.prems by (cases "apply_block X now b (nt_node s)") auto
    note out = apply_block_pool [OF run]
    show ?thesis
    proof (cases r)
      case (Inl err)
      then have "t = s\<lparr>nt_node := n1\<rparr>" using Cons.prems b run by simp
      then show ?thesis using out by simp
    next
      case (Inr h)
      then have "apply_sync_blocks X now ds (refresh_info (s\<lparr>nt_node := n1\<rparr>)) = Some t"
        using Cons.prems b run by simp
      from Cons.IH [OF this] show ?thesis using takes_out_trans [OF out] by simp
    qed
  qed
qed

lemma challenge_tick_pool: "pool_of (snd (check_challenges e s)) = pool_of s"
proof -
  have "pool_of (fold (\<lambda>p t. on_node (ban_peer now p reason False) (t\<lparr>nt_pending := hm_del p (nt_pending t)\<rparr>)) ps t) = pool_of t"
    for now reason ps t
    by (induction ps arbitrary: t) (simp_all add: on_node_def)
  then show ?thesis by (simp add: check_challenges_def Let_def)
qed

lemma connection_pool:
  "pool_of (snd (handle_peer_connected X e p addr s)) = pool_of s"
  "pool_of (handle_peer_disconnected p s) = pool_of s"
  "pool_of (snd (handle_peer_identified X p pv av s)) = pool_of s"
  "pool_of (snd (handle_challenge_response e p v s)) = pool_of s"
  "pool_of (snd (handle_gossip_attestation X data p s)) = pool_of s"
  "handle_sync_request X p i rq s = Some (cs, t) \<Longrightarrow> pool_of t = pool_of s"
proof -
  show "pool_of (snd (handle_peer_connected X e p addr s)) = pool_of s"
    by (simp add: handle_peer_connected_def Let_def split: option.split)
  show "pool_of (handle_peer_disconnected p s) = pool_of s"
    by (simp add: handle_peer_disconnected_def Let_def on_node_def split: option.split)
  show "pool_of (snd (handle_peer_identified X p pv av s)) = pool_of s"
    by (simp add: handle_peer_identified_def on_node_def split: option.split)
  show "pool_of (snd (handle_challenge_response e p v s)) = pool_of s"
    by (simp add: handle_challenge_response_def Let_def on_node_def split: option.split)
  have "pool_of (s\<lparr>nt_node := n\<rparr>) = pool_of s" if "accept_block_attestation X a (nt_node s) = (r, n)" for a r n
    using loop_pool_simps(8) [of X a "nt_node s"] that by simp
  then show "pool_of (snd (handle_gossip_attestation X data p s)) = pool_of s"
    by (simp add: handle_gossip_attestation_def split: option.split prod.split)
  show "pool_of t = pool_of s" if "handle_sync_request X p i rq s = Some (cs, t)"
    using that by (auto simp: handle_sync_request_def Let_def split: if_splits prod.splits)
qed

text \<open>Only the gossip of a transaction adds to the pool.\<close>

lemma loop_pool:
  assumes run: "run_step X e st s = Some (cs, t)" and "\<And>data p. st \<noteq> NetEvent (GossipTransaction data p)"
  shows "takes_out (pool_of s) (pool_of t)"
proof (cases st)
  case ChallengeTick
  then show ?thesis using run challenge_tick_pool [of e s] by (simp add: run_step_def)
next
  case EvictTick
  then show ?thesis using run by (auto simp: run_step_def evict_expired_tick_def on_node_def)
next
  case (NetEvent ev)
  note r = run [unfolded run_step_def NetEvent loop_step.case handle_network_event_def]
  have same: "(cs', t') = (cs, t) \<Longrightarrow> pool_of t' = pool_of s \<Longrightarrow> takes_out (pool_of s) (pool_of t)" for cs' t' by simp
  show ?thesis
  proof (cases ev)
    case (GossipTransaction data p)
    with assms(2) NetEvent show ?thesis by blast
  next
    case (GossipBlock data p)
    then show ?thesis using r gossip_block_pool by simp
  next
    case (SyncResponseReceived p resp)
    then have "t = s \<or> apply_sync_blocks X (en_now_secs e) (sp_blocks resp) s = Some t"
      using r by (auto simp: handle_sync_response_def split: if_splits)
    then show ?thesis using sync_pool by auto
  next
    case (GossipAttestation data p)
    then show ?thesis using r connection_pool(5) [of X data p s] by simp
  next
    case (PeerConnected p a)
    then show ?thesis using r connection_pool(1) [of X e p a s] by simp
  next
    case (PeerIdentified p v a)
    then show ?thesis using r connection_pool(3) [of X p v a s] by simp
  next
    case (PeerDisconnected p)
    then show ?thesis using r connection_pool(2) [of p s] by auto
  next
    case (SyncRequestReceived p i req)
    then show ?thesis using r connection_pool(6) [of X p i req s cs t] by simp
  next
    case (ChallengeRequestReceived p i h k g)
    then show ?thesis using r by simp
  next
    case (ChallengeResponseReceived p v)
    then show ?thesis using r connection_pool(4) [of e p v s] by simp
  qed
qed

lemma gossip_pool:
  assumes "handle_gossip_transaction X e data p s = (cs, t)"
  obtains (same) "pool_of t = pool_of s"
  | (tried) tx nonce fee r where "x_unborsh_transaction X data = Some tx"
      "add_transaction X tx (tx_fee tx) (en_now_secs e) nonce fee MAINNET_CHAIN_ID (pool_of s) = (r, pool_of t)"
proof -
  obtain ok s1 where c: "count_tx (en_instant e) p (if is_refiner_peer p (nt_node s) then MAX_TXS_PER_PEER_PER_SECOND * 2
      else MAX_TXS_PER_PEER_PER_SECOND) s = (ok, s1)" by (metis surj_pair)
  note s1 = counted_pool(2) [OF c]
  have "t = s \<or> t = s1 \<or> (\<exists>err. reject_gossip_tx (en_now_secs e) p err s1 = (cs, t)) \<or>
      (\<exists>tx. x_unborsh_transaction X data = Some tx \<and> admit_gossip_tx X (en_now_secs e) data tx s1 = (cs, t))"
    using assms c unfolding handle_gossip_transaction_def Let_def
    by (cases ok; cases "x_unborsh_transaction X data") (auto split: if_splits sum.splits)
  then consider "pool_of t = pool_of s" | tx where "x_unborsh_transaction X data = Some tx" "admit_gossip_tx X (en_now_secs e) data tx s1 = (cs, t)"
    using s1 loop_pool_simps(3) [of "en_now_secs e" p _ s1] by (auto, metis snd_conv)
  then show thesis
  proof cases
    case 2
    then show thesis using tried [of tx] s1
      by (auto simp: admit_gossip_tx_def Let_def on_node_def split: prod.splits sum.splits)
  qed (rule same)
qed

section \<open>The tasks\<close>

lemma own_block_pool:
  assumes "apply_own_block X now b p = Some (r, p')"
  shows "takes_out (pool_of (pr_net p)) (pool_of (pr_net p'))"
proof -
  obtain r0 n where run: "apply_block X now b (nt_node (pr_net p)) = Some (r0, n)"
    using assms by (cases "apply_block X now b (nt_node (pr_net p))") (auto simp: apply_own_block_def)
  have "pool_of (pr_net p') = ns_mempool n"
    using assms run
    by (cases r0) (auto simp: apply_own_block_def queue_local_block_attestation_def try_send_block_def try_send_attestation_def
        with_node_def refresh_info_def Let_def split: option.splits if_splits)
  then show ?thesis using apply_block_pool [OF run] by simp
qed

lemma template_pool: "ns_mempool (snd (block_template X now n)) = ns_mempool n"
  by (simp add: block_template_def drain_pending_attestations_for_block_def Let_def)

lemma mine_pool: "mine_block_may X now k n r n' \<Longrightarrow> ns_mempool n' = ns_mempool n"
  using template_pool [of X now n] by (auto simp: mine_block_may_def split: prod.splits option.splits)

lemma produce_pool:
  assumes "produce_refiner_block X now n = Some (r, n')"
  shows "ns_mempool n' = ns_mempool n"
  using assms template_pool [of X now n]
  by (auto simp: produce_refiner_block_def apfst_def map_prod_def split: option.splits if_splits prod.splits)

lemma process_pool:
  assumes step: "process_step_may X e st p cs p'" and "\<And>pool. st \<noteq> PoolChange pool"
    and "\<And>data q. st \<noteq> Loop (NetEvent (GossipTransaction data q))"
  shows "takes_out (pool_of (pr_net p)) (pool_of (pr_net p'))"
  using step
proof cases
  case (step_loop st0 s)
  then show ?thesis using loop_pool [OF step_loop(3)] assms(3) by simp
next
  case (step_submission b r)
  then show ?thesis using own_block_pool [of X "en_now_secs e" b p _ p'] by (auto simp: process_submission_def)
next
  case (step_search solo)
  then have "p' = p \<or> (\<exists>n r. ns_mempool n = pool_of (pr_net p) \<and> p' = (with_node n p)\<lparr>pr_miner := r\<rparr>)"
    unfolding mining_search_may_def by (meson mine_pool)
  then show ?thesis by (auto simp: with_node_def)
next
  case step_mined
  then show ?thesis
    using own_block_pool [of X "en_now_secs e" _ "p\<lparr>pr_miner := None\<rparr>" _ p'] by (auto simp: mining_apply_def split: option.splits)
next
  case step_refiner
  show ?thesis
  proof (cases "pr_refiner p")
    case BetweenTurns
    then show ?thesis using step_refiner by (auto simp: refiner_turn_def refiner_wait_def)
  next
    case (WaitingSince h)
    then have "(\<exists>g. p' = p\<lparr>pr_refiner := g\<rparr>) \<or>
        (\<exists>n g. ns_mempool n = pool_of (pr_net p) \<and> p' = (with_node n p)\<lparr>pr_refiner := g\<rparr>)"
      using step_refiner(3) by (auto simp: refiner_turn_def refiner_attempt_def
          split: if_splits option.splits prod.splits dest: produce_pool)
    then show ?thesis by (auto simp: with_node_def)
  next
    case (HoldingBlock b)
    then show ?thesis using step_refiner own_block_pool [of X "en_now_secs e" b "p\<lparr>pr_refiner := BetweenTurns\<rparr>" _ p']
      by (auto simp: refiner_turn_def)
  qed
next
  case step_block
  then show ?thesis by (auto simp: broadcast_next_block_def split: list.splits)
next
  case step_attestation
  then show ?thesis by (auto simp: broadcast_next_attestation_def split: list.splits)
next
  case (step_pool pool)
  then show ?thesis using assms(2) by simp
qed

end
