(* ===== verification/Rpc_Node.thy ===== *)
theory Rpc_Node
  imports Rpc_Props Pool_Run
begin

text \<open>
  The RPC server beside the node: what its figures say about the ledger, what becomes of the
  transactions it takes, and how the jobs it gives to miners relate to the node's own templates.
\<close>

section \<open>Reported supply\<close>

text \<open>
  The supply that the server reports is real. In every run of the process, the issued coins it
  reports are those on accounts, those in custody of the refiner set and those it reports as burned, the
  circulating supply is what is not burned, and the mint ledger splits the burned total exactly.
\<close>

theorem reported_supply_is_real:
  fixes X :: "'x net_externs_scheme"
  assumes "process_run X config out p" and "borsh_total X" and "rv_net st = pr_net p"
    and "handle_get_supply st = Inr (VSupply r)" and "handle_get_mint_ledger st = Inr (VMintLedger l)"
  shows "spr_total_issued_flakes r =
       total_balance (rv_accounts st) + custody (rv_refiners st) + spr_total_burned_flakes r \<and>
     spr_circulating_supply_flakes r = total_balance (rv_accounts st) + custody (rv_refiners st) \<and>
     mlr_total_issued_flakes l = mlr_total_genesis_issued_flakes l + mlr_total_mined_gross_reward_flakes l \<and>
     mlr_total_burned_flakes l = mlr_total_mine_assay_burned_flakes l + mlr_total_ordinary_fees_burned_flakes l +
       mlr_total_bond_unbond_assay_burned_flakes l + mlr_total_slashed_stake_burned_flakes l"
proof -
  let ?n = "nt_node (pr_net p)"
  let ?c = "ns_chain ?n"
  have good: "node_inv ?n" "info_ok (pr_net p)" using process_run_good [OF assms(1,2)] by simp_all
  obtain h where "nt_info (pr_net p) = (chain_state_to_info ?c)\<lparr>ci_finalized_height := h\<rparr>"
    using good(2) unfolding info_ok_def Let_def by blast
  then have info: "ci_total_issued (rv_info st) = cs_total_issued ?c" "ci_total_burned (rv_info st) = cs_total_burned ?c"
    "ci_circulating_supply (rv_info st) = circulating_supply ?c" "ci_mint_ledger (rv_info st) = cs_mint_ledger ?c"
    by (simp_all add: rv_info_def assms(3) chain_state_to_info_def)
  have books: "total_balance (ns_accounts ?n) + custody (ns_refiners ?n) + cs_total_burned ?c = cs_total_issued ?c"
    "ledger_exact ?n" using good(1) unfolding node_inv_def supply_ok_def supply_defs by simp_all
  have r: "spr_total_issued_flakes r = cs_total_issued ?c" "spr_total_burned_flakes r = cs_total_burned ?c"
    "spr_circulating_supply_flakes r = circulating_supply ?c"
    using assms(4) by (auto simp: handle_get_supply_def Let_def info)
  show ?thesis
    using books r assms(5)
    by (auto simp: handle_get_mint_ledger_def Let_def info ledger_exact_def issued_def burned_def rv_accounts_def rv_refiners_def assms(3)
        circulating_supply_def sat_sub_def)
qed

section \<open>Transactions\<close>

lemma admitted_entry:
  assumes "mempool_wf p" and "add_transaction X tx prio since nonce sf c p = (Inr (), p')"
  shows "hm_get (mp_entries p') (tx_id tx) =
     Some \<lparr> me_transaction = tx, me_priority = prio, me_size = mempool_tx_size X tx, me_submitted_at = since \<rparr>"
    and "i \<noteq> tx_id tx \<Longrightarrow> hm_get (mp_entries p') i = Some e \<Longrightarrow> hm_get (mp_entries p) i = Some e"
    and "hm_get (mp_entries p) (tx_id tx) = None"
proof -
  have ok: "admissible X tx nonce sf c p"
    using add_transaction_reject [OF assms(1), of X tx nonce sf c prio since] assms(2) by auto
  let ?sz = "mempool_tx_size X tx" and ?a = "after_replacement tx p"
  have p': "p' = inserted tx prio since ?sz (room_made ?sz ?a)"
    using add_transaction_accept [OF assms(1) ok, of prio since] assms(2) by simp
  have sh: "shrinks p (room_made ?sz ?a)"
  proof -
    have a: "shrinks p ?a" by (rule after_replacement_law(1) [OF assms(1)])
    moreover have "?sz \<le> TX_MAX_SIZE_BYTES" using ok by (simp add: admissible_def)
    ultimately show ?thesis using room_made_law(1) [of ?a ?sz] by (auto simp: shrinks_def intro: shrinks_trans)
  qed
  show "hm_get (mp_entries p') (tx_id tx) =
     Some \<lparr> me_transaction = tx, me_priority = prio, me_size = ?sz, me_submitted_at = since \<rparr>"
    by (simp add: p' inserted_def hm_get_put)
  show "i \<noteq> tx_id tx \<Longrightarrow> hm_get (mp_entries p') i = Some e \<Longrightarrow> hm_get (mp_entries p) i = Some e"
    using sh by (simp add: p' inserted_def hm_get_put shrinks_def)
  show "hm_get (mp_entries p) (tx_id tx) = None" using ok by (simp add: admissible_def)
qed

lemma refused_pool:
  assumes "mempool_wf p" and "add_transaction X tx prio since nonce sf c p = (Inl e, q)"
  shows "q = p"
  using add_transaction_reject [OF assms(1), of X tx nonce sf c prio since]
    add_transaction_accept [OF assms(1), of X tx nonce sf c prio since] assms(2)
  by (cases "admissible X tx nonce sf c p") auto

lemma decoded_transaction:
  assumes "decode_verified_rpc_transaction X hex_data = Inr (tx, sz)"
  shows "\<exists>bytes. x_hex_decode X hex_data = Some bytes \<and> length bytes = sz \<and> x_unborsh_transaction X bytes = Some tx"
    and "sz \<le> TX_MAX_SIZE_BYTES" and "verify_transaction X tx MAINNET_CHAIN_ID = Inr ()"
  using assms unfolding decode_verified_rpc_transaction_def
  by (auto split: option.split_asm if_split_asm sum.split_asm)

text \<open>An entry of higher priority comes before one of lower priority.\<close>

lemma higher_priority_first:
  assumes "hm_get (mp_entries p) i = Some e" and "hm_get (mp_entries p) j = Some f" and "me_priority f < me_priority e"
  shows "\<exists>xs ys zs. get_ordered_transactions p = xs @ me_transaction e # ys @ me_transaction f # zs"
proof -
  let ?k = "\<lambda>e. - int (me_priority e)" and ?l = "ordered_entries p"
  have "set ?l = snd ` set (mp_entries p)" by (simp add: ordered_entries_def)
  then have "e \<in> set ?l" "f \<in> set ?l" using assms(1,2) by (auto simp: hm_get_def dest: map_of_SomeD intro: rev_image_eqI)
  then obtain ys zs where l: "?l = ys @ f # zs" and "e \<in> set ?l" by (meson split_list)
  have sorted: "sorted (map ?k ?l)" by (simp add: ordered_entries_def)
  have "e \<notin> set (f # zs)" using sorted assms(3) by (auto simp: l sorted_append)
  then have "e \<in> set ys" using \<open>e \<in> set ?l\<close> l by simp
  then obtain as bs where "ys = as @ e # bs" by (meson split_list)
  then have "get_ordered_transactions p = map me_transaction as @ me_transaction e # map me_transaction bs
      @ me_transaction f # map me_transaction zs" by (simp add: get_ordered_transactions_def l)
  then show ?thesis by blast
qed

lemma rpc_priority_ge:
  assumes "sz \<le> TX_MAX_SIZE_BYTES" and "10 * fee \<le> U64_MAX"
  shows "10 * fee \<le> rpc_priority fee sz"
proof -
  have "10 * fee * max sz 1 \<le> fee * 1000000" using assms(1) by (auto simp: TX_MAX_SIZE_BYTES_def max_def)
  then have "10 * fee \<le> fee * 1000000 div max sz 1" by (simp add: less_eq_div_iff_mult_less_eq)
  then show ?thesis using assms(2) by (simp add: rpc_priority_def)
qed

text \<open>
  The process with its two sources of transactions. \<open>G\<close> are the transactions that gossip has brought so far,
  \<open>R\<close> those sent over RPC, whether the pool took them or not. It starts with an empty pool, as every node
  does; every step of the process may come in between, and a step that changes the pool otherwise there is not.
\<close>

definition gossiped :: "'x net_externs_scheme \<Rightarrow> process_step \<Rightarrow> transaction set" where
  "gossiped X st =
     (case st of
        Loop (NetEvent (GossipTransaction data peer)) \<Rightarrow> set_option (x_unborsh_transaction X data)
      | _ \<Rightarrow> {})"

definition sent_over_rpc :: "'x net_externs_scheme \<Rightarrow> json \<Rightarrow> transaction set" where
  "sent_over_rpc X params =
     {tx. \<exists>sz. and_then (require_string_param params ''data'') (decode_verified_rpc_transaction X) = Inr (tx, sz)}"

inductive mixed_run ::
  "'x net_externs_scheme \<Rightarrow> transaction set \<Rightarrow> transaction set \<Rightarrow> process \<Rightarrow> bool" for X where
  mixed_start: "pool_of (pr_net p) = mempool_new \<Longrightarrow> mixed_run X {} {} p"
| mixed_step: "mixed_run X G R p \<Longrightarrow> process_step_may X e st p cs p' \<Longrightarrow> (\<And>pool. st \<noteq> PoolChange pool) \<Longrightarrow>
     mixed_run X (G \<union> gossiped X st) R p'"
| mixed_send: "mixed_run X G R p \<Longrightarrow> rv_net st = pr_net p \<Longrightarrow> handle_send_transaction X now st params = (r, st') \<Longrightarrow>
     mixed_run X G (R \<union> sent_over_rpc X params) (p\<lparr>pr_net := rv_net st'\<rparr>)"

lemma started_pool:
  assumes "start_node X config key_file disk bans = Inr n"
  shows "ns_mempool n = mempool_new"
proof -
  obtain i k where id: "load_identity X key_file = (i, k)" by (metis surj_pair)
  obtain c accounts refiners db where run: "(case ensure_local_producer_account i (map_option (x_ed25519_public_key X) k) accounts of
        (Inl e, _) \<Rightarrow> Inl e
      | (Inr _, accounts') \<Rightarrow>
          Inr \<lparr> ns_chain = c, ns_accounts = accounts', ns_refiners = refiners, ns_mempool = mempool_new,
                ns_store = Some db, ns_miner_id = i, ns_signing_key = k,
                ns_pending_evidence = [], ns_pending_attestations = [], ns_refiner_peers = [],
                ns_banned_peers = bans \<rparr>) = Inr n"
    using assms by (clarsimp simp: start_node_def id and_then_Inr_iff)
  obtain r t where "ensure_local_producer_account i (map_option (x_ed25519_public_key X) k) accounts = (r, t)"
    by (metis surj_pair)
  with run show ?thesis by (cases r) auto
qed

text \<open>The priorities in the pool.\<close>

definition ranked :: "transaction set \<Rightarrow> transaction set \<Rightarrow> mempool \<Rightarrow> bool" where
  "ranked G R pool \<longleftrightarrow> mempool_wf pool \<and> (\<forall>i e. hm_get (mp_entries pool) i = Some e \<longrightarrow>
     (let tx = me_transaction e in tx \<in> G \<and> me_priority e = tx_fee tx \<or>
        tx \<in> R \<and> (10 * tx_fee tx \<le> U64_MAX \<longrightarrow> 10 * tx_fee tx \<le> me_priority e)))"

lemma ranked_out:
  assumes "ranked G R pool" and "takes_out pool pool'" and "G \<subseteq> G'" and "R \<subseteq> R'"
  shows "ranked G' R' pool'"
  using assms unfolding ranked_def takes_out_def shrinks_def Let_def by blast

lemma ranked_add:
  assumes ranked: "ranked G R pool" and add: "add_transaction X tx prio now nonce fee c pool = (r, pool')"
    and new: "tx \<in> G' \<and> prio = tx_fee tx \<or> tx \<in> R' \<and> (10 * tx_fee tx \<le> U64_MAX \<longrightarrow> 10 * tx_fee tx \<le> prio)"
    and more: "G \<subseteq> G'" "R \<subseteq> R'"
  shows "ranked G' R' pool'"
proof -
  have wf: "mempool_wf pool" using ranked by (simp add: ranked_def)
  show ?thesis
  proof (cases r)
    case (Inl err)
    then have "pool' = pool" using refused_pool [OF wf] add by blast
    then show ?thesis using ranked_out [OF ranked takes_out_refl more] by simp
  next
    case (Inr u)
    then have ok: "add_transaction X tx prio now nonce fee c pool = (Inr (), pool')" using add by simp
    note entry = admitted_entry [OF wf ok]
    have "let t = me_transaction e in t \<in> G' \<and> me_priority e = tx_fee t \<or>
        t \<in> R' \<and> (10 * tx_fee t \<le> U64_MAX \<longrightarrow> 10 * tx_fee t \<le> me_priority e)" if e: "hm_get (mp_entries pool') i = Some e" for i e
    proof (cases "i = tx_id tx")
      case True
      then have "e = \<lparr> me_transaction = tx, me_priority = prio, me_size = mempool_tx_size X tx, me_submitted_at = now \<rparr>"
        using e entry(1) by simp
      then show ?thesis using new by (simp add: Let_def)
    next
      case False
      from entry(2) [OF this e] ranked more show ?thesis unfolding ranked_def Let_def by blast
    qed
    then show ?thesis using add_transaction_wf [OF wf ok] by (simp add: ranked_def)
  qed
qed

lemma send_pool:
  assumes "handle_send_transaction X now st params = (r, st')"
  obtains (same) "rv_mempool st' = rv_mempool st"
  | (tried) tx sz nonce fee r' where "and_then (require_string_param params ''data'') (decode_verified_rpc_transaction X) = Inr (tx, sz)"
      "add_transaction X tx (rpc_priority (tx_fee tx) sz) now nonce fee MAINNET_CHAIN_ID (rv_mempool st) = (r', rv_mempool st')"
proof (cases "and_then (require_string_param params ''data'') (decode_verified_rpc_transaction X)")
  case (Inl err)
  then show thesis using assms by (intro same) (simp add: handle_send_transaction_def)
next
  case (Inr d)
  obtain tx sz where d: "d = (tx, sz)" by (cases d)
  let ?nonce = "case get_account (rv_accounts st) (tx_sender tx) of None \<Rightarrow> 0 | Some a \<Rightarrow> acc_nonce a"
  obtain r' pool where add: "add_transaction X tx (rpc_priority (tx_fee tx) sz) now ?nonce (ci_suggested_fee (rv_info st))
      MAINNET_CHAIN_ID (rv_mempool st) = (r', pool)" by (metis surj_pair)
  then have "rv_mempool st' = pool"
    using assms Inr d
    by (cases r') (auto simp: handle_send_transaction_def Let_def rv_mempool_def on_node_def cong: option.case_cong)
  with add Inr d show thesis by (intro tried) auto
qed

lemma mixed_run_ranked: "mixed_run X G R p \<Longrightarrow> ranked G R (pool_of (pr_net p))"
proof (induction rule: mixed_run.induct)
  case (mixed_start p)
  then show ?case using mempool_wf_new by (simp add: ranked_def mempool_new_def)
next
  case (mixed_step G R p e st cs p')
  show ?case
  proof (cases "\<exists>data q. st = Loop (NetEvent (GossipTransaction data q))")
    case False
    then have "takes_out (pool_of (pr_net p)) (pool_of (pr_net p'))"
      using process_pool [OF mixed_step.hyps(2,3)] by blast
    from ranked_out [OF mixed_step.IH this] show ?thesis by blast
  next
    case True
    then obtain data q where st: "st = Loop (NetEvent (GossipTransaction data q))" by blast
    then obtain s where s: "handle_gossip_transaction X e data q (pr_net p) = (cs, s)" "pr_net p' = s"
      using mixed_step.hyps(2) by (auto elim!: process_step_mayE simp: run_step_def handle_network_event_def)
    from s(1) show ?thesis
    proof (cases rule: gossip_pool)
      case same
      then show ?thesis using ranked_out [OF mixed_step.IH takes_out_refl] s(2) by simp
    next
      case (tried tx nonce fee r)
      then have "tx \<in> gossiped X st" by (simp add: gossiped_def st)
      then show ?thesis using ranked_add [OF mixed_step.IH tried(2)] s(2) by simp
    qed
  qed
next
  case (mixed_send G R p st now params r st')
  have pool: "rv_mempool st = pool_of (pr_net p)" "rv_mempool st' = pool_of (rv_net st')"
    using mixed_send.hyps(2) by (simp_all add: rv_mempool_def)
  from mixed_send.hyps(3) show ?case
  proof (cases rule: send_pool)
    case same
    then show ?thesis using ranked_out [OF mixed_send.IH takes_out_refl] pool by simp
  next
    case (tried tx sz nonce fee r')
    have "sz \<le> TX_MAX_SIZE_BYTES"
      using tried(1) decoded_transaction(2) by (auto simp: and_then_Inr_iff)
    from rpc_priority_ge [OF this] have "10 * tx_fee tx \<le> U64_MAX \<longrightarrow> 10 * tx_fee tx \<le> rpc_priority (tx_fee tx) sz" by blast
    moreover have "tx \<in> sent_over_rpc X params" using tried(1) by (auto simp: sent_over_rpc_def)
    ultimately show ?thesis using ranked_add [OF mixed_send.IH tried(2) [unfolded pool]] by simp
  qed
qed

lemma pooled:
  assumes "mempool_wf pool"
  shows "tx \<in> set (get_ordered_transactions pool) \<longleftrightarrow> (\<exists>i e. hm_get (mp_entries pool) i = Some e \<and> me_transaction e = tx)"
proof
  assume "tx \<in> set (get_ordered_transactions pool)"
  then obtain i e where "(i, e) \<in> set (mp_entries pool)" "me_transaction e = tx" by (auto simp: pool_listed)
  then show "\<exists>i e. hm_get (mp_entries pool) i = Some e \<and> me_transaction e = tx"
    using assms by (auto simp: mempool_wf_def intro: hm_in_set_get)
next
  assume "\<exists>i e. hm_get (mp_entries pool) i = Some e \<and> me_transaction e = tx"
  then show "tx \<in> set (get_ordered_transactions pool)"
    by (auto simp: pool_listed hm_get_def dest!: map_of_SomeD intro: rev_image_eqI)
qed

text \<open>
  C28: the two ways into the pool rank transactions on different scales. A gossiped transaction has its fee
  as priority, one sent over RPC the fee per million bytes, at least ten times its fee. So, whatever gossip, RPC, blocks and
  timers have done in between and in whatever order, when the pool holds a transaction that came over RPC only and a
  gossiped one that was not sent over RPC, the former stands before the latter in the order in which blocks
  take transactions, unless the gossiped one pays at least ten times as much.
\<close>

theorem rpc_transactions_overtake_gossip:
  fixes X :: "'x net_externs_scheme"
  assumes "mixed_run X G R p"
    and "tx \<in> set (get_ordered_transactions (ns_mempool (nt_node (pr_net p))))" and "tx \<notin> G"
    and "gtx \<in> set (get_ordered_transactions (ns_mempool (nt_node (pr_net p))))" and "gtx \<notin> R"
    and "tx_fee gtx < 10 * tx_fee tx" and "10 * tx_fee tx \<le> U64_MAX"
  shows "tx \<in> R \<and> gtx \<in> G \<and>
    (\<exists>xs ys zs. get_ordered_transactions (ns_mempool (nt_node (pr_net p))) = xs @ tx # ys @ gtx # zs)"
proof -
  let ?pool = "pool_of (pr_net p)"
  have ranked: "ranked G R ?pool" by (rule mixed_run_ranked [OF assms(1)])
  then have wf: "mempool_wf ?pool" by (simp add: ranked_def)
  obtain i e where e: "hm_get (mp_entries ?pool) i = Some e" "me_transaction e = tx" using pooled [OF wf] assms(2) by blast
  obtain j g where g: "hm_get (mp_entries ?pool) j = Some g" "me_transaction g = gtx" using pooled [OF wf] assms(4) by blast
  have "tx \<in> R" "10 * tx_fee tx \<le> me_priority e"
    using ranked e assms(3,7) unfolding ranked_def Let_def by blast+
  moreover have "gtx \<in> G" "me_priority g = tx_fee gtx"
    using ranked g assms(5) unfolding ranked_def Let_def by blast+
  ultimately show ?thesis using higher_priority_first [OF e(1) g(1)] e(2) g(2) assms(6) by auto
qed

section \<open>Mining jobs\<close>

text \<open>With an up-to-date snapshot the server computes the difficulty that the node requires.\<close>

lemma rpc_snapshot:
  assumes "info_ok (rv_net st)"
  defines "c \<equiv> ns_chain (nt_node (rv_net st))"
  shows "ci_height (rv_info st) = cs_current_height c" "ci_latest_block_hash (rv_info st) = cs_latest_block_hash c"
    "ci_state_root (rv_info st) = cs_state_root c" "ci_suggested_fee (rv_info st) = cs_suggested_fee c"
    "effective_difficulty (rpc_next_difficulty st) = next_difficulty (nt_node (rv_net st))"
proof -
  obtain h where "nt_info (rv_net st) = (chain_state_to_info c)\<lparr>ci_finalized_height := h\<rparr>"
    using assms(1) unfolding info_ok_def Let_def c_def by blast
  then show "ci_height (rv_info st) = cs_current_height c" "ci_latest_block_hash (rv_info st) = cs_latest_block_hash c"
    "ci_state_root (rv_info st) = cs_state_root c" "ci_suggested_fee (rv_info st) = cs_suggested_fee c"
    "effective_difficulty (rpc_next_difficulty st) = next_difficulty (nt_node (rv_net st))"
    by (simp_all add: rv_info_def rv_refiners_def chain_state_to_info_def rpc_next_difficulty_def next_difficulty_def
        Let_def c_def)
qed

lemma template_header:
  assumes "block_template X now n = (Some t, n')" and "blk_slash_evidence t = []" and "blk_attestations t = []"
    and "transaction_count (ns_mempool n) \<le> 100" and "sat_add64 (last_timestamp n) 45 \<le> now"
    and "info_ok (rv_net st)" and "nt_node (rv_net st) = n" and "rv_miner_id st = ns_miner_id n"
  shows "job_header X now st = Inr (blk_header t)"
proof -
  let ?d = "drain_pending_attestations_for_block (wrap_add64 (cs_current_height (ns_chain n)) 1) n"
  obtain er ar gr where r: "compute_evidence_root X (pending_slash_evidence_for_block n) = Inr er"
    "compute_attestation_root X (fst ?d) = Inr ar" "compute_genesis_ceremony_hash X None = Inr gr"
    using assms(1) by (auto simp: block_template_def Let_def split: sum.splits)
  note t = assms(1) [unfolded block_template_def Let_def r prod.case sum.case prod.inject option.inject, THEN conjunct1, symmetric]
  have empty: "pending_slash_evidence_for_block n = []" "fst ?d = []" using assms(2,3) by (simp_all add: t)
  have "length (get_ordered_transactions (ns_mempool n)) \<le> 100"
    using assms(4) by (simp add: get_ordered_transactions_def ordered_entries_def transaction_count_def)
  then have txs: "job_transactions st = take MAX_TRANSACTIONS_PER_BLOCK (get_ordered_transactions (ns_mempool n))"
    by (simp add: job_transactions_def rv_mempool_def assms(7) MAX_TRANSACTIONS_PER_BLOCK_def)
  have time: "max now (sat_add64 (last_timestamp n) minimum_block_timestamp_delta_secs) = now"
    using assms(5) by (simp add: max_def minimum_block_timestamp_delta_secs_def const_defs)
  show ?thesis
    using r unfolding job_header_def Let_def empty
    by (simp add: rpc_snapshot [OF assms(6)] assms(7,8) txs time t)
qed

text \<open>
  C29: a mining job is the header of the node's own template, byte for byte, when the pool holds at most a
  hundred transactions, no evidence and no attestation waits, and at least 45 seconds have passed since
  the last block. Before that the job carries the current time, where the template takes the earliest
  time allowed: a solution of such a job is refused by the node that gave it, whenever it arrives.
\<close>

theorem mining_job_agrees_with_template:
  fixes X :: "'x net_externs_scheme"
  assumes "handle_get_mining_job X now st = Inr (VJob j)" and "info_ok (rv_net st)"
    and "nt_node (rv_net st) = n" and "rv_miner_id st = ns_miner_id n" and "cs_current_height (ns_chain n) < U64_MAX"
  shows "(\<forall>t n'. block_template X now n = (Some t, n') \<and> blk_slash_evidence t = [] \<and> blk_attestations t = [] \<and>
       transaction_count (ns_mempool n) \<le> 100 \<and> sat_add64 (last_timestamp n) 45 \<le> now \<longrightarrow>
       mjr_header_bytes j = x_hex_encode X (serialize_header_for_pow (blk_header t)) \<and>
       mjr_difficulty j = bh_difficulty (blk_header t)) \<and>
     (now < sat_add64 (last_timestamp n) 45 \<longrightarrow>
       (\<forall>b later. bh_timestamp (blk_header b) = mjr_timestamp j \<longrightarrow> (\<exists>e. apply_block X later b n = Some (Inl e, n))))"
proof -
  obtain h where h: "job_header X now st = Inr h" "mjr_header_bytes j = x_hex_encode X (serialize_header_for_pow h)"
    "mjr_difficulty j = bh_difficulty h" "mjr_timestamp j = bh_timestamp h"
    using assms(1) unfolding handle_get_mining_job_def by (auto split: if_split_asm sum.split_asm)
  have time: "bh_timestamp h = now" using h(1) by (auto simp: job_header_def Let_def and_then_Inr_iff)
  have early: "\<exists>e. apply_block X later b n = Some (Inl e, n)"
    if "now < sat_add64 (last_timestamp n) 45" "bh_timestamp (blk_header b) = mjr_timestamp j" for b later
  proof -
    have "wrap_add64 (cs_current_height (ns_chain n)) 1 = cs_current_height (ns_chain n) + 1"
      using assms(5) by (simp add: wrap_add64_exact)
    then have "accept_block X later b n \<noteq> Inr kind" for kind
      using that h(4) time by (auto simp: accept_block_iff block_valid_def header_and_size_valid_def Let_def)
    then obtain e where "accept_block X later b n = Inl e" by (cases "accept_block X later b n") auto
    then show ?thesis by (simp add: apply_block_def)
  qed
  have "mjr_header_bytes j = x_hex_encode X (serialize_header_for_pow (blk_header t)) \<and>
       mjr_difficulty j = bh_difficulty (blk_header t)"
    if "block_template X now n = (Some t, n')" "blk_slash_evidence t = []" "blk_attestations t = []"
      "transaction_count (ns_mempool n) \<le> 100" "sat_add64 (last_timestamp n) 45 \<le> now" for t n'
    using template_header [OF that assms(2-4)] h by simp
  with early show ?thesis by blast
qed

section \<open>Witnesses\<close>

theorem reported_supply_is_real_witness:
  "\<exists>p r l. process_run demo_network genesis_config_default [] p \<and> pr_blocks p = [[0]] \<and>
     handle_get_supply (rpc_state_new (pr_net p) (ObjectId (Hash 7)) None) = Inr (VSupply r) \<and>
     handle_get_mint_ledger (rpc_state_new (pr_net p) (ObjectId (Hash 7)) None) = Inr (VMintLedger l) \<and>
     spr_circulating_supply_flakes r = total_balance (ns_accounts (nt_node (pr_net p))) + custody (ns_refiners (nt_node (pr_net p)))"
proof -
  obtain p where p: "process_run demo_network genesis_config_default [] p" "pr_blocks p = [[0]]"
    by (rule demo_submission)
  let ?st = "rpc_state_new (pr_net p) (ObjectId (Hash 7)) None"
  obtain r l where "handle_get_supply ?st = Inr (VSupply r)" "handle_get_mint_ledger ?st = Inr (VMintLedger l)"
    by (simp add: handle_get_supply_def handle_get_mint_ledger_def Let_def)
  with reported_supply_is_real [OF p(1) demo_network_starts(2), of ?st r l] p show ?thesis
    by (auto simp: rpc_state_new_def rv_accounts_def rv_refiners_def)
qed

text \<open>Parameters on which a fee of five gives another transaction id than a fee of one.\<close>

definition demo_ranked :: "nat \<Rightarrow> nat \<Rightarrow> transaction" where
  "demo_ranked fee nonce = demo_tx
     \<lparr>tx_id := ObjectId (Hash (if fee = 5 then 1 else 7)), tx_sender := ObjectId (Hash 7), tx_chain_id := 1,
      tx_signature_type := 0, tx_public_key := replicate 32 0, tx_signature := replicate 64 0, tx_fee := fee,
      tx_nonce := nonce\<rparr>"

definition demo_ranking :: net_externs where
  "demo_ranking = demo_network
     \<lparr>x_blake3 := (\<lambda>d. if d \<noteq> [] \<and> last d = 5 then Hash 1 else Hash 7),
      x_borsh_tx_body := (\<lambda>(sender, action, fee, nonce, chain). Some [of_nat fee]),
      x_hex_decode := (\<lambda>_. Some [1]),
      x_unborsh_transaction := (\<lambda>d. Some (if d = [2] then demo_ranked 5 0 else demo_ranked 1 1))\<rparr>"

lemma demo_ranking_fields:
  "x_blake3 demo_ranking = (\<lambda>d. if d \<noteq> [] \<and> last d = 5 then Hash 1 else Hash 7)"
  "x_borsh_tx_body demo_ranking = (\<lambda>(sender, action, fee, nonce, chain). Some [of_nat fee])"
  "x_hex_decode demo_ranking = (\<lambda>_. Some [1])"
  "x_unborsh_transaction demo_ranking = (\<lambda>d. Some (if d = [2] then demo_ranked 5 0 else demo_ranked 1 1))"
  "x_ed25519_key_valid demo_ranking = (\<lambda>_. True)" "x_ed25519_verify demo_ranking = (\<lambda>_ _ _. True)"
  "x_borsh_transaction demo_ranking = (\<lambda>_. Some [1, 2, 3])"
  by (simp_all add: demo_ranking_def demo_network_def demo_x_def node_externs.extend_def net_externs.fields_def)

lemma demo_ranked_fields [simp]:
  "tx_id (demo_ranked fee nonce) = ObjectId (Hash (if fee = 5 then 1 else 7))"
  "tx_sender (demo_ranked fee nonce) = ObjectId (Hash 7)" "tx_fee (demo_ranked fee nonce) = fee"
  "tx_nonce (demo_ranked fee nonce) = nonce"
  by (simp_all add: demo_ranked_def)

lemma demo_ranked_authentic: "authentic demo_ranking (demo_ranked 5 0) 1" "authentic demo_ranking (demo_ranked 1 1) 1"
  by (simp_all add: authentic_def demo_ranking_fields demo_ranked_def SIGNATURE_TYPE_ED25519_def)

lemma demo_ranked_verified:
  "verify_transaction demo_ranking (demo_ranked 5 0) MAINNET_CHAIN_ID = Inr ()"
  "verify_transaction demo_ranking (demo_ranked 1 1) MAINNET_CHAIN_ID = Inr ()"
  using demo_ranked_authentic verify_transaction_iff [of demo_ranking _ 1]
  by (metis MAINNET_CHAIN_ID_def is_ok_unit)+

lemma demo_gossiped:
  obtains p where "add_transaction demo_ranking (demo_ranked 5 0) 5 since 0 1 1 mempool_new = (Inr (), p)"
    "mp_entries p = [(ObjectId (Hash 1), \<lparr> me_transaction = demo_ranked 5 0, me_priority = 5, me_size = 3, me_submitted_at = since \<rparr>)]"
    "mp_counts p = [(ObjectId (Hash 7), 1)]" "mp_size p = 3"
proof -
  have "effective_min_fee 1 mempool_new = 1"
    by (simp add: effective_min_fee_def mempool_new_def MIN_FEE_def sat_mul64_def U64_MAX_def div_ceil_def)
  moreover have size: "mempool_tx_size demo_ranking (demo_ranked 5 0) = 3"
    by (simp add: mempool_tx_size_def demo_ranking_fields)
  moreover have none: "find_replacement (demo_ranked 5 0) mempool_new = None"
    by (simp add: find_replacement_def mempool_new_def)
  ultimately have "admissible demo_ranking (demo_ranked 5 0) 0 1 1 mempool_new"
    using demo_ranked_authentic(1) verify_for_mempool_iff [of demo_ranking]
    by (simp add: admissible_def none sender_count_def mempool_new_def MIN_FEE_def TX_MAX_SIZE_BYTES_def
        MEMPOOL_MAX_TXS_PER_ACCOUNT_def)
  from add_transaction_accept [OF mempool_wf_new this, of 5 since] size none
  have add: "add_transaction demo_ranking (demo_ranked 5 0) 5 since 0 1 1 mempool_new =
      (Inr (), inserted (demo_ranked 5 0) 5 since 3 mempool_new)"
    by (simp add: after_replacement_def room_made_def mempool_new_def MEMPOOL_MAX_SIZE_BYTES_def)
  show thesis
    by (rule that [OF add]) (simp_all add: inserted_def mempool_new_def hm_put_def sender_count_def)
qed

text \<open>The second transaction, sent over RPC into that pool.\<close>

lemma demo_sent:
  assumes "mp_entries p = [(ObjectId (Hash 1), \<lparr> me_transaction = demo_ranked 5 0, me_priority = 5, me_size = 3, me_submitted_at = since \<rparr>)]"
    "mp_counts p = [(ObjectId (Hash 7), 1)]" "mp_size p = 3" and "mempool_wf p"
  obtains q where "add_transaction demo_ranking (demo_ranked 1 1) prio at' 0 1 1 p = (Inr (), q)"
    "hm_get (mp_entries q) (ObjectId (Hash 1)) \<noteq> None"
proof -
  have "effective_min_fee 1 p = 1"
    using assms(3) by (simp add: effective_min_fee_def MIN_FEE_def sat_mul64_def U64_MAX_def div_ceil_def MAX_BLOCK_SIZE_BYTES_def)
  moreover have size: "mempool_tx_size demo_ranking (demo_ranked 1 1) = 3"
    by (simp add: mempool_tx_size_def demo_ranking_fields)
  moreover have none: "find_replacement (demo_ranked 1 1) p = None"
    using find_replacement_none [OF assms(4)] assms(1) by (simp add: conflicts_def hm_get_def)
  ultimately have "admissible demo_ranking (demo_ranked 1 1) 0 1 1 p"
    using demo_ranked_authentic(2) verify_for_mempool_iff [of demo_ranking] assms(1,2)
    by (simp add: admissible_def none sender_count_def MIN_FEE_def TX_MAX_SIZE_BYTES_def MAX_NONCE_GAP_def
        MEMPOOL_MAX_TXS_PER_ACCOUNT_def hm_get_def wrap_add64_def U64_MAX_def)
  from add_transaction_accept [OF assms(4) this, of prio at'] size none assms(3)
  have add: "add_transaction demo_ranking (demo_ranked 1 1) prio at' 0 1 1 p = (Inr (), inserted (demo_ranked 1 1) prio at' 3 p)"
    by (simp add: after_replacement_def room_made_def MEMPOOL_MAX_SIZE_BYTES_def)
  show thesis by (rule that [OF add]) (simp add: inserted_def assms(1) hm_put_def hm_get_def)
qed

text \<open>The first transaction, gossiped by a verified peer.\<close>

lemma demo_gossip_step:
  obtains pool s where "mempool_wf pool" "pool_of s = pool" "nt_info s = nt_info demo_loop"
    "ns_accounts (nt_node s) = ns_accounts demo_node" "mp_counts pool = [(ObjectId (Hash 7), 1)]" "mp_size pool = 3"
    "mp_entries pool = [(ObjectId (Hash 1), \<lparr> me_transaction = demo_ranked 5 0, me_priority = 5, me_size = 3, me_submitted_at = 90 \<rparr>)]"
    "process_step_may demo_ranking demo_env (Loop (NetEvent (GossipTransaction [2] ''a'')))
       (demo_process\<lparr>pr_net := demo_loop\<rparr>) [BroadcastTransaction [2]] (demo_process\<lparr>pr_net := s\<rparr>)"
proof -
  obtain pool where pool: "add_transaction demo_ranking (demo_ranked 5 0) 5 90 0 1 1 mempool_new = (Inr (), pool)"
    "mp_entries pool = [(ObjectId (Hash 1), \<lparr> me_transaction = demo_ranked 5 0, me_priority = 5, me_size = 3, me_submitted_at = 90 \<rparr>)]"
    "mp_counts pool = [(ObjectId (Hash 7), 1)]" "mp_size pool = 3" by (rule demo_gossiped)
  define s where "s = demo_loop\<lparr>nt_rate_limits := [(''a'', (peer_rate_limit_new 0)\<lparr>rl_tx_count := 1\<rparr>)]\<rparr>"
  define t where "t = on_node (\<lambda>n. n\<lparr>ns_mempool := pool\<rparr>) s"
  have counted: "count_tx 0 ''a'' k demo_loop = (True, s)" if "0 < k" for k
    using that by (simp add: count_tx_def demo_loop_def s_def hm_get_def hm_put_def peer_rate_limit_new_def maybe_reset_def Let_def)
  have node: "ns_accounts (nt_node s) = ns_accounts demo_node" "cs_suggested_fee (ns_chain (nt_node s)) = 1"
    "ns_mempool (nt_node s) = mempool_new"
    by (simp_all add: s_def demo_loop_def demo_node_def demo_chain_def)
  have nonce: "(case get_account (ns_accounts demo_node) (ObjectId (Hash 7)) of None \<Rightarrow> 0 | Some a \<Rightarrow> acc_nonce a) = 0"
    by (simp add: demo_node_def get_account_def hm_get_def account_new_def)
  have "admit_gossip_tx demo_ranking 90 [2] (demo_ranked 5 0) s = ([BroadcastTransaction [2]], t)"
    using pool(1) by (simp add: admit_gossip_tx_def node nonce MAINNET_CHAIN_ID_def Let_def t_def)
  then have "run_step demo_ranking demo_env (NetEvent (GossipTransaction [2] ''a'')) demo_loop =
      Some ([BroadcastTransaction [2]], t)"
    using counted [of MAX_TXS_PER_PEER_PER_SECOND] counted [of "MAX_TXS_PER_PEER_PER_SECOND * 2"]
    by (simp add: run_step_def handle_network_event_def handle_gossip_transaction_def Let_def demo_env_def
        demo_ranking_fields demo_ranked_verified TX_MAX_SIZE_BYTES_def MAX_TXS_PER_PEER_PER_SECOND_def)
      (simp add: demo_loop_def)
  then have "process_step_may demo_ranking demo_env (Loop (NetEvent (GossipTransaction [2] ''a'')))
      (demo_process\<lparr>pr_net := demo_loop\<rparr>) [BroadcastTransaction [2]] ((demo_process\<lparr>pr_net := demo_loop\<rparr>)\<lparr>pr_net := t\<rparr>)"
    by (intro step_loop) simp
  moreover have "mempool_wf pool" by (rule add_transaction_wf [OF mempool_wf_new pool(1)])
  ultimately show thesis using pool(2-4) by (intro that [of pool t]) (simp_all add: t_def on_node_def node, simp add: s_def)
qed

theorem rpc_transactions_overtake_gossip_witness:
  "\<exists>p xs ys zs. mixed_run demo_ranking {demo_ranked 5 0} {demo_ranked 1 1} p \<and>
     get_ordered_transactions (ns_mempool (nt_node (pr_net p))) = xs @ demo_ranked 1 1 # ys @ demo_ranked 5 0 # zs"
proof -
  obtain pool s where g: "mempool_wf pool" "pool_of s = pool" "nt_info s = nt_info demo_loop"
    "ns_accounts (nt_node s) = ns_accounts demo_node" "mp_counts pool = [(ObjectId (Hash 7), 1)]" "mp_size pool = 3"
    "mp_entries pool = [(ObjectId (Hash 1), \<lparr> me_transaction = demo_ranked 5 0, me_priority = 5, me_size = 3, me_submitted_at = 90 \<rparr>)]"
    "process_step_may demo_ranking demo_env (Loop (NetEvent (GossipTransaction [2] ''a'')))
       (demo_process\<lparr>pr_net := demo_loop\<rparr>) [BroadcastTransaction [2]] (demo_process\<lparr>pr_net := s\<rparr>)"
    by (rule demo_gossip_step)
  have "pool_of (pr_net (demo_process\<lparr>pr_net := demo_loop\<rparr>)) = mempool_new" by (simp add: demo_loop_def demo_node_def)
  from mixed_step [OF mixed_start [OF this] g(8)]
  have run: "mixed_run demo_ranking {demo_ranked 5 0} {} (demo_process\<lparr>pr_net := s\<rparr>)"
    by (simp add: gossiped_def demo_ranking_fields)
  obtain q where q: "add_transaction demo_ranking (demo_ranked 1 1) (rpc_priority 1 1) 90 0 1 1 pool = (Inr (), q)"
    "hm_get (mp_entries q) (ObjectId (Hash 1)) \<noteq> None" by (rule demo_sent [OF g(7,5,6,1)])
  let ?st = "rpc_state_new s (ObjectId (Hash 7)) None"
  have fields: "rv_accounts ?st = ns_accounts demo_node" "rv_mempool ?st = pool" "rv_net ?st = s" "ci_suggested_fee (rv_info ?st) = 1"
    by (simp_all add: rv_accounts_def rv_mempool_def rv_info_def rpc_state_new_def g(2-4))
      (simp add: demo_loop_def chain_state_to_info_def demo_node_def demo_chain_def)
  have nonce: "(case get_account (ns_accounts demo_node) (ObjectId (Hash 7)) of None \<Rightarrow> 0 | Some a \<Rightarrow> acc_nonce a) = 0"
    by (simp add: demo_node_def get_account_def hm_get_def account_new_def)
  have decode: "and_then (require_string_param (JArray [JString ''00'']) ''data'') (decode_verified_rpc_transaction demo_ranking)
      = Inr (demo_ranked 1 1, 1)"
    by (simp add: require_string_param_def decode_verified_rpc_transaction_def demo_ranking_fields TX_MAX_SIZE_BYTES_def
        demo_ranked_verified del: One_nat_def)
  obtain v st' where send: "handle_send_transaction demo_ranking 90 ?st (JArray [JString ''00'']) = (Inr v, st')"
    "rv_mempool st' = q"
    using q(1) by (simp add: handle_send_transaction_def decode fields(1,2,4) nonce MAINNET_CHAIN_ID_def Let_def del: One_nat_def)
      (simp add: rv_mempool_def on_node_def)
  let ?p = "demo_process\<lparr>pr_net := rv_net st'\<rparr>"
  have "sent_over_rpc demo_ranking (JArray [JString ''00'']) = {demo_ranked 1 1}"
    unfolding sent_over_rpc_def decode by auto
  then have mixed: "mixed_run demo_ranking {demo_ranked 5 0} {demo_ranked 1 1} ?p"
    using mixed_send [OF run _ send(1)] fields(3) by simp
  have differ: "demo_ranked 1 1 \<noteq> demo_ranked 5 0" by (metis demo_ranked_fields(4) zero_neq_one)
  have q': "pool_of (pr_net ?p) = q" using send(2) by (simp add: rv_mempool_def)
  have wf: "mempool_wf q" by (rule add_transaction_wf [OF g(1) q(1)])
  note entry = admitted_entry [OF g(1) q(1)]
  obtain e where e: "hm_get (mp_entries q) (ObjectId (Hash 1)) = Some e" using q(2) by blast
  have "me_transaction e = demo_ranked 5 0" using entry(2) [OF _ e] by (auto simp: g(7) hm_get_def)
  then have listed: "demo_ranked 5 0 \<in> set (get_ordered_transactions q)" "demo_ranked 1 1 \<in> set (get_ordered_transactions q)"
    using e entry(1) unfolding pooled [OF wf] by (metis, force)
  have "demo_ranked 1 1 \<notin> {demo_ranked 5 0}" "demo_ranked 5 0 \<notin> {demo_ranked 1 1}"
    "tx_fee (demo_ranked 5 0) < 10 * tx_fee (demo_ranked 1 1)" "10 * tx_fee (demo_ranked 1 1) \<le> U64_MAX"
    using differ by (auto simp: U64_MAX_def)
  from rpc_transactions_overtake_gossip [OF mixed listed(2) [folded q'] this(1) listed(1) [folded q'] this(2-4)] mixed
  show ?thesis by blast
qed

theorem mining_job_agrees_with_template_witness:
  "\<exists>j. handle_get_mining_job demo_network 30 (rpc_state_new demo_loop (ObjectId (Hash 7)) None) = Inr (VJob j) \<and>
     (\<forall>b later. bh_timestamp (blk_header b) = mjr_timestamp j \<longrightarrow>
        (\<exists>e. apply_block demo_network later b demo_node = Some (Inl e, demo_node)))"
proof -
  let ?st = "rpc_state_new demo_loop (ObjectId (Hash 7)) None"
  obtain j where j: "handle_get_mining_job demo_network 30 ?st = Inr (VJob j)"
    by (simp add: handle_get_mining_job_def hash_zero_def job_header_def Let_def compute_evidence_root_def
      compute_attestation_root_def compute_genesis_ceremony_hash_def demo_network_fields rpc_state_new_def)
  have "info_ok (rv_net ?st)" "nt_node (rv_net ?st) = demo_node" "rv_miner_id ?st = ns_miner_id demo_node"
    "cs_current_height (ns_chain demo_node) < U64_MAX" "(30 :: nat) < sat_add64 (last_timestamp demo_node) 45"
    by (simp_all add: rpc_state_new_def demo_loop_def info_ok_def Let_def demo_node_def demo_chain_def U64_MAX_def
        chain_state_to_info_def last_timestamp_def sat_add64_def)
  with mining_job_agrees_with_template [OF j] j show ?thesis by blast
qed

end
