(* ===== verification/Rpc_Relay.thy ===== *)
theory Rpc_Relay
  imports Rpc_Node
begin

text \<open>
  What the node relays: a transaction is sent to the network only when it has just come from it.
\<close>

definition tx_silent :: "network_command list \<Rightarrow> bool" where
  "tx_silent cs \<longleftrightarrow> (\<forall>d. BroadcastTransaction d \<notin> set cs)"

lemma tx_silent_simps [simp]:
  "tx_silent []" "tx_silent (c # cs) \<longleftrightarrow> (\<forall>d. c \<noteq> BroadcastTransaction d) \<and> tx_silent cs"
  by (auto simp: tx_silent_def)

lemma tx_silent_bans [simp]:
  "tx_silent (fst (ban_and_forget now p reason perm s))" "tx_silent (fst (ban_for_tx now p reason perm s))"
  "tx_silent (fst (strike_peer now p r s))" "tx_silent (fst (reject_gossip_tx now p err s))"
  by (simp_all add: ban_and_forget_def ban_for_tx_def strike_peer_def reject_gossip_tx_def Let_def)

lemma tx_silent_pairs:
  "ban_and_forget now p reason perm s = (cs, t) \<Longrightarrow> tx_silent cs" "strike_peer now p r s = (cs, t) \<Longrightarrow> tx_silent cs"
  by (metis tx_silent_bans(1) fst_conv) (metis tx_silent_bans(3) fst_conv)

lemma tx_silent_block: "handle_gossip_block X e data p s = Some (cs, t) \<Longrightarrow> tx_silent cs"
  unfolding handle_gossip_block_def apply_gossip_block_def local_block_attestation_def Let_def
  by (auto dest: tx_silent_pairs split: if_split_asm prod.split_asm bool.split_asm option.split_asm pow_precheck.split_asm
      sum.split_asm)

lemma tx_silent_event:
  assumes "handle_network_event X e ev s = Some (cs, t)" and "\<And>d p. ev \<noteq> GossipTransaction d p"
  shows "tx_silent cs"
proof (cases ev)
  case (GossipAttestation data p)
  then show ?thesis using assms(1)
    by (auto simp: handle_network_event_def handle_gossip_attestation_def split: if_split_asm option.split_asm prod.split_asm)
next
  case (PeerConnected p addr)
  then show ?thesis using assms(1)
    by (auto simp: handle_network_event_def handle_peer_connected_def Let_def split: if_split_asm option.split_asm)
next
  case (PeerIdentified p protocol agent)
  then show ?thesis using assms(1)
    by (auto simp: handle_network_event_def handle_peer_identified_def split: if_split_asm option.split_asm)
next
  case (SyncRequestReceived p i r)
  then show ?thesis using assms(1)
    by (auto simp: handle_network_event_def handle_sync_request_def Let_def split: if_split_asm prod.split_asm)
next
  case (ChallengeResponseReceived p v)
  then show ?thesis using assms(1)
    by (auto simp: handle_network_event_def handle_challenge_response_def Let_def split: if_split_asm option.split_asm prod.split_asm)
qed (use assms tx_silent_block in \<open>auto simp: handle_network_event_def handle_challenge_request_def handle_sync_response_def
       split: if_split_asm\<close>)

lemma tx_silent_tick: "check_challenges e s = (cs, t) \<Longrightarrow> tx_silent cs"
  by (auto simp: check_challenges_def Let_def tx_silent_def)

lemma relayed_transaction:
  assumes "handle_gossip_transaction X e data p s = (cs, t)" and "BroadcastTransaction d \<in> set cs"
  shows "d = data \<and> p \<in> set (nt_verified s) \<and> (\<exists>tx. x_unborsh_transaction X d = Some tx \<and>
     verify_transaction X tx MAINNET_CHAIN_ID = Inr ())"
proof -
  have silent: False if "reject_gossip_tx now q err s' = (cs, t)" for now q err s'
    using that assms(2) tx_silent_bans(4) [of now q err s'] by (simp add: tx_silent_def)
  have same: "d = data" if "admit_gossip_tx X now data tx s' = (cs, t)" for now tx s'
    using that assms(2) by (auto simp: admit_gossip_tx_def Let_def split: if_split_asm prod.split_asm sum.split_asm)
  show ?thesis
    using assms unfolding handle_gossip_transaction_def Let_def
    by (auto dest: silent same split: if_split_asm prod.split_asm bool.split_asm option.split_asm sum.split_asm)
qed

text \<open>
  C27: transactions sent over RPC stay local. The process sends a transaction to the network only in the
  step that handles its gossip from a verified peer, after verifying it; no other step, and so none of
  the RPC server, does. A transaction submitted to a node reaches a block only when that node produces one.
\<close>

theorem rpc_transactions_stay_local:
  fixes X :: "'x net_externs_scheme"
  assumes "process_step_may X e st p cs p'" and "BroadcastTransaction d \<in> set cs"
  shows "\<exists>peer tx. st = Loop (NetEvent (GossipTransaction d peer)) \<and> peer \<in> set (nt_verified (pr_net p)) \<and>
     x_unborsh_transaction X d = Some tx \<and> verify_transaction X tx MAINNET_CHAIN_ID = Inr ()"
  using assms(1)
proof (cases rule: process_step_may.cases)
  case (step_loop st0 s)
  show ?thesis
  proof (cases st0)
    case (NetEvent ev)
    then have run: "handle_network_event X e ev (pr_net p) = Some (cs, s)" using step_loop by (simp add: run_step_def)
    have "\<not> tx_silent cs" using assms(2) by (auto simp: tx_silent_def)
    then obtain data peer where ev: "ev = GossipTransaction data peer" using tx_silent_event [OF run] by blast
    then have "handle_gossip_transaction X e data peer (pr_net p) = (cs, s)"
      using run by (simp add: handle_network_event_def)
    from relayed_transaction [OF this assms(2)] show ?thesis using step_loop(1) NetEvent ev by auto
  next
    case ChallengeTick
    then have "check_challenges e (pr_net p) = (cs, s)" using step_loop by (simp add: run_step_def)
    from tx_silent_tick [OF this] assms(2) show ?thesis by (simp add: tx_silent_def)
  next
    case EvictTick
    then show ?thesis using step_loop assms(2) by (simp add: run_step_def)
  qed
qed (use assms(2) in \<open>auto simp: broadcast_next_block_def broadcast_next_attestation_def split: list.splits\<close>)

text \<open>A gossiped transaction that is relayed.\<close>

theorem rpc_transactions_stay_local_witness:
  "\<exists>p' cs. process_step_may demo_ranking demo_env (Loop (NetEvent (GossipTransaction [2] ''a'')))
     (demo_process\<lparr>pr_net := demo_loop\<rparr>) cs p' \<and> BroadcastTransaction [2] \<in> set cs \<and>
     verify_transaction demo_ranking (demo_ranked 5 0) MAINNET_CHAIN_ID = Inr ()"
proof -
  obtain s where step: "process_step_may demo_ranking demo_env (Loop (NetEvent (GossipTransaction [2] ''a'')))
       (demo_process\<lparr>pr_net := demo_loop\<rparr>) [BroadcastTransaction [2]] (demo_process\<lparr>pr_net := s\<rparr>)"
    by (rule demo_gossip_step)
  have "verify_transaction demo_ranking (demo_ranked 5 0) MAINNET_CHAIN_ID = Inr ()"
    using rpc_transactions_stay_local [OF step, of "[2]"] by (auto simp: demo_ranking_fields)
  with step show ?thesis by (intro exI conjI) auto
qed

end
