(* ===== verification/Wallet.thy ===== *)
theory Wallet
  imports Jsonrpc Text
begin

text \<open>
  The wallet, \<open>crates/wallet/src\<close>: mnemonics and key derivation (\<open>bip39.rs\<close>), keys and key files
  (\<open>key.rs\<close>), named accounts (\<open>account.rs\<close>), signing (\<open>signing.rs\<close>) and the command line
  (\<open>main.rs\<close>). HMAC, BIP-39, ed25519 and the URL parser are third-party: fields of the record of
  parameters. Random bytes are arguments; the key directory is a map from paths to contents.
\<close>

unbundle bit_operations_syntax

record wallet_externs = net_externs +
  x_hmac_sha512 :: "byte list \<Rightarrow> byte list \<Rightarrow> byte list"
  x_mnemonic_parse :: "string \<Rightarrow> string list option"
  x_mnemonic_seed :: "string list \<Rightarrow> string \<Rightarrow> byte list"
  x_url_parse :: "string \<Rightarrow> (string \<times> string option) option"

datatype wallet_error =
    KeyGeneration message
  | Signing message
  | Verification message
  | KeyNotFound message
  | IoError message
  | MnemonicError message

fun wallet_error_to_string :: "wallet_error \<Rightarrow> message" where
  "wallet_error_to_string (KeyGeneration s) = Fmt (STR ''Key generation error: {}'') [AMsg s]"
| "wallet_error_to_string (Signing s) = Fmt (STR ''Signing error: {}'') [AMsg s]"
| "wallet_error_to_string (Verification s) = Fmt (STR ''Verification error: {}'') [AMsg s]"
| "wallet_error_to_string (KeyNotFound s) = Fmt (STR ''Key not found: {}'') [AMsg s]"
| "wallet_error_to_string (IoError s) = Fmt (STR ''IO error: {}'') [AMsg s]"
| "wallet_error_to_string (MnemonicError s) = Fmt (STR ''Mnemonic error: {}'') [AMsg s]"

section \<open>Key pairs\<close>

record key_pair =
  kp_seed :: "byte list"
  kp_public_key :: "byte list"
  kp_object_id :: object_id

definition key_pair_from_seed :: "'x node_externs_scheme \<Rightarrow> byte list \<Rightarrow> key_pair" where
  "key_pair_from_seed X seed =
     (let pk = x_ed25519_public_key X seed in
      \<lparr> kp_seed = seed, kp_public_key = pk, kp_object_id = hash_to_object_id X pk \<rparr>)"

text \<open>A random seed from the operating system.\<close>

definition key_pair_generate :: "'x node_externs_scheme \<Rightarrow> byte list \<Rightarrow> key_pair" where
  "key_pair_generate X random = key_pair_from_seed X random"

definition key_pair_from_bytes :: "'x node_externs_scheme \<Rightarrow> byte list \<Rightarrow> key_pair option" where
  "key_pair_from_bytes X bytes = Some (key_pair_from_seed X bytes)"

definition key_pair_sign :: "'x node_externs_scheme \<Rightarrow> key_pair \<Rightarrow> byte list \<Rightarrow> byte list" where
  "key_pair_sign X k msg = x_ed25519_sign X (kp_seed k) msg"

definition key_pair_verify :: "'x node_externs_scheme \<Rightarrow> key_pair \<Rightarrow> byte list \<Rightarrow> byte list \<Rightarrow> bool" where
  "key_pair_verify X k msg signature =
     (if length signature \<noteq> 64 then False else x_ed25519_verify X (kp_public_key k) msg signature)"

definition key_pair_to_bytes :: "key_pair \<Rightarrow> byte list" where
  "key_pair_to_bytes k = kp_seed k"

section \<open>Key files\<close>

type_synonym files = "(string, byte list) hash_map"

text \<open>
  What the operating system does with a new key file: everything, or it fails to create the file, to
  restrict it, whereupon the file is removed, or to write it, which leaves a part of the contents.
\<close>

datatype os_outcome = OsDone | CreateFails | RestrictFails | WriteFails "byte list"

definition write_private_key_file :: "os_outcome \<Rightarrow> string \<Rightarrow> byte list \<Rightarrow> files \<Rightarrow> (message + unit) \<times> files" where
  "write_private_key_file os path key_bytes fs =
     (case hm_get fs path of
        Some _ \<Rightarrow> (Inl (Fmt (STR ''File exists'') []), fs)
      | None \<Rightarrow>
          (case os of
             OsDone \<Rightarrow> (Inr (), hm_put path key_bytes fs)
           | CreateFails \<Rightarrow> (Inl (Fmt (STR ''os error'') []), fs)
           | RestrictFails \<Rightarrow> (Inl (Fmt (STR ''os error'') []), fs)
           | WriteFails written \<Rightarrow> (Inl (Fmt (STR ''os error'') []), hm_put path written fs)))"

definition write_key_file :: "os_outcome \<Rightarrow> string \<Rightarrow> key_pair \<Rightarrow> files \<Rightarrow> (wallet_error + unit) \<times> files" where
  "write_key_file os path k fs = apfst (map_err IoError) (write_private_key_file os path (key_pair_to_bytes k) fs)"

record wallet =
  wl_keys :: "(object_id, key_pair) hash_map"
  wl_keys_dir :: string

definition wallet_new :: "string \<Rightarrow> wallet" where
  "wallet_new keys_dir = \<lparr> wl_keys = [], wl_keys_dir = keys_dir \<rparr>"

definition create_account ::
  "'x node_externs_scheme \<Rightarrow> byte list \<Rightarrow> os_outcome \<Rightarrow> string \<Rightarrow> wallet \<Rightarrow> files \<Rightarrow>
   (wallet_error + object_id) \<times> wallet \<times> files" where
  "create_account X random os name w fs =
     (let keypair = key_pair_generate X random;
          i = kp_object_id keypair;
          key_path = wl_keys_dir w @ ''/'' @ name @ ''_'' @ take 16 (object_id_to_hex X i) @ ''.key''
      in case write_private_key_file os key_path (key_pair_to_bytes keypair) fs of
           (Inl e, fs1) \<Rightarrow> (Inl (IoError e), w, fs1)
         | (Inr _, fs1) \<Rightarrow> (Inr i, w\<lparr>wl_keys := hm_put i keypair (wl_keys w)\<rparr>, fs1))"

definition wallet_get_account :: "wallet \<Rightarrow> object_id \<Rightarrow> key_pair option" where
  "wallet_get_account w i = hm_get (wl_keys w) i"

definition wallet_list_accounts :: "wallet \<Rightarrow> object_id list" where
  "wallet_list_accounts w = map fst (wl_keys w)"

section \<open>Named accounts\<close>

record account_info =
  ai_object_id :: object_id
  ai_name :: string
  ai_public_key_hex :: string

record named_accounts =
  na_accounts :: "(object_id, account_info) hash_map"
  na_names :: "(string, object_id) hash_map"

definition named_accounts_new :: named_accounts where
  "named_accounts_new = \<lparr> na_accounts = [], na_names = [] \<rparr>"

definition add_account :: "string \<Rightarrow> object_id \<Rightarrow> string \<Rightarrow> named_accounts \<Rightarrow> named_accounts" where
  "add_account name i public_key_hex s =
     (let info = \<lparr> ai_object_id = i, ai_name = name, ai_public_key_hex = public_key_hex \<rparr> in
      \<lparr> na_accounts = hm_put i info (na_accounts s), na_names = hm_put name i (na_names s) \<rparr>)"

definition get_by_object_id :: "object_id \<Rightarrow> named_accounts \<Rightarrow> account_info option" where
  "get_by_object_id i s = hm_get (na_accounts s) i"

definition get_by_name :: "string \<Rightarrow> named_accounts \<Rightarrow> object_id option" where
  "get_by_name name s = hm_get (na_names s) name"

definition list_named_accounts :: "named_accounts \<Rightarrow> account_info list" where
  "list_named_accounts s = map snd (na_accounts s)"

section \<open>Mnemonics and derivation\<close>

definition OPOLYS_COIN_TYPE :: "32 word" where "OPOLYS_COIN_TYPE = 999"
definition BIP44_PURPOSE :: "32 word" where "BIP44_PURPOSE = 44"
definition MNEMONIC_WORDS :: nat where "MNEMONIC_WORDS = 24"
definition SLIP10_MASTER_KEY :: "byte list" where "SLIP10_MASTER_KEY = ascii ''ed25519 seed''"

definition mnemonic_from_words :: "'x wallet_externs_scheme \<Rightarrow> string \<Rightarrow> wallet_error + string list" where
  "mnemonic_from_words X phrase =
     (case x_mnemonic_parse X phrase of
        None \<Rightarrow> Inl (MnemonicError (Fmt (STR ''Invalid mnemonic: {}'') []))
      | Some ws \<Rightarrow>
          if length ws \<noteq> MNEMONIC_WORDS
          then Inl (MnemonicError (Fmt (STR ''Expected {} words, got {}'') [ANat MNEMONIC_WORDS, ANat (length ws)]))
          else Inr ws)"

record derivation_path =
  dp_purpose :: "32 word"
  dp_coin_type :: "32 word"
  dp_account :: "32 word"

definition path_indices :: "derivation_path \<Rightarrow> 32 word list" where
  "path_indices p = [0x80000000 OR dp_purpose p, 0x80000000 OR dp_coin_type p, 0x80000000 OR dp_account p, 0x80000000]"

definition slip10_master_key :: "'x wallet_externs_scheme \<Rightarrow> byte list \<Rightarrow> byte list \<times> byte list" where
  "slip10_master_key X seed =
     (let result = x_hmac_sha512 X SLIP10_MASTER_KEY seed in (take 32 result, take 32 (drop 32 result)))"

fun slip10_children ::
  "'x wallet_externs_scheme \<Rightarrow> 32 word list \<Rightarrow> byte list \<times> byte list \<Rightarrow> byte list \<times> byte list" where
  "slip10_children X [] kc = kc"
| "slip10_children X (i # is) (key, chain_code) =
     (let result = x_hmac_sha512 X chain_code ([0] @ key @ be_bytes 4 (unat i))
      in slip10_children X is (take 32 result, take 32 (drop 32 result)))"

definition slip10_derive_ed25519_indices ::
  "'x wallet_externs_scheme \<Rightarrow> byte list \<Rightarrow> 32 word list \<Rightarrow> byte list \<times> byte list" where
  "slip10_derive_ed25519_indices X seed is = slip10_children X is (slip10_master_key X seed)"

definition slip10_derive_ed25519 ::
  "'x wallet_externs_scheme \<Rightarrow> byte list \<Rightarrow> derivation_path \<Rightarrow> byte list \<times> byte list" where
  "slip10_derive_ed25519 X seed p = slip10_derive_ed25519_indices X seed (path_indices p)"

definition derive_keypair :: "'x wallet_externs_scheme \<Rightarrow> byte list \<Rightarrow> 32 word \<Rightarrow> key_pair" where
  "derive_keypair X seed account_index =
     (let path = \<lparr> dp_purpose = BIP44_PURPOSE, dp_coin_type = OPOLYS_COIN_TYPE, dp_account = account_index \<rparr>
      in case slip10_derive_ed25519 X seed path of (private_key, chain_code) \<Rightarrow> key_pair_from_seed X private_key)"

section \<open>Signing\<close>

definition signer_tx_id ::
  "'x externs_scheme \<Rightarrow> object_id \<Rightarrow> transaction_action \<Rightarrow> nat \<Rightarrow> nat \<Rightarrow> nat \<Rightarrow> opolys_error + object_id" where
  "signer_tx_id X sender action fee nonce chain_id =
     and_then
       (ok_or (x_borsh_tx_body X (sender, action, fee, nonce, chain_id))
          (SerializationError (Fmt (STR ''Transaction ID serialization failed: {}'') [])))
       (\<lambda>d. Inr (hash_to_object_id_with_domain X DOMAIN_TX_ID d))"

text \<open>The three constructors of the signer differ in the action only.\<close>

definition signed_transaction ::
  "'x node_externs_scheme \<Rightarrow> key_pair \<Rightarrow> transaction_action \<Rightarrow> nat \<Rightarrow> nat \<Rightarrow> nat \<Rightarrow> opolys_error + transaction" where
  "signed_transaction X sender action fee nonce chain_id =
     (let sender_id = kp_object_id sender in
      and_then (signer_tx_id X sender_id action fee nonce chain_id) (\<lambda>i.
      and_then (transaction_signing_payload X sender_id action fee nonce chain_id) (\<lambda>unsigned_data.
        Inr \<lparr> tx_id = i, tx_sender = sender_id, tx_action = action, tx_fee = fee,
              tx_signature = key_pair_sign X sender unsigned_data, tx_signature_type = SIGNATURE_TYPE_ED25519,
              tx_nonce = nonce, tx_chain_id = chain_id, tx_data = [], tx_public_key = kp_public_key sender \<rparr>)))"

definition create_transfer ::
  "'x node_externs_scheme \<Rightarrow> key_pair \<Rightarrow> object_id \<Rightarrow> nat \<Rightarrow> nat \<Rightarrow> nat \<Rightarrow> nat \<Rightarrow> opolys_error + transaction" where
  "create_transfer X sender rcpt amount fee nonce chain_id =
     signed_transaction X sender (Transfer rcpt amount) fee nonce chain_id"

definition create_refiner_bond ::
  "'x node_externs_scheme \<Rightarrow> key_pair \<Rightarrow> nat \<Rightarrow> nat \<Rightarrow> nat \<Rightarrow> nat \<Rightarrow> opolys_error + transaction" where
  "create_refiner_bond X sender amount fee nonce chain_id =
     signed_transaction X sender (RefinerBond amount) fee nonce chain_id"

definition create_refiner_unbond ::
  "'x node_externs_scheme \<Rightarrow> key_pair \<Rightarrow> nat \<Rightarrow> nat \<Rightarrow> nat \<Rightarrow> nat \<Rightarrow> opolys_error + transaction" where
  "create_refiner_unbond X sender amount fee nonce chain_id =
     signed_transaction X sender (RefinerUnbond amount) fee nonce chain_id"

section \<open>Amounts and addresses\<close>

text \<open>\<open>str::parse::<u64>\<close>: an optional plus sign, digits, at most the maximum.\<close>

definition parse_u64 :: "string \<Rightarrow> nat option" where
  "parse_u64 s =
     (let ds = (case s of [] \<Rightarrow> [] | c # t \<Rightarrow> if c = CHR ''+'' then t else s) in
      if ds \<noteq> [] \<and> (\<forall>c \<in> set ds. is_digit c) \<and> digits_value ds \<le> U64_MAX then Some (digits_value ds) else None)"

definition parse_opl_amount :: "string \<Rightarrow> message + nat" where
  "parse_opl_amount s =
     (case split_at (CHR ''.'') s of
        [whole_str] \<Rightarrow>
          and_then (ok_or (parse_u64 whole_str) (Fmt (STR ''Invalid amount: {}'') [])) (\<lambda>whole.
            ok_or (checked_mul64 whole FLAKES_PER_OPL) (Fmt (STR ''Amount is too large'') []))
      | [whole_str, frac_str] \<Rightarrow>
          and_then (ok_or (parse_u64 whole_str) (Fmt (STR ''Invalid whole amount: {}'') [])) (\<lambda>whole.
            if 6 < length frac_str then Inl (Fmt (STR ''Too many decimal places (max 6)'') [])
            else
              and_then (ok_or (parse_u64 (frac_str @ replicate (6 - length frac_str) CHR ''0''))
                  (Fmt (STR ''Invalid fraction: {}'') [])) (\<lambda>frac.
                case checked_mul64 whole FLAKES_PER_OPL of
                  None \<Rightarrow> Inl (Fmt (STR ''Amount is too large'') [])
                | Some base \<Rightarrow> ok_or (checked_add64 base frac) (Fmt (STR ''Amount is too large'') [])))
      | _ \<Rightarrow> Inl (Fmt (STR ''Invalid amount format'') []))"

definition format_flakes :: "nat \<Rightarrow> string" where
  "format_flakes flakes = show_nat (flakes div FLAKES_PER_OPL) @ ''.'' @ pad_zeros 6 (show_nat (flakes mod FLAKES_PER_OPL)) @ '' OPL''"

definition object_id_from_hex :: "'x externs_scheme \<Rightarrow> string \<Rightarrow> message + object_id" where
  "object_id_from_hex X hex =
     (if length hex \<noteq> 64 then Inl (Fmt (STR ''ObjectId hex must be 64 characters, got {}'') [ANat (length hex)])
      else (case x_hex_decode X hex of
         None \<Rightarrow> Inl (Fmt (STR ''Invalid hex: {}'') [])
       | Some bytes \<Rightarrow>
           if length bytes \<noteq> 32 then Inl (Fmt (STR ''ObjectId must be 32 bytes, got {}'') [ANat (length bytes)])
           else Inr (ObjectId (hash_from_bytes bytes))))"

definition is_loopback_host :: "string \<Rightarrow> bool" where
  "is_loopback_host host \<longleftrightarrow>
     map lower_char host = ''localhost'' \<or> host = ''127.0.0.1'' \<or> host = ''::1'' \<or> host = ''[::1]''"

definition validate_rpc_url :: "'x wallet_externs_scheme \<Rightarrow> string \<Rightarrow> message + unit" where
  "validate_rpc_url X rpc_url =
     (case x_url_parse X rpc_url of
        None \<Rightarrow> Inl (Fmt (STR ''Invalid RPC URL: {}'') [])
      | Some (scheme, host_str) \<Rightarrow>
          if scheme = ''https'' then Inr ()
          else if scheme = ''http''
          then (case host_str of
                  None \<Rightarrow> Inl (Fmt (STR ''RPC URL is missing a host'') [])
                | Some host \<Rightarrow>
                    if is_loopback_host host then Inr ()
                    else Inl (Fmt (STR ''Refusing non-loopback http:// RPC URL '{}'. Use https:// for remote RPC endpoints.'')
                           [AStr rpc_url]))
          else Inl (Fmt (STR ''Unsupported RPC URL scheme '{}'. Use http:// for local loopback or https:// for remote RPC.'')
                 [AStr scheme]))"

end
