(* ===== verification/Wallet_Cli.thy ===== *)
theory Wallet_Cli
  imports Wallet
begin

text \<open>
  The command line of the wallet, \<open>crates/wallet/src/main.rs\<close>: the requests it makes to a node's RPC
  server, what it reads from the answers, and every command. The transport, the mnemonic's source and
  the operating system are the fields of \<open>cli_env\<close>.
\<close>

section \<open>Answers of the server\<close>

fun json_get :: "json \<Rightarrow> string \<Rightarrow> json option" where
  "json_get (JObject kvs) k = map_of kvs k"
| "json_get _ k = None"

text \<open>The error of a response, unless it is absent or null.\<close>

definition rpc_error :: "json \<Rightarrow> json option" where
  "rpc_error body =
     (case json_get body ''error'' of
        None \<Rightarrow> None
      | Some e \<Rightarrow> if e = JNull then None else Some e)"

type_synonym rpc_post = "string \<Rightarrow> json list \<Rightarrow> string option \<Rightarrow> message + json"

definition query_u64 ::
  "rpc_post \<Rightarrow> string \<Rightarrow> json list \<Rightarrow> string \<Rightarrow> String.literal \<Rightarrow> String.literal \<Rightarrow> message + nat" where
  "query_u64 post m params field failed missing =
     and_then (post m params None) (\<lambda>body.
       case rpc_error body of
         Some e \<Rightarrow> Inl (Fmt failed [])
       | None \<Rightarrow>
           and_then (ok_or (json_get body ''result'') (Fmt (STR ''No result in RPC response'') [])) (\<lambda>result.
             ok_or (Option.bind (json_get result field) json_as_u64) (Fmt missing [])))"

definition query_nonce :: "rpc_post \<Rightarrow> string \<Rightarrow> message + nat" where
  "query_nonce post address =
     query_u64 post ''opl_getAccount'' [JString address] ''nonce''
       (STR ''RPC error while querying account nonce: {}'') (STR ''No nonce in account response'')"

definition query_suggested_fee :: "rpc_post \<Rightarrow> message + nat" where
  "query_suggested_fee post =
     and_then (query_u64 post ''opl_getChainInfo'' [] ''suggested_fee''
         (STR ''RPC error while querying suggested fee: {}'') (STR ''No suggested_fee in chain info response''))
       (\<lambda>suggested_fee. Inr (max suggested_fee MIN_FEE))"

definition query_minimum_refiner_bond :: "rpc_post \<Rightarrow> message + nat" where
  "query_minimum_refiner_bond post =
     query_u64 post ''opl_getChainInfo'' [] ''minimum_refiner_bond_flakes''
       (STR ''RPC error while querying refiner bond minimum: {}'')
       (STR ''No minimum_refiner_bond_flakes in chain info response'')"

text \<open>The result of a response, or the whole body when it has none.\<close>

definition query_result :: "rpc_post \<Rightarrow> string \<Rightarrow> json list \<Rightarrow> string option \<Rightarrow> String.literal \<Rightarrow> message + json" where
  "query_result post m params api_key failed =
     and_then (post m params api_key) (\<lambda>body.
       case rpc_error body of
         Some e \<Rightarrow> Inl (Fmt failed [])
       | None \<Rightarrow> Inr (case json_get body ''result'' of None \<Rightarrow> body | Some r \<Rightarrow> r))"

definition query_refiner_hallmark :: "rpc_post \<Rightarrow> string \<Rightarrow> nat option \<Rightarrow> message + json" where
  "query_refiner_hallmark post address lookback =
     query_result post ''opl_getRefinerHallmark''
       (case lookback of Some n \<Rightarrow> [JString address, JNumber (PosInt n)] | None \<Rightarrow> [JString address]) None
       (STR ''RPC error while querying refiner hallmark: {}'')"

definition query_block_assay_certificate :: "rpc_post \<Rightarrow> string \<Rightarrow> message + json" where
  "query_block_assay_certificate post block_selector =
     query_result post ''opl_getBlockAssayCertificate''
       [case parse_u64 block_selector of Some height \<Rightarrow> JNumber (PosInt height) | None \<Rightarrow> JString block_selector] None
       (STR ''RPC error while querying block assay certificate: {}'')"

definition query_mint_ledger :: "rpc_post \<Rightarrow> message + json" where
  "query_mint_ledger post =
     query_result post ''opl_getMintLedger'' [] None (STR ''RPC error while querying mint ledger: {}'')"

definition resolve_fee :: "rpc_post \<Rightarrow> string option \<Rightarrow> message + nat" where
  "resolve_fee post explicit_fee =
     (case explicit_fee of
        Some fee \<Rightarrow> parse_opl_amount fee
      | None \<Rightarrow> map_err (\<lambda>e. Fmt (STR ''Could not query chain suggested fee from RPC: {}. Pass --fee explicitly for offline signing.'') [AMsg e])
          (query_suggested_fee post))"

section \<open>Commands\<close>

record mnemonic_input =
  mi_from_env :: bool
  mi_from_stdin :: bool

datatype cli_command =
    New "32 word"
  | Address mnemonic_input "32 word"
  | ExportKeyFile mnemonic_input string "32 word"
  | Balance string
  | BondMinimum
  | ShowRefiner string "nat option"
  | Assay string
  | ShowLedger
  | SendTransfer mnemonic_input string string "string option" "nat option" "32 word"
  | Bond mnemonic_input string "string option" "nat option" "32 word"
  | Unbond mnemonic_input string "string option" "nat option" "32 word"
  | Send string

record cli =
  cl_rpc_url :: string
  cl_rpc_api_key :: "string option"
  cl_command :: cli_command

text \<open>A fresh mnemonic, the variable \<open>OPOLYS_MNEMONIC\<close>, the prompt, the transport and the disk.\<close>

record cli_env =
  ce_fresh_mnemonic :: "message + string list"
  ce_mnemonic_var :: "string option"
  ce_prompt :: "message + string"
  ce_post :: rpc_post
  ce_os :: os_outcome

datatype cli_output = Line string | Json json

definition read_mnemonic :: "'x wallet_externs_scheme \<Rightarrow> cli_env \<Rightarrow> mnemonic_input \<Rightarrow> message + string list" where
  "read_mnemonic X env input =
     and_then
       (if mi_from_env input then ok_or (ce_mnemonic_var env) (Fmt (STR ''OPOLYS_MNEMONIC is not set'') [])
        else if mi_from_stdin input then ce_prompt env
        else Inl (Fmt (STR ''Choose --from-env or --from-stdin to provide the mnemonic'') []))
       (\<lambda>phrase. map_err wallet_error_to_string (mnemonic_from_words X (trim phrase)))"

definition read_keypair :: "'x wallet_externs_scheme \<Rightarrow> cli_env \<Rightarrow> mnemonic_input \<Rightarrow> 32 word \<Rightarrow> message + key_pair" where
  "read_keypair X env input account_index =
     and_then (read_mnemonic X env input) (\<lambda>ws. Inr (derive_keypair X (x_mnemonic_seed X ws []) account_index))"

text \<open>Amount, fee and nonce of a transaction that is signed, and its bytes in hex.\<close>

definition sign_command ::
  "'x wallet_externs_scheme \<Rightarrow> cli_env \<Rightarrow> key_pair \<Rightarrow> string \<Rightarrow> string option \<Rightarrow> nat option \<Rightarrow>
   (nat \<Rightarrow> nat \<Rightarrow> nat \<Rightarrow> opolys_error + transaction) \<Rightarrow> message + cli_output" where
  "sign_command X env keypair amount fee nonce build =
     and_then (parse_opl_amount amount) (\<lambda>amount_flakes.
     and_then (resolve_fee (ce_post env) fee) (\<lambda>fee_flakes.
     and_then (case nonce of
         Some n \<Rightarrow> Inr n | None \<Rightarrow> query_nonce (ce_post env) (object_id_to_hex X (kp_object_id keypair))) (\<lambda>nonce_val.
     and_then (map_err opolys_error_to_string (build amount_flakes fee_flakes nonce_val)) (\<lambda>tx.
     and_then (ok_or (x_borsh_transaction X tx) (Fmt (STR ''serialization failed'') [])) (\<lambda>tx_bytes.
       Inr (Line (x_hex_encode X tx_bytes)))))))"

definition bond_minimum_report :: "nat \<Rightarrow> nat \<Rightarrow> json" where
  "bond_minimum_report minimum suggested =
     JObject
       [(''minimum_refiner_bond_flakes'', JNumber (PosInt minimum)),
        (''minimum_refiner_bond_opl'', JString (format_flakes minimum)),
        (''suggested_buffered_bond_flakes'', JNumber (PosInt suggested)),
        (''suggested_buffered_bond_opl'', JString (format_flakes suggested)),
        (''note'', JString ''Bonding exactly the current minimum can fail if new blocks raise total issued before inclusion.'')]"

definition run_command ::
  "'x wallet_externs_scheme \<Rightarrow> cli_env \<Rightarrow> string option \<Rightarrow> cli_command \<Rightarrow> files \<Rightarrow> (message + cli_output) \<times> files" where
  "run_command X env api_key c fs =
     (case c of
        New account_index \<Rightarrow>
          (and_then (ce_fresh_mnemonic env) (\<lambda>ws.
             Inr (Line (''Address (account '' @ show_nat (unat account_index) @ ''): '' @
               object_id_to_hex X (kp_object_id (derive_keypair X (x_mnemonic_seed X ws []) account_index))))), fs)
      | Address input account_index \<Rightarrow>
          (and_then (read_keypair X env input account_index) (\<lambda>k. Inr (Line (object_id_to_hex X (kp_object_id k)))), fs)
      | ExportKeyFile input path account_index \<Rightarrow>
          (case read_keypair X env input account_index of
             Inl e \<Rightarrow> (Inl e, fs)
           | Inr k \<Rightarrow>
               (case write_key_file (ce_os env) path k fs of
                  (Inl e, fs1) \<Rightarrow> (Inl (wallet_error_to_string e), fs1)
                | (Inr _, fs1) \<Rightarrow> (Inr (Line (object_id_to_hex X (kp_object_id k))), fs1)))
      | Balance address \<Rightarrow>
          (map_sum id Json (query_result (ce_post env) ''opl_getBalance'' [JString address] None (STR ''RPC error: {}'')), fs)
      | BondMinimum \<Rightarrow>
          (and_then (query_minimum_refiner_bond (ce_post env)) (\<lambda>minimum.
             and_then (ok_or (checked_add64 minimum (10 * FLAKES_PER_OPL)) (Fmt (STR ''Suggested bond amount overflowed'') []))
               (\<lambda>suggested. Inr (Json (bond_minimum_report minimum suggested)))), fs)
      | ShowRefiner address lookback \<Rightarrow>
          (map_sum id Json (query_refiner_hallmark (ce_post env) address lookback), fs)
      | Assay selector \<Rightarrow> (map_sum id Json (query_block_assay_certificate (ce_post env) selector), fs)
      | ShowLedger \<Rightarrow> (map_sum id Json (query_mint_ledger (ce_post env)), fs)
      | SendTransfer input rcpt amount fee nonce account_index \<Rightarrow>
          (and_then (read_keypair X env input account_index) (\<lambda>k.
             and_then (map_err (\<lambda>e. Fmt (STR ''Invalid recipient address: {}'') [AMsg e]) (object_id_from_hex X rcpt))
               (\<lambda>i. sign_command X env k amount fee nonce
                  (\<lambda>a f n. create_transfer X k i a f n MAINNET_CHAIN_ID))), fs)
      | Bond input amount fee nonce account_index \<Rightarrow>
          (and_then (read_keypair X env input account_index) (\<lambda>k.
             sign_command X env k amount fee nonce (\<lambda>a f n. create_refiner_bond X k a f n MAINNET_CHAIN_ID)), fs)
      | Unbond input amount fee nonce account_index \<Rightarrow>
          (and_then (read_keypair X env input account_index) (\<lambda>k.
             sign_command X env k amount fee nonce (\<lambda>a f n. create_refiner_unbond X k a f n MAINNET_CHAIN_ID)), fs)
      | Send tx_hex \<Rightarrow>
          (map_sum id Json (query_result (ce_post env) ''opl_sendTransaction'' [JString tx_hex] api_key
             (STR ''RPC error: {}'')), fs))"

definition run_wallet ::
  "'x wallet_externs_scheme \<Rightarrow> cli_env \<Rightarrow> cli \<Rightarrow> files \<Rightarrow> (message + cli_output) \<times> files" where
  "run_wallet X env c fs =
     (case validate_rpc_url X (cl_rpc_url c) of
        Inl e \<Rightarrow> (Inl e, fs)
      | Inr _ \<Rightarrow> run_command X env (cl_rpc_api_key c) (cl_command c) fs)"

end
