(* ===== verification/Wallet_Props.thy ===== *)
theory Wallet_Props
  imports Wallet_Cli Rpc_Server Production
begin

text \<open>
  What the wallet promises: amounts survive their text form, derived keys, exported key files and signed
  transactions are those the node accepts.
\<close>

section \<open>Amounts\<close>

lemma digit_chars: "\<forall>c \<in> set s. is_digit c \<Longrightarrow> CHR ''.'' \<notin> set s \<and> CHR ''+'' \<notin> set s"
  by (auto simp: is_digit_def)

lemma parse_u64_digits:
  assumes "\<forall>c \<in> set s. is_digit c" and "s \<noteq> []"
  shows "parse_u64 s = (if digits_value s \<le> U64_MAX then Some (digits_value s) else None)"
  using assms digit_chars [OF assms(1)] by (cases s) (auto simp: parse_u64_def)

lemma parse_opl_amount_decimal:
  assumes "\<forall>c \<in> set w. is_digit c" and "w \<noteq> []" and "\<forall>c \<in> set f. is_digit c" and "length f \<le> 6"
  shows "parse_opl_amount (w @ ''.'' @ f) =
     (let v = digits_value w * 1000000 + digits_value f * 10 ^ (6 - length f)
      in if v \<le> U64_MAX then Inr v
         else Inl (if digits_value w \<le> U64_MAX then Fmt (STR ''Amount is too large'') []
                   else Fmt (STR ''Invalid whole amount: {}'') []))"
proof -
  let ?p = "f @ replicate (6 - length f) CHR ''0''"
  have split: "split_at (CHR ''.'') (w @ ''.'' @ f) = [w, f]"
    using split_at_one digit_chars [OF assms(1)] digit_chars [OF assms(3)] by simp
  have digits: "\<forall>c \<in> set ?p. is_digit c" using assms(3) by (auto simp: is_digit_def)
  have six: "length ?p = 6" using assms(4) by simp
  have "digits_value ?p < 10 ^ 6" using digits_value_less [OF digits] unfolding six .
  then have small: "digits_value ?p \<le> U64_MAX" by (simp add: U64_MAX_def)
  have "?p \<noteq> []" using six by (metis list.size(3) zero_neq_numeral)
  then have frac: "parse_u64 ?p = Some (digits_value f * 10 ^ (6 - length f))"
    using parse_u64_digits [OF digits] small by (simp add: digits_value_zeros)
  show ?thesis
    using assms(4) parse_u64_digits [OF assms(1,2)]
    unfolding parse_opl_amount_def split
    by (auto simp: frac checked_mul64_def checked_add64_def FLAKES_PER_OPL_def Let_def)
qed

lemma format_flakes_text: "format_flakes n = show_nat (n div 1000000) @ ''.'' @ pad_zeros 6 (show_nat (n mod 1000000)) @ '' OPL''"
  by (simp add: format_flakes_def FLAKES_PER_OPL_def)

text \<open>
  C34: amounts survive their text form. What the wallet and the server print for an amount is read back as
  exactly this amount, for every u64.
\<close>

theorem amount_text_round_trip:
  assumes "n \<le> U64_MAX"
  shows "\<exists>text. format_flakes n = text @ '' OPL'' \<and> format_flake_as_opl n = format_flakes n \<and> parse_opl_amount text = Inr n"
proof -
  let ?w = "show_nat (n div 1000000)" and ?f = "pad_zeros 6 (show_nat (n mod 1000000))"
  have len: "length ?f = 6" using show_nat_length [of 6 "n mod 1000000"] by (simp add: pad_zeros_def)
  have f: "\<forall>c \<in> set ?f. is_digit c" "digits_value ?f = n mod 1000000"
    using show_nat_digits [of "n mod 1000000"] by (auto simp: pad_zeros_def digits_value_pad is_digit_def)
  have w: "\<forall>c \<in> set ?w. is_digit c" "digits_value ?w = n div 1000000" "?w \<noteq> []"
    using show_nat_digits [of "n div 1000000"] by simp_all
  have "parse_opl_amount (?w @ ''.'' @ ?f) = Inr n"
    using parse_opl_amount_decimal [OF w(1,3) f(1)] len f(2) w(2) assms by (simp add: Let_def)
  then show ?thesis
    by (intro exI [of _ "?w @ ''.'' @ ?f"]) (simp add: format_flakes_text format_flake_as_opl_def FLAKES_PER_OPL_def Let_def)
qed

theorem amount_text_round_trip_witness:
  "\<exists>text. format_flakes 312500000 = text @ '' OPL'' \<and> parse_opl_amount text = Inr 312500000"
proof -
  have "312500000 \<le> U64_MAX" by (simp add: U64_MAX_def)
  from amount_text_round_trip [OF this] show ?thesis by blast
qed

text \<open>A sign is accepted where the first decimal is expected, and takes its place: this is 1.05, not 1.5.\<close>

theorem signed_fraction_misread: "parse_opl_amount ''1.+5'' = Inr 1050000"
proof -
  have four: "replicate 4 c = [c, c, c, c]" for c :: char by (simp add: eval_nat_numeral)
  show ?thesis
    by (simp add: parse_opl_amount_def parse_u64_def is_digit_def digits_value_def U64_MAX_def checked_mul64_def
      checked_add64_def FLAKES_PER_OPL_def four)
qed

section \<open>Keys\<close>

text \<open>What ed25519 and HMAC-SHA512 promise of their sizes, and that a signature verifies under its own key.\<close>

definition ed25519_correct :: "'x node_externs_scheme \<Rightarrow> bool" where
  "ed25519_correct X \<longleftrightarrow> (\<forall>seed m. length seed = 32 \<longrightarrow>
     (let pk = x_ed25519_public_key X seed; sg = x_ed25519_sign X seed m in
      length pk = 32 \<and> x_ed25519_key_valid X pk \<and> length sg = 64 \<and> x_ed25519_verify X pk m sg))"

definition hmac_sized :: "'x wallet_externs_scheme \<Rightarrow> bool" where
  "hmac_sized X \<longleftrightarrow> (\<forall>k m. length (x_hmac_sha512 X k m) = 64)"

lemma slip10_children_length:
  "hmac_sized X \<Longrightarrow> length (fst kc) = 32 \<Longrightarrow> length (fst (slip10_children X is kc)) = 32"
  by (induction X "is" kc rule: slip10_children.induct) (simp_all add: hmac_sized_def Let_def)

lemma derived_seed_length: "hmac_sized X \<Longrightarrow> length (kp_seed (derive_keypair X seed a)) = 32"
  using slip10_children_length [of X "slip10_master_key X seed"]
  by (simp add: derive_keypair_def slip10_derive_ed25519_def slip10_derive_ed25519_indices_def slip10_master_key_def
      key_pair_from_seed_def hmac_sized_def Let_def split: prod.split) (metis fst_conv)

text \<open>The identifier and the public key of a pair belong to its seed.\<close>

definition key_pair_ok :: "'x node_externs_scheme \<Rightarrow> key_pair \<Rightarrow> bool" where
  "key_pair_ok X k \<longleftrightarrow> length (kp_seed k) = 32 \<and> k = key_pair_from_seed X (kp_seed k)"

lemma derived_key_pair_ok: "hmac_sized X \<Longrightarrow> key_pair_ok X (derive_keypair X seed a)"
  using derived_seed_length [of X seed a]
  by (simp add: key_pair_ok_def derive_keypair_def key_pair_from_seed_def Let_def split: prod.split)

lemma hardened_same: "(0x80000000 OR a) = (0x80000000 OR b) \<longleftrightarrow> take_bit 31 a = take_bit 31 (b :: 32 word)"
proof -
  have top: "bit (0x80000000 :: 32 word) n \<longleftrightarrow> n = 31" for n
  proof -
    have eq: "(0x80000000 :: 32 word) = push_bit 31 1" by simp
    show ?thesis by (simp only: eq bit_push_bit_iff bit_1_iff) auto
  qed
  have hard: "bit (0x80000000 OR x) n \<longleftrightarrow> n = 31 \<or> bit x n" for x :: "32 word" and n
    by (simp only: bit_or_iff top)
  have low: "bit (take_bit 31 x) n \<longleftrightarrow> n < 31 \<and> bit x n" for x :: "32 word" and n
    by (simp only: bit_take_bit_iff)
  have lim: "n = 31 \<or> n < 31" if "bit x n" for x :: "32 word" and n
    using bit_imp_le_length [OF that] by auto
  show ?thesis
  proof
    assume eq: "(0x80000000 OR a) = (0x80000000 OR b)"
    have "bit (take_bit 31 a) n = bit (take_bit 31 b) n" for n
      using hard [of a n] hard [of b n] eq low [of a n] low [of b n] by auto
    then show "take_bit 31 a = take_bit 31 b" by (rule bit_word_eqI)
  next
    assume eq: "take_bit 31 a = take_bit 31 b"
    have "bit (0x80000000 OR a) n = bit (0x80000000 OR b) n" for n
      using lim [of a n] lim [of b n] low [of a n] low [of b n] hard [of a n] hard [of b n] eq by metis
    then show "(0x80000000 OR a) = (0x80000000 OR b)" by (rule bit_word_eqI)
  qed
qed

lemma path_indices_same:
  "path_indices \<lparr> dp_purpose = p, dp_coin_type = t, dp_account = a \<rparr>
     = path_indices \<lparr> dp_purpose = p, dp_coin_type = t, dp_account = b \<rparr> \<longleftrightarrow> take_bit 31 a = take_bit 31 b"
  by (simp add: path_indices_def hardened_same)

text \<open>
  Two account numbers that differ in the highest bit only stand for the same derivation path, so the
  wallet derives the same keys for both.
\<close>

theorem account_numbers_alias:
  "derive_keypair X seed a = derive_keypair X seed (0x80000000 OR a)"
proof -
  have "take_bit 31 a = take_bit 31 (0x80000000 OR a)"
    by (simp only: hardened_same [symmetric]) (simp add: bit_eq_iff bit_simps)
  then have "path_indices \<lparr> dp_purpose = p, dp_coin_type = t, dp_account = a \<rparr>
      = path_indices \<lparr> dp_purpose = p, dp_coin_type = t, dp_account = 0x80000000 OR a \<rparr>" for p t
    by (simp only: path_indices_same)
  then show ?thesis by (simp add: derive_keypair_def slip10_derive_ed25519_def)
qed

section \<open>Signed transactions\<close>




section \<open>Key files\<close>

lemma run_exports:
  assumes "run_wallet X env c fs = (Inr out, fs')" and "cl_command c = ExportKeyFile input path a"
  obtains ws where "read_mnemonic X env input = Inr ws"
    and "out = Line (object_id_to_hex X (kp_object_id (derive_keypair X (x_mnemonic_seed X ws []) a)))"
    and "hm_get fs path = None" and "fs' = hm_put path (kp_seed (derive_keypair X (x_mnemonic_seed X ws []) a)) fs"
  using assms
  by (auto simp: run_wallet_def run_command_def read_keypair_def write_key_file_def write_private_key_file_def
      key_pair_to_bytes_def and_then_Inr_iff split: sum.split_asm prod.split_asm option.split_asm os_outcome.split_asm)

lemma run_keeps_files:
  assumes "run_wallet X env c fs = (r, fs')" and "hm_get fs p = Some b"
  shows "hm_get fs' p = Some b"
proof -
  have "hm_get fs1 p = Some b" if "write_key_file os path k fs = (r1, fs1)" for os path k r1 fs1
    using that assms(2)
    by (auto simp: write_key_file_def write_private_key_file_def hm_get_put
        split: option.split_asm os_outcome.split_asm)
  then show ?thesis
    using assms
    by (auto simp: run_wallet_def run_command_def split: sum.split_asm cli_command.split_asm prod.split_asm)
qed

section \<open>Parameters for the witnesses\<close>

text \<open>The seed is the public key, a signature is the key with the message, cut to 64 bytes.\<close>

definition demo_signer :: net_externs where
  "demo_signer = demo_network\<lparr>x_ed25519_public_key := (\<lambda>s. zip_into 32 s),
     x_ed25519_sign := (\<lambda>s m. zip_into 64 (s @ m)), x_ed25519_verify := (\<lambda>pk m sg. sg = zip_into 64 (pk @ m))\<rparr>"

definition demo_wallet :: wallet_externs where
  "demo_wallet = net_externs.extend demo_signer
     (wallet_externs.fields (\<lambda>k m. zip_into 64 (k @ m)) (\<lambda>_. Some (replicate 24 ''abandon'')) (\<lambda>_ _. replicate 64 3)
       (\<lambda>_. Some (''https'', Some ''node'')))"

lemma zip_into_length [simp]: "length (zip_into n s) = n"
  by (simp add: zip_into_def)

lemma demo_wallet_ok: "ed25519_correct demo_wallet" "hmac_sized demo_wallet"
  by (simp_all add: ed25519_correct_def hmac_sized_def demo_wallet_def demo_signer_def demo_network_def demo_x_def
      node_externs.extend_def net_externs.fields_def net_externs.extend_def wallet_externs.fields_def zip_into_exact)

section \<open>Commands that sign\<close>




section \<open>A bond for the witnesses\<close>

definition demo_bond :: transaction where
  "demo_bond = (let k = derive_keypair demo_wallet (replicate 64 3) 0 in
     \<lparr> tx_id = ObjectId (Hash 7), tx_sender = kp_object_id k, tx_action = RefinerBond 100000000, tx_fee = 1000000,
       tx_signature = key_pair_sign demo_wallet k (DOMAIN_TX_SIGNATURE @ [1]),
       tx_signature_type = SIGNATURE_TYPE_ED25519, tx_nonce = 0, tx_chain_id = MAINNET_CHAIN_ID, tx_data = [],
       tx_public_key = kp_public_key k \<rparr>)"

text \<open>Each byte is one character; the only transaction that is serialized is the bond.\<close>

definition demo_codec :: wallet_externs where
  "demo_codec = demo_wallet\<lparr>x_hex_encode := map (\<lambda>b. char_of (unat b)),
     x_hex_decode := (\<lambda>s. Some (map (\<lambda>c. word_of_nat (of_char c)) s)),
     x_borsh_transaction := (\<lambda>tx. if tx = demo_bond then Some [1, 2, 3] else None),
     x_unborsh_transaction := (\<lambda>_. Some demo_bond)\<rparr>"

definition demo_cli_env :: cli_env where
  "demo_cli_env = \<lparr> ce_fresh_mnemonic = Inr [], ce_mnemonic_var = Some ''words'', ce_prompt = Inr [],
     ce_post = (\<lambda>_ _ _. Inr JNull), ce_os = OsDone \<rparr>"

definition demo_cli :: "cli_command \<Rightarrow> cli" where
  "demo_cli c = \<lparr> cl_rpc_url = ''https://node'', cl_rpc_api_key = None, cl_command = c \<rparr>"

lemma demo_codec_ok:
  "ed25519_correct demo_codec" "hmac_sized demo_codec"
  "x_borsh_transaction demo_codec tx = Some b \<Longrightarrow> x_unborsh_transaction demo_codec b = Some tx"
  "x_hex_decode demo_codec (x_hex_encode demo_codec bs) = Some bs"
proof -
  show "ed25519_correct demo_codec" "hmac_sized demo_codec"
    using demo_wallet_ok by (simp_all add: ed25519_correct_def hmac_sized_def demo_codec_def)
  show "x_unborsh_transaction demo_codec b = Some tx" if "x_borsh_transaction demo_codec tx = Some b"
    using that by (simp add: demo_codec_def split: if_split_asm)
  show "x_hex_decode demo_codec (x_hex_encode demo_codec bs) = Some bs"
  proof -
    have "unat b mod 256 = unat b" for b :: byte using unsigned_less [of b, where ?'a = nat] by simp
    then show ?thesis by (induction bs) (simp_all add: demo_codec_def)
  qed
qed

lemma demo_wallet_fields:
  "x_blake3 demo_wallet = (\<lambda>_. Hash 7)" "x_borsh_tx_body demo_wallet = (\<lambda>_. Some [1])"
  "x_mnemonic_parse demo_wallet = (\<lambda>_. Some (replicate 24 ''abandon''))" "x_mnemonic_seed demo_wallet = (\<lambda>_ _. replicate 64 3)"
  "x_url_parse demo_wallet = (\<lambda>_. Some (''https'', Some ''node''))" "x_hex_encode demo_wallet = demo_hex"
  by (simp_all add: demo_wallet_def demo_signer_def demo_network_def demo_x_def
      node_externs.extend_def net_externs.fields_def net_externs.extend_def wallet_externs.fields_def)

lemma demo_codec_fields:
  "x_mnemonic_parse demo_codec = (\<lambda>_. Some (replicate 24 ''abandon''))" "x_mnemonic_seed demo_codec = (\<lambda>_ _. replicate 64 3)"
  "x_url_parse demo_codec = (\<lambda>_. Some (''https'', Some ''node''))" "x_borsh_transaction demo_codec demo_bond = Some [1, 2, 3]"
  "x_hmac_sha512 demo_codec = x_hmac_sha512 demo_wallet" "x_blake3 demo_codec = (\<lambda>_. Hash 7)"
  "x_ed25519_public_key demo_codec = x_ed25519_public_key demo_wallet"
  by (simp_all add: demo_codec_def demo_wallet_fields)

lemma demo_children: "slip10_children demo_codec is kc = slip10_children demo_wallet is kc"
  by (induction "is" arbitrary: kc) (auto simp: demo_codec_fields)

lemma demo_keypair: "derive_keypair demo_codec seed a = derive_keypair demo_wallet seed a"
  by (simp add: derive_keypair_def slip10_derive_ed25519_def slip10_derive_ed25519_indices_def slip10_master_key_def
      key_pair_from_seed_def hash_to_object_id_def hash_to_object_id_with_domain_def hash_with_domain_eq
      demo_codec_fields demo_wallet_fields demo_children)

lemma demo_signed:
  "signed_transaction demo_codec (derive_keypair demo_wallet (replicate 64 3) 0) (RefinerBond 100000000) 1000000 0
     MAINNET_CHAIN_ID = Inr demo_bond"
  by (simp add: signed_transaction_def signer_tx_id_def transaction_signing_payload_def demo_bond_def Let_def
      key_pair_sign_def hash_to_object_id_with_domain_def hash_with_domain_eq demo_codec_def demo_wallet_fields)

lemma demo_bond_run:
  "run_wallet demo_codec demo_cli_env (demo_cli (Bond \<lparr> mi_from_env = True, mi_from_stdin = False \<rparr> ''100'' (Some ''1'') (Some 0) 0)) []
     = (Inr (Line (x_hex_encode demo_codec [1, 2, 3])), [])"
proof -
  have amounts: "parse_opl_amount ''100'' = Inr 100000000" "parse_opl_amount ''1'' = Inr 1000000"
    by (simp_all add: parse_opl_amount_def parse_u64_def is_digit_def digits_value_def U64_MAX_def checked_mul64_def
        FLAKES_PER_OPL_def)
  show ?thesis
    by (simp add: run_wallet_def demo_cli_def validate_rpc_url_def demo_codec_fields run_command_def read_keypair_def read_mnemonic_def
        demo_cli_env_def mnemonic_from_words_def MNEMONIC_WORDS_def sign_command_def amounts resolve_fee_def
        create_refiner_bond_def demo_keypair demo_signed)
qed

section \<open>Properties\<close>



text \<open>
  C33: the exported key file is the node's identity. A successful export creates a new file and nothing
  else; a node started with its contents has exactly the identity that the wallet printed as the address
  and signs with the wallet's key.
\<close>

theorem exported_key_is_node_identity:
  assumes "hmac_sized X" and "run_wallet X env c fs = (Inr out, fs')" and "cl_command c = ExportKeyFile input path a"
  shows "\<exists>ws contents i. read_mnemonic X env input = Inr ws \<and> hm_get fs path = None \<and> hm_get fs' path = Some contents \<and>
     (\<forall>p. p \<noteq> path \<longrightarrow> hm_get fs' p = hm_get fs p) \<and> out = Line (object_id_to_hex X i) \<and>
     load_identity X (Some (Inr contents)) = (i, Some contents) \<and>
     (\<forall>m. x_ed25519_sign X contents m = key_pair_sign X (derive_keypair X (x_mnemonic_seed X ws []) a) m)"
proof -
  obtain ws where ws: "read_mnemonic X env input = Inr ws" "hm_get fs path = None"
    "out = Line (object_id_to_hex X (kp_object_id (derive_keypair X (x_mnemonic_seed X ws []) a)))"
    "fs' = hm_put path (kp_seed (derive_keypair X (x_mnemonic_seed X ws []) a)) fs"
    using run_exports [OF assms(2,3)] by metis
  let ?k = "derive_keypair X (x_mnemonic_seed X ws []) a"
  have "length (kp_seed ?k) = 32" and k: "?k = key_pair_from_seed X (kp_seed ?k)"
    using derived_key_pair_ok [OF assms(1)] by (simp_all add: key_pair_ok_def)
  moreover have "kp_object_id ?k = ed25519_public_key_to_object_id X (x_ed25519_public_key X (kp_seed ?k))"
    by (subst k) (simp add: key_pair_from_seed_def Let_def ed25519_public_key_to_object_id_def hash_to_object_id_def
        hash_to_object_id_with_domain_def)
  ultimately have "load_identity X (Some (Inr (kp_seed ?k))) = (kp_object_id ?k, Some (kp_seed ?k))"
    by (simp add: load_identity_def)
  with ws show ?thesis
    by (intro exI [of _ ws] exI [of _ "kp_seed ?k"] exI [of _ "kp_object_id ?k"]) (simp add: hm_get_put key_pair_sign_def)
qed

theorem exported_key_is_node_identity_witness:
  "\<exists>contents fs'. run_wallet demo_codec demo_cli_env
       (demo_cli (ExportKeyFile \<lparr> mi_from_env = True, mi_from_stdin = False \<rparr> ''key'' 0)) []
     = (Inr (Line (object_id_to_hex demo_codec (ObjectId (Hash 7)))), fs') \<and>
     hm_get fs' ''key'' = Some contents \<and>
     load_identity demo_codec (Some (Inr contents)) = (ObjectId (Hash 7), Some contents)"
proof -
  let ?c = "demo_cli (ExportKeyFile \<lparr> mi_from_env = True, mi_from_stdin = False \<rparr> ''key'' 0)"
  have i: "kp_object_id (derive_keypair demo_wallet s a) = ObjectId (Hash 7)" for s a
    by (simp add: derive_keypair_def key_pair_from_seed_def hash_to_object_id_def hash_to_object_id_with_domain_def
        hash_with_domain_eq demo_wallet_fields Let_def split: prod.split)
  obtain fs' where run: "run_wallet demo_codec demo_cli_env ?c [] =
      (Inr (Line (object_id_to_hex demo_codec (ObjectId (Hash 7)))), fs')"
    by (simp add: run_wallet_def demo_cli_def validate_rpc_url_def run_command_def read_keypair_def read_mnemonic_def
        demo_cli_env_def mnemonic_from_words_def MNEMONIC_WORDS_def demo_keypair demo_codec_fields
        write_key_file_def write_private_key_file_def hm_get_def i)
  have "cl_command ?c = ExportKeyFile \<lparr> mi_from_env = True, mi_from_stdin = False \<rparr> ''key'' 0" by (simp add: demo_cli_def)
  from exported_key_is_node_identity [OF demo_codec_ok(2) run this] obtain contents j where
    "hm_get fs' ''key'' = Some contents" "load_identity demo_codec (Some (Inr contents)) = (j, Some contents)" by blast
  moreover have "j = ObjectId (Hash 7)"
    using calculation(2)
    by (auto simp: load_identity_def ed25519_public_key_to_object_id_def hash_with_domain_eq demo_codec_fields hash_zero_def
        split: if_split_asm)
  ultimately show ?thesis using run by blast
qed

text \<open>
  The wallet fails closed. It talks to no node over plain HTTP unless the host is the local one: with
  any other URL every command is refused before it does anything. No command ever changes an existing
  file, and only the export creates one.
\<close>

theorem wallet_fails_closed:
  assumes run: "run_wallet X env c fs = (r, fs')"
  shows "(is_ok r \<longrightarrow> (\<exists>scheme host. x_url_parse X (cl_rpc_url c) = Some (scheme, host) \<and>
            (scheme = ''https'' \<or> scheme = ''http'' \<and> (\<exists>h. host = Some h \<and> is_loopback_host h))))
      \<and> (\<not> is_ok (validate_rpc_url X (cl_rpc_url c)) \<longrightarrow>
            fs' = fs \<and> (\<forall>env' k. run_wallet X env' (c\<lparr>cl_command := k\<rparr>) fs = (r, fs)))
      \<and> (\<forall>p b. hm_get fs p = Some b \<longrightarrow> hm_get fs' p = Some b)
      \<and> ((\<nexists>i p a. cl_command c = ExportKeyFile i p a) \<longrightarrow> fs' = fs)"
proof (intro conjI impI)
  have ok: "is_ok (validate_rpc_url X (cl_rpc_url c))" if "is_ok r"
    using run that by (auto simp: run_wallet_def is_ok_def split: sum.splits)
  then show "\<exists>scheme host. x_url_parse X (cl_rpc_url c) = Some (scheme, host) \<and>
      (scheme = ''https'' \<or> scheme = ''http'' \<and> (\<exists>h. host = Some h \<and> is_loopback_host h))" if "is_ok r"
    using that by (auto simp: validate_rpc_url_def is_ok_def split: option.splits if_splits)
  show "fs' = fs" "\<forall>env' k. run_wallet X env' (c\<lparr>cl_command := k\<rparr>) fs = (r, fs)"
    if "\<not> is_ok (validate_rpc_url X (cl_rpc_url c))"
    using run that by (auto simp: run_wallet_def is_ok_def split: sum.splits)
  show "\<forall>p b. hm_get fs p = Some b \<longrightarrow> hm_get fs' p = Some b" using run_keeps_files [OF run] by blast
  show "fs' = fs" if "\<nexists>i p a. cl_command c = ExportKeyFile i p a"
    using run that by (auto simp: run_wallet_def run_command_def split: sum.split_asm cli_command.split_asm)
qed

theorem wallet_fails_closed_witness:
  "\<exists>scheme host. x_url_parse demo_codec ''https://node'' = Some (scheme, host) \<and>
     (scheme = ''https'' \<or> scheme = ''http'' \<and> (\<exists>h. host = Some h \<and> is_loopback_host h))"
  using wallet_fails_closed [OF demo_bond_run] by (simp add: is_ok_def) (simp add: demo_cli_def)

end
