(* ===== verification/Ceremony.thy ===== *)
theory Ceremony
  imports Float64 Jsonrpc Text "HOL-Library.Char_ord" "HOL-Library.List_Lexorder"
begin

text \<open>
  The genesis ceremony file as \<open>crates/node/src/node.rs\<close> reads it: the checks of its sources and of the
  derived reward, the canonical form and the hash of its JSON, and the configuration made of it. The
  parser of serde and the quoting of strings are parameters.
\<close>

section \<open>The file\<close>

record ceremony_source_result =
  sr_name :: string
  sr_raw_response_hash :: string
  sr_extracted_value :: "f64 option"
  sr_value_origin :: string
  sr_evidence_note :: "string option"
  sr_evidence_timestamp_ms :: "nat option"

record ceremony_attestation_file =
  af_ceremony_timestamp :: nat
  af_operator_public_key :: string
  af_operator_signature :: string
  af_production_sources :: "ceremony_source_result list"
  af_price_sources :: "ceremony_source_result list"
  af_median_production_tonnes :: f64
  af_median_price_usd_cents :: nat
  af_blocks_per_year :: nat
  af_base_reward_flakes :: nat
  af_derivation_steps :: "string list"
  af_master_hash :: string

record ceremony_externs = node_externs +
  x_json_parse :: "string \<Rightarrow> json option"
  x_json_quote :: "string \<Rightarrow> string"
  x_read_ceremony :: "string \<Rightarrow> ceremony_attestation_file option"

text \<open>Float literals are rounded to the nearest number.\<close>

definition CEREMONY_TROY_OZ_PER_TONNE :: f64 where "CEREMONY_TROY_OZ_PER_TONNE = round_f64 (321507 / 10)"
definition MIN_CEREMONY_PRODUCTION_SOURCES :: nat where "MIN_CEREMONY_PRODUCTION_SOURCES = 5"
definition CEREMONY_PROD_MIN_TONNES :: f64 where "CEREMONY_PROD_MIN_TONNES = round_f64 1000"
definition CEREMONY_PROD_MAX_TONNES :: f64 where "CEREMONY_PROD_MAX_TONNES = round_f64 10000"
definition CEREMONY_PRICE_MIN_USD_CENTS :: nat where "CEREMONY_PRICE_MIN_USD_CENTS = 50000"
definition CEREMONY_PRICE_MAX_USD_CENTS :: nat where "CEREMONY_PRICE_MAX_USD_CENTS = 1500000"
definition DRY_RUN_GENESIS_OPERATOR_SEED :: "byte list" where "DRY_RUN_GENESIS_OPERATOR_SEED = replicate 32 42"

definition decode_hex_array :: "'x externs_scheme \<Rightarrow> nat \<Rightarrow> string \<Rightarrow> string \<Rightarrow> message + byte list" where
  "decode_hex_array X n field value =
     (case x_hex_decode X value of
        None \<Rightarrow> Inl (Fmt (STR ''{} must be hex: {}'') [AStr field])
      | Some bytes \<Rightarrow>
          if length bytes \<noteq> n then Inl (Fmt (STR ''{} must be {} bytes, got {}'') [AStr field, ANat n, ANat (length bytes)])
          else Inr bytes)"

definition source_hash :: "'x externs_scheme \<Rightarrow> ceremony_source_result list \<Rightarrow> string \<Rightarrow> byte list" where
  "source_hash X sources needle =
     (case find (\<lambda>s. contains_text needle (map lower_char (sr_name s))) sources of
        None \<Rightarrow> replicate 32 0
      | Some s \<Rightarrow>
          (case decode_hex_array X 32 (sr_name s) (sr_raw_response_hash s) of
             Inl _ \<Rightarrow> replicate 32 0
           | Inr h \<Rightarrow> h))"

section \<open>Checks\<close>

definition extracted_values :: "ceremony_source_result list \<Rightarrow> f64 list" where
  "extracted_values sources = List.map_filter sr_extracted_value sources"

definition outside :: "f64 \<Rightarrow> f64 \<Rightarrow> f64 \<Rightarrow> bool" where
  "outside lo hi v \<longleftrightarrow> \<not> f64_is_finite v \<or> f64_less v lo \<or> f64_less hi v"

definition has_evidence :: "ceremony_source_result \<Rightarrow> bool" where
  "has_evidence s \<longleftrightarrow> (case sr_evidence_note s of None \<Rightarrow> False | Some note \<Rightarrow> 12 \<le> length (trim note))"

definition lacks_evidence :: "ceremony_source_result \<Rightarrow> bool" where
  "lacks_evidence s \<longleftrightarrow> starts_with ''manual'' (sr_value_origin s) \<and> sr_extracted_value s \<noteq> None \<and>
     (\<not> has_evidence s \<or> sr_evidence_timestamp_ms s = None)"

definition validate_ceremony_sources :: "ceremony_attestation_file \<Rightarrow> message + unit" where
  "validate_ceremony_sources a =
     (let production_values = extracted_values (af_production_sources a);
          price_values = extracted_values (af_price_sources a);
          price_min_usd = f64_div (f64_of_nat CEREMONY_PRICE_MIN_USD_CENTS) (round_f64 100);
          price_max_usd = f64_div (f64_of_nat CEREMONY_PRICE_MAX_USD_CENTS) (round_f64 100)
      in
        if length production_values < MIN_CEREMONY_PRODUCTION_SOURCES
        then Inl (Fmt (STR ''Genesis ceremony has only {} production sources; need at least {}'')
               [ANat (length production_values), ANat MIN_CEREMONY_PRODUCTION_SOURCES])
        else if list_ex (outside CEREMONY_PROD_MIN_TONNES CEREMONY_PROD_MAX_TONNES) production_values
        then Inl (Fmt (STR ''Genesis ceremony production source value {} is outside sanity bounds [{}, {}] tonnes'') [])
        else if price_values = []
        then Inl (Fmt (STR ''Genesis ceremony must include at least one price source'') [])
        else if list_ex (outside price_min_usd price_max_usd) price_values
        then Inl (Fmt (STR ''Genesis ceremony price source value {} is outside sanity bounds [{}, {}] USD/oz'') [])
        else (case find lacks_evidence (af_production_sources a @ af_price_sources a) of
                Some s \<Rightarrow> Inl (Fmt (STR ''Genesis ceremony manual source '{}' is missing evidence'') [AStr (sr_name s)])
              | None \<Rightarrow> Inr ()))"

text \<open>Whole coins per block from the mined tonnes of a year, in floating point.\<close>

definition derived_reward_opl :: "f64 \<Rightarrow> nat \<Rightarrow> nat" where
  "derived_reward_opl tonnes blocks_per_year =
     f64_to_u64 (f64_floor (f64_div (f64_mul tonnes CEREMONY_TROY_OZ_PER_TONNE) (f64_of_nat blocks_per_year)))"

definition validate_ceremony_reward_derivation :: "ceremony_attestation_file \<Rightarrow> message + unit" where
  "validate_ceremony_reward_derivation a =
     (let tonnes = af_median_production_tonnes a in
      if \<not> f64_is_finite tonnes \<or> \<not> f64_less (FNum 0) tonnes
      then Inl (Fmt (STR ''Genesis ceremony median_production_tonnes must be positive'') [])
      else if f64_less tonnes CEREMONY_PROD_MIN_TONNES \<or> f64_less CEREMONY_PROD_MAX_TONNES tonnes
      then Inl (Fmt (STR ''Genesis ceremony median_production_tonnes {} is outside sanity bounds [{}, {}]'') [])
      else if af_median_price_usd_cents a < CEREMONY_PRICE_MIN_USD_CENTS \<or>
              CEREMONY_PRICE_MAX_USD_CENTS < af_median_price_usd_cents a
      then Inl (Fmt (STR ''Genesis ceremony median_price_usd_cents {} is outside sanity bounds [{}, {}]'')
             [ANat (af_median_price_usd_cents a), ANat CEREMONY_PRICE_MIN_USD_CENTS, ANat CEREMONY_PRICE_MAX_USD_CENTS])
      else if af_blocks_per_year a \<noteq> BLOCKS_PER_YEAR
      then Inl (Fmt (STR ''Genesis ceremony blocks_per_year must be {}, got {}'') [ANat BLOCKS_PER_YEAR, ANat (af_blocks_per_year a)])
      else if af_base_reward_flakes a = 0
      then Inl (Fmt (STR ''Genesis ceremony base_reward_flakes must be non-zero'') [])
      else
        and_then (ok_or (checked_mul64 (derived_reward_opl CEREMONY_PROD_MAX_TONNES BLOCKS_PER_YEAR) FLAKES_PER_OPL)
            (Fmt (STR ''Genesis ceremony base reward ceiling overflowed'') [])) (\<lambda>max_base_reward_flakes.
          if max_base_reward_flakes < af_base_reward_flakes a
          then Inl (Fmt (STR ''Genesis ceremony base_reward_flakes {} exceeds safety ceiling {}'')
                 [ANat (af_base_reward_flakes a), ANat max_base_reward_flakes])
          else
            and_then (ok_or (checked_mul64 (derived_reward_opl tonnes (af_blocks_per_year a)) FLAKES_PER_OPL)
                (Fmt (STR ''Genesis ceremony base reward derivation overflowed'') [])) (\<lambda>expected_base_reward_flakes.
              if af_base_reward_flakes a \<noteq> expected_base_reward_flakes
              then Inl (Fmt (STR ''Genesis ceremony base_reward_flakes mismatch: attestation {}, computed {}'')
                     [ANat (af_base_reward_flakes a), ANat expected_base_reward_flakes])
              else Inr ())))"

section \<open>The canonical form\<close>

text \<open>\<open>while out.contains('.') && out.ends_with('0')\<close>, then a dot at the end.\<close>

definition strip_zeros :: "string \<Rightarrow> string" where
  "strip_zeros s =
     (let t = (if CHR ''.'' \<in> set s then rev (dropWhile (\<lambda>c. c = CHR ''0'') (rev s)) else s) in
      if t \<noteq> [] \<and> last t = CHR ''.'' then butlast t else t)"

definition show_int :: "int \<Rightarrow> string" where
  "show_int i = (if i < 0 then ''-'' else []) @ show_nat (nat \<bar>i\<bar>)"

fun canonical_json_number :: "json_number \<Rightarrow> message + string" where
  "canonical_json_number (PosInt n) = Inr (show_nat n)"
| "canonical_json_number (NegInt i) = Inr (show_int i)"
| "canonical_json_number (FloatNumber v) =
     (case v of
        FNum q \<Rightarrow> (let out = strip_zeros (show_decimals 6 q) in Inr (if out = ''-0'' then ''0'' else out))
      | _ \<Rightarrow> Inl (Fmt (STR ''Genesis ceremony number must be finite'') []))"

fun commas :: "string list \<Rightarrow> string" where
  "commas [] = []"
| "commas [s] = s"
| "commas (s # ss) = s @ '','' @ commas ss"

text \<open>The first error, or all results.\<close>

fun collect :: "('e + 'a) list \<Rightarrow> 'e + 'a list" where
  "collect [] = Inr []"
| "collect (r # rs) = and_then r (\<lambda>a. and_then (collect rs) (\<lambda>as. Inr (a # as)))"

lemma size_sorted_entry:
  "e \<in> set (sort_key fst kvs) \<Longrightarrow> size (snd e) < size (JObject kvs)"
proof -
  assume "e \<in> set (sort_key fst kvs)"
  then have "e \<in> set kvs" by simp
  then show ?thesis by (induction kvs) (auto simp: size_prod_def)
qed

lemma size_array_entry: "v \<in> set vs \<Longrightarrow> size v < size (JArray vs)"
  by (induction vs) auto

function canonical_json :: "'x ceremony_externs_scheme \<Rightarrow> json \<Rightarrow> message + string" where
  "canonical_json X JNull = Inr ''null''"
| "canonical_json X (JBool b) = Inr (if b then ''true'' else ''false'')"
| "canonical_json X (JNumber n) = canonical_json_number n"
| "canonical_json X (JString s) = Inr (x_json_quote X s)"
| "canonical_json X (JArray vs) =
     map_sum id (\<lambda>ts. ''['' @ commas ts @ '']'') (collect (map (canonical_json X) vs))"
| "canonical_json X (JObject kvs) =
     map_sum id (\<lambda>ts. ''{'' @ commas ts @ ''}'')
       (collect (map (\<lambda>e. map_sum id (\<lambda>t. x_json_quote X (fst e) @ '':'' @ t) (canonical_json X (snd e)))
         (sort_key fst kvs)))"
  by pat_completeness auto
termination
  by (relation "measure (\<lambda>(X, v). size v)") (use size_sorted_entry size_array_entry in auto)

text \<open>
  \<open>value[k] = v\<close>: replaces or adds the entry of an object, makes an object of null, and panics on anything
  else. A document is an object with distinct keys.
\<close>

fun set_entry :: "string \<Rightarrow> json \<Rightarrow> (string \<times> json) list \<Rightarrow> (string \<times> json) list" where
  "set_entry k v [] = [(k, v)]"
| "set_entry k v ((k', v') # kvs) = (if k = k' then (k, v) # kvs else (k', v') # set_entry k v kvs)"

fun json_set :: "string \<Rightarrow> json \<Rightarrow> json \<Rightarrow> json option" where
  "json_set k v (JObject kvs) = Some (JObject (set_entry k v kvs))"
| "json_set k v JNull = Some (JObject [(k, v)])"
| "json_set k v _ = None"

definition blank_signed_fields :: "json \<Rightarrow> json option" where
  "blank_signed_fields v =
     Option.bind (json_set ''master_hash'' (JString []) v) (json_set ''operator_signature'' (JString []))"

text \<open>The outer option is \<open>None\<close> for a panic.\<close>

definition compute_ceremony_master_hash :: "'x ceremony_externs_scheme \<Rightarrow> string \<Rightarrow> (message + byte list) option" where
  "compute_ceremony_master_hash X attestation_json =
     (case x_json_parse X attestation_json of
        None \<Rightarrow> Some (Inl (Fmt (STR ''Genesis ceremony JSON parse failed: {}'') []))
      | Some v \<Rightarrow>
          map_option (\<lambda>w. map_sum id (\<lambda>canonical. hash_as_bytes (x_blake3 X (ascii canonical))) (canonical_json X w))
            (blank_signed_fields v))"

section \<open>The configuration\<close>

definition check_ceremony_signature ::
  "'x ceremony_externs_scheme \<Rightarrow> bool \<Rightarrow> byte list \<Rightarrow> ceremony_attestation_file \<Rightarrow> message + byte list \<times> byte list" where
  "check_ceremony_signature X allow_dry_run_genesis master_hash a =
     and_then (decode_hex_array X 32 ''operator_public_key'' (af_operator_public_key a)) (\<lambda>operator_public_key.
       if operator_public_key = x_ed25519_public_key X DRY_RUN_GENESIS_OPERATOR_SEED \<and> \<not> allow_dry_run_genesis
       then Inl (Fmt (STR ''Genesis ceremony uses the dry-run operator key; refuse to start mainnet state'') [])
       else
         and_then (decode_hex_array X 64 ''operator_signature'' (af_operator_signature a)) (\<lambda>operator_signature.
           if \<not> x_ed25519_key_valid X operator_public_key
           then Inl (Fmt (STR ''Genesis ceremony operator_public_key is not a valid ed25519 key'') [])
           else if \<not> x_ed25519_verify_strict X operator_public_key master_hash operator_signature
           then Inl (Fmt (STR ''Genesis ceremony operator_signature verification failed'') [])
           else Inr (operator_public_key, operator_signature)))"

fun joined :: "string \<Rightarrow> string list \<Rightarrow> string" where
  "joined sep [] = []"
| "joined sep [s] = s"
| "joined sep (s # ss) = s @ sep @ joined sep ss"

definition ceremony_genesis_config ::
  "'x externs_scheme \<Rightarrow> byte list \<Rightarrow> byte list \<Rightarrow> byte list \<Rightarrow> ceremony_attestation_file \<Rightarrow> genesis_config" where
  "ceremony_genesis_config X master_hash public_key signature a =
     \<lparr> gn_initial_difficulty = GENESIS_DIFFICULTY, gn_protocol_version = NETWORK_PROTOCOL_VERSION,
       gn_attestation =
         \<lparr> ga_ceremony_timestamp = af_ceremony_timestamp a,
           ga_gold_spot_price_usd_cents = af_median_price_usd_cents a,
           ga_annual_production_tonnes = f64_to_u64 (f64_round (af_median_production_tonnes a)),
           ga_total_above_ground_tonnes = 0,
           ga_lbma_response_hash = source_hash X (af_price_sources a) ''lbma'',
           ga_usgs_response_hash = source_hash X (af_production_sources a) ''usgs'',
           ga_wgc_response_hash = source_hash X (af_production_sources a) ''world gold council'',
           ga_derivation_formula = joined ''; '' (af_derivation_steps a) \<rparr>,
       gn_accounts = [], gn_base_reward = af_base_reward_flakes a,
       gn_ceremony_data = Some
         \<lparr> gc_ceremony_timestamp = af_ceremony_timestamp a, gc_ceremony_master_hash = master_hash,
           gc_operator_public_key = public_key, gc_operator_signature = signature,
           gc_base_reward_flakes = af_base_reward_flakes a,
           gc_production_tonnes_milli =
             f64_to_u64 (f64_round (f64_mul (af_median_production_tonnes a) (round_f64 1000))),
           gc_price_usd_cents = af_median_price_usd_cents a, gc_blocks_per_year = af_blocks_per_year a \<rparr> \<rparr>"

text \<open>The file is its contents, or the error of reading it.\<close>

definition load_genesis_config_from_attestation ::
  "'x ceremony_externs_scheme \<Rightarrow> message + string \<Rightarrow> bool \<Rightarrow> (message + genesis_config) option" where
  "load_genesis_config_from_attestation X file_contents allow_dry_run_genesis =
     (case and_then (map_err (\<lambda>e. Fmt (STR ''Failed to read genesis ceremony file {}: {}'') [AMsg e]) file_contents)
        (\<lambda>contents. and_then
           (ok_or (x_read_ceremony X contents) (Fmt (STR ''Failed to parse genesis ceremony file {}: {}'') [])) (\<lambda>a.
             and_then (validate_ceremony_sources a) (\<lambda>_.
             and_then (validate_ceremony_reward_derivation a) (\<lambda>_. Inr (contents, a)))))
      of
        Inl e \<Rightarrow> Some (Inl e)
      | Inr (contents, a) \<Rightarrow>
          map_option
            (\<lambda>computed. and_then computed (\<lambda>computed_master_hash.
               and_then (decode_hex_array X 32 ''master_hash'' (af_master_hash a)) (\<lambda>stated_master_hash.
                 if computed_master_hash \<noteq> stated_master_hash
                 then Inl (Fmt (STR ''Genesis ceremony master_hash does not match attestation contents'') [])
                 else
                   and_then (check_ceremony_signature X allow_dry_run_genesis stated_master_hash a) (\<lambda>(pk, sg).
                     Inr (ceremony_genesis_config X stated_master_hash pk sg a)))))
            (compute_ceremony_master_hash X contents))"

text \<open>\<open>None\<close> is the panic on an invalid ceremony file. The file system maps a path to contents.\<close>

definition genesis_config_for_node ::
  "'x ceremony_externs_scheme \<Rightarrow> (string \<Rightarrow> message + string) \<Rightarrow> node_config \<Rightarrow> genesis_config option" where
  "genesis_config_for_node X read_to_string config =
     (case cf_genesis_params_path config of
        None \<Rightarrow> Some genesis_config_default
      | Some path \<Rightarrow>
          (case load_genesis_config_from_attestation X (read_to_string path) (cf_allow_dry_run_genesis config) of
             Some (Inr genesis) \<Rightarrow> Some genesis
           | _ \<Rightarrow> None))"

end
