(* ===== verification/Ceremony_Tool.thy ===== *)
theory Ceremony_Tool
  imports Ceremony
begin

text \<open>
  The offline ceremony tool, \<open>scripts/genesis_ceremony/src/main.rs\<close>: the attestation it makes, the numbers it
  finds in what the sources answer, the median, the spread, the derivation, the master hash, dates, and
  the verification of an attestation. Ceremony\_Run holds its dialogue.
\<close>

section \<open>Data\<close>

record source_result =
  so_name :: string
  so_url :: string
  so_fetched_at_ms :: nat
  so_raw_response_hash :: string
  so_http_status :: "nat option"
  so_response_bytes :: nat
  so_extracted_value :: "f64 option"
  so_status :: string
  so_value_origin :: string
  so_evidence_note :: "string option"
  so_evidence_timestamp_ms :: "nat option"

record ceremony_attestation =
  ca_ceremony_start_ms :: nat
  ca_ceremony_end_ms :: nat
  ca_ceremony_timestamp :: nat
  ca_operator_name :: string
  ca_operator_public_key :: string
  ca_operator_signature :: string
  ca_production_data_year :: nat
  ca_production_sources :: "source_result list"
  ca_price_sources :: "source_result list"
  ca_price_fetch_spread_ms :: nat
  ca_median_production_tonnes :: f64
  ca_median_price_usd_cents :: nat
  ca_blocks_per_year :: nat
  ca_base_reward_opl :: nat
  ca_base_reward_flakes :: nat
  ca_derivation_steps :: "string list"
  ca_master_hash :: string

record tool_externs = ceremony_externs +
  x_lowercase :: "string \<Rightarrow> string"
  x_attestation_text :: "ceremony_attestation \<Rightarrow> string"
  x_read_attestation :: "string \<Rightarrow> ceremony_attestation option"

definition TROY_OZ_PER_TONNE :: f64 where "TROY_OZ_PER_TONNE = round_f64 (321507 / 10)"
definition CEREMONY_BLOCK_TARGET_TIME_MS :: nat where "CEREMONY_BLOCK_TARGET_TIME_MS = 90000"
definition CEREMONY_FLAKES_PER_OPL :: nat where "CEREMONY_FLAKES_PER_OPL = 1000000"
definition PROD_MIN_TONNES :: f64 where "PROD_MIN_TONNES = round_f64 1000"
definition PROD_MAX_TONNES :: f64 where "PROD_MAX_TONNES = round_f64 10000"
definition PRICE_MIN_USD_OZ :: f64 where "PRICE_MIN_USD_OZ = round_f64 500"
definition PRICE_MAX_USD_OZ :: f64 where "PRICE_MAX_USD_OZ = round_f64 15000"
definition OUTLIER_PCT :: f64 where "OUTLIER_PCT = round_f64 (15 / 100)"
definition MIN_PROD_SOURCES :: nat where "MIN_PROD_SOURCES = 5"
definition CEREMONY_WINDOW_SECS :: nat where "CEREMONY_WINDOW_SECS = 300"
definition PRICE_SPREAD_WARN_MS :: nat where "PRICE_SPREAD_WARN_MS = 60000"

definition empty_hash :: "'x externs_scheme \<Rightarrow> string" where
  "empty_hash X = x_hex_encode X (hash_as_bytes (x_blake3 X []))"

section \<open>Numbers in answers\<close>

text \<open>\<open>str::parse::<f64>\<close> of digits and dots.\<close>

definition parse_decimal :: "string \<Rightarrow> f64 option" where
  "parse_decimal s =
     (case split_at (CHR ''.'') s of
        [w] \<Rightarrow> if w = [] then None else Some (round_f64 (of_nat (digits_value w)))
      | [w, f] \<Rightarrow>
          if w @ f = [] then None
          else Some (round_f64 (of_nat (digits_value (w @ f)) / 10 ^ length f))
      | _ \<Rightarrow> None)"

definition number_char :: "char \<Rightarrow> bool" where
  "number_char c \<longleftrightarrow> is_digit c \<or> c = CHR '','' \<or> c = CHR ''.''"

definition in_range :: "f64 \<Rightarrow> f64 \<Rightarrow> f64 \<Rightarrow> bool" where
  "in_range lo hi v \<longleftrightarrow> (f64_less lo v \<or> v = lo) \<and> (f64_less v hi \<or> v = hi)"

function last_number_from :: "f64 option \<Rightarrow> string \<Rightarrow> f64 \<Rightarrow> f64 \<Rightarrow> f64 option" where
  "last_number_from result [] lo hi = result"
| "last_number_from result (c # s) lo hi =
     (if is_digit c
      then (let num_str = filter (\<lambda>c. c \<noteq> CHR '','') (takeWhile number_char (c # s));
                rest = dropWhile number_char (c # s)
            in last_number_from
                 (case parse_decimal num_str of
                    Some n \<Rightarrow> if in_range lo hi n then Some n else result
                  | None \<Rightarrow> result) rest lo hi)
      else last_number_from result s lo hi)"
  by pat_completeness auto
termination
  by (relation "measure (\<lambda>(_, s, _). length s)") (auto simp: number_char_def length_dropWhile_le le_imp_less_Suc)

definition last_number_in_range :: "string \<Rightarrow> f64 \<Rightarrow> f64 \<Rightarrow> f64 option" where
  "last_number_in_range s lo hi = last_number_from None s lo hi"

text \<open>The entries of an object come in the order of their keys.\<close>

definition first_some :: "'a option list \<Rightarrow> 'a option" where
  "first_some vs = fold (\<lambda>v r. if r = None then v else r) vs None"

function find_price_in_json :: "json \<Rightarrow> f64 option" where
  "find_price_in_json (JNumber n) =
     (let f = (case n of PosInt k \<Rightarrow> f64_of_nat k | NegInt i \<Rightarrow> round_f64 (of_int i) | FloatNumber v \<Rightarrow> v)
      in if in_range PRICE_MIN_USD_OZ PRICE_MAX_USD_OZ f then Some f else None)"
| "find_price_in_json (JObject kvs) =
     (let found = map (\<lambda>e. (fst e, find_price_in_json (snd e))) (sort_key fst kvs) in
      first_some (map (\<lambda>k. Option.bind (map_of found k) id)
          [''price'', ''ask'', ''bid'', ''spot'', ''usd'', ''rate''] @ map snd found))"
| "find_price_in_json (JArray vs) = first_some (map (find_price_in_json) vs)"
| "find_price_in_json JNull = None"
| "find_price_in_json (JBool b) = None"
| "find_price_in_json (JString s) = None"
  by pat_completeness auto
termination
  by (relation "measure size") (use size_sorted_entry size_array_entry in auto)

text \<open>
  A text is its UTF-8 bytes. A slice whose ends are out of order, out of range or inside a character
  panics. The positions in the lower-case text are used in the text itself.
\<close>

definition char_boundary :: "string \<Rightarrow> nat \<Rightarrow> bool" where
  "char_boundary s i \<longleftrightarrow> i = length s \<or> (i < length s \<and> (of_char (s ! i) :: nat) div 64 \<noteq> 2)"

definition slice :: "string \<Rightarrow> nat \<Rightarrow> nat \<Rightarrow> string option" where
  "slice s a b = (if a \<le> b \<and> char_boundary s a \<and> char_boundary s b then Some (take (b - a) (drop a s)) else None)"

fun find_text :: "string \<Rightarrow> string \<Rightarrow> nat option" where
  "find_text needle [] = (if needle = [] then Some 0 else None)"
| "find_text needle (c # s) = (if starts_with needle (c # s) then Some 0 else map_option Suc (find_text needle s))"

text \<open>\<open>None\<close> is the panic of a slice.\<close>

fun production_near :: "string \<Rightarrow> string \<Rightarrow> string list \<Rightarrow> f64 option option" where
  "production_near lower_text body [] = Some None"
| "production_near lower_text body (kw # kws) =
     (case find_text kw lower_text of
        None \<Rightarrow> production_near lower_text body kws
      | Some pos \<Rightarrow>
          (case slice body (pos - 200) pos of
             None \<Rightarrow> None
           | Some before \<Rightarrow>
               (case last_number_in_range before PROD_MIN_TONNES PROD_MAX_TONNES of
                  Some n \<Rightarrow> Some (Some n)
                | None \<Rightarrow>
                    (case slice body (pos + length kw) (min (pos + length kw + 200) (length body)) of
                       None \<Rightarrow> None
                     | Some after \<Rightarrow>
                         (case last_number_in_range after PROD_MIN_TONNES PROD_MAX_TONNES of
                            Some n \<Rightarrow> Some (Some n)
                          | None \<Rightarrow> production_near lower_text body kws)))))"

definition parse_production_tonnes :: "'x tool_externs_scheme \<Rightarrow> string \<Rightarrow> string \<Rightarrow> f64 option option" where
  "parse_production_tonnes X source_name body =
     (if body = [] \<or> source_name = ''BullionVault'' then Some None
      else production_near (x_lowercase X body) body [''tonne'', ''metric ton'', ''mine production'', ''world production''])"

fun price_near :: "string \<Rightarrow> string \<Rightarrow> string list \<Rightarrow> f64 option option" where
  "price_near lower_text body [] = Some None"
| "price_near lower_text body (kw # kws) =
     (case find_text kw lower_text of
        None \<Rightarrow> price_near lower_text body kws
      | Some pos \<Rightarrow>
          (case slice body (pos - 100) (min (pos + length kw + 100) (length body)) of
             None \<Rightarrow> None
           | Some window \<Rightarrow>
               (case last_number_in_range window PRICE_MIN_USD_OZ PRICE_MAX_USD_OZ of
                  Some n \<Rightarrow> Some (Some n)
                | None \<Rightarrow> price_near lower_text body kws)))"

definition parse_price_usd_oz :: "'x tool_externs_scheme \<Rightarrow> string \<Rightarrow> string \<Rightarrow> f64 option option" where
  "parse_price_usd_oz X source_name body =
     (if body = [] then Some None
      else if source_name = ''BullionVault''
      then Some (Option.bind (x_json_parse X body) (find_price_in_json))
      else price_near (x_lowercase X body) body
             [''spot price'', ''gold price'', ''ask price'', ''bid price'', ''xau'', ''per oz'', ''per ounce''])"

section \<open>Median and outliers\<close>

fun f64_insort :: "f64 \<Rightarrow> f64 list \<Rightarrow> f64 list" where
  "f64_insort x [] = [x]"
| "f64_insort x (y # ys) = (if f64_less y x then y # f64_insort x ys else x # y # ys)"

definition f64_sort :: "f64 list \<Rightarrow> f64 list" where
  "f64_sort vs = foldr f64_insort vs []"

text \<open>\<open>None\<close> is the panic on a comparison with a NaN and on no values at all.\<close>

definition trimmed_median :: "f64 list \<Rightarrow> f64 option" where
  "trimmed_median vs =
     (if vs = [] \<or> (2 \<le> length vs \<and> FNaN \<in> set vs) then None
      else
        (let sorted_values = f64_sort vs;
             values = (if 3 \<le> length sorted_values then butlast (tl sorted_values) else sorted_values);
             mid = length values div 2
         in Some (if even (length values) then f64_div (f64_add (values ! (mid - 1)) (values ! mid)) (round_f64 2)
                  else values ! mid)))"

definition apply_outlier_flags :: "f64 \<Rightarrow> source_result list \<Rightarrow> source_result list" where
  "apply_outlier_flags median rs =
     map (\<lambda>r. case so_extracted_value r of
            None \<Rightarrow> r
          | Some v \<Rightarrow>
              if f64_less OUTLIER_PCT (f64_div (f64_abs (f64_sub v median)) median)
              then r\<lparr>so_status := (if so_status r = ''manual'' then ''manual-outlier'' else ''outlier'')\<rparr> else r) rs"

definition price_fetch_spread_ms :: "source_result list \<Rightarrow> nat" where
  "price_fetch_spread_ms rs =
     (let ts = map so_fetched_at_ms (filter (\<lambda>r. 0 < so_fetched_at_ms r \<and> so_extracted_value r \<noteq> None) rs) in
      if length ts < 2 then 0 else Max (set ts) - Min (set ts))"

section \<open>Derivation\<close>

definition compute_blocks_per_year :: nat where
  "compute_blocks_per_year =
     (let ms_per_year = f64_mul (f64_mul (round_f64 (36525 / 100)) (round_f64 86400)) (round_f64 1000) in
      f64_to_u64 (f64_floor (f64_div ms_per_year (f64_of_nat CEREMONY_BLOCK_TARGET_TIME_MS))))"

definition annual_ounces :: "f64 \<Rightarrow> f64" where
  "annual_ounces tonnes = f64_mul tonnes TROY_OZ_PER_TONNE"

definition computed_reward_opl :: "f64 \<Rightarrow> nat \<Rightarrow> nat" where
  "computed_reward_opl tonnes blocks_per_year =
     f64_to_u64 (f64_floor (f64_div (annual_ounces tonnes) (f64_of_nat blocks_per_year)))"

definition price_cents :: "f64 \<Rightarrow> nat" where
  "price_cents usd = f64_to_u64 (f64_round (f64_mul usd (round_f64 100)))"

fun fmt_f64 :: "nat \<Rightarrow> f64 \<Rightarrow> string" where
  "fmt_f64 k (FNum q) = show_decimals k q"
| "fmt_f64 k (FInf s) = (if s then ''-inf'' else ''inf'')"
| "fmt_f64 k FNaN = ''NaN''"

text \<open>The sign of multiplication is the bytes C3 97.\<close>

definition build_derivation_steps :: "f64 \<Rightarrow> nat \<Rightarrow> f64 \<Rightarrow> nat \<Rightarrow> nat \<Rightarrow> string list" where
  "build_derivation_steps median_tonnes blocks_per_year annual_oz base_reward_opl base_reward_flakes =
     (let times = '' '' @ [CHR 0xC3, CHR 0x97] @ '' '' in
      [''median_production_tonnes = '' @ fmt_f64 4 median_tonnes @ '' t/yr (trimmed median, outliers flagged)'',
       ''troy_oz_per_tonne        = 32150.7'',
       ''annual_oz                = '' @ fmt_f64 4 median_tonnes @ times @ fmt_f64 1 TROY_OZ_PER_TONNE @ '' = '' @
         fmt_f64 4 annual_oz,
       ''block_target_time_ms     = '' @ show_nat CEREMONY_BLOCK_TARGET_TIME_MS,
       ''blocks_per_year          = floor(365.25'' @ times @ ''86400'' @ times @ ''1000 / '' @
         show_nat CEREMONY_BLOCK_TARGET_TIME_MS @ '') = '' @ show_nat blocks_per_year,
       ''base_reward_opl          = floor('' @ fmt_f64 4 annual_oz @ '' / '' @ show_nat blocks_per_year @ '') = '' @
         show_nat base_reward_opl,
       ''base_reward_flakes       = '' @ show_nat base_reward_opl @ times @ show_nat CEREMONY_FLAKES_PER_OPL @ '' = '' @
         show_nat base_reward_flakes])"

section \<open>Dates\<close>

definition is_leap :: "nat \<Rightarrow> bool" where
  "is_leap y \<longleftrightarrow> (4 dvd y \<and> \<not> 100 dvd y) \<or> 400 dvd y"

definition year_days :: "nat \<Rightarrow> nat" where
  "year_days y = (if is_leap y then 366 else 365)"

function year_loop :: "nat \<Rightarrow> nat \<Rightarrow> nat \<times> nat" where
  "year_loop y d = (if d < year_days y then (y, d) else year_loop (y + 1) (d - year_days y))"
  by auto
termination
  by (relation "measure (\<lambda>(y, d). d)") (auto simp: year_days_def split: if_splits)

declare year_loop.simps [simp del]

definition month_days :: "nat \<Rightarrow> nat list" where
  "month_days y = [31, if is_leap y then 29 else 28, 31, 30, 31, 30, 31, 31, 30, 31, 30, 31]"

fun month_loop :: "nat \<Rightarrow> nat list \<Rightarrow> nat \<Rightarrow> nat \<times> nat" where
  "month_loop mo [] d = (mo, d)"
| "month_loop mo (dm # dms) d = (if d < dm then (mo, d) else month_loop (mo + 1) dms (d - dm))"

definition civil_date :: "nat \<Rightarrow> nat \<times> nat \<times> nat" where
  "civil_date days =
     (case year_loop 1970 days of (y, d) \<Rightarrow>
       case month_loop 1 (month_days y) d of (mo, d') \<Rightarrow> (y, mo, d' + 1))"

definition format_timestamp :: "nat \<Rightarrow> string" where
  "format_timestamp ts_secs =
     (let tod = ts_secs mod 86400; two = (\<lambda>n. pad_zeros 2 (show_nat n)) in
      case civil_date (ts_secs div 86400) of (y, mo, d) \<Rightarrow>
        pad_zeros 4 (show_nat y) @ ''-'' @ two mo @ ''-'' @ two d @ '' '' @
        two (tod div 3600) @ '':'' @ two (tod mod 3600 div 60) @ '':'' @ two (tod mod 60) @ '' UTC'')"

text \<open>Groups of three digits from the right.\<close>

fun group_digits :: "nat \<Rightarrow> string \<Rightarrow> string" where
  "group_digits i [] = []"
| "group_digits i (c # s) = (if 0 < i \<and> i mod 3 = 0 then ''_'' else []) @ c # group_digits (i + 1) s"

definition format_flakes_constant :: "nat \<Rightarrow> string" where
  "format_flakes_constant flakes = rev (group_digits 0 (rev (show_nat flakes)))"

section \<open>The master hash\<close>

text \<open>
  \<open>serde_json::to_value\<close>: a map ordered by its keys, absent optional fields left out where the struct says
  so, null for an absent value and for a number that is not finite.
\<close>

definition json_object :: "(string \<times> json) list \<Rightarrow> json" where
  "json_object kvs = JObject (sort_key fst kvs)"

definition f64_json :: "f64 \<Rightarrow> json" where
  "f64_json v = (if f64_is_finite v then JNumber (FloatNumber v) else JNull)"

definition nat_json :: "nat \<Rightarrow> json" where "nat_json n = JNumber (PosInt n)"

definition optional_entry :: "string \<Rightarrow> ('a \<Rightarrow> json) \<Rightarrow> 'a option \<Rightarrow> (string \<times> json) list" where
  "optional_entry k f v = (case v of None \<Rightarrow> [] | Some x \<Rightarrow> [(k, f x)])"

definition source_json :: "source_result \<Rightarrow> json" where
  "source_json r =
     json_object
       ([(''name'', JString (so_name r)), (''url'', JString (so_url r)), (''fetched_at_ms'', nat_json (so_fetched_at_ms r)),
         (''raw_response_hash'', JString (so_raw_response_hash r))] @
        optional_entry ''http_status'' nat_json (so_http_status r) @
        [(''response_bytes'', nat_json (so_response_bytes r)),
         (''extracted_value'', case so_extracted_value r of None \<Rightarrow> JNull | Some v \<Rightarrow> f64_json v),
         (''status'', JString (so_status r)), (''value_origin'', JString (so_value_origin r))] @
        optional_entry ''evidence_note'' JString (so_evidence_note r) @
        optional_entry ''evidence_timestamp_ms'' nat_json (so_evidence_timestamp_ms r))"

definition attestation_entries :: "ceremony_attestation \<Rightarrow> (string \<times> json) list" where
  "attestation_entries a =
       [(''ceremony_start_ms'', nat_json (ca_ceremony_start_ms a)), (''ceremony_end_ms'', nat_json (ca_ceremony_end_ms a)),
        (''ceremony_timestamp'', nat_json (ca_ceremony_timestamp a)), (''operator_name'', JString (ca_operator_name a)),
        (''operator_public_key'', JString (ca_operator_public_key a)),
        (''operator_signature'', JString (ca_operator_signature a)),
        (''production_data_year'', nat_json (ca_production_data_year a)),
        (''production_sources'', JArray (map source_json (ca_production_sources a))),
        (''price_sources'', JArray (map source_json (ca_price_sources a))),
        (''price_fetch_spread_ms'', nat_json (ca_price_fetch_spread_ms a)),
        (''median_production_tonnes'', f64_json (ca_median_production_tonnes a)),
        (''median_price_usd_cents'', nat_json (ca_median_price_usd_cents a)),
        (''blocks_per_year'', nat_json (ca_blocks_per_year a)), (''base_reward_opl'', nat_json (ca_base_reward_opl a)),
        (''base_reward_flakes'', nat_json (ca_base_reward_flakes a)),
        (''derivation_steps'', JArray (map JString (ca_derivation_steps a))),
        (''master_hash'', JString (ca_master_hash a))]"

definition attestation_json :: "ceremony_attestation \<Rightarrow> json" where
  "attestation_json a = json_object (attestation_entries a)"

text \<open>
  The tool has its own copy of the canonical form, with other texts of the errors, and unwraps its
  result: \<open>None\<close> is the panic.
\<close>

definition compute_master_hash :: "'x tool_externs_scheme \<Rightarrow> ceremony_attestation \<Rightarrow> string option" where
  "compute_master_hash X a =
     (case blank_signed_fields (attestation_json a) of
        None \<Rightarrow> None
      | Some tmp \<Rightarrow>
          (case canonical_json X tmp of
             Inl _ \<Rightarrow> None
           | Inr canonical \<Rightarrow> Some (x_hex_encode X (hash_as_bytes (x_blake3 X (ascii canonical))))))"

section \<open>Verification\<close>

record verification_report =
  vr_errors :: "message list"
  vr_warnings :: "message list"

definition report_ok :: "verification_report \<Rightarrow> bool" where
  "report_ok r \<longleftrightarrow> vr_errors r = []"

definition note_if :: "bool \<Rightarrow> String.literal \<Rightarrow> message list" where
  "note_if b m = (if b then [Fmt m []] else [])"

text \<open>A decoded field, or zeros and an error.\<close>

definition decode_or_zero :: "'x externs_scheme \<Rightarrow> nat \<Rightarrow> string \<Rightarrow> string \<Rightarrow> byte list \<times> message list" where
  "decode_or_zero X n field value =
     (case decode_hex_array X n field value of Inr bs \<Rightarrow> (bs, []) | Inl e \<Rightarrow> (replicate n 0, [e]))"

definition source_errors :: "'x externs_scheme \<Rightarrow> string \<Rightarrow> source_result \<Rightarrow> message list" where
  "source_errors X label s =
     note_if (trim (so_name s) = []) (STR ''{} source has empty name'') @
     note_if (\<not> is_ok (decode_hex_array X 32 label (so_raw_response_hash s))) (STR ''{} source '{}' raw_response_hash must be 32-byte hex'') @
     (if starts_with ''manual'' (so_value_origin s) \<and> so_extracted_value s \<noteq> None
      then note_if (case so_evidence_note s of None \<Rightarrow> True | Some note \<Rightarrow> length (trim note) < 12)
             (STR ''{} source '{}' manual value is missing evidence_note'') @
           note_if (so_evidence_timestamp_ms s = None) (STR ''{} source '{}' manual value is missing evidence_timestamp_ms'')
      else [])"

definition source_warnings :: "source_result \<Rightarrow> message list" where
  "source_warnings s =
     note_if (trim (so_url s) = [] \<and> so_status s \<noteq> ''dry-run'') (STR ''{} source '{}' has empty URL'') @
     note_if (trim (so_value_origin s) = []) (STR ''{} source '{}' has no value_origin provenance'') @
     note_if (so_fetched_at_ms s = 0 \<and> so_status s \<noteq> ''dry-run'') (STR ''{} source '{}' has no fetch timestamp'') @
     note_if (so_http_status s \<noteq> None \<and> so_response_bytes s = 0) (STR ''{} source '{}' has HTTP status but zero response bytes'')"

definition signature_errors :: "'x externs_scheme \<Rightarrow> ceremony_attestation \<Rightarrow> message list" where
  "signature_errors X a =
     (case decode_or_zero X 32 ''master_hash'' (ca_master_hash a) of (master_hash, e1) \<Rightarrow>
      case decode_or_zero X 32 ''operator_public_key'' (ca_operator_public_key a) of (operator_public_key, e2) \<Rightarrow>
      case decode_or_zero X 64 ''operator_signature'' (ca_operator_signature a) of (operator_signature, e3) \<Rightarrow>
        e1 @ e2 @ e3 @
        (if x_ed25519_key_valid X operator_public_key
         then note_if (\<not> x_ed25519_verify_strict X operator_public_key master_hash operator_signature)
                (STR ''operator_signature does not verify master_hash'')
         else [Fmt (STR ''operator_public_key is not a valid ed25519 key'') []]))"

definition timing_errors :: "ceremony_attestation \<Rightarrow> message list" where
  "timing_errors a =
     note_if (ca_ceremony_end_ms a < ca_ceremony_start_ms a) (STR ''ceremony_end_ms is earlier than ceremony_start_ms'') @
     note_if (CEREMONY_WINDOW_SECS * 1000 < sat_sub (ca_ceremony_end_ms a) (ca_ceremony_start_ms a))
       (STR ''ceremony duration {}s exceeds {}s window'') @
     note_if (ca_ceremony_timestamp a \<noteq> ca_ceremony_start_ms a div 1000) (STR ''ceremony_timestamp must equal ceremony_start_ms / 1000'')"

definition source_values :: "source_result list \<Rightarrow> f64 list" where
  "source_values rs = List.map_filter so_extracted_value rs"

definition median_errors :: "ceremony_attestation \<Rightarrow> message list option" where
  "median_errors a =
     (let prod_values = source_values (ca_production_sources a); price_values = source_values (ca_price_sources a) in
      case (if length prod_values < MIN_PROD_SOURCES
            then Some [Fmt (STR ''only {} production sources succeeded; need at least {}'') []]
            else map_option (\<lambda>m. note_if
                (f64_less (round_f64 (1 / 10000)) (f64_abs (f64_sub m (ca_median_production_tonnes a))))
                (STR ''median_production_tonnes mismatch: attestation {}, computed {}'')) (trimmed_median prod_values)) of
        None \<Rightarrow> None
      | Some e1 \<Rightarrow>
          (if price_values = [] then Some (e1 @ [Fmt (STR ''no price sources succeeded'') []])
           else map_option (\<lambda>m. e1 @ note_if (price_cents m \<noteq> ca_median_price_usd_cents a)
                  (STR ''median_price_usd_cents mismatch: attestation {}, computed {}'')) (trimmed_median price_values)))"

definition derivation_errors :: "ceremony_attestation \<Rightarrow> message list" where
  "derivation_errors a =
     (let blocks_per_year = compute_blocks_per_year;
          base_reward_opl = computed_reward_opl (ca_median_production_tonnes a) blocks_per_year;
          base_reward_flakes = min (base_reward_opl * CEREMONY_FLAKES_PER_OPL) U64_MAX
      in note_if (ca_price_fetch_spread_ms a \<noteq> price_fetch_spread_ms (ca_price_sources a))
           (STR ''price_fetch_spread_ms mismatch: attestation {}, computed {}'') @
         note_if (ca_blocks_per_year a \<noteq> blocks_per_year) (STR ''blocks_per_year mismatch: attestation {}, computed {}'') @
         note_if (ca_base_reward_opl a \<noteq> base_reward_opl) (STR ''base_reward_opl mismatch: attestation {}, computed {}'') @
         note_if (ca_base_reward_flakes a \<noteq> base_reward_flakes)
           (STR ''base_reward_flakes mismatch: attestation {}, computed {}'') @
         note_if (ca_production_data_year a = 0) (STR ''production_data_year must be non-zero''))"

text \<open>The errors and the warnings, each in groups; \<open>None\<close> is a panic on the way.\<close>

definition verify_attestation :: "'x tool_externs_scheme \<Rightarrow> ceremony_attestation \<Rightarrow> verification_report option" where
  "verify_attestation X a =
     (case (compute_master_hash X a, median_errors a) of
        (Some computed_master_hash, Some medians) \<Rightarrow>
          Some \<lparr> vr_errors =
               note_if (computed_master_hash \<noteq> ca_master_hash a) (STR ''master_hash mismatch: expected {}, computed {}'') @
               signature_errors X a @ timing_errors a @
               concat (map (source_errors X ''production'') (ca_production_sources a)) @
               concat (map (source_errors X ''price'') (ca_price_sources a)) @
               medians @ derivation_errors a,
             vr_warnings =
               concat (map source_warnings (ca_production_sources a @ ca_price_sources a)) @
               note_if (PRICE_SPREAD_WARN_MS < price_fetch_spread_ms (ca_price_sources a))
                 (STR ''price source fetch spread is {}s, above {}s warning threshold'') @
               note_if (ca_derivation_steps a = []) (STR ''derivation_steps is empty'') \<rparr>
      | _ \<Rightarrow> None)"

text \<open>The exit code of \<open>verify\<close>.\<close>

definition run_verify :: "'x tool_externs_scheme \<Rightarrow> message + string \<Rightarrow> nat option" where
  "run_verify X file_contents =
     (case and_then file_contents (\<lambda>c. ok_or (x_read_attestation X c) (Fmt (STR ''cannot parse attestation {}: {}'') [])) of
        Inl _ \<Rightarrow> Some 1
      | Inr a \<Rightarrow> map_option (\<lambda>r. if report_ok r then 0 else 1) (verify_attestation X a))"

end
