(* ===== verification/Ceremony_Run.thy ===== *)
theory Ceremony_Run
  imports Ceremony_Tool
begin

text \<open>
  The dialogue of the ceremony tool, \<open>scripts/genesis_ceremony/src/main.rs\<close>: the questions to the operator, the
  collection of the sources, the operator's key, and the three modes of the ceremony. What the network
  returned for each URL, the lines the operator types, the readings of the clock and the contents of
  the key file are inputs; the end of the input leaves a question unanswered for ever.
\<close>

section \<open>Sources\<close>

record source_def =
  sd_name :: string
  sd_url :: string

definition PROD_SOURCES :: "source_def list" where
  "PROD_SOURCES =
     [\<lparr> sd_name = ''USGS'', sd_url = ''https://minerals.usgs.gov/minerals/pubs/commodity/gold/'' \<rparr>,
      \<lparr> sd_name = ''World Gold Council'', sd_url = ''https://www.gold.org/goldhub/data/gold-demand-statistics'' \<rparr>,
      \<lparr> sd_name = ''Kitco Production'', sd_url = ''https://www.kitco.com/charts/goldproduction.html'' \<rparr>,
      \<lparr> sd_name = ''MacroTrends'', sd_url = ''https://www.macrotrends.net/1369/gold-price-history'' \<rparr>,
      \<lparr> sd_name = ''Trading Economics'', sd_url = ''https://tradingeconomics.com/commodity/gold'' \<rparr>,
      \<lparr> sd_name = ''LBMA Annual Survey'', sd_url = ''https://www.lbma.org.uk/prices-and-data/precious-metal-prices'' \<rparr>,
      \<lparr> sd_name = ''Metals Focus'', sd_url = ''https://metalsfocus.com'' \<rparr>]"

definition PRICE_SOURCES :: "source_def list" where
  "PRICE_SOURCES =
     [\<lparr> sd_name = ''CME Group COMEX'', sd_url = ''https://www.cmegroup.com/markets/metals/precious/gold.html'' \<rparr>,
      \<lparr> sd_name = ''LBMA Live Price'', sd_url = ''https://www.lbma.org.uk/prices-and-data/precious-metal-prices'' \<rparr>,
      \<lparr> sd_name = ''Kitco Spot'', sd_url = ''https://www.kitco.com/gold-price-today-usa/'' \<rparr>,
      \<lparr> sd_name = ''BullionVault'', sd_url = ''https://api.bullionvault.com/gold-price-chart.json'' \<rparr>,
      \<lparr> sd_name = ''Goldprice.org'', sd_url = ''https://goldprice.org/gold-price.html'' \<rparr>,
      \<lparr> sd_name = ''Reuters/LSEG'', sd_url = ''https://www.lseg.com/en/financial-data/financial-markets/commodities'' \<rparr>]"

record fetch_result =
  fr_raw_response_hash :: string
  fr_extracted_value :: "f64 option"
  fr_fetched_at_ms :: nat
  fr_http_status :: "nat option"
  fr_response_bytes :: nat

definition no_fetch :: "'x externs_scheme \<Rightarrow> fetch_result" where
  "no_fetch X = \<lparr> fr_raw_response_hash = empty_hash X, fr_extracted_value = None, fr_fetched_at_ms = 0,
                  fr_http_status = None, fr_response_bytes = 0 \<rparr>"

text \<open>What came back for a URL: the status, the body and the time, or nothing on an error.\<close>

type_synonym response = "(nat \<times> string \<times> nat) option"

definition fetch :: "'x externs_scheme \<Rightarrow> response \<Rightarrow> string \<times> string \<times> nat \<times> nat option \<times> nat" where
  "fetch X r =
     (case r of
        None \<Rightarrow> ([], empty_hash X, 0, None, 0)
      | Some (status, body, t) \<Rightarrow>
          (body, x_hex_encode X (hash_as_bytes (x_blake3 X (ascii body))), t, Some status, length body))"

text \<open>One task per source; a task that panics counts as one that fetched nothing.\<close>

definition run_fetch_phase ::
  "'x externs_scheme \<Rightarrow> source_def list \<Rightarrow> (string \<Rightarrow> string \<Rightarrow> f64 option option) \<Rightarrow> response list \<Rightarrow> fetch_result list" where
  "run_fetch_phase X sources parse_fn responses =
     map (\<lambda>(d, r).
         case fetch X r of (body, h, t, status, bytes) \<Rightarrow>
           (case parse_fn (sd_name d) body of
              None \<Rightarrow> no_fetch X
            | Some v \<Rightarrow> \<lparr> fr_raw_response_hash = h, fr_extracted_value = v, fr_fetched_at_ms = t,
                          fr_http_status = status, fr_response_bytes = bytes \<rparr>))
       (zip sources responses)"

section \<open>Questions\<close>

record tool_io =
  io_lines :: "string list"
  io_clock :: "nat \<Rightarrow> nat"
  io_tick :: nat

definition now_ms :: "tool_io \<Rightarrow> nat \<times> tool_io" where
  "now_ms io = (io_clock io (io_tick io), io\<lparr>io_tick := io_tick io + 1\<rparr>)"

text \<open>Each question is asked until a line answers it.\<close>

fun prompt_value :: "string list \<Rightarrow> (f64 option \<times> string list) option" where
  "prompt_value [] = None"
| "prompt_value (line # ls) =
     (let s = trim line in
      if map lower_char s = ''skip'' then Some (None, ls)
      else (case parse_decimal (filter (\<lambda>c. is_digit c \<or> c = CHR ''.'') s) of
              Some n \<Rightarrow> if f64_less (FNum 0) n then Some (Some n, ls) else prompt_value ls
            | None \<Rightarrow> prompt_value ls))"

fun prompt_evidence_note :: "string list \<Rightarrow> (string \<times> string list) option" where
  "prompt_evidence_note [] = None"
| "prompt_evidence_note (line # ls) =
     (let note = trim line in if 12 \<le> length (trim note) then Some (note, ls) else prompt_evidence_note ls)"

text \<open>\<open>to_lowercase\<close> makes these four answers of ASCII letters only.\<close>

fun confirm_lines :: "string list \<Rightarrow> (bool \<times> string list) option" where
  "confirm_lines [] = None"
| "confirm_lines (line # ls) =
     (let s = map lower_char (trim line) in
      if s = ''yes'' \<or> s = ''y'' then Some (True, ls)
      else if s = ''no'' \<or> s = ''n'' then Some (False, ls)
      else confirm_lines ls)"

text \<open>The dry run confirms itself.\<close>

definition operator_confirm :: "bool \<Rightarrow> tool_io \<Rightarrow> (bool \<times> tool_io) option" where
  "operator_confirm is_dry_run io =
     (if is_dry_run then Some (True, io)
      else map_option (\<lambda>(b, ls). (b, io\<lparr>io_lines := ls\<rparr>)) (confirm_lines (io_lines io)))"

section \<open>Collecting\<close>

text \<open>A value from the operator: the value, its evidence with the time of it, and the time of the answer.\<close>

definition ask_operator ::
  "tool_io \<Rightarrow> (f64 option \<times> string option \<times> nat option \<times> nat \<times> tool_io) option" where
  "ask_operator io =
     (case prompt_value (io_lines io) of
        None \<Rightarrow> None
      | Some (None, ls) \<Rightarrow> (case now_ms (io\<lparr>io_lines := ls\<rparr>) of (t, io1) \<Rightarrow> Some (None, None, None, t, io1))
      | Some (Some v, ls) \<Rightarrow>
          (case prompt_evidence_note ls of
             None \<Rightarrow> None
           | Some (note, ls1) \<Rightarrow>
               (case now_ms (io\<lparr>io_lines := ls1\<rparr>) of (t1, io1) \<Rightarrow>
                case now_ms io1 of (t2, io2) \<Rightarrow> Some (Some v, Some note, Some t1, t2, io2))))"

definition source_entry ::
  "f64 \<Rightarrow> f64 \<Rightarrow> source_def \<Rightarrow> fetch_result \<Rightarrow> f64 option \<Rightarrow> nat \<Rightarrow> bool \<Rightarrow> string \<Rightarrow> string option \<Rightarrow> nat option \<Rightarrow>
   source_result" where
  "source_entry lo hi d f v fetched_at was_manual origin note note_ts =
     (let value = (case v of None \<Rightarrow> None | Some x \<Rightarrow> if in_range lo hi x then Some x else None) in
      \<lparr> so_name = sd_name d, so_url = sd_url d, so_fetched_at_ms = fetched_at,
        so_raw_response_hash = fr_raw_response_hash f, so_http_status = fr_http_status f,
        so_response_bytes = fr_response_bytes f, so_extracted_value = value,
        so_status = (if value = None then ''failed'' else if was_manual then ''manual'' else ''ok''),
        so_value_origin = origin, so_evidence_note = note, so_evidence_timestamp_ms = note_ts \<rparr>)"

definition collect_source ::
  "bool \<Rightarrow> f64 \<Rightarrow> f64 \<Rightarrow> source_def \<Rightarrow> fetch_result \<Rightarrow> tool_io \<Rightarrow> (source_result \<times> tool_io) option" where
  "collect_source manual lo hi d f io =
     (if \<not> manual \<and> fr_extracted_value f \<noteq> None
      then Some (source_entry lo hi d f (fr_extracted_value f) (fr_fetched_at_ms f) False ''auto-parse'' None None, io)
      else map_option (\<lambda>(v, note, note_ts, t, io1).
          (source_entry lo hi d f v t True
             (if manual then if v \<noteq> None then ''manual'' else ''manual-skip''
              else if v \<noteq> None then ''manual-after-auto-fail'' else ''failed'') note note_ts, io1)) (ask_operator io))"

fun collect_source_results ::
  "bool \<Rightarrow> f64 \<Rightarrow> f64 \<Rightarrow> (source_def \<times> fetch_result) list \<Rightarrow> tool_io \<Rightarrow> (source_result list \<times> tool_io) option" where
  "collect_source_results manual lo hi [] io = Some ([], io)"
| "collect_source_results manual lo hi ((d, f) # dfs) io =
     (case collect_source manual lo hi d f io of
        None \<Rightarrow> None
      | Some (r, io1) \<Rightarrow> map_option (apfst (Cons r)) (collect_source_results manual lo hi dfs io1))"

section \<open>The operator's key\<close>

definition is_hex_digit :: "char \<Rightarrow> bool" where
  "is_hex_digit c \<longleftrightarrow> is_digit c \<or> (97 \<le> (of_char (lower_char c) :: nat) \<and> (of_char (lower_char c) :: nat) \<le> 102)"

definition key_file_hex :: "string \<Rightarrow> string" where
  "key_file_hex content =
     filter is_hex_digit (concat (filter (\<lambda>l. take 1 l \<noteq> ''#'') (split_at (CHR 0x0A) content)))"

text \<open>
  The seed, or \<open>None\<close> for the exit with code 1. Without a key file the seed is random and must be written
  to a new file; \<open>key_written\<close> tells whether that succeeded.
\<close>

definition load_or_generate_signing_key ::
  "'x externs_scheme \<Rightarrow> (message + string) option \<Rightarrow> byte list \<Rightarrow> bool \<Rightarrow> byte list option" where
  "load_or_generate_signing_key X key_file random key_written =
     (case key_file of
        Some (Inl e) \<Rightarrow> None
      | Some (Inr content) \<Rightarrow>
          (case x_hex_decode X (key_file_hex content) of
             None \<Rightarrow> None
           | Some seed \<Rightarrow> if length seed = 32 then Some seed else None)
      | None \<Rightarrow> if key_written then Some random else None)"

definition sign_master_hash :: "'x tool_externs_scheme \<Rightarrow> byte list \<Rightarrow> string \<Rightarrow> string option" where
  "sign_master_hash X seed master_hash_hex =
     map_option (\<lambda>bytes. x_hex_encode X (x_ed25519_sign X seed bytes)) (x_hex_decode X master_hash_hex)"

section \<open>The ceremony\<close>

record ceremony_cli =
  cc_dry_run :: bool
  cc_manual :: bool
  cc_operator :: string
  cc_production_year :: "nat option"

text \<open>What the ceremony meets outside: the key, the answers of the network, and the operator.\<close>

record ceremony_input =
  cin_key_file :: "(message + string) option"
  cin_random_seed :: "byte list"
  cin_key_written :: bool
  cin_prod_responses :: "response list"
  cin_price_responses :: "response list"
  cin_io :: tool_io

datatype ceremony_outcome = Exits nat | AbortedByOperator | Written ceremony_attestation

definition DRY_RUN_PROD_TONNES :: f64 where "DRY_RUN_PROD_TONNES = round_f64 3630"
definition DRY_RUN_PRICE_USD_OZ :: f64 where "DRY_RUN_PRICE_USD_OZ = round_f64 2386"
definition DRY_RUN_PROD_YEAR :: nat where "DRY_RUN_PROD_YEAR = 2024"
definition DRY_RUN_KEY_SEED :: "byte list" where "DRY_RUN_KEY_SEED = replicate 32 42"

definition default_production_year :: "nat \<Rightarrow> nat" where
  "default_production_year ceremony_timestamp =
     (let y = take 4 (format_timestamp ceremony_timestamp) in
      sat_sub (if \<forall>c \<in> set y. is_digit c then digits_value y else 2024) 1)"

text \<open>The attestation before it is hashed, from the sources, the medians and the spread.\<close>

definition assemble ::
  "'x tool_externs_scheme \<Rightarrow> nat \<Rightarrow> nat \<Rightarrow> string \<Rightarrow> byte list \<Rightarrow> nat \<Rightarrow> source_result list \<Rightarrow> source_result list \<Rightarrow>
   nat \<Rightarrow> f64 \<Rightarrow> nat \<Rightarrow> ceremony_attestation" where
  "assemble X start_ms end_ms operator seed year prods prices spread_ms median_prod cents =
     (let blocks_per_year = compute_blocks_per_year;
          annual_oz = annual_ounces median_prod;
          base_reward_opl = computed_reward_opl median_prod blocks_per_year;
          base_reward_flakes = wrap64 (base_reward_opl * CEREMONY_FLAKES_PER_OPL)
      in \<lparr> ca_ceremony_start_ms = start_ms, ca_ceremony_end_ms = end_ms, ca_ceremony_timestamp = start_ms div 1000,
           ca_operator_name = operator, ca_operator_public_key = x_hex_encode X (x_ed25519_public_key X seed),
           ca_operator_signature = [], ca_production_data_year = year, ca_production_sources = prods,
           ca_price_sources = prices, ca_price_fetch_spread_ms = spread_ms,
           ca_median_production_tonnes = median_prod, ca_median_price_usd_cents = cents,
           ca_blocks_per_year = blocks_per_year, ca_base_reward_opl = base_reward_opl,
           ca_base_reward_flakes = base_reward_flakes,
           ca_derivation_steps = build_derivation_steps median_prod blocks_per_year annual_oz base_reward_opl base_reward_flakes,
           ca_master_hash = [] \<rparr>)"

text \<open>Hash, confirmation, signature.\<close>

definition seal ::
  "'x tool_externs_scheme \<Rightarrow> bool \<Rightarrow> byte list \<Rightarrow> ceremony_attestation \<Rightarrow> tool_io \<Rightarrow> ceremony_outcome option" where
  "seal X is_dry_run seed a io =
     (case compute_master_hash X a of
        None \<Rightarrow> None
      | Some h \<Rightarrow>
          (case operator_confirm is_dry_run io of
             None \<Rightarrow> None
           | Some (False, io1) \<Rightarrow> Some AbortedByOperator
           | Some (True, io1) \<Rightarrow>
               map_option (\<lambda>sg. Written (a\<lparr>ca_master_hash := h, ca_operator_signature := sg\<rparr>)) (sign_master_hash X seed h)))"

definition dry_source :: "'x externs_scheme \<Rightarrow> f64 \<Rightarrow> source_def \<Rightarrow> source_result" where
  "dry_source X v d =
     \<lparr> so_name = sd_name d, so_url = sd_url d, so_fetched_at_ms = 0,
       so_raw_response_hash = x_hex_encode X (hash_as_bytes (x_blake3 X (ascii ''dry-run''))), so_http_status = None,
       so_response_bytes = 0, so_extracted_value = Some v, so_status = ''dry-run'', so_value_origin = ''dry-run'',
       so_evidence_note = None, so_evidence_timestamp_ms = None \<rparr>"

definition run_dry_ceremony :: "'x tool_externs_scheme \<Rightarrow> ceremony_cli \<Rightarrow> nat \<Rightarrow> tool_io \<Rightarrow> ceremony_outcome option" where
  "run_dry_ceremony X cli start_ms io =
     (case now_ms io of (t1, io1) \<Rightarrow>
      case now_ms io1 of (end_ms, io2) \<Rightarrow>
        seal X True DRY_RUN_KEY_SEED
          (assemble X start_ms end_ms (cc_operator cli) DRY_RUN_KEY_SEED DRY_RUN_PROD_YEAR
             (map (dry_source X DRY_RUN_PROD_TONNES) PROD_SOURCES) (map (dry_source X DRY_RUN_PRICE_USD_OZ) PRICE_SOURCES)
             0 DRY_RUN_PROD_TONNES (price_cents DRY_RUN_PRICE_USD_OZ)) io2)"

text \<open>The medians are taken before the outliers are flagged; no price at all is recorded as zero.\<close>

definition conclude_ceremony ::
  "'x tool_externs_scheme \<Rightarrow> ceremony_cli \<Rightarrow> byte list \<Rightarrow> nat \<Rightarrow> source_result list \<Rightarrow> f64 \<Rightarrow> source_result list \<Rightarrow> tool_io \<Rightarrow>
   ceremony_outcome option" where
  "conclude_ceremony X cli seed start_ms prods median_prod prices io =
     (case (if source_values prices = [] then Some (prices, FNum 0)
            else map_option (\<lambda>m. (apply_outlier_flags m prices, m)) (trimmed_median (source_values prices))) of
        None \<Rightarrow> None
      | Some (flagged, median_price) \<Rightarrow>
          (case now_ms io of (t1, io1) \<Rightarrow>
           case now_ms io1 of (end_ms, io2) \<Rightarrow>
             seal X False seed
               (assemble X start_ms end_ms (cc_operator cli) seed
                  (case cc_production_year cli of None \<Rightarrow> default_production_year (start_ms div 1000) | Some y \<Rightarrow> y)
                  prods flagged (price_fetch_spread_ms prices) median_prod (price_cents median_price)) io2))"

definition run_ceremony ::
  "'x tool_externs_scheme \<Rightarrow> ceremony_cli \<Rightarrow> ceremony_input \<Rightarrow> ceremony_outcome option" where
  "run_ceremony X cli input =
     (case now_ms (cin_io input) of (start_ms, io) \<Rightarrow>
       if cc_dry_run cli then run_dry_ceremony X cli start_ms io
       else
         (case load_or_generate_signing_key X (cin_key_file input) (cin_random_seed input) (cin_key_written input) of
            None \<Rightarrow> Some (Exits 1)
          | Some seed \<Rightarrow>
              (let manual = cc_manual cli;
                   prod_fetch = (if manual then map (\<lambda>_. no_fetch X) PROD_SOURCES
                                 else run_fetch_phase X PROD_SOURCES (parse_production_tonnes X) (cin_prod_responses input));
                   price_fetch = (if manual then map (\<lambda>_. no_fetch X) PRICE_SOURCES
                                  else run_fetch_phase X PRICE_SOURCES (parse_price_usd_oz X) (cin_price_responses input))
               in case collect_source_results manual PROD_MIN_TONNES PROD_MAX_TONNES (zip PROD_SOURCES prod_fetch) io of
                    None \<Rightarrow> None
                  | Some (prods, io1) \<Rightarrow>
                      if length (source_values prods) < MIN_PROD_SOURCES then Some (Exits 1)
                      else
                        (case trimmed_median (source_values prods) of
                           None \<Rightarrow> None
                         | Some median_prod \<Rightarrow>
                             (case collect_source_results manual PRICE_MIN_USD_OZ PRICE_MAX_USD_OZ
                                 (zip PRICE_SOURCES price_fetch) io1 of
                                None \<Rightarrow> None
                              | Some (prices, io2) \<Rightarrow>
                                  conclude_ceremony X cli seed start_ms (apply_outlier_flags median_prod prods)
                                    median_prod prices io2)))))"

end
