(* ===== verification/Ceremony_Props.thy ===== *)
theory Ceremony_Props
  imports Ceremony_Run
begin

text \<open>
  What holds of the numbers of the genesis ceremony: the derived reward, the median and the dates.
\<close>

section \<open>Rounding of the numbers that occur\<close>

lemma floor_log2_le: "0 < q \<Longrightarrow> q \<le> 2 powi e \<Longrightarrow> floor_log2 q \<le> e"
proof -
  assume q: "0 < q" "q \<le> 2 powi e"
  have "(2 :: rat) powi floor_log2 q < 2 powi (e + 1)"
    using floor_log2_bounds(1) [OF q(1)] q(2) powi_less_iff [of e "e + 1"] by linarith
  then show ?thesis by (simp add: powi_less_iff)
qed

lemma round_f64_pos:
  assumes "0 < q" and "q \<le> 2 ^ 1000"
  shows "round_f64 q = FNum (round_magnitude q)"
proof -
  have q: "q \<le> 2 powi 1000" using assms(2) by simp
  have "ulp_exp q \<le> 1000" using floor_log2_le [OF assms(1) q] by (simp add: ulp_exp_def)
  then have "round_magnitude q \<le> 2 powi 1000" using q by (rule round_magnitude_le_powi)
  then have "round_magnitude q \<le> 2 ^ 1000" by simp
  also have "(2 :: rat) ^ 1000 < 2 ^ 1024" by (rule power_strict_increasing) simp_all
  finally have "\<not> 2 ^ 1024 \<le> round_magnitude q" by (simp only: not_le)
  with assms(1) show ?thesis unfolding round_f64_def Let_def by (simp only: abs_of_pos less_imp_neq [symmetric] if_False not_less [symmetric]) simp
qed

lemma small_power: "q \<le> 2 ^ 53 \<Longrightarrow> (q :: rat) \<le> 2 ^ 1000"
  using power_increasing [of 53 1000 "2 :: rat"] by simp

lemma round_magnitude_nonneg: "0 \<le> q \<Longrightarrow> 0 \<le> round_magnitude q"
  using round_multiple_ge [of 0 "ulp_exp q" q] by (simp add: round_magnitude_def)

lemma round_between_nats:
  assumes "0 < m" and "n \<le> 2 ^ 53" and "of_nat m \<le> q" and "q \<le> of_nat n"
  shows "\<exists>r. round_f64 q = FNum r \<and> of_nat m \<le> r \<and> r \<le> of_nat n"
proof -
  have mn: "(of_nat m :: rat) \<le> of_nat n" using assms(3,4) by (rule order_trans)
  then have "m \<le> n" by simp
  then have m: "m \<le> 2 ^ 53" "0 < n" using assms(1,2) by simp_all
  have q: "0 < q" using assms(1,3) by (metis less_le_trans of_nat_0_less_iff)
  have "(of_nat n :: rat) \<le> of_nat (2 ^ 53)" using assms(2) by (simp only: of_nat_le_iff)
  then have n: "(of_nat n :: rat) \<le> 2 ^ 53" by simp
  have "round_f64 q = FNum (round_magnitude q)"
    by (rule round_f64_pos [OF q small_power [OF order_trans [OF assms(4) n]]])
  moreover have "of_nat m \<le> round_magnitude q"
    using round_magnitude_mono [of "of_nat m" q] assms(1,3) round_magnitude_nat [OF assms(1) m(1)] by simp
  moreover have "round_magnitude q \<le> of_nat n"
    using round_magnitude_mono [OF q assms(4)] round_magnitude_nat [OF m(2) assms(2)] by simp
  ultimately show ?thesis by blast
qed

lemma round_f64_nat: "n \<le> 2 ^ 53 \<Longrightarrow> round_f64 (of_nat n) = FNum (of_nat n)"
  using round_between_nats [of n n "of_nat n"] by (cases "n = 0") (auto simp: round_f64_def)

lemma round_f64_numeral: "numeral k \<le> (2 ^ 53 :: nat) \<Longrightarrow> round_f64 (numeral k) = FNum (numeral k)"
  using round_f64_nat [of "numeral k"] by simp

lemma troy_ounces: "\<exists>r. CEREMONY_TROY_OZ_PER_TONNE = FNum r \<and> 32150 \<le> r \<and> r \<le> 32151"
  using round_between_nats [of 32150 32151 "321507 / 10"] by (simp add: CEREMONY_TROY_OZ_PER_TONNE_def)

lemma blocks_per_year_f64:
  "BLOCKS_PER_YEAR = 350640" "f64_of_nat BLOCKS_PER_YEAR = FNum 350640" "f64_of_nat 350640 = FNum 350640"
proof -
  show b: "BLOCKS_PER_YEAR = 350640" by (simp add: BLOCKS_PER_YEAR_def)
  show "f64_of_nat 350640 = FNum 350640" using round_f64_nat [of 350640] by (simp add: f64_of_nat_def)
  then show "f64_of_nat BLOCKS_PER_YEAR = FNum 350640" by (simp only: b)
qed

lemma ceremony_bounds_f64:
  "CEREMONY_PROD_MIN_TONNES = FNum 1000" "CEREMONY_PROD_MAX_TONNES = FNum 10000"
  by (simp_all add: CEREMONY_PROD_MIN_TONNES_def CEREMONY_PROD_MAX_TONNES_def round_f64_numeral)

lemma round_magnitude_dyadic:
  assumes "0 < q" and "q \<le> 2 powi (e + 52)" and "- 1074 \<le> e" and "q = of_int k * 2 powi e"
  shows "round_magnitude q = q"
proof -
  have e: "ulp_exp q \<le> e" using floor_log2_le [OF assms(1,2)] assms(3) by (simp add: ulp_exp_def)
  have "q = of_int (k * 2 ^ nat (e - ulp_exp q)) * 2 powi ulp_exp q"
    using assms(4) powi_split [OF e] by (simp add: mult.assoc)
  then show ?thesis by (rule round_magnitude_exact [OF assms(1)])
qed

lemma below_917: "q \<le> 58687 / 64 \<Longrightarrow> 0 < q \<Longrightarrow> round_magnitude q < 917"
proof -
  assume q: "q \<le> 58687 / 64" "0 < q"
  have "round_magnitude (58687 / 64) = 58687 / 64"
    by (rule round_magnitude_dyadic [of _ "- 6" 58687]) (simp_all add: power_int_minus_divide)
  then show ?thesis using round_magnitude_mono [OF q(2,1)] by simp
qed

lemma reward_quotient:
  assumes "1000 \<le> t" and "t \<le> 10000"
  shows "\<exists>y. f64_div (f64_mul (FNum t) CEREMONY_TROY_OZ_PER_TONNE) (f64_of_nat BLOCKS_PER_YEAR) = FNum y \<and>
    91 \<le> y \<and> y < 917 \<and> (t = 10000 \<longrightarrow> 916 \<le> y)"
proof -
  obtain r where r: "CEREMONY_TROY_OZ_PER_TONNE = FNum r" "32150 \<le> r" "r \<le> 32151" using troy_ounces by blast
  have "1000 * 32150 \<le> t * r" "t * r \<le> 10000 * 32151" using assms r by (intro mult_mono; simp)+
  then obtain z where z: "round_f64 (t * r) = FNum z" "32150000 \<le> z" "z \<le> 321510000"
    using round_between_nats [of 32150000 321510000 "t * r"] by auto
  have top: "321500000 \<le> z" if "t = 10000"
    using round_between_nats [of 321500000 321510000 "t * r"] that r z(1) by auto
  have q: "91 \<le> z / 350640" "z / 350640 \<le> 58687 / 64" using z by (simp_all add: field_simps)
  then obtain y where y: "round_f64 (z / 350640) = FNum y" "91 \<le> y"
    using round_between_nats [of 91 1000 "z / 350640"] by auto
  have pos: "0 < z / 350640" using q(1) by linarith
  have "z / 350640 \<le> 2 ^ 53" using q(2) by simp
  then have "y = round_magnitude (z / 350640)" using round_f64_pos [OF pos small_power] y(1) by simp
  then have "y < 917" using below_917 [OF q(2) pos] by simp
  moreover have "916 \<le> y" if "t = 10000"
  proof -
    have "916 \<le> z / 350640" using top [OF that] by (simp add: field_simps)
    then show ?thesis using round_between_nats [of 916 1000 "z / 350640"] q(2) y(1) by auto
  qed
  moreover have "f64_div (f64_mul (FNum t) CEREMONY_TROY_OZ_PER_TONNE) (f64_of_nat BLOCKS_PER_YEAR) = FNum y"
    by (simp add: r(1) z(1) y(1) blocks_per_year_f64(2))
  ultimately show ?thesis using y(2) by blast
qed

lemma derived_reward_bounds:
  assumes "1000 \<le> t" and "t \<le> 10000"
  shows "91 \<le> derived_reward_opl (FNum t) BLOCKS_PER_YEAR" "derived_reward_opl (FNum t) BLOCKS_PER_YEAR \<le> 916"
proof -
  obtain y where y: "f64_div (f64_mul (FNum t) CEREMONY_TROY_OZ_PER_TONNE) (f64_of_nat BLOCKS_PER_YEAR) = FNum y"
    "91 \<le> y" "y < 917" using reward_quotient [OF assms] by blast
  have f: "91 \<le> \<lfloor>y\<rfloor>" "\<lfloor>y\<rfloor> \<le> 916" using y(2,3) by linarith+
  then have n: "91 \<le> nat \<lfloor>y\<rfloor>" "nat \<lfloor>y\<rfloor> \<le> 916" "nat \<lfloor>y\<rfloor> \<le> 18446744073709551615" by linarith+
  then have "derived_reward_opl (FNum t) BLOCKS_PER_YEAR = nat \<lfloor>y\<rfloor>"
    by (simp add: derived_reward_opl_def y(1) U64_MAX_def)
  then show "91 \<le> derived_reward_opl (FNum t) BLOCKS_PER_YEAR" "derived_reward_opl (FNum t) BLOCKS_PER_YEAR \<le> 916"
    using n by linarith+
qed

lemma derived_reward_ceiling: "derived_reward_opl CEREMONY_PROD_MAX_TONNES BLOCKS_PER_YEAR = 916"
proof -
  obtain y where y: "f64_div (f64_mul (FNum 10000) CEREMONY_TROY_OZ_PER_TONNE) (f64_of_nat BLOCKS_PER_YEAR) = FNum y"
    "y < 917" "916 \<le> y" using reward_quotient [of 10000] by auto
  have "\<lfloor>y\<rfloor> = 916" using y(2,3) by linarith
  then show ?thesis by (simp add: derived_reward_opl_def ceremony_bounds_f64 y(1) U64_MAX_def)
qed

section \<open>The reward\<close>

lemma reward_derivation_exact:
  "is_ok (validate_ceremony_reward_derivation a) \<longleftrightarrow>
     (\<exists>t. af_median_production_tonnes a = FNum t \<and> 1000 \<le> t \<and> t \<le> 10000) \<and>
     50000 \<le> af_median_price_usd_cents a \<and> af_median_price_usd_cents a \<le> 1500000 \<and>
     af_blocks_per_year a = 350640 \<and>
     af_base_reward_flakes a = derived_reward_opl (af_median_production_tonnes a) 350640 * 1000000 \<and>
     91000000 \<le> af_base_reward_flakes a \<and> af_base_reward_flakes a \<le> 916000000"
proof (cases "\<exists>t. af_median_production_tonnes a = FNum t \<and> 1000 \<le> t \<and> t \<le> 10000")
  case True
  then obtain t where t: "af_median_production_tonnes a = FNum t" "1000 \<le> t" "t \<le> 10000" by blast
  note b = derived_reward_bounds [OF t(2,3), unfolded blocks_per_year_f64(1)]
  note c = derived_reward_ceiling [unfolded blocks_per_year_f64(1) ceremony_bounds_f64]
  have m: "max_reward \<le> 18446744073709551615" if "max_reward = derived_reward_opl (FNum t) 350640 * 1000000" for max_reward
    using that b by simp
  show ?thesis
    unfolding validate_ceremony_reward_derivation_def Let_def t(1) ceremony_bounds_f64 blocks_per_year_f64(1)
    using b t(2,3) m
    by (simp add: c checked_mul64_def and_then_is_ok CEREMONY_PRICE_MIN_USD_CENTS_def
        CEREMONY_PRICE_MAX_USD_CENTS_def FLAKES_PER_OPL_def U64_MAX_def)
next
  case False
  have "\<not> is_ok (validate_ceremony_reward_derivation a)"
  proof (cases "af_median_production_tonnes a")
    case (FNum t)
    with False have "t < 1000 \<or> 10000 < t" by auto
    then show ?thesis by (simp add: validate_ceremony_reward_derivation_def ceremony_bounds_f64 FNum Let_def)
  qed (simp_all add: validate_ceremony_reward_derivation_def Let_def)
  with False show ?thesis by blast
qed

text \<open>
  C35: The node accepts the derivation of a ceremony file exactly when the median production is between 1,000
  and 10,000 tonnes, the price between 500 and 15,000 dollars, the number of blocks that of a year, and the
  base reward the derived one. Its further checks never decide: the derived reward is between 91 and 916 coins,
  so it is never zero, overflows nowhere and stays below the safety ceiling.
\<close>

theorem ceremony_reward_exact:
  "is_ok (validate_ceremony_reward_derivation a) \<longleftrightarrow>
     (\<exists>t. af_median_production_tonnes a = FNum t \<and> 1000 \<le> t \<and> t \<le> 10000) \<and>
     50000 \<le> af_median_price_usd_cents a \<and> af_median_price_usd_cents a \<le> 1500000 \<and>
     af_blocks_per_year a = 350640 \<and>
     af_base_reward_flakes a = derived_reward_opl (af_median_production_tonnes a) 350640 * 1000000 \<and>
     91000000 \<le> af_base_reward_flakes a \<and> af_base_reward_flakes a \<le> 916000000"
  by (rule reward_derivation_exact)

section \<open>The median\<close>

lemma f64_insort_nums: "f64_insort (FNum x) (map FNum ys) = map FNum (insort x ys)"
  by (induction ys) auto

lemma f64_sort_nums: "f64_sort (map FNum qs) = map FNum (sort qs)"
  by (simp add: f64_sort_def sort_key_def foldr_map comp_def) (induction qs; simp add: f64_insort_nums)

text \<open>With at most one value out of the range, only the ends of the sorted list can be out of it.\<close>

lemma filter_nth_two:
  assumes "i < j" and "j < length xs" and "P (xs ! i)" and "P (xs ! j)"
  shows "2 \<le> length (filter P xs)"
proof -
  have "card {i, j} \<le> card {k. k < length xs \<and> P (xs ! k)}" using assms by (intro card_mono) auto
  then show ?thesis using assms(1) by (simp add: length_filter_conv_card)
qed

lemma inner_values_in_range:
  fixes qs :: "rat list"
  assumes "length (filter (\<lambda>q. q < lo \<or> hi < q) qs) \<le> 1" and "0 < i" and "i + 1 < length qs"
  shows "lo \<le> sort qs ! i \<and> sort qs ! i \<le> hi"
proof -
  let ?P = "\<lambda>q. q < lo \<or> hi < q"
  have one: "length (filter ?P (sort qs)) \<le> 1"
    using assms(1) by (metis mset_filter mset_sort size_mset)
  have low: "sort qs ! 0 \<le> sort qs ! i" "sort qs ! i \<le> sort qs ! (i + 1)"
    using assms(2,3) by (auto intro: sorted_nth_mono)
  have "\<not> sort qs ! i < lo"
  proof
    assume "sort qs ! i < lo"
    with low have "?P (sort qs ! 0)" "?P (sort qs ! i)" by auto
    then show False using filter_nth_two [of 0 i "sort qs" ?P] assms(2,3) one by simp
  qed
  moreover have "\<not> hi < sort qs ! i"
  proof
    assume "hi < sort qs ! i"
    with low have "?P (sort qs ! i)" "?P (sort qs ! (i + 1))" by auto
    then show False using filter_nth_two [of i "i + 1" "sort qs" ?P] assms(3) one by simp
  qed
  ultimately show ?thesis by simp
qed

lemma half_sum_between:
  assumes "0 < lo" and "hi \<le> 2 ^ 50" and "of_nat lo \<le> a" "a \<le> of_nat hi" and "of_nat lo \<le> b" "b \<le> of_nat hi"
  shows "\<exists>m. f64_div (f64_add (FNum a) (FNum b)) (round_f64 2) = FNum m \<and> of_nat lo \<le> m \<and> m \<le> of_nat hi"
proof -
  obtain z where z: "round_f64 (a + b) = FNum z" "of_nat (2 * lo) \<le> z" "z \<le> of_nat (2 * hi)"
    using round_between_nats [of "2 * lo" "2 * hi" "a + b"] assms by auto
  obtain m where "round_f64 (z / 2) = FNum m" "of_nat lo \<le> m" "m \<le> of_nat hi"
    using round_between_nats [of lo hi "z / 2"] z assms(1,2) by auto
  then show ?thesis using z(1) by (simp add: round_f64_numeral)
qed

lemma trimmed_median_between:
  assumes "3 \<le> length qs" and "0 < lo" and "hi \<le> 2 ^ 50"
    and "length (filter (\<lambda>q. q < of_nat lo \<or> of_nat hi < q) qs) \<le> 1"
  shows "\<exists>m. trimmed_median (map FNum qs) = Some (FNum m) \<and> of_nat lo \<le> m \<and> m \<le> of_nat hi"
proof -
  let ?s = "sort qs" and ?n = "length qs - 2"
  have len: "length (butlast (tl ?s)) = ?n" by simp
  have nth: "butlast (tl ?s) ! i = ?s ! Suc i" if "i < ?n" for i
    using that by (simp add: nth_butlast nth_tl)
  have inner: "of_nat lo \<le> ?s ! Suc i \<and> ?s ! Suc i \<le> of_nat hi" if "i < ?n" for i
    using inner_values_in_range [OF assms(4), of "Suc i"] that by simp
  have n: "0 < ?n" "?n div 2 < ?n" "?n div 2 - 1 < ?n" using assms(1) by auto
  let ?v = "map FNum (butlast (tl ?s))"
  have v: "?v ! (?n div 2) = FNum (?s ! Suc (?n div 2))" "?v ! (?n div 2 - 1) = FNum (?s ! Suc (?n div 2 - 1))"
    using n(2,3) nth len by simp_all
  have "trimmed_median (map FNum qs) =
      Some (if even ?n then f64_div (f64_add (?v ! (?n div 2 - 1)) (?v ! (?n div 2))) (round_f64 2) else ?v ! (?n div 2))"
    using assms(1) by (auto simp: trimmed_median_def f64_sort_nums map_butlast map_tl Let_def numeral_2_eq_2)
  then have m: "trimmed_median (map FNum qs) =
      Some (if even ?n then f64_div (f64_add (FNum (?s ! Suc (?n div 2 - 1))) (FNum (?s ! Suc (?n div 2)))) (round_f64 2)
            else FNum (?s ! Suc (?n div 2)))"
    by (simp only: v)
  show ?thesis
  proof (cases "even ?n")
    case True
    show ?thesis unfolding m using True half_sum_between [OF assms(2,3)] inner [OF n(2)] inner [OF n(3)] by simp
  next
    case False
    then show ?thesis unfolding m using inner [OF n(2)] by simp
  qed
qed

text \<open>
  C36: One source cannot move the median of the ceremony out of the range of the others: if there are at least
  three values and at most one of them lies outside a range of whole numbers, the trimmed median
  exists, is finite and lies in the range, the rounding of its mean included.
\<close>

theorem median_resists_one_source:
  assumes "3 \<le> length qs" and "0 < lo" and "hi \<le> 2 ^ 50"
    and "length (filter (\<lambda>q. q < of_nat lo \<or> of_nat hi < q) qs) \<le> 1"
  shows "\<exists>m. trimmed_median (map FNum qs) = Some (FNum m) \<and> of_nat lo \<le> m \<and> m \<le> of_nat hi"
  by (rule trimmed_median_between [OF assms])

lemma median_resists_one_source_witness:
  "\<exists>m. trimmed_median (map FNum [3500, 100000, 3630, 3600]) = Some (FNum m) \<and> of_nat 3000 \<le> m \<and> m \<le> of_nat 4000"
  by (rule median_resists_one_source) simp_all

section \<open>Dates\<close>

text \<open>
  The day of a date of the Gregorian calendar, counted from the first of January 1970, in the closed form
  with years that begin in March: no table of months and no test for leap years.
\<close>

definition gregorian_day :: "nat \<Rightarrow> nat \<Rightarrow> nat \<Rightarrow> int" where
  "gregorian_day y m d =
     (let y' = int y - (if m \<le> 2 then 1 else 0); m' = (if m \<le> 2 then int m + 9 else int m - 3) in
      365 * y' + y' div 4 - y' div 100 + y' div 400 + (153 * m' + 2) div 5 + int d - 1 - 719468)"

definition first_of_next_month :: "nat \<Rightarrow> nat \<Rightarrow> int" where
  "first_of_next_month y m = (if m = 12 then gregorian_day (y + 1) 1 1 else gregorian_day y (m + 1) 1)"

lemma div_step: "0 < k \<Longrightarrow> (x :: int) div k = (x - 1) div k + (if k dvd x then 1 else 0)"
proof -
  assume k: "0 < k"
  show ?thesis
  proof (cases "k dvd x")
    case True
    then obtain c where c: "x = k * c" ..
    have "(k * c - 1) div k = c - 1"
      by (rule int_div_pos_eq [of _ _ _ "k - 1"]) (use k in \<open>simp_all add: algebra_simps\<close>)
    with c k show ?thesis by simp
  next
    case False
    have "x mod k \<noteq> 0" "0 \<le> x mod k" using False k by (simp_all add: dvd_eq_mod_eq_0)
    then have m: "1 \<le> x mod k" by linarith
    have x: "x = k * (x div k) + x mod k" by simp
    have "(x - 1) div k = x div k"
      by (rule int_div_pos_eq [of _ _ _ "x mod k - 1"]) (use k m x pos_mod_bound [of k x] in linarith)+
    with False show ?thesis by simp
  qed
qed

text \<open>The leap days before a year, and the first of January.\<close>

definition leap_days :: "int \<Rightarrow> int" where
  "leap_days y = y div 4 - y div 100 + y div 400"

definition new_year :: "nat \<Rightarrow> int" where
  "new_year y = 365 * int y + leap_days (int y - 1) - 719527"

lemma leap_int: "is_leap y \<longleftrightarrow> (4 dvd int y \<and> \<not> 100 dvd int y) \<or> 400 dvd int y"
  unfolding is_leap_def by presburger

lemma leap_days_step: "leap_days (int y) = leap_days (int y - 1) + (if is_leap y then 1 else 0)"
proof -
  have "(100 :: int) dvd int y \<Longrightarrow> 4 dvd int y" "(400 :: int) dvd int y \<Longrightarrow> 100 dvd int y" by presburger+
  then show ?thesis
    unfolding leap_days_def div_step [of 4 "int y", simplified] div_step [of 100 "int y", simplified] div_step [of 400 "int y", simplified]
    by (auto simp: leap_int)
qed

lemma new_year_Suc: "new_year (Suc y) = new_year y + int (year_days y)"
  using leap_days_step [of y] by (simp add: new_year_def year_days_def)

lemma new_year_sum: "1970 \<le> y \<Longrightarrow> int (\<Sum>k \<in> {1970..<y}. year_days k) = new_year y"
proof (induction y rule: dec_induct)
  case base
  show ?case by (simp add: new_year_def leap_days_def)
next
  case (step y)
  then show ?case by (simp add: new_year_Suc)
qed

text \<open>The table of months agrees with the closed form.\<close>

definition days_before :: "nat \<Rightarrow> nat \<Rightarrow> int" where
  "days_before y i = int (sum_list (take i (month_days y)))"

lemma days_before_simps:
  "days_before y 0 = 0" "days_before y 1 = 31" "days_before y 2 = (if is_leap y then 60 else 59)"
  "days_before y 3 = (if is_leap y then 91 else 90)" "days_before y 4 = (if is_leap y then 121 else 120)"
  "days_before y 5 = (if is_leap y then 152 else 151)" "days_before y 6 = (if is_leap y then 182 else 181)"
  "days_before y 7 = (if is_leap y then 213 else 212)" "days_before y 8 = (if is_leap y then 244 else 243)"
  "days_before y 9 = (if is_leap y then 274 else 273)" "days_before y 10 = (if is_leap y then 305 else 304)"
  "days_before y 11 = (if is_leap y then 335 else 334)" "days_before y 12 = (if is_leap y then 366 else 365)"
  by (simp_all add: days_before_def month_days_def)

lemma month_numbers: "i < 12 \<Longrightarrow> i = 0 \<or> i = 1 \<or> i = 2 \<or> i = 3 \<or> i = 4 \<or> i = 5 \<or> i = 6 \<or> i = 7 \<or> i = 8 \<or> i = 9 \<or> i = 10 \<or> i = (11 :: nat)"
  by arith

lemma gregorian_month:
  assumes "i < 12"
  shows "gregorian_day y (i + 1) d = new_year y + days_before y i + int d - 1"
proof -
  have early: "gregorian_day y m d = 365 * (int y - 1) + leap_days (int y - 1) + (153 * (int m + 9) + 2) div 5 + int d - 719469"
    if "m \<le> 2" for m
    using that by (simp add: gregorian_day_def leap_days_def Let_def)
  have late: "gregorian_day y m d = 365 * int y + leap_days (int y) + (153 * (int m - 3) + 2) div 5 + int d - 719469"
    if "\<not> m \<le> 2" for m
    using that by (simp add: gregorian_day_def leap_days_def Let_def)
  show ?thesis
    using month_numbers [OF assms]
    by (elim disjE) (simp_all add: early late leap_days_step new_year_def days_before_simps days_before_simps(2) [simplified])
qed

lemma next_month:
  assumes "i < 12"
  shows "first_of_next_month y (i + 1) = new_year y + days_before y (i + 1)"
proof (cases "i = 11")
  case True
  have "gregorian_day (y + 1) 1 1 = new_year (Suc y)" using gregorian_month [of 0 "y + 1" 1] by (simp add: days_before_simps)
  also have "\<dots> = new_year y + days_before y 12" by (simp add: new_year_Suc days_before_simps year_days_def)
  finally show ?thesis by (simp add: True first_of_next_month_def)
next
  case False
  then have "i + 1 < 12" using assms by simp
  from gregorian_month [OF this, of y 1] False show ?thesis by (simp add: first_of_next_month_def)
qed

lemma year_loop_sum:
  "year_loop y d = (y', d') \<Longrightarrow> y \<le> y' \<and> d' < year_days y' \<and> d = (\<Sum>k \<in> {y..<y'}. year_days k) + d'"
proof (induction y d rule: year_loop.induct)
  case (1 y d)
  show ?case
  proof (cases "d < year_days y")
    case True
    with 1(2) show ?thesis by (subst (asm) year_loop.simps) auto
  next
    case False
    then have "year_loop (y + 1) (d - year_days y) = (y', d')" using 1(2) by (subst (asm) year_loop.simps) simp
    from 1(1) [OF False this] show ?thesis using False sum.atLeast_Suc_lessThan [of y y' year_days] by auto
  qed
qed

lemma month_loop_sum:
  "month_loop mo ds d = (mo', d') \<Longrightarrow> d < sum_list ds \<Longrightarrow>
   \<exists>i < length ds. mo' = mo + i \<and> d' < ds ! i \<and> d = sum_list (take i ds) + d'"
proof (induction mo ds d rule: month_loop.induct)
  case (2 mo dm dms d)
  show ?case
  proof (cases "d < dm")
    case True
    with 2(2) show ?thesis by (intro exI [of _ 0]) auto
  next
    case False
    then obtain i where "i < length dms" "mo' = mo + 1 + i" "d' < dms ! i" "d - dm = sum_list (take i dms) + d'"
    proof -
      have "month_loop (mo + 1) dms (d - dm) = (mo', d')" "d - dm < sum_list dms" using False 2(2,3) by auto
      from 2(1) [OF False this] show ?thesis using that by blast
    qed
    then show ?thesis using False by (intro exI [of _ "Suc i"]) auto
  qed
qed simp

lemma sum_month_days: "sum_list (month_days y) = year_days y"
  by (simp add: month_days_def year_days_def)

text \<open>
  C37: The loops over years and months end, and at the date of the Gregorian calendar: the day number of the date
  in the closed form of that calendar is the given number of days since the first of January 1970, the month is
  one of the twelve, and the day lies in the month, before the first day of the next one.
\<close>

theorem date_of_day_correct:
  "\<exists>y mo d. civil_date n = (y, mo, d) \<and> gregorian_day y mo d = int n \<and> 1970 \<le> y \<and>
     mo \<in> {1..12} \<and> 1 \<le> d \<and> int n < first_of_next_month y mo"
proof -
  obtain y d1 where y: "year_loop 1970 n = (y, d1)" by fastforce
  obtain mo d2 where mo: "month_loop 1 (month_days y) d1 = (mo, d2)" by fastforce
  have ys: "1970 \<le> y" "d1 < year_days y" "n = (\<Sum>k \<in> {1970..<y}. year_days k) + d1" using year_loop_sum [OF y] by auto
  then obtain i where i: "i < length (month_days y)" "mo = 1 + i" "d2 < month_days y ! i" "d1 = sum_list (take i (month_days y)) + d2"
    using month_loop_sum [OF mo] sum_month_days by auto
  have len: "length (month_days y) = 12" by (simp add: month_days_def)
  have n: "int n = new_year y + days_before y i + int d2"
    using ys(3) i(4) new_year_sum [OF ys(1)] by (simp add: days_before_def)
  have "days_before y (i + 1) = days_before y i + int (month_days y ! i)"
    using i(1) by (simp add: days_before_def take_Suc_conv_app_nth)
  then have "gregorian_day y mo (d2 + 1) = int n" "int n < first_of_next_month y mo"
    using gregorian_month [of i y "d2 + 1"] next_month [of i y] i(1,2,3) n len by (simp_all add: add.commute)
  moreover have "civil_date n = (y, mo, d2 + 1)" by (simp add: civil_date_def y mo [simplified])
  ultimately show ?thesis using ys(1) i(1,2) len by auto
qed

end
