(* ===== verification/Ceremony_Accept.thy ===== *)
theory Ceremony_Accept
  imports Ceremony_Props Storage_Laws
begin

text \<open>
  The way of a ceremony file: what the tool writes at the end of a ceremony is accepted by its own
  verification and by the node, and what the signature of the file leaves open.
\<close>

section \<open>What is collected\<close>

text \<open>What every collected source satisfies.\<close>

definition source_fine :: "'x externs_scheme \<Rightarrow> f64 \<Rightarrow> f64 \<Rightarrow> source_result \<Rightarrow> bool" where
  "source_fine X lo hi r \<longleftrightarrow>
     (\<forall>x. so_extracted_value r = Some x \<longrightarrow> in_range lo hi x) \<and>
     (starts_with ''manual'' (so_value_origin r) \<and> so_extracted_value r \<noteq> None \<longrightarrow>
        (\<exists>note. so_evidence_note r = Some note \<and> 12 \<le> length (trim note)) \<and> so_evidence_timestamp_ms r \<noteq> None) \<and>
     trim (so_name r) \<noteq> [] \<and>
     (\<exists>h. so_raw_response_hash r = x_hex_encode X (hash_as_bytes h))"

definition fetch_fine :: "'x externs_scheme \<Rightarrow> fetch_result \<Rightarrow> bool" where
  "fetch_fine X f \<longleftrightarrow> (\<exists>h. fr_raw_response_hash f = x_hex_encode X (hash_as_bytes h))"

lemma no_fetch_fine: "fetch_fine X (no_fetch X)"
  by (auto simp: fetch_fine_def no_fetch_def empty_hash_def)

lemma run_fetch_phase_fine: "f \<in> set (run_fetch_phase X ds p rs) \<Longrightarrow> fetch_fine X f"
  using no_fetch_fine [of X]
  by (auto simp: run_fetch_phase_def fetch_def fetch_fine_def empty_hash_def split: option.splits prod.splits)

lemma note_is_long: "prompt_evidence_note ls = Some (note, ls') \<Longrightarrow> 12 \<le> length (trim note)"
  by (induction ls) (auto simp: Let_def split: if_splits)

lemma ask_operator_evidence:
  "ask_operator io = Some (Some v, note, ts, t, io') \<Longrightarrow>
   (\<exists>n. note = Some n \<and> 12 \<le> length (trim n)) \<and> ts \<noteq> None"
  by (auto simp: ask_operator_def now_ms_def note_is_long split: option.splits prod.splits)

lemma source_entry_fine:
  assumes "fetch_fine X f" and "trim (sd_name d) \<noteq> []"
    and "v \<noteq> None \<and> starts_with ''manual'' origin \<Longrightarrow> (\<exists>n. note = Some n \<and> 12 \<le> length (trim n)) \<and> ts \<noteq> None"
  shows "source_fine X lo hi (source_entry lo hi d f v t m origin note ts)"
  using assms by (auto simp: source_fine_def source_entry_def fetch_fine_def Let_def split: option.splits if_splits)

lemma collect_source_fine:
  assumes "collect_source manual lo hi d f io = Some (r, io')" and "fetch_fine X f" and "trim (sd_name d) \<noteq> []"
  shows "source_fine X lo hi r"
proof (cases "\<not> manual \<and> fr_extracted_value f \<noteq> None")
  case True
  then show ?thesis
    using assms by (auto simp: collect_source_def starts_with_def intro!: source_entry_fine)
next
  case False
  then obtain v ev ts t io1 where ask: "ask_operator io = Some (v, ev, ts, t, io1)"
    using assms(1) by (auto simp: collect_source_def split: option.splits if_splits)
  have "(\<exists>n. ev = Some n \<and> 12 \<le> length (trim n)) \<and> ts \<noteq> None" if "v \<noteq> None"
    using ask_operator_evidence [of io] ask that by auto
  then have "source_fine X lo hi (source_entry lo hi d f v t True origin ev ts)" for origin
    by (intro source_entry_fine assms) blast
  then show ?thesis using assms(1) False ask by (auto simp: collect_source_def)
qed

lemma collect_source_results_fine:
  "collect_source_results manual lo hi dfs io = Some (rs, io') \<Longrightarrow>
   (\<And>d f. (d, f) \<in> set dfs \<Longrightarrow> fetch_fine X f \<and> trim (sd_name d) \<noteq> []) \<Longrightarrow> r \<in> set rs \<Longrightarrow> source_fine X lo hi r"
proof (induction manual lo hi dfs io arbitrary: rs r rule: collect_source_results.induct)
  case (2 manual lo hi d f dfs io)
  from 2(2) obtain r0 io1 rs1 where c: "collect_source manual lo hi d f io = Some (r0, io1)"
    "collect_source_results manual lo hi dfs io1 = Some (rs1, io')" "rs = r0 # rs1"
    by (auto split: option.splits)
  have "source_fine X lo hi r0" by (rule collect_source_fine [OF c(1)]) (use 2(3) [of d f] in simp_all)
  moreover have "source_fine X lo hi r" if "r \<in> set rs1"
    by (rule 2(1) [OF c(1) refl c(2) _ that]) (rule 2(3), simp)
  ultimately show ?case using 2(4) c(3) by auto
qed simp

lemma trim_nonempty: "s \<noteq> [] \<Longrightarrow> \<not> is_space (hd s) \<Longrightarrow> trim s \<noteq> []"
proof -
  assume s: "s \<noteq> []" "\<not> is_space (hd s)"
  then have "dropWhile is_space s = s" by (cases s) simp_all
  moreover have "dropWhile is_space (rev s) \<noteq> []" using s by (auto simp: dropWhile_eq_Nil_conv)
  ultimately show ?thesis by (simp add: trim_def)
qed

lemma source_names: "d \<in> set PROD_SOURCES \<union> set PRICE_SOURCES \<Longrightarrow> trim (sd_name d) \<noteq> []"
  by (rule trim_nonempty) (auto simp: PROD_SOURCES_def PRICE_SOURCES_def is_space_def)

section \<open>The values and their medians\<close>

lemma in_range_nums: "in_range (FNum lo) (FNum hi) x \<longleftrightarrow> (\<exists>q. x = FNum q \<and> lo \<le> q \<and> q \<le> hi)"
  by (cases x) (auto simp: in_range_def)

lemma ranges_f64:
  "PROD_MIN_TONNES = FNum 1000" "PROD_MAX_TONNES = FNum 10000" "PRICE_MIN_USD_OZ = FNum 500" "PRICE_MAX_USD_OZ = FNum 15000"
  by (simp_all add: PROD_MIN_TONNES_def PROD_MAX_TONNES_def PRICE_MIN_USD_OZ_def PRICE_MAX_USD_OZ_def round_f64_numeral)

lemma source_values_nums:
  assumes "\<And>r. r \<in> set rs \<Longrightarrow> source_fine X (FNum lo) (FNum hi) r"
  shows "\<exists>qs. source_values rs = map FNum qs \<and> (\<forall>q \<in> set qs. lo \<le> q \<and> q \<le> hi)"
  using assms
proof (induction rs)
  case Nil
  show ?case by (intro exI [of _ "[]"]) (simp add: source_values_def)
next
  case (Cons r rs)
  then obtain qs where qs: "source_values rs = map FNum qs" "\<forall>q \<in> set qs. lo \<le> q \<and> q \<le> hi" by auto
  show ?case
  proof (cases "so_extracted_value r")
    case None
    with qs show ?thesis by (intro exI [of _ qs]) (simp add: source_values_def map_filter_simps)
  next
    case (Some x)
    then obtain q where "x = FNum q" "lo \<le> q" "q \<le> hi"
      using Cons.prems [of r] by (auto simp: source_fine_def in_range_nums)
    with Some qs show ?thesis by (intro exI [of _ "q # qs"]) (simp add: source_values_def map_filter_simps)
  qed
qed

text \<open>Flagging changes the status of a source only.\<close>

lemma outlier_flags_map: "\<exists>g. apply_outlier_flags m = map g \<and> (\<forall>r. \<exists>st. g r = r\<lparr>so_status := st\<rparr>)"
proof -
  have "\<exists>st. (case so_extracted_value r of None \<Rightarrow> r | Some v \<Rightarrow>
      if f64_less OUTLIER_PCT (f64_div (f64_abs (f64_sub v m)) m)
      then r\<lparr>so_status := (if so_status r = ''manual'' then ''manual-outlier'' else ''outlier'')\<rparr> else r) = r\<lparr>so_status := st\<rparr>" for r
  proof -
    have "r = r\<lparr>so_status := so_status r\<rparr>" by simp
    then have "\<exists>st. r = r\<lparr>so_status := st\<rparr>" by (rule exI)
    then show ?thesis by (cases "so_extracted_value r") auto
  qed
  moreover have "apply_outlier_flags m = map (\<lambda>r. case so_extracted_value r of None \<Rightarrow> r | Some v \<Rightarrow>
      if f64_less OUTLIER_PCT (f64_div (f64_abs (f64_sub v m)) m)
      then r\<lparr>so_status := (if so_status r = ''manual'' then ''manual-outlier'' else ''outlier'')\<rparr> else r)"
    by (rule ext) (simp add: apply_outlier_flags_def)
  ultimately show ?thesis by blast
qed

lemma outlier_flags_keep:
  "source_values (apply_outlier_flags m rs) = source_values rs"
  "price_fetch_spread_ms (apply_outlier_flags m rs) = price_fetch_spread_ms rs"
proof -
  obtain g where g: "apply_outlier_flags m = map g" "\<And>r. \<exists>st. g r = r\<lparr>so_status := st\<rparr>" using outlier_flags_map by blast
  have keep: "so_extracted_value (g r) = so_extracted_value r" "so_fetched_at_ms (g r) = so_fetched_at_ms r" for r
    using g(2) [of r] by auto
  show "source_values (apply_outlier_flags m rs) = source_values rs"
    by (induction rs) (simp_all add: source_values_def g(1) map_filter_simps keep split: option.split)
  have "map so_fetched_at_ms (filter (\<lambda>r. 0 < so_fetched_at_ms r \<and> so_extracted_value r \<noteq> None) (map g rs)) =
      map so_fetched_at_ms (filter (\<lambda>r. 0 < so_fetched_at_ms r \<and> so_extracted_value r \<noteq> None) rs)"
    by (induction rs) (simp_all add: keep)
  then show "price_fetch_spread_ms (apply_outlier_flags m rs) = price_fetch_spread_ms rs"
    by (simp only: price_fetch_spread_ms_def g(1))
qed

lemma outlier_flags_fine:
  assumes "\<And>r. r \<in> set rs \<Longrightarrow> source_fine X lo hi r" and "r \<in> set (apply_outlier_flags m rs)"
  shows "source_fine X lo hi r"
proof -
  obtain g where g: "apply_outlier_flags m = map g" "\<And>r. \<exists>st. g r = r\<lparr>so_status := st\<rparr>" using outlier_flags_map by blast
  then obtain r0 st where "r0 \<in> set rs" "r = r0\<lparr>so_status := st\<rparr>" using assms(2) by auto (metis g(2))
  then show ?thesis using assms(1) [of r0] by (simp add: source_fine_def)
qed

lemma median_in_range:
  assumes "qs \<noteq> []" and "0 < lo" and "hi \<le> 2 ^ 50" and q: "\<forall>q \<in> set qs. of_nat lo \<le> q \<and> q \<le> of_nat hi"
  shows "\<exists>m. trimmed_median (map FNum qs) = Some (FNum m) \<and> of_nat lo \<le> m \<and> m \<le> of_nat hi"
proof (cases "3 \<le> length qs")
  case True
  have "filter (\<lambda>q. q < of_nat lo \<or> of_nat hi < q) qs = []" using q by (auto simp: filter_empty_conv)
  then show ?thesis using trimmed_median_between [OF True assms(2,3)] by simp
next
  case False
  then consider a where "qs = [a]" | a b where "qs = [a, b]"
    using assms(1) by (cases qs; cases "tl qs"; cases "tl (tl qs)") auto
  then show ?thesis
  proof cases
    case 1
    with q show ?thesis by (simp add: trimmed_median_def f64_sort_def)
  next
    case 2
    let ?x = "min a b" and ?y = "max a b"
    have "sort [a, b] = [?x, ?y]" by (auto simp: min_def max_def)
    then have "f64_sort (map FNum [a, b]) = map FNum [?x, ?y]" by (simp only: f64_sort_nums)
    then have "trimmed_median (map FNum qs) = Some (f64_div (f64_add (FNum ?x) (FNum ?y)) (round_f64 2))"
      by (simp add: trimmed_median_def 2)
    moreover have "of_nat lo \<le> ?x" "?x \<le> of_nat hi" "of_nat lo \<le> ?y" "?y \<le> of_nat hi" using q 2 by auto
    then obtain m where "f64_div (f64_add (FNum ?x) (FNum ?y)) (round_f64 2) = FNum m" "of_nat lo \<le> m" "m \<le> of_nat hi"
      using half_sum_between [OF assms(2,3)] by blast
    ultimately show ?thesis by simp
  qed
qed

lemma price_cents_range:
  assumes "500 \<le> p" and "p \<le> 15000"
  shows "50000 \<le> price_cents (FNum p)" "price_cents (FNum p) \<le> 1500000"
proof -
  obtain z where z: "round_f64 (p * 100) = FNum z" "50000 \<le> z" "z \<le> 1500000"
    using round_between_nats [of 50000 1500000 "p * 100"] assms by auto
  have f: "50000 \<le> \<lfloor>z + 1 / 2\<rfloor>" "\<lfloor>z + 1 / 2\<rfloor> \<le> 1500000" using z(2,3) by linarith+
  then have n: "50000 \<le> nat \<lfloor>z + 1 / 2\<rfloor>" "nat \<lfloor>z + 1 / 2\<rfloor> \<le> 1500000" by linarith+
  have "price_cents (FNum p) = min (nat \<lfloor>z + 1 / 2\<rfloor>) U64_MAX"
    using z by (simp add: price_cents_def round_f64_numeral)
  then have "price_cents (FNum p) = nat \<lfloor>z + 1 / 2\<rfloor>" using n(2) by (simp add: U64_MAX_def)
  with n show "50000 \<le> price_cents (FNum p)" "price_cents (FNum p) \<le> 1500000" by simp_all
qed

lemma blocks_per_year_agree: "compute_blocks_per_year = BLOCKS_PER_YEAR"
proof -
  have "round_magnitude (36525 / 100) = 36525 / 100"
    by (rule round_magnitude_dyadic [of _ "- 2" 1461]) (simp_all add: power_int_minus_divide)
  then have day: "round_f64 (36525 / 100) = FNum (36525 / 100)" using round_f64_pos [of "36525 / 100"] by simp
  show ?thesis
    by (simp add: compute_blocks_per_year_def CEREMONY_BLOCK_TARGET_TIME_MS_def f64_of_nat_def day [simplified] round_f64_numeral
        blocks_per_year_f64 U64_MAX_def)
qed

lemma rewards_agree: "computed_reward_opl t n = derived_reward_opl t n"
  by (simp add: computed_reward_opl_def annual_ounces_def derived_reward_opl_def TROY_OZ_PER_TONNE_def CEREMONY_TROY_OZ_PER_TONNE_def)

section \<open>The hash of the file\<close>

lemma insort_key_map: "insort_key f (g x) (map g xs) = map g (insort_key (\<lambda>a. f (g a)) x xs)"
  by (induction xs) simp_all

lemma sort_key_map: "sort_key f (map g xs) = map g (sort_key (f \<circ> g) xs)"
  by (induction xs) (simp_all add: insort_key_map comp_def)

text \<open>Sorting by key and setting the value of a present key commute.\<close>

definition with_value :: "string \<Rightarrow> json \<Rightarrow> string \<times> json \<Rightarrow> string \<times> json" where
  "with_value k v e = (fst e, if fst e = k then v else snd e)"

lemma sort_with_value: "map (with_value k v) (sort_key fst kvs) = sort_key fst (map (with_value k v) kvs)"
proof -
  have "fst \<circ> with_value k v = fst" by (rule ext) (simp add: with_value_def)
  then show ?thesis by (simp add: sort_key_map)
qed

lemma set_entry_present:
  "distinct (map fst kvs) \<Longrightarrow> k \<in> fst ` set kvs \<Longrightarrow> set_entry k v kvs = map (with_value k v) kvs"
proof (induction k v kvs rule: set_entry.induct)
  case (2 k v k' v' kvs)
  show ?case
  proof (cases "k = k'")
    case True
    then have "map (with_value k v) kvs = kvs"
      using 2(2) by (intro map_idI) (auto simp: with_value_def image_iff)
    with True show ?thesis by (simp add: with_value_def [of _ _ "(k', v')"])
  next
    case False
    with 2 show ?thesis by (auto simp: with_value_def)
  qed
qed simp

text \<open>The keys of a file, and its entries without the two that are blanked.\<close>

lemma blank_signed_object:
  assumes "distinct (map fst kvs)" and "''master_hash'' \<in> fst ` set kvs" and "''operator_signature'' \<in> fst ` set kvs"
  shows "blank_signed_fields (json_object kvs) =
    Some (json_object (map (with_value ''operator_signature'' (JString [])) (map (with_value ''master_hash'' (JString [])) kvs)))"
proof -
  let ?s = "sort_key fst kvs"
  have d: "distinct (map fst ?s)" by (metis assms(1) distinct_map distinct_sort set_sort)
  have "set_entry ''master_hash'' (JString []) ?s = map (with_value ''master_hash'' (JString [])) ?s"
    by (rule set_entry_present [OF d]) (use assms(2) in simp)
  moreover have "set_entry ''operator_signature'' (JString []) (map (with_value ''master_hash'' (JString [])) ?s) =
      map (with_value ''operator_signature'' (JString [])) (map (with_value ''master_hash'' (JString [])) ?s)"
  proof (rule set_entry_present)
    have keys: "map fst (map (with_value ''master_hash'' (JString [])) ?s) = map fst ?s"
      by (simp add: with_value_def comp_def)
    show "distinct (map fst (map (with_value ''master_hash'' (JString [])) ?s))" unfolding keys by (rule d)
    have "fst ` set (map (with_value ''master_hash'' (JString [])) ?s) = fst ` set ?s"
      unfolding image_set keys ..
    then show "''operator_signature'' \<in> fst ` set (map (with_value ''master_hash'' (JString [])) ?s)"
      unfolding set_sort using assms(3) by (rule ssubst)
  qed
  ultimately show ?thesis
    by (simp only: blank_signed_fields_def json_object_def json_set.simps bind.simps sort_with_value)
qed

lemma attestation_keys:
  "map fst (attestation_entries a) =
     [''ceremony_start_ms'', ''ceremony_end_ms'', ''ceremony_timestamp'', ''operator_name'', ''operator_public_key'',
      ''operator_signature'', ''production_data_year'', ''production_sources'', ''price_sources'', ''price_fetch_spread_ms'',
      ''median_production_tonnes'', ''median_price_usd_cents'', ''blocks_per_year'', ''base_reward_opl'',
      ''base_reward_flakes'', ''derivation_steps'', ''master_hash'']"
  by (simp only: attestation_entries_def list.map fst_conv)

lemma attestation_keys_distinct: "distinct (map fst (attestation_entries a))"
  unfolding attestation_keys by simp

lemma blank_signed_attestation:
  "blank_signed_fields (attestation_json (a\<lparr>ca_master_hash := h, ca_operator_signature := sg\<rparr>)) =
   blank_signed_fields (attestation_json a)"
proof -
  let ?b = "\<lambda>a. map (with_value ''operator_signature'' (JString [])) (map (with_value ''master_hash'' (JString [])) (attestation_entries a))"
  have keys: "''master_hash'' \<in> fst ` set (attestation_entries a)" "''operator_signature'' \<in> fst ` set (attestation_entries a)" for a
    by (simp_all only: image_set attestation_keys) simp_all
  have "?b (a\<lparr>ca_master_hash := h, ca_operator_signature := sg\<rparr>) = ?b a"
    by (simp add: attestation_entries_def with_value_def)
  then show ?thesis
    unfolding attestation_json_def by (simp only: blank_signed_object [OF attestation_keys_distinct keys])
qed

lemma master_hash_of_signed:
  "compute_master_hash X (a\<lparr>ca_master_hash := h, ca_operator_signature := sg\<rparr>) = compute_master_hash X a"
  by (simp add: compute_master_hash_def blank_signed_attestation)

text \<open>The node's hash of a text and the tool's hash of the attestation that the text stands for.\<close>

lemma node_hash_is_tool_hash:
  assumes "x_json_parse X text = Some (attestation_json a)" and inj: "\<And>bs cs. x_hex_encode X bs = x_hex_encode X cs \<Longrightarrow> bs = cs"
  shows "compute_ceremony_master_hash X text = Some (Inr (hash_as_bytes b)) \<longleftrightarrow>
    compute_master_hash X a = Some (x_hex_encode X (hash_as_bytes b))"
proof (cases "blank_signed_fields (attestation_json a)")
  case (Some w)
  then show ?thesis
    by (cases "canonical_json X w") (auto simp: compute_ceremony_master_hash_def compute_master_hash_def assms(1) dest: inj)
qed (simp add: compute_ceremony_master_hash_def compute_master_hash_def assms(1))

section \<open>A ceremony that ends with a file\<close>

lemma seal_written:
  "seal X d seed a0 io = Some (Written a) \<Longrightarrow>
   \<exists>h sg. a = a0\<lparr>ca_master_hash := h, ca_operator_signature := sg\<rparr> \<and>
     compute_master_hash X a0 = Some h \<and> sign_master_hash X seed h = Some sg"
  by (auto simp: seal_def split: option.splits bool.splits)

lemma signing_key_length:
  "load_or_generate_signing_key X key_file random written = Some seed \<Longrightarrow> length random = 32 \<Longrightarrow> length seed = 32"
  by (auto simp: load_or_generate_signing_key_def split: option.splits sum.splits if_splits)

text \<open>What a ceremony that is not a dry run has written.\<close>

definition ceremony_record ::
  "'x tool_externs_scheme \<Rightarrow> byte list \<Rightarrow> source_result list \<Rightarrow> f64 \<Rightarrow> source_result list \<Rightarrow> f64 \<Rightarrow> ceremony_attestation \<Rightarrow> bool" where
  "ceremony_record X seed prods m prices p a \<longleftrightarrow>
     length seed = 32 \<and>
     (\<forall>r \<in> set prods. source_fine X PROD_MIN_TONNES PROD_MAX_TONNES r) \<and>
     (\<forall>r \<in> set prices. source_fine X PRICE_MIN_USD_OZ PRICE_MAX_USD_OZ r) \<and>
     5 \<le> length (source_values prods) \<and> trimmed_median (source_values prods) = Some m \<and>
     (source_values prices \<noteq> [] \<longrightarrow> trimmed_median (source_values prices) = Some p) \<and>
     (\<exists>start_ms end_ms operator year h sg. let a0 = assemble X start_ms end_ms operator seed year prods prices
           (price_fetch_spread_ms prices) m (price_cents p) in
        a = a0\<lparr>ca_master_hash := h, ca_operator_signature := sg\<rparr> \<and>
        compute_master_hash X a0 = Some h \<and> sign_master_hash X seed h = Some sg)"

lemma conclude_ceremony_record:
  assumes "conclude_ceremony X cli seed start_ms prods m prices io = Some (Written a)" and "length seed = 32"
    and "\<forall>r \<in> set prods. source_fine X PROD_MIN_TONNES PROD_MAX_TONNES r"
    and "\<And>r. r \<in> set prices \<Longrightarrow> source_fine X PRICE_MIN_USD_OZ PRICE_MAX_USD_OZ r"
    and "5 \<le> length (source_values prods)" and "trimmed_median (source_values prods) = Some m"
  shows "\<exists>prices' p. ceremony_record X seed prods m prices' p a"
proof (cases "source_values prices = []")
  case True
  with assms(1) have "\<exists>end_ms year io'. seal X False seed (assemble X start_ms end_ms (cc_operator cli) seed year prods prices
      (price_fetch_spread_ms prices) m (price_cents (FNum 0))) io' = Some (Written a)"
    by (auto simp: conclude_ceremony_def now_ms_def)
  then obtain end_ms year io' where "seal X False seed (assemble X start_ms end_ms (cc_operator cli) seed year prods prices
      (price_fetch_spread_ms prices) m (price_cents (FNum 0))) io' = Some (Written a)" by blast
  from seal_written [OF this] have "ceremony_record X seed prods m prices (FNum 0) a"
    using assms(2-) True unfolding ceremony_record_def Let_def by blast
  then show ?thesis by blast
next
  case False
  let ?flagged = "\<lambda>p. apply_outlier_flags p prices"
  from assms(1) False obtain p where p: "trimmed_median (source_values prices) = Some p"
    by (auto simp: conclude_ceremony_def split: option.splits)
  with assms(1) False have "\<exists>end_ms year io'. seal X False seed (assemble X start_ms end_ms (cc_operator cli) seed year prods (?flagged p)
      (price_fetch_spread_ms prices) m (price_cents p)) io' = Some (Written a)"
    by (auto simp: conclude_ceremony_def now_ms_def)
  then obtain end_ms year io' where "seal X False seed (assemble X start_ms end_ms (cc_operator cli) seed year prods (?flagged p)
      (price_fetch_spread_ms (?flagged p)) m (price_cents p)) io' = Some (Written a)"
    by (auto simp: outlier_flags_keep)
  note sealed = seal_written [OF this]
  have fine: "\<forall>r \<in> set (?flagged p). source_fine X PRICE_MIN_USD_OZ PRICE_MAX_USD_OZ r"
    using outlier_flags_fine assms(4) by blast
  have "trimmed_median (source_values (?flagged p)) = Some p" using p by (simp only: outlier_flags_keep)
  with sealed fine have "ceremony_record X seed prods m (?flagged p) p a"
    using assms(2,3,5,6) unfolding ceremony_record_def Let_def by blast
  then show ?thesis by blast
qed

lemma run_ceremony_record:
  assumes run: "run_ceremony X cli input = Some (Written a)" and "\<not> cc_dry_run cli"
    and "length (cin_random_seed input) = 32"
  shows "\<exists>seed prods m prices p. ceremony_record X seed prods m prices p a"
proof -
  obtain start_ms io where io: "now_ms (cin_io input) = (start_ms, io)" by fastforce
  obtain seed where seed: "load_or_generate_signing_key X (cin_key_file input) (cin_random_seed input) (cin_key_written input) = Some seed"
    using run assms(2) by (auto simp: run_ceremony_def io split: option.splits)
  define pf where "pf = (if cc_manual cli then map (\<lambda>_. no_fetch X) PROD_SOURCES
      else run_fetch_phase X PROD_SOURCES (parse_production_tonnes X) (cin_prod_responses input))"
  define qf where "qf = (if cc_manual cli then map (\<lambda>_. no_fetch X) PRICE_SOURCES
      else run_fetch_phase X PRICE_SOURCES (parse_price_usd_oz X) (cin_price_responses input))"
  have rest: "(case collect_source_results (cc_manual cli) PROD_MIN_TONNES PROD_MAX_TONNES (zip PROD_SOURCES pf) io of
        None \<Rightarrow> None
      | Some (prods, io1) \<Rightarrow>
          if length (source_values prods) < MIN_PROD_SOURCES then Some (Exits 1)
          else (case trimmed_median (source_values prods) of
              None \<Rightarrow> None
            | Some m \<Rightarrow>
                (case collect_source_results (cc_manual cli) PRICE_MIN_USD_OZ PRICE_MAX_USD_OZ (zip PRICE_SOURCES qf) io1 of
                   None \<Rightarrow> None
                 | Some (prices, io2) \<Rightarrow>
                     conclude_ceremony X cli seed start_ms (apply_outlier_flags m prods) m prices io2))) = Some (Written a)"
    using run unfolding run_ceremony_def io prod.case if_not_P [OF assms(2)] seed option.case Let_def
      pf_def [symmetric] qf_def [symmetric] .
  then obtain prods io1 where prods: "collect_source_results (cc_manual cli) PROD_MIN_TONNES PROD_MAX_TONNES (zip PROD_SOURCES pf) io = Some (prods, io1)"
    by (auto split: option.splits)
  with rest obtain m where m: "5 \<le> length (source_values prods)" "trimmed_median (source_values prods) = Some m"
    by (auto simp: MIN_PROD_SOURCES_def split: option.splits if_splits)
  with rest prods obtain prices io2 where prices:
      "collect_source_results (cc_manual cli) PRICE_MIN_USD_OZ PRICE_MAX_USD_OZ (zip PRICE_SOURCES qf) io1 = Some (prices, io2)"
      "conclude_ceremony X cli seed start_ms (apply_outlier_flags m prods) m prices io2 = Some (Written a)"
    by (auto simp: MIN_PROD_SOURCES_def split: option.splits if_splits)
  have fetched: "fetch_fine X f" if "f \<in> set pf \<union> set qf" for f
    using that run_fetch_phase_fine no_fetch_fine by (auto simp: pf_def qf_def split: if_splits) blast+
  have "source_fine X PROD_MIN_TONNES PROD_MAX_TONNES r" if "r \<in> set prods" for r
    by (rule collect_source_results_fine [OF prods _ that])
      (use fetched source_names in \<open>auto dest: set_zip_leftD set_zip_rightD\<close>)
  then have fine: "\<forall>r \<in> set (apply_outlier_flags m prods). source_fine X PROD_MIN_TONNES PROD_MAX_TONNES r"
    using outlier_flags_fine by blast
  have fine2: "source_fine X PRICE_MIN_USD_OZ PRICE_MAX_USD_OZ r" if "r \<in> set prices" for r
    by (rule collect_source_results_fine [OF prices(1) _ that])
      (use fetched source_names in \<open>auto dest: set_zip_leftD set_zip_rightD\<close>)
  have "length seed = 32" by (rule signing_key_length [OF seed assms(3)])
  then have "\<exists>prices' p. ceremony_record X seed (apply_outlier_flags m prods) m prices' p a"
    by (rule conclude_ceremony_record [OF prices(2) _ fine fine2]) (simp_all add: outlier_flags_keep m)
  then show ?thesis by blast
qed

section \<open>The node reads the file\<close>

text \<open>The fields that the node reads, by name, of the file that the tool writes.\<close>

definition node_source :: "source_result \<Rightarrow> ceremony_source_result" where
  "node_source r =
     \<lparr> sr_name = so_name r, sr_raw_response_hash = so_raw_response_hash r, sr_extracted_value = so_extracted_value r,
       sr_value_origin = so_value_origin r, sr_evidence_note = so_evidence_note r,
       sr_evidence_timestamp_ms = so_evidence_timestamp_ms r \<rparr>"

definition node_view :: "ceremony_attestation \<Rightarrow> ceremony_attestation_file" where
  "node_view a =
     \<lparr> af_ceremony_timestamp = ca_ceremony_timestamp a, af_operator_public_key = ca_operator_public_key a,
       af_operator_signature = ca_operator_signature a,
       af_production_sources = map node_source (ca_production_sources a),
       af_price_sources = map node_source (ca_price_sources a),
       af_median_production_tonnes = ca_median_production_tonnes a, af_median_price_usd_cents = ca_median_price_usd_cents a,
       af_blocks_per_year = ca_blocks_per_year a, af_base_reward_flakes = ca_base_reward_flakes a,
       af_derivation_steps = ca_derivation_steps a, af_master_hash = ca_master_hash a \<rparr>"

text \<open>
  What a written file is when it is read again. Everything but the floating-point numbers comes back as it was
  written. Of the numbers nothing is assumed: serde\_json does not promise, without its feature
  \<open>float_roundtrip\<close>, that a number is read back as it was printed, so \<open>f\<close> tells what each one becomes.
\<close>

definition reread_source :: "(f64 \<Rightarrow> f64) \<Rightarrow> source_result \<Rightarrow> source_result" where
  "reread_source f r = r\<lparr>so_extracted_value := map_option f (so_extracted_value r)\<rparr>"

definition reread :: "(f64 \<Rightarrow> f64) \<Rightarrow> ceremony_attestation \<Rightarrow> ceremony_attestation" where
  "reread f a =
     a\<lparr>ca_production_sources := map (reread_source f) (ca_production_sources a),
       ca_price_sources := map (reread_source f) (ca_price_sources a),
       ca_median_production_tonnes := f (ca_median_production_tonnes a)\<rparr>"

definition written_floats :: "ceremony_attestation \<Rightarrow> f64 list" where
  "written_floats a =
     ca_median_production_tonnes a # source_values (ca_production_sources a) @ source_values (ca_price_sources a)"

definition reads_back :: "'x tool_externs_scheme \<Rightarrow> (f64 \<Rightarrow> f64) \<Rightarrow> ceremony_attestation \<Rightarrow> bool" where
  "reads_back X f a \<longleftrightarrow>
     x_json_parse X (x_attestation_text X a) = Some (attestation_json (reread f a)) \<and>
     x_read_ceremony X (x_attestation_text X a) = Some (node_view (reread f a)) \<and>
     x_read_attestation X (x_attestation_text X a) = Some (reread f a)"

lemma reread_fields:
  "ca_master_hash (reread f a) = ca_master_hash a" "ca_operator_public_key (reread f a) = ca_operator_public_key a"
  "ca_operator_signature (reread f a) = ca_operator_signature a"
  "ca_production_sources (reread f a) = map (reread_source f) (ca_production_sources a)"
  "ca_price_sources (reread f a) = map (reread_source f) (ca_price_sources a)"
  "ca_median_production_tonnes (reread f a) = f (ca_median_production_tonnes a)"
  "ca_median_price_usd_cents (reread f a) = ca_median_price_usd_cents a"
  "ca_blocks_per_year (reread f a) = ca_blocks_per_year a" "ca_base_reward_opl (reread f a) = ca_base_reward_opl a"
  "ca_base_reward_flakes (reread f a) = ca_base_reward_flakes a"
  "ca_price_fetch_spread_ms (reread f a) = ca_price_fetch_spread_ms a"
  "ca_ceremony_start_ms (reread f a) = ca_ceremony_start_ms a" "ca_ceremony_end_ms (reread f a) = ca_ceremony_end_ms a"
  "ca_ceremony_timestamp (reread f a) = ca_ceremony_timestamp a"
  "ca_production_data_year (reread f a) = ca_production_data_year a"
  by (simp_all add: reread_def)

lemma reread_source_values: "source_values (map (reread_source f) rs) = map f (source_values rs)"
  by (induction rs) (simp_all add: source_values_def reread_source_def map_filter_simps split: option.split)

lemma reread_source_id: "(case so_extracted_value r of None \<Rightarrow> True | Some v \<Rightarrow> f v = v) \<Longrightarrow> reread_source f r = r"
  by (cases "so_extracted_value r") (simp_all add: reread_source_def)

lemma source_values_member: "v \<in> set (source_values rs) \<longleftrightarrow> (\<exists>r \<in> set rs. so_extracted_value r = Some v)"
  by (induction rs) (auto simp: source_values_def map_filter_simps split: option.splits)

lemma reread_exact:
  assumes "\<forall>v \<in> set (written_floats a). f v = v"
  shows "reread f a = a"
proof -
  have "map (reread_source f) rs = rs" if "\<forall>v \<in> set (source_values rs). f v = v" for rs
    using that by (intro map_idI reread_source_id) (auto simp: source_values_member split: option.split)
  then show ?thesis using assms by (simp add: reread_def written_floats_def)
qed

lemma reread_spread: "price_fetch_spread_ms (map (reread_source f) rs) = price_fetch_spread_ms rs"
proof -
  have "map so_fetched_at_ms (filter (\<lambda>r. 0 < so_fetched_at_ms r \<and> so_extracted_value r \<noteq> None) (map (reread_source f) rs)) =
      map so_fetched_at_ms (filter (\<lambda>r. 0 < so_fetched_at_ms r \<and> so_extracted_value r \<noteq> None) rs)"
    by (induction rs) (simp_all add: reread_source_def)
  then show ?thesis by (simp only: price_fetch_spread_ms_def)
qed

text \<open>What is relied on of hexadecimal text and of ed25519.\<close>

definition ceremony_crypto_ok :: "'x node_externs_scheme \<Rightarrow> bool" where
  "ceremony_crypto_ok X \<longleftrightarrow>
     (\<forall>bs. x_hex_decode X (x_hex_encode X bs) = Some bs) \<and>
     (\<forall>seed m. length seed = 32 \<longrightarrow>
        length (x_ed25519_public_key X seed) = 32 \<and> x_ed25519_key_valid X (x_ed25519_public_key X seed) \<and>
        length (x_ed25519_sign X seed m) = 64 \<and>
        x_ed25519_verify_strict X (x_ed25519_public_key X seed) m (x_ed25519_sign X seed m))"

lemma decode_encoded:
  "ceremony_crypto_ok X \<Longrightarrow> length bs = n \<Longrightarrow> decode_hex_array X n field (x_hex_encode X bs) = Inr bs"
  by (simp add: ceremony_crypto_ok_def decode_hex_array_def)

lemma node_source_values: "extracted_values (map node_source rs) = source_values rs"
  by (induction rs) (simp_all add: extracted_values_def source_values_def node_source_def map_filter_simps split: option.split)

lemma node_evidence:
  "source_fine X lo hi r \<Longrightarrow> \<not> lacks_evidence (node_source r)"
  by (auto simp: source_fine_def lacks_evidence_def has_evidence_def node_source_def)

text \<open>The numbers of a written file.\<close>

lemma record_numbers:
  assumes "ceremony_record X seed prods m prices p a" and "source_values (ca_price_sources a) \<noteq> []"
  shows "ca_production_sources a = prods" "ca_price_sources a = prices"
    and "ca_median_production_tonnes a = m" "ca_median_price_usd_cents a = price_cents p"
    and "\<exists>t. m = FNum t \<and> 1000 \<le> t \<and> t \<le> 10000"
    and "\<exists>u. p = FNum u \<and> 500 \<le> u \<and> u \<le> 15000"
    and "ca_blocks_per_year a = 350640"
    and "ca_base_reward_opl a = derived_reward_opl m 350640"
    and "ca_base_reward_flakes a = derived_reward_opl m 350640 * 1000000"
    and "derived_reward_opl m 350640 \<le> 916"
proof -
  note rec = assms(1) [unfolded ceremony_record_def]
  from rec show prods: "ca_production_sources a = prods" and prices: "ca_price_sources a = prices"
    and "ca_median_production_tonnes a = m" "ca_median_price_usd_cents a = price_cents p"
    by (auto simp: assemble_def Let_def)
  obtain qs where qs: "source_values prods = map FNum qs" "\<forall>q \<in> set qs. 1000 \<le> q \<and> q \<le> 10000"
    using source_values_nums [of prods X 1000 10000] rec by (auto simp: ranges_f64)
  moreover from rec qs have "qs \<noteq> []" by auto
  ultimately show t: "\<exists>t. m = FNum t \<and> 1000 \<le> t \<and> t \<le> 10000"
    using median_in_range [of qs 1000 10000] rec by auto
  obtain us where us: "source_values prices = map FNum us" "\<forall>q \<in> set us. 500 \<le> q \<and> q \<le> 15000"
    using source_values_nums [of prices X 500 15000] rec by (auto simp: ranges_f64)
  moreover from assms(2) us prices have "us \<noteq> []" by auto
  ultimately show "\<exists>u. p = FNum u \<and> 500 \<le> u \<and> u \<le> 15000"
    using median_in_range [of us 500 15000] rec assms(2) prices by auto
  show small: "derived_reward_opl m 350640 \<le> 916"
    using t derived_reward_bounds(2) by (auto simp: blocks_per_year_f64(1))
  from rec show "ca_blocks_per_year a = 350640" "ca_base_reward_opl a = derived_reward_opl m 350640"
    by (auto simp: assemble_def Let_def blocks_per_year_agree blocks_per_year_f64(1) rewards_agree)
  from rec have "ca_base_reward_flakes a = wrap64 (derived_reward_opl m 350640 * 1000000)"
    by (auto simp: assemble_def Let_def blocks_per_year_agree blocks_per_year_f64(1) rewards_agree CEREMONY_FLAKES_PER_OPL_def)
  then show "ca_base_reward_flakes a = derived_reward_opl m 350640 * 1000000"
    using small by (simp add: wrap64_exact U64_MAX_def)
qed

lemma not_outside: "in_range (FNum lo) (FNum hi) v \<longleftrightarrow> \<not> outside (FNum lo) (FNum hi) v"
  by (cases v) (auto simp: in_range_def outside_def)

lemma record_sources_valid:
  assumes rec: "ceremony_record X seed prods m prices p a" and "source_values (ca_price_sources a) \<noteq> []"
  shows "validate_ceremony_sources (node_view (reread f a)) = Inr () \<longleftrightarrow>
    (\<forall>v \<in> set (source_values (ca_production_sources a)). in_range PROD_MIN_TONNES PROD_MAX_TONNES (f v)) \<and>
    (\<forall>v \<in> set (source_values (ca_price_sources a)). in_range PRICE_MIN_USD_OZ PRICE_MAX_USD_OZ (f v))"
proof -
  note num = record_numbers [OF assms]
  note fine = rec [unfolded ceremony_record_def]
  have evidence: "find lacks_evidence (map node_source (map (reread_source f) prods) @ map node_source (map (reread_source f) prices)) = None"
  proof -
    have "\<not> lacks_evidence (node_source (reread_source f r))" if "r \<in> set prods \<or> r \<in> set prices" for r
    proof -
      have "\<not> lacks_evidence (node_source r)" using that fine node_evidence by blast
      then show ?thesis by (simp add: lacks_evidence_def has_evidence_def node_source_def reread_source_def cong: option.case_cong)
    qed
    then show ?thesis unfolding find_None_iff by auto
  qed
  have usd: "f64_div (f64_of_nat CEREMONY_PRICE_MIN_USD_CENTS) (round_f64 100) = FNum 500"
      "f64_div (f64_of_nat CEREMONY_PRICE_MAX_USD_CENTS) (round_f64 100) = FNum 15000"
    by (simp_all add: f64_of_nat_def CEREMONY_PRICE_MIN_USD_CENTS_def CEREMONY_PRICE_MAX_USD_CENTS_def round_f64_numeral)
  have view: "af_production_sources (node_view (reread f a)) = map node_source (map (reread_source f) prods)"
    "af_price_sources (node_view (reread f a)) = map node_source (map (reread_source f) prices)"
    by (simp_all add: node_view_def num(1,2) reread_fields)
  have some: "source_values prices \<noteq> []" "5 \<le> length (source_values prods)" using assms(2) num(2) fine by auto
  show ?thesis
    unfolding validate_ceremony_sources_def Let_def view usd ceremony_bounds_f64 evidence option.case num(1,2) ranges_f64 not_outside
      node_source_values reread_source_values
    using some by (auto simp: MIN_CEREMONY_PRODUCTION_SOURCES_def list_ex_iff)
qed

lemma record_derivation_valid:
  assumes "ceremony_record X seed prods m prices p a" and "source_values (ca_price_sources a) \<noteq> []"
  shows "validate_ceremony_reward_derivation (node_view (reread f a)) = Inr () \<longleftrightarrow>
      in_range PROD_MIN_TONNES PROD_MAX_TONNES (f (ca_median_production_tonnes a)) \<and>
      derived_reward_opl (f (ca_median_production_tonnes a)) 350640 = ca_base_reward_opl a"
    and "91000000 \<le> ca_base_reward_flakes a" "ca_base_reward_flakes a \<le> 916000000"
proof -
  note num = record_numbers [OF assms]
  obtain t where t: "m = FNum t" "1000 \<le> t" "t \<le> 10000" using num(5) by blast
  obtain u where u: "p = FNum u" "500 \<le> u" "u \<le> 15000" using num(6) by blast
  have low: "91 \<le> derived_reward_opl m 350640"
    using derived_reward_bounds(1) [OF t(2,3)] by (simp add: t(1) blocks_per_year_f64(1))
  then show bounds: "91000000 \<le> ca_base_reward_flakes a" "ca_base_reward_flakes a \<le> 916000000" using num(9,10) by simp_all
  have ok: "(r = Inr ()) \<longleftrightarrow> is_ok r" for r :: "message + unit" by (cases r) (simp_all add: is_ok_def)
  have view: "af_median_production_tonnes (node_view (reread f a)) = f (ca_median_production_tonnes a)"
    "af_median_price_usd_cents (node_view (reread f a)) = price_cents p" "af_blocks_per_year (node_view (reread f a)) = 350640"
    "af_base_reward_flakes (node_view (reread f a)) = ca_base_reward_flakes a"
    by (simp_all add: node_view_def reread_fields num(4,7))
  have same: "ca_base_reward_flakes a = n * 1000000 \<longleftrightarrow> n = ca_base_reward_opl a" for n
    unfolding num(8,9) by auto
  show "validate_ceremony_reward_derivation (node_view (reread f a)) = Inr () \<longleftrightarrow>
      in_range PROD_MIN_TONNES PROD_MAX_TONNES (f (ca_median_production_tonnes a)) \<and>
      derived_reward_opl (f (ca_median_production_tonnes a)) 350640 = ca_base_reward_opl a"
    unfolding ok reward_derivation_exact view same ranges_f64 in_range_nums
    using price_cents_range [OF u(2,3)] bounds unfolding u(1) by auto
qed

text \<open>The signature of a file verifies under the operator's key.\<close>

lemma hex_encode_inject: "ceremony_crypto_ok X \<Longrightarrow> x_hex_encode X bs = x_hex_encode X cs \<Longrightarrow> bs = cs"
  by (metis ceremony_crypto_ok_def option.inject)

lemma record_signature:
  assumes "ceremony_record X seed prods m prices p a" and ok: "ceremony_crypto_ok X"
  shows "\<exists>b. ca_master_hash a = x_hex_encode X (hash_as_bytes b) \<and>
    ca_operator_public_key a = x_hex_encode X (x_ed25519_public_key X seed) \<and>
    ca_operator_signature a = x_hex_encode X (x_ed25519_sign X seed (hash_as_bytes b)) \<and>
    compute_master_hash X a = Some (ca_master_hash a)"
proof -
  obtain start_ms end_ms operator year h sg where a: "a = (assemble X start_ms end_ms operator seed year prods prices
      (price_fetch_spread_ms prices) m (price_cents p))\<lparr>ca_master_hash := h, ca_operator_signature := sg\<rparr>"
    and h: "compute_master_hash X (assemble X start_ms end_ms operator seed year prods prices (price_fetch_spread_ms prices) m (price_cents p)) = Some h"
    and sg: "sign_master_hash X seed h = Some sg"
    using assms(1) unfolding ceremony_record_def Let_def by (elim conjE exE) (rule that)
  from h obtain b where b: "h = x_hex_encode X (hash_as_bytes b)"
    by (auto simp: compute_master_hash_def split: option.splits sum.splits)
  have "sg = x_hex_encode X (x_ed25519_sign X seed (hash_as_bytes b))"
    using sg ok by (simp add: sign_master_hash_def b ceremony_crypto_ok_def)
  moreover have "compute_master_hash X a = Some h" unfolding a master_hash_of_signed by (rule h)
  moreover have "ca_master_hash a = h" "ca_operator_signature a = sg"
    "ca_operator_public_key a = x_hex_encode X (x_ed25519_public_key X seed)"
    by (simp_all add: a assemble_def Let_def)
  ultimately show ?thesis using b by blast
qed

section \<open>What the hash sees of a number\<close>

text \<open>The canonical form of an object depends on the canonical forms of its entries only.\<close>

lemma canonical_object_cong:
  assumes "map (\<lambda>e. (fst e, canonical_json X (snd e))) kvs1 = map (\<lambda>e. (fst e, canonical_json X (snd e))) kvs2"
  shows "canonical_json X (JObject kvs1) = canonical_json X (JObject kvs2)"
proof -
  let ?f = "\<lambda>e. (fst e, canonical_json X (snd e))"
  let ?h = "\<lambda>e. map_sum id (\<lambda>t. x_json_quote X (fst e) @ '':'' @ t) (snd e)"
  have sorted: "map ?f (sort_key fst kvs) = sort_key fst (map ?f kvs)" for kvs
    by (simp add: sort_key_map comp_def)
  have "map (\<lambda>e. map_sum id (\<lambda>t. x_json_quote X (fst e) @ '':'' @ t) (canonical_json X (snd e))) (sort_key fst kvs) =
      map ?h (sort_key fst (map ?f kvs))" for kvs
    unfolding sorted [symmetric] by simp
  then show ?thesis by (simp only: canonical_json.simps assms)
qed

lemma canonical_sorted_cong:
  assumes "map (\<lambda>e. (fst e, canonical_json X (snd e))) kvs1 = map (\<lambda>e. (fst e, canonical_json X (snd e))) kvs2"
  shows "canonical_json X (json_object kvs1) = canonical_json X (json_object kvs2)"
proof -
  have sorted: "map (\<lambda>e. (fst e, canonical_json X (snd e))) (sort_key fst kvs) = sort_key fst (map (\<lambda>e. (fst e, canonical_json X (snd e))) kvs)" for kvs
    by (simp add: sort_key_map comp_def)
  show ?thesis unfolding json_object_def by (rule canonical_object_cong) (simp only: sorted assms)
qed

text \<open>Two finite numbers with the same six decimals.\<close>

fun same_six_decimals :: "f64 \<Rightarrow> f64 \<Rightarrow> bool" where
  "same_six_decimals (FNum q) (FNum r) \<longleftrightarrow> show_decimals 6 q = show_decimals 6 r"
| "same_six_decimals _ _ \<longleftrightarrow> False"

lemma same_six_decimals_json:
  "same_six_decimals v w \<Longrightarrow> canonical_json X (f64_json v) = canonical_json X (f64_json w)"
  by (cases v; cases w) (simp_all add: f64_json_def)

lemma reread_source_canonical:
  assumes "\<And>v. so_extracted_value r = Some v \<Longrightarrow> same_six_decimals v (f v)"
  shows "canonical_json X (source_json (reread_source f r)) = canonical_json X (source_json r)"
proof (cases "so_extracted_value r")
  case (Some v)
  have "canonical_json X (f64_json (f v)) = canonical_json X (f64_json v)"
    by (rule same_six_decimals_json [OF assms [OF Some], symmetric])
  then show ?thesis unfolding source_json_def by (intro canonical_sorted_cong) (simp add: reread_source_def Some)
qed (simp add: reread_source_id)

lemma reread_master_hash:
  assumes same: "\<forall>v \<in> set (written_floats a). same_six_decimals v (f v)"
  shows "compute_master_hash X (reread f a) = compute_master_hash X a"
proof -
  let ?b = "\<lambda>a. map (with_value ''operator_signature'' (JString [])) (map (with_value ''master_hash'' (JString [])) (attestation_entries a))"
  have keys: "''master_hash'' \<in> fst ` set (attestation_entries a)" "''operator_signature'' \<in> fst ` set (attestation_entries a)" for a
    by (simp_all only: image_set attestation_keys) simp_all
  have each: "map (canonical_json X) (map source_json (map (reread_source f) rs)) = map (canonical_json X) (map source_json rs)"
    if "\<forall>v \<in> set (source_values rs). same_six_decimals v (f v)" for rs
    using that by (auto simp: source_values_member intro!: reread_source_canonical)
  have array: "canonical_json X (JArray (map source_json (map (reread_source f) rs))) = canonical_json X (JArray (map source_json rs))"
    if "\<forall>v \<in> set (source_values rs). same_six_decimals v (f v)" for rs
    unfolding canonical_json.simps each [OF that] ..
  have sources: "canonical_json X (JArray (map source_json (map (reread_source f) (ca_production_sources a)))) = canonical_json X (JArray (map source_json (ca_production_sources a)))"
    "canonical_json X (JArray (map source_json (map (reread_source f) (ca_price_sources a)))) = canonical_json X (JArray (map source_json (ca_price_sources a)))"
    by (rule array; use same in \<open>simp add: written_floats_def\<close>)+
  have median: "canonical_json X (f64_json (f (ca_median_production_tonnes a))) = canonical_json X (f64_json (ca_median_production_tonnes a))"
    by (rule sym, rule same_six_decimals_json) (use same in \<open>simp add: written_floats_def\<close>)
  have "canonical_json X (json_object (?b (reread f a))) = canonical_json X (json_object (?b a))"
    by (intro canonical_sorted_cong)
      (simp add: attestation_entries_def with_value_def reread_def median sources [simplified map_map] del: canonical_json.simps)
  then show ?thesis
    unfolding compute_master_hash_def attestation_json_def by (simp only: blank_signed_object [OF attestation_keys_distinct keys] option.case)
qed

text \<open>The files that the node accepts, and what it makes of them.\<close>

lemma load_accepts_iff:
  "load_genesis_config_from_attestation X (Inr contents) allow = Some (Inr g) \<longleftrightarrow>
     (\<exists>a h pk sg. x_read_ceremony X contents = Some a \<and> validate_ceremony_sources a = Inr () \<and>
        validate_ceremony_reward_derivation a = Inr () \<and> compute_ceremony_master_hash X contents = Some (Inr h) \<and>
        decode_hex_array X 32 ''master_hash'' (af_master_hash a) = Inr h \<and>
        check_ceremony_signature X allow h a = Inr (pk, sg) \<and> g = ceremony_genesis_config X h pk sg a)"
proof (cases "x_read_ceremony X contents")
  case None
  then show ?thesis by (simp add: load_genesis_config_from_attestation_def)
next
  case read: (Some a)
  show ?thesis
  proof (cases "validate_ceremony_sources a")
    case (Inl e)
    then show ?thesis by (simp add: load_genesis_config_from_attestation_def read)
  next
    case src: (Inr u)
    show ?thesis
    proof (cases "validate_ceremony_reward_derivation a")
      case (Inl e)
      then show ?thesis by (simp add: load_genesis_config_from_attestation_def read src)
    next
      case (Inr w)
      then show ?thesis
        by (auto simp: load_genesis_config_from_attestation_def read src and_then_Inr_iff split: if_splits)
    qed
  qed
qed

section \<open>A concrete instance for the witnesses\<close>

text \<open>The canonical form exists for every document whose numbers are finite.\<close>

lemma collect_ok: "(\<And>r. r \<in> set rs \<Longrightarrow> \<exists>x. r = Inr x) \<Longrightarrow> \<exists>xs. collect rs = Inr xs"
proof (induction rs)
  case (Cons r rs)
  then obtain x xs where "r = Inr x" "collect rs = Inr xs" by (metis list.set_intros)
  then show ?case by simp
qed simp

inductive finite_json :: "json \<Rightarrow> bool" where
  "finite_json JNull"
| "finite_json (JBool b)"
| "finite_json (JNumber (PosInt n))"
| "finite_json (JNumber (NegInt i))"
| "finite_json (JNumber (FloatNumber (FNum q)))"
| "finite_json (JString s)"
| "(\<And>v. v \<in> set vs \<Longrightarrow> finite_json v) \<Longrightarrow> finite_json (JArray vs)"
| "(\<And>e. e \<in> set kvs \<Longrightarrow> finite_json (snd e)) \<Longrightarrow> finite_json (JObject kvs)"

lemmas finite_json_atoms = finite_json.intros(1-6)

lemma canonical_json_exists: "finite_json v \<Longrightarrow> \<exists>t. canonical_json X v = Inr t"
proof (induction v rule: finite_json.induct)
  case (7 vs)
  then have "\<exists>ts. collect (map (canonical_json X) vs) = Inr ts" by (intro collect_ok) auto
  then show ?case by auto
next
  case (8 kvs)
  have "\<exists>ts. collect (map (\<lambda>e. map_sum id (\<lambda>t. x_json_quote X (fst e) @ '':'' @ t) (canonical_json X (snd e))) (sort_key fst kvs)) = Inr ts"
  proof (rule collect_ok)
    fix r assume "r \<in> set (map (\<lambda>e. map_sum id (\<lambda>t. x_json_quote X (fst e) @ '':'' @ t) (canonical_json X (snd e))) (sort_key fst kvs))"
    then obtain e where e: "e \<in> set kvs"
      "r = map_sum id (\<lambda>t. x_json_quote X (fst e) @ '':'' @ t) (canonical_json X (snd e))" by auto
    from 8(2) [OF e(1)] obtain t where "canonical_json X (snd e) = Inr t" by blast
    with e(2) show "\<exists>x. r = Inr x" by simp
  qed
  then show ?case by auto
qed (simp_all add: Let_def)

lemma finite_object: "(\<And>v. v \<in> snd ` set kvs \<Longrightarrow> finite_json v) \<Longrightarrow> finite_json (json_object kvs)"
  unfolding json_object_def by (intro finite_json.intros) auto

lemma finite_number: "finite_json (f64_json v)" "finite_json (nat_json n)"
  by (cases v) (simp_all add: f64_json_def nat_json_def finite_json_atoms)

lemma finite_source: "finite_json (source_json r)"
  unfolding source_json_def
  by (rule finite_object)
    (auto simp: optional_entry_def finite_number finite_json_atoms split: option.splits)

lemma finite_attestation: "v \<in> snd ` set (attestation_entries a) \<Longrightarrow> finite_json v"
proof -
  have "finite_json (JArray (map source_json rs))" "finite_json (JArray (map JString ss))" for rs ss
    by (intro finite_json.intros; auto simp: finite_source finite_json_atoms)+
  then show "v \<in> snd ` set (attestation_entries a) \<Longrightarrow> finite_json v"
    by (auto simp: attestation_entries_def finite_number finite_json_atoms)
qed

lemma blanked_finite: "\<exists>w. blank_signed_fields (attestation_json a) = Some w \<and> finite_json w"
proof -
  have keys: "''master_hash'' \<in> fst ` set (attestation_entries a)" "''operator_signature'' \<in> fst ` set (attestation_entries a)"
    by (simp_all only: image_set attestation_keys) simp_all
  have "finite_json (snd (with_value k (JString []) (with_value k' (JString []) e)))" if "e \<in> set (attestation_entries a)" for k k' e
    using that finite_attestation [of "snd e" a] by (simp add: with_value_def finite_json_atoms)
  then have "finite_json (json_object (map (with_value ''operator_signature'' (JString []))
      (map (with_value ''master_hash'' (JString [])) (attestation_entries a))))"
    by (intro finite_object) auto
  then show ?thesis unfolding attestation_json_def blank_signed_object [OF attestation_keys_distinct keys] by blast
qed

lemma master_hash_exists: "\<exists>b. compute_master_hash X a = Some (x_hex_encode X (hash_as_bytes b))"
proof -
  obtain w where w: "blank_signed_fields (attestation_json a) = Some w" "finite_json w" using blanked_finite by blast
  obtain t where "canonical_json X w = Inr t" using canonical_json_exists [OF w(2)] by blast
  with w(1) show ?thesis by (auto simp: compute_master_hash_def)
qed

text \<open>What the readers do has no influence on a ceremony without requests.\<close>

definition with_readers ::
  "json \<Rightarrow> ceremony_attestation_file \<Rightarrow> ceremony_attestation \<Rightarrow> tool_externs \<Rightarrow> tool_externs" where
  "with_readers j v a X =
     X\<lparr>x_json_parse := (\<lambda>_. Some j), x_read_ceremony := (\<lambda>_. Some v), x_read_attestation := (\<lambda>_. Some a)\<rparr>"

lemma with_readers_fields:
  "x_json_quote (with_readers j v a X) = x_json_quote X"
  "x_attestation_text (with_readers j v a X) = x_attestation_text X" "x_blake3 (with_readers j v a X) = x_blake3 X"
  "x_hex_encode (with_readers j v a X) = x_hex_encode X" "x_hex_decode (with_readers j v a X) = x_hex_decode X"
  "x_ed25519_public_key (with_readers j v a X) = x_ed25519_public_key X"
  "x_ed25519_sign (with_readers j v a X) = x_ed25519_sign X"
  "x_ed25519_key_valid (with_readers j v a X) = x_ed25519_key_valid X"
  "x_ed25519_verify_strict (with_readers j v a X) = x_ed25519_verify_strict X"
  by (simp_all add: with_readers_def)

lemma canonical_json_readers:
  "X' = with_readers j v a X \<Longrightarrow> canonical_json X' w = canonical_json X w"
proof (induction X' w rule: canonical_json.induct)
  case (5 X' vs)
  then have "map (canonical_json X') vs = map (canonical_json X) vs" by (intro map_cong refl) blast
  then show ?case by (simp only: canonical_json.simps)
next
  case (6 X' kvs)
  have "map (\<lambda>e. map_sum id (\<lambda>t. x_json_quote X' (fst e) @ '':'' @ t) (canonical_json X' (snd e))) (sort_key fst kvs) =
      map (\<lambda>e. map_sum id (\<lambda>t. x_json_quote X (fst e) @ '':'' @ t) (canonical_json X (snd e))) (sort_key fst kvs)"
  proof (rule map_cong [OF refl])
    fix e assume "e \<in> set (sort_key fst kvs)"
    from 6(1) [OF this 6(2)] show "map_sum id (\<lambda>t. x_json_quote X' (fst e) @ '':'' @ t) (canonical_json X' (snd e)) =
        map_sum id (\<lambda>t. x_json_quote X (fst e) @ '':'' @ t) (canonical_json X (snd e))"
      by (simp add: 6(2) with_readers_fields)
  qed
  then show ?case by (simp only: canonical_json.simps)
qed (simp_all add: with_readers_fields)

lemma compute_master_hash_readers: "compute_master_hash (with_readers j v w X) a = compute_master_hash X a"
  by (simp add: compute_master_hash_def canonical_json_readers [OF refl] with_readers_fields
      cong: option.case_cong sum.case_cong)

lemma run_ceremony_readers:
  assumes "cc_manual cli" and "\<not> cc_dry_run cli"
  shows "run_ceremony (with_readers j v w X) cli input = run_ceremony X cli input"
proof -
  have "sign_master_hash (with_readers j v w X) = sign_master_hash X"
    by (intro ext) (simp add: sign_master_hash_def with_readers_fields)
  then have seal: "seal (with_readers j v w X) d seed a io = seal X d seed a io" for d seed a io
    by (simp only: seal_def compute_master_hash_readers)
  have assemble: "assemble (with_readers j v w X) = assemble X"
    by (intro ext) (simp add: assemble_def with_readers_fields)
  have conclude: "conclude_ceremony (with_readers j v w X) = conclude_ceremony X"
    by (intro ext) (simp only: conclude_ceremony_def seal assemble)
  have fetch: "no_fetch (with_readers j v w X) = no_fetch X"
    by (simp add: no_fetch_def empty_hash_def with_readers_fields)
  have key: "load_or_generate_signing_key (with_readers j v w X) = load_or_generate_signing_key X"
    by (intro ext) (simp only: load_or_generate_signing_key_def with_readers_fields)
  show ?thesis
    using assms unfolding run_ceremony_def by (simp only: conclude fetch key if_True if_False Let_def)
qed

definition demo_tool :: tool_externs where
  "demo_tool =
     ceremony_externs.extend
       (node_externs.extend
         (storage_externs.extend
           (demo_store\<lparr>x_hex_encode := map (\<lambda>b. char_of (unat b)), x_hex_decode := (\<lambda>s. Some (map (\<lambda>c. word_of_nat (of_char c)) s))\<rparr>)
           (node_externs.fields id (\<lambda>_ _. replicate 64 0)))
         (ceremony_externs.fields (\<lambda>_. None) id (\<lambda>_. None)))
       (tool_externs.fields id (\<lambda>_. []) (\<lambda>_. None))"

lemma demo_tool_fields:
  "x_hex_encode demo_tool = map (\<lambda>b. char_of (unat b))" "x_hex_decode demo_tool = (\<lambda>s. Some (map (\<lambda>c. word_of_nat (of_char c)) s))"
  "x_ed25519_public_key demo_tool = id"
  "x_ed25519_sign demo_tool = (\<lambda>_ _. replicate 64 0)" "x_ed25519_key_valid demo_tool = (\<lambda>_. True)"
  "x_ed25519_verify_strict demo_tool = (\<lambda>_ _ _. True)"
  by (simp_all add: demo_tool_def demo_store_def storage_externs.extend_def tool_externs.fields_def ceremony_externs.extend_def
      ceremony_externs.fields_def node_externs.extend_def node_externs.fields_def)

lemma demo_tool_crypto: "ceremony_crypto_ok (with_readers j v a demo_tool)"
proof -
  have "unat b mod 256 = unat b" for b :: byte using unsigned_less [of b, where ?'a = nat] by simp
  then have "map (\<lambda>c. word_of_nat (of_char c)) (map (\<lambda>b. char_of (unat b)) bs) = bs" for bs :: "byte list"
    by (induction bs) simp_all
  then show ?thesis by (simp add: ceremony_crypto_ok_def with_readers_fields demo_tool_fields)
qed

definition demo_lines :: "string list" where
  "demo_lines =
     [''3630'', ''table 1, page 2'', ''3630'', ''table 1, page 2'', ''3630'', ''table 1, page 2'', ''3630'', ''table 1, page 2'',
      ''3630'', ''table 1, page 2'', ''skip'', ''skip'',
      ''2386'', ''table 3, page 4'', ''skip'', ''skip'', ''skip'', ''skip'', ''skip'', ''yes'']"

definition demo_ceremony_input :: ceremony_input where
  "demo_ceremony_input =
     \<lparr> cin_key_file = None, cin_random_seed = replicate 32 1, cin_key_written = True, cin_prod_responses = [],
       cin_price_responses = [], cin_io = \<lparr> io_lines = demo_lines, io_clock = (\<lambda>t. 1000000), io_tick = 0 \<rparr> \<rparr>"

definition demo_ceremony_cli :: ceremony_cli where
  "demo_ceremony_cli = \<lparr> cc_dry_run = False, cc_manual = True, cc_operator = ''operator'', cc_production_year = Some 2024 \<rparr>"

lemma demo_answers:
  "prompt_value (''3630'' # ls) = Some (Some (FNum 3630), ls)"
  "prompt_value (''2386'' # ls) = Some (Some (FNum 2386), ls)"
  "prompt_value (''skip'' # ls) = Some (None, ls)"
  "prompt_evidence_note (''table 1, page 2'' # ls) = Some (''table 1, page 2'', ls)"
  "prompt_evidence_note (''table 3, page 4'' # ls) = Some (''table 3, page 4'', ls)"
  "confirm_lines (''yes'' # ls) = Some (True, ls)"
  by (simp_all add: trim_def is_space_def lower_char_def is_digit_def parse_decimal_def digits_value_def round_f64_numeral Let_def)

abbreviation demo_io :: "string list \<Rightarrow> nat \<Rightarrow> tool_io" where
  "demo_io ls n \<equiv> \<lparr> io_lines = ls, io_clock = (\<lambda>t. 1000000), io_tick = n \<rparr>"

lemma demo_collect:
  "collect_source_results True lo hi ((d, f) # dfs) (demo_io (''3630'' # ''table 1, page 2'' # ls) n) =
     map_option (apfst (Cons (source_entry lo hi d f (Some (FNum 3630)) 1000000 True ''manual'' (Some ''table 1, page 2'') (Some 1000000))))
       (collect_source_results True lo hi dfs (demo_io ls (n + 2)))"
  "collect_source_results True lo hi ((d, f) # dfs) (demo_io (''2386'' # ''table 3, page 4'' # ls) n) =
     map_option (apfst (Cons (source_entry lo hi d f (Some (FNum 2386)) 1000000 True ''manual'' (Some ''table 3, page 4'') (Some 1000000))))
       (collect_source_results True lo hi dfs (demo_io ls (n + 2)))"
  "collect_source_results True lo hi ((d, f) # dfs) (demo_io (''skip'' # ls) n) =
     map_option (apfst (Cons (source_entry lo hi d f None 1000000 True ''manual-skip'' None None)))
       (collect_source_results True lo hi dfs (demo_io ls (n + 1)))"
  by (simp_all add: collect_source_def ask_operator_def now_ms_def demo_answers del: prompt_value.simps prompt_evidence_note.simps)

lemma demo_entry_value:
  "so_extracted_value (source_entry lo hi d f v t m origin note ts) =
     (case v of None \<Rightarrow> None | Some x \<Rightarrow> if in_range lo hi x then Some x else None)"
  by (simp add: source_entry_def Let_def)

lemma demo_production:
  "\<exists>rs k. collect_source_results True PROD_MIN_TONNES PROD_MAX_TONNES (zip PROD_SOURCES (map (\<lambda>_. no_fetch X) PROD_SOURCES))
       (demo_io demo_lines n) =
     Some (rs, demo_io [''2386'', ''table 3, page 4'', ''skip'', ''skip'', ''skip'', ''skip'', ''skip'', ''yes''] k) \<and>
   source_values rs = [FNum 3630, FNum 3630, FNum 3630, FNum 3630, FNum 3630]"
  by (simp add: PROD_SOURCES_def demo_lines_def demo_collect source_values_def map_filter_simps
      demo_entry_value ranges_f64 in_range_def del: collect_source_results.simps(2))

lemma demo_price:
  "\<exists>rs k. collect_source_results True PRICE_MIN_USD_OZ PRICE_MAX_USD_OZ (zip PRICE_SOURCES (map (\<lambda>_. no_fetch X) PRICE_SOURCES))
       (demo_io [''2386'', ''table 3, page 4'', ''skip'', ''skip'', ''skip'', ''skip'', ''skip'', ''yes''] n) =
     Some (rs, demo_io [''yes''] k) \<and> source_values rs = [FNum 2386]"
  by (simp add: PRICE_SOURCES_def demo_collect source_values_def map_filter_simps
      demo_entry_value ranges_f64 in_range_def del: collect_source_results.simps(2))

lemma demo_run:
  "\<exists>a. run_ceremony demo_tool demo_ceremony_cli demo_ceremony_input = Some (Written a) \<and>
     source_values (ca_price_sources a) \<noteq> [] \<and> ca_ceremony_start_ms a = ca_ceremony_end_ms a \<and>
     ca_production_data_year a = 2024 \<and> ca_operator_public_key a = x_hex_encode demo_tool (replicate 32 1)"
proof -
  obtain prods k where prods: "collect_source_results True PROD_MIN_TONNES PROD_MAX_TONNES
        (zip PROD_SOURCES (map (\<lambda>_. no_fetch demo_tool) PROD_SOURCES)) (demo_io demo_lines (Suc 0)) =
      Some (prods, demo_io [''2386'', ''table 3, page 4'', ''skip'', ''skip'', ''skip'', ''skip'', ''skip'', ''yes''] k)"
    "source_values prods = [FNum 3630, FNum 3630, FNum 3630, FNum 3630, FNum 3630]"
    using demo_production by blast
  obtain prices k' where prices: "collect_source_results True PRICE_MIN_USD_OZ PRICE_MAX_USD_OZ
        (zip PRICE_SOURCES (map (\<lambda>_. no_fetch demo_tool) PRICE_SOURCES))
        (demo_io [''2386'', ''table 3, page 4'', ''skip'', ''skip'', ''skip'', ''skip'', ''skip'', ''yes''] k) =
      Some (prices, demo_io [''yes''] k')"
    "source_values prices = [FNum 2386]"
    using demo_price by blast
  have median: "trimmed_median [FNum 3630, FNum 3630, FNum 3630, FNum 3630, FNum 3630] = Some (FNum 3630)"
    "trimmed_median [FNum 2386] = Some (FNum 2386)"
    by (simp_all add: trimmed_median_def f64_sort_def)
  let ?a = "assemble demo_tool 1000000 1000000 ''operator'' (replicate 32 1) 2024 (apply_outlier_flags (FNum 3630) prods)
      (apply_outlier_flags (FNum 2386) prices) (price_fetch_spread_ms prices) (FNum 3630) (price_cents (FNum 2386))"
  have run: "run_ceremony demo_tool demo_ceremony_cli demo_ceremony_input =
      seal demo_tool False (replicate 32 1) ?a (demo_io [''yes''] (k' + 2))"
    by (simp add: run_ceremony_def demo_ceremony_cli_def demo_ceremony_input_def now_ms_def load_or_generate_signing_key_def
        prods prices median MIN_PROD_SOURCES_def conclude_ceremony_def)
  obtain b where "compute_master_hash demo_tool ?a = Some (x_hex_encode demo_tool (hash_as_bytes b))"
    using master_hash_exists by blast
  then obtain h sg where "seal demo_tool False (replicate 32 1) ?a (demo_io [''yes''] (k' + 2)) =
      Some (Written (?a\<lparr>ca_master_hash := h, ca_operator_signature := sg\<rparr>))"
    by (simp add: seal_def operator_confirm_def demo_answers sign_master_hash_def demo_tool_fields del: confirm_lines.simps)
  with run show ?thesis by (auto simp: assemble_def Let_def outlier_flags_keep prices demo_tool_fields)
qed

lemma with_readers_reads:
  "x_json_parse (with_readers j v a X) t = Some j" "x_read_ceremony (with_readers j v a X) t = Some v"
  "x_read_attestation (with_readers j v a X) t = Some a"
  by (simp_all add: with_readers_def)

text \<open>An instance with readers that give back what was written.\<close>

lemma demo_instance:
  "\<exists>(X :: tool_externs) a. run_ceremony X demo_ceremony_cli demo_ceremony_input = Some (Written a) \<and>
     source_values (ca_price_sources a) \<noteq> [] \<and> ceremony_crypto_ok X \<and> reads_back X id a \<and>
     x_hex_decode X (ca_operator_public_key a) \<noteq> Some (x_ed25519_public_key X DRY_RUN_GENESIS_OPERATOR_SEED) \<and>
     ca_ceremony_start_ms a = ca_ceremony_end_ms a \<and> ca_production_data_year a = 2024"
proof -
  obtain a where a: "run_ceremony demo_tool demo_ceremony_cli demo_ceremony_input = Some (Written a)"
    "source_values (ca_price_sources a) \<noteq> []" "ca_ceremony_start_ms a = ca_ceremony_end_ms a"
    "ca_production_data_year a = 2024" "ca_operator_public_key a = x_hex_encode demo_tool (replicate 32 1)"
    using demo_run by blast
  let ?X = "with_readers (attestation_json a) (node_view a) a demo_tool"
  have run: "run_ceremony ?X demo_ceremony_cli demo_ceremony_input = Some (Written a)"
    using run_ceremony_readers [of demo_ceremony_cli] a(1) by (simp add: demo_ceremony_cli_def)
  have ok: "ceremony_crypto_ok ?X" by (rule demo_tool_crypto)
  have "x_hex_decode ?X (ca_operator_public_key a) = Some (replicate 32 1)"
    using ok by (simp add: ceremony_crypto_ok_def a(5) with_readers_fields)
  moreover have "replicate 32 (1 :: byte) \<noteq> replicate 32 42" by (simp add: replicate_eq_replicate)
  ultimately have "x_hex_decode ?X (ca_operator_public_key a) \<noteq> Some (x_ed25519_public_key ?X DRY_RUN_GENESIS_OPERATOR_SEED)"
    by (simp add: with_readers_fields demo_tool_fields DRY_RUN_GENESIS_OPERATOR_SEED_def)
  moreover have "reads_back ?X id a"
    using reread_exact [of a id] by (simp add: reads_back_def with_readers_reads)
  ultimately show ?thesis using run ok a(2-4) by blast
qed

section \<open>Acceptance\<close>

text \<open>What the record of a ceremony gives when its numbers are read back exactly.\<close>

lemma exact_reading:
  assumes rec: "ceremony_record X seed prods m prices p a" and some: "source_values (ca_price_sources a) \<noteq> []"
    and ok: "ceremony_crypto_ok X" and exact: "\<forall>v \<in> set (written_floats a). f v = v"
  shows "compute_master_hash X (reread f a) = Some (ca_master_hash a)"
    and "\<forall>v \<in> set (source_values (ca_production_sources a)). in_range PROD_MIN_TONNES PROD_MAX_TONNES (f v)"
    and "\<forall>v \<in> set (source_values (ca_price_sources a)). in_range PRICE_MIN_USD_OZ PRICE_MAX_USD_OZ (f v)"
    and "in_range PROD_MIN_TONNES PROD_MAX_TONNES (f (ca_median_production_tonnes a))"
    and "derived_reward_opl (f (ca_median_production_tonnes a)) 350640 = ca_base_reward_opl a"
proof -
  note num = record_numbers [OF rec some]
  note fine = rec [unfolded ceremony_record_def]
  have keep: "f (ca_median_production_tonnes a) = ca_median_production_tonnes a"
    "\<And>v. v \<in> set (source_values (ca_production_sources a)) \<union> set (source_values (ca_price_sources a)) \<Longrightarrow> f v = v"
    using exact by (auto simp: written_floats_def)
  show "compute_master_hash X (reread f a) = Some (ca_master_hash a)"
    unfolding reread_exact [OF exact] using record_signature [OF rec ok] by blast
  show "\<forall>v \<in> set (source_values (ca_production_sources a)). in_range PROD_MIN_TONNES PROD_MAX_TONNES (f v)"
  proof
    fix v assume v: "v \<in> set (source_values (ca_production_sources a))"
    then obtain r where "r \<in> set prods" "so_extracted_value r = Some v" by (auto simp: source_values_member num(1))
    then show "in_range PROD_MIN_TONNES PROD_MAX_TONNES (f v)" using fine keep(2) v by (auto simp: source_fine_def)
  qed
  show "\<forall>v \<in> set (source_values (ca_price_sources a)). in_range PRICE_MIN_USD_OZ PRICE_MAX_USD_OZ (f v)"
  proof
    fix v assume v: "v \<in> set (source_values (ca_price_sources a))"
    then obtain r where "r \<in> set prices" "so_extracted_value r = Some v" by (auto simp: source_values_member num(2))
    then show "in_range PRICE_MIN_USD_OZ PRICE_MAX_USD_OZ (f v)" using fine keep(2) v by (auto simp: source_fine_def)
  qed
  show "in_range PROD_MIN_TONNES PROD_MAX_TONNES (f (ca_median_production_tonnes a))"
    unfolding keep(1) unfolding num(3) ranges_f64 in_range_nums by (rule num(5))
  show "derived_reward_opl (f (ca_median_production_tonnes a)) 350640 = ca_base_reward_opl a"
    unfolding keep(1) by (simp only: num(3,8))
qed

text \<open>
  C38: When the node starts from what the tool has written. A ceremony that is not a dry run has ended with a file in
  which at least one price source gave a value. Reading it again gives everything back, except that a
  floating-point number v may come back as any number f v: without the feature float\_roundtrip serde\_json does not
  promise more. The operator's key is not the published one of dry runs, or the node allows that one. Then the node
  starts exactly when the hash of the re-read document is the one in the file, every re-read source value and the
  re-read median are in range, and the re-read median gives the same whole coins. The genesis then has the base
  reward of the file, between 91 and 916 coins, and its hash, key and signature. The hash is the one of the
  file if every number keeps its six decimals, and if every number comes back exactly the node starts.
\<close>

theorem ceremony_output_accepted:
  assumes run: "run_ceremony X cli input = Some (Written a)" and "\<not> cc_dry_run cli"
    and "length (cin_random_seed input) = 32"
    and prices: "source_values (ca_price_sources a) \<noteq> []"
    and ok: "ceremony_crypto_ok X"
    and read: "reads_back X f a"
    and key: "allow \<or> x_hex_decode X (ca_operator_public_key a) \<noteq> Some (x_ed25519_public_key X DRY_RUN_GENESIS_OPERATOR_SEED)"
  shows "((\<exists>g. load_genesis_config_from_attestation X (Inr (x_attestation_text X a)) allow = Some (Inr g)) \<longleftrightarrow>
      compute_master_hash X (reread f a) = Some (ca_master_hash a) \<and>
      (\<forall>v \<in> set (source_values (ca_production_sources a)). in_range PROD_MIN_TONNES PROD_MAX_TONNES (f v)) \<and>
      (\<forall>v \<in> set (source_values (ca_price_sources a)). in_range PRICE_MIN_USD_OZ PRICE_MAX_USD_OZ (f v)) \<and>
      in_range PROD_MIN_TONNES PROD_MAX_TONNES (f (ca_median_production_tonnes a)) \<and>
      derived_reward_opl (f (ca_median_production_tonnes a)) 350640 = ca_base_reward_opl a) \<and>
    (\<forall>g. load_genesis_config_from_attestation X (Inr (x_attestation_text X a)) allow = Some (Inr g) \<longrightarrow>
      gn_base_reward g = ca_base_reward_flakes a \<and> 91000000 \<le> ca_base_reward_flakes a \<and> ca_base_reward_flakes a \<le> 916000000 \<and>
      (\<exists>mh pk sg. g = ceremony_genesis_config X mh pk sg (node_view (reread f a)) \<and> x_hex_encode X mh = ca_master_hash a \<and>
        x_hex_encode X pk = ca_operator_public_key a \<and> x_hex_encode X sg = ca_operator_signature a)) \<and>
    ((\<forall>v \<in> set (written_floats a). same_six_decimals v (f v)) \<longrightarrow> compute_master_hash X (reread f a) = Some (ca_master_hash a)) \<and>
    ((\<forall>v \<in> set (written_floats a). f v = v) \<longrightarrow>
      (\<exists>g. load_genesis_config_from_attestation X (Inr (x_attestation_text X a)) allow = Some (Inr g)))"
proof -
  obtain seed prods m pr p where rec: "ceremony_record X seed prods m pr p a"
    using run_ceremony_record [OF run assms(2,3)] by blast
  have seed: "length seed = 32" using rec by (simp add: ceremony_record_def)
  let ?text = "x_attestation_text X a" and ?pk = "x_ed25519_public_key X seed"
  obtain b where b: "ca_master_hash a = x_hex_encode X (hash_as_bytes b)" "ca_operator_public_key a = x_hex_encode X ?pk"
    "ca_operator_signature a = x_hex_encode X (x_ed25519_sign X seed (hash_as_bytes b))"
    "compute_master_hash X a = Some (ca_master_hash a)"
    using record_signature [OF rec ok] by blast
  let ?g = "ceremony_genesis_config X (hash_as_bytes b) ?pk (x_ed25519_sign X seed (hash_as_bytes b)) (node_view (reread f a))"
  have ed: "length ?pk = 32" "x_ed25519_key_valid X ?pk" "length (x_ed25519_sign X seed (hash_as_bytes b)) = 64"
    "x_ed25519_verify_strict X ?pk (hash_as_bytes b) (x_ed25519_sign X seed (hash_as_bytes b))"
    using ok seed by (simp_all add: ceremony_crypto_ok_def)
  have view: "af_master_hash (node_view (reread f a)) = ca_master_hash a"
    "af_operator_public_key (node_view (reread f a)) = ca_operator_public_key a"
    "af_operator_signature (node_view (reread f a)) = ca_operator_signature a"
    by (simp_all add: node_view_def reread_fields)
  have "allow \<or> ?pk \<noteq> x_ed25519_public_key X DRY_RUN_GENESIS_OPERATOR_SEED"
    using key ok by (auto simp: b(2) ceremony_crypto_ok_def)
  then have signature: "check_ceremony_signature X allow (hash_as_bytes b) (node_view (reread f a)) =
      Inr (?pk, x_ed25519_sign X seed (hash_as_bytes b))"
    using ed by (auto simp: check_ceremony_signature_def view b(2,3) decode_encoded [OF ok])
  have texts: "x_json_parse X ?text = Some (attestation_json (reread f a))" "x_read_ceremony X ?text = Some (node_view (reread f a))"
    using read by (simp_all add: reads_back_def)
  have hash: "compute_ceremony_master_hash X ?text = Some (Inr (hash_as_bytes b)) \<longleftrightarrow>
      compute_master_hash X (reread f a) = Some (ca_master_hash a)"
    unfolding b(1) by (rule node_hash_is_tool_hash [OF texts(1) hex_encode_inject [OF ok]])
  have decoded: "decode_hex_array X 32 ''master_hash'' (af_master_hash (node_view (reread f a))) = Inr (hash_as_bytes b)"
    unfolding view b(1) by (rule decode_encoded [OF ok length_hash_as_bytes])
  have loads: "load_genesis_config_from_attestation X (Inr ?text) allow = Some (Inr g) \<longleftrightarrow>
      g = ?g \<and> validate_ceremony_sources (node_view (reread f a)) = Inr () \<and>
      validate_ceremony_reward_derivation (node_view (reread f a)) = Inr () \<and>
      compute_master_hash X (reread f a) = Some (ca_master_hash a)" for g
    unfolding load_accepts_iff texts(2) hash [symmetric] using signature decoded by auto
  have "gn_base_reward ?g = ca_base_reward_flakes a" by (simp add: ceremony_genesis_config_def node_view_def reread_fields)
  then have genesis: "load_genesis_config_from_attestation X (Inr ?text) allow = Some (Inr g) \<longrightarrow>
      gn_base_reward g = ca_base_reward_flakes a \<and> 91000000 \<le> ca_base_reward_flakes a \<and> ca_base_reward_flakes a \<le> 916000000 \<and>
      (\<exists>mh pk sg. g = ceremony_genesis_config X mh pk sg (node_view (reread f a)) \<and> x_hex_encode X mh = ca_master_hash a \<and>
        x_hex_encode X pk = ca_operator_public_key a \<and> x_hex_encode X sg = ca_operator_signature a)" for g
    using loads record_derivation_valid(2,3) [OF rec prices] b(1,2,3) by metis
  note iff = loads [unfolded record_sources_valid [OF rec prices] record_derivation_valid(1) [OF rec prices]]
  have six: "(\<forall>v \<in> set (written_floats a). same_six_decimals v (f v)) \<longrightarrow> compute_master_hash X (reread f a) = Some (ca_master_hash a)"
    using reread_master_hash b(4) by metis
  show ?thesis unfolding iff using genesis [unfolded iff] six exact_reading [OF rec prices ok, of f] by blast
qed

theorem ceremony_output_accepted_witness:
  "\<exists>(X :: tool_externs) cli input a g. run_ceremony X cli input = Some (Written a) \<and>
     load_genesis_config_from_attestation X (Inr (x_attestation_text X a)) False = Some (Inr g)"
proof -
  obtain X a where a: "run_ceremony (X :: tool_externs) demo_ceremony_cli demo_ceremony_input = Some (Written a)"
    "source_values (ca_price_sources a) \<noteq> []" "ceremony_crypto_ok X" "reads_back X id a"
    "x_hex_decode X (ca_operator_public_key a) \<noteq> Some (x_ed25519_public_key X DRY_RUN_GENESIS_OPERATOR_SEED)"
    using demo_instance by blast
  have "\<not> cc_dry_run demo_ceremony_cli" "length (cin_random_seed demo_ceremony_input) = 32"
    by (simp_all add: demo_ceremony_cli_def demo_ceremony_input_def)
  note accepted = ceremony_output_accepted [OF a(1) this a(2-4), of False, THEN conjunct2, THEN conjunct2, THEN conjunct2]
  from accepted a(5) have "\<exists>g. load_genesis_config_from_attestation X (Inr (x_attestation_text X a)) False = Some (Inr g)"
    by (simp only: id_apply ball_triv simp_thms)
  with a(1) show ?thesis by blast
qed

text \<open>What the verification asks of the re-read numbers.\<close>

definition readings_agree :: "'x tool_externs_scheme \<Rightarrow> (f64 \<Rightarrow> f64) \<Rightarrow> ceremony_attestation \<Rightarrow> bool" where
  "readings_agree X f a \<longleftrightarrow>
     compute_master_hash X (reread f a) = Some (ca_master_hash a) \<and>
     (\<exists>m. trimmed_median (map f (source_values (ca_production_sources a))) = Some m \<and>
        \<not> f64_less (round_f64 (1 / 10000)) (f64_abs (f64_sub m (f (ca_median_production_tonnes a))))) \<and>
     (\<exists>p. trimmed_median (map f (source_values (ca_price_sources a))) = Some p \<and> price_cents p = ca_median_price_usd_cents a) \<and>
     computed_reward_opl (f (ca_median_production_tonnes a)) 350640 = ca_base_reward_opl a"

lemma record_median_errors:
  assumes rec: "ceremony_record X seed prods m pr p a" and prices: "source_values (ca_price_sources a) \<noteq> []"
  shows "median_errors (reread f a) = Some [] \<longleftrightarrow>
     (\<exists>m. trimmed_median (map f (source_values (ca_production_sources a))) = Some m \<and>
        \<not> f64_less (round_f64 (1 / 10000)) (f64_abs (f64_sub m (f (ca_median_production_tonnes a))))) \<and>
     (\<exists>p. trimmed_median (map f (source_values (ca_price_sources a))) = Some p \<and> price_cents p = ca_median_price_usd_cents a)"
proof -
  have "\<not> length (source_values (ca_production_sources a)) < 5" "\<not> source_values (ca_price_sources a) = []"
    using rec prices record_numbers(1) [OF rec prices] by (simp_all add: ceremony_record_def)
  then show ?thesis
    by (cases "trimmed_median (map f (source_values (ca_production_sources a)))";
        cases "trimmed_median (map f (source_values (ca_price_sources a)))")
      (auto simp: median_errors_def reread_fields reread_source_values MIN_PROD_SOURCES_def note_if_def)
qed

lemma record_checks_pass:
  assumes rec: "ceremony_record X seed prods m pr p a" and ok: "ceremony_crypto_ok X" and prices: "source_values (ca_price_sources a) \<noteq> []"
  shows "signature_errors X (reread f a) = []"
    and "concat (map (source_errors X label) (ca_production_sources (reread f a))) = []"
    and "concat (map (source_errors X label) (ca_price_sources (reread f a))) = []"
    and "timing_errors (reread f a) = [] \<longleftrightarrow>
      ca_ceremony_start_ms a \<le> ca_ceremony_end_ms a \<and> ca_ceremony_end_ms a - ca_ceremony_start_ms a \<le> 300000"
    and "derivation_errors (reread f a) = [] \<longleftrightarrow>
      ca_production_data_year a \<noteq> 0 \<and> computed_reward_opl (f (ca_median_production_tonnes a)) 350640 = ca_base_reward_opl a"
proof -
  note num = record_numbers [OF rec prices]
  note fine = rec [unfolded ceremony_record_def]
  have seed: "length seed = 32" using rec by (simp add: ceremony_record_def)
  let ?pk = "x_ed25519_public_key X seed"
  obtain b where b: "ca_master_hash a = x_hex_encode X (hash_as_bytes b)" "ca_operator_public_key a = x_hex_encode X ?pk"
    "ca_operator_signature a = x_hex_encode X (x_ed25519_sign X seed (hash_as_bytes b))"
    using record_signature [OF rec ok] by blast
  have ed: "length ?pk = 32" "x_ed25519_key_valid X ?pk" "length (x_ed25519_sign X seed (hash_as_bytes b)) = 64"
    "x_ed25519_verify_strict X ?pk (hash_as_bytes b) (x_ed25519_sign X seed (hash_as_bytes b))"
    using ok seed by (simp_all add: ceremony_crypto_ok_def)
  have decoded: "decode_or_zero X 32 ''master_hash'' (ca_master_hash a) = (hash_as_bytes b, [])"
    "decode_or_zero X 32 ''operator_public_key'' (ca_operator_public_key a) = (?pk, [])"
    "decode_or_zero X 64 ''operator_signature'' (ca_operator_signature a) = (x_ed25519_sign X seed (hash_as_bytes b), [])"
    unfolding decode_or_zero_def b(1,2,3) decode_encoded [OF ok length_hash_as_bytes] decode_encoded [OF ok ed(1)]
      decode_encoded [OF ok ed(3)] by simp_all
  show "signature_errors X (reread f a) = []"
    unfolding signature_errors_def reread_fields decoded prod.case note_if_def using ed(2,4) by simp
  have "source_errors X label (reread_source f r) = []" if r: "r \<in> set prods \<or> r \<in> set pr" for r
  proof -
    have "source_fine X PROD_MIN_TONNES PROD_MAX_TONNES r \<or> source_fine X PRICE_MIN_USD_OZ PRICE_MAX_USD_OZ r"
      using fine r by blast
    then obtain lo hi where "source_fine X lo hi r" by blast
    then show ?thesis
      using decode_encoded [OF ok length_hash_as_bytes] by (auto simp: source_fine_def source_errors_def note_if_def reread_source_def)
  qed
  then show "concat (map (source_errors X label) (ca_production_sources (reread f a))) = []"
    "concat (map (source_errors X label) (ca_price_sources (reread f a))) = []"
    by (simp_all add: num(1,2) reread_fields)
  have "ca_price_fetch_spread_ms a = price_fetch_spread_ms pr" using fine by (auto simp: assemble_def Let_def)
  moreover have "min (n * 1000000) 18446744073709551615 = ca_base_reward_flakes a" if "n = ca_base_reward_opl a" for n
    using num(8,9,10) that by simp
  ultimately show "derivation_errors (reread f a) = [] \<longleftrightarrow>
      ca_production_data_year a \<noteq> 0 \<and> computed_reward_opl (f (ca_median_production_tonnes a)) 350640 = ca_base_reward_opl a"
    by (auto simp: derivation_errors_def reread_fields reread_spread num(2,7) blocks_per_year_agree blocks_per_year_f64(1) note_if_def
        CEREMONY_FLAKES_PER_OPL_def U64_MAX_def Let_def)
  have "ca_ceremony_timestamp a = ca_ceremony_start_ms a div 1000" using fine by (auto simp: assemble_def Let_def)
  then show "timing_errors (reread f a) = [] \<longleftrightarrow>
      ca_ceremony_start_ms a \<le> ca_ceremony_end_ms a \<and> ca_ceremony_end_ms a - ca_ceremony_start_ms a \<le> 300000"
    by (auto simp: timing_errors_def reread_fields note_if_def CEREMONY_WINDOW_SECS_def sat_sub_def)
qed

lemma record_verified:
  assumes rec: "ceremony_record X seed prods m pr p a" and prices: "source_values (ca_price_sources a) \<noteq> []"
    and ok: "ceremony_crypto_ok X"
  shows "map_option (\<lambda>r. if report_ok r then 0 else (1 :: nat)) (verify_attestation X (reread f a)) = Some 0 \<longleftrightarrow>
      ca_ceremony_start_ms a \<le> ca_ceremony_end_ms a \<and> ca_ceremony_end_ms a - ca_ceremony_start_ms a \<le> 300000 \<and>
      ca_production_data_year a \<noteq> 0 \<and> readings_agree X f a"
proof -
  note checks = record_checks_pass [OF rec ok prices, where f = f]
  have "map_option (\<lambda>r. if report_ok r then 0 else (1 :: nat)) (verify_attestation X (reread f a)) = Some 0 \<longleftrightarrow>
      compute_master_hash X (reread f a) = Some (ca_master_hash a) \<and> timing_errors (reread f a) = [] \<and>
      median_errors (reread f a) = Some [] \<and> derivation_errors (reread f a) = []"
    by (cases "compute_master_hash X (reread f a)"; cases "median_errors (reread f a)")
      (auto simp: verify_attestation_def report_ok_def note_if_def checks(1-3) reread_fields(1))
  then show ?thesis unfolding checks(4,5) record_median_errors [OF rec prices] readings_agree_def by blast
qed

lemma exact_agree:
  assumes rec: "ceremony_record X seed prods m pr p a" and prices: "source_values (ca_price_sources a) \<noteq> []"
    and ok: "ceremony_crypto_ok X"
  shows "(\<forall>v \<in> set (written_floats a). f v = v) \<longrightarrow> readings_agree X f a"
proof
  assume exact: "\<forall>v \<in> set (written_floats a). f v = v"
  note num = record_numbers [OF rec prices]
  note reading = exact_reading [OF rec prices ok exact]
  obtain t where t: "m = FNum t" using num(5) by blast
  have medians: "trimmed_median (source_values prods) = Some m" "trimmed_median (source_values pr) = Some p"
    using rec prices num(2) by (auto simp: ceremony_record_def)
  have "map f (source_values prods) = source_values prods" "map f (source_values pr) = source_values pr" "f m = m"
    using exact by (auto simp: written_floats_def num(1-3) intro!: map_idI)
  moreover have "\<not> f64_less (round_f64 (1 / 10000)) (f64_abs (f64_sub m m))"
  proof -
    have "f64_sub m m = FNum 0" by (simp add: t f64_sub_def round_f64_def)
    moreover have "round_f64 (1 / 10000) = FNum (round_magnitude (1 / 10000))" by (rule round_f64_pos) simp_all
    ultimately show ?thesis using round_magnitude_nonneg [of "1 / 10000"] by simp
  qed
  ultimately show "readings_agree X f a"
    using reading(1,5) medians by (simp add: readings_agree_def num(1-4) rewards_agree)
qed

text \<open>
  C39: When the tool's own verification passes a file that a ceremony, not a dry run, has written with at least one
  price, and that is read again with each floating-point number v as some f v. It does exactly when the clock did
  not run backwards, at most five minutes passed and the year is not zero, and, of the re-read numbers, the hash is
  the one of the file, the production values have a median within a ten-thousandth of the re-read one, the prices
  have a median of the same cents, and the re-read median gives the same whole coins. These last conditions hold when every
  number comes back exactly, and the hash when every number keeps its six decimals. The signature, the evidence, the spread and the other
  fields are always in order. The node asks for none of the first three.
\<close>

theorem ceremony_output_verifies:
  assumes run: "run_ceremony X cli input = Some (Written a)" and "\<not> cc_dry_run cli"
    and "length (cin_random_seed input) = 32"
    and prices: "source_values (ca_price_sources a) \<noteq> []"
    and ok: "ceremony_crypto_ok X"
    and read: "reads_back X f a"
  shows "(run_verify X (Inr (x_attestation_text X a)) = Some 0 \<longleftrightarrow>
      ca_ceremony_start_ms a \<le> ca_ceremony_end_ms a \<and> ca_ceremony_end_ms a - ca_ceremony_start_ms a \<le> 300000 \<and>
      ca_production_data_year a \<noteq> 0 \<and> readings_agree X f a) \<and>
    ((\<forall>v \<in> set (written_floats a). same_six_decimals v (f v)) \<longrightarrow> compute_master_hash X (reread f a) = Some (ca_master_hash a)) \<and>
    ((\<forall>v \<in> set (written_floats a). f v = v) \<longrightarrow> readings_agree X f a)"
proof -
  obtain seed prods m pr p where rec: "ceremony_record X seed prods m pr p a"
    using run_ceremony_record [OF run assms(2,3)] by blast
  have "x_read_attestation X (x_attestation_text X a) = Some (reread f a)" using read by (simp add: reads_back_def)
  then have "run_verify X (Inr (x_attestation_text X a)) = map_option (\<lambda>r. if report_ok r then 0 else 1) (verify_attestation X (reread f a))"
    by (simp add: run_verify_def)
  moreover have "(\<forall>v \<in> set (written_floats a). same_six_decimals v (f v)) \<longrightarrow> compute_master_hash X (reread f a) = Some (ca_master_hash a)"
    using reread_master_hash record_signature [OF rec ok] by metis
  ultimately show ?thesis
    using record_verified [OF rec prices ok] exact_agree [OF rec prices ok] by simp
qed

theorem ceremony_output_verifies_witness:
  "\<exists>X cli input a. run_ceremony X cli input = Some (Written a) \<and> run_verify (X :: tool_externs) (Inr (x_attestation_text X a)) = Some 0"
proof -
  obtain X a where a: "run_ceremony (X :: tool_externs) demo_ceremony_cli demo_ceremony_input = Some (Written a)"
    "source_values (ca_price_sources a) \<noteq> []" "ceremony_crypto_ok X" "reads_back X id a"
    "ca_ceremony_start_ms a = ca_ceremony_end_ms a" "ca_production_data_year a = 2024"
    using demo_instance by blast
  have "\<not> cc_dry_run demo_ceremony_cli" "length (cin_random_seed demo_ceremony_input) = 32"
    by (simp_all add: demo_ceremony_cli_def demo_ceremony_input_def)
  from ceremony_output_verifies [OF a(1) this a(2-4)] have "run_verify X (Inr (x_attestation_text X a)) = Some 0" by (simp add: a(5,6))
  with a(1) show ?thesis by blast
qed

section \<open>What the signature leaves open\<close>

lemma set_entry_canonical:
  "map (\<lambda>e. (fst e, c (snd e))) kvs1 = map (\<lambda>e. (fst e, c (snd e))) kvs2 \<Longrightarrow>
   map (\<lambda>e. (fst e, c (snd e))) (set_entry k v kvs1) = map (\<lambda>e. (fst e, c (snd e))) (set_entry k v kvs2)"
proof (induction k v kvs1 arbitrary: kvs2 rule: set_entry.induct)
  case (2 k v k' v' kvs)
  then obtain w kvs' where "kvs2 = (k', w) # kvs'" by (cases kvs2) auto
  with 2 show ?case by auto
qed simp

lemma master_hash_cong:
  assumes "x_json_parse X text1 = Some (JObject kvs1)" and "x_json_parse X text2 = Some (JObject kvs2)"
    and "map (\<lambda>e. (fst e, canonical_json X (snd e))) kvs1 = map (\<lambda>e. (fst e, canonical_json X (snd e))) kvs2"
  shows "compute_ceremony_master_hash X text1 = compute_ceremony_master_hash X text2"
proof -
  have "canonical_json X (JObject (set_entry k v (set_entry k' v' kvs1))) =
      canonical_json X (JObject (set_entry k v (set_entry k' v' kvs2)))" for k v k' v'
    by (intro canonical_object_cong set_entry_canonical assms)
  then show ?thesis by (simp add: compute_ceremony_master_hash_def assms(1,2) blank_signed_fields_def)
qed

text \<open>
  C40: The signature of a ceremony file does not fix the numbers the genesis is made of. The canonical form that is
  hashed keeps six decimals, so the median in an accepted file can be replaced by another with the same six
  decimals, in range and with the same reward, and the file is still accepted with its hash and signature, while the
  thousandths of tonnes in the genesis are those of the new number.
\<close>

theorem signature_leaves_decimals_open:
  assumes accepted: "load_genesis_config_from_attestation X (Inr text1) allow = Some (Inr g1)"
    and read: "x_read_ceremony X text1 = Some v" "x_read_ceremony X text2 = Some (v\<lparr>af_median_production_tonnes := FNum q2\<rparr>)"
    and parse: "x_json_parse X text1 = Some (JObject (es1 @ (''median_production_tonnes'', JNumber (FloatNumber (FNum q1))) # es2))"
      "x_json_parse X text2 = Some (JObject (es1 @ (''median_production_tonnes'', JNumber (FloatNumber (FNum q2))) # es2))"
    and nums: "af_median_production_tonnes v = FNum q1"
    and same: "show_decimals 6 q1 = show_decimals 6 q2"
    and range: "1000 \<le> q2" "q2 \<le> 10000" "derived_reward_opl (FNum q2) 350640 = derived_reward_opl (FNum q1) 350640"
  shows "\<exists>g2 c1 c2. load_genesis_config_from_attestation X (Inr text2) allow = Some (Inr g2) \<and>
    gn_ceremony_data g1 = Some c1 \<and>
    gn_ceremony_data g2 = Some c2 \<and> c2 = c1\<lparr>gc_production_tonnes_milli := f64_to_u64 (f64_round (f64_mul (FNum q2) (round_f64 1000)))\<rparr> \<and>
    gc_production_tonnes_milli c1 = f64_to_u64 (f64_round (f64_mul (FNum q1) (round_f64 1000)))"
proof -
  let ?v2 = "v\<lparr>af_median_production_tonnes := FNum q2\<rparr>"
  have number: "canonical_json X (JNumber (FloatNumber (FNum q1))) = canonical_json X (JNumber (FloatNumber (FNum q2)))"
    by (simp add: same)
  have hash: "compute_ceremony_master_hash X text1 = compute_ceremony_master_hash X text2"
    by (rule master_hash_cong [OF parse]) (simp only: list.map map_append fst_conv snd_conv number)
  have "af_production_sources ?v2 = af_production_sources v" "af_price_sources ?v2 = af_price_sources v" by simp_all
  then have sources: "validate_ceremony_sources ?v2 = validate_ceremony_sources v"
    by (simp only: validate_ceremony_sources_def)
  obtain h pk sg where ok: "validate_ceremony_sources v = Inr ()" "validate_ceremony_reward_derivation v = Inr ()"
    "compute_ceremony_master_hash X text1 = Some (Inr h)"
    "decode_hex_array X 32 ''master_hash'' (af_master_hash v) = Inr h" "check_ceremony_signature X allow h v = Inr (pk, sg)"
    "g1 = ceremony_genesis_config X h pk sg v"
    using accepted read(1) unfolding load_accepts_iff by auto
  have "is_ok (validate_ceremony_reward_derivation v)" using ok(2) by simp
  then have "is_ok (validate_ceremony_reward_derivation ?v2)"
    using range by (simp add: reward_derivation_exact nums)
  then have derivation: "validate_ceremony_reward_derivation ?v2 = Inr ()" by (simp add: is_ok_def split: sum.splits)
  have "check_ceremony_signature X allow h ?v2 = Inr (pk, sg)"
  proof -
    have "af_operator_public_key ?v2 = af_operator_public_key v" "af_operator_signature ?v2 = af_operator_signature v" by simp_all
    then show ?thesis using ok(5) by (simp only: check_ceremony_signature_def)
  qed
  then have "load_genesis_config_from_attestation X (Inr text2) allow = Some (Inr (ceremony_genesis_config X h pk sg ?v2))"
    unfolding load_accepts_iff using read(2) sources derivation ok(1,3,4) hash by auto
  moreover have "gn_ceremony_data (ceremony_genesis_config X h pk sg ?v2) =
      Some (the (gn_ceremony_data g1)\<lparr>gc_production_tonnes_milli := f64_to_u64 (f64_round (f64_mul (FNum q2) (round_f64 1000)))\<rparr>)"
    by (simp add: ceremony_genesis_config_def ok(6))
  moreover have "gc_production_tonnes_milli (the (gn_ceremony_data g1)) = f64_to_u64 (f64_round (f64_mul (FNum q1) (round_f64 1000)))"
    by (simp add: ceremony_genesis_config_def ok(6) nums)
  moreover have "gn_ceremony_data g1 = Some (the (gn_ceremony_data g1))" by (simp add: ceremony_genesis_config_def ok(6))
  ultimately show ?thesis by blast
qed

lemma round_half_even_near: "\<bar>x - of_int n\<bar> < 1 / 2 \<Longrightarrow> round_half_even x = n"
proof -
  assume near: "\<bar>x - of_int n\<bar> < 1 / 2"
  consider "\<lfloor>x\<rfloor> = n" | "\<lfloor>x\<rfloor> = n - 1" using near by linarith
  then show ?thesis
    using near by cases (auto simp: round_half_even_def Let_def abs_if split: if_splits)
qed

lemma reward_332:
  assumes "3630 \<le> t" and "t \<le> 3631"
  shows "derived_reward_opl (FNum t) 350640 = 332"
proof -
  obtain r where r: "CEREMONY_TROY_OZ_PER_TONNE = FNum r" "32150 \<le> r" "r \<le> 32151" using troy_ounces by blast
  have "3630 * 32150 \<le> t * r" "t * r \<le> 3631 * 32151" using assms r by (intro mult_mono; simp)+
  then obtain z where z: "round_f64 (t * r) = FNum z" "116704500 \<le> z" "z \<le> 116740281"
    using round_between_nats [of 116704500 116740281 "t * r"] by auto
  have q: "332 \<le> z / 350640" "z / 350640 \<le> 21311 / 64" using z by (simp_all add: field_simps)
  then obtain y where y: "round_f64 (z / 350640) = FNum y" "332 \<le> y"
    using round_between_nats [of 332 1000 "z / 350640"] by auto
  have pos: "0 < z / 350640" using q(1) by linarith
  have "z / 350640 \<le> 2 ^ 53" using q(2) by simp
  then have "y = round_magnitude (z / 350640)" using round_f64_pos [OF pos small_power] y(1) by simp
  also have "\<dots> \<le> round_magnitude (21311 / 64)" by (rule round_magnitude_mono [OF pos q(2)])
  also have "\<dots> = 21311 / 64"
    by (rule round_magnitude_dyadic [of _ "- 6" 21311]) (simp_all add: power_int_minus_divide)
  finally have "\<lfloor>y\<rfloor> = 332" using y(2) by linarith
  then show ?thesis by (simp add: derived_reward_opl_def r(1) z(1) y(1) blocks_per_year_f64(3) U64_MAX_def)
qed

text \<open>Two numbers with the decimals 3630.000500 on either side of 3630.0005.\<close>

definition near_below :: rat where "near_below = 3630 + 536870 / 2 ^ 30"
definition near_above :: rat where "near_above = 3630 + 536871 / 2 ^ 30"

lemma near_facts:
  "3630 \<le> near_below" "near_below \<le> 3631" "3630 \<le> near_above" "near_above \<le> 3631"
  "show_decimals 6 near_below = show_decimals 6 near_above"
  "f64_to_u64 (f64_round (f64_mul (FNum near_below) (round_f64 1000))) = 3630000"
  "f64_to_u64 (f64_round (f64_mul (FNum near_above) (round_f64 1000))) = 3630001"
proof -
  show "3630 \<le> near_below" "near_below \<le> 3631" "3630 \<le> near_above" "near_above \<le> 3631"
    by (simp_all add: near_below_def near_above_def)
  have "round_half_even (near_below * 10 ^ 6) = 3630000500" "round_half_even (near_above * 10 ^ 6) = 3630000500"
    by (rule round_half_even_near; simp add: near_below_def near_above_def)+
  then show "show_decimals 6 near_below = show_decimals 6 near_above"
    by (simp add: show_decimals_def near_below_def near_above_def)
  have "round_magnitude (near_below * 1000) = near_below * 1000"
    by (rule round_magnitude_dyadic [of _ "- 27" "(3630 * 2 ^ 30 + 536870) * 125"]) (simp_all add: near_below_def power_int_minus_divide)
  then have "round_f64 (near_below * 1000) = FNum (near_below * 1000)"
    using round_f64_pos [of "near_below * 1000"] small_power [of "near_below * 1000"] by (simp add: near_below_def)
  moreover have "\<lfloor>near_below * 1000 + 1 / 2\<rfloor> = 3630000" by (rule floor_unique) (simp_all add: near_below_def)
  ultimately show "f64_to_u64 (f64_round (f64_mul (FNum near_below) (round_f64 1000))) = 3630000"
    by (simp add: round_f64_numeral near_below_def U64_MAX_def)
  have "round_magnitude (near_above * 1000) = near_above * 1000"
    by (rule round_magnitude_dyadic [of _ "- 27" "(3630 * 2 ^ 30 + 536871) * 125"]) (simp_all add: near_above_def power_int_minus_divide)
  then have "round_f64 (near_above * 1000) = FNum (near_above * 1000)"
    using round_f64_pos [of "near_above * 1000"] small_power [of "near_above * 1000"] by (simp add: near_above_def)
  moreover have "\<lfloor>near_above * 1000 + 1 / 2\<rfloor> = 3630001" by (rule floor_unique) (simp_all add: near_above_def)
  ultimately show "f64_to_u64 (f64_round (f64_mul (FNum near_above) (round_f64 1000))) = 3630001"
    by (simp add: round_f64_numeral near_above_def U64_MAX_def)
qed

definition demo_reading :: ceremony_source_result where
  "demo_reading = \<lparr> sr_name = ''USGS'', sr_raw_response_hash = [], sr_extracted_value = Some (FNum 3630), sr_value_origin = ''auto-parse'',
     sr_evidence_note = None, sr_evidence_timestamp_ms = None \<rparr>"

definition demo_file :: ceremony_attestation_file where
  "demo_file =
     \<lparr> af_ceremony_timestamp = 1000, af_operator_public_key = x_hex_encode demo_tool (replicate 32 1),
       af_operator_signature = x_hex_encode demo_tool (replicate 64 0),
       af_production_sources = [demo_reading, demo_reading, demo_reading, demo_reading, demo_reading],
       af_price_sources = [demo_reading], af_median_production_tonnes = FNum near_below, af_median_price_usd_cents = 363000,
       af_blocks_per_year = 350640, af_base_reward_flakes = 332000000, af_derivation_steps = [],
       af_master_hash = x_hex_encode demo_tool (hash_as_bytes (Hash 7)) \<rparr>"

text \<open>The empty text stands for the file as signed, any other for the file as changed.\<close>

definition demo_texts :: tool_externs where
  "demo_texts = demo_tool\<lparr>
     x_json_parse := (\<lambda>t. Some (JObject ([] @ (''median_production_tonnes'', JNumber (FloatNumber (FNum (if t = [] then near_below else near_above)))) # []))),
     x_read_ceremony := (\<lambda>t. Some (if t = [] then demo_file else demo_file\<lparr>af_median_production_tonnes := FNum near_above\<rparr>))\<rparr>"

lemma demo_texts_fields:
  "x_json_parse demo_texts t = Some (JObject ([] @ (''median_production_tonnes'', JNumber (FloatNumber (FNum (if t = [] then near_below else near_above)))) # []))"
  "x_read_ceremony demo_texts t = Some (if t = [] then demo_file else demo_file\<lparr>af_median_production_tonnes := FNum near_above\<rparr>)"
  "x_hex_decode demo_texts = x_hex_decode demo_tool" "x_blake3 demo_texts bs = Hash 7"
  "x_ed25519_public_key demo_texts = id" "x_ed25519_key_valid demo_texts pk" "x_ed25519_verify_strict demo_texts pk m sg"
  using demo_tool_fields by (simp_all add: demo_texts_def)
    (simp_all add: demo_tool_def demo_store_def storage_externs.extend_def tool_externs.fields_def ceremony_externs.extend_def
      ceremony_externs.fields_def node_externs.extend_def node_externs.fields_def)

lemma demo_file_accepted:
  "\<exists>pk sg h. load_genesis_config_from_attestation demo_texts (Inr []) False = Some (Inr (ceremony_genesis_config demo_texts h pk sg demo_file))"
proof -
  have decode: "decode_hex_array demo_texts n field (x_hex_encode demo_tool bs) = Inr bs" if "length bs = n" for n field bs
  proof -
    have "x_hex_decode demo_tool (x_hex_encode demo_tool bs) = Some bs"
      using demo_tool_crypto unfolding ceremony_crypto_ok_def with_readers_fields by blast
    then show ?thesis using that by (simp add: decode_hex_array_def demo_texts_fields)
  qed
  have read: "x_read_ceremony demo_texts [] = Some demo_file" by (simp add: demo_texts_fields)
  have usd: "f64_div (f64_of_nat CEREMONY_PRICE_MIN_USD_CENTS) (round_f64 100) = FNum 500"
      "f64_div (f64_of_nat CEREMONY_PRICE_MAX_USD_CENTS) (round_f64 100) = FNum 15000"
    by (simp_all add: f64_of_nat_def CEREMONY_PRICE_MIN_USD_CENTS_def CEREMONY_PRICE_MAX_USD_CENTS_def round_f64_numeral)
  have sources: "validate_ceremony_sources demo_file = Inr ()"
    by (simp add: validate_ceremony_sources_def demo_file_def demo_reading_def extracted_values_def map_filter_simps usd
        ceremony_bounds_f64 outside_def MIN_CEREMONY_PRODUCTION_SOURCES_def lacks_evidence_def starts_with_def)
  have "is_ok (validate_ceremony_reward_derivation demo_file)"
    unfolding reward_derivation_exact using near_facts(1,2) by (simp add: demo_file_def reward_332)
  then have derivation: "validate_ceremony_reward_derivation demo_file = Inr ()" by (simp add: is_ok_def split: sum.splits)
  obtain w where w: "blank_signed_fields (JObject ([] @ (''median_production_tonnes'', JNumber (FloatNumber (FNum near_below))) # [])) = Some w"
    "finite_json w"
    by (rule that) (auto simp: blank_signed_fields_def intro!: finite_json.intros)
  obtain t where "canonical_json demo_texts w = Inr t" using canonical_json_exists [OF w(2)] by blast
  then have hash: "compute_ceremony_master_hash demo_texts [] = Some (Inr (hash_as_bytes (Hash 7)))"
    using w(1) by (simp add: compute_ceremony_master_hash_def demo_texts_fields del: hash_as_bytes.simps)
  have "replicate 32 (1 :: byte) \<noteq> replicate 32 42" by (simp add: replicate_eq_replicate)
  then have "check_ceremony_signature demo_texts False (hash_as_bytes (Hash 7)) demo_file = Inr (replicate 32 1, replicate 64 0)"
    by (simp add: check_ceremony_signature_def demo_file_def decode demo_texts_fields(5-7) DRY_RUN_GENESIS_OPERATOR_SEED_def)
  moreover have "decode_hex_array demo_texts 32 ''master_hash'' (af_master_hash demo_file) = Inr (hash_as_bytes (Hash 7))"
    by (simp add: demo_file_def decode del: hash_as_bytes.simps)
  ultimately show ?thesis unfolding load_accepts_iff using read sources derivation hash by blast
qed

theorem signature_leaves_decimals_open_witness:
  "\<exists>(X :: tool_externs) text1 text2 g1 g2 c1 c2. load_genesis_config_from_attestation X (Inr text1) False = Some (Inr g1) \<and>
     load_genesis_config_from_attestation X (Inr text2) False = Some (Inr g2) \<and>
     gn_ceremony_data g1 = Some c1 \<and> gn_ceremony_data g2 = Some c2 \<and>
     gc_operator_signature c1 = gc_operator_signature c2 \<and>
     gc_production_tonnes_milli c1 = 3630000 \<and> gc_production_tonnes_milli c2 = 3630001"
proof -
  obtain g1 where g1: "load_genesis_config_from_attestation demo_texts (Inr []) False = Some (Inr g1)"
    using demo_file_accepted by blast
  have "x_read_ceremony demo_texts [] = Some demo_file"
    "x_read_ceremony demo_texts ''x'' = Some (demo_file\<lparr>af_median_production_tonnes := FNum near_above\<rparr>)"
    "x_json_parse demo_texts [] = Some (JObject ([] @ (''median_production_tonnes'', JNumber (FloatNumber (FNum near_below))) # []))"
    "x_json_parse demo_texts ''x'' = Some (JObject ([] @ (''median_production_tonnes'', JNumber (FloatNumber (FNum near_above))) # []))"
    "af_median_production_tonnes demo_file = FNum near_below"
    by (simp_all add: demo_texts_fields demo_file_def)
  note read = this
  have range: "1000 \<le> near_above" "near_above \<le> 10000"
    "derived_reward_opl (FNum near_above) 350640 = derived_reward_opl (FNum near_below) 350640"
    using near_facts(1-4) by (simp_all add: reward_332)
  obtain g2 c1 c2 where g: "load_genesis_config_from_attestation demo_texts (Inr ''x'') False = Some (Inr g2)"
    "gn_ceremony_data g1 = Some c1" "gn_ceremony_data g2 = Some c2"
    "c2 = c1\<lparr>gc_production_tonnes_milli := f64_to_u64 (f64_round (f64_mul (FNum near_above) (round_f64 1000)))\<rparr>"
    "gc_production_tonnes_milli c1 = f64_to_u64 (f64_round (f64_mul (FNum near_below) (round_f64 1000)))"
    using signature_leaves_decimals_open [OF g1 read(1,2) read(3,4,5) near_facts(5) range]
    by blast
  have "gc_operator_signature c1 = gc_operator_signature c2" "gc_production_tonnes_milli c1 = 3630000"
    "gc_production_tonnes_milli c2 = 3630001"
    using g(4,5) by (simp_all add: near_facts(6,7))
  with g1 g(1-3) show ?thesis by blast
qed

end
