(* ===== verification/Spec2Isabelle.thy ===== *)
theory Spec2Isabelle
  imports Rpc_Relay Wallet_Props Ceremony_Accept
begin

text \<open>
  Opolys is a blockchain node in Rust. Blocks are produced by miners, who search a nonce for the
  memory-hard EVO-OMAP digest, or by refiners, who bond coins and sign; accounts, bonds and burned
  fees make up the supply. The theories of this directory translate the consensus rules, the node
  that applies them, its storage, its network task, the event loop of the binary, its RPC server and
  the wallet.

  Parts of the program, and the theory of each, in the order of imports. Paths are under
  \<open>src/crates\<close>, those of scripts under \<open>src\<close>.

  \<^item> Prelude: hash maps as association lists, saturating and wrapping \<open>u64\<close> arithmetic, errors as the left of
    a sum, little-endian bytes, and the collection \<open>wf_intros\<close> of invariant rules.
  \<^item> Constants, Types, Crypto: \<open>core/src/constants.rs\<close>, \<open>core/src/types.rs\<close>, \<open>core/src/errors.rs\<close>,
    \<open>crypto/src/hash.rs\<close>, \<open>crypto/src/signing.rs\<close>.
  \<^item> IntSqrt, Emission, Difficulty: the integer square roots, \<open>consensus/src/emission.rs\<close>,
    \<open>consensus/src/difficulty.rs\<close>.
  \<^item> Account, Refiner, Mempool, Block, Pow, Genesis\_Block: the files of these names in
    \<open>consensus/src\<close>; Refiner\_Laws and Refiner\_Props hold the lemmas and properties of Refiner.
  \<^item> Dispatcher: \<open>execution/src/dispatcher.rs\<close>.
  \<^item> Storage\_DB, Storage\_Laws: \<open>storage/src/store.rs\<close> over a key-value database.
  \<^item> Economics, Chain, Node, Node\_Ops: \<open>node/src/node.rs\<close>: finality and slashing helpers, the chain state and
    its persisted form, the application of a block step by step, and start-up, block production,
    attestations and bans. Node\_Laws, Node\_Chain, Node\_Props, Node\_Reach and Node\_Start hold what is proved.
  \<^item> Network: \<open>networking/src\<close>: messages, configuration, commands, events, the network task.
  \<^item> Peers, Peer\_Events, Tasks: \<open>node/src/main.rs\<close>: the state of the event loop and its pure rules, the handler of
    every network event, and the arguments and the tasks beside the loop. Peer\_Props, Peer\_Reach and
    Peer\_Sync hold what is proved.
  \<^item> Process: the loop and the tasks composed into one process, with the invariants of every run of it.
    Production: from the mempool over the block template and the search to the applied block.
    Pool\_Run: what the steps of the process do to the pool.
  \<^item> Jsonrpc, Rpc\_Views, Rpc\_Server: \<open>rpc/src\<close>: requests, errors and the rate limiter, the responses and what
    fills them, every method and the pipeline of a request over the state of the process. Rpc\_Props,
    Rpc\_Node and Rpc\_Relay hold what is proved of the server alone, of server and node, and of the process.
  \<^item> Wallet, Wallet\_Cli: \<open>wallet/src\<close>: keys, key files, derivation, signing, and every command. Wallet\_Props
    follows a signed transaction into the server and an exported key into the node. Text holds what several
    parts do with decimal numbers and letters.
  \<^item> Float64: the type \<open>f64\<close> with its rounding, for the ceremony and the numbers of JSON. Ceremony: the checks of the genesis ceremony file in
    \<open>node/src/node.rs\<close>. Ceremony\_Tool, Ceremony\_Run: the tool that writes it, \<open>scripts/genesis_ceremony/src/main.rs\<close>, its
    computations and its dialogue. Ceremony\_Props holds what is proved of the numbers, Ceremony\_Accept follows a
    file from the ceremony into the node.

  How they correspond to the code. A struct is a record, an enum a datatype, a map an association list
  with distinct keys in any order, a machine integer a natural number with the wrap-around or the
  saturation of the code written out at each operation. A function that returns a
  \<open>Result\<close> returns a sum; one that mutates its receiver returns the new state too, also on error,
  so that partial effects before an error show. A loop that may not end returns an option, with
  \<open>None\<close> for not returning; an \<open>expect\<close> that fails is \<open>None\<close> as well. The parallel search of a nonce
  is a relation between input and possible results. Error messages are format strings with their
  arguments.

  Code outside \<open>src\<close> is a parameter: records named externs hold BLAKE3, ed25519, hexadecimal and Borsh
  codecs, the EVO-OMAP digests, the failures of the database, the bytes of a peer id and the parser
  of addresses. What a theorem needs of them, for example that Borsh decodes what it encoded, or that
  accounts can be serialized, is a named predicate in its hypotheses, and its witness instantiates
  the parameters.

  What is shown. Arithmetic: three square roots agree with the floor, rewards stay in their bounds,
  the retarget is the rounded proportion. Stores: account transfers, the mempool, the refiner set with its
  first-in-first-out unbonding and its selection in proportion to stake, each with an invariant that
  every operation keeps. Transactions conserve coins, are not replayable and need a valid signature.
  Blocks: validation is exact; the hash commits to what is listed; mined blocks verify. Storage: what
  is saved is read back, and a foreign or corrupted database is refused. Node: applying a block conserves
  the supply, a checked block commits, every reachable node keeps its books, a restart restores it.
  Event loop: connection limits, trust only after the answer to a challenge that was sent, the contents of sync
  answers, and where honest peers are banned; the books are kept in every run of the process, and what is broadcast was applied in it.
  Server: the protected methods need the key, the rate limits hold over every minute, the reported supply is
  that of the stores; where its pool priorities, its missing relay and its mining jobs disagree with the node.
  Wallet: what it signs the server verifies and the ledger executes, an exported key is the node's identity.
  Ceremony: the accepted rewards, the robustness of the median, the dates; when the node and the tool accept what a
  ceremony has written, for any function that tells how its floating-point numbers are read back, since
  serde\_json promises exact reading only with a feature that the workspace does not enable; and what the
  signature leaves open. The interfaces between components are locales,
  interpreted on the model's definitions, where one component relies on the laws of another.

  Bounds and fuel. The square roots and the logarithm recurse with a fuel that the theorems show to be
  enough. Heights and supply are assumed below the end of a \<open>u64\<close> where a theorem says so.

  Not modelled. The digest of EVO-OMAP, hashing, signatures, HMAC, mnemonics and codecs (third-party code); libp2p, the
  HTTP router and listener, serde's text formats, argument parsers, DNS resolution, logging, the access
  lists of Windows and the wiping of memory (input, output and platform); of the ceremony tool the requests to the
  web services, what it prints, and the writers of \<open>genesis_params.rs\<close> and \<open>genesis_verification.txt\<close>. The
  sign of a zero \<open>f64\<close> is not kept, which no branch of the code observes.
\<close>

end
